(* ===== verification/PM_Prelude.thy ===== *)
theory PM_Prelude
  imports Main "HOL-Library.Word" "HOL-Library.Sublist"
begin

text \<open>
  Shared vocabulary of the development: results (Rust's \<open>Result\<close> as a sum with \<open>Inl\<close> for
  \<open>Err\<close>), the vector idioms the code uses (\<open>retain\<close> with a countdown, \<open>iter_mut().find\<close>,
  reading the newest \<open>limit\<close> elements), machine-integer names, and the generic facts about
  them that the component theories rely on. The collections \<open>vec_simps\<close> and
  \<open>res_simps\<close> carry most of the component proofs.
\<close>

named_theorems vec_simps \<open>facts about the vector idioms\<close>
named_theorems res_simps \<open>facts about results and the question-mark operator\<close>

type_synonym u8 = "8 word"
type_synonym u16 = "16 word"
type_synonym u32 = "32 word"
type_synonym u64 = "64 word"

text \<open>
  An \<open>f32\<close> or \<open>f64\<close> is only stored and copied by the modelled code, never computed with:
  its bit pattern stands for it.
\<close>

type_synonym f32 = "32 word"
type_synonym f64 = "64 word"

text \<open>A \<open>DateTime<Utc>\<close> is a point on a linear time axis; the code only compares instants.\<close>

type_synonym time = int

section \<open>Results\<close>

text \<open>The question-mark operator: stop at the first error, otherwise go on with the value.\<close>

fun and_then :: "'e + 'a \<Rightarrow> ('a \<Rightarrow> 'e + 'b) \<Rightarrow> 'e + 'b" where
  "and_then (Inl e) f = Inl e"
| "and_then (Inr a) f = f a"

fun map_err :: "('e \<Rightarrow> 'f) \<Rightarrow> 'e + 'a \<Rightarrow> 'f + 'a" where
  "map_err f (Inl e) = Inl (f e)"
| "map_err f (Inr a) = Inr a"

definition ok_or :: "'e \<Rightarrow> 'a option \<Rightarrow> 'e + 'a" where
  "ok_or e x = (case x of None \<Rightarrow> Inl e | Some a \<Rightarrow> Inr a)"

definition is_ok :: "'e + 'a \<Rightarrow> bool" where
  "is_ok r = (case r of Inl _ \<Rightarrow> False | Inr _ \<Rightarrow> True)"

text \<open>A guard that returns an error early.\<close>

definition ensure :: "bool \<Rightarrow> 'e \<Rightarrow> 'e + unit" where
  "ensure b e = (if b then Inr () else Inl e)"

section \<open>Vector idioms\<close>

text \<open>
  \<open>Vec::retain\<close> with a countdown, as the trimming code writes it: while the countdown is
  positive, an element that matches is dropped and the countdown decremented.
\<close>

fun retain_after_drop :: "('a \<Rightarrow> bool) \<Rightarrow> nat \<Rightarrow> 'a list \<Rightarrow> 'a list" where
  "retain_after_drop P n [] = []"
| "retain_after_drop P n (x # xs) =
     (if 0 < n \<and> P x then retain_after_drop P (n - 1) xs
      else x # retain_after_drop P n xs)"

text \<open>\<open>if let Some(x) = v.iter_mut().find(P) { *x = f(x) }\<close>: the first match is updated.\<close>

fun update_first :: "('a \<Rightarrow> bool) \<Rightarrow> ('a \<Rightarrow> 'a) \<Rightarrow> 'a list \<Rightarrow> 'a list" where
  "update_first P f [] = []"
| "update_first P f (x # xs) = (if P x then f x # xs else x # update_first P f xs)"

text \<open>\<open>v.iter().rev().filter(P).take(limit)\<close>, collected and reversed.\<close>

definition newest :: "nat \<Rightarrow> ('a \<Rightarrow> bool) \<Rightarrow> 'a list \<Rightarrow> 'a list" where
  "newest limit P xs = rev (take limit (filter P (rev xs)))"

definition count_if :: "('a \<Rightarrow> bool) \<Rightarrow> 'a list \<Rightarrow> nat" where
  "count_if P xs = length (filter P xs)"

definition clamp :: "'a::linorder \<Rightarrow> 'a \<Rightarrow> 'a \<Rightarrow> 'a" where
  "clamp lo hi x = (if x < lo then lo else if hi < x then hi else x)"

subsection \<open>Results: facts\<close>

lemma and_then_eq_Inr [res_simps]:
  "and_then r f = Inr b \<longleftrightarrow> (\<exists>a. r = Inr a \<and> f a = Inr b)"
  by (cases r) auto

lemma and_then_eq_Inl [res_simps]:
  "and_then r f = Inl e \<longleftrightarrow> r = Inl e \<or> (\<exists>a. r = Inr a \<and> f a = Inl e)"
  by (cases r) auto

lemma map_err_eq_Inr [res_simps]: "map_err f r = Inr a \<longleftrightarrow> r = Inr a"
  by (cases r) auto

lemma is_ok_simps [simp]: "is_ok (Inr a)" "\<not> is_ok (Inl e)"
  by (simp_all add: is_ok_def)

lemma is_ok_iff [res_simps]: "is_ok r \<longleftrightarrow> (\<exists>a. r = Inr a)"
  by (cases r) auto

lemma is_ok_unit [res_simps]: "is_ok (r :: 'e + unit) \<longleftrightarrow> r = Inr ()"
  by (cases r) auto

lemma ensure_eq_Inr [res_simps]: "ensure b e = Inr u \<longleftrightarrow> b"
  by (simp add: ensure_def)

lemma ensure_eq_Inl [res_simps]: "ensure b e = Inl f \<longleftrightarrow> \<not> b \<and> f = e"
  by (auto simp add: ensure_def)

lemma ok_or_eq_Inr [res_simps]: "ok_or e x = Inr a \<longleftrightarrow> x = Some a"
  by (auto simp add: ok_or_def split: option.splits)

subsection \<open>Vectors: facts\<close>

lemma filter_retain_after_drop [vec_simps]:
  "filter P (retain_after_drop P n xs) = drop n (filter P xs)"
proof (induction xs arbitrary: n)
  case Nil
  then show ?case by simp
next
  case (Cons x xs)
  then show ?case by (cases n) auto
qed

lemma filter_retain_after_drop_other [vec_simps]:
  assumes "\<And>x. Q x \<Longrightarrow> \<not> P x"
  shows "filter Q (retain_after_drop P n xs) = filter Q xs"
  using assms by (induction xs arbitrary: n) auto

lemma set_retain_after_drop_subset: "set (retain_after_drop P n xs) \<subseteq> set xs"
  by (induction xs arbitrary: n) (auto split: if_splits)

lemma retain_after_drop_0 [simp]: "retain_after_drop P 0 xs = xs"
  by (induction xs) auto

lemma subseq_retain_after_drop: "subseq (retain_after_drop P n xs) xs"
  by (induction xs arbitrary: n) auto

lemma length_update_first [simp]: "length (update_first P f xs) = length xs"
  by (induction xs) auto

lemma map_update_first [vec_simps]:
  assumes "\<And>x. P x \<Longrightarrow> g (f x) = g x"
  shows "map g (update_first P f xs) = map g xs"
  using assms by (induction xs) auto

lemma set_update_first_subset: "set (update_first P f xs) \<subseteq> set xs \<union> f ` set xs"
  by (induction xs) auto

lemma find_update_first [vec_simps]:
  assumes "\<And>x. P x \<Longrightarrow> P (f x)"
  shows "List.find P (update_first P f xs) = map_option f (List.find P xs)"
  using assms by (induction xs) auto

lemma find_update_first_other [vec_simps]:
  assumes "\<And>x. P x \<Longrightarrow> \<not> Q x" "\<And>x. P x \<Longrightarrow> \<not> Q (f x)"
  shows "List.find Q (update_first P f xs) = List.find Q xs"
  using assms by (induction xs) auto

lemma update_first_id: "(\<And>x. x \<in> set xs \<Longrightarrow> \<not> P x) \<Longrightarrow> update_first P f xs = xs"
  by (induction xs) auto

lemma newest_eq_drop [vec_simps]:
  "newest limit P xs = drop (count_if P xs - limit) (filter P xs)"
  by (simp add: newest_def count_if_def rev_filter [symmetric] take_rev)

lemma set_newest_subset: "set (newest limit P xs) \<subseteq> {x \<in> set xs. P x}"
  by (auto simp add: newest_def dest: in_set_takeD)

lemma length_newest [vec_simps]: "length (newest limit P xs) = min limit (count_if P xs)"
  by (simp add: newest_def count_if_def rev_filter [symmetric] min.commute)

lemma count_if_simps [simp]:
  "count_if P [] = 0"
  "count_if P (x # xs) = (if P x then Suc (count_if P xs) else count_if P xs)"
  "count_if P (xs @ ys) = count_if P xs + count_if P ys"
  by (simp_all add: count_if_def)

lemma count_if_le_length: "count_if P xs \<le> length xs"
  by (simp add: count_if_def)

lemma count_if_filter_other:
  assumes "\<And>x. P x \<Longrightarrow> Q x"
  shows "count_if P (filter Q xs) = count_if P xs"
  using assms by (induction xs) auto

lemma count_if_eq_0_iff: "count_if P xs = 0 \<longleftrightarrow> (\<forall>x \<in> set xs. \<not> P x)"
  by (induction xs) auto

lemma find_eq_None_iff: "List.find P xs = None \<longleftrightarrow> (\<forall>x \<in> set xs. \<not> P x)"
  by (induction xs) auto

lemma find_append [vec_simps]:
  "List.find P (xs @ ys) = (case List.find P xs of None \<Rightarrow> List.find P ys | Some x \<Rightarrow> Some x)"
  by (induction xs) auto

lemma find_SomeD: "List.find P xs = Some x \<Longrightarrow> x \<in> set xs \<and> P x"
  by (induction xs) (auto split: if_splits)

lemma clamp_bounds: "lo \<le> hi \<Longrightarrow> lo \<le> clamp lo hi x \<and> clamp lo hi x \<le> hi"
  by (auto simp add: clamp_def)

lemma clamp_id: "lo \<le> x \<Longrightarrow> x \<le> hi \<Longrightarrow> clamp lo hi x = x"
  by (auto simp add: clamp_def)

lemma clamp_idem [simp]: "lo \<le> hi \<Longrightarrow> clamp lo hi (clamp lo hi x) = clamp lo hi x"
  by (auto simp add: clamp_def)

end
