(* ===== verification/Rust_Str.thy ===== *)
theory Rust_Str
  imports PM_Prelude
begin

text \<open>
  Rust strings. A \<open>String\<close> or \<open>&str\<close> is the list of its Unicode scalar values, so
  \<open>chars().count()\<close> is the length of the list and \<open>len()\<close>, which counts UTF-8 bytes, is
  \<open>byte_len\<close>. The character classes and the splitting, trimming, parsing and formatting
  functions of the standard library that the modelled code calls are defined here, with the
  facts the components need: trimming is idempotent, splitting a joined text gives the parts
  back, and a formatted number parses to itself.
\<close>

type_synonym uchar = nat
type_synonym ustr = "nat list"

text \<open>A string literal of the source.\<close>

definition str :: "string \<Rightarrow> ustr" where
  "str s = map of_char s"

definition chr :: "char \<Rightarrow> uchar" where
  "chr c = of_char c"

section \<open>Characters\<close>

text \<open>\<open>char::is_whitespace\<close>: the Unicode property \<open>White_Space\<close>.\<close>

definition is_whitespace :: "uchar \<Rightarrow> bool" where
  "is_whitespace c \<longleftrightarrow>
     (9 \<le> c \<and> c \<le> 13) \<or> c = 32 \<or> c = 133 \<or> c = 160 \<or> c = 5760 \<or>
     (8192 \<le> c \<and> c \<le> 8202) \<or> c = 8232 \<or> c = 8233 \<or> c = 8239 \<or> c = 8287 \<or> c = 12288"

text \<open>\<open>char::is_control\<close>: the Unicode category \<open>Cc\<close>.\<close>

definition is_control :: "uchar \<Rightarrow> bool" where
  "is_control c \<longleftrightarrow> c < 32 \<or> (127 \<le> c \<and> c \<le> 159)"

definition is_ascii_digit :: "uchar \<Rightarrow> bool" where
  "is_ascii_digit c \<longleftrightarrow> 48 \<le> c \<and> c \<le> 57"

definition is_ascii_upper :: "uchar \<Rightarrow> bool" where
  "is_ascii_upper c \<longleftrightarrow> 65 \<le> c \<and> c \<le> 90"

definition is_ascii_lower :: "uchar \<Rightarrow> bool" where
  "is_ascii_lower c \<longleftrightarrow> 97 \<le> c \<and> c \<le> 122"

definition is_ascii_alphanumeric :: "uchar \<Rightarrow> bool" where
  "is_ascii_alphanumeric c \<longleftrightarrow> is_ascii_digit c \<or> is_ascii_upper c \<or> is_ascii_lower c"

definition is_ascii_hexdigit :: "uchar \<Rightarrow> bool" where
  "is_ascii_hexdigit c \<longleftrightarrow>
     is_ascii_digit c \<or> (65 \<le> c \<and> c \<le> 70) \<or> (97 \<le> c \<and> c \<le> 102)"

definition ascii_lower :: "uchar \<Rightarrow> uchar" where
  "ascii_lower c = (if is_ascii_upper c then c + 32 else c)"

definition to_ascii_lowercase :: "ustr \<Rightarrow> ustr" where
  "to_ascii_lowercase s = map ascii_lower s"

text \<open>The number of bytes of a scalar value in UTF-8, and of a string.\<close>

definition len_utf8 :: "uchar \<Rightarrow> nat" where
  "len_utf8 c = (if c < 128 then 1 else if c < 2048 then 2 else if c < 65536 then 3 else 4)"

definition byte_len :: "ustr \<Rightarrow> nat" where
  "byte_len s = sum_list (map len_utf8 s)"

section \<open>Trimming, prefixes, splitting\<close>

definition trim_start :: "ustr \<Rightarrow> ustr" where
  "trim_start s = dropWhile is_whitespace s"

definition trim_end :: "ustr \<Rightarrow> ustr" where
  "trim_end s = rev (dropWhile is_whitespace (rev s))"

definition trim :: "ustr \<Rightarrow> ustr" where
  "trim s = trim_end (trim_start s)"

definition trim_end_char :: "uchar \<Rightarrow> ustr \<Rightarrow> ustr" where
  "trim_end_char c s = rev (dropWhile (\<lambda>x. x = c) (rev s))"

definition starts_with :: "ustr \<Rightarrow> ustr \<Rightarrow> bool" where
  "starts_with s p \<longleftrightarrow> take (length p) s = p"

definition ends_with :: "ustr \<Rightarrow> ustr \<Rightarrow> bool" where
  "ends_with s p \<longleftrightarrow> starts_with (rev s) (rev p)"

definition strip_prefix :: "ustr \<Rightarrow> ustr \<Rightarrow> ustr option" where
  "strip_prefix s p = (if starts_with s p then Some (drop (length p) s) else None)"

fun contains_str :: "ustr \<Rightarrow> ustr \<Rightarrow> bool" where
  "contains_str [] needle \<longleftrightarrow> needle = []"
| "contains_str (c # s) needle \<longleftrightarrow> starts_with (c # s) needle \<or> contains_str s needle"

text \<open>\<open>str::split\<close> on the characters of a class: always at least one part.\<close>

fun split_by :: "(uchar \<Rightarrow> bool) \<Rightarrow> ustr \<Rightarrow> ustr list" where
  "split_by P [] = [[]]"
| "split_by P (c # s) =
     (if P c then [] # split_by P s
      else (case split_by P s of [] \<Rightarrow> [[c]] | part # parts \<Rightarrow> (c # part) # parts))"

definition split_char :: "uchar \<Rightarrow> ustr \<Rightarrow> ustr list" where
  "split_char c s = split_by (\<lambda>x. x = c) s"

definition split_whitespace :: "ustr \<Rightarrow> ustr list" where
  "split_whitespace s = filter (\<lambda>part. part \<noteq> []) (split_by is_whitespace s)"

text \<open>\<open>str::split_once\<close> with a pattern string.\<close>

fun split_once :: "ustr \<Rightarrow> ustr \<Rightarrow> (ustr \<times> ustr) option" where
  "split_once [] p = (if p = [] then Some ([], []) else None)"
| "split_once (c # s) p =
     (if starts_with (c # s) p then Some ([], drop (length p) (c # s))
      else map_option (\<lambda>(a, b). (c # a, b)) (split_once s p))"

text \<open>
  \<open>str::lines\<close>: a line ends at a line feed, with one carriage return before it removed; a
  last line without a line feed is kept as it is, and an empty one is not a line.
\<close>

definition strip_cr :: "ustr \<Rightarrow> ustr" where
  "strip_cr s = (if s \<noteq> [] \<and> last s = 13 then butlast s else s)"

fun lines_acc :: "ustr \<Rightarrow> ustr \<Rightarrow> ustr list" where
  "lines_acc acc [] = (if acc = [] then [] else [rev acc])"
| "lines_acc acc (c # s) =
     (if c = 10 then strip_cr (rev acc) # lines_acc [] s else lines_acc (c # acc) s)"

definition str_lines :: "ustr \<Rightarrow> ustr list" where
  "str_lines s = lines_acc [] s"

text \<open>\<open>[..].join(sep)\<close>.\<close>

fun join_str :: "ustr \<Rightarrow> ustr list \<Rightarrow> ustr" where
  "join_str sep [] = []"
| "join_str sep [x] = x"
| "join_str sep (x # y # ys) = x @ sep @ join_str sep (y # ys)"

text \<open>\<open>str::replace\<close> of one character by a string.\<close>

definition replace_char :: "uchar \<Rightarrow> ustr \<Rightarrow> ustr \<Rightarrow> ustr" where
  "replace_char c r s = concat (map (\<lambda>x. if x = c then r else [x]) s)"

section \<open>Numbers\<close>

fun nat_str :: "nat \<Rightarrow> ustr" where
  "nat_str n = (if n < 10 then [48 + n] else nat_str (n div 10) @ [48 + n mod 10])"

declare nat_str.simps [simp del]

fun digits_value :: "nat \<Rightarrow> ustr \<Rightarrow> nat" where
  "digits_value acc [] = acc"
| "digits_value acc (c # s) = digits_value (10 * acc + (c - 48)) s"

text \<open>
  \<open>str::parse\<close> of an unsigned integer: an optional plus sign, at least one decimal digit,
  nothing else, and no value above the type's maximum.
\<close>

definition parse_unsigned :: "nat \<Rightarrow> ustr \<Rightarrow> nat option" where
  "parse_unsigned maximum s =
     (let d = (case s of c # r \<Rightarrow> if c = 43 then r else s | [] \<Rightarrow> s)
      in if d = [] \<or> \<not> list_all is_ascii_digit d \<or> maximum < digits_value 0 d then None
         else Some (digits_value 0 d))"

definition parse_u16 :: "ustr \<Rightarrow> u16 option" where
  "parse_u16 s = map_option of_nat (parse_unsigned 65535 s)"

definition parse_u64 :: "ustr \<Rightarrow> u64 option" where
  "parse_u64 s = map_option of_nat (parse_unsigned 18446744073709551615 s)"

subsection \<open>Facts\<close>

lemma str_simps [simp]: "str [] = []" "str (c # s) = of_char c # str s"
  by (simp_all add: str_def)

lemma length_str [simp]: "length (str s) = length s"
  by (simp add: str_def)

lemma byte_len_simps [simp]:
  "byte_len [] = 0" "byte_len (c # s) = len_utf8 c + byte_len s"
  "byte_len (s @ t) = byte_len s + byte_len t"
  by (simp_all add: byte_len_def)

lemma len_utf8_bounds: "1 \<le> len_utf8 c \<and> len_utf8 c \<le> 4"
  by (simp add: len_utf8_def)

lemma length_le_byte_len: "length s \<le> byte_len s"
proof (induction s)
  case Nil
  then show ?case by simp
next
  case (Cons c s)
  then show ?case using len_utf8_bounds [of c] by simp
qed

lemma byte_len_le: "byte_len s \<le> 4 * length s"
proof (induction s)
  case Nil
  then show ?case by simp
next
  case (Cons c s)
  then show ?case using len_utf8_bounds [of c] by simp
qed

lemma hd_trim_start: "trim_start s \<noteq> [] \<Longrightarrow> \<not> is_whitespace (hd (trim_start s))"
  by (simp add: trim_start_def hd_dropWhile)

lemma trim_end_snoc: "trim_end s \<noteq> [] \<Longrightarrow> \<not> is_whitespace (last (trim_end s))"
  by (simp add: trim_end_def last_rev hd_dropWhile)

lemma trim_end_prefix: "\<exists>t. s = trim_end s @ t \<and> list_all is_whitespace t"
proof -
  have "rev s = takeWhile is_whitespace (rev s) @ dropWhile is_whitespace (rev s)" by simp
  then have "s = rev (dropWhile is_whitespace (rev s)) @ rev (takeWhile is_whitespace (rev s))"
    by (metis rev_append rev_rev_ident)
  moreover have "list_all is_whitespace (rev (takeWhile is_whitespace (rev s)))"
    by (auto simp add: list_all_iff dest: set_takeWhileD)
  ultimately show ?thesis unfolding trim_end_def by blast
qed

lemma trim_start_suffix: "\<exists>t. s = t @ trim_start s \<and> list_all is_whitespace t"
  unfolding trim_start_def
  by (metis list_all_iff set_takeWhileD takeWhile_dropWhile_id)

text \<open>The ends of a trimmed string are not white space, and only white space was removed.\<close>

lemma trim_ends:
  assumes "trim s \<noteq> []"
  shows "\<not> is_whitespace (hd (trim s))" and "\<not> is_whitespace (last (trim s))"
proof -
  obtain t where t: "trim_start s = trim s @ t"
    using trim_end_prefix [of "trim_start s"] by (auto simp add: trim_def)
  then have "hd (trim_start s) = hd (trim s)" and "trim_start s \<noteq> []"
    using assms by auto
  then show "\<not> is_whitespace (hd (trim s))"
    using hd_trim_start [of s] by metis
  show "\<not> is_whitespace (last (trim s))"
    using assms trim_end_snoc [of "trim_start s"] by (simp add: trim_def)
qed

lemma trim_decomp:
  "\<exists>a b. s = a @ trim s @ b \<and> list_all is_whitespace a \<and> list_all is_whitespace b"
proof -
  obtain a where a: "s = a @ trim_start s" "list_all is_whitespace a"
    using trim_start_suffix by blast
  obtain b where b: "trim_start s = trim s @ b" "list_all is_whitespace b"
    using trim_end_prefix [of "trim_start s"] by (auto simp add: trim_def)
  then show ?thesis using a by metis
qed

lemma trim_id:
  assumes "s = [] \<or> \<not> is_whitespace (hd s) \<and> \<not> is_whitespace (last s)"
  shows "trim s = s"
proof (cases "s = []")
  case True
  then show ?thesis by (simp add: trim_def trim_start_def trim_end_def)
next
  case False
  with assms have h: "\<not> is_whitespace (hd s)" and l: "\<not> is_whitespace (last s)" by auto
  have "trim_start s = s" using False h by (cases s) (auto simp add: trim_start_def)
  moreover have "trim_end s = s"
    using False l by (cases s rule: rev_cases) (auto simp add: trim_end_def)
  ultimately show ?thesis by (simp add: trim_def)
qed

lemma trim_idem [simp]: "trim (trim s) = trim s"
  using trim_ends [of s] by (intro trim_id) auto

lemma trim_eq_self_iff:
  "trim s = s \<longleftrightarrow> s = [] \<or> (\<not> is_whitespace (hd s) \<and> \<not> is_whitespace (last s))"
  using trim_id [of s] trim_ends [of s] by metis

lemma trim_eq_Nil_iff: "trim s = [] \<longleftrightarrow> list_all is_whitespace s"
proof
  assume "trim s = []"
  then show "list_all is_whitespace s" using trim_decomp [of s] by auto
next
  assume *: "list_all is_whitespace s"
  show "trim s = []"
  proof (rule ccontr)
    assume n: "trim s \<noteq> []"
    then have "hd (trim s) \<in> set s" using trim_decomp [of s] by (metis Un_iff hd_in_set set_append)
    with * n trim_ends(1) [of s] show False by (auto simp add: list_all_iff)
  qed
qed

lemma set_trim_subset: "set (trim s) \<subseteq> set s"
  using trim_decomp [of s] by (metis Un_iff set_append subsetI)

lemma trim_Nil [simp]: "trim [] = []"
  by (simp add: trim_id)

lemma starts_with_iff: "starts_with s p \<longleftrightarrow> (\<exists>t. s = p @ t)"
  unfolding starts_with_def by (metis append_eq_conv_conj append_take_drop_id)

lemma starts_with_append [simp]: "starts_with (p @ t) p"
  by (auto simp add: starts_with_iff)

lemma ends_with_iff: "ends_with s p \<longleftrightarrow> (\<exists>t. s = t @ p)"
proof
  assume "ends_with s p"
  then obtain t where "rev s = rev p @ t" by (auto simp add: ends_with_def starts_with_iff)
  then have "s = rev t @ p" by (metis rev_append rev_rev_ident)
  then show "\<exists>t. s = t @ p" by blast
next
  assume "\<exists>t. s = t @ p"
  then show "ends_with s p" by (auto simp add: ends_with_def starts_with_iff)
qed

lemma contains_str_iff: "contains_str s needle \<longleftrightarrow> (\<exists>a b. s = a @ needle @ b)"
proof (induction s)
  case Nil
  then show ?case by auto
next
  case (Cons c s)
  have "(\<exists>a b. c # s = a @ needle @ b) \<longleftrightarrow>
        (\<exists>b. c # s = needle @ b) \<or> (\<exists>a b. s = a @ needle @ b)"
    by (metis Cons_eq_append_conv append_Cons append_Nil)
  then show ?case using Cons by (simp add: starts_with_iff)
qed

subsubsection \<open>Splitting\<close>

lemma split_by_not_Nil [simp]: "split_by P s \<noteq> []"
  by (induction s) (auto split: list.splits)

lemma split_by_no_sep: "list_all (\<lambda>c. \<not> P c) s \<Longrightarrow> split_by P s = [s]"
  by (induction s) auto

lemma split_by_append_sep:
  "list_all (\<lambda>c. \<not> P c) s \<Longrightarrow> P c \<Longrightarrow> split_by P (s @ c # t) = s # split_by P t"
  by (induction s) auto

lemma split_by_parts: "part \<in> set (split_by P s) \<Longrightarrow> list_all (\<lambda>c. \<not> P c \<and> c \<in> set s) part"
proof (induction s arbitrary: part)
  case Nil
  then show ?case by simp
next
  case (Cons c s)
  then show ?case
    by (cases "split_by P s")
       (auto simp add: list_all_iff split: if_splits, blast+)
qed

lemma split_whitespace_join3:
  assumes "\<And>x. x \<in> {a, b, c} \<Longrightarrow> x \<noteq> [] \<and> list_all (\<lambda>ch. \<not> is_whitespace ch) x"
  shows "split_whitespace (a @ [32] @ b @ [32] @ c) = [a, b, c]"
proof -
  have ws: "is_whitespace 32" by (simp add: is_whitespace_def)
  have "split_by is_whitespace (a @ 32 # b @ 32 # c) = [a, b, c]"
    using assms ws by (simp add: split_by_append_sep split_by_no_sep)
  then show ?thesis using assms by (simp add: split_whitespace_def)
qed

lemma split_once_first:
  assumes "\<And>u v. s = u @ v \<Longrightarrow> v \<noteq> [] \<Longrightarrow> \<not> starts_with (v @ p @ t) p" "p \<noteq> []"
  shows "split_once (s @ p @ t) p = Some (s, t)"
  using assms(1)
proof (induction s)
  case Nil
  then show ?case using assms(2) by (cases p) (auto simp add: starts_with_iff)
next
  case (Cons c s)
  have "\<not> starts_with (c # s @ p @ t) p" using Cons.prems [of "[]" "c # s"] by simp
  moreover have "split_once (s @ p @ t) p = Some (s, t)"
    using Cons.prems by (intro Cons.IH) (metis append_Cons)
  ultimately show ?case by simp
qed

lemma lines_acc_line:
  "10 \<notin> set l \<Longrightarrow> lines_acc acc (l @ 10 # t) = strip_cr (rev acc @ l) # lines_acc [] t"
  by (induction l arbitrary: acc) auto

lemma lines_acc_last:
  "10 \<notin> set l \<Longrightarrow> lines_acc acc l = (if rev acc @ l = [] then [] else [rev acc @ l])"
  by (induction l arbitrary: acc) auto

text \<open>Joining lines with line feeds and reading the text back line by line is the identity.\<close>

lemma str_lines_join:
  assumes "\<And>l. l \<in> set ls \<Longrightarrow> l \<noteq> [] \<and> 10 \<notin> set l \<and> last l \<noteq> 13"
  shows "str_lines (join_str [10] ls) = ls"
  using assms unfolding str_lines_def
proof (induction "[10] :: ustr" ls rule: join_str.induct)
  case 1
  then show ?case by simp
next
  case (2 x)
  then show ?case by (simp add: lines_acc_last)
next
  case (3 x y ys)
  then have "lines_acc [] (join_str [10] (y # ys)) = y # ys" by simp
  moreover have "x \<noteq> []" "10 \<notin> set x" "last x \<noteq> 13" using 3(2) by auto
  ultimately show ?case by (simp add: lines_acc_line strip_cr_def)
qed

subsubsection \<open>Numbers\<close>

lemma nat_str_digits: "list_all is_ascii_digit (nat_str n)"
proof (induction n rule: nat_str.induct)
  case (1 n)
  then show ?case
    by (subst nat_str.simps) (auto simp add: is_ascii_digit_def [of "48 + _"])
qed

lemma nat_str_not_Nil [simp]: "nat_str n \<noteq> []"
  by (subst nat_str.simps) simp

lemma digits_value_append: "digits_value a (s @ t) = digits_value (digits_value a s) t"
  by (induction s arbitrary: a) auto

lemma digits_value_nat_str: "digits_value 0 (nat_str n) = n"
proof (induction n rule: nat_str.induct)
  case (1 n)
  show ?case
  proof (cases "n < 10")
    case True
    then show ?thesis by (subst nat_str.simps) simp
  next
    case False
    with 1 have "digits_value 0 (nat_str (n div 10)) = n div 10" by simp
    with False show ?thesis by (subst nat_str.simps) (simp add: digits_value_append)
  qed
qed

lemma parse_unsigned_nat_str: "n \<le> maximum \<Longrightarrow> parse_unsigned maximum (nat_str n) = Some n"
proof -
  assume le: "n \<le> maximum"
  have "(case nat_str n of c # r \<Rightarrow> if c = 43 then r else nat_str n | [] \<Rightarrow> nat_str n) = nat_str n"
    using nat_str_digits [of n] by (cases "nat_str n") (auto simp add: is_ascii_digit_def)
  then show ?thesis
    using le nat_str_digits [of n]
    by (simp add: parse_unsigned_def digits_value_nat_str)
qed

lemma unat_u16_le: "unat (w :: u16) \<le> 65535"
proof -
  have "unat w < 2 ^ LENGTH(16)" by (rule unsigned_less)
  then show ?thesis by simp
qed

lemma parse_u16_nat_str: "parse_u16 (nat_str (unat w)) = Some w"
  by (simp add: parse_u16_def parse_unsigned_nat_str unat_u16_le)

lemma unat_u64_le: "unat (w :: u64) \<le> 18446744073709551615"
proof -
  have "unat w < 2 ^ LENGTH(64)" by (rule unsigned_less)
  then show ?thesis by simp
qed

lemma parse_u64_nat_str: "parse_u64 (nat_str (unat w)) = Some w"
  by (simp add: parse_u64_def parse_unsigned_nat_str unat_u64_le)

lemma nat_str_no_whitespace: "list_all (\<lambda>c. \<not> is_whitespace c) (nat_str n)"
  using nat_str_digits [of n]
  by (auto simp add: list_all_iff is_ascii_digit_def is_whitespace_def)

end
