(* ===== verification/Security_Model.thy ===== *)
theory Security_Model
  imports Rust_Str
begin

text \<open>
  The security data of a profile (\<open>models/security.rs\<close> of \<open>portmate-core\<close>): host-key
  policies and trusted keys, authentication methods, identities, one-key credentials and the
  agent policy, with the default values the code gives them.
\<close>

datatype HostKeyMode = HKStrict | TrustOnFirstUse | AskEveryTime

datatype HostKeyScope = ScopeProfile | ScopeProject | ScopeUser

record HostKeyPolicy =
  hkp_mode :: HostKeyMode
  hkp_alias :: "ustr option"
  hkp_trust_scope :: HostKeyScope
  hkp_allow_rotation :: bool
  hkp_check_ip :: bool

definition profile_alias :: "ustr \<Rightarrow> HostKeyPolicy" where
  "profile_alias profile_id =
     \<lparr>hkp_mode = HKStrict, hkp_alias = Some profile_id, hkp_trust_scope = ScopeProfile,
      hkp_allow_rotation = False, hkp_check_ip = False\<rparr>"

datatype HostKeyDecision =
    TrustOnce
  | AppendToProfile
  | AppendToProject
  | ReplaceForProfile
  | Reject

record TrustedHostKey =
  thk_id :: ustr
  thk_profile_id :: "ustr option"
  thk_alias :: ustr
  thk_host :: ustr
  thk_port :: u16
  thk_algorithm :: ustr
  thk_fingerprint_sha256 :: ustr
  thk_public_key_base64 :: ustr
  thk_scope :: HostKeyScope
  thk_label :: "ustr option"
  thk_first_seen :: time
  thk_last_seen :: time

definition target_key :: "TrustedHostKey \<Rightarrow> ustr" where
  "target_key k = thk_alias k @ str '':'' @ nat_str (unat (thk_port k))"

datatype AuthMethod =
    AuthPublicKey
  | AuthKeyboardInteractive
  | AuthPassword
  | AuthGssapiWithMic
  | AuthNone

datatype IdentitySource = ProfileVault | SystemFile | AgentSource | PublicKeyOnly

record IdentityRef =
  idr_id :: ustr
  idr_label :: ustr
  idr_source :: IdentitySource
  idr_fingerprint_sha256 :: "ustr option"
  idr_path :: "ustr option"
  idr_secret_ref :: "ustr option"

datatype OneKeyKind = OneKeyAccount | OneKeySsh

record OneKeyIdentity =
  oki_source_profile_id :: ustr
  oki_identity :: IdentityRef

record OneKeyCredential =
  okc_id :: ustr
  okc_label :: ustr
  okc_kind :: OneKeyKind
  okc_username :: ustr
  okc_password_secret_ref :: "ustr option"
  okc_passphrase_secret_ref :: "ustr option"
  okc_identity :: "OneKeyIdentity option"
  okc_session_ids :: "ustr list"
  okc_created_at :: time
  okc_updated_at :: time

record IdentityPolicy =
  idp_identities_only :: bool
  idp_auth_order :: "AuthMethod list"
  idp_record_success :: bool
  idp_last_successful :: "AuthMethod option"

definition default_identity_policy :: IdentityPolicy where
  "default_identity_policy =
     \<lparr>idp_identities_only = True,
      idp_auth_order = [AuthPublicKey, AuthKeyboardInteractive, AuthPassword],
      idp_record_success = True, idp_last_successful = None\<rparr>"

datatype AgentOfferMode = OfferDisabled | AfterProfileKeys | BeforeProfileKeys

record AgentPolicy =
  agp_enabled :: bool
  agp_forwarding :: bool
  agp_offer_mode :: AgentOfferMode

definition default_agent_policy :: AgentPolicy where
  "default_agent_policy =
     \<lparr>agp_enabled = True, agp_forwarding = False, agp_offer_mode = AfterProfileKeys\<rparr>"

end
