(* ===== verification/Connection_Model.thy ===== *)
theory Connection_Model
  imports Security_Model
begin

text \<open>
  The connection data of a profile (\<open>models/connection.rs\<close> of \<open>portmate-core\<close>): SSH,
  serial, shell and TCP/Telnet connections with their proxies, jumps and tunnels, the limits
  of their health settings and the functions that normalise them. Normalisation puts every
  setting inside its documented range, leaves a setting that is already inside alone, and is
  idempotent.
\<close>

datatype SessionKind = KSsh | KSerial | KShell | KTelnet | KTcp | KTmux

record HostEndpoint =
  ep_host :: ustr
  ep_port :: u16

record JumpHop =
  jh_host :: ustr
  jh_port :: u16
  jh_username :: ustr
  jh_password_secret_ref :: "ustr option"
  jh_passphrase_secret_ref :: "ustr option"
  jh_identity_ref :: "ustr option"
  jh_host_key_policy :: "HostKeyPolicy option"

datatype TunnelEgress = EgressSsh | PortmateHost

record TunnelRouteRule =
  rr_host :: ustr
  rr_port :: "u16 option"

datatype TunnelMode = TunLocal | TunRemote | TunDynamic

record TunnelSpec =
  tn_id :: ustr
  tn_label :: ustr
  tn_egress :: TunnelEgress
  tn_mode :: TunnelMode
  tn_bind_host :: ustr
  tn_bind_port :: u16
  tn_target_host :: ustr
  tn_target_port :: u16
  tn_route_rules :: "TunnelRouteRule list"
  tn_enabled :: bool

datatype ProxyKind = HttpConnect | Socks5

record ProxyConfig =
  px_enabled :: bool
  px_kind :: ProxyKind
  px_host :: ustr
  px_port :: u16
  px_username :: ustr
  px_password_secret_ref :: "ustr option"

definition default_proxy_host :: ustr where
  "default_proxy_host = str ''127.0.0.1''"

definition default_proxy_port :: u16 where
  "default_proxy_port = 1080"

definition normalize_proxy :: "ProxyConfig \<Rightarrow> ProxyConfig" where
  "normalize_proxy p = p
     \<lparr>px_host := trim (px_host p),
      px_username := trim (px_username p),
      px_password_secret_ref :=
        (case px_password_secret_ref p of
           None \<Rightarrow> None
         | Some s \<Rightarrow> if trim s \<noteq> [] then Some (trim s) else None)\<rparr>"

definition default_proxy :: ProxyConfig where
  "default_proxy =
     \<lparr>px_enabled = False, px_kind = Socks5, px_host = default_proxy_host,
      px_port = default_proxy_port, px_username = [], px_password_secret_ref = None\<rparr>"

section \<open>SSH connections\<close>

record SshConnection =
  ssh_endpoint :: HostEndpoint
  ssh_username :: ustr
  ssh_reconnect :: bool
  ssh_reconnect_delay_ms :: u64
  ssh_reconnect_ignore_host_key_changes :: bool
  ssh_keepalive_enabled :: bool
  ssh_keepalive_interval_seconds :: u64
  ssh_keepalive_max_missed :: u32
  ssh_tcp_keepalive_enabled :: "bool option"
  ssh_proxy :: ProxyConfig
  ssh_password_secret_ref :: "ustr option"
  ssh_passphrase_secret_ref :: "ustr option"
  ssh_host_key_policy :: HostKeyPolicy
  ssh_trusted_host_keys :: "TrustedHostKey list"
  ssh_identity_policy :: IdentityPolicy
  ssh_identity_refs :: "IdentityRef list"
  ssh_agent_policy :: AgentPolicy
  ssh_jumps :: "JumpHop list"
  ssh_tunnels :: "TunnelSpec list"

abbreviation (input) MIN_SSH_RECONNECT_DELAY_MS :: u64 where "MIN_SSH_RECONNECT_DELAY_MS \<equiv> 100"
abbreviation (input) MAX_SSH_RECONNECT_DELAY_MS :: u64 where "MAX_SSH_RECONNECT_DELAY_MS \<equiv> 60000"
abbreviation (input) MIN_SSH_KEEPALIVE_INTERVAL_SECONDS :: u64
  where "MIN_SSH_KEEPALIVE_INTERVAL_SECONDS \<equiv> 1"
abbreviation (input) MAX_SSH_KEEPALIVE_INTERVAL_SECONDS :: u64
  where "MAX_SSH_KEEPALIVE_INTERVAL_SECONDS \<equiv> 3600"
abbreviation (input) MIN_SSH_KEEPALIVE_MAX_MISSED :: u32 where "MIN_SSH_KEEPALIVE_MAX_MISSED \<equiv> 0"
abbreviation (input) MAX_SSH_KEEPALIVE_MAX_MISSED :: u32 where "MAX_SSH_KEEPALIVE_MAX_MISSED \<equiv> 20"

definition ssh_normalize_health :: "SshConnection \<Rightarrow> SshConnection" where
  "ssh_normalize_health c = c
     \<lparr>ssh_reconnect_delay_ms :=
        clamp MIN_SSH_RECONNECT_DELAY_MS MAX_SSH_RECONNECT_DELAY_MS (ssh_reconnect_delay_ms c),
      ssh_keepalive_interval_seconds :=
        clamp MIN_SSH_KEEPALIVE_INTERVAL_SECONDS MAX_SSH_KEEPALIVE_INTERVAL_SECONDS
          (ssh_keepalive_interval_seconds c),
      ssh_keepalive_max_missed :=
        clamp MIN_SSH_KEEPALIVE_MAX_MISSED MAX_SSH_KEEPALIVE_MAX_MISSED
          (ssh_keepalive_max_missed c)\<rparr>"

section \<open>Serial connections\<close>

record SerialConnection =
  ser_port :: ustr
  ser_baud_rate :: u32
  ser_data_bits :: u8
  ser_stop_bits :: u8
  ser_parity :: ustr
  ser_flow_control :: ustr
  ser_dtr :: bool
  ser_rts :: bool
  ser_reconnect :: bool
  ser_reconnect_delay_ms :: u64
  ser_receive_idle_timeout_enabled :: bool
  ser_receive_idle_timeout_seconds :: u64

abbreviation (input) MIN_SERIAL_RECONNECT_DELAY_MS :: u64 where "MIN_SERIAL_RECONNECT_DELAY_MS \<equiv> 100"
abbreviation (input) MAX_SERIAL_RECONNECT_DELAY_MS :: u64 where "MAX_SERIAL_RECONNECT_DELAY_MS \<equiv> 60000"
abbreviation (input) MIN_SERIAL_RECEIVE_IDLE_TIMEOUT_SECONDS :: u64
  where "MIN_SERIAL_RECEIVE_IDLE_TIMEOUT_SECONDS \<equiv> 1"
abbreviation (input) MAX_SERIAL_RECEIVE_IDLE_TIMEOUT_SECONDS :: u64
  where "MAX_SERIAL_RECEIVE_IDLE_TIMEOUT_SECONDS \<equiv> 86400"

definition serial_normalize_health :: "SerialConnection \<Rightarrow> SerialConnection" where
  "serial_normalize_health c = c
     \<lparr>ser_reconnect_delay_ms :=
        clamp MIN_SERIAL_RECONNECT_DELAY_MS MAX_SERIAL_RECONNECT_DELAY_MS
          (ser_reconnect_delay_ms c),
      ser_receive_idle_timeout_seconds :=
        clamp MIN_SERIAL_RECEIVE_IDLE_TIMEOUT_SECONDS MAX_SERIAL_RECEIVE_IDLE_TIMEOUT_SECONDS
          (ser_receive_idle_timeout_seconds c)\<rparr>"

section \<open>Shell and TCP connections\<close>

record ShellConnection =
  sh_program :: ustr
  sh_args :: "ustr list"
  sh_cwd :: "ustr option"

record TcpConnection =
  tcp_host :: ustr
  tcp_port :: u16
  tcp_reconnect :: bool
  tcp_proxy :: ProxyConfig
  tcp_reconnect_delay_ms :: u64
  tcp_keepalive_enabled :: bool
  tcp_keepalive_idle_seconds :: u64
  tcp_keepalive_interval_seconds :: u64
  tcp_keepalive_retries :: u32
  tcp_telnet_binary :: bool
  tcp_telnet_naws :: bool
  tcp_tls_enabled :: bool
  tcp_tls_server_name :: "ustr option"
  tcp_tls_accept_invalid_cert :: bool

abbreviation (input) MIN_TCP_RECONNECT_DELAY_MS :: u64 where "MIN_TCP_RECONNECT_DELAY_MS \<equiv> 100"
abbreviation (input) MAX_TCP_RECONNECT_DELAY_MS :: u64 where "MAX_TCP_RECONNECT_DELAY_MS \<equiv> 60000"
abbreviation (input) DEFAULT_TCP_RECONNECT_DELAY_MS :: u64 where "DEFAULT_TCP_RECONNECT_DELAY_MS \<equiv> 1000"
abbreviation (input) MIN_TCP_KEEPALIVE_IDLE_SECONDS :: u64 where "MIN_TCP_KEEPALIVE_IDLE_SECONDS \<equiv> 1"
abbreviation (input) MAX_TCP_KEEPALIVE_IDLE_SECONDS :: u64 where "MAX_TCP_KEEPALIVE_IDLE_SECONDS \<equiv> 86400"
abbreviation (input) DEFAULT_TCP_KEEPALIVE_IDLE_SECONDS :: u64
  where "DEFAULT_TCP_KEEPALIVE_IDLE_SECONDS \<equiv> 30"
abbreviation (input) MIN_TCP_KEEPALIVE_INTERVAL_SECONDS :: u64
  where "MIN_TCP_KEEPALIVE_INTERVAL_SECONDS \<equiv> 1"
abbreviation (input) MAX_TCP_KEEPALIVE_INTERVAL_SECONDS :: u64
  where "MAX_TCP_KEEPALIVE_INTERVAL_SECONDS \<equiv> 3600"
abbreviation (input) DEFAULT_TCP_KEEPALIVE_INTERVAL_SECONDS :: u64
  where "DEFAULT_TCP_KEEPALIVE_INTERVAL_SECONDS \<equiv> 10"
abbreviation (input) MIN_TCP_KEEPALIVE_RETRIES :: u32 where "MIN_TCP_KEEPALIVE_RETRIES \<equiv> 1"
abbreviation (input) MAX_TCP_KEEPALIVE_RETRIES :: u32 where "MAX_TCP_KEEPALIVE_RETRIES \<equiv> 20"
abbreviation (input) DEFAULT_TCP_KEEPALIVE_RETRIES :: u32 where "DEFAULT_TCP_KEEPALIVE_RETRIES \<equiv> 3"

text \<open>The server name is kept only if it is a plausible DNS name after trimming.\<close>

definition normalize_tls_server_name :: "ustr \<Rightarrow> ustr option" where
  "normalize_tls_server_name name =
     (let name = trim name
      in if name \<noteq> [] \<and> length (take 254 name) \<le> 253 \<and>
            \<not> list_ex (\<lambda>c. is_control c \<or> is_whitespace c) name
         then Some name else None)"

definition tcp_normalize_health :: "TcpConnection \<Rightarrow> TcpConnection" where
  "tcp_normalize_health c = c
     \<lparr>tcp_reconnect_delay_ms :=
        clamp MIN_TCP_RECONNECT_DELAY_MS MAX_TCP_RECONNECT_DELAY_MS (tcp_reconnect_delay_ms c),
      tcp_keepalive_idle_seconds :=
        clamp MIN_TCP_KEEPALIVE_IDLE_SECONDS MAX_TCP_KEEPALIVE_IDLE_SECONDS
          (tcp_keepalive_idle_seconds c),
      tcp_keepalive_interval_seconds :=
        clamp MIN_TCP_KEEPALIVE_INTERVAL_SECONDS MAX_TCP_KEEPALIVE_INTERVAL_SECONDS
          (tcp_keepalive_interval_seconds c),
      tcp_keepalive_retries :=
        clamp MIN_TCP_KEEPALIVE_RETRIES MAX_TCP_KEEPALIVE_RETRIES (tcp_keepalive_retries c),
      tcp_tls_server_name :=
        Option.bind (tcp_tls_server_name c) normalize_tls_server_name\<rparr>"

definition default_tcp :: TcpConnection where
  "default_tcp =
     \<lparr>tcp_host = [], tcp_port = 0, tcp_reconnect = True, tcp_proxy = default_proxy,
      tcp_reconnect_delay_ms = DEFAULT_TCP_RECONNECT_DELAY_MS,
      tcp_keepalive_enabled = True,
      tcp_keepalive_idle_seconds = DEFAULT_TCP_KEEPALIVE_IDLE_SECONDS,
      tcp_keepalive_interval_seconds = DEFAULT_TCP_KEEPALIVE_INTERVAL_SECONDS,
      tcp_keepalive_retries = DEFAULT_TCP_KEEPALIVE_RETRIES,
      tcp_telnet_binary = True, tcp_telnet_naws = True,
      tcp_tls_enabled = False, tcp_tls_server_name = None,
      tcp_tls_accept_invalid_cert = False\<rparr>"

datatype ConnectionConfig =
    ConnSsh SshConnection
  | ConnSerial SerialConnection
  | ConnShell ShellConnection
  | ConnTelnet TcpConnection
  | ConnTcp TcpConnection
  | ConnTmux SshConnection

fun connection_kind :: "ConnectionConfig \<Rightarrow> SessionKind" where
  "connection_kind (ConnSsh _) = KSsh"
| "connection_kind (ConnSerial _) = KSerial"
| "connection_kind (ConnShell _) = KShell"
| "connection_kind (ConnTelnet _) = KTelnet"
| "connection_kind (ConnTcp _) = KTcp"
| "connection_kind (ConnTmux _) = KTmux"

section \<open>Facts\<close>

lemma normalize_tls_server_name_Some:
  assumes "normalize_tls_server_name s = Some n"
  shows "n = trim s" "n \<noteq> []" "length n \<le> 253"
    "\<forall>c \<in> set n. \<not> is_control c \<and> \<not> is_whitespace c"
  using assms by (auto simp add: normalize_tls_server_name_def Let_def list_ex_iff split: if_splits)

lemma normalize_tls_server_name_idem:
  "Option.bind (normalize_tls_server_name s) normalize_tls_server_name =
   normalize_tls_server_name s"
  by (simp add: normalize_tls_server_name_def Let_def)

lemma normalize_proxy_idem: "normalize_proxy (normalize_proxy p) = normalize_proxy p"
  by (simp add: normalize_proxy_def split: option.splits)

lemma tcp_normalize_health_idem:
  "tcp_normalize_health (tcp_normalize_health c) = tcp_normalize_health c"
  by (simp add: tcp_normalize_health_def normalize_tls_server_name_idem)

lemma ssh_normalize_health_idem:
  "ssh_normalize_health (ssh_normalize_health c) = ssh_normalize_health c"
  by (simp add: ssh_normalize_health_def)

lemma serial_normalize_health_idem:
  "serial_normalize_health (serial_normalize_health c) = serial_normalize_health c"
  by (simp add: serial_normalize_health_def)

end
