(* ===== verification/Session_Model.thy ===== *)
theory Session_Model
  imports Connection_Model
begin

text \<open>
  The session data of \<open>portmate-core\<close>: profiles, runtimes, events and their summaries
  (\<open>models/session.rs\<close>), transfer tasks (\<open>models/transfer.rs\<close>), MCP grants, HTTP settings
  and audit records (\<open>models/mcp.rs\<close>), monitoring snapshots (\<open>models/monitoring.rs\<close>) and
  custom scripts (\<open>models/script.rs\<close>). A \<open>BTreeMap<String, String>\<close> is a partial map.
\<close>

datatype SessionStatus =
    Disconnected
  | Connecting
  | Connected
  | Reconnecting
  | Blocked
  | StatusError

datatype EventDirection = Inbound | Outbound | DirSystem

datatype EventStream = Stdout | Stderr | Control | AuditStream

record TerminalSettings =
  term_term :: ustr
  term_rows :: u16
  term_cols :: u16
  term_scrollback :: u32
  term_font_family :: ustr
  term_font_size :: u8
  term_theme :: ustr
  term_background_opacity :: u8

definition default_terminal_background_opacity :: u8 where
  "default_terminal_background_opacity = 100"

definition default_terminal_settings :: TerminalSettings where
  "default_terminal_settings =
     \<lparr>term_term = str ''xterm-256color'', term_rows = 32, term_cols = 120,
      term_scrollback = 200000,
      term_font_family =
        str (CHR 0x22 # ''JetBrains Mono'' @ CHR 0x22 # '', '' @
             CHR 0x22 # ''Noto Sans Mono CJK SC'' @ CHR 0x22 # '', '' @
             CHR 0x22 # ''Sarasa Mono SC'' @ CHR 0x22 # '', '' @
             CHR 0x22 # ''Microsoft YaHei UI'' @ CHR 0x22 # '', monospace''),
      term_font_size = 13, term_theme = str ''portmate-dark'',
      term_background_opacity = default_terminal_background_opacity\<rparr>"

record LoggingSettings =
  log_enabled :: bool
  log_raw :: bool
  log_text :: bool
  log_jsonl :: bool
  log_redact_secrets :: bool
  log_path_template :: ustr
  log_retention_days :: u32

definition default_logging_settings :: LoggingSettings where
  "default_logging_settings =
     \<lparr>log_enabled = False, log_raw = False, log_text = True, log_jsonl = True,
      log_redact_secrets = True,
      log_path_template = str ''{profile}/{date}/{session}.jsonl'',
      log_retention_days = 0\<rparr>"

datatype TriggerMatcher =
    MatchContains ustr bool  \<comment> \<open>text, case sensitive\<close>
  | MatchRegex ustr          \<comment> \<open>pattern\<close>

datatype TriggerAction =
    ActHighlight ustr     \<comment> \<open>color\<close>
  | ActSendText ustr      \<comment> \<open>text\<close>
  | ActLocalCommand ustr  \<comment> \<open>command\<close>
  | ActNotification ustr  \<comment> \<open>message\<close>
  | ActTimelineMark ustr  \<comment> \<open>label\<close>
  | ActCustomLink ustr    \<comment> \<open>URL template\<close>
  | ActSound ustr         \<comment> \<open>name\<close>

record TriggerSpec =
  trg_id :: ustr
  trg_label :: ustr
  trg_matcher :: TriggerMatcher
  trg_actions :: "TriggerAction list"
  trg_enabled :: bool

section \<open>Transfers\<close>

record TransferSettings =
  tfs_sftp :: bool
  tfs_scp :: bool
  tfs_tftp :: bool
  tfs_xmodem :: bool
  tfs_ymodem :: bool
  tfs_zmodem :: bool
  tfs_rate_limit_bytes_per_second :: "u64 option"
  tfs_default_local_dir :: "ustr option"

definition default_transfer_settings :: TransferSettings where
  "default_transfer_settings =
     \<lparr>tfs_sftp = True, tfs_scp = True, tfs_tftp = True, tfs_xmodem = True,
      tfs_ymodem = True, tfs_zmodem = True, tfs_rate_limit_bytes_per_second = None,
      tfs_default_local_dir = None\<rparr>"

datatype TransferProtocol = Sftp | Scp | Tftp | Xmodem | Ymodem | Zmodem

datatype TransferStatus = Queued | Running | Completed | Failed | Cancelled

record TransferTask =
  tft_id :: ustr
  tft_session_id :: ustr
  tft_protocol :: TransferProtocol
  tft_source :: ustr
  tft_destination :: ustr
  tft_bytes_total :: u64
  tft_bytes_done :: u64
  tft_status :: TransferStatus
  tft_message :: "ustr option"
  tft_started_at :: "time option"
  tft_finished_at :: "time option"
  tft_average_bytes_per_second :: "f64 option"

section \<open>Profiles, runtimes, events\<close>

record SessionProfile =
  prof_id :: ustr
  prof_name :: ustr
  prof_kind :: SessionKind
  prof_group :: ustr
  prof_tags :: "ustr list"
  prof_connection :: ConnectionConfig
  prof_terminal :: TerminalSettings
  prof_logging :: LoggingSettings
  prof_triggers :: "TriggerSpec list"
  prof_transfer :: TransferSettings

record SessionRuntime =
  rt_session_id :: ustr
  rt_pane_id :: ustr
  rt_status :: SessionStatus
  rt_title :: ustr
  rt_cwd :: "ustr option"
  rt_connected_since :: "time option"
  rt_last_activity :: time
  rt_last_disconnect :: "time option"
  rt_last_disconnect_reason :: "ustr option"
  rt_active_transport :: SessionKind

record SessionEvent =
  ev_id :: ustr
  ev_session_id :: ustr
  ev_pane_id :: ustr
  ev_ts :: time
  ev_direction :: EventDirection
  ev_stream :: EventStream
  ev_bytes_ref :: "ustr option"
  ev_text :: "ustr option"
  ev_annotations :: "ustr \<rightharpoonup> ustr"

record SessionSummary =
  sum_profile :: SessionProfile
  sum_runtime :: SessionRuntime
  sum_log_lines :: nat
  sum_last_line :: "ustr option"

record TimelineMark =
  tlm_id :: ustr
  tlm_session_id :: ustr
  tlm_ts :: time
  tlm_label :: ustr
  tlm_details :: "ustr option"

record CommandHistoryEntry =
  che_command :: ustr
  che_recorded_at :: int
  che_session_id :: "ustr option"

section \<open>MCP grants, settings and audit\<close>

datatype McpScope =
    ReadSessions
  | ReadLogs
  | ReadTransfers
  | ReadTunnels
  | ReadScripts
  | ReadMcp
  | WriteInput
  | ScopeTransfer
  | HostFiles
  | ScopeTunnel
  | ManageSessions
  | RunScripts
  | ManageMcp

record McpGrant =
  gr_client_id :: ustr
  gr_name :: ustr
  gr_scopes :: "McpScope list"
  gr_allowed_sessions :: "ustr list"
  gr_confirm_writes :: bool
  gr_expires_at :: "time option"
  gr_revoked_at :: "time option"

record McpHttpSettings =
  mhs_listen_host :: ustr
  mhs_client_host :: ustr
  mhs_port :: u16
  mhs_allowed_origins :: "ustr list"
  mhs_client_id :: ustr
  mhs_trusted :: bool
  mhs_allow_remote :: bool

definition MCP_NO_SESSIONS_SENTINEL :: ustr where
  "MCP_NO_SESSIONS_SENTINEL = str ''__portmate_no_sessions__''"

definition DEFAULT_MCP_HTTP_CLIENT_ID :: ustr where
  "DEFAULT_MCP_HTTP_CLIENT_ID = str ''portmate-local''"

definition default_mcp_http_settings :: McpHttpSettings where
  "default_mcp_http_settings =
     \<lparr>mhs_listen_host = str ''127.0.0.1'', mhs_client_host = str ''127.0.0.1'',
      mhs_port = 8787,
      mhs_allowed_origins = [str ''http://127.0.0.1:8787'', str ''http://localhost:8787''],
      mhs_client_id = DEFAULT_MCP_HTTP_CLIENT_ID, mhs_trusted = False,
      mhs_allow_remote = False\<rparr>"

record AuditRecord =
  aud_id :: ustr
  aud_ts :: time
  aud_actor :: ustr
  aud_action :: ustr
  aud_session_id :: "ustr option"
  aud_decision :: ustr
  aud_details :: "ustr \<rightharpoonup> ustr"

section \<open>Monitoring\<close>

record SysmonProcess =
  smp_pid :: u32
  smp_name :: ustr
  smp_cpu_percent :: f32
  smp_memory_percent :: f32
  smp_rss_bytes :: u64

record SysmonDisk =
  smd_filesystem :: ustr
  smd_mount_point :: ustr
  smd_total_bytes :: u64
  smd_available_bytes :: u64
  smd_used_percent :: f32

record SysmonNetworkInterface =
  smn_name :: ustr
  smn_addresses :: "ustr list"
  smn_rx_bytes :: u64
  smn_tx_bytes :: u64
  smn_rx_kbps :: f32
  smn_tx_kbps :: f32

record SysmonSnapshot =
  sms_session_id :: ustr
  sms_ts :: time
  sms_uptime_seconds :: u64
  sms_cpu_percent :: f32
  sms_memory_percent :: f32
  sms_rx_kbps :: f32
  sms_tx_kbps :: f32
  sms_load_average :: "f32 \<times> f32 \<times> f32"
  sms_memory_total_bytes :: u64
  sms_memory_available_bytes :: u64
  sms_processes :: "SysmonProcess list"
  sms_disks :: "SysmonDisk list"
  sms_network_interfaces :: "SysmonNetworkInterface list"

section \<open>Custom scripts\<close>

datatype HostScriptLanguage = Python | Shell

datatype HostScriptParameterKind = PkString | PkNumber | PkInteger | PkBoolean

record HostScriptParameter =
  hsp_name :: ustr
  hsp_description :: ustr
  hsp_kind :: HostScriptParameterKind
  hsp_required :: bool

record HostScriptConfig =
  hsc_language :: HostScriptLanguage
  hsc_interpreter :: ustr
  hsc_working_directory :: ustr
  hsc_timeout_seconds :: u64
  hsc_allowed_client_ids :: "ustr list"
  hsc_parameters :: "HostScriptParameter list"

record CustomScript =
  cs_id :: ustr
  cs_name :: ustr
  cs_description :: ustr
  cs_content :: ustr
  cs_host :: HostScriptConfig
  cs_mcp_enabled :: bool
  cs_created_at :: time
  cs_updated_at :: time

definition allows_host_client :: "CustomScript \<Rightarrow> ustr \<Rightarrow> bool" where
  "allows_host_client s client_id \<longleftrightarrow>
     cs_mcp_enabled s \<and> list_ex (\<lambda>i. i = client_id) (hsc_allowed_client_ids (cs_host s))"

definition host_tool_name :: "CustomScript \<Rightarrow> ustr" where
  "host_tool_name s = str ''host_script_'' @ replace_char (chr CHR ''-'') [] (cs_id s)"

text \<open>\<open>format!("{session_id}:main")\<close>, the pane of a session.\<close>

definition main_pane :: "ustr \<Rightarrow> ustr" where
  "main_pane session_id = session_id @ str '':main''"

end
