(* ===== verification/Grants.thy ===== *)
theory Grants
  imports Session_Model
begin

text \<open>
  Authorisation of MCP clients (\<open>McpGrant::allows\<close> and its helpers in \<open>models/mcp.rs\<close>). A
  grant lists scopes and sessions; an empty session list means every session, the sentinel
  list means none, a revoked or expired grant allows nothing, and three read scopes are
  implied by the write scope of the same kind. The abstract reading of a grant is the pair
  of \<open>grant_live\<close> (not revoked, not expired) and \<open>grant_covers\<close> (the sessions it names).
\<close>

definition denies_all_sessions :: "McpGrant \<Rightarrow> bool" where
  "denies_all_sessions g \<longleftrightarrow>
     length (gr_allowed_sessions g) = 1 \<and>
     gr_allowed_sessions g ! 0 = MCP_NO_SESSIONS_SENTINEL"

fun is_collection_read_scope :: "McpScope \<Rightarrow> bool" where
  "is_collection_read_scope ReadSessions = True"
| "is_collection_read_scope ReadLogs = True"
| "is_collection_read_scope ReadTransfers = True"
| "is_collection_read_scope ReadTunnels = True"
| "is_collection_read_scope ReadMcp = True"
| "is_collection_read_scope _ = False"

fun is_host_level_scope :: "McpScope \<Rightarrow> bool" where
  "is_host_level_scope ScopeTunnel = True"
| "is_host_level_scope ManageMcp = True"
| "is_host_level_scope RunScripts = True"
| "is_host_level_scope ReadScripts = True"
| "is_host_level_scope _ = False"

definition implied_scope :: "McpGrant \<Rightarrow> McpScope \<Rightarrow> bool" where
  "implied_scope g scope =
     (case scope of
        ReadTransfers \<Rightarrow> ScopeTransfer \<in> set (gr_scopes g)
      | ReadTunnels \<Rightarrow> ScopeTunnel \<in> set (gr_scopes g)
      | ReadScripts \<Rightarrow> RunScripts \<in> set (gr_scopes g)
      | _ \<Rightarrow> False)"

definition grant_allows :: "McpGrant \<Rightarrow> McpScope \<Rightarrow> ustr option \<Rightarrow> time \<Rightarrow> bool" where
  "grant_allows g scope session_id now =
     (if gr_revoked_at g \<noteq> None \<or>
         (case gr_expires_at g of None \<Rightarrow> False | Some expires \<Rightarrow> expires \<le> now)
      then False
      else if scope \<notin> set (gr_scopes g) \<and> \<not> implied_scope g scope
      then False
      else (case session_id of
              Some i \<Rightarrow>
                \<not> denies_all_sessions g \<and>
                (gr_allowed_sessions g = [] \<or> i \<in> set (gr_allowed_sessions g))
            | None \<Rightarrow>
                if is_collection_read_scope scope \<or> is_host_level_scope scope then True
                else gr_allowed_sessions g = []))"

section \<open>The abstract reading\<close>

definition grant_live :: "McpGrant \<Rightarrow> time \<Rightarrow> bool" where
  "grant_live g now \<longleftrightarrow>
     gr_revoked_at g = None \<and> (\<forall>expires. gr_expires_at g = Some expires \<longrightarrow> now < expires)"

definition grant_has_scope :: "McpGrant \<Rightarrow> McpScope \<Rightarrow> bool" where
  "grant_has_scope g scope \<longleftrightarrow> scope \<in> set (gr_scopes g) \<or> implied_scope g scope"

definition grant_covers :: "McpGrant \<Rightarrow> ustr set" where
  "grant_covers g =
     (if denies_all_sessions g then {}
      else if gr_allowed_sessions g = [] then UNIV
      else set (gr_allowed_sessions g))"

lemma denies_all_sessions_iff:
  "denies_all_sessions g \<longleftrightarrow> gr_allowed_sessions g = [MCP_NO_SESSIONS_SENTINEL]"
  by (cases "gr_allowed_sessions g") (auto simp add: denies_all_sessions_def)

lemma grant_allows_session_iff:
  "grant_allows g scope (Some i) now \<longleftrightarrow>
     grant_live g now \<and> grant_has_scope g scope \<and> i \<in> grant_covers g"
  by (auto simp add: grant_allows_def grant_live_def grant_has_scope_def grant_covers_def
      split: option.splits)

lemma grant_allows_global_iff:
  "grant_allows g scope None now \<longleftrightarrow>
     grant_live g now \<and> grant_has_scope g scope \<and>
     (is_collection_read_scope scope \<or> is_host_level_scope scope \<or>
      gr_allowed_sessions g = [])"
  by (auto simp add: grant_allows_def grant_live_def grant_has_scope_def split: option.splits)

lemma grant_revoked_denies: "gr_revoked_at g = Some t \<Longrightarrow> \<not> grant_allows g scope s now"
  by (simp add: grant_allows_def)

lemma grant_live_antimono: "grant_live g later \<Longrightarrow> now \<le> later \<Longrightarrow> grant_live g now"
  by (force simp add: grant_live_def)

text \<open>A scope that acts on a session is never granted without a session to a narrowed grant.\<close>

lemma grant_write_needs_session:
  assumes "grant_allows g scope None now" "\<not> is_collection_read_scope scope"
    "\<not> is_host_level_scope scope"
  shows "gr_allowed_sessions g = []"
  using assms by (simp add: grant_allows_global_iff)

section \<open>Removing a session from a grant\<close>

text \<open>
  \<open>grant_forget_session\<close> is the body of the loop over the grants in
  \<open>SessionStore::delete_profile_deferred_system_event_cleanup\<close>. An explicit list that loses its
  last session would otherwise become the empty list, which means every session: the code
  revokes the grant in that case.
\<close>

definition grant_forget_session :: "ustr \<Rightarrow> time \<Rightarrow> McpGrant \<Rightarrow> McpGrant" where
  "grant_forget_session session_id now g =
     (if gr_allowed_sessions g = [] \<or> denies_all_sessions g then g
      else
        let previous = length (gr_allowed_sessions g);
            g' = g\<lparr>gr_allowed_sessions := filter (\<lambda>s. s \<noteq> session_id) (gr_allowed_sessions g)\<rparr>
        in if previous \<noteq> length (gr_allowed_sessions g') \<and> gr_allowed_sessions g' = [] \<and>
              gr_revoked_at g' = None
           then g'\<lparr>gr_revoked_at := Some now\<rparr> else g')"

text \<open>The length comparison only says that a nonempty list became empty.\<close>

lemma grant_forget_session_eq:
  "grant_forget_session sid now g =
     (let rest = filter (\<lambda>s. s \<noteq> sid) (gr_allowed_sessions g)
      in if gr_allowed_sessions g = [] \<or> denies_all_sessions g then g
         else if rest = [] \<and> gr_revoked_at g = None
         then g\<lparr>gr_allowed_sessions := [], gr_revoked_at := Some now\<rparr>
         else g\<lparr>gr_allowed_sessions := rest\<rparr>)"
  by (auto simp add: grant_forget_session_def Let_def)

lemma grant_forget_session_client [simp]:
  "gr_client_id (grant_forget_session sid now g) = gr_client_id g"
  by (simp add: grant_forget_session_def Let_def)

lemma grant_forget_session_scopes [simp]:
  "gr_scopes (grant_forget_session sid now g) = gr_scopes g"
  by (simp add: grant_forget_session_def Let_def)

lemma grant_forget_session_live:
  "grant_live (grant_forget_session sid now g) t \<Longrightarrow>
     grant_live g t \<and>
     (gr_allowed_sessions (grant_forget_session sid now g) = [] \<longleftrightarrow> gr_allowed_sessions g = [])"
  by (auto simp add: grant_forget_session_eq grant_live_def Let_def split: if_splits)

lemma grant_forget_session_covers:
  assumes "grant_live (grant_forget_session sid now g) t"
  shows "grant_covers (grant_forget_session sid now g) \<subseteq> grant_covers g"
  using assms
  by (auto simp add: grant_forget_session_eq grant_live_def grant_covers_def Let_def
      denies_all_sessions_iff split: if_splits)

lemma grant_has_scope_forget [simp]:
  "grant_has_scope (grant_forget_session sid now g) scope = grant_has_scope g scope"
  by (simp add: grant_has_scope_def implied_scope_def split: McpScope.splits)

text \<open>No permission appears: what the grant allows afterwards it allowed before.\<close>

lemma grant_forget_session_no_widening:
  assumes "grant_allows (grant_forget_session sid now g) scope s t"
  shows "grant_allows g scope s t"
proof (cases s)
  case None
  with assms show ?thesis
    using grant_forget_session_live by (auto simp add: grant_allows_global_iff)
next
  case (Some i)
  with assms show ?thesis
    using grant_forget_session_live [of sid now g t] grant_forget_session_covers [of sid now g t]
    by (auto simp add: grant_allows_session_iff)
qed

text \<open>Other sessions named by an explicit grant keep their permission, unless it was the last.\<close>

lemma grant_forget_session_keeps:
  assumes "grant_allows g scope (Some i) t" "i \<noteq> sid" "i \<noteq> MCP_NO_SESSIONS_SENTINEL"
  shows "grant_allows (grant_forget_session sid now g) scope (Some i) t"
proof (cases "gr_allowed_sessions g = [] \<or> denies_all_sessions g")
  case True
  then show ?thesis using assms(1) by (auto simp add: grant_forget_session_eq Let_def)
next
  case False
  let ?rest = "filter (\<lambda>s. s \<noteq> sid) (gr_allowed_sessions g)"
  have g: "grant_live g t" "grant_has_scope g scope" "i \<in> grant_covers g"
    using assms(1) by (auto simp add: grant_allows_session_iff)
  then have i: "i \<in> set ?rest" using False assms(2) by (simp add: grant_covers_def)
  then have "?rest \<noteq> []" by (metis empty_iff empty_set)
  moreover have "?rest \<noteq> [MCP_NO_SESSIONS_SENTINEL]" using i assms(3) by force
  ultimately have "i \<in> grant_covers (grant_forget_session sid now g)"
    and "grant_live (grant_forget_session sid now g) t"
    using False i g(1)
    by (simp_all add: grant_forget_session_eq Let_def grant_covers_def grant_live_def
        denies_all_sessions_iff)
  then show ?thesis using g(2) by (simp add: grant_allows_session_iff)
qed

end
