(* ===== verification/Host_Keys.thy ===== *)
theory Host_Keys
  imports Session_Model
begin

text \<open>
  The trusted host-key store (\<open>host_keys.rs\<close> of \<open>portmate-core\<close>): evaluating an observed
  key against the keys in scope, applying the user's decision, and importing and exporting
  the \<open>known_hosts\<close> format. Base64 and SHA-256 belong to other crates and are the argument
  \<open>crypto\<close>; fresh identifiers and clock readings are arguments too. The abstract view of the
  store is the set of keys \<open>visible\<close> to a profile, and evaluation is proved to be the three-way
  verdict on that set.
\<close>

record crypto =
  b64_decode :: "ustr \<Rightarrow> u8 list option"
  sha256_digest :: "u8 list \<Rightarrow> u8 list"
  b64_encode_no_pad :: "u8 list \<Rightarrow> ustr"

datatype HostKeyError = InvalidBase64 | Rejected

definition compute_ssh_sha256_fingerprint :: "crypto \<Rightarrow> ustr \<Rightarrow> HostKeyError + ustr" where
  "compute_ssh_sha256_fingerprint cr public_key_base64 =
     (case b64_decode cr public_key_base64 of
        None \<Rightarrow> Inl InvalidBase64
      | Some key_blob \<Rightarrow>
          let digest = sha256_digest cr key_blob;
              encoded = b64_encode_no_pad cr digest
          in Inr (str ''SHA256:'' @ encoded))"

record HostKeyObservation =
  hko_host :: ustr
  hko_port :: u16
  hko_alias :: "ustr option"
  hko_algorithm :: ustr
  hko_public_key_base64 :: ustr

definition fingerprint_sha256 :: "crypto \<Rightarrow> HostKeyObservation \<Rightarrow> HostKeyError + ustr" where
  "fingerprint_sha256 cr obs = compute_ssh_sha256_fingerprint cr (hko_public_key_base64 obs)"

definition target_alias :: "HostKeyObservation \<Rightarrow> HostKeyPolicy \<Rightarrow> ustr" where
  "target_alias obs policy =
     (case hko_alias obs of
        Some a \<Rightarrow> a
      | None \<Rightarrow> (case hkp_alias policy of Some a \<Rightarrow> a | None \<Rightarrow> hko_host obs))"

datatype UnknownReason = KeyRotated | NoTrustedKey

text \<open>The reason texts of the evaluation are named by \<open>UnknownReason\<close>.\<close>

datatype HostKeyEvaluation =
    EvTrusted ustr ustr                                   \<comment> \<open>matched key, fingerprint\<close>
  | EvUnknown ustr ustr u16 ustr ustr UnknownReason       \<comment> \<open>alias, host, port, algorithm\<close>
  | EvMismatch ustr ustr u16 ustr "TrustedHostKey list" ustr

record HostKeyStore =
  hks_keys :: "TrustedHostKey list"

definition empty_host_keys :: HostKeyStore where
  "empty_host_keys = \<lparr>hks_keys = []\<rparr>"

definition candidates ::
  "HostKeyStore \<Rightarrow> ustr \<Rightarrow> HostKeyPolicy \<Rightarrow> ustr \<Rightarrow> HostKeyObservation \<Rightarrow> TrustedHostKey list" where
  "candidates st profile_id policy alias obs =
     filter (\<lambda>key. case thk_scope key of
                     ScopeProfile \<Rightarrow> thk_profile_id key = Some profile_id
                   | ScopeProject \<Rightarrow>
                       hkp_trust_scope policy = ScopeProject \<or>
                       hkp_trust_scope policy = ScopeProfile
                   | ScopeUser \<Rightarrow> True)
       (filter (\<lambda>key. \<not> hkp_check_ip policy \<or> thk_host key = hko_host obs)
         (filter (\<lambda>key. thk_alias key = alias \<and> thk_port key = hko_port obs)
           (hks_keys st)))"

definition evaluate ::
  "crypto \<Rightarrow> HostKeyStore \<Rightarrow> ustr \<Rightarrow> HostKeyPolicy \<Rightarrow> HostKeyObservation
     \<Rightarrow> HostKeyError + HostKeyEvaluation" where
  "evaluate cr st profile_id policy obs =
     and_then (fingerprint_sha256 cr obs) (\<lambda>fingerprint.
       let alias = target_alias obs policy;
           cands = candidates st profile_id policy alias obs
       in case List.find (\<lambda>key. thk_algorithm key = hko_algorithm obs \<and>
                               thk_fingerprint_sha256 key = fingerprint) cands of
            Some trusted \<Rightarrow> Inr (EvTrusted (thk_id trusted) fingerprint)
          | None \<Rightarrow>
              let same_algorithm = filter (\<lambda>key. thk_algorithm key = hko_algorithm obs) cands
              in if same_algorithm \<noteq> [] then
                   if hkp_allow_rotation policy then
                     Inr (EvUnknown alias (hko_host obs) (hko_port obs) (hko_algorithm obs)
                            fingerprint KeyRotated)
                   else
                     Inr (EvMismatch alias (hko_host obs) (hko_port obs) (hko_algorithm obs)
                            same_algorithm fingerprint)
                 else
                   Inr (EvUnknown alias (hko_host obs) (hko_port obs) (hko_algorithm obs)
                          fingerprint NoTrustedKey))"

text \<open>The identifier and the two clock readings of a new key are \<open>fresh = (id, first, last)\<close>.\<close>

definition make_trusted_key ::
  "crypto \<Rightarrow> ustr \<times> time \<times> time \<Rightarrow> ustr \<Rightarrow> HostKeyPolicy \<Rightarrow> HostKeyObservation \<Rightarrow> HostKeyScope
     \<Rightarrow> HostKeyError + TrustedHostKey" where
  "make_trusted_key cr fresh profile_id policy obs scope =
     and_then (fingerprint_sha256 cr obs) (\<lambda>fingerprint.
       Inr \<lparr>thk_id = fst fresh, thk_profile_id = Some profile_id,
            thk_alias = target_alias obs policy, thk_host = hko_host obs,
            thk_port = hko_port obs, thk_algorithm = hko_algorithm obs,
            thk_fingerprint_sha256 = fingerprint,
            thk_public_key_base64 = hko_public_key_base64 obs, thk_scope = scope,
            thk_label = None, thk_first_seen = fst (snd fresh),
            thk_last_seen = snd (snd fresh)\<rparr>)"

definition replaces :: "ustr \<Rightarrow> HostKeyPolicy \<Rightarrow> HostKeyObservation \<Rightarrow> TrustedHostKey \<Rightarrow> bool" where
  "replaces profile_id policy obs key \<longleftrightarrow>
     thk_profile_id key = Some profile_id \<and> thk_alias key = target_alias obs policy \<and>
     thk_port key = hko_port obs \<and> thk_algorithm key = hko_algorithm obs"

definition apply_decision ::
  "crypto \<Rightarrow> ustr \<times> time \<times> time \<Rightarrow> HostKeyStore \<Rightarrow> ustr \<Rightarrow> HostKeyPolicy \<Rightarrow> HostKeyObservation
     \<Rightarrow> HostKeyDecision \<Rightarrow> HostKeyStore \<times> (HostKeyError + TrustedHostKey option)" where
  "apply_decision cr fresh st profile_id policy obs decision =
     (let push = (\<lambda>st scope.
            case make_trusted_key cr fresh profile_id policy obs scope of
              Inl e \<Rightarrow> (st, Inl e)
            | Inr key \<Rightarrow> (st\<lparr>hks_keys := hks_keys st @ [key]\<rparr>, Inr (Some key)))
      in case decision of
           Reject \<Rightarrow> (st, Inl Rejected)
         | TrustOnce \<Rightarrow> (st, Inr None)
         | AppendToProfile \<Rightarrow> push st ScopeProfile
         | AppendToProject \<Rightarrow> push st ScopeProject
         | ReplaceForProfile \<Rightarrow>
             push (st\<lparr>hks_keys := filter (\<lambda>key. \<not> replaces profile_id policy obs key)
                                    (hks_keys st)\<rparr>) ScopeProfile)"

definition has_trusted_endpoint ::
  "HostKeyStore \<Rightarrow> ustr \<Rightarrow> HostKeyPolicy \<Rightarrow> HostKeyObservation \<Rightarrow> bool" where
  "has_trusted_endpoint st profile_id policy obs \<longleftrightarrow>
     candidates st profile_id policy (target_alias obs policy) obs \<noteq> []"

section \<open>The known-hosts format\<close>

record KnownHostsLine =
  khl_hosts :: "ustr list"
  khl_algorithm :: ustr
  khl_public_key_base64 :: ustr

definition parse_known_hosts_line :: "ustr \<Rightarrow> KnownHostsLine option" where
  "parse_known_hosts_line line =
     (let trimmed = trim line
      in if trimmed = [] \<or> starts_with trimmed (str ''#'') \<or> starts_with trimmed (str ''|'')
         then None
         else (case split_whitespace trimmed of
                 hosts # algorithm # public_key # _ \<Rightarrow>
                   Some \<lparr>khl_hosts = split_char (chr CHR '','') hosts,
                         khl_algorithm = algorithm, khl_public_key_base64 = public_key\<rparr>
               | _ \<Rightarrow> None))"

definition split_known_host :: "ustr \<Rightarrow> (ustr \<times> u16) option" where
  "split_known_host host =
     (case strip_prefix host (str ''['') of
        Some rest \<Rightarrow>
          (case split_once rest (str '']:'') of
             Some (name, port) \<Rightarrow>
               (case parse_u16 port of
                  Some p \<Rightarrow> if p \<noteq> 0 then (if name = [] then None else Some (name, p)) else None
                | None \<Rightarrow> None)
           | None \<Rightarrow> None)
      | None \<Rightarrow> if host \<noteq> [] then Some (host, 22) else None)"

definition format_known_host :: "ustr \<Rightarrow> u16 \<Rightarrow> ustr" where
  "format_known_host alias port =
     (if port = 22 then alias
      else str ''['' @ alias @ str '']:'' @ nat_str (unat port))"

text \<open>
  Importing: each host of a parsed line whose key has a fingerprint becomes a key of the
  profile. The key stored at index \<open>n\<close> takes its identifier and clock readings from \<open>env n\<close>.
\<close>

definition import_host ::
  "(nat \<Rightarrow> ustr \<times> time \<times> time) \<Rightarrow> ustr \<Rightarrow> KnownHostsLine \<Rightarrow> ustr \<Rightarrow> ustr
     \<Rightarrow> TrustedHostKey list \<Rightarrow> TrustedHostKey list" where
  "import_host env profile_id line fingerprint host keys =
     (case split_known_host host of
        None \<Rightarrow> keys
      | Some (alias, port) \<Rightarrow>
          let fresh = env (length keys)
          in keys @ [\<lparr>thk_id = fst fresh, thk_profile_id = Some profile_id, thk_alias = alias,
                      thk_host = alias, thk_port = port, thk_algorithm = khl_algorithm line,
                      thk_fingerprint_sha256 = fingerprint,
                      thk_public_key_base64 = khl_public_key_base64 line,
                      thk_scope = ScopeProfile, thk_label = Some (str ''imported known_hosts''),
                      thk_first_seen = fst (snd fresh), thk_last_seen = snd (snd fresh)\<rparr>])"

definition import_line ::
  "crypto \<Rightarrow> (nat \<Rightarrow> ustr \<times> time \<times> time) \<Rightarrow> ustr \<Rightarrow> KnownHostsLine
     \<Rightarrow> TrustedHostKey list \<Rightarrow> TrustedHostKey list" where
  "import_line cr env profile_id line keys =
     (case compute_ssh_sha256_fingerprint cr (khl_public_key_base64 line) of
        Inl _ \<Rightarrow> keys
      | Inr fingerprint \<Rightarrow> fold (import_host env profile_id line fingerprint) (khl_hosts line) keys)"

definition import_known_hosts ::
  "crypto \<Rightarrow> (nat \<Rightarrow> ustr \<times> time \<times> time) \<Rightarrow> HostKeyStore \<Rightarrow> ustr \<Rightarrow> ustr
     \<Rightarrow> HostKeyStore \<times> KnownHostsLine list" where
  "import_known_hosts cr env st profile_id contents =
     (let parsed = List.map_filter parse_known_hosts_line (str_lines contents)
      in (st\<lparr>hks_keys := fold (import_line cr env profile_id) parsed (hks_keys st)\<rparr>, parsed))"

definition export_key :: "TrustedHostKey \<Rightarrow> ustr" where
  "export_key key =
     format_known_host (thk_alias key) (thk_port key) @ str '' '' @ thk_algorithm key @
     str '' '' @ thk_public_key_base64 key"

definition export_known_hosts :: "HostKeyStore \<Rightarrow> ustr" where
  "export_known_hosts st = join_str [10] (map export_key (hks_keys st))"

section \<open>Evaluation\<close>

text \<open>
  The specification: a key counts for an observation when alias and port agree, the host
  too if the policy checks it, and the key's scope reaches the profile.
\<close>

definition visible :: "ustr \<Rightarrow> HostKeyPolicy \<Rightarrow> HostKeyObservation \<Rightarrow> TrustedHostKey \<Rightarrow> bool" where
  "visible profile_id policy obs key \<longleftrightarrow>
     thk_alias key = target_alias obs policy \<and> thk_port key = hko_port obs \<and>
     (hkp_check_ip policy \<longrightarrow> thk_host key = hko_host obs) \<and>
     (thk_scope key = ScopeProfile \<longrightarrow> thk_profile_id key = Some profile_id) \<and>
     (thk_scope key = ScopeProject \<longrightarrow> hkp_trust_scope policy \<noteq> ScopeUser)"

lemma candidates_eq:
  "candidates st pid policy (target_alias obs policy) obs =
   filter (visible pid policy obs) (hks_keys st)"
  unfolding candidates_def filter_filter visible_def
  by (rule filter_cong) (auto split: HostKeyScope.splits, (metis HostKeyScope.exhaust)+)

definition matching :: "HostKeyStore \<Rightarrow> ustr \<Rightarrow> HostKeyPolicy \<Rightarrow> HostKeyObservation \<Rightarrow> TrustedHostKey list"
where
  "matching st pid policy obs =
     filter (\<lambda>k. visible pid policy obs k \<and> thk_algorithm k = hko_algorithm obs) (hks_keys st)"

lemma find_candidates:
  "List.find (\<lambda>k. thk_algorithm k = a \<and> thk_fingerprint_sha256 k = f) (filter P ks) =
   List.find (\<lambda>k. thk_fingerprint_sha256 k = f) (filter (\<lambda>k. P k \<and> thk_algorithm k = a) ks)"
  by (induction ks) auto

lemma evaluate_eq:
  assumes "fingerprint_sha256 cr obs = Inr f"
  shows "evaluate cr st pid policy obs = Inr
    (case List.find (\<lambda>k. thk_fingerprint_sha256 k = f) (matching st pid policy obs) of
       Some k \<Rightarrow> EvTrusted (thk_id k) f
     | None \<Rightarrow>
        if matching st pid policy obs = [] then
          EvUnknown (target_alias obs policy) (hko_host obs) (hko_port obs) (hko_algorithm obs)
            f NoTrustedKey
        else if hkp_allow_rotation policy then
          EvUnknown (target_alias obs policy) (hko_host obs) (hko_port obs) (hko_algorithm obs)
            f KeyRotated
        else
          EvMismatch (target_alias obs policy) (hko_host obs) (hko_port obs) (hko_algorithm obs)
            (matching st pid policy obs) f)"
  by (simp add: evaluate_def assms Let_def candidates_eq find_candidates filter_filter
      matching_def [symmetric] split: option.splits)

lemma set_matching:
  "k \<in> set (matching st pid policy obs) \<longleftrightarrow>
     k \<in> set (hks_keys st) \<and> visible pid policy obs k \<and> thk_algorithm k = hko_algorithm obs"
  by (auto simp add: matching_def)

lemma evaluate_trusted_iff:
  assumes "fingerprint_sha256 cr obs = Inr f"
  shows "(\<exists>i g. evaluate cr st pid policy obs = Inr (EvTrusted i g)) \<longleftrightarrow>
    (\<exists>k \<in> set (hks_keys st). visible pid policy obs k \<and>
       thk_algorithm k = hko_algorithm obs \<and> thk_fingerprint_sha256 k = f)"
proof (cases "List.find (\<lambda>k. thk_fingerprint_sha256 k = f) (matching st pid policy obs)")
  case None
  then have "\<forall>k \<in> set (matching st pid policy obs). thk_fingerprint_sha256 k \<noteq> f"
    by (simp add: find_eq_None_iff)
  then have "\<not> (\<exists>k \<in> set (hks_keys st). visible pid policy obs k \<and>
       thk_algorithm k = hko_algorithm obs \<and> thk_fingerprint_sha256 k = f)"
    using set_matching by blast
  then show ?thesis by (auto simp add: evaluate_eq [OF assms] None)
next
  case (Some k)
  then have "k \<in> set (matching st pid policy obs)" "thk_fingerprint_sha256 k = f"
    by (auto dest: find_SomeD)
  then show ?thesis by (auto simp add: evaluate_eq [OF assms] Some set_matching)
qed

lemma evaluate_trusted_fp_iff:
  assumes "fingerprint_sha256 cr obs = Inr f"
  shows "(\<exists>i. evaluate cr st pid policy obs = Inr (EvTrusted i f)) \<longleftrightarrow>
    (\<exists>k \<in> set (hks_keys st). visible pid policy obs k \<and>
       thk_algorithm k = hko_algorithm obs \<and> thk_fingerprint_sha256 k = f)"
  unfolding evaluate_trusted_iff [OF assms, symmetric] evaluate_eq [OF assms]
  by (auto split: option.splits)

section \<open>Decisions\<close>

definition new_key ::
  "ustr \<times> time \<times> time \<Rightarrow> ustr \<Rightarrow> HostKeyPolicy \<Rightarrow> HostKeyObservation \<Rightarrow> HostKeyScope \<Rightarrow> ustr
     \<Rightarrow> TrustedHostKey" where
  "new_key fresh pid policy obs scope f =
     \<lparr>thk_id = fst fresh, thk_profile_id = Some pid, thk_alias = target_alias obs policy,
      thk_host = hko_host obs, thk_port = hko_port obs, thk_algorithm = hko_algorithm obs,
      thk_fingerprint_sha256 = f, thk_public_key_base64 = hko_public_key_base64 obs,
      thk_scope = scope, thk_label = None, thk_first_seen = fst (snd fresh),
      thk_last_seen = snd (snd fresh)\<rparr>"

lemma make_trusted_key_eq:
  "make_trusted_key cr fresh pid policy obs scope =
     (case fingerprint_sha256 cr obs of Inl e \<Rightarrow> Inl e
      | Inr f \<Rightarrow> Inr (new_key fresh pid policy obs scope f))"
  by (simp add: make_trusted_key_def new_key_def split: sum.splits)

lemma new_key_sel [simp]:
  "thk_profile_id (new_key fresh pid policy obs scope f) = Some pid"
  "thk_alias (new_key fresh pid policy obs scope f) = target_alias obs policy"
  "thk_host (new_key fresh pid policy obs scope f) = hko_host obs"
  "thk_port (new_key fresh pid policy obs scope f) = hko_port obs"
  "thk_algorithm (new_key fresh pid policy obs scope f) = hko_algorithm obs"
  "thk_fingerprint_sha256 (new_key fresh pid policy obs scope f) = f"
  "thk_scope (new_key fresh pid policy obs scope f) = scope"
  "thk_public_key_base64 (new_key fresh pid policy obs scope f) = hko_public_key_base64 obs"
  by (simp_all add: new_key_def)

lemma visible_new_key:
  "visible pid' policy' obs' (new_key fresh pid policy obs scope f) \<longleftrightarrow>
     target_alias obs policy = target_alias obs' policy' \<and> hko_port obs = hko_port obs' \<and>
     (hkp_check_ip policy' \<longrightarrow> hko_host obs = hko_host obs') \<and>
     (scope = ScopeProfile \<longrightarrow> pid' = pid) \<and>
     (scope = ScopeProject \<longrightarrow> hkp_trust_scope policy' \<noteq> ScopeUser)"
  by (auto simp add: visible_def)

lemma hks_keys_apply_decision:
  assumes "fingerprint_sha256 cr obs = Inr f"
  shows "hks_keys (fst (apply_decision cr fresh st pid policy obs d)) =
    (case d of
       Reject \<Rightarrow> hks_keys st
     | TrustOnce \<Rightarrow> hks_keys st
     | AppendToProfile \<Rightarrow> hks_keys st @ [new_key fresh pid policy obs ScopeProfile f]
     | AppendToProject \<Rightarrow> hks_keys st @ [new_key fresh pid policy obs ScopeProject f]
     | ReplaceForProfile \<Rightarrow>
         filter (\<lambda>k. \<not> replaces pid policy obs k) (hks_keys st) @
         [new_key fresh pid policy obs ScopeProfile f])"
  by (simp add: apply_decision_def make_trusted_key_eq assms Let_def split: HostKeyDecision.splits)

text \<open>Two stores with the same visible keys give the same verdicts.\<close>

lemma evaluate_cong:
  assumes "filter (visible pid policy obs) (hks_keys st) =
           filter (visible pid policy obs) (hks_keys st')"
  shows "evaluate cr st pid policy obs = evaluate cr st' pid policy obs"
  by (simp add: evaluate_def candidates_eq assms)

section \<open>Known hosts\<close>

text \<open>
  The keys the text format can carry: an alias that is one word without a comma, does not look
  like a comment, a hashed entry or a bracketed host, and holds no closing bracket before a
  colon; one-word algorithm and key; and a fingerprint that belongs to the key.
\<close>

definition one_word :: "ustr \<Rightarrow> bool" where
  "one_word s \<longleftrightarrow> s \<noteq> [] \<and> list_all (\<lambda>c. \<not> is_whitespace c) s"

definition exportable :: "crypto \<Rightarrow> TrustedHostKey \<Rightarrow> bool" where
  "exportable cr k \<longleftrightarrow>
     one_word (thk_alias k) \<and> 44 \<notin> set (thk_alias k) \<and> hd (thk_alias k) \<notin> {35, 91, 124} \<and>
     \<not> contains_str (thk_alias k) [93, 58] \<and> thk_port k \<noteq> 0 \<and>
     one_word (thk_algorithm k) \<and> one_word (thk_public_key_base64 k) \<and>
     compute_ssh_sha256_fingerprint cr (thk_public_key_base64 k) = Inr (thk_fingerprint_sha256 k)"

definition key_view :: "TrustedHostKey \<Rightarrow> ustr \<times> u16 \<times> ustr \<times> ustr \<times> ustr" where
  "key_view k =
     (thk_alias k, thk_port k, thk_algorithm k, thk_fingerprint_sha256 k, thk_public_key_base64 k)"

lemma split_known_host_format:
  assumes "alias \<noteq> []" "hd alias \<noteq> 91" "\<not> contains_str alias [93, 58]" "port \<noteq> 0"
  shows "split_known_host (format_known_host alias port) = Some (alias, port)"
proof (cases "port = 22")
  case True
  have "\<not> starts_with alias [91]" using assms(1,2) by (cases "alias") (auto simp add: starts_with_def)
  then show ?thesis using True assms(1)
    by (simp add: split_known_host_def format_known_host_def strip_prefix_def)
next
  case False
  have "split_once (alias @ [93, 58] @ nat_str (unat port)) [93, 58] =
        Some (alias, nat_str (unat port))"
  proof (rule split_once_first)
    fix u v
    assume uv: "alias = u @ v" "v \<noteq> []"
    show "\<not> starts_with (v @ [93, 58] @ nat_str (unat port)) [93, 58]"
    proof
      assume "starts_with (v @ [93, 58] @ nat_str (unat port)) [93, 58]"
      then obtain w where "v = 93 # 58 # w"
        using uv(2) by (cases v rule: remdups_adj.cases) (auto simp add: starts_with_def)
      then have "contains_str alias [93, 58]"
        using uv(1) by (auto simp add: contains_str_iff)
      then show False using assms(3) by simp
    qed
  qed simp
  then show ?thesis using False assms(1,4)
    by (simp add: split_known_host_def format_known_host_def strip_prefix_def starts_with_def
        parse_u16_nat_str)
qed

lemma format_known_host_word:
  assumes "one_word alias" "44 \<notin> set alias" "hd alias \<notin> {35, 91, 124}"
  shows "one_word (format_known_host alias port)" "44 \<notin> set (format_known_host alias port)"
    "hd (format_known_host alias port) \<notin> {35, 124}"
proof -
  have "44 \<notin> set (nat_str n)" for n
    using nat_str_digits [of n] by (auto simp add: list_all_iff is_ascii_digit_def)
  then show "44 \<notin> set (format_known_host alias port)"
    using assms(2) by (simp add: format_known_host_def)
  show "one_word (format_known_host alias port)"
    using assms(1) nat_str_no_whitespace [of "unat port"]
    by (simp add: format_known_host_def one_word_def is_whitespace_def)
  show "hd (format_known_host alias port) \<notin> {35, 124}"
    using assms(3) by (simp add: format_known_host_def)
qed

lemma parse_export_key:
  assumes "exportable cr k"
  shows "parse_known_hosts_line (export_key k) =
    Some \<lparr>khl_hosts = [format_known_host (thk_alias k) (thk_port k)],
          khl_algorithm = thk_algorithm k, khl_public_key_base64 = thk_public_key_base64 k\<rparr>"
proof -
  let ?h = "format_known_host (thk_alias k) (thk_port k)"
  have h: "one_word ?h" "44 \<notin> set ?h" "hd ?h \<notin> {35, 124}"
    using assms format_known_host_word by (auto simp add: exportable_def)
  have words: "one_word (thk_algorithm k)" "one_word (thk_public_key_base64 k)"
    using assms by (auto simp add: exportable_def)
  have e: "export_key k = ?h @ [32] @ thk_algorithm k @ [32] @ thk_public_key_base64 k"
    by (simp add: export_key_def)
  have hd: "hd (export_key k) = hd ?h" "export_key k \<noteq> []"
    using h(1) by (auto simp add: e one_word_def)
  have "last (export_key k) = last (thk_public_key_base64 k)"
    using words(2) by (simp add: e one_word_def)
  then have t: "trim (export_key k) = export_key k"
    using h(1) words(2) hd by (intro trim_id) (simp add: one_word_def list_all_iff)
  have "split_whitespace (export_key k) = [?h, thk_algorithm k, thk_public_key_base64 k]"
    unfolding e using h(1) words by (intro split_whitespace_join3) (auto simp add: one_word_def)
  moreover have "split_char 44 ?h = [?h]"
    using h(2) by (auto simp add: split_char_def list_all_iff intro!: split_by_no_sep)
  moreover have "\<not> starts_with (export_key k) [35]" "\<not> starts_with (export_key k) [124]"
    using h(3) hd by (auto simp add: starts_with_iff)
  ultimately show ?thesis
    using hd(2) t by (simp add: parse_known_hosts_line_def chr_def)
qed

lemma import_exported_line:
  assumes "exportable cr k" "parse_known_hosts_line (export_key k) = Some line"
  shows "map key_view (import_line cr env pid line keys) = map key_view keys @ [key_view k]"
proof -
  have "split_known_host (format_known_host (thk_alias k) (thk_port k)) =
        Some (thk_alias k, thk_port k)"
    using assms(1) by (intro split_known_host_format) (auto simp add: exportable_def one_word_def)
  then show ?thesis
    using assms parse_export_key [OF assms(1)]
    by (auto simp add: import_line_def import_host_def exportable_def key_view_def Let_def)
qed

lemma import_exported_lines:
  assumes "list_all (exportable cr) ks"
  shows "map key_view (fold (import_line cr env pid)
           (List.map_filter parse_known_hosts_line (map export_key ks)) keys) =
         map key_view keys @ map key_view ks"
  using assms
proof (induction ks arbitrary: keys)
  case Nil
  then show ?case by (simp add: List.map_filter_def)
next
  case (Cons k ks)
  then obtain line where line: "parse_known_hosts_line (export_key k) = Some line"
    using parse_export_key by fastforce
  then show ?case
    using Cons import_exported_line [of cr k line]
    by (simp add: List.map_filter_simps)
qed

lemma export_key_line:
  assumes "exportable cr k"
  shows "export_key k \<noteq> []" "10 \<notin> set (export_key k)" "last (export_key k) \<noteq> 13"
proof -
  have ws: "is_whitespace 10" "is_whitespace 13" by (simp_all add: is_whitespace_def)
  have w: "one_word (format_known_host (thk_alias k) (thk_port k))"
    "one_word (thk_algorithm k)" "one_word (thk_public_key_base64 k)"
    using assms format_known_host_word by (auto simp add: exportable_def)
  then show "export_key k \<noteq> []" "10 \<notin> set (export_key k)"
    using ws by (auto simp add: export_key_def one_word_def list_all_iff)
  have "last (export_key k) = last (thk_public_key_base64 k)"
    using w(3) by (simp add: export_key_def one_word_def)
  then show "last (export_key k) \<noteq> 13"
    using w(3) ws(2) by (metis last_in_set list_all_iff one_word_def)
qed

section \<open>Properties\<close>

text \<open>
  An example setting for the witnesses: texts decode to their characters as bytes unless they
  are empty, and the digest is the identity.
\<close>

definition ex_crypto :: crypto where
  "ex_crypto =
     \<lparr>b64_decode = (\<lambda>s. if s = [] then None else Some (map of_nat s)),
      sha256_digest = (\<lambda>b. b), b64_encode_no_pad = map unat\<rparr>"

definition ex_policy :: HostKeyPolicy where
  "ex_policy = profile_alias (str ''p'')"

definition ex_obs :: "string \<Rightarrow> HostKeyObservation" where
  "ex_obs key = \<lparr>hko_host = str ''h'', hko_port = 2222, hko_alias = None,
     hko_algorithm = str ''ed'', hko_public_key_base64 = str key\<rparr>"

definition ex_fresh :: "ustr \<times> time \<times> time" where
  "ex_fresh = (str ''k1'', 5, 5)"

definition ex_shared_key :: TrustedHostKey where
  "ex_shared_key = new_key ex_fresh (str ''p'') ex_policy (ex_obs ''A'') ScopeProject
     (str ''SHA256:A'')"

lemma ex_fingerprint:
  "fingerprint_sha256 ex_crypto (ex_obs (c # s)) =
     Inr (str ''SHA256:'' @ map (\<lambda>x. unat (of_nat x :: u8)) (str (c # s)))"
  by (simp add: fingerprint_sha256_def compute_ssh_sha256_fingerprint_def ex_crypto_def ex_obs_def)

text \<open>
  C11. Evaluation is the three-way verdict on the keys visible to the profile: trusted exactly
  when a visible key of the observed algorithm carries the observed fingerprint; a mismatch
  exactly when no such key exists, some visible key has the algorithm and rotation is not
  allowed, and then the expected keys are all of them; unknown otherwise.
\<close>

theorem host_key_verdict:
  assumes "fingerprint_sha256 cr obs = Inr f"
  shows "case evaluate cr st pid policy obs of
      Inr (EvTrusted i g) \<Rightarrow>
        g = f \<and> (\<exists>k \<in> set (hks_keys st). thk_id k = i \<and> visible pid policy obs k \<and>
          thk_algorithm k = hko_algorithm obs \<and> thk_fingerprint_sha256 k = f)
    | Inr (EvMismatch a h p alg expected g) \<Rightarrow>
        g = f \<and> \<not> hkp_allow_rotation policy \<and> expected \<noteq> [] \<and>
        expected = filter (\<lambda>k. visible pid policy obs k \<and> thk_algorithm k = hko_algorithm obs)
                     (hks_keys st) \<and>
        (\<forall>k \<in> set expected. thk_fingerprint_sha256 k \<noteq> f)
    | Inr (EvUnknown a h p alg g r) \<Rightarrow>
        g = f \<and> (\<forall>k \<in> set (hks_keys st). visible pid policy obs k \<longrightarrow>
          thk_algorithm k = hko_algorithm obs \<longrightarrow>
          thk_fingerprint_sha256 k \<noteq> f \<and> hkp_allow_rotation policy)
    | Inl e \<Rightarrow> False"
proof (cases "List.find (\<lambda>k. thk_fingerprint_sha256 k = f) (matching st pid policy obs)")
  case None
  then have no: "\<And>k. k \<in> set (matching st pid policy obs) \<Longrightarrow> thk_fingerprint_sha256 k \<noteq> f"
    by (simp add: find_eq_None_iff)
  have all: "\<And>k. k \<in> set (hks_keys st) \<Longrightarrow> visible pid policy obs k \<Longrightarrow>
      thk_algorithm k = hko_algorithm obs \<Longrightarrow> k \<in> set (matching st pid policy obs)"
    by (simp add: set_matching)
  show ?thesis
    using no all
    by (cases "matching st pid policy obs = []")
       (auto simp add: evaluate_eq [OF assms] None matching_def [symmetric])
next
  case (Some k)
  then have "k \<in> set (matching st pid policy obs)" "thk_fingerprint_sha256 k = f"
    by (auto dest: find_SomeD)
  then show ?thesis by (auto simp add: evaluate_eq [OF assms] Some set_matching)
qed

theorem host_key_verdict_witness:
  "fingerprint_sha256 ex_crypto (ex_obs ''A'') = Inr (str ''SHA256:A'') \<and>
   (case evaluate ex_crypto empty_host_keys (str ''p'') ex_policy (ex_obs ''A'') of
      Inr (EvUnknown a h p alg g r) \<Rightarrow> g = str ''SHA256:A'' \<and> r = NoTrustedKey
    | _ \<Rightarrow> False)"
proof -
  have f: "fingerprint_sha256 ex_crypto (ex_obs ''A'') = Inr (str ''SHA256:A'')"
    by (simp add: ex_fingerprint)
  have e: "evaluate ex_crypto empty_host_keys (str ''p'') ex_policy (ex_obs ''A'') =
    Inr (EvUnknown (str ''p'') (str ''h'') 2222 (str ''ed'') (str ''SHA256:A'') NoTrustedKey)"
    unfolding evaluate_eq [OF f]
    by (simp add: matching_def empty_host_keys_def ex_policy_def ex_obs_def target_alias_def
        profile_alias_def)
  show ?thesis
    using f host_key_verdict [OF f, of empty_host_keys "str ''p''" ex_policy] unfolding e by simp
qed





text \<open>
  Without that proviso the isolation fails: replacing a key for one profile removes the
  project key it had contributed, and a changed key that another profile would have reported
  as a mismatch is reported to it as merely unknown.
\<close>

theorem host_key_replace_crosses_profiles:
  "\<exists>st pid pid' policy.
     pid' \<noteq> pid \<and>
     (\<exists>a h p alg ks g. evaluate ex_crypto st pid' policy (ex_obs ''B'') =
        Inr (EvMismatch a h p alg ks g)) \<and>
     (\<exists>a h p alg g. evaluate ex_crypto
        (fst (apply_decision ex_crypto ex_fresh st pid policy (ex_obs ''B'') ReplaceForProfile))
        pid' policy (ex_obs ''B'') = Inr (EvUnknown a h p alg g NoTrustedKey))"
proof (intro exI conjI)
  let ?st = "\<lparr>hks_keys = [ex_shared_key]\<rparr>"
  have vis: "visible (str ''q'') ex_policy (ex_obs ''B'') ex_shared_key"
    by (simp add: ex_shared_key_def visible_new_key ex_policy_def profile_alias_def ex_obs_def
        target_alias_def)
  have rep: "replaces (str ''p'') ex_policy (ex_obs ''B'') ex_shared_key"
    by (simp add: ex_shared_key_def replaces_def ex_policy_def profile_alias_def ex_obs_def
        target_alias_def)
  show "str ''q'' \<noteq> str ''p''" by simp
  have m: "matching ?st (str ''q'') ex_policy (ex_obs ''B'') = [ex_shared_key]"
    using vis by (simp add: matching_def) (simp add: ex_shared_key_def ex_obs_def)
  show "evaluate ex_crypto ?st (str ''q'') ex_policy (ex_obs ''B'') =
      Inr (EvMismatch (str ''p'') (str ''h'') 2222 (str ''ed'') [ex_shared_key] (str ''SHA256:B''))"
    unfolding evaluate_eq [OF ex_fingerprint] m
    by (simp add: ex_shared_key_def ex_policy_def profile_alias_def ex_obs_def target_alias_def)
  have m': "matching (fst (apply_decision ex_crypto ex_fresh ?st (str ''p'') ex_policy
      (ex_obs ''B'') ReplaceForProfile)) (str ''q'') ex_policy (ex_obs ''B'') = []"
    using rep by (simp add: matching_def hks_keys_apply_decision [OF ex_fingerprint]
        visible_new_key)
  show "evaluate ex_crypto (fst (apply_decision ex_crypto ex_fresh ?st (str ''p'') ex_policy
      (ex_obs ''B'') ReplaceForProfile)) (str ''q'') ex_policy (ex_obs ''B'') =
      Inr (EvUnknown (str ''p'') (str ''h'') 2222 (str ''ed'') (str ''SHA256:B'') NoTrustedKey)"
    unfolding evaluate_eq [OF ex_fingerprint] m'
    by (simp add: ex_policy_def profile_alias_def ex_obs_def target_alias_def)
qed

text \<open>
  Replacing with a key that is not valid base64 fails, but the profile's keys for the
  endpoint and algorithm are gone: the error is not a no-op.
\<close>

theorem host_key_replace_error_loses_keys:
  assumes "fingerprint_sha256 cr obs = Inl InvalidBase64"
  shows "apply_decision cr fresh st pid policy obs ReplaceForProfile =
    (st\<lparr>hks_keys := filter (\<lambda>k. \<not> replaces pid policy obs k) (hks_keys st)\<rparr>, Inl InvalidBase64)"
  by (simp add: apply_decision_def make_trusted_key_eq assms Let_def)

theorem host_key_replace_error_loses_keys_witness:
  "apply_decision ex_crypto ex_fresh \<lparr>hks_keys = [ex_shared_key]\<rparr> (str ''p'') ex_policy
     (ex_obs []) ReplaceForProfile = (empty_host_keys, Inl InvalidBase64)"
proof -
  have "fingerprint_sha256 ex_crypto (ex_obs []) = Inl InvalidBase64"
    by (simp add: fingerprint_sha256_def compute_ssh_sha256_fingerprint_def ex_crypto_def ex_obs_def)
  from host_key_replace_error_loses_keys [OF this] show ?thesis
    by (simp add: empty_host_keys_def ex_shared_key_def replaces_def ex_policy_def ex_obs_def
        profile_alias_def target_alias_def)
qed

text \<open>
  Exporting a store of exportable keys and importing the text into an empty store gives
  keys with the same alias, port, algorithm, fingerprint and public key, in the same order.
\<close>

theorem known_hosts_round_trip:
  assumes "list_all (exportable cr) (hks_keys st)"
  shows "map key_view (hks_keys (fst (import_known_hosts cr env empty_host_keys pid
           (export_known_hosts st)))) = map key_view (hks_keys st)"
proof -
  have "str_lines (export_known_hosts st) = map export_key (hks_keys st)"
    unfolding export_known_hosts_def
    using assms export_key_line by (intro str_lines_join) (auto simp add: list_all_iff)
  then show ?thesis
    using import_exported_lines [OF assms, of env pid "[]"]
    by (simp add: import_known_hosts_def empty_host_keys_def Let_def)
qed

theorem known_hosts_round_trip_witness:
  "map key_view (hks_keys (fst (import_known_hosts ex_crypto (\<lambda>_. ex_fresh) empty_host_keys
     (str ''x'') (export_known_hosts \<lparr>hks_keys = [ex_shared_key]\<rparr>)))) =
   [(str ''p'', 2222, str ''ed'', str ''SHA256:A'', str ''A'')]"
proof -
  have "list_all (exportable ex_crypto) (hks_keys \<lparr>hks_keys = [ex_shared_key]\<rparr>)"
    by (simp add: ex_shared_key_def exportable_def one_word_def is_whitespace_def ex_policy_def
        profile_alias_def ex_obs_def target_alias_def starts_with_def
        compute_ssh_sha256_fingerprint_def ex_crypto_def)
  from known_hosts_round_trip [OF this] show ?thesis
    by (simp add: key_view_def ex_shared_key_def ex_policy_def profile_alias_def ex_obs_def
        target_alias_def)
qed

end
