(* ===== verification/Event_Sink.thy ===== *)
theory Event_Sink
  imports Session_Model
begin

text \<open>
  The bounded outbox between the store and the worker that writes system events
  (\<open>store_system_events.rs\<close> of \<open>portmate-core\<close>). The state behind the mutex is a record; the
  flag \<open>sink_poisoned\<close> says that a thread panicked while holding the lock. What
  \<open>try_send\<close> answers on the notification channel is the environment's choice, the argument
  \<open>chan\<close>. The locale \<open>bounded_outbox\<close> is the contract the store relies on.
\<close>

abbreviation (input) MAX_SYSTEM_EVENT_OUTBOX :: nat where "MAX_SYSTEM_EVENT_OUTBOX \<equiv> 4096"

type_synonym SystemEventEnvelope = "SessionEvent \<times> SessionProfile option"

text \<open>The answers of \<open>SyncSender::try_send\<close>; a sender is named by a number.\<close>

datatype TrySend = SendOk | SendFull | SendDisconnected

datatype SinkError = SinkStatePoisoned | SinkWorkerDisconnected | SinkBacklogExceeded

datatype SystemEventSinkStatus = SinkInactive | SinkActive nat | SinkFailed SinkError

record SystemEventSinkState =
  sink_status :: SystemEventSinkStatus
  sink_outbox :: "SystemEventEnvelope list"
  sink_poisoned :: bool

definition sink_default :: SystemEventSinkState where
  "sink_default = \<lparr>sink_status = SinkInactive, sink_outbox = [], sink_poisoned = False\<rparr>"

definition set_notifier ::
  "(nat \<Rightarrow> TrySend) \<Rightarrow> nat \<Rightarrow> SystemEventSinkState \<Rightarrow> SystemEventSinkState \<times> (SinkError + unit)" where
  "set_notifier chan sender s =
     (if sink_poisoned s then (s, Inl SinkStatePoisoned)
      else
        let s = s\<lparr>sink_status := SinkActive sender\<rparr>
        in if sink_outbox s \<noteq> [] \<and> chan sender = SendDisconnected
           then (s\<lparr>sink_status := SinkFailed SinkWorkerDisconnected\<rparr>, Inl SinkWorkerDisconnected)
           else (s, Inr ()))"

definition clear_notifier :: "SystemEventSinkState \<Rightarrow> SystemEventSinkState" where
  "clear_notifier s = (if sink_poisoned s then s else s\<lparr>sink_status := SinkInactive\<rparr>)"

definition enqueue ::
  "(nat \<Rightarrow> TrySend) \<Rightarrow> SystemEventEnvelope \<Rightarrow> SystemEventSinkState
     \<Rightarrow> SystemEventSinkState \<times> (SinkError + unit)" where
  "enqueue chan envelope s =
     (if sink_poisoned s then (s, Inl SinkStatePoisoned)
      else (case sink_status s of
              SinkInactive \<Rightarrow> (s, Inr ())
            | SinkFailed e \<Rightarrow> (s, Inl e)
            | SinkActive notifier \<Rightarrow>
                if MAX_SYSTEM_EVENT_OUTBOX \<le> length (sink_outbox s)
                then (s, Inl SinkBacklogExceeded)
                else
                  let s = s\<lparr>sink_outbox := sink_outbox s @ [envelope]\<rparr>
                  in (case chan notifier of
                        SendOk \<Rightarrow> (s, Inr ())
                      | SendFull \<Rightarrow> (s, Inr ())
                      | SendDisconnected \<Rightarrow>
                          (s\<lparr>sink_outbox := butlast (sink_outbox s),
                             sink_status := SinkFailed SinkWorkerDisconnected\<rparr>,
                           Inl SinkWorkerDisconnected))))"

definition drain :: "SystemEventSinkState \<Rightarrow> SystemEventSinkState \<times> SystemEventEnvelope list" where
  "drain s = (if sink_poisoned s then (s, []) else (s\<lparr>sink_outbox := []\<rparr>, sink_outbox s))"

definition discard_session :: "ustr \<Rightarrow> SystemEventSinkState \<Rightarrow> SystemEventSinkState" where
  "discard_session session_id s =
     s\<lparr>sink_outbox := filter (\<lambda>(event, _). ev_session_id event \<noteq> session_id) (sink_outbox s)\<rparr>"

definition discard_event :: "ustr \<Rightarrow> SystemEventSinkState \<Rightarrow> SystemEventSinkState" where
  "discard_event event_id s =
     s\<lparr>sink_outbox := filter (\<lambda>(event, _). ev_id event \<noteq> event_id) (sink_outbox s)\<rparr>"

section \<open>The contract of an outbox\<close>

text \<open>
  An outbox holds a list of at most \<open>cap\<close> entries. Enqueuing either appends the entry or
  leaves the list alone, draining hands the whole list over and empties it, and discarding
  keeps exactly the entries outside a class.
\<close>

locale bounded_outbox =
  fixes enq :: "'e \<Rightarrow> 's \<Rightarrow> 's"
    and drn :: "'s \<Rightarrow> 's \<times> 'e list"
    and contents :: "'s \<Rightarrow> 'e list"
    and usable :: "'s \<Rightarrow> bool"
    and cap :: nat
  assumes enq_contents: "usable s \<Longrightarrow> contents (enq e s) \<in> {contents s, contents s @ [e]}"
    and enq_cap: "usable s \<Longrightarrow> length (contents s) \<le> cap \<Longrightarrow> length (contents (enq e s)) \<le> cap"
    and enq_usable: "usable s \<Longrightarrow> usable (enq e s)"
    and drn_contents: "usable s \<Longrightarrow> drn s = (s', es) \<Longrightarrow> es = contents s \<and> contents s' = []"
    and drn_usable: "usable s \<Longrightarrow> drn s = (s', es) \<Longrightarrow> usable s'"
begin

text \<open>Enqueuing many: what is added is a subsequence of what was offered, in order.\<close>

lemma enq_many:
  assumes "usable s" "length (contents s) \<le> cap"
  shows "usable (fold enq es s) \<and> length (contents (fold enq es s)) \<le> cap \<and>
    (\<exists>added. contents (fold enq es s) = contents s @ added \<and> subseq added es)"
  using assms
proof (induction es arbitrary: s)
  case Nil
  then show ?case by simp
next
  case (Cons e es)
  have u: "usable (enq e s)" and c: "length (contents (enq e s)) \<le> cap"
    using Cons.prems enq_usable enq_cap by blast+
  from Cons.IH [OF u c] obtain added where
    IH: "usable (fold enq es (enq e s))" "length (contents (fold enq es (enq e s))) \<le> cap"
    "contents (fold enq es (enq e s)) = contents (enq e s) @ added" "subseq added es" by blast
  from enq_contents [OF Cons.prems(1), of e] consider
    "contents (enq e s) = contents s" | "contents (enq e s) = contents s @ [e]" by blast
  then show ?case
  proof cases
    case 1
    then have "contents (fold enq (e # es) s) = contents s @ added" using IH(3) by simp
    moreover have "subseq added (e # es)" using IH(4) by (rule list_emb_Cons)
    ultimately show ?thesis using IH(1,2) by auto
  next
    case 2
    then have "contents (fold enq (e # es) s) = contents s @ e # added" using IH(3) by simp
    moreover have "subseq (e # added) (e # es)" using IH(4) by simp
    ultimately show ?thesis using IH(1,2) by auto
  qed
qed

lemma drain_after_enq:
  assumes "usable s" "contents s = []"
  shows "subseq (snd (drn (fold enq es s))) es \<and> length (snd (drn (fold enq es s))) \<le> cap"
proof -
  obtain added where a: "usable (fold enq es s)" "length (contents (fold enq es s)) \<le> cap"
    "contents (fold enq es s) = added" "subseq added es"
    using enq_many [OF assms(1), of es] assms(2) by auto
  then show ?thesis
    using drn_contents [of "fold enq es s" "fst (drn (fold enq es s))" "snd (drn (fold enq es s))"]
    by simp
qed

end

section \<open>The sink keeps the contract\<close>

lemma enqueue_outbox:
  "sink_outbox (fst (enqueue chan e s)) =
     (if \<not> sink_poisoned s \<and> length (sink_outbox s) < MAX_SYSTEM_EVENT_OUTBOX \<and>
         (\<exists>n. sink_status s = SinkActive n \<and> chan n \<noteq> SendDisconnected)
      then sink_outbox s @ [e] else sink_outbox s)"
  by (auto simp add: enqueue_def Let_def split: SystemEventSinkStatus.splits TrySend.splits)

lemma enqueue_poisoned [simp]: "sink_poisoned (fst (enqueue chan e s)) = sink_poisoned s"
  by (simp add: enqueue_def Let_def split: SystemEventSinkStatus.splits TrySend.splits)

interpretation sink: bounded_outbox
  "\<lambda>e s. fst (enqueue chan e s)" drain sink_outbox "\<lambda>s. \<not> sink_poisoned s"
  MAX_SYSTEM_EVENT_OUTBOX
  for chan
  by unfold_locales (auto simp add: enqueue_outbox drain_def split: if_splits)

lemma discard_session_outbox:
  "sink_outbox (discard_session sid s) = filter (\<lambda>(e, _). ev_session_id e \<noteq> sid) (sink_outbox s)"
  by (simp add: discard_session_def)

text \<open>A failed sink stays failed until a new notifier is set; nothing is stored meanwhile.\<close>

lemma enqueue_failed:
  "sink_status s = SinkFailed e \<Longrightarrow> \<not> sink_poisoned s \<Longrightarrow> enqueue chan x s = (s, Inl e)"
  by (simp add: enqueue_def)

end
