(* ===== verification/Redaction.thy ===== *)
theory Redaction
  imports Session_Model "HOL-Library.While_Combinator"
begin

text \<open>
  Removal of secrets (\<open>redaction.rs\<close> of \<open>portmate-core\<close> and
  \<open>redact_custom_script_event_bodies\<close> of \<open>custom_scripts.rs\<close>). The regular-expression engine
  is another crate: the argument \<open>regexes\<close> gives the matches of the key prefix and one round
  of \<open>replace_all\<close> for each of the two secret patterns. Offsets count characters, where the
  code counts bytes at character boundaries. The rounds are repeated until nothing changes,
  so redaction is a \<open>while_option\<close> loop whose \<open>None\<close> says that it does not return.
\<close>

record regexes =
  rx_key_prefix :: "ustr \<Rightarrow> (nat \<times> nat) list"  \<comment> \<open>the matches of the key prefix: start, end\<close>
  rx_bearer_round :: "ustr \<Rightarrow> ustr"
  rx_private_key_round :: "ustr \<Rightarrow> ustr"

definition slice :: "nat \<Rightarrow> nat \<Rightarrow> 'a list \<Rightarrow> 'a list" where
  "slice a b s = take (b - a) (drop a s)"

definition replace_range :: "nat \<Rightarrow> nat \<Rightarrow> 'a list \<Rightarrow> 'a list \<Rightarrow> 'a list" where
  "replace_range a b r s = take a s @ r @ drop b s"

fun find_index :: "('a \<Rightarrow> bool) \<Rightarrow> 'a list \<Rightarrow> nat option" where
  "find_index P [] = None"
| "find_index P (x # xs) = (if P x then Some 0 else map_option Suc (find_index P xs))"

section \<open>Key-value secrets\<close>

text \<open>The scan for the closing quote: an escaped character is skipped.\<close>

fun close_quote :: "uchar \<Rightarrow> bool \<Rightarrow> ustr \<Rightarrow> nat option" where
  "close_quote quote escaped [] = None"
| "close_quote quote escaped (c # s) =
     (if escaped then map_option Suc (close_quote quote False s)
      else if c = 92 then map_option Suc (close_quote quote True s)
      else if c = quote then Some 0
      else map_option Suc (close_quote quote False s))"

text \<open>
  The range of the input that the match ending at \<open>value_start\<close> makes secret; \<open>next_key\<close> is
  the start of the next match.
\<close>

definition secret_range :: "ustr \<Rightarrow> nat \<Rightarrow> nat option \<Rightarrow> (nat \<times> nat) option" where
  "secret_range input value_start next_key =
     (let limit0 = (case next_key of Some n \<Rightarrow> n | None \<Rightarrow> length input);
          value_limit =
            (case find_index (\<lambda>c. c = 13 \<or> c = 10) (slice value_start limit0 input) of
               Some offset \<Rightarrow> value_start + offset | None \<Rightarrow> limit0)
      in if value_limit \<le> value_start then None
         else
           let content_start =
                 value_start + length (takeWhile is_whitespace (slice value_start value_limit input));
               val = slice content_start value_limit input;
               closing =
                 (case val of
                    [] \<Rightarrow> None
                  | q # rest \<Rightarrow>
                      if q = 34 \<or> q = 39 then map_option Suc (close_quote q False rest) else None)
           in case closing of
                Some close \<Rightarrow> Some (content_start + 1, content_start + close)
              | None \<Rightarrow>
                  let value_end =
                        (case next_key of
                           None \<Rightarrow> value_limit
                         | Some _ \<Rightarrow>
                             let body = trim_end (slice value_start value_limit input);
                                 trimmed_end = value_start + length body
                             in (case find_index (\<lambda>c. c = 44 \<or> c = 59) (rev body) of
                                   None \<Rightarrow> trimmed_end
                                 | Some back \<Rightarrow>
                                     let delimiter = trimmed_end - 1 - back
                                     in if trim (slice (delimiter + 1) trimmed_end input) = []
                                        then delimiter else trimmed_end))
                  in if value_start < value_end then Some (value_start, value_end) else None)"

text \<open>The matches are handled from the last to the first, each replacing a range of the input.\<close>

fun redact_matches :: "ustr \<Rightarrow> (nat \<times> nat) list \<Rightarrow> ustr" where
  "redact_matches input [] = input"
| "redact_matches input ((m_start, m_end) # ms) =
     (let output = redact_matches input ms;
          next_key = (case ms of [] \<Rightarrow> None | (s, _) # _ \<Rightarrow> Some s)
      in case secret_range input m_end next_key of
           None \<Rightarrow> output
         | Some (a, b) \<Rightarrow> replace_range a b (str ''<redacted>'') output)"

definition redact_key_value_secrets :: "regexes \<Rightarrow> ustr \<Rightarrow> ustr" where
  "redact_key_value_secrets rx input = redact_matches input (rx_key_prefix rx input)"

section \<open>All secrets\<close>

definition redact_loop :: "(ustr \<Rightarrow> ustr) \<Rightarrow> ustr \<Rightarrow> ustr option" where
  "redact_loop rnd s = while_option (\<lambda>t. rnd t \<noteq> t) rnd s"

definition redact_secrets :: "regexes \<Rightarrow> ustr \<Rightarrow> ustr option" where
  "redact_secrets rx input =
     Option.bind (redact_loop (rx_bearer_round rx) (redact_key_value_secrets rx input))
       (redact_loop (rx_private_key_round rx))"

text \<open>
  The records below are redacted field by field with a text redaction \<open>red\<close>: the total
  function that \<open>redact_secrets\<close> is wherever it returns.
\<close>

definition redact_action :: "(ustr \<Rightarrow> ustr) \<Rightarrow> TriggerAction \<Rightarrow> TriggerAction" where
  "redact_action red action =
     (case action of
        ActSendText _ \<Rightarrow> ActSendText (str ''<redacted>'')
      | ActLocalCommand _ \<Rightarrow> ActLocalCommand (str ''<redacted>'')
      | ActCustomLink _ \<Rightarrow> ActCustomLink (str ''<redacted-url-template>'')
      | ActNotification message \<Rightarrow> ActNotification (red message)
      | ActTimelineMark label \<Rightarrow> ActTimelineMark (red label)
      | ActHighlight c \<Rightarrow> ActHighlight c
      | ActSound n \<Rightarrow> ActSound n)"

definition redact_trigger :: "(ustr \<Rightarrow> ustr) \<Rightarrow> TriggerSpec \<Rightarrow> TriggerSpec" where
  "redact_trigger red trigger = trigger
     \<lparr>trg_label := red (trg_label trigger),
      trg_matcher := (case trg_matcher trigger of
                        MatchContains text cs \<Rightarrow> MatchContains (red text) cs
                      | MatchRegex pattern \<Rightarrow> MatchRegex (red pattern)),
      trg_actions := map (redact_action red) (trg_actions trigger)\<rparr>"

definition redact_ssh :: "SshConnection \<Rightarrow> SshConnection" where
  "redact_ssh ssh = ssh
     \<lparr>ssh_password_secret_ref := None, ssh_passphrase_secret_ref := None,
      ssh_proxy := (ssh_proxy ssh)\<lparr>px_password_secret_ref := None\<rparr>,
      ssh_identity_refs :=
        map (\<lambda>i. i\<lparr>idr_path := None, idr_secret_ref := None\<rparr>) (ssh_identity_refs ssh),
      ssh_jumps :=
        map (\<lambda>j. j\<lparr>jh_password_secret_ref := None, jh_passphrase_secret_ref := None\<rparr>)
          (ssh_jumps ssh)\<rparr>"

definition redact_tcp :: "TcpConnection \<Rightarrow> TcpConnection" where
  "redact_tcp tcp = tcp\<lparr>tcp_proxy := (tcp_proxy tcp)\<lparr>px_password_secret_ref := None\<rparr>\<rparr>"

fun redact_connection :: "ConnectionConfig \<Rightarrow> ConnectionConfig" where
  "redact_connection (ConnSsh ssh) = ConnSsh (redact_ssh ssh)"
| "redact_connection (ConnTmux ssh) = ConnTmux (redact_ssh ssh)"
| "redact_connection (ConnTelnet tcp) = ConnTelnet (redact_tcp tcp)"
| "redact_connection (ConnTcp tcp) = ConnTcp (redact_tcp tcp)"
| "redact_connection (ConnShell shell) = ConnShell (shell\<lparr>sh_cwd := None, sh_args := []\<rparr>)"
| "redact_connection (ConnSerial serial) = ConnSerial serial"

definition redact_session_summary :: "(ustr \<Rightarrow> ustr) \<Rightarrow> SessionSummary \<Rightarrow> SessionSummary" where
  "redact_session_summary red summary =
     (let runtime = sum_runtime summary; profile = sum_profile summary
      in summary
         \<lparr>sum_last_line := map_option red (sum_last_line summary),
          sum_runtime := runtime
            \<lparr>rt_cwd := None,
             rt_last_disconnect_reason := map_option red (rt_last_disconnect_reason runtime)\<rparr>,
          sum_profile := profile
            \<lparr>prof_logging := (prof_logging profile)
               \<lparr>log_path_template := str ''<redacted-path-template>''\<rparr>,
             prof_transfer := (prof_transfer profile)\<lparr>tfs_default_local_dir := None\<rparr>,
             prof_triggers := map (redact_trigger red) (prof_triggers profile),
             prof_connection := redact_connection (prof_connection profile)\<rparr>\<rparr>)"

section \<open>Events, marks, transfers, audit, monitoring\<close>

definition CUSTOM_SCRIPT_EVENT_TEXT :: ustr where
  "CUSTOM_SCRIPT_EVENT_TEXT = str ''<custom-script>''"

definition script_body_visible :: "SessionEvent \<Rightarrow> bool" where
  "script_body_visible event \<longleftrightarrow>
     str ''customScriptId'' \<in> dom (ev_annotations event) \<and>
     (\<exists>text. ev_text event = Some text \<and> text \<noteq> CUSTOM_SCRIPT_EVENT_TEXT)"

definition redact_custom_script_event_bodies :: "SessionEvent list \<Rightarrow> SessionEvent list \<times> nat" where
  "redact_custom_script_event_bodies events =
     (map (\<lambda>event. if script_body_visible event
                   then event\<lparr>ev_text := Some CUSTOM_SCRIPT_EVENT_TEXT\<rparr> else event) events,
      count_if script_body_visible events)"

definition redact_session_event :: "(ustr \<Rightarrow> ustr) \<Rightarrow> SessionEvent \<Rightarrow> SessionEvent" where
  "redact_session_event red event =
     (let event = (case fst (redact_custom_script_event_bodies [event]) of
                     e # _ \<Rightarrow> e | [] \<Rightarrow> event)
      in event\<lparr>ev_text := map_option red (ev_text event), ev_bytes_ref := None,
               ev_annotations := map_option red \<circ> ev_annotations event\<rparr>)"

definition redact_session_events :: "(ustr \<Rightarrow> ustr) \<Rightarrow> SessionEvent list \<Rightarrow> SessionEvent list" where
  "redact_session_events red events = map (redact_session_event red) events"

definition redact_timeline_marks :: "(ustr \<Rightarrow> ustr) \<Rightarrow> TimelineMark list \<Rightarrow> TimelineMark list" where
  "redact_timeline_marks red marks =
     map (\<lambda>m. m\<lparr>tlm_label := red (tlm_label m), tlm_details := map_option red (tlm_details m)\<rparr>)
       marks"

fun transfer_status_text :: "TransferStatus \<Rightarrow> ustr" where
  "transfer_status_text Queued = str ''queued''"
| "transfer_status_text Running = str ''running''"
| "transfer_status_text Completed = str ''completed''"
| "transfer_status_text Failed = str ''failed''"
| "transfer_status_text Cancelled = str ''cancelled''"

definition redact_transfer_task :: "TransferTask \<Rightarrow> TransferTask" where
  "redact_transfer_task t = t
     \<lparr>tft_source := str ''<redacted-path>'', tft_destination := str ''<redacted-path>'',
      tft_message := map_option (\<lambda>_. transfer_status_text (tft_status t)) (tft_message t)\<rparr>"

definition redact_audit_records :: "(ustr \<Rightarrow> ustr) \<Rightarrow> AuditRecord list \<Rightarrow> AuditRecord list" where
  "redact_audit_records red records =
     map (\<lambda>r. r\<lparr>aud_details := map_option red \<circ> aud_details r\<rparr>) records"

definition redact_sysmon_snapshot :: "SysmonSnapshot \<Rightarrow> SysmonSnapshot" where
  "redact_sysmon_snapshot snapshot = snapshot
     \<lparr>sms_processes :=
        map (\<lambda>p. p\<lparr>smp_name := str ''<redacted-process>''\<rparr>) (sms_processes snapshot),
      sms_disks :=
        map (\<lambda>d. d\<lparr>smd_filesystem := str ''<redacted-filesystem>'',
                   smd_mount_point := str ''<redacted-mount-point>''\<rparr>) (sms_disks snapshot),
      sms_network_interfaces :=
        map (\<lambda>i. i\<lparr>smn_name := str ''<redacted-interface>'',
                   smn_addresses := map (\<lambda>_. str ''<redacted-address>'') (smn_addresses i)\<rparr>)
          (sms_network_interfaces snapshot)\<rparr>"

section \<open>Facts\<close>

text \<open>If one more round never changes the result of a round, the loop returns after one.\<close>

lemma redact_loop_idem:
  assumes "rnd (rnd s) = rnd s"
  shows "redact_loop rnd s = Some (rnd s)"
proof (cases "rnd s = s")
  case True
  then show ?thesis by (simp add: redact_loop_def while_option_unfold)
next
  case False
  then show ?thesis
    using assms by (simp add: redact_loop_def while_option_unfold)
qed

text \<open>Whatever the loop returns has no match left.\<close>

lemma redact_loop_fixed: "redact_loop rnd s = Some t \<Longrightarrow> rnd t = t"
  unfolding redact_loop_def using while_option_stop by fastforce

lemma redact_secrets_fixed:
  assumes "redact_secrets rx s = Some t"
  shows "rx_private_key_round rx t = t"
  using assms redact_loop_fixed by (auto simp add: redact_secrets_def bind_eq_Some_conv)

end
