(* ===== verification/Bounded_Log.thy ===== *)
theory Bounded_Log
  imports PM_Prelude
begin

text \<open>
  Bounded logs. Every history of the store (events, audit, timeline, monitoring) is a vector
  shared by all sessions in which each session may keep at most a maximum of entries, with
  some slack before the oldest are dropped. \<open>trim_oldest_matching\<close> of
  \<open>store/histories.rs\<close> is the generic trimming; the locale \<open>bounded_log\<close> states what
  recording into such a log promises, and what follows for whole runs.
\<close>

definition trim_oldest_matching :: "nat \<Rightarrow> nat \<Rightarrow> ('a \<Rightarrow> bool) \<Rightarrow> 'a list \<Rightarrow> 'a list" where
  "trim_oldest_matching maximum slack matches items =
     (let count = count_if matches items
      in if count \<le> maximum + slack then items
         else retain_after_drop matches (count - maximum) items)"

lemma trim_matching [vec_simps]:
  "filter P (trim_oldest_matching m s P xs) =
     (if count_if P xs \<le> m + s then filter P xs
      else drop (count_if P xs - m) (filter P xs))"
  by (simp add: trim_oldest_matching_def Let_def filter_retain_after_drop)

lemma trim_other [vec_simps]:
  assumes "\<And>x. Q x \<Longrightarrow> \<not> P x"
  shows "filter Q (trim_oldest_matching m s P xs) = filter Q xs"
  using assms by (simp add: trim_oldest_matching_def Let_def filter_retain_after_drop_other)

lemma subseq_trim: "subseq (trim_oldest_matching m s P xs) xs"
  by (simp add: trim_oldest_matching_def Let_def subseq_retain_after_drop)

lemma count_if_trim: "count_if P (trim_oldest_matching m s P xs) \<le> m + s"
  by (simp add: count_if_def trim_matching [unfolded count_if_def])

lemma count_if_trim_0:
  "count_if P (trim_oldest_matching m 0 P xs) = min m (count_if P xs)"
  by (simp add: count_if_def trim_matching [unfolded count_if_def])

section \<open>The contract of a bounded log\<close>

definition of_key :: "('a \<Rightarrow> 'k) \<Rightarrow> 'k \<Rightarrow> 'a list \<Rightarrow> 'a list" where
  "of_key key k xs = filter (\<lambda>x. key x = k) xs"

lemma of_key_simps [simp]:
  "of_key key k [] = []"
  "of_key key k (x # xs) = (if key x = k then x # of_key key k xs else of_key key k xs)"
  "of_key key k (xs @ ys) = of_key key k xs @ of_key key k ys"
  by (simp_all add: of_key_def)

lemma length_of_key: "length (of_key key k xs) = count_if (\<lambda>x. key x = k) xs"
  by (simp add: of_key_def count_if_def)

definition keep_newest :: "nat \<Rightarrow> nat \<Rightarrow> 'a list \<Rightarrow> 'a list" where
  "keep_newest maximum slack ys =
     (if length ys \<le> maximum + slack then ys else drop (length ys - maximum) ys)"

text \<open>\<open>newest_part m zs ys\<close>: \<open>zs\<close> is a suffix of \<open>ys\<close>, all of it or at least \<open>m\<close> long.\<close>

definition newest_part :: "nat \<Rightarrow> 'a list \<Rightarrow> 'a list \<Rightarrow> bool" where
  "newest_part m zs ys \<longleftrightarrow> suffix zs ys \<and> (zs = ys \<or> m \<le> length zs)"

lemma length_keep_newest: "length (keep_newest m s ys) \<le> m + s"
  by (auto simp add: keep_newest_def)

lemma newest_part_refl [simp]: "newest_part m ys ys"
  by (simp add: newest_part_def)

lemma newest_part_keep: "newest_part m (keep_newest m s ys) ys"
  by (auto simp add: newest_part_def keep_newest_def suffix_drop)

lemma newest_part_trans:
  assumes "newest_part m zs ys" "newest_part m us (zs @ vs)"
  shows "newest_part m us (ys @ vs)"
proof -
  have "suffix (zs @ vs) (ys @ vs)" using assms(1) by (simp add: newest_part_def)
  then have "suffix us (ys @ vs)"
    using assms(2) by (auto simp add: newest_part_def intro: suffix_order.trans)
  moreover have "us = ys @ vs \<or> m \<le> length us"
    using assms by (auto simp add: newest_part_def)
  ultimately show ?thesis by (simp add: newest_part_def)
qed

locale bounded_log =
  fixes rec :: "'a \<Rightarrow> 's \<Rightarrow> 's"
    and items :: "'s \<Rightarrow> 'a list"
    and key :: "'a \<Rightarrow> 'k"
    and inv :: "'s \<Rightarrow> bool"
    and maximum :: nat
    and slack :: nat
  assumes rec_inv: "inv s \<Longrightarrow> inv (rec x s)"
    and rec_other: "inv s \<Longrightarrow> k \<noteq> key x \<Longrightarrow>
      of_key key k (items (rec x s)) = of_key key k (items s)"
    and rec_same: "inv s \<Longrightarrow>
      of_key key (key x) (items (rec x s)) =
        keep_newest maximum slack (of_key key (key x) (items s) @ [x])"
begin

lemma rec_newest:
  assumes "inv s"
  shows "newest_part maximum (of_key key k (items (rec x s))) (of_key key k (items s @ [x]))"
  using rec_same [OF assms, of x] rec_other [OF assms, of k x]
  by (cases "k = key x") (auto simp add: newest_part_keep)

text \<open>The bound is kept, per key.\<close>

lemma rec_bound:
  assumes "inv s" "length (of_key key k (items s)) \<le> maximum + slack"
  shows "length (of_key key k (items (rec x s))) \<le> maximum + slack"
  using rec_same [OF assms(1), of x] rec_other [OF assms(1), of k x] assms(2)
  by (cases "k = key x") (auto simp add: length_keep_newest)

lemma fold_rec_bound:
  assumes "inv s" "length (of_key key k (items s)) \<le> maximum + slack"
  shows "inv (fold rec xs s) \<and> length (of_key key k (items (fold rec xs s))) \<le> maximum + slack"
  using assms by (induction xs arbitrary: s) (auto simp add: rec_inv rec_bound)

text \<open>
  A run of records leaves, for every key, the newest entries of all that was ever recorded:
  a suffix that holds at least the maximum, or everything.
\<close>

lemma fold_rec_newest:
  assumes "inv s"
  shows "newest_part maximum (of_key key k (items (fold rec xs s))) (of_key key k (items s @ xs))"
  using assms
proof (induction xs arbitrary: s)
  case Nil
  then show ?case by simp
next
  case (Cons x xs)
  have "newest_part maximum (of_key key k (items (fold rec xs (rec x s))))
          (of_key key k (items (rec x s)) @ of_key key k xs)"
    using Cons.IH [OF rec_inv [OF Cons.prems, of x]] by simp
  with rec_newest [OF Cons.prems, of k x]
  have "newest_part maximum (of_key key k (items (fold rec xs (rec x s))))
          (of_key key k (items s @ [x]) @ of_key key k xs)"
    by (rule newest_part_trans)
  then show ?case by (simp split: if_splits)
qed

end

text \<open>Pushing and then trimming the pushed entry's key keeps the contract.\<close>

lemma push_trim_same:
  "of_key key (key x) (trim_oldest_matching m s (\<lambda>y. key y = key x) (xs @ [x])) =
     keep_newest m s (of_key key (key x) xs @ [x])"
  by (simp add: of_key_def trim_matching keep_newest_def count_if_def)

lemma push_trim_other:
  assumes "k \<noteq> key x"
  shows "of_key key k (trim_oldest_matching m s (\<lambda>y. key y = key x) (xs @ [x])) = of_key key k xs"
  using assms trim_other [of "\<lambda>y. key y = k" "\<lambda>y. key y = key x" m s "xs @ [x]"]
  by (simp add: of_key_def)

end
