(* ===== verification/Store_State.thy ===== *)
theory Store_State
  imports Grants Host_Keys Event_Sink Redaction Bounded_Log
begin

text \<open>
  The session store (\<open>SessionStore\<close> of \<open>store.rs\<close>) and its terminal screens
  (\<open>store/terminal.rs\<close>). The screen emulator is another crate: its values have the type
  \<open>'vt\<close> and its functions are the argument \<open>vt\<close>. A store owns its outbox and its screens; in
  the program clones of a store share both, which the model of one store does not show.
  Clock readings and fresh identifiers are arguments of the operations.
\<close>

record CommandHistoryPolicy =
  chp_enabled :: bool
  chp_limit :: nat
  chp_retention_days :: u32

definition default_command_history_policy :: CommandHistoryPolicy where
  "default_command_history_policy =
     \<lparr>chp_enabled = False, chp_limit = 10000, chp_retention_days = 30\<rparr>"

record 'vt vt_ops =
  vt_new :: "u16 \<Rightarrow> u16 \<Rightarrow> 'vt"
  vt_process :: "'vt \<Rightarrow> ustr \<Rightarrow> 'vt"
  vt_set_size :: "'vt \<Rightarrow> u16 \<Rightarrow> u16 \<Rightarrow> 'vt"
  vt_contents :: "'vt \<Rightarrow> ustr"

text \<open>A screen; \<open>scr_poisoned\<close> says that its lock cannot be taken any more.\<close>

record 'vt TerminalScreen =
  scr_parser :: 'vt
  scr_poisoned :: bool
  scr_reset_at :: time

record 'vt SessionStore =
  st_profiles :: "SessionProfile list"
  st_runtimes :: "SessionRuntime list"
  st_events :: "SessionEvent list"
  st_transfers :: "TransferTask list"
  st_command_history :: "CommandHistoryEntry list"
  st_command_history_migrated :: bool
  st_command_history_revision :: u64
  st_command_history_policy :: CommandHistoryPolicy
  st_one_keys :: "OneKeyCredential list"
  st_custom_scripts :: "CustomScript list"
  st_host_keys :: HostKeyStore
  st_grants :: "McpGrant list"
  st_mcp_http_settings :: McpHttpSettings
  st_audit :: "AuditRecord list"
  st_timeline :: "TimelineMark list"
  st_sysmon :: "SysmonSnapshot list"
  st_event_counts :: "ustr \<rightharpoonup> nat"
  st_terminal_screens :: "ustr \<rightharpoonup> 'vt TerminalScreen"
  st_sink :: SystemEventSinkState

definition default_store :: "'vt SessionStore" where
  "default_store =
     \<lparr>st_profiles = [], st_runtimes = [], st_events = [], st_transfers = [],
      st_command_history = [], st_command_history_migrated = False,
      st_command_history_revision = 0,
      st_command_history_policy = default_command_history_policy,
      st_one_keys = [], st_custom_scripts = [], st_host_keys = empty_host_keys,
      st_grants = [], st_mcp_http_settings = default_mcp_http_settings, st_audit = [],
      st_timeline = [], st_sysmon = [], st_event_counts = Map.empty,
      st_terminal_screens = Map.empty, st_sink = sink_default\<rparr>"

datatype StoreError =
    UnknownSession ustr
  | InvalidEventIdentity
  | NotSshBacked ustr
  | HostKeyFailed HostKeyError
  | SummaryMissing ustr
  | ProfileCountExceeded
  | ProfileCountReached
  | SessionNotDisconnected
  | ActiveTransfer

definition store_profile :: "'vt SessionStore \<Rightarrow> ustr \<Rightarrow> SessionProfile option" where
  "store_profile st session_id = List.find (\<lambda>p. prof_id p = session_id) (st_profiles st)"

definition has_profile :: "'vt SessionStore \<Rightarrow> ustr \<Rightarrow> bool" where
  "has_profile st session_id \<longleftrightarrow> list_ex (\<lambda>p. prof_id p = session_id) (st_profiles st)"

section \<open>Terminal screens\<close>

definition reset_terminal_screen ::
  "'vt vt_ops \<Rightarrow> time \<Rightarrow> ustr \<Rightarrow> 'vt SessionStore \<Rightarrow> 'vt SessionStore" where
  "reset_terminal_screen vt now session_id st =
     (case store_profile st session_id of
        None \<Rightarrow> st
      | Some profile \<Rightarrow>
          st\<lparr>st_terminal_screens := (st_terminal_screens st)(session_id \<mapsto>
               \<lparr>scr_parser = vt_new vt (clamp 1 512 (term_rows (prof_terminal profile)))
                                       (clamp 1 1024 (term_cols (prof_terminal profile))),
                scr_poisoned = False, scr_reset_at = now\<rparr>)\<rparr>)"

definition resize_terminal_screen ::
  "'vt vt_ops \<Rightarrow> ustr \<Rightarrow> u16 \<Rightarrow> u16 \<Rightarrow> 'vt SessionStore \<Rightarrow> 'vt SessionStore" where
  "resize_terminal_screen vt session_id rows cols st =
     (case st_terminal_screens st session_id of
        None \<Rightarrow> st
      | Some screen \<Rightarrow>
          if scr_poisoned screen then st
          else st\<lparr>st_terminal_screens := (st_terminal_screens st)(session_id \<mapsto>
                 screen\<lparr>scr_parser := vt_set_size vt (scr_parser screen)
                          (clamp 1 512 rows) (clamp 1 1024 cols)\<rparr>)\<rparr>)"

definition process_terminal_output ::
  "'vt vt_ops \<Rightarrow> time \<Rightarrow> ustr \<Rightarrow> ustr \<Rightarrow> time \<Rightarrow> 'vt SessionStore \<Rightarrow> 'vt SessionStore" where
  "process_terminal_output vt now session_id text ts st =
     (let st =
            (if session_id \<in> dom (st_terminal_screens st) then st
             else
               let st = reset_terminal_screen vt now session_id st
               in (case st_terminal_screens st session_id of
                     None \<Rightarrow> st
                   | Some screen \<Rightarrow>
                       st\<lparr>st_terminal_screens := (st_terminal_screens st)(session_id \<mapsto>
                            screen\<lparr>scr_reset_at := ts\<rparr>)\<rparr>))
      in case st_terminal_screens st session_id of
           None \<Rightarrow> st
         | Some screen \<Rightarrow>
             if ts < scr_reset_at screen then st
             else if scr_poisoned screen then st
             else st\<lparr>st_terminal_screens := (st_terminal_screens st)(session_id \<mapsto>
                    screen\<lparr>scr_parser := vt_process vt (scr_parser screen) text\<rparr>)\<rparr>)"

definition terminal_screen :: "'vt vt_ops \<Rightarrow> 'vt SessionStore \<Rightarrow> ustr \<Rightarrow> ustr option" where
  "terminal_screen vt st session_id =
     Option.bind (st_terminal_screens st session_id) (\<lambda>screen.
       if scr_poisoned screen then None else Some (vt_contents vt (scr_parser screen)))"

section \<open>The outbox of the store\<close>

definition set_system_event_notifier ::
  "(nat \<Rightarrow> TrySend) \<Rightarrow> nat \<Rightarrow> 'vt SessionStore \<Rightarrow> 'vt SessionStore \<times> (SinkError + unit)" where
  "set_system_event_notifier chan sender st =
     (let (s, r) = set_notifier chan sender (st_sink st) in (st\<lparr>st_sink := s\<rparr>, r))"

definition clear_system_event_notifier :: "'vt SessionStore \<Rightarrow> 'vt SessionStore" where
  "clear_system_event_notifier st = st\<lparr>st_sink := clear_notifier (st_sink st)\<rparr>"

definition drain_system_event_outbox ::
  "'vt SessionStore \<Rightarrow> 'vt SessionStore \<times> SystemEventEnvelope list" where
  "drain_system_event_outbox st = (let (s, es) = drain (st_sink st) in (st\<lparr>st_sink := s\<rparr>, es))"

definition discard_system_events_for_session :: "ustr \<Rightarrow> 'vt SessionStore \<Rightarrow> 'vt SessionStore" where
  "discard_system_events_for_session session_id st =
     st\<lparr>st_sink := discard_session session_id (st_sink st)\<rparr>"

definition discard_queued_system_event :: "ustr \<Rightarrow> 'vt SessionStore \<Rightarrow> 'vt SessionStore" where
  "discard_queued_system_event event_id st = st\<lparr>st_sink := discard_event event_id (st_sink st)\<rparr>"

section \<open>Facts\<close>

lemma has_profile_iff: "has_profile st sid \<longleftrightarrow> sid \<in> prof_id ` set (st_profiles st)"
  by (auto simp add: has_profile_def list_ex_iff)

lemma store_profile_None_iff: "store_profile st sid = None \<longleftrightarrow> \<not> has_profile st sid"
  by (auto simp add: store_profile_def has_profile_def find_eq_None_iff list_ex_iff)

lemma store_profile_SomeD:
  "store_profile st sid = Some p \<Longrightarrow> p \<in> set (st_profiles st) \<and> prof_id p = sid"
  by (auto simp add: store_profile_def dest: find_SomeD)

text \<open>Resetting a screen and processing output touch the screens only.\<close>

lemma reset_terminal_screen_frame:
  "reset_terminal_screen vt now sid st =
     st\<lparr>st_terminal_screens := st_terminal_screens (reset_terminal_screen vt now sid st)\<rparr>"
  by (simp add: reset_terminal_screen_def split: option.splits)

lemma process_terminal_output_frame:
  "process_terminal_output vt now sid text ts st =
     st\<lparr>st_terminal_screens := st_terminal_screens (process_terminal_output vt now sid text ts st)\<rparr>"
proof (cases "sid \<in> dom (st_terminal_screens st)")
  case True
  then show ?thesis by (auto simp add: process_terminal_output_def split: option.splits)
next
  case False
  then show ?thesis
    by (cases "store_profile st sid")
       (auto simp add: process_terminal_output_def reset_terminal_screen_def domIff
         split: option.splits)
qed

lemma process_terminal_output_sel [simp]:
  "st_timeline (process_terminal_output vt now sid text ts st) =
     st_timeline st"
  "st_sysmon (process_terminal_output vt now sid text ts st) =
     st_sysmon st"
  "st_command_history_revision (process_terminal_output vt now sid text ts st) =
     st_command_history_revision st"
  "st_host_keys (process_terminal_output vt now sid text ts st) =
     st_host_keys st"
  "st_one_keys (process_terminal_output vt now sid text ts st) =
     st_one_keys st"
  "st_profiles (process_terminal_output vt now sid text ts st) = st_profiles st"
  "st_runtimes (process_terminal_output vt now sid text ts st) = st_runtimes st"
  "st_events (process_terminal_output vt now sid text ts st) = st_events st"
  "st_event_counts (process_terminal_output vt now sid text ts st) = st_event_counts st"
  "st_transfers (process_terminal_output vt now sid text ts st) = st_transfers st"
  "st_audit (process_terminal_output vt now sid text ts st) = st_audit st"
  "st_grants (process_terminal_output vt now sid text ts st) = st_grants st"
  "st_sink (process_terminal_output vt now sid text ts st) = st_sink st"
  by (subst process_terminal_output_frame, simp)+

end
