(* ===== verification/Store_Histories.thy ===== *)
theory Store_Histories
  imports Store_State "HOL-Library.Multiset" "HOL-Library.Option_ord" "HOL-Library.Product_Lexorder"
begin

text \<open>
  The bounded histories of the store (\<open>store/histories.rs\<close>): command history, transfers,
  audit records, timeline marks and monitoring snapshots. The size of a command-history entry
  as JSON comes from the serializer, another crate, and is the argument \<open>json_len\<close>, \<open>None\<close>
  being a serialization error. The audit, timeline and monitoring logs are interpretations of
  \<open>bounded_log\<close>.
\<close>

abbreviation (input) MAX_EVENTS_PER_SESSION :: nat where "MAX_EVENTS_PER_SESSION \<equiv> 5000"
abbreviation (input) MAX_AUDIT_RECORDS_PER_SCOPE :: nat where "MAX_AUDIT_RECORDS_PER_SCOPE \<equiv> 5000"
abbreviation (input) MAX_TIMELINE_MARKS_PER_SESSION :: nat
  where "MAX_TIMELINE_MARKS_PER_SESSION \<equiv> 2000"
abbreviation (input) MAX_SYSMON_SNAPSHOTS_PER_SESSION :: nat
  where "MAX_SYSMON_SNAPSHOTS_PER_SESSION \<equiv> 1024"
abbreviation (input) MAX_TERMINAL_TRANSFERS_PER_SESSION :: nat
  where "MAX_TERMINAL_TRANSFERS_PER_SESSION \<equiv> 1000"
abbreviation (input) AUX_HISTORY_TRIM_BATCH :: nat where "AUX_HISTORY_TRIM_BATCH \<equiv> 128"
abbreviation (input) MAX_COMMAND_HISTORY_ENTRIES :: nat where "MAX_COMMAND_HISTORY_ENTRIES \<equiv> 10000"
abbreviation (input) MAX_COMMAND_HISTORY_RETENTION_DAYS :: u32
  where "MAX_COMMAND_HISTORY_RETENTION_DAYS \<equiv> 3650"
abbreviation (input) MAX_COMMAND_HISTORY_COMMAND_CHARACTERS :: nat
  where "MAX_COMMAND_HISTORY_COMMAND_CHARACTERS \<equiv> 8192"
abbreviation (input) MAX_COMMAND_HISTORY_STORAGE_BYTES :: nat
  where "MAX_COMMAND_HISTORY_STORAGE_BYTES \<equiv> 2097152"
abbreviation (input) MAX_COMMAND_HISTORY_SESSION_ID_CHARACTERS :: nat
  where "MAX_COMMAND_HISTORY_SESSION_ID_CHARACTERS \<equiv> 256"
abbreviation (input) MAX_COMMAND_HISTORY_INPUT_ENTRIES :: nat
  where "MAX_COMMAND_HISTORY_INPUT_ENTRIES \<equiv> 20000"
abbreviation (input) COMMAND_HISTORY_EMPTY_SNAPSHOT_BYTES :: nat
  where "COMMAND_HISTORY_EMPTY_SNAPSHOT_BYTES \<equiv> 26"
abbreviation (input) MAX_JAVASCRIPT_SAFE_INTEGER :: u64
  where "MAX_JAVASCRIPT_SAFE_INTEGER \<equiv> 9007199254740991"

section \<open>Command history\<close>

abbreviation (input) i64_min :: int where "i64_min \<equiv> - 9223372036854775808"
abbreviation (input) i64_max :: int where "i64_max \<equiv> 9223372036854775807"

definition saturate_i64 :: "int \<Rightarrow> int" where
  "saturate_i64 x = clamp i64_min i64_max x"

definition normalize_history_session_id :: "ustr \<Rightarrow> ustr option" where
  "normalize_history_session_id v =
     (let v = trim v
      in if v \<noteq> [] \<and> length v \<le> MAX_COMMAND_HISTORY_SESSION_ID_CHARACTERS \<and>
            \<not> list_ex is_control v
         then Some v else None)"

type_synonym json_len = "CommandHistoryEntry \<Rightarrow> nat option"

datatype HistoryError =
    LimitOutOfRange
  | RetentionOutOfRange
  | SizeFailed
  | RevisionExhausted
  | EntryInvalid

fun history_loop ::
  "json_len \<Rightarrow> nat \<Rightarrow> int \<Rightarrow> int \<Rightarrow> (ustr \<times> ustr option) list \<Rightarrow> CommandHistoryEntry list \<Rightarrow> nat
     \<Rightarrow> CommandHistoryEntry list \<Rightarrow> HistoryError + CommandHistoryEntry list" where
  "history_loop json_len limit cutoff now_ms seen normalized bytes [] = Inr normalized"
| "history_loop json_len limit cutoff now_ms seen normalized bytes (entry # entries) =
     (let session_id = Option.bind (che_session_id entry) normalize_history_session_id;
          identity = (che_command entry, session_id);
          skip = history_loop json_len limit cutoff now_ms seen normalized bytes entries
      in if trim (che_command entry) = [] \<or> 0 \<in> set (che_command entry) \<or>
            MAX_COMMAND_HISTORY_COMMAND_CHARACTERS < length (che_command entry) \<or>
            identity \<in> set seen
         then skip
         else
           let recorded_at = clamp 0 (max now_ms 0) (che_recorded_at entry)
           in if recorded_at < cutoff then skip
              else
                let candidate = \<lparr>che_command = che_command entry, che_recorded_at = recorded_at,
                                 che_session_id = session_id\<rparr>
                in case json_len candidate of
                     None \<Rightarrow> Inl SizeFailed
                   | Some n \<Rightarrow>
                       let entry_bytes = n + (if normalized = [] then 0 else 1)
                       in if MAX_COMMAND_HISTORY_STORAGE_BYTES < bytes + entry_bytes then skip
                          else if limit \<le> length normalized + 1 then Inr (normalized @ [candidate])
                          else history_loop json_len limit cutoff now_ms (identity # seen)
                                 (normalized @ [candidate]) (bytes + entry_bytes) entries)"

definition history_cutoff :: "u32 \<Rightarrow> int \<Rightarrow> int" where
  "history_cutoff retention_days now_ms =
     (let retention_ms = saturate_i64 (int (unat retention_days) * 86400000)
      in if retention_days = 0 then i64_min else saturate_i64 (now_ms - retention_ms))"

definition normalized_command_history ::
  "json_len \<Rightarrow> CommandHistoryEntry list \<Rightarrow> nat \<Rightarrow> u32 \<Rightarrow> int
     \<Rightarrow> HistoryError + CommandHistoryEntry list" where
  "normalized_command_history json_len entries limit retention_days now_ms =
     (if \<not> (1 \<le> limit \<and> limit \<le> MAX_COMMAND_HISTORY_ENTRIES) then Inl LimitOutOfRange
      else if MAX_COMMAND_HISTORY_RETENTION_DAYS < retention_days then Inl RetentionOutOfRange
      else history_loop json_len limit (history_cutoff retention_days now_ms) now_ms [] []
             COMMAND_HISTORY_EMPTY_SNAPSHOT_BYTES
             (take MAX_COMMAND_HISTORY_INPUT_ENTRIES entries))"

definition replace_command_history ::
  "json_len \<Rightarrow> CommandHistoryEntry list \<Rightarrow> nat \<Rightarrow> u32 \<Rightarrow> int \<Rightarrow> 'vt SessionStore
     \<Rightarrow> 'vt SessionStore \<times> (HistoryError + CommandHistoryEntry list)" where
  "replace_command_history json_len entries limit retention_days now_ms st =
     (case normalized_command_history json_len entries limit retention_days now_ms of
        Inl e \<Rightarrow> (st, Inl e)
      | Inr normalized \<Rightarrow>
          let changed = (st_command_history st \<noteq> normalized \<or> \<not> st_command_history_migrated st)
          in if changed \<and> MAX_JAVASCRIPT_SAFE_INTEGER \<le> st_command_history_revision st
             then (st, Inl RevisionExhausted)
             else
               (st\<lparr>st_command_history := normalized, st_command_history_migrated := True,
                   st_command_history_revision :=
                     (if changed then st_command_history_revision st + 1
                      else st_command_history_revision st)\<rparr>,
                Inr normalized))"

definition merge_command_history ::
  "json_len \<Rightarrow> CommandHistoryEntry list \<Rightarrow> nat \<Rightarrow> u32 \<Rightarrow> int \<Rightarrow> 'vt SessionStore
     \<Rightarrow> 'vt SessionStore \<times> (HistoryError + CommandHistoryEntry list)" where
  "merge_command_history json_len entries limit retention_days now_ms st =
     replace_command_history json_len
       (sort_key (\<lambda>e. - che_recorded_at e) (entries @ st_command_history st))
       limit retention_days now_ms st"

definition record_command_history ::
  "json_len \<Rightarrow> ustr \<Rightarrow> ustr option \<Rightarrow> nat \<Rightarrow> u32 \<Rightarrow> int \<Rightarrow> 'vt SessionStore
     \<Rightarrow> 'vt SessionStore \<times> (HistoryError + CommandHistoryEntry list)" where
  "record_command_history json_len command session_id limit retention_days now_ms st =
     (case normalized_command_history json_len
             [\<lparr>che_command = command, che_recorded_at = now_ms, che_session_id = session_id\<rparr>]
             1 0 now_ms of
        Inl e \<Rightarrow> (st, Inl e)
      | Inr [] \<Rightarrow> (st, Inl EntryInvalid)
      | Inr (candidate # _) \<Rightarrow>
          let recorded_session_id = che_session_id candidate
          in replace_command_history json_len
               (\<lparr>che_command = command, che_recorded_at = now_ms,
                 che_session_id = recorded_session_id\<rparr> #
                filter (\<lambda>e. che_command e \<noteq> command \<or> che_session_id e \<noteq> recorded_session_id)
                  (st_command_history st))
               limit retention_days now_ms st)"

section \<open>Transfers\<close>

definition transfer_by_id :: "'vt SessionStore \<Rightarrow> ustr \<Rightarrow> TransferTask option" where
  "transfer_by_id st i = List.find (\<lambda>t. tft_id t = i) (st_transfers st)"

definition is_terminal_transfer :: "ustr \<Rightarrow> TransferTask \<Rightarrow> bool" where
  "is_terminal_transfer session_id t \<longleftrightarrow>
     tft_session_id t = session_id \<and> tft_status t \<in> {Completed, Failed, Cancelled}"

definition trim_transfers :: "ustr \<Rightarrow> TransferTask list \<Rightarrow> TransferTask list" where
  "trim_transfers session_id transfers =
     (let terminal = map (\<lambda>(i, t). (i, tft_finished_at t))
            (filter (\<lambda>(i, t). is_terminal_transfer session_id t) (enumerate 0 transfers))
      in if length terminal \<le> MAX_TERMINAL_TRANSFERS_PER_SESSION then transfers
         else
           let to_drop = length terminal - MAX_TERMINAL_TRANSFERS_PER_SESSION;
               removed = map fst (take to_drop (sort_key (\<lambda>(i, f). (f, i)) terminal))
           in map snd (filter (\<lambda>(i, t). i \<notin> set removed) (enumerate 0 transfers)))"

definition trim_transfer_history :: "ustr \<Rightarrow> 'vt SessionStore \<Rightarrow> 'vt SessionStore" where
  "trim_transfer_history session_id st =
     st\<lparr>st_transfers := trim_transfers session_id (st_transfers st)\<rparr>"

definition record_transfer :: "TransferTask \<Rightarrow> 'vt SessionStore \<Rightarrow> 'vt SessionStore" where
  "record_transfer transfer st =
     trim_transfer_history (tft_session_id transfer)
       (st\<lparr>st_transfers := st_transfers st @ [transfer]\<rparr>)"

section \<open>Audit, timeline, monitoring\<close>

definition record_audit :: "AuditRecord \<Rightarrow> 'vt SessionStore \<Rightarrow> 'vt SessionStore" where
  "record_audit record st =
     st\<lparr>st_audit := trim_oldest_matching MAX_AUDIT_RECORDS_PER_SCOPE AUX_HISTORY_TRIM_BATCH
          (\<lambda>r. aud_session_id r = aud_session_id record) (st_audit st @ [record])\<rparr>"

definition record_timeline_mark :: "TimelineMark \<Rightarrow> 'vt SessionStore \<Rightarrow> 'vt SessionStore" where
  "record_timeline_mark mark st =
     st\<lparr>st_timeline := trim_oldest_matching MAX_TIMELINE_MARKS_PER_SESSION AUX_HISTORY_TRIM_BATCH
          (\<lambda>m. tlm_session_id m = tlm_session_id mark) (st_timeline st @ [mark])\<rparr>"

definition record_sysmon_snapshot :: "SysmonSnapshot \<Rightarrow> 'vt SessionStore \<Rightarrow> 'vt SessionStore" where
  "record_sysmon_snapshot snapshot st =
     st\<lparr>st_sysmon := trim_oldest_matching MAX_SYSMON_SNAPSHOTS_PER_SESSION AUX_HISTORY_TRIM_BATCH
          (\<lambda>s. sms_session_id s = sms_session_id snapshot) (st_sysmon st @ [snapshot])\<rparr>"

definition sysmon_for :: "'vt SessionStore \<Rightarrow> ustr \<Rightarrow> SysmonSnapshot option" where
  "sysmon_for st session_id =
     List.find (\<lambda>s. sms_session_id s = session_id) (rev (st_sysmon st))"

definition sysmon_history_for :: "'vt SessionStore \<Rightarrow> ustr \<Rightarrow> nat \<Rightarrow> SysmonSnapshot list" where
  "sysmon_history_for st session_id limit =
     (if limit = 0 then []
      else newest limit (\<lambda>s. sms_session_id s = session_id) (st_sysmon st))"

definition timeline_for :: "'vt SessionStore \<Rightarrow> ustr \<Rightarrow> TimelineMark list" where
  "timeline_for st session_id = filter (\<lambda>m. tlm_session_id m = session_id) (st_timeline st)"

section \<open>Normalising a loaded store\<close>

text \<open>
  The countdown over the events: \<open>remaining\<close> holds, per session, the events from here on. A
  missing entry is a panic (\<open>expect\<close>) and so is a decrement of zero: both are \<open>None\<close>.
\<close>

fun retain_remaining :: "(ustr \<rightharpoonup> nat) \<Rightarrow> SessionEvent list \<Rightarrow> SessionEvent list option" where
  "retain_remaining remaining [] = Some []"
| "retain_remaining remaining (e # es) =
     (case remaining (ev_session_id e) of
        None \<Rightarrow> None
      | Some 0 \<Rightarrow> None
      | Some (Suc n) \<Rightarrow>
          map_option (\<lambda>kept. if Suc n \<le> MAX_EVENTS_PER_SESSION then e # kept else kept)
            (retain_remaining (remaining(ev_session_id e \<mapsto> n)) es))"

fun count_sessions :: "(ustr \<rightharpoonup> nat) \<Rightarrow> SessionEvent list \<Rightarrow> (ustr \<rightharpoonup> nat)" where
  "count_sessions m [] = m"
| "count_sessions m (e # es) =
     count_sessions (m(ev_session_id e \<mapsto>
       (case m (ev_session_id e) of None \<Rightarrow> 0 | Some n \<Rightarrow> n) + 1)) es"

text \<open>
  The per-key trimming loops run over a hash set; \<open>remdups\<close> fixes one order of its elements.
  Keys are trimmed independently, so the order does not matter.
\<close>

definition trim_all :: "nat \<Rightarrow> ('a \<Rightarrow> 'k) \<Rightarrow> 'a list \<Rightarrow> 'a list" where
  "trim_all maximum key xs =
     fold (\<lambda>k. trim_oldest_matching maximum 0 (\<lambda>x. key x = k)) (remdups (map key xs)) xs"

definition normalize_bounded_histories ::
  "json_len \<Rightarrow> int \<Rightarrow> 'vt SessionStore \<Rightarrow> 'vt SessionStore option" where
  "normalize_bounded_histories json_len now_ms st =
     (let st = st\<lparr>st_command_history_revision :=
                    min (st_command_history_revision st) (MAX_JAVASCRIPT_SAFE_INTEGER - 1)\<rparr>;
          st = (case normalized_command_history json_len (st_command_history st)
                       MAX_COMMAND_HISTORY_ENTRIES 0 now_ms of
                  Inr normalized \<Rightarrow> st\<lparr>st_command_history := normalized\<rparr>
                | Inl _ \<Rightarrow> st)
      in map_option (\<lambda>events.
           st\<lparr>st_events := events,
              st_event_counts := count_sessions Map.empty events,
              st_audit := trim_all MAX_AUDIT_RECORDS_PER_SCOPE aud_session_id (st_audit st),
              st_timeline := trim_all MAX_TIMELINE_MARKS_PER_SESSION tlm_session_id (st_timeline st),
              st_sysmon := trim_all MAX_SYSMON_SNAPSHOTS_PER_SESSION sms_session_id (st_sysmon st),
              st_transfers :=
                fold trim_transfers (remdups (map tft_session_id (st_transfers st))) (st_transfers st)\<rparr>)
         (retain_remaining (count_sessions Map.empty (st_events st)) (st_events st)))"

section \<open>Command history: facts\<close>

definition che_identity :: "CommandHistoryEntry \<Rightarrow> ustr \<times> ustr option" where
  "che_identity e = (che_command e, che_session_id e)"

text \<open>The size of the persisted snapshot: the frame, the entries and the commas between them.\<close>

definition snapshot_bytes :: "json_len \<Rightarrow> CommandHistoryEntry list \<Rightarrow> nat" where
  "snapshot_bytes jl es =
     COMMAND_HISTORY_EMPTY_SNAPSHOT_BYTES + sum_list (map (\<lambda>e. case jl e of Some n \<Rightarrow> n | None \<Rightarrow> 0) es) +
     (length es - 1)"

definition history_entry_ok :: "int \<Rightarrow> int \<Rightarrow> CommandHistoryEntry \<Rightarrow> bool" where
  "history_entry_ok cutoff now_ms e \<longleftrightarrow>
     trim (che_command e) \<noteq> [] \<and> 0 \<notin> set (che_command e) \<and>
     length (che_command e) \<le> MAX_COMMAND_HISTORY_COMMAND_CHARACTERS \<and>
     0 \<le> che_recorded_at e \<and> che_recorded_at e \<le> max now_ms 0 \<and> cutoff \<le> che_recorded_at e \<and>
     Option.bind (che_session_id e) normalize_history_session_id = che_session_id e"

definition history_ok :: "json_len \<Rightarrow> nat \<Rightarrow> int \<Rightarrow> int \<Rightarrow> CommandHistoryEntry list \<Rightarrow> bool" where
  "history_ok jl limit cutoff now_ms es \<longleftrightarrow>
     length es \<le> limit \<and> distinct (map che_identity es) \<and>
     (\<forall>e \<in> set es. history_entry_ok cutoff now_ms e \<and> jl e \<noteq> None) \<and>
     snapshot_bytes jl es \<le> MAX_COMMAND_HISTORY_STORAGE_BYTES"

lemma normalize_history_session_id_idem:
  "Option.bind (normalize_history_session_id s) normalize_history_session_id =
   normalize_history_session_id s"
  by (auto simp add: normalize_history_session_id_def Let_def)

lemma snapshot_bytes_snoc:
  "jl e = Some n \<Longrightarrow>
     snapshot_bytes jl (es @ [e]) = snapshot_bytes jl es + (n + (if es = [] then 0 else 1))"
  by (cases es) (simp_all add: snapshot_bytes_def)

lemma snapshot_bytes_append_le: "snapshot_bytes jl es \<le> snapshot_bytes jl (es @ fs)"
  by (simp add: snapshot_bytes_def)

text \<open>Everything the loop returns is well formed.\<close>

lemma history_loop_ok:
  assumes "history_loop jl limit cutoff now seen out (snapshot_bytes jl out) es = Inr res"
    and "history_ok jl limit cutoff now out" "set seen = che_identity ` set out"
    and "length out < limit"
  shows "history_ok jl limit cutoff now res"
  using assms
proof (induction es arbitrary: seen out)
  case Nil
  then show ?case by simp
next
  case (Cons e es)
  let ?sid = "Option.bind (che_session_id e) normalize_history_session_id"
  let ?rec = "clamp 0 (max now 0) (che_recorded_at e)"
  let ?cand = "\<lparr>che_command = che_command e, che_recorded_at = ?rec, che_session_id = ?sid\<rparr>"
  let ?skip = "history_loop jl limit cutoff now seen out (snapshot_bytes jl out) es = Inr res"
  have skip: ?thesis if ?skip using Cons.IH [OF that] Cons.prems by blast
  show ?case
  proof (cases ?skip)
    case True
    then show ?thesis by (rule skip)
  next
    case False
    then have g: "trim (che_command e) \<noteq> []" "0 \<notin> set (che_command e)"
      "length (che_command e) \<le> MAX_COMMAND_HISTORY_COMMAND_CHARACTERS"
      "(che_command e, ?sid) \<notin> set seen" "cutoff \<le> ?rec"
      using Cons.prems(1) by (auto simp add: Let_def not_le split: if_splits)
    then obtain n where n: "jl ?cand = Some n"
      using Cons.prems(1) by (cases "jl ?cand") (auto simp add: Let_def)
    have fits: "snapshot_bytes jl (out @ [?cand]) \<le> MAX_COMMAND_HISTORY_STORAGE_BYTES"
      using Cons.prems(1) g n False
      by (auto simp add: Let_def snapshot_bytes_snoc [of jl, OF n] split: if_splits)
    have "history_entry_ok cutoff now ?cand"
      using g clamp_bounds [of 0 "max now 0" "che_recorded_at e"]
      by (simp add: history_entry_ok_def normalize_history_session_id_idem)
    then have ok: "history_ok jl limit cutoff now (out @ [?cand])"
      using Cons.prems(2-4) g(4) n fits by (auto simp add: history_ok_def che_identity_def)
    have rest: "if limit \<le> length out + 1 then res = out @ [?cand]
        else history_loop jl limit cutoff now ((che_command e, ?sid) # seen) (out @ [?cand])
               (snapshot_bytes jl (out @ [?cand])) es = Inr res"
      using Cons.prems(1) g n fits by (auto simp add: Let_def snapshot_bytes_snoc [of jl, OF n])
    show ?thesis
    proof (cases "limit \<le> length out + 1")
      case True
      then show ?thesis using rest ok by simp
    next
      case lt: False
      then show ?thesis
        using rest ok Cons.prems(3)
        by (intro Cons.IH [of "(che_command e, ?sid) # seen" "out @ [?cand]"])
           (auto simp add: che_identity_def)
    qed
  qed
qed

text \<open>A well-formed history passes the loop unchanged.\<close>

lemma history_loop_id:
  assumes "history_ok jl limit cutoff now (out @ es)" "set seen = che_identity ` set out"
  shows "history_loop jl limit cutoff now seen out (snapshot_bytes jl out) es = Inr (out @ es)"
  using assms
proof (induction es arbitrary: seen out)
  case Nil
  then show ?case by simp
next
  case (Cons e es)
  have e: "history_entry_ok cutoff now e" "jl e \<noteq> None" "che_identity e \<notin> set seen"
    using Cons.prems by (auto simp add: history_ok_def)
  then obtain n where n: "jl e = Some n" by auto
  have rec: "clamp 0 (max now 0) (che_recorded_at e) = che_recorded_at e"
    using e(1) by (intro clamp_id) (auto simp add: history_entry_ok_def)
  have cand: "\<lparr>che_command = che_command e, che_recorded_at = che_recorded_at e,
      che_session_id = che_session_id e\<rparr> = e" by simp
  have fits: "snapshot_bytes jl out + (n + (if out = [] then 0 else 1))
      \<le> MAX_COMMAND_HISTORY_STORAGE_BYTES"
    using Cons.prems(1) snapshot_bytes_append_le [of jl "out @ [e]" es]
    unfolding snapshot_bytes_snoc [of jl, OF n, symmetric] by (simp add: history_ok_def)
  have len: "length out + 1 + length es \<le> limit" using Cons.prems(1) by (simp add: history_ok_def)
  have IH: "history_loop jl limit cutoff now (che_identity e # seen) (out @ [e])
      (snapshot_bytes jl (out @ [e])) es = Inr (out @ e # es)"
    using Cons.IH [of "out @ [e]" "che_identity e # seen"] Cons.prems by simp
  have "\<not> limit \<le> length out + 1 \<or> es = []" using len by (cases es) auto
  then show ?case
    using e rec fits IH n
    by (auto simp add: cand history_entry_ok_def Let_def che_identity_def
        snapshot_bytes_snoc [of jl, OF n])
qed

lemma history_ok_Nil:
  "history_ok jl limit cutoff now []"
  by (simp add: history_ok_def snapshot_bytes_def)

lemma snapshot_bytes_Nil [simp]: "snapshot_bytes jl [] = 26"
  by (simp add: snapshot_bytes_def)

lemma normalized_command_history_ok:
  assumes "normalized_command_history jl es limit days now = Inr res"
  shows "history_ok jl limit (history_cutoff days now) now res" "1 \<le> limit" "limit \<le> 10000"
    "days \<le> 3650"
proof -
  show l: "1 \<le> limit" "limit \<le> 10000" "days \<le> 3650"
    using assms by (auto simp add: normalized_command_history_def not_less split: if_splits)
  show "history_ok jl limit (history_cutoff days now) now res"
    using assms l history_loop_ok [of jl limit "history_cutoff days now" now "[]" "[]"]
    by (auto simp add: normalized_command_history_def history_ok_Nil split: if_splits)
qed

lemma normalized_command_history_id:
  assumes "history_ok jl limit (history_cutoff days now) now es" "1 \<le> limit" "limit \<le> 10000"
    "days \<le> 3650"
  shows "normalized_command_history jl es limit days now = Inr es"
proof -
  have "take 20000 es = es" using assms(1,3) by (simp add: history_ok_def)
  then show ?thesis
    using assms history_loop_id [of jl limit "history_cutoff days now" now "[]" es "[]"]
    by (simp add: normalized_command_history_def not_less)
qed

lemma saturated_past: "saturate_i64 (now - saturate_i64 (int n * 86400000)) \<le> max now 0"
  by (auto simp add: saturate_i64_def clamp_def)

lemma history_cutoff_le: "history_cutoff days now \<le> max now 0"
  unfolding history_cutoff_def Let_def using saturated_past [of now "unat days"]
  by (auto simp add: max_def)

lemma history_loop_extends:
  "history_loop jl limit cutoff now seen out b es = Inr res \<Longrightarrow> prefix out res"
proof (induction es arbitrary: seen out b)
  case Nil
  then show ?case by simp
next
  case (Cons e es)
  from Cons.prems show ?case
    by (auto simp add: Let_def dest!: Cons.IH split: if_splits option.splits
        dest: append_prefixD)
qed

section \<open>Transfers: facts\<close>

text \<open>
  What trimming does, in full: it removes a set of positions, all of terminal transfers of the
  session, as many as exceed the maximum, and each removed one finished before (or, at the same
  instant, stood before) every terminal one that stays.
\<close>

lemma nths_enumerate:
  "map snd (filter (\<lambda>(i, t). i \<in> A) (enumerate 0 xs)) = nths xs A"
  by (simp add: nths_def enumerate_eq_zip zip_commute [of xs] filter_map o_def split_def
      case_prod_unfold)

definition terminal_entries :: "ustr \<Rightarrow> TransferTask list \<Rightarrow> (nat \<times> time option) list" where
  "terminal_entries sid xs =
     map (\<lambda>(i, t). (i, tft_finished_at t))
       (filter (\<lambda>(i, t). is_terminal_transfer sid t) (enumerate 0 xs))"

lemma set_terminal_entries:
  "(i, f) \<in> set (terminal_entries sid xs) \<longleftrightarrow>
     i < length xs \<and> is_terminal_transfer sid (xs ! i) \<and> f = tft_finished_at (xs ! i)"
  by (force simp add: terminal_entries_def in_set_enumerate_eq)

lemma distinct_fst_terminal_entries: "distinct (map fst (terminal_entries sid xs))"
proof -
  have "map fst (terminal_entries sid xs) =
      map fst (filter (\<lambda>(i, t). is_terminal_transfer sid t) (enumerate 0 xs))"
    by (simp add: terminal_entries_def case_prod_unfold)
  moreover have "distinct (map fst (enumerate 0 xs))" by (simp add: distinct_enumerate)
  ultimately show ?thesis by (simp add: distinct_map_filter)
qed

lemma length_terminal_entries:
  "length (terminal_entries sid xs) = count_if (is_terminal_transfer sid) xs"
proof -
  have "length (filter (\<lambda>(i, t). P t) (enumerate n ys)) = count_if P ys" for P n and ys :: "'x list"
    by (induction ys arbitrary: n) auto
  then show ?thesis by (simp add: terminal_entries_def)
qed

definition removed_positions :: "ustr \<Rightarrow> TransferTask list \<Rightarrow> nat set" where
  "removed_positions sid xs =
     fst ` set (take (count_if (is_terminal_transfer sid) xs - MAX_TERMINAL_TRANSFERS_PER_SESSION)
       (sort_key (\<lambda>(i, f). (f, i)) (terminal_entries sid xs)))"

lemma trim_transfers_eq: "trim_transfers sid xs = nths xs (- removed_positions sid xs)"
proof -
  have "trim_transfers sid xs =
    (if length (terminal_entries sid xs) \<le> 1000 then xs
     else map snd (filter (\<lambda>(i, t). i \<in> - removed_positions sid xs) (enumerate 0 xs)))"
    by (simp add: trim_transfers_def Let_def terminal_entries_def [symmetric]
        removed_positions_def length_terminal_entries)
  moreover have "removed_positions sid xs = {}" if "length (terminal_entries sid xs) \<le> 1000"
    using that by (simp add: removed_positions_def length_terminal_entries)
  ultimately show ?thesis
    using nths_enumerate [of "- removed_positions sid xs" xs] by (auto simp add: nths_all)
qed

lemma removed_positions_terminal:
  "i \<in> removed_positions sid xs \<Longrightarrow> i < length xs \<and> is_terminal_transfer sid (xs ! i)"
  unfolding removed_positions_def
  by (auto dest!: in_set_takeD simp add: set_terminal_entries)

lemma card_removed_positions:
  "card (removed_positions sid xs) =
     count_if (is_terminal_transfer sid) xs - MAX_TERMINAL_TRANSFERS_PER_SESSION"
proof -
  let ?S = "sort_key (\<lambda>(i, f). (f, i)) (terminal_entries sid xs)"
  let ?d = "count_if (is_terminal_transfer sid) xs - MAX_TERMINAL_TRANSFERS_PER_SESSION"
  have "mset (map fst ?S) = mset (map fst (terminal_entries sid xs))" by simp
  then have "distinct (map fst ?S)"
    using distinct_fst_terminal_entries mset_eq_imp_distinct_iff by blast
  then have d: "distinct (map fst (take ?d ?S))" by (simp flip: take_map)
  have "removed_positions sid xs = set (map fst (take ?d ?S))" by (simp add: removed_positions_def)
  then have "card (removed_positions sid xs) = length (map fst (take ?d ?S))"
    using distinct_card [OF d] by simp
  then show ?thesis by (simp add: length_terminal_entries)
qed

lemma removed_positions_oldest:
  assumes i: "i \<in> removed_positions sid xs"
    and j: "j < length xs" "is_terminal_transfer sid (xs ! j)" "j \<notin> removed_positions sid xs"
  shows "(tft_finished_at (xs ! i), i) < (tft_finished_at (xs ! j), j)"
proof -
  let ?k = "\<lambda>(i, f). (f, i :: nat)"
  let ?S = "sort_key ?k (terminal_entries sid xs)"
  let ?d = "count_if (is_terminal_transfer sid) xs - MAX_TERMINAL_TRANSFERS_PER_SESSION"
  from i obtain f where f: "(i, f) \<in> set (take ?d ?S)" by (auto simp add: removed_positions_def)
  then have "(i, f) \<in> set (terminal_entries sid xs)" by (auto dest: in_set_takeD)
  with f have "(i, tft_finished_at (xs ! i)) \<in> set (take ?d ?S)"
    by (simp add: set_terminal_entries)
  moreover have "(j, tft_finished_at (xs ! j)) \<in> set (drop ?d ?S)"
  proof -
    have "(j, tft_finished_at (xs ! j)) \<in> set ?S" using j by (simp add: set_terminal_entries)
    then have "(j, tft_finished_at (xs ! j)) \<in> set (take ?d ?S) \<union> set (drop ?d ?S)"
      by (metis append_take_drop_id set_append)
    then show ?thesis using j(3) by (force simp add: removed_positions_def)
  qed
  moreover have "sorted (map ?k (take ?d ?S) @ map ?k (drop ?d ?S))"
    by (simp flip: map_append)
  ultimately have "(tft_finished_at (xs ! i), i) \<le> (tft_finished_at (xs ! j), j)"
    unfolding sorted_append by fastforce
  moreover have "i \<noteq> j" using i j(3) by blast
  ultimately show ?thesis by auto
qed

lemma nths_cong:
  assumes "\<And>i. i < length xs \<Longrightarrow> i \<in> A \<longleftrightarrow> i \<in> B"
  shows "nths xs A = nths xs B"
  unfolding nths_def using assms
  by (intro arg_cong [where f = "map fst"] filter_cong) (auto dest: set_zip_rightD)

lemma filter_nths:
  "filter P (nths xs A) = nths xs (A \<inter> {i. i < length xs \<and> P (xs ! i)})"
proof (induction xs rule: rev_induct)
  case (snoc x xs)
  have "nths xs (A \<inter> {i. i < length (xs @ [x]) \<and> P ((xs @ [x]) ! i)}) =
      nths xs (A \<inter> {i. i < length xs \<and> P (xs ! i)})"
    by (rule nths_cong) (auto simp add: nth_append)
  then show ?case using snoc by (simp add: nths_append)
qed simp

lemma trim_transfers_filter_other:
  assumes "\<And>t. Q t \<Longrightarrow> \<not> is_terminal_transfer sid t"
  shows "filter Q (trim_transfers sid xs) = filter Q xs"
proof -
  have "nths xs (- removed_positions sid xs \<inter> {i. i < length xs \<and> Q (xs ! i)}) =
      nths xs (UNIV \<inter> {i. i < length xs \<and> Q (xs ! i)})"
    using assms removed_positions_terminal by (intro arg_cong [where f = "nths xs"]) blast
  then show ?thesis
    using filter_nths [of Q xs UNIV] by (simp add: trim_transfers_eq filter_nths nths_all)
qed

lemma trim_transfers_count:
  "count_if (is_terminal_transfer sid) (trim_transfers sid xs) =
     min 1000 (count_if (is_terminal_transfer sid) xs)"
proof -
  let ?T = "{i. i < length xs \<and> is_terminal_transfer sid (xs ! i)}"
  have T: "card ?T = count_if (is_terminal_transfer sid) xs"
    by (simp add: count_if_def length_filter_conv_card)
  have R: "removed_positions sid xs \<subseteq> ?T" "finite ?T"
    using removed_positions_terminal by auto
  have "count_if (is_terminal_transfer sid) (trim_transfers sid xs) =
      card (?T - removed_positions sid xs)"
    by (simp add: trim_transfers_eq count_if_def filter_nths length_nths)
       (rule arg_cong [where f = card], auto)
  also have "\<dots> = card ?T - card (removed_positions sid xs)"
    using R by (meson card_Diff_subset finite_subset)
  finally show ?thesis by (simp add: T card_removed_positions)
qed

lemma subseq_trim_transfers: "subseq (trim_transfers sid xs) xs"
  by (simp add: trim_transfers_eq subseq_conv_nths) blast

lemma count_if_sort_key: "count_if P (sort_key f xs) = count_if P xs"
proof -
  have "mset (filter P (sort_key f xs)) = mset (filter P xs)" by simp
  then show ?thesis unfolding count_if_def by (rule mset_eq_length)
qed

section \<open>The interpreted logs\<close>

lemma record_audit_sel [simp]:
  "st_events (record_audit r st) = st_events st"
  "st_event_counts (record_audit r st) = st_event_counts st"
  "st_profiles (record_audit r st) = st_profiles st"
  "st_runtimes (record_audit r st) = st_runtimes st"
  "st_sink (record_audit r st) = st_sink st"
  "st_transfers (record_audit r st) = st_transfers st"
  "st_timeline (record_audit r st) = st_timeline st"
  "st_sysmon (record_audit r st) = st_sysmon st"
  "st_terminal_screens (record_audit r st) = st_terminal_screens st"
  "st_command_history_revision (record_audit r st) = st_command_history_revision st"
  by (simp_all add: record_audit_def)

interpretation audit_log: bounded_log record_audit st_audit aud_session_id "\<lambda>_. True" 5000 128
  by unfold_locales (simp_all add: record_audit_def push_trim_same push_trim_other)

interpretation timeline_log:
  bounded_log record_timeline_mark st_timeline tlm_session_id "\<lambda>_. True" 2000 128
  by unfold_locales (simp_all add: record_timeline_mark_def push_trim_same push_trim_other)

interpretation sysmon_log:
  bounded_log record_sysmon_snapshot st_sysmon sms_session_id "\<lambda>_. True" 1024 128
  by unfold_locales (simp_all add: record_sysmon_snapshot_def push_trim_same push_trim_other)

section \<open>Normalising: facts\<close>

lemma count_sessions_eq:
  "count_sessions m es sid =
     (let c = count_if (\<lambda>e. ev_session_id e = sid) es
      in if c = 0 then m sid else Some ((case m sid of None \<Rightarrow> 0 | Some n \<Rightarrow> n) + c))"
  by (induction es arbitrary: m) (auto simp add: Let_def split: option.splits)

lemma keep_newest_Cons:
  "keep_newest m 0 (x # ys) =
     (if Suc (length ys) \<le> m then x # keep_newest m 0 ys else keep_newest m 0 ys)"
proof (cases "length ys < m")
  case False
  then have "Suc (length ys) - m = Suc (length ys - m)" by (simp add: Suc_diff_le)
  then show ?thesis using False by (auto simp add: keep_newest_def)
qed (auto simp add: keep_newest_def)

text \<open>With the exact counts the countdown never panics, and it keeps the newest entries.\<close>

lemma retain_remaining_Some:
  assumes "\<forall>e \<in> set es. remaining (ev_session_id e) =
    Some (count_if (\<lambda>x. ev_session_id x = ev_session_id e) es)"
  shows "\<exists>kept. retain_remaining remaining es = Some kept \<and>
    (\<forall>sid. of_key ev_session_id sid kept =
       keep_newest MAX_EVENTS_PER_SESSION 0 (of_key ev_session_id sid es))"
  using assms
proof (induction es arbitrary: remaining)
  case Nil
  then show ?case by (simp add: keep_newest_def)
next
  case (Cons e es)
  let ?n = "count_if (\<lambda>x. ev_session_id x = ev_session_id e) es"
  have e: "remaining (ev_session_id e) = Some (Suc ?n)" using Cons.prems by simp
  have "\<forall>x \<in> set es. (remaining(ev_session_id e \<mapsto> ?n)) (ev_session_id x) =
      Some (count_if (\<lambda>y. ev_session_id y = ev_session_id x) es)"
    using Cons.prems by auto
  then obtain kept where kept: "retain_remaining (remaining(ev_session_id e \<mapsto> ?n)) es = Some kept"
    "\<forall>sid. of_key ev_session_id sid kept =
       keep_newest MAX_EVENTS_PER_SESSION 0 (of_key ev_session_id sid es)"
    using Cons.IH by blast
  have "of_key ev_session_id sid (if Suc ?n \<le> MAX_EVENTS_PER_SESSION then e # kept else kept) =
      keep_newest MAX_EVENTS_PER_SESSION 0 (of_key ev_session_id sid (e # es))" for sid
    using kept(2) by (simp add: keep_newest_Cons length_of_key)
  then show ?case using e kept(1) by auto
qed

lemma of_key_fold_trim:
  assumes "distinct ks"
  shows "of_key key k (fold (\<lambda>k. trim_oldest_matching m 0 (\<lambda>x. key x = k)) ks xs) =
    (if k \<in> set ks then keep_newest m 0 (of_key key k xs) else of_key key k xs)"
  using assms
proof (induction ks arbitrary: xs)
  case Nil
  then show ?case by simp
next
  case (Cons c ks)
  have "of_key key k (trim_oldest_matching m 0 (\<lambda>x. key x = c) xs) =
      (if k = c then keep_newest m 0 (of_key key k xs) else of_key key k xs)"
    using trim_other [of "\<lambda>x. key x = k" "\<lambda>x. key x = c" m 0 xs]
    by (auto simp add: of_key_def trim_matching keep_newest_def count_if_def)
  then show ?case using Cons by auto
qed

lemma of_key_trim_all: "of_key key k (trim_all m key xs) = keep_newest m 0 (of_key key k xs)"
proof (cases "k \<in> set (map key xs)")
  case True
  then show ?thesis by (simp add: trim_all_def of_key_fold_trim)
next
  case False
  then have "of_key key k xs = []" by (auto simp add: of_key_def filter_empty_conv)
  then show ?thesis using False by (simp add: trim_all_def of_key_fold_trim keep_newest_def)
qed

lemma count_sessions_exact:
  "count_sessions Map.empty es sid =
     (let c = count_if (\<lambda>e. ev_session_id e = sid) es in if c = 0 then None else Some c)"
  by (simp add: count_sessions_eq Let_def)

lemma retain_counted_Some:
  "\<exists>kept. retain_remaining (count_sessions Map.empty es) es = Some kept \<and>
    (\<forall>sid. of_key ev_session_id sid kept =
       keep_newest MAX_EVENTS_PER_SESSION 0 (of_key ev_session_id sid es))"
  by (rule retain_remaining_Some) (auto simp add: count_sessions_exact Let_def count_if_eq_0_iff)

end
