(* ===== verification/Store_Events.thy ===== *)
theory Store_Events
  imports Store_Histories
begin

text \<open>
  The event log of the store (\<open>store/events.rs\<close>): recording, system events and their outbox,
  the cached per-session trimming, reading and searching, and sending text. The cache
  \<open>st_event_counts\<close> must always agree with the log: \<open>counts_ok\<close> is that invariant, every
  recording operation keeps it, and under it the plain push is a \<open>bounded_log\<close>.
\<close>

abbreviation (input) EVENT_TRIM_BATCH :: nat where "EVENT_TRIM_BATCH \<equiv> 512"

definition trim_events_if_needed :: "ustr \<Rightarrow> 'vt SessionStore \<Rightarrow> 'vt SessionStore" where
  "trim_events_if_needed session_id st =
     (let already_cached = (session_id \<in> dom (st_event_counts st));
          seeded = (case st_event_counts st session_id of
                      Some n \<Rightarrow> n
                    | None \<Rightarrow> count_if (\<lambda>e. ev_session_id e = session_id) (st_events st));
          session_count = (if already_cached then seeded + 1 else seeded);
          st = st\<lparr>st_event_counts := (st_event_counts st)(session_id \<mapsto> session_count)\<rparr>
      in if session_count \<le> MAX_EVENTS_PER_SESSION + EVENT_TRIM_BATCH then st
         else
           let to_drop = session_count - MAX_EVENTS_PER_SESSION
           in st\<lparr>st_events := retain_after_drop (\<lambda>e. ev_session_id e = session_id) to_drop
                                (st_events st),
                 st_event_counts := (st_event_counts st)(session_id \<mapsto> MAX_EVENTS_PER_SESSION)\<rparr>)"

text \<open>\<open>self.events.push(event); self.trim_events_if_needed(session_id)\<close>.\<close>

definition push_event :: "SessionEvent \<Rightarrow> 'vt SessionStore \<Rightarrow> 'vt SessionStore" where
  "push_event event st =
     trim_events_if_needed (ev_session_id event) (st\<lparr>st_events := st_events st @ [event]\<rparr>)"

definition touch_runtime :: "ustr \<Rightarrow> (time \<Rightarrow> time) \<Rightarrow> 'vt SessionStore \<Rightarrow> 'vt SessionStore" where
  "touch_runtime session_id f st =
     st\<lparr>st_runtimes := update_first (\<lambda>r. rt_session_id r = session_id)
          (\<lambda>r. r\<lparr>rt_last_activity := f (rt_last_activity r)\<rparr>) (st_runtimes st)\<rparr>"

definition record_prepared_event ::
  "'vt vt_ops \<Rightarrow> time \<Rightarrow> SessionEvent \<Rightarrow> 'vt SessionStore
     \<Rightarrow> 'vt SessionStore \<times> (StoreError + SessionEvent)" where
  "record_prepared_event vt now event st =
     (let session_id = ev_session_id event
      in if \<not> has_profile st session_id then (st, Inl (UnknownSession session_id))
         else if ev_id event = [] \<or> 128 < byte_len (ev_id event) \<or>
                 list_ex is_control (ev_id event) \<or> ev_pane_id event \<noteq> main_pane session_id
         then (st, Inl InvalidEventIdentity)
         else
           let st = touch_runtime session_id (\<lambda>t. max t (ev_ts event)) st;
               arrived_out_of_order = (st_events st \<noteq> [] \<and> ev_ts event < ev_ts (last (st_events st)));
               st = (if ev_direction event = Inbound \<and> ev_stream event \<in> {Stdout, Stderr}
                     then (case ev_text event of
                             Some text \<Rightarrow>
                               process_terminal_output vt now session_id text (ev_ts event) st
                           | None \<Rightarrow> st)
                     else st);
               st = st\<lparr>st_events := st_events st @ [event]\<rparr>;
               st = (if arrived_out_of_order
                     then st\<lparr>st_events := sort_key ev_ts (st_events st)\<rparr> else st)
           in (trim_events_if_needed session_id st, Inr event))"

definition record_event ::
  "'vt vt_ops \<Rightarrow> ustr \<Rightarrow> time \<Rightarrow> time \<Rightarrow> ustr \<Rightarrow> EventDirection \<Rightarrow> EventStream \<Rightarrow> ustr option
     \<Rightarrow> ustr option \<Rightarrow> (ustr \<rightharpoonup> ustr) \<Rightarrow> 'vt SessionStore
     \<Rightarrow> 'vt SessionStore \<times> (StoreError + SessionEvent)" where
  "record_event vt uuid now now' session_id direction stream text bytes_ref annotations st =
     record_prepared_event vt now'
       \<lparr>ev_id = uuid, ev_session_id = session_id, ev_pane_id = main_pane session_id, ev_ts = now,
        ev_direction = direction, ev_stream = stream, ev_bytes_ref = bytes_ref, ev_text = text,
        ev_annotations = annotations\<rparr> st"

definition record_stream_event_with_bytes_ref ::
  "'vt vt_ops \<Rightarrow> ustr \<Rightarrow> time \<Rightarrow> time \<Rightarrow> ustr \<Rightarrow> EventDirection \<Rightarrow> EventStream \<Rightarrow> ustr
     \<Rightarrow> ustr option \<Rightarrow> 'vt SessionStore \<Rightarrow> 'vt SessionStore \<times> (StoreError + SessionEvent)" where
  "record_stream_event_with_bytes_ref vt uuid now now' session_id direction stream text bytes_ref st =
     record_event vt uuid now now' session_id direction stream (Some text) bytes_ref Map.empty st"

definition record_stream_event ::
  "'vt vt_ops \<Rightarrow> ustr \<Rightarrow> time \<Rightarrow> time \<Rightarrow> ustr \<Rightarrow> EventDirection \<Rightarrow> EventStream \<Rightarrow> ustr
     \<Rightarrow> 'vt SessionStore \<Rightarrow> 'vt SessionStore \<times> (StoreError + SessionEvent)" where
  "record_stream_event vt uuid now now' session_id direction stream text st =
     record_stream_event_with_bytes_ref vt uuid now now' session_id direction stream text None st"

fun sink_error_text :: "SinkError \<Rightarrow> ustr" where
  "sink_error_text SinkStatePoisoned = str ''system event sink state poisoned''"
| "sink_error_text SinkWorkerDisconnected = str ''system event sink worker disconnected''"
| "sink_error_text SinkBacklogExceeded = str ''system event sink backlog exceeded 4096 events''"

definition system_event :: "ustr \<Rightarrow> time \<Rightarrow> ustr \<Rightarrow> ustr \<Rightarrow> SessionEvent" where
  "system_event uuid now session_id text =
     \<lparr>ev_id = uuid, ev_session_id = session_id, ev_pane_id = main_pane session_id, ev_ts = now,
      ev_direction = DirSystem, ev_stream = Control, ev_bytes_ref = None, ev_text = Some text,
      ev_annotations = Map.empty\<rparr>"

definition push_system_event ::
  "(nat \<Rightarrow> TrySend) \<Rightarrow> ustr \<Rightarrow> time \<Rightarrow> ustr \<Rightarrow> ustr \<Rightarrow> 'vt SessionStore
     \<Rightarrow> 'vt SessionStore \<times> ustr option" where
  "push_system_event chan uuid now session_id text st =
     (case store_profile st session_id of
        None \<Rightarrow> (st, None)
      | Some profile \<Rightarrow>
          let event = system_event uuid now session_id text;
              (s, r) = enqueue chan (event, Some profile) (st_sink st);
              event = (case r of
                         Inl e \<Rightarrow> event\<lparr>ev_annotations :=
                           (ev_annotations event)(str ''loggingError'' \<mapsto> sink_error_text e)\<rparr>
                       | Inr _ \<Rightarrow> event)
          in (push_event event (st\<lparr>st_sink := s\<rparr>), Some uuid))"

definition record_system_event_tracked ::
  "(nat \<Rightarrow> TrySend) \<Rightarrow> ustr \<Rightarrow> time \<Rightarrow> ustr \<Rightarrow> ustr \<Rightarrow> 'vt SessionStore
     \<Rightarrow> 'vt SessionStore \<times> ustr option" where
  "record_system_event_tracked chan uuid now session_id text st =
     push_system_event chan uuid now session_id text st"

definition record_system_event ::
  "(nat \<Rightarrow> TrySend) \<Rightarrow> ustr \<Rightarrow> time \<Rightarrow> ustr \<Rightarrow> ustr \<Rightarrow> 'vt SessionStore \<Rightarrow> 'vt SessionStore" where
  "record_system_event chan uuid now session_id text st =
     fst (record_system_event_tracked chan uuid now session_id text st)"

section \<open>Reading and searching\<close>

definition store_screen :: "'vt vt_ops \<Rightarrow> 'vt SessionStore \<Rightarrow> ustr \<Rightarrow> ustr option" where
  "store_screen vt st session_id = terminal_screen vt st session_id"

definition tail_log :: "'vt SessionStore \<Rightarrow> ustr \<Rightarrow> nat \<Rightarrow> SessionEvent list" where
  "tail_log st session_id limit =
     rev (take limit (filter (\<lambda>e. ev_session_id e = session_id) (rev (st_events st))))"

text \<open>Lower-casing text is the Unicode mapping of the standard library, the argument \<open>lower\<close>.\<close>

definition search_logs_matching_sessions ::
  "(ustr \<Rightarrow> ustr) \<Rightarrow> 'vt SessionStore \<Rightarrow> ustr \<Rightarrow> nat \<Rightarrow> (ustr \<Rightarrow> bool) \<Rightarrow> SessionEvent list" where
  "search_logs_matching_sessions lower st query limit session_allowed =
     (let needle = lower query
      in rev (take limit
           (filter (\<lambda>e. contains_str
                          (lower (case ev_text e of Some t \<Rightarrow> t | None \<Rightarrow> [])) needle)
             (filter (\<lambda>e. session_allowed (ev_session_id e)) (rev (st_events st))))))"

definition search_logs ::
  "(ustr \<Rightarrow> ustr) \<Rightarrow> 'vt SessionStore \<Rightarrow> ustr \<Rightarrow> ustr option \<Rightarrow> nat \<Rightarrow> SessionEvent list" where
  "search_logs lower st query session_id limit =
     search_logs_matching_sessions lower st query limit
       (\<lambda>i. case session_id of None \<Rightarrow> True | Some wanted \<Rightarrow> wanted = i)"

section \<open>Sending text\<close>

text \<open>
  \<open>ids\<close> are the identifiers of the event and of the audit record. The result is \<open>None\<close> when
  the redaction of the text does not return.
\<close>

definition send_text_with_bytes_ref_and_audit_action ::
  "regexes \<Rightarrow> ustr \<times> ustr \<Rightarrow> time \<Rightarrow> ustr \<Rightarrow> ustr \<Rightarrow> ustr \<Rightarrow> ustr option \<Rightarrow> ustr option \<Rightarrow> nat
     \<Rightarrow> 'vt SessionStore \<Rightarrow> ('vt SessionStore \<times> (StoreError + SessionEvent)) option" where
  "send_text_with_bytes_ref_and_audit_action rx ids now actor session_id text bytes_ref
       audit_action audit_bytes st =
     (if \<not> has_profile st session_id then Some (st, Inl (UnknownSession session_id))
      else
        let st = touch_runtime session_id (\<lambda>_. now) st
        in map_option (\<lambda>redacted.
             let event = \<lparr>ev_id = fst ids, ev_session_id = session_id,
                          ev_pane_id = main_pane session_id, ev_ts = now,
                          ev_direction = Outbound, ev_stream = Stdout, ev_bytes_ref = bytes_ref,
                          ev_text = Some redacted, ev_annotations = [str ''actor'' \<mapsto> actor]\<rparr>;
                 st = push_event event st;
                 st = (case audit_action of
                         None \<Rightarrow> st
                       | Some action \<Rightarrow>
                           record_audit
                             \<lparr>aud_id = snd ids, aud_ts = now, aud_actor = actor,
                              aud_action = action, aud_session_id = Some session_id,
                              aud_decision = str ''recorded'',
                              aud_details = [str ''bytes'' \<mapsto> nat_str audit_bytes]\<rparr> st)
             in (st, Inr event))
           (redact_secrets rx text))"

definition send_text_with_bytes_ref ::
  "regexes \<Rightarrow> ustr \<times> ustr \<Rightarrow> time \<Rightarrow> ustr \<Rightarrow> ustr \<Rightarrow> ustr \<Rightarrow> ustr option
     \<Rightarrow> 'vt SessionStore \<Rightarrow> ('vt SessionStore \<times> (StoreError + SessionEvent)) option" where
  "send_text_with_bytes_ref rx ids now actor session_id text bytes_ref st =
     send_text_with_bytes_ref_and_audit_action rx ids now actor session_id text bytes_ref
       (Some (str ''send_text'')) (byte_len text) st"

definition send_text ::
  "regexes \<Rightarrow> ustr \<times> ustr \<Rightarrow> time \<Rightarrow> ustr \<Rightarrow> ustr \<Rightarrow> ustr
     \<Rightarrow> 'vt SessionStore \<Rightarrow> ('vt SessionStore \<times> (StoreError + SessionEvent)) option" where
  "send_text rx ids now actor session_id text st =
     send_text_with_bytes_ref rx ids now actor session_id text None st"

section \<open>The count cache\<close>

definition session_count :: "'vt SessionStore \<Rightarrow> ustr \<Rightarrow> nat" where
  "session_count st sid = count_if (\<lambda>e. ev_session_id e = sid) (st_events st)"

definition counts_ok :: "'vt SessionStore \<Rightarrow> bool" where
  "counts_ok st \<longleftrightarrow> (\<forall>sid n. st_event_counts st sid = Some n \<longrightarrow> n = session_count st sid)"

text \<open>
  The state in which trimming is called: one event of the session has been pushed since the
  cache was right.
\<close>

definition counts_behind :: "ustr \<Rightarrow> 'vt SessionStore \<Rightarrow> bool" where
  "counts_behind sid st \<longleftrightarrow>
     (\<forall>s n. st_event_counts st s = Some n \<longrightarrow>
        session_count st s = (if s = sid then n + 1 else n))"

lemma of_key_events: "length (of_key ev_session_id sid (st_events st)) = session_count st sid"
  by (simp add: session_count_def length_of_key)

lemma trim_events_count:
  assumes "counts_behind sid st"
  shows "(case st_event_counts st sid of Some n \<Rightarrow> n + 1 | None \<Rightarrow> session_count st sid) =
         session_count st sid"
  using assms by (auto simp add: counts_behind_def split: option.splits)

lemma trim_events_eq:
  assumes "counts_behind sid st"
  shows "trim_events_if_needed sid st =
    (if session_count st sid \<le> 5512
     then st\<lparr>st_event_counts := (st_event_counts st)(sid \<mapsto> session_count st sid)\<rparr>
     else st\<lparr>st_events := retain_after_drop (\<lambda>e. ev_session_id e = sid)
                (session_count st sid - 5000) (st_events st),
             st_event_counts := (st_event_counts st)(sid \<mapsto> 5000)\<rparr>)"
  using trim_events_count [OF assms]
  by (cases "st_event_counts st sid")
     (auto simp add: trim_events_if_needed_def Let_def domIff session_count_def)

lemma trim_events_of_key:
  assumes "counts_behind sid st"
  shows "of_key ev_session_id k (st_events (trim_events_if_needed sid st)) =
    (if k = sid then keep_newest 5000 512 (of_key ev_session_id k (st_events st))
     else of_key ev_session_id k (st_events st))"
proof -
  have "filter (\<lambda>e. ev_session_id e = k)
      (retain_after_drop (\<lambda>e. ev_session_id e = sid) n xs) =
      (if k = sid then drop n (filter (\<lambda>e. ev_session_id e = sid) xs)
       else filter (\<lambda>e. ev_session_id e = k) xs)" for n xs
    by (auto simp add: filter_retain_after_drop intro!: filter_retain_after_drop_other)
  then show ?thesis
    by (auto simp add: trim_events_eq [OF assms] of_key_def keep_newest_def session_count_def
        count_if_def)
qed

lemma trim_events_counts_ok:
  assumes "counts_behind sid st"
  shows "counts_ok (trim_events_if_needed sid st)"
proof -
  have len: "session_count (trim_events_if_needed sid st) k =
      (if k = sid \<and> 5512 < session_count st sid then 5000 else session_count st k)" for k
    by (simp add: of_key_events [symmetric] trim_events_of_key [OF assms] keep_newest_def)
  have "st_event_counts (trim_events_if_needed sid st) = (st_event_counts st)(sid \<mapsto>
      if 5512 < session_count st sid then 5000 else session_count st sid)"
    by (simp add: trim_events_eq [OF assms])
  then show ?thesis using assms by (auto simp add: counts_ok_def len counts_behind_def)
qed

lemma counts_ok_push:
  assumes "counts_ok st"
  shows "counts_behind (ev_session_id e) (st\<lparr>st_events := st_events st @ [e]\<rparr>)"
  using assms by (auto simp add: counts_ok_def counts_behind_def session_count_def)

lemma trim_events_frame:
  "trim_events_if_needed sid st =
     st\<lparr>st_events := st_events (trim_events_if_needed sid st),
        st_event_counts := st_event_counts (trim_events_if_needed sid st)\<rparr>"
  by (simp add: trim_events_if_needed_def Let_def)

lemma trim_events_sel [simp]:
  "st_timeline (trim_events_if_needed sid st) =
     st_timeline st"
  "st_sysmon (trim_events_if_needed sid st) =
     st_sysmon st"
  "st_command_history_revision (trim_events_if_needed sid st) =
     st_command_history_revision st"
  "st_host_keys (trim_events_if_needed sid st) =
     st_host_keys st"
  "st_one_keys (trim_events_if_needed sid st) =
     st_one_keys st"
  "st_terminal_screens (trim_events_if_needed sid st) =
     st_terminal_screens st"
  "st_profiles (trim_events_if_needed sid st) = st_profiles st"
  "st_runtimes (trim_events_if_needed sid st) = st_runtimes st"
  "st_audit (trim_events_if_needed sid st) = st_audit st"
  "st_transfers (trim_events_if_needed sid st) = st_transfers st"
  "st_grants (trim_events_if_needed sid st) = st_grants st"
  "st_sink (trim_events_if_needed sid st) = st_sink st"
  by (simp_all add: trim_events_if_needed_def Let_def)

lemma push_event_sel [simp]:
  "st_timeline (push_event e st) =
     st_timeline st"
  "st_sysmon (push_event e st) =
     st_sysmon st"
  "st_command_history_revision (push_event e st) =
     st_command_history_revision st"
  "st_host_keys (push_event e st) =
     st_host_keys st"
  "st_one_keys (push_event e st) =
     st_one_keys st"
  "st_terminal_screens (push_event e st) =
     st_terminal_screens st"
  "st_profiles (push_event e st) = st_profiles st"
  "st_runtimes (push_event e st) = st_runtimes st"
  "st_audit (push_event e st) = st_audit st"
  "st_transfers (push_event e st) = st_transfers st"
  "st_grants (push_event e st) = st_grants st"
  "st_sink (push_event e st) = st_sink st"
  by (simp_all add: push_event_def)

text \<open>Under the invariant, the plain push of events is a bounded log.\<close>

interpretation event_log: bounded_log push_event st_events ev_session_id counts_ok 5000 512
proof unfold_locales
  fix s :: "'a SessionStore" and x k
  assume ok: "counts_ok s"
  note b = counts_ok_push [OF ok, of x]
  show "counts_ok (push_event x s)"
    unfolding push_event_def using b by (rule trim_events_counts_ok)
  show "of_key ev_session_id (ev_session_id x) (st_events (push_event x s)) =
      keep_newest 5000 512 (of_key ev_session_id (ev_session_id x) (st_events s) @ [x])"
    by (simp add: push_event_def trim_events_of_key [OF b])
  show "k \<noteq> ev_session_id x \<Longrightarrow>
      of_key ev_session_id k (st_events (push_event x s)) = of_key ev_session_id k (st_events s)"
    by (simp add: push_event_def trim_events_of_key [OF b])
qed

section \<open>The invariant of the event log\<close>

text \<open>
  The cache is exact, no session holds more than 5512 events, and events, cache entries and
  screens belong to known profiles.
\<close>

definition session_ids :: "'vt SessionStore \<Rightarrow> ustr set" where
  "session_ids st = prof_id ` set (st_profiles st)"

definition events_ok :: "'vt SessionStore \<Rightarrow> bool" where
  "events_ok st \<longleftrightarrow>
     counts_ok st \<and> (\<forall>sid. session_count st sid \<le> 5512) \<and>
     ev_session_id ` set (st_events st) \<subseteq> session_ids st \<and>
     dom (st_event_counts st) \<subseteq> session_ids st \<and> dom (st_terminal_screens st) \<subseteq> session_ids st"

lemma has_profile_session_ids: "has_profile st sid \<longleftrightarrow> sid \<in> session_ids st"
  by (simp add: has_profile_iff session_ids_def)

lemma events_ok_cong:
  assumes "st_events a = st_events b" "st_event_counts a = st_event_counts b"
    "session_ids b \<subseteq> session_ids a" "dom (st_terminal_screens a) \<subseteq> session_ids a" "events_ok b"
  shows "events_ok a"
  using assms by (auto simp add: events_ok_def counts_ok_def session_count_def)

lemma trim_events_events_ok:
  assumes behind: "counts_behind sid st" and sid: "sid \<in> session_ids st"
    and bound: "\<And>k. k \<noteq> sid \<Longrightarrow> session_count st k \<le> 5512"
    and ids: "ev_session_id ` set (st_events st) \<subseteq> session_ids st"
      "dom (st_event_counts st) \<subseteq> session_ids st" "dom (st_terminal_screens st) \<subseteq> session_ids st"
  shows "events_ok (trim_events_if_needed sid st)"
proof -
  have "session_count (trim_events_if_needed sid st) k \<le> 5512" for k
    using bound [of k]
    by (auto simp add: of_key_events [symmetric] trim_events_of_key [OF behind] keep_newest_def)
  moreover have "set (st_events (trim_events_if_needed sid st)) \<subseteq> set (st_events st)"
    by (auto simp add: trim_events_eq [OF behind] dest: subsetD [OF set_retain_after_drop_subset])
  then have "ev_session_id ` set (st_events (trim_events_if_needed sid st)) \<subseteq> session_ids st"
    using ids(1) by blast
  moreover have "dom (st_event_counts (trim_events_if_needed sid st)) \<subseteq> session_ids st"
    using ids(2) sid by (simp add: trim_events_eq [OF behind])
  ultimately show ?thesis
    using trim_events_counts_ok [OF behind] ids(1,3)
    by (auto simp add: events_ok_def session_ids_def)
qed

text \<open>Appending an event, or inserting one anywhere, and trimming keeps the invariant.\<close>

lemma insert_event_events_ok:
  assumes ok: "events_ok st" and sid: "ev_session_id e \<in> session_ids st"
    and es: "mset es = mset (st_events st @ [e])"
  shows "events_ok (trim_events_if_needed (ev_session_id e) (st\<lparr>st_events := es\<rparr>))"
proof (rule trim_events_events_ok)
  have "session_count (st\<lparr>st_events := es\<rparr>) k = session_count (st\<lparr>st_events := st_events st @ [e]\<rparr>) k" for k
    using arg_cong [OF es, of "\<lambda>M. size (filter_mset (\<lambda>e. ev_session_id e = k) M)"]
    by (simp add: session_count_def count_if_def size_mset [symmetric] del: size_mset)
  then have c: "session_count (st\<lparr>st_events := es\<rparr>) k =
      session_count st k + (if k = ev_session_id e then 1 else 0)" for k
    by (simp add: session_count_def)
  show "counts_behind (ev_session_id e) (st\<lparr>st_events := es\<rparr>)"
    using ok c by (auto simp add: counts_behind_def events_ok_def counts_ok_def)
  show "k \<noteq> ev_session_id e \<Longrightarrow> session_count (st\<lparr>st_events := es\<rparr>) k \<le> 5512" for k
    using ok c [of k] by (simp add: events_ok_def)
  have "set es = insert e (set (st_events st))" using mset_eq_setD [OF es] by simp
  then show "ev_session_id ` set (st_events (st\<lparr>st_events := es\<rparr>)) \<subseteq> session_ids (st\<lparr>st_events := es\<rparr>)"
    using ok sid by (auto simp add: events_ok_def session_ids_def)
qed (use ok sid in \<open>auto simp add: events_ok_def session_ids_def\<close>)

lemma push_event_events_ok:
  "events_ok st \<Longrightarrow> ev_session_id e \<in> session_ids st \<Longrightarrow> events_ok (push_event e st)"
  unfolding push_event_def by (rule insert_event_events_ok) simp_all

lemma push_system_event_events_ok:
  assumes "events_ok st"
  shows "events_ok (fst (push_system_event chan u now sid text st))"
proof (cases "store_profile st sid")
  case None
  then show ?thesis using assms by (simp add: push_system_event_def)
next
  case (Some p)
  then have sid: "sid \<in> session_ids st"
    by (metis has_profile_session_ids option.distinct(1) store_profile_None_iff)
  have "events_ok (st\<lparr>st_sink := s\<rparr>)" for s
    using assms by (simp add: events_ok_def counts_ok_def session_count_def session_ids_def)
  then show ?thesis using Some sid
    by (auto simp add: push_system_event_def Let_def split_def system_event_def session_ids_def
        split: sum.splits intro!: push_event_events_ok)
qed

lemma process_terminal_output_screens:
  assumes "has_profile st sid"
  shows "dom (st_terminal_screens (process_terminal_output vt now sid text ts st)) =
    insert sid (dom (st_terminal_screens st))"
proof -
  obtain p where p: "store_profile st sid = Some p"
    using assms store_profile_None_iff by fastforce
  then show ?thesis
    by (cases "st_terminal_screens st sid")
       (auto simp add: process_terminal_output_def reset_terminal_screen_def domIff Let_def
         split: if_splits)
qed

lemma process_terminal_output_events_ok:
  assumes "events_ok st" "has_profile st sid"
  shows "events_ok (process_terminal_output vt now sid text ts st)"
proof (rule events_ok_cong [OF _ _ _ _ assms(1)])
  show "dom (st_terminal_screens (process_terminal_output vt now sid text ts st))
      \<subseteq> session_ids (process_terminal_output vt now sid text ts st)"
    using assms unfolding process_terminal_output_screens [OF assms(2)]
    by (simp add: session_ids_def events_ok_def has_profile_iff)
qed (simp_all add: session_ids_def)

lemma touch_runtime_events_ok: "events_ok st \<Longrightarrow> events_ok (touch_runtime sid f st)"
  by (simp add: touch_runtime_def events_ok_def counts_ok_def session_count_def session_ids_def)

lemma touch_runtime_sel [simp]:
  "session_ids (touch_runtime sid f st) = session_ids st"
  "st_profiles (touch_runtime sid f st) = st_profiles st"
  "st_events (touch_runtime sid f st) = st_events st"
  "st_audit (touch_runtime sid f st) = st_audit st"
  "st_timeline (touch_runtime sid f st) = st_timeline st"
  "st_sysmon (touch_runtime sid f st) = st_sysmon st"
  "st_transfers (touch_runtime sid f st) = st_transfers st"
  "st_sink (touch_runtime sid f st) = st_sink st"
  "st_command_history_revision (touch_runtime sid f st) = st_command_history_revision st"
  by (simp_all add: touch_runtime_def session_ids_def)

lemma record_audit_events_ok [simp]: "events_ok (record_audit r st) = events_ok st"
  by (simp add: events_ok_def counts_ok_def session_count_def session_ids_def)

lemma record_prepared_event_events_ok:
  assumes "events_ok st"
  shows "events_ok (fst (record_prepared_event vt now e st))"
proof (cases "has_profile st (ev_session_id e) \<and> \<not> (ev_id e = [] \<or> 128 < byte_len (ev_id e) \<or>
    list_ex is_control (ev_id e) \<or> ev_pane_id e \<noteq> main_pane (ev_session_id e))")
  case True
  let ?t = "touch_runtime (ev_session_id e) (\<lambda>t. max t (ev_ts e)) st"
  let ?s = "if ev_direction e = Inbound \<and> ev_stream e \<in> {Stdout, Stderr}
            then (case ev_text e of
                    Some text \<Rightarrow> process_terminal_output vt now (ev_session_id e) text (ev_ts e) ?t
                  | None \<Rightarrow> ?t) else ?t"
  have "has_profile ?t (ev_session_id e)" using True by (simp add: has_profile_session_ids)
  then have s: "events_ok ?s" "session_ids ?s = session_ids st" "st_events ?s = st_events st"
    using touch_runtime_events_ok [OF assms]
    by (auto simp add: process_terminal_output_events_ok session_ids_def split: option.splits)
  define es where "es = (if st_events st \<noteq> [] \<and> ev_ts e < ev_ts (last (st_events st))
    then sort_key ev_ts (st_events st @ [e]) else st_events st @ [e])"
  have "fst (record_prepared_event vt now e st) =
      trim_events_if_needed (ev_session_id e) (?s\<lparr>st_events := es\<rparr>)"
    using True s(3)
    by (simp add: record_prepared_event_def Let_def es_def split: option.splits)
  moreover have "mset es = mset (st_events ?s @ [e])" unfolding s(3) by (simp add: es_def)
  ultimately show ?thesis
    using insert_event_events_ok [OF s(1), of e es] True s(2) by (simp add: has_profile_session_ids)
next
  case False
  then show ?thesis using assms by (auto simp add: record_prepared_event_def Let_def)
qed

lemma send_text_events_ok:
  assumes "send_text_with_bytes_ref_and_audit_action rx ids now actor sid text bref action n st =
      Some (st', r)" "events_ok st"
  shows "events_ok st'"
proof (cases "has_profile st sid")
  case True
  then show ?thesis
    using assms
    by (auto simp add: send_text_with_bytes_ref_and_audit_action_def Let_def has_profile_session_ids
        touch_runtime_events_ok
        split: option.splits intro!: push_event_events_ok)
qed (use assms in \<open>simp add: send_text_with_bytes_ref_and_audit_action_def\<close>)

end
