(* ===== verification/Store_Sessions.thy ===== *)
theory Store_Sessions
  imports Store_Events
begin

text \<open>
  Profiles and runtimes of the store (\<open>store/sessions.rs\<close>): capacity checks, inserting and
  deleting a profile, the status transitions of a runtime with their outage bookkeeping,
  summaries, and the normal form of a disconnect reason. Lemmas: every operation keeps one
  runtime per profile, and the runtime's connection time agrees with its status; the reason is
  the words of the text joined by single spaces, cut at 256 characters.
\<close>

abbreviation (input) MAX_SESSION_PROFILES :: nat where "MAX_SESSION_PROFILES \<equiv> 10000"

abbreviation (input) MAX_SESSION_DISCONNECT_REASON_CHARACTERS :: nat
  where "MAX_SESSION_DISCONNECT_REASON_CHARACTERS \<equiv> 256"

section \<open>Capacity\<close>

definition validate_profile_count :: "'vt SessionStore \<Rightarrow> StoreError + unit" where
  "validate_profile_count st =
     (if MAX_SESSION_PROFILES < length (st_profiles st) then Inl ProfileCountExceeded else Inr ())"

definition validate_profile_capacity :: "'vt SessionStore \<Rightarrow> ustr \<Rightarrow> StoreError + unit" where
  "validate_profile_capacity st session_id =
     and_then (validate_profile_count st) (\<lambda>_.
       if has_profile st session_id then Inr ()
       else if MAX_SESSION_PROFILES \<le> length (st_profiles st) then Inl ProfileCountReached
       else Inr ())"

section \<open>Summaries\<close>

text \<open>One step of the loop over the events, and the table it fills.\<close>

definition log_stats_step ::
  "SessionEvent \<Rightarrow> (ustr \<rightharpoonup> nat \<times> ustr option) \<Rightarrow> (ustr \<rightharpoonup> nat \<times> ustr option)" where
  "log_stats_step event m =
     (case ev_text event of
        None \<Rightarrow> m
      | Some text \<Rightarrow>
          let entry = (case m (ev_session_id event) of None \<Rightarrow> (0, None) | Some e \<Rightarrow> e)
          in m(ev_session_id event \<mapsto> (fst entry + 1, Some text)))"

definition log_stats :: "SessionEvent list \<Rightarrow> (ustr \<rightharpoonup> nat \<times> ustr option)" where
  "log_stats events = fold log_stats_step events Map.empty"

definition find_runtime :: "'vt SessionStore \<Rightarrow> ustr \<Rightarrow> SessionRuntime option" where
  "find_runtime st session_id = List.find (\<lambda>r. rt_session_id r = session_id) (st_runtimes st)"

definition summaries :: "'vt SessionStore \<Rightarrow> SessionSummary list" where
  "summaries st =
     (let stats = log_stats (st_events st)
      in List.map_filter (\<lambda>profile.
           map_option (\<lambda>runtime.
             let (log_lines, last_line) =
                   (case stats (prof_id profile) of None \<Rightarrow> (0, None) | Some e \<Rightarrow> e)
             in \<lparr>sum_profile = profile, sum_runtime = runtime,
                 sum_log_lines = log_lines, sum_last_line = last_line\<rparr>)
           (find_runtime st (prof_id profile)))
         (st_profiles st))"

definition find_summary :: "'vt SessionStore \<Rightarrow> ustr \<Rightarrow> SessionSummary option" where
  "find_summary st session_id =
     List.find (\<lambda>s. prof_id (sum_profile s) = session_id) (summaries st)"

definition summary_for :: "'vt SessionStore \<Rightarrow> ustr \<Rightarrow> StoreError + SessionSummary" where
  "summary_for st session_id = ok_or (SummaryMissing session_id) (find_summary st session_id)"

definition describe_endpoint :: "SessionProfile \<Rightarrow> ustr" where
  "describe_endpoint profile =
     (let ssh_text = (\<lambda>ssh.
            (if ssh_username ssh = []
             then ep_host (ssh_endpoint ssh) @ str '':'' @ nat_str (unat (ep_port (ssh_endpoint ssh)))
             else ssh_username ssh @ str ''@'' @ ep_host (ssh_endpoint ssh) @ str '':'' @
                  nat_str (unat (ep_port (ssh_endpoint ssh)))))
      in case prof_connection profile of
           ConnSsh ssh \<Rightarrow> ssh_text ssh
         | ConnTmux ssh \<Rightarrow> ssh_text ssh
         | ConnSerial serial \<Rightarrow> ser_port serial
         | ConnShell shell \<Rightarrow> sh_program shell
         | ConnTelnet tcp \<Rightarrow> tcp_host tcp @ str '':'' @ nat_str (unat (tcp_port tcp))
         | ConnTcp tcp \<Rightarrow> tcp_host tcp @ str '':'' @ nat_str (unat (tcp_port tcp)))"

text \<open>The \<open>Debug\<close> form of a kind is the name of its constructor.\<close>

fun kind_debug :: "SessionKind \<Rightarrow> ustr" where
  "kind_debug KSsh = str ''Ssh''"
| "kind_debug KSerial = str ''Serial''"
| "kind_debug KShell = str ''Shell''"
| "kind_debug KTelnet = str ''Telnet''"
| "kind_debug KTcp = str ''Tcp''"
| "kind_debug KTmux = str ''Tmux''"

section \<open>Disconnect reasons\<close>

text \<open>
  The loop of \<open>normalize_session_disconnect_reason\<close> over the characters: the text built so
  far, the count of its characters and whether a space is pending; the last component of the
  result says that the loop stopped at the limit.
\<close>

fun reason_loop :: "ustr \<Rightarrow> ustr \<Rightarrow> nat \<Rightarrow> bool \<Rightarrow> ustr \<times> nat \<times> bool" where
  "reason_loop [] normalized characters pending_space = (normalized, characters, False)"
| "reason_loop (c # cs) normalized characters pending_space =
     (if is_whitespace c then reason_loop cs normalized characters (0 < characters)
      else if pending_space \<and> characters = MAX_SESSION_DISCONNECT_REASON_CHARACTERS
      then (normalized, characters, True)
      else
        let (normalized, characters) =
              (if pending_space then (normalized @ [chr CHR '' ''], characters + 1)
               else (normalized, characters))
        in if characters = MAX_SESSION_DISCONNECT_REASON_CHARACTERS
           then (normalized, characters, True)
           else reason_loop cs (normalized @ [c]) (characters + 1) False)"

text \<open>\<open>while characters > limit { normalized.pop(); characters -= 1; }\<close>.\<close>

fun pop_to :: "nat \<Rightarrow> ustr \<Rightarrow> nat \<Rightarrow> ustr" where
  "pop_to limit normalized 0 = normalized"
| "pop_to limit normalized (Suc characters) =
     (if limit < Suc characters then pop_to limit (butlast normalized) characters else normalized)"

definition normalize_session_disconnect_reason :: "ustr \<Rightarrow> ustr option" where
  "normalize_session_disconnect_reason value =
     (let (normalized, characters, truncated) = reason_loop value [] 0 False
      in if normalized = [] then None
         else if truncated
         then Some (pop_to (MAX_SESSION_DISCONNECT_REASON_CHARACTERS - 3) normalized characters
                    @ str ''...'')
         else Some normalized)"

fun runtime_outage_status :: "SessionStatus \<Rightarrow> bool" where
  "runtime_outage_status Disconnected = True"
| "runtime_outage_status Reconnecting = True"
| "runtime_outage_status StatusError = True"
| "runtime_outage_status _ = False"

definition default_reason :: "SessionStatus \<Rightarrow> ustr" where
  "default_reason status =
     (case status of
        Disconnected \<Rightarrow> str ''session disconnected''
      | Reconnecting \<Rightarrow> str ''session reconnecting''
      | StatusError \<Rightarrow> str ''connection error''
      | _ \<Rightarrow> str ''runtime status changed'')"

definition apply_runtime_health ::
  "SessionStatus option \<Rightarrow> SessionStatus \<Rightarrow> ustr option \<Rightarrow> SessionRuntime \<Rightarrow> SessionRuntime" where
  "apply_runtime_health previous_status status reason runtime =
     (if runtime_outage_status status then
        let continuing_outage =
              (case previous_status of None \<Rightarrow> False | Some s \<Rightarrow> runtime_outage_status s);
            runtime =
              (if \<not> continuing_outage \<or> rt_last_disconnect runtime = None
               then runtime\<lparr>rt_last_disconnect := Some (rt_last_activity runtime)\<rparr>
               else runtime)
        in runtime\<lparr>rt_last_disconnect_reason :=
             Some (case Option.bind reason normalize_session_disconnect_reason of
                     Some r \<Rightarrow> r | None \<Rightarrow> default_reason status)\<rparr>
      else runtime)"

section \<open>Profiles and runtimes\<close>

definition inactive :: "SessionStatus \<Rightarrow> bool" where
  "inactive status \<longleftrightarrow> status = Disconnected \<or> status = Blocked \<or> status = StatusError"

text \<open>The result is \<open>None\<close> where the source would panic in \<open>expect\<close>.\<close>

definition upsert_profile ::
  "time \<Rightarrow> SessionProfile \<Rightarrow> 'vt SessionStore \<Rightarrow> 'vt SessionStore \<times> SessionSummary option" where
  "upsert_profile now profile st =
     (let session_id = prof_id profile; kind = prof_kind profile; title = prof_name profile;
          st = (if has_profile st session_id
                then st\<lparr>st_profiles := update_first (\<lambda>p. prof_id p = session_id) (\<lambda>_. profile)
                          (st_profiles st)\<rparr>
                else st\<lparr>st_profiles := st_profiles st @ [profile]\<rparr>);
          st = (case find_runtime st session_id of
                  Some _ \<Rightarrow>
                    st\<lparr>st_runtimes := update_first (\<lambda>r. rt_session_id r = session_id)
                      (\<lambda>r. r\<lparr>rt_title := title,
                             rt_active_transport :=
                               (if inactive (rt_status r) then kind else rt_active_transport r),
                             rt_last_activity := now\<rparr>) (st_runtimes st)\<rparr>
                | None \<Rightarrow>
                    st\<lparr>st_runtimes := st_runtimes st @
                      [\<lparr>rt_session_id = session_id, rt_pane_id = main_pane session_id,
                        rt_status = Disconnected, rt_title = title, rt_cwd = None,
                        rt_connected_since = None, rt_last_activity = now,
                        rt_last_disconnect = None, rt_last_disconnect_reason = None,
                        rt_active_transport = kind\<rparr>]\<rparr>)
      in (st, find_summary st session_id))"

definition set_runtime_status_with_reason ::
  "time \<Rightarrow> ustr \<Rightarrow> SessionStatus \<Rightarrow> ustr option \<Rightarrow> 'vt SessionStore
     \<Rightarrow> 'vt SessionStore \<times> (StoreError + SessionSummary)" where
  "set_runtime_status_with_reason now session_id status reason st =
     (case store_profile st session_id of
        None \<Rightarrow> (st, Inl (UnknownSession session_id))
      | Some profile \<Rightarrow>
          let st =
            (case find_runtime st session_id of
               Some _ \<Rightarrow>
                 st\<lparr>st_runtimes := update_first (\<lambda>r. rt_session_id r = session_id)
                   (\<lambda>r. apply_runtime_health (Some (rt_status r)) status reason
                     (r\<lparr>rt_status := status, rt_title := prof_name profile,
                        rt_connected_since :=
                          (if status = Connected
                           then Some (case rt_connected_since r of Some t \<Rightarrow> t | None \<Rightarrow> now)
                           else None),
                        rt_last_activity := now, rt_active_transport := prof_kind profile\<rparr>))
                   (st_runtimes st)\<rparr>
             | None \<Rightarrow>
                 st\<lparr>st_runtimes := st_runtimes st @
                   [apply_runtime_health None status reason
                     \<lparr>rt_session_id = session_id, rt_pane_id = main_pane session_id,
                      rt_status = status, rt_title = prof_name profile, rt_cwd = None,
                      rt_connected_since = (if status = Connected then Some now else None),
                      rt_last_activity = now, rt_last_disconnect = None,
                      rt_last_disconnect_reason = None,
                      rt_active_transport = prof_kind profile\<rparr>]\<rparr>)
          in (st, summary_for st session_id))"

definition set_runtime_status ::
  "time \<Rightarrow> ustr \<Rightarrow> SessionStatus \<Rightarrow> 'vt SessionStore
     \<Rightarrow> 'vt SessionStore \<times> (StoreError + SessionSummary)" where
  "set_runtime_status now session_id status st =
     set_runtime_status_with_reason now session_id status None st"

definition open_session ::
  "(nat \<Rightarrow> TrySend) \<Rightarrow> ustr \<Rightarrow> time \<Rightarrow> time \<Rightarrow> ustr \<Rightarrow> 'vt SessionStore
     \<Rightarrow> 'vt SessionStore \<times> (StoreError + SessionSummary)" where
  "open_session chan uuid now now' session_id st =
     (case store_profile st session_id of
        None \<Rightarrow> (st, Inl (UnknownSession session_id))
      | Some profile \<Rightarrow>
          (case set_runtime_status now session_id Connected st of
             (st, Inl e) \<Rightarrow> (st, Inl e)
           | (st, Inr _) \<Rightarrow>
               let st = fst (push_system_event chan uuid now' session_id
                     (str ''PortMate: connected to '' @ describe_endpoint profile @ str '' ('' @
                      kind_debug (prof_kind profile) @ str '')'') st)
               in (st, summary_for st session_id)))"

definition close_session ::
  "(nat \<Rightarrow> TrySend) \<Rightarrow> ustr \<Rightarrow> time \<Rightarrow> time \<Rightarrow> ustr \<Rightarrow> 'vt SessionStore
     \<Rightarrow> 'vt SessionStore \<times> (StoreError + SessionSummary)" where
  "close_session chan uuid now now' session_id st =
     (if \<not> has_profile st session_id then (st, Inl (UnknownSession session_id))
      else
        let st = st\<lparr>st_runtimes := update_first (\<lambda>r. rt_session_id r = session_id)
                      (\<lambda>r. apply_runtime_health (Some (rt_status r)) Disconnected
                             (Some (str ''user closed session''))
                        (r\<lparr>rt_status := Disconnected, rt_connected_since := None,
                           rt_last_activity := now\<rparr>)) (st_runtimes st)\<rparr>;
            st = fst (push_system_event chan uuid now' session_id
                        (str ''PortMate: session disconnected'') st)
        in (st, summary_for st session_id))"

section \<open>Deleting a profile\<close>

definition forget_host_keys :: "ustr \<Rightarrow> TrustedHostKey list \<Rightarrow> TrustedHostKey list" where
  "forget_host_keys session_id keys =
     map (\<lambda>k. if thk_profile_id k = Some session_id then k\<lparr>thk_profile_id := None\<rparr> else k)
       (filter (\<lambda>k. \<not> (thk_scope k = ScopeProfile \<and> thk_profile_id k = Some session_id)) keys)"

definition one_key_forget_session :: "ustr \<Rightarrow> time \<Rightarrow> OneKeyCredential \<Rightarrow> OneKeyCredential" where
  "one_key_forget_session session_id now one_key =
     (let previous_session_count = length (okc_session_ids one_key);
          one_key = one_key\<lparr>okc_session_ids :=
                      filter (\<lambda>s. s \<noteq> session_id) (okc_session_ids one_key)\<rparr>;
          removed_identity = (case okc_identity one_key of
                                None \<Rightarrow> False
                              | Some i \<Rightarrow> oki_source_profile_id i = session_id);
          one_key = (if removed_identity then one_key\<lparr>okc_identity := None\<rparr> else one_key)
      in if previous_session_count \<noteq> length (okc_session_ids one_key) \<or> removed_identity
         then one_key\<lparr>okc_updated_at := now\<rparr> else one_key)"

definition delete_profile_deferred_system_event_cleanup ::
  "time \<Rightarrow> ustr \<Rightarrow> 'vt SessionStore \<Rightarrow> 'vt SessionStore \<times> (StoreError + SessionProfile)" where
  "delete_profile_deferred_system_event_cleanup now session_id st =
     (case find_index (\<lambda>p. prof_id p = session_id) (st_profiles st) of
        None \<Rightarrow> (st, Inl (UnknownSession session_id))
      | Some i \<Rightarrow>
          if list_ex (\<lambda>r. rt_session_id r = session_id \<and> \<not> inactive (rt_status r)) (st_runtimes st)
          then (st, Inl SessionNotDisconnected)
          else if list_ex (\<lambda>t. tft_session_id t = session_id \<and>
                                (tft_status t = Queued \<or> tft_status t = Running)) (st_transfers st)
          then (st, Inl ActiveTransfer)
          else
            (st\<lparr>st_profiles := take i (st_profiles st) @ drop (Suc i) (st_profiles st),
                st_runtimes := filter (\<lambda>r. rt_session_id r \<noteq> session_id) (st_runtimes st),
                st_events := filter (\<lambda>e. ev_session_id e \<noteq> session_id) (st_events st),
                st_event_counts := (st_event_counts st)(session_id := None),
                st_terminal_screens := (st_terminal_screens st)(session_id := None),
                st_transfers := filter (\<lambda>t. tft_session_id t \<noteq> session_id) (st_transfers st),
                st_timeline := filter (\<lambda>m. tlm_session_id m \<noteq> session_id) (st_timeline st),
                st_sysmon := filter (\<lambda>s. sms_session_id s \<noteq> session_id) (st_sysmon st),
                st_host_keys := (st_host_keys st)\<lparr>hks_keys :=
                  forget_host_keys session_id (hks_keys (st_host_keys st))\<rparr>,
                st_one_keys := map (one_key_forget_session session_id now) (st_one_keys st),
                st_grants := map (grant_forget_session session_id now) (st_grants st)\<rparr>,
             Inr (st_profiles st ! i)))"

definition delete_profile ::
  "time \<Rightarrow> ustr \<Rightarrow> 'vt SessionStore \<Rightarrow> 'vt SessionStore \<times> (StoreError + SessionProfile)" where
  "delete_profile now session_id st =
     (case delete_profile_deferred_system_event_cleanup now session_id st of
        (st, Inl e) \<Rightarrow> (st, Inl e)
      | (st, Inr profile) \<Rightarrow> (discard_system_events_for_session session_id st, Inr profile))"

section \<open>The normal form of a disconnect reason\<close>

text \<open>The words of a text, joined by single spaces.\<close>

definition collapse_whitespace :: "ustr \<Rightarrow> ustr" where
  "collapse_whitespace s = join_str [chr CHR '' ''] (split_whitespace s)"

text \<open>What the loop appends for the remaining characters.\<close>

fun reason_rest :: "bool \<Rightarrow> ustr \<Rightarrow> ustr" where
  "reason_rest p [] = []"
| "reason_rest p (c # cs) =
     (if is_whitespace c then reason_rest True cs
      else (if p then [chr CHR '' ''] else []) @ c # reason_rest False cs)"

lemma reason_rest_words:
  "reason_rest True cs = concat (map (\<lambda>w. chr CHR '' '' # w) (split_whitespace cs)) \<and>
   reason_rest False cs = hd (split_by is_whitespace cs) @
     concat (map (\<lambda>w. chr CHR '' '' # w) (filter (\<lambda>w. w \<noteq> []) (tl (split_by is_whitespace cs))))"
proof (induction cs)
  case Nil
  then show ?case by (simp add: split_whitespace_def)
next
  case (Cons c cs)
  then show ?case
    by (cases "split_by is_whitespace cs") (auto simp add: split_whitespace_def)
qed

lemma join_str_Cons: "join_str [c] (w # ws) = w @ concat (map (\<lambda>w. c # w) ws)"
  by (induction ws arbitrary: w) auto

lemma collapse_whitespace_simps:
  "collapse_whitespace [] = []"
  "is_whitespace c \<Longrightarrow> collapse_whitespace (c # cs) = collapse_whitespace cs"
  "\<not> is_whitespace c \<Longrightarrow> collapse_whitespace (c # cs) = c # reason_rest False cs"
proof -
  show "\<not> is_whitespace c \<Longrightarrow> collapse_whitespace (c # cs) = c # reason_rest False cs"
    using reason_rest_words [of cs]
    by (cases "split_by is_whitespace cs")
       (auto simp add: collapse_whitespace_def split_whitespace_def join_str_Cons)
qed (simp_all add: collapse_whitespace_def split_whitespace_def)

lemma reason_loop_from:
  assumes "n \<noteq> []" "length n \<le> 256"
  shows "reason_loop cs n (length n) p =
    (let w = n @ reason_rest p cs in (take 256 w, min 256 (length w), 256 < length w))"
  using assms
proof (induction cs arbitrary: n p)
  case Nil
  then show ?case by simp
next
  case (Cons c cs)
  show ?case
  proof (cases "is_whitespace c")
    case True
    then show ?thesis using Cons by simp
  next
    case False
    then show ?thesis
      using Cons.prems Cons.IH [of "n @ [c]" False] Cons.IH [of "n @ [chr CHR '' '', c]" False]
      by (auto simp add: Let_def take_Cons')
  qed
qed

lemma reason_loop_eq:
  "reason_loop cs [] 0 False =
    (let w = collapse_whitespace cs in (take 256 w, min 256 (length w), 256 < length w))"
proof (induction cs)
  case Nil
  then show ?case by (simp add: collapse_whitespace_simps)
next
  case (Cons c cs)
  then show ?case
    using reason_loop_from [of "[c]" cs False] by (simp add: collapse_whitespace_simps)
qed

lemma pop_to_eq: "length s = n \<Longrightarrow> pop_to l s n = take l s"
  by (induction n arbitrary: s) (auto simp add: butlast_conv_take)

lemma normalize_reason_eq:
  "normalize_session_disconnect_reason value =
    (let w = collapse_whitespace value
     in if w = [] then None
        else if length w \<le> 256 then Some w
        else Some (take 253 w @ str ''...''))"
  by (simp add: normalize_session_disconnect_reason_def reason_loop_eq Let_def pop_to_eq min_def)

lemma normalize_reason_length:
  "normalize_session_disconnect_reason value = Some r \<Longrightarrow> r \<noteq> [] \<and> length r \<le> 256"
  by (auto simp add: normalize_reason_eq Let_def split: if_splits)

section \<open>Summaries: facts\<close>

text \<open>The text lines the log holds for a session.\<close>

definition session_texts :: "SessionEvent list \<Rightarrow> ustr \<Rightarrow> ustr list" where
  "session_texts es sid = List.map_filter ev_text (of_key ev_session_id sid es)"

lemma session_texts_snoc:
  "session_texts (es @ [e]) sid =
     session_texts es sid @
     (case ev_text e of None \<Rightarrow> [] | Some t \<Rightarrow> if ev_session_id e = sid then [t] else [])"
  by (auto simp add: session_texts_def map_filter_def split: option.splits)

lemma log_stats_eq:
  "log_stats es sid =
     (let ts = session_texts es sid
      in if ts = [] then None else Some (length ts, Some (last ts)))"
proof (induction es rule: rev_induct)
  case Nil
  then show ?case by (simp add: log_stats_def session_texts_def map_filter_def)
next
  case (snoc e es)
  then show ?case
    by (auto simp add: log_stats_def log_stats_step_def Let_def session_texts_snoc
        split: option.splits if_splits)
qed

definition summary_of :: "'vt SessionStore \<Rightarrow> SessionProfile \<Rightarrow> SessionRuntime \<Rightarrow> SessionSummary" where
  "summary_of st p r =
     (let ts = session_texts (st_events st) (prof_id p)
      in \<lparr>sum_profile = p, sum_runtime = r, sum_log_lines = length ts,
          sum_last_line = (if ts = [] then None else Some (last ts))\<rparr>)"

lemma summaries_eq:
  "summaries st =
     List.map_filter (\<lambda>p. map_option (summary_of st p) (find_runtime st (prof_id p))) (st_profiles st)"
proof -
  have stats: "(case log_stats (st_events st) (prof_id p) of None \<Rightarrow> (0, None) | Some e \<Rightarrow> e) =
      (let ts = session_texts (st_events st) (prof_id p)
       in (length ts, if ts = [] then None else Some (last ts)))" for p
    by (simp add: log_stats_eq Let_def)
  show ?thesis by (simp add: summaries_def Let_def stats summary_of_def [abs_def])
qed

lemma summary_of_sel [simp]:
  "sum_profile (summary_of st p r) = p" "sum_runtime (summary_of st p r) = r"
  by (simp_all add: summary_of_def Let_def)

lemma find_map_filter_key:
  assumes "\<And>p r. f (h p r) = key p"
  shows "List.find (\<lambda>s. f s = k) (List.map_filter (\<lambda>p. map_option (h p) (R (key p))) ps) =
    (case List.find (\<lambda>p. key p = k) ps of
       None \<Rightarrow> None | Some p \<Rightarrow> map_option (h p) (R k))"
proof (induction ps)
  case Nil
  then show ?case by (simp add: map_filter_simps)
next
  case (Cons p ps)
  have "R k = None \<Longrightarrow> List.find (\<lambda>s. f s = k) (List.map_filter (\<lambda>p. map_option (h p) (R (key p))) ps) = None"
    using assms by (induction ps) (auto simp add: map_filter_simps split: option.splits)
  then show ?case using Cons assms
    by (auto simp add: map_filter_simps split: option.splits)
qed

lemma find_summary_eq:
  "find_summary st sid =
     (case store_profile st sid of
        None \<Rightarrow> None
      | Some p \<Rightarrow> map_option (summary_of st p) (find_runtime st sid))"
  by (simp add: find_summary_def summaries_eq store_profile_def
      find_map_filter_key [where f = "\<lambda>s. prof_id (sum_profile s)" and key = prof_id
        and R = "find_runtime st"])

section \<open>One runtime per profile\<close>

definition runtime_ok :: "SessionRuntime \<Rightarrow> bool" where
  "runtime_ok r \<longleftrightarrow>
     (rt_connected_since r \<noteq> None \<longleftrightarrow> rt_status r = Connected) \<and>
     rt_pane_id r = main_pane (rt_session_id r) \<and>
     (rt_last_disconnect r = None \<longleftrightarrow> rt_last_disconnect_reason r = None) \<and>
     (case rt_last_disconnect_reason r of
        None \<Rightarrow> True | Some reason \<Rightarrow> reason \<noteq> [] \<and> length reason \<le> 256)"

definition registry_ok :: "SessionProfile list \<Rightarrow> SessionRuntime list \<Rightarrow> bool" where
  "registry_ok ps rs \<longleftrightarrow>
     distinct (map prof_id ps) \<and> distinct (map rt_session_id rs) \<and>
     rt_session_id ` set rs = prof_id ` set ps \<and> list_all runtime_ok rs"

lemma apply_runtime_health_sel [simp]:
  "rt_session_id (apply_runtime_health p s reason r) = rt_session_id r"
  "rt_pane_id (apply_runtime_health p s reason r) = rt_pane_id r"
  "rt_status (apply_runtime_health p s reason r) = rt_status r"
  "rt_connected_since (apply_runtime_health p s reason r) = rt_connected_since r"
  "rt_title (apply_runtime_health p s reason r) = rt_title r"
  "rt_active_transport (apply_runtime_health p s reason r) = rt_active_transport r"
  "rt_last_activity (apply_runtime_health p s reason r) = rt_last_activity r"
  by (simp_all add: apply_runtime_health_def Let_def)

lemma apply_runtime_health_last:
  "rt_last_disconnect (apply_runtime_health p s reason r) =
     (if runtime_outage_status s
      then if (\<exists>s. p = Some s \<and> runtime_outage_status s) \<and> rt_last_disconnect r \<noteq> None
           then rt_last_disconnect r else Some (rt_last_activity r)
      else rt_last_disconnect r)"
  "rt_last_disconnect_reason (apply_runtime_health p s reason r) =
     (if runtime_outage_status s
      then Some (case Option.bind reason normalize_session_disconnect_reason of
                   Some r \<Rightarrow> r | None \<Rightarrow> default_reason s)
      else rt_last_disconnect_reason r)"
  by (auto simp add: apply_runtime_health_def Let_def split: option.splits)

lemma default_reason_length: "default_reason s \<noteq> [] \<and> length (default_reason s) \<le> 256"
  by (simp add: default_reason_def split: SessionStatus.splits)

lemma recorded_reason_length:
  assumes "t = (case Option.bind reason normalize_session_disconnect_reason of
                 Some r \<Rightarrow> r | None \<Rightarrow> default_reason status)"
  shows "t \<noteq> [] \<and> length t \<le> 256"
  using assms default_reason_length [of status] normalize_reason_length
  by (auto simp add: bind_eq_Some_conv split: option.splits)

lemma apply_runtime_health_ok:
  assumes "(rt_connected_since r \<noteq> None) = (rt_status r = Connected)"
    "rt_pane_id r = main_pane (rt_session_id r)"
    "rt_last_disconnect r = None \<longleftrightarrow> rt_last_disconnect_reason r = None"
    "case rt_last_disconnect_reason r of
       None \<Rightarrow> True | Some reason \<Rightarrow> reason \<noteq> [] \<and> length reason \<le> 256"
  shows "runtime_ok (apply_runtime_health p s reason r)"
  using assms recorded_reason_length [OF refl, of s reason]
  by (auto simp add: runtime_ok_def apply_runtime_health_last)

lemma list_all_update_first:
  assumes "list_all Q xs" "\<And>x. Q x \<Longrightarrow> P x \<Longrightarrow> Q (f x)"
  shows "list_all Q (update_first P f xs)"
  using assms by (induction xs) auto

lemma image_update_first:
  assumes "\<And>x. P x \<Longrightarrow> g (f x) = g x"
  shows "g ` set (update_first P f xs) = g ` set xs"
  using map_update_first [of P g f xs] assms by (metis list.set_map)

text \<open>Updating the runtime of a session in place, or its profile, keeps the registry.\<close>

lemma registry_update_runtime:
  assumes "registry_ok ps rs" "\<And>r. rt_session_id (f r) = rt_session_id r"
    "\<And>r. runtime_ok r \<Longrightarrow> runtime_ok (f r)"
  shows "registry_ok ps (update_first P f rs)"
proof -
  have m: "map rt_session_id (update_first P f rs) = map rt_session_id rs"
    using assms(2) by (simp add: map_update_first)
  then show ?thesis
    using assms by (auto simp add: registry_ok_def image_update_first intro!: list_all_update_first)
qed

lemma registry_update_profile:
  assumes "registry_ok ps rs"
  shows "registry_ok (update_first (\<lambda>p. prof_id p = prof_id q) (\<lambda>_. q) ps) rs"
proof -
  have m: "map prof_id (update_first (\<lambda>p. prof_id p = prof_id q) (\<lambda>_. q) ps) = map prof_id ps"
    by (rule map_update_first) simp
  then show ?thesis using assms by (simp add: registry_ok_def image_update_first)
qed

lemma find_runtime_None_iff: "find_runtime st sid = None \<longleftrightarrow> sid \<notin> rt_session_id ` set (st_runtimes st)"
  by (auto simp add: find_runtime_def find_eq_None_iff)

lemma registry_find_runtime:
  assumes "registry_ok (st_profiles st) (st_runtimes st)"
  shows "find_runtime st sid = None \<longleftrightarrow> \<not> has_profile st sid"
  using assms by (simp add: find_runtime_None_iff has_profile_iff registry_ok_def)

subsection \<open>The operations keep the registry\<close>

lemma upsert_profile_sel [simp]:
  "st_timeline (fst (upsert_profile now p st)) =
     st_timeline st"
  "st_sysmon (fst (upsert_profile now p st)) =
     st_sysmon st"
  "st_command_history_revision (fst (upsert_profile now p st)) =
     st_command_history_revision st"
  "st_host_keys (fst (upsert_profile now p st)) =
     st_host_keys st"
  "st_one_keys (fst (upsert_profile now p st)) =
     st_one_keys st"
  "st_events (fst (upsert_profile now p st)) = st_events st"
  "st_event_counts (fst (upsert_profile now p st)) = st_event_counts st"
  "st_terminal_screens (fst (upsert_profile now p st)) = st_terminal_screens st"
  "st_transfers (fst (upsert_profile now p st)) = st_transfers st"
  "st_audit (fst (upsert_profile now p st)) = st_audit st"
  "st_grants (fst (upsert_profile now p st)) = st_grants st"
  "st_sink (fst (upsert_profile now p st)) = st_sink st"
  by (simp_all add: upsert_profile_def Let_def split: option.splits)

lemma upsert_profile_profiles:
  "st_profiles (fst (upsert_profile now p st)) =
     (if has_profile st (prof_id p)
      then update_first (\<lambda>q. prof_id q = prof_id p) (\<lambda>_. p) (st_profiles st)
      else st_profiles st @ [p])"
  by (simp add: upsert_profile_def Let_def split: option.splits)

lemma upsert_profile_ids:
  "prof_id ` set (st_profiles (fst (upsert_profile now p st))) =
     insert (prof_id p) (prof_id ` set (st_profiles st))"
proof (cases "has_profile st (prof_id p)")
  case True
  then show ?thesis
    by (auto simp add: upsert_profile_profiles has_profile_iff image_update_first)
qed (simp add: upsert_profile_profiles)

lemma upsert_profile_runtimes:
  "st_runtimes (fst (upsert_profile now p st)) =
     (if find_runtime st (prof_id p) \<noteq> None
      then update_first (\<lambda>r. rt_session_id r = prof_id p)
        (\<lambda>r. r\<lparr>rt_title := prof_name p,
               rt_active_transport :=
                 (if inactive (rt_status r) then prof_kind p else rt_active_transport r),
               rt_last_activity := now\<rparr>) (st_runtimes st)
      else st_runtimes st @
        [\<lparr>rt_session_id = prof_id p, rt_pane_id = main_pane (prof_id p),
          rt_status = Disconnected, rt_title = prof_name p, rt_cwd = None,
          rt_connected_since = None, rt_last_activity = now,
          rt_last_disconnect = None, rt_last_disconnect_reason = None,
          rt_active_transport = prof_kind p\<rparr>])"
  by (auto simp add: upsert_profile_def Let_def find_runtime_def split: option.splits)

lemma upsert_profile_registry:
  assumes "registry_ok (st_profiles st) (st_runtimes st)"
  shows "registry_ok (st_profiles (fst (upsert_profile now p st)))
    (st_runtimes (fst (upsert_profile now p st)))"
proof (cases "has_profile st (prof_id p)")
  case True
  then have "find_runtime st (prof_id p) \<noteq> None" using registry_find_runtime [OF assms] by blast
  with True show ?thesis
    using registry_update_profile [OF assms, of p]
    by (simp only: upsert_profile_profiles upsert_profile_runtimes if_True not_False_eq_True)
       (rule registry_update_runtime, simp_all add: runtime_ok_def)
next
  case False
  then have "find_runtime st (prof_id p) = None" using registry_find_runtime [OF assms] by blast
  with False show ?thesis using assms
    by (auto simp add: upsert_profile_profiles upsert_profile_runtimes registry_ok_def runtime_ok_def
        has_profile_iff)
qed

lemma find_runtime_upsert: "find_runtime (fst (upsert_profile now p st)) (prof_id p) \<noteq> None"
  by (simp add: find_runtime_None_iff upsert_profile_runtimes image_update_first)

lemma set_runtime_status_cases:
  obtains (unknown) "\<not> has_profile st sid"
    "set_runtime_status_with_reason now sid status reason st = (st, Inl (UnknownSession sid))"
  | (known) p rs where "store_profile st sid = Some p"
    "rs = st_runtimes (fst (set_runtime_status_with_reason now sid status reason st))"
    "set_runtime_status_with_reason now sid status reason st =
      (st\<lparr>st_runtimes := rs\<rparr>, summary_for (st\<lparr>st_runtimes := rs\<rparr>) sid)"
proof (cases "store_profile st sid")
  case None
  then have "set_runtime_status_with_reason now sid status reason st = (st, Inl (UnknownSession sid))"
    by (simp add: set_runtime_status_with_reason_def)
  then show ?thesis using unknown None by (simp add: store_profile_None_iff)
next
  case (Some p)
  then show ?thesis
    using known [OF Some refl]
    by (cases "find_runtime st sid") (simp_all add: set_runtime_status_with_reason_def Let_def)
qed

lemma set_runtime_status_sel [simp]:
  "st_timeline (fst (set_runtime_status_with_reason now sid status reason st)) =
     st_timeline st"
  "st_sysmon (fst (set_runtime_status_with_reason now sid status reason st)) =
     st_sysmon st"
  "st_command_history_revision (fst (set_runtime_status_with_reason now sid status reason st)) =
     st_command_history_revision st"
  "st_host_keys (fst (set_runtime_status_with_reason now sid status reason st)) =
     st_host_keys st"
  "st_one_keys (fst (set_runtime_status_with_reason now sid status reason st)) =
     st_one_keys st"
  "st_profiles (fst (set_runtime_status_with_reason now sid status reason st)) = st_profiles st"
  "st_events (fst (set_runtime_status_with_reason now sid status reason st)) = st_events st"
  "st_event_counts (fst (set_runtime_status_with_reason now sid status reason st)) = st_event_counts st"
  "st_terminal_screens (fst (set_runtime_status_with_reason now sid status reason st)) =
     st_terminal_screens st"
  "st_transfers (fst (set_runtime_status_with_reason now sid status reason st)) = st_transfers st"
  "st_audit (fst (set_runtime_status_with_reason now sid status reason st)) = st_audit st"
  "st_grants (fst (set_runtime_status_with_reason now sid status reason st)) = st_grants st"
  "st_sink (fst (set_runtime_status_with_reason now sid status reason st)) = st_sink st"
  by (cases rule: set_runtime_status_cases [of st sid now status reason]; simp)+

lemma set_runtime_status_registry:
  assumes "registry_ok (st_profiles st) (st_runtimes st)"
  shows "registry_ok (st_profiles (fst (set_runtime_status_with_reason now sid status reason st)))
    (st_runtimes (fst (set_runtime_status_with_reason now sid status reason st)))"
proof (cases "store_profile st sid")
  case None
  then show ?thesis using assms by (simp add: set_runtime_status_with_reason_def)
next
  case (Some p)
  then have "find_runtime st sid \<noteq> None"
    using registry_find_runtime [OF assms] by (metis option.distinct(1) store_profile_None_iff)
  then obtain r where "find_runtime st sid = Some r" by blast
  with Some show ?thesis
    by (simp add: set_runtime_status_with_reason_def Let_def)
       (rule registry_update_runtime [OF assms], simp,
        rule apply_runtime_health_ok, auto simp add: runtime_ok_def)
qed

text \<open>The runtime of a known session after a status change.\<close>

lemma set_runtime_status_runtime:
  assumes "store_profile st sid = Some p" "find_runtime st sid = Some r"
  shows "find_runtime (fst (set_runtime_status_with_reason now sid status reason st)) sid =
    Some (apply_runtime_health (Some (rt_status r)) status reason
      (r\<lparr>rt_status := status, rt_title := prof_name p,
         rt_connected_since :=
           (if status = Connected
            then Some (case rt_connected_since r of Some t \<Rightarrow> t | None \<Rightarrow> now) else None),
         rt_last_activity := now, rt_active_transport := prof_kind p\<rparr>))"
  using assms
  by (simp add: set_runtime_status_with_reason_def Let_def find_runtime_def find_update_first)

lemma push_system_event_sel [simp]:
  "st_timeline (fst (push_system_event chan u now sid text st)) =
     st_timeline st"
  "st_sysmon (fst (push_system_event chan u now sid text st)) =
     st_sysmon st"
  "st_command_history_revision (fst (push_system_event chan u now sid text st)) =
     st_command_history_revision st"
  "st_host_keys (fst (push_system_event chan u now sid text st)) =
     st_host_keys st"
  "st_one_keys (fst (push_system_event chan u now sid text st)) =
     st_one_keys st"
  "st_terminal_screens (fst (push_system_event chan u now sid text st)) =
     st_terminal_screens st"
  "st_profiles (fst (push_system_event chan u now sid text st)) = st_profiles st"
  "st_runtimes (fst (push_system_event chan u now sid text st)) = st_runtimes st"
  "st_transfers (fst (push_system_event chan u now sid text st)) = st_transfers st"
  "st_audit (fst (push_system_event chan u now sid text st)) = st_audit st"
  "st_grants (fst (push_system_event chan u now sid text st)) = st_grants st"
  by (simp_all add: push_system_event_def Let_def split: option.splits prod.splits)

lemma open_session_registry:
  assumes "registry_ok (st_profiles st) (st_runtimes st)"
  shows "registry_ok (st_profiles (fst (open_session chan u now now' sid st)))
    (st_runtimes (fst (open_session chan u now now' sid st)))"
proof -
  obtain st1 r where st1: "set_runtime_status_with_reason now sid Connected None st = (st1, r)"
    by (cases "set_runtime_status_with_reason now sid Connected None st")
  then have "registry_ok (st_profiles st1) (st_runtimes st1)"
    using set_runtime_status_registry [OF assms, of now sid Connected None] by simp
  then show ?thesis
    using st1 assms
    by (simp add: open_session_def set_runtime_status_def Let_def split: option.splits sum.splits)
qed

lemma close_session_registry:
  assumes "registry_ok (st_profiles st) (st_runtimes st)"
  shows "registry_ok (st_profiles (fst (close_session chan u now now' sid st)))
    (st_runtimes (fst (close_session chan u now now' sid st)))"
proof (cases "has_profile st sid")
  case True
  then show ?thesis
    by (simp add: close_session_def Let_def)
       (rule registry_update_runtime [OF assms], simp,
        rule apply_runtime_health_ok, auto simp add: runtime_ok_def)
qed (simp add: close_session_def assms)

subsection \<open>Deletion\<close>

lemma find_index_eq_None_iff: "find_index P xs = None \<longleftrightarrow> (\<forall>x \<in> set xs. \<not> P x)"
  by (induction xs) auto

lemma find_index_SomeD:
  "find_index P xs = Some i \<Longrightarrow>
     i < length xs \<and> P (xs ! i) \<and> (\<forall>j < i. \<not> P (xs ! j)) \<and> List.find P xs = Some (xs ! i)"
proof (induction xs arbitrary: i)
  case (Cons x xs)
  show ?case
  proof (cases "P x")
    case False
    with Cons.prems obtain k where k: "find_index P xs = Some k" "i = Suc k" by auto
    then show ?thesis using Cons.IH [OF k(1)] False by (auto simp add: less_Suc_eq_0_disj)
  qed (use Cons.prems in auto)
qed simp

text \<open>With distinct keys, removing the position of a key removes exactly its entry.\<close>

lemma remove_index_filter:
  assumes "find_index (\<lambda>x. key x = k) xs = Some i" "distinct (map key xs)"
  shows "take i xs @ drop (Suc i) xs = filter (\<lambda>x. key x \<noteq> k) xs"
  using assms
proof (induction xs arbitrary: i)
  case (Cons x xs)
  show ?case
  proof (cases "key x = k")
    case True
    then have "filter (\<lambda>x. key x \<noteq> k) xs = xs"
      using Cons.prems(2) by (simp add: filter_id_conv) (metis image_eqI)
    then show ?thesis using True Cons.prems(1) by simp
  next
    case False
    with Cons.prems(1) obtain j where "find_index (\<lambda>x. key x = k) xs = Some j" "i = Suc j" by auto
    then show ?thesis using False Cons by simp
  qed
qed simp

text \<open>When deletion is refused, and what it leaves of the state it reads.\<close>

definition deletable :: "'vt SessionStore \<Rightarrow> ustr \<Rightarrow> bool" where
  "deletable st sid \<longleftrightarrow>
     has_profile st sid \<and>
     (\<forall>r \<in> set (st_runtimes st). rt_session_id r = sid \<longrightarrow> inactive (rt_status r)) \<and>
     (\<forall>t \<in> set (st_transfers st). tft_session_id t = sid \<longrightarrow> tft_status t \<notin> {Queued, Running})"

lemma delete_deferred_refused:
  assumes "\<not> deletable st sid"
  shows "\<exists>e. delete_profile_deferred_system_event_cleanup now sid st = (st, Inl e)"
  using assms
  by (auto simp add: delete_profile_deferred_system_event_cleanup_def deletable_def list_ex_iff
      has_profile_iff find_index_eq_None_iff split: option.splits)

lemma delete_deferred_done:
  assumes "deletable st sid"
  obtains i where "find_index (\<lambda>p. prof_id p = sid) (st_profiles st) = Some i"
    "delete_profile_deferred_system_event_cleanup now sid st =
      (st\<lparr>st_profiles := take i (st_profiles st) @ drop (Suc i) (st_profiles st),
          st_runtimes := filter (\<lambda>r. rt_session_id r \<noteq> sid) (st_runtimes st),
          st_events := filter (\<lambda>e. ev_session_id e \<noteq> sid) (st_events st),
          st_event_counts := (st_event_counts st)(sid := None),
          st_terminal_screens := (st_terminal_screens st)(sid := None),
          st_transfers := filter (\<lambda>t. tft_session_id t \<noteq> sid) (st_transfers st),
          st_timeline := filter (\<lambda>m. tlm_session_id m \<noteq> sid) (st_timeline st),
          st_sysmon := filter (\<lambda>s. sms_session_id s \<noteq> sid) (st_sysmon st),
          st_host_keys := (st_host_keys st)\<lparr>hks_keys :=
            forget_host_keys sid (hks_keys (st_host_keys st))\<rparr>,
          st_one_keys := map (one_key_forget_session sid now) (st_one_keys st),
          st_grants := map (grant_forget_session sid now) (st_grants st)\<rparr>,
       Inr (st_profiles st ! i))"
proof -
  obtain i where i: "find_index (\<lambda>p. prof_id p = sid) (st_profiles st) = Some i"
    using assms find_index_eq_None_iff [of "\<lambda>p. prof_id p = sid" "st_profiles st"]
    by (cases "find_index (\<lambda>p. prof_id p = sid) (st_profiles st)")
       (auto simp add: deletable_def has_profile_iff)
  have "\<not> list_ex (\<lambda>r. rt_session_id r = sid \<and> \<not> inactive (rt_status r)) (st_runtimes st)"
    and "\<not> list_ex (\<lambda>t. tft_session_id t = sid \<and> (tft_status t = Queued \<or> tft_status t = Running))
      (st_transfers st)"
    using assms by (auto simp add: deletable_def list_ex_iff)
  then show ?thesis
    by (intro that [OF i]) (simp add: delete_profile_deferred_system_event_cleanup_def i)
qed

lemma delete_profile_fst:
  "fst (delete_profile now sid st) =
     (let st' = fst (delete_profile_deferred_system_event_cleanup now sid st)
      in if deletable st sid then discard_system_events_for_session sid st' else st')"
proof (cases "deletable st sid")
  case True
  then show ?thesis by (rule delete_deferred_done [of st sid now]) (simp add: delete_profile_def True)
next
  case False
  then show ?thesis using delete_deferred_refused [OF False, of now] by (auto simp add: delete_profile_def)
qed

lemma delete_registry:
  assumes "registry_ok (st_profiles st) (st_runtimes st)"
  shows "registry_ok (st_profiles (fst (delete_profile_deferred_system_event_cleanup now sid st)))
    (st_runtimes (fst (delete_profile_deferred_system_event_cleanup now sid st)))"
proof (cases "deletable st sid")
  case True
  from True obtain i where i: "find_index (\<lambda>p. prof_id p = sid) (st_profiles st) = Some i"
    and eq: "st_profiles (fst (delete_profile_deferred_system_event_cleanup now sid st)) =
      take i (st_profiles st) @ drop (Suc i) (st_profiles st)"
    "st_runtimes (fst (delete_profile_deferred_system_event_cleanup now sid st)) =
      filter (\<lambda>r. rt_session_id r \<noteq> sid) (st_runtimes st)"
    by (rule delete_deferred_done [of st sid now]) simp
  have "take i (st_profiles st) @ drop (Suc i) (st_profiles st) =
      filter (\<lambda>p. prof_id p \<noteq> sid) (st_profiles st)"
    using i assms by (intro remove_index_filter) (auto simp add: registry_ok_def)
  moreover have "rt_session_id ` set (filter (\<lambda>r. rt_session_id r \<noteq> sid) (st_runtimes st)) =
      prof_id ` set (filter (\<lambda>p. prof_id p \<noteq> sid) (st_profiles st))"
    using assms by (auto simp add: registry_ok_def image_iff set_eq_iff)
  ultimately show ?thesis
    using assms eq by (auto simp add: registry_ok_def distinct_map_filter list_all_iff)
next
  case False
  then show ?thesis using delete_deferred_refused [OF False, of now] assms by auto
qed

end
