(* ===== verification/Store_Security.thy ===== *)
theory Store_Security
  imports Store_Sessions
begin

text \<open>
  The security operations of the store (\<open>store/security.rs\<close>) and the session bundle
  (\<open>store/exports.rs\<close>): remembering the authentication method that worked, evaluating and
  deciding on host keys, authorising MCP clients, searching logs on their behalf, and exporting
  what the store knows of a session. \<open>authorized\<close> is the abstract reading of \<open>mcp_can\<close>: some
  live grant of the client has the scope and covers the session.
\<close>

definition record_auth_success ::
  "ustr \<Rightarrow> AuthMethod \<Rightarrow> 'vt SessionStore \<Rightarrow> 'vt SessionStore \<times> (StoreError + unit)" where
  "record_auth_success session_id method st =
     (let remember = (\<lambda>ssh.
            let policy = ssh_identity_policy ssh
            in ssh\<lparr>ssh_identity_policy := policy\<lparr>idp_last_successful :=
                 (if idp_record_success policy \<and> method \<in> set (idp_auth_order policy)
                  then Some method else None)\<rparr>\<rparr>);
          store_connection = (\<lambda>c.
            st\<lparr>st_profiles := update_first (\<lambda>p. prof_id p = session_id)
                 (\<lambda>p. p\<lparr>prof_connection := c\<rparr>) (st_profiles st)\<rparr>)
      in case store_profile st session_id of
           None \<Rightarrow> (st, Inl (UnknownSession session_id))
         | Some profile \<Rightarrow>
             (case prof_connection profile of
                ConnSsh ssh \<Rightarrow> (store_connection (ConnSsh (remember ssh)), Inr ())
              | ConnTmux ssh \<Rightarrow> (store_connection (ConnTmux (remember ssh)), Inr ())
              | _ \<Rightarrow> (st, Inl (NotSshBacked session_id))))"

definition ssh_profile :: "'vt SessionStore \<Rightarrow> ustr \<Rightarrow> SshConnection option" where
  "ssh_profile st profile_id =
     Option.bind (store_profile st profile_id) (\<lambda>profile.
       case prof_connection profile of
         ConnSsh ssh \<Rightarrow> Some ssh
       | ConnTmux ssh \<Rightarrow> Some ssh
       | _ \<Rightarrow> None)"

definition evaluate_host_key ::
  "crypto \<Rightarrow> 'vt SessionStore \<Rightarrow> ustr \<Rightarrow> HostKeyObservation \<Rightarrow> StoreError + HostKeyEvaluation" where
  "evaluate_host_key cr st profile_id observation =
     and_then (ok_or (NotSshBacked profile_id)
         (map_option ssh_host_key_policy (ssh_profile st profile_id)))
       (\<lambda>policy. map_err HostKeyFailed
          (evaluate cr (st_host_keys st) profile_id policy observation))"

definition apply_host_key_decision ::
  "crypto \<Rightarrow> ustr \<times> time \<times> time \<Rightarrow> ustr \<Rightarrow> HostKeyObservation \<Rightarrow> HostKeyDecision
     \<Rightarrow> 'vt SessionStore \<Rightarrow> 'vt SessionStore \<times> (StoreError + TrustedHostKey option)" where
  "apply_host_key_decision cr fresh profile_id observation decision st =
     (case map_option ssh_host_key_policy (ssh_profile st profile_id) of
        None \<Rightarrow> (st, Inl (NotSshBacked profile_id))
      | Some policy \<Rightarrow>
          let (hks, r) = apply_decision cr fresh (st_host_keys st) profile_id policy observation
                           decision
          in (st\<lparr>st_host_keys := hks\<rparr>, map_err HostKeyFailed r))"

section \<open>MCP authorisation\<close>

definition mcp_can :: "time \<Rightarrow> 'vt SessionStore \<Rightarrow> ustr \<Rightarrow> McpScope \<Rightarrow> ustr option \<Rightarrow> bool" where
  "mcp_can now st client_id scope session_id =
     list_ex (\<lambda>grant. grant_allows grant scope session_id now)
       (filter (\<lambda>grant. gr_client_id grant = client_id) (st_grants st))"

definition mcp_can_read :: "time \<Rightarrow> 'vt SessionStore \<Rightarrow> ustr \<Rightarrow> McpScope \<Rightarrow> ustr option \<Rightarrow> bool" where
  "mcp_can_read now st client_id scope session_id =
     (let client_id = trim client_id
      in client_id \<noteq> [] \<and> byte_len client_id \<le> 128 \<and> \<not> list_ex is_control client_id \<and>
         mcp_can now st client_id scope session_id)"

text \<open>\<open>clock i\<close> is the clock reading when the profile at position \<open>i\<close> is checked.\<close>

definition mcp_visible ::
  "(nat \<Rightarrow> time) \<Rightarrow> 'vt SessionStore \<Rightarrow> ustr \<Rightarrow> ustr option \<Rightarrow> ustr list" where
  "mcp_visible clock st client_id session_id =
     map (\<lambda>(i, profile). prof_id profile)
       (filter (\<lambda>(i, profile). mcp_can_read (clock i) st client_id ReadLogs (Some (prof_id profile)))
         (filter (\<lambda>(i, profile). case session_id of None \<Rightarrow> True | Some wanted \<Rightarrow> wanted = prof_id profile)
           (enumerate 0 (st_profiles st))))"

definition mcp_search_logs ::
  "(nat \<Rightarrow> time) \<Rightarrow> (ustr \<Rightarrow> ustr) \<Rightarrow> 'vt SessionStore \<Rightarrow> ustr \<Rightarrow> ustr \<Rightarrow> ustr option \<Rightarrow> nat
     \<Rightarrow> SessionEvent list" where
  "mcp_search_logs clock lower st client_id query session_id limit =
     (let visible = mcp_visible clock st client_id session_id
      in if visible = [] \<or> limit = 0 then []
         else search_logs_matching_sessions lower st query limit (\<lambda>i. i \<in> set visible))"

definition mcp_resolved_client_id :: "'vt SessionStore \<Rightarrow> ustr option \<Rightarrow> ustr" where
  "mcp_resolved_client_id st configured =
     (let stored = trim (mhs_client_id (st_mcp_http_settings st));
          given = Option.bind (map_option trim configured) (\<lambda>v. if v \<noteq> [] then Some v else None)
      in case given of
           Some v \<Rightarrow> v
         | None \<Rightarrow> if stored \<noteq> [] then stored else DEFAULT_MCP_HTTP_CLIENT_ID)"

section \<open>The session bundle\<close>

text \<open>The exported JSON object, field by field.\<close>

record SessionBundle =
  bun_summary :: "SessionSummary option"
  bun_events :: "SessionEvent list"
  bun_log_shards :: "ustr list"
  bun_timeline :: "TimelineMark list"
  bun_sysmon :: "SysmonSnapshot option"
  bun_transfers :: "TransferTask list"
  bun_audit :: "AuditRecord list"

definition export_session_bundle_with_redaction ::
  "(ustr \<Rightarrow> ustr) \<Rightarrow> 'vt SessionStore \<Rightarrow> ustr \<Rightarrow> bool \<Rightarrow> SessionBundle" where
  "export_session_bundle_with_redaction red st session_id redact_bundle =
     (let summary = find_summary st session_id;
          events = tail_log st session_id 500;
          timeline = timeline_for st session_id;
          transfers = filter (\<lambda>t. tft_session_id t = session_id) (st_transfers st);
          audit = filter (\<lambda>r. aud_session_id r = Some session_id) (st_audit st);
          sysmon = sysmon_for st session_id;
          (summary, events, timeline, transfers, audit, sysmon) =
            (if redact_bundle
             then (map_option (redact_session_summary red) summary,
                   redact_session_events red events, redact_timeline_marks red timeline,
                   map redact_transfer_task transfers, redact_audit_records red audit,
                   map_option redact_sysmon_snapshot sysmon)
             else (summary, events, timeline, transfers, audit, sysmon));
          log_shards = List.map_filter ev_bytes_ref events
      in \<lparr>bun_summary = summary, bun_events = events, bun_log_shards = log_shards,
          bun_timeline = timeline, bun_sysmon = sysmon, bun_transfers = transfers,
          bun_audit = audit\<rparr>)"

definition export_session_bundle :: "(ustr \<Rightarrow> ustr) \<Rightarrow> 'vt SessionStore \<Rightarrow> ustr \<Rightarrow> SessionBundle" where
  "export_session_bundle red st session_id =
     export_session_bundle_with_redaction red st session_id False"

definition export_session_bundle_redacted ::
  "(ustr \<Rightarrow> ustr) \<Rightarrow> 'vt SessionStore \<Rightarrow> ustr \<Rightarrow> SessionBundle" where
  "export_session_bundle_redacted red st session_id =
     export_session_bundle_with_redaction red st session_id True"

section \<open>Authorisation: facts\<close>

definition authorized :: "time \<Rightarrow> 'vt SessionStore \<Rightarrow> ustr \<Rightarrow> McpScope \<Rightarrow> ustr \<Rightarrow> bool" where
  "authorized now st client scope sid \<longleftrightarrow>
     (\<exists>g \<in> set (st_grants st). gr_client_id g = client \<and> grant_live g now \<and>
        grant_has_scope g scope \<and> sid \<in> grant_covers g)"

lemma mcp_can_session_iff:
  "mcp_can now st client scope (Some sid) \<longleftrightarrow> authorized now st client scope sid"
  by (auto simp add: mcp_can_def authorized_def list_ex_iff grant_allows_session_iff)

lemma mcp_can_map_grants:
  assumes "mcp_can t (st\<lparr>st_grants := map f (st_grants st)\<rparr>) client scope s"
    and "\<And>g. gr_client_id (f g) = gr_client_id g"
    and "\<And>g. grant_allows (f g) scope s t \<Longrightarrow> grant_allows g scope s t"
  shows "mcp_can t st client scope s"
  using assms by (auto simp add: mcp_can_def list_ex_iff)

lemma mcp_can_cong: "st_grants a = st_grants b \<Longrightarrow> mcp_can t a c scope s = mcp_can t b c scope s"
  by (simp add: mcp_can_def)

lemma set_mcp_visible:
  "set (mcp_visible clock st client wanted) =
     {prof_id p |i p. i < length (st_profiles st) \<and> p = st_profiles st ! i \<and>
        (wanted = None \<or> wanted = Some (prof_id p)) \<and>
        mcp_can_read (clock i) st client ReadLogs (Some (prof_id p))}"
  by (cases wanted) (auto simp add: mcp_visible_def in_set_enumerate_eq image_iff)

lemma search_logs_newest:
  "search_logs_matching_sessions lower st query limit ok =
     newest limit (\<lambda>e. ok (ev_session_id e) \<and>
        contains_str (lower (case ev_text e of Some t \<Rightarrow> t | None \<Rightarrow> [])) (lower query)) (st_events st)"
  by (simp add: search_logs_matching_sessions_def newest_def Let_def conj_commute)

lemma mcp_search_logs_newest:
  "mcp_search_logs clock lower st client query wanted limit =
     newest limit (\<lambda>e. ev_session_id e \<in> set (mcp_visible clock st client wanted) \<and>
        contains_str (lower (case ev_text e of Some t \<Rightarrow> t | None \<Rightarrow> [])) (lower query)) (st_events st)"
  by (auto simp add: mcp_search_logs_def Let_def search_logs_newest newest_def)

lemma tail_log_newest: "tail_log st sid limit = newest limit (\<lambda>e. ev_session_id e = sid) (st_events st)"
  by (simp add: tail_log_def newest_def)

end
