(* ===== verification/Store_Machine.thy ===== *)
theory Store_Machine
  imports Store_Security
begin

text \<open>
  The store as a state machine. \<open>store_step\<close> has one rule per operation of the store;
  \<open>reachable\<close> are the stores that a sequence of operations builds from the empty one, in any
  order and with any arguments, clock readings, channel answers and fresh identifiers. The
  invariant \<open>store_ok\<close> collects what the components promise: the registry of profiles and
  runtimes, the event log with its cache, and the bounds of the other histories and the outbox.
\<close>

definition histories_ok :: "'vt SessionStore \<Rightarrow> bool" where
  "histories_ok st \<longleftrightarrow>
     (\<forall>k. length (of_key aud_session_id k (st_audit st)) \<le> 5000 + 128) \<and>
     (\<forall>k. length (of_key tlm_session_id k (st_timeline st)) \<le> 2000 + 128) \<and>
     (\<forall>k. length (of_key sms_session_id k (st_sysmon st)) \<le> 1024 + 128) \<and>
     (\<forall>k. count_if (is_terminal_transfer k) (st_transfers st) \<le> 1000) \<and>
     st_command_history_revision st \<le> 9007199254740991 \<and>
     length (sink_outbox (st_sink st)) \<le> 4096"

definition store_ok :: "'vt SessionStore \<Rightarrow> bool" where
  "store_ok st \<longleftrightarrow>
     registry_ok (st_profiles st) (st_runtimes st) \<and> events_ok st \<and> histories_ok st"

inductive store_step :: "'vt SessionStore \<Rightarrow> 'vt SessionStore \<Rightarrow> bool" where
  upsert: "store_step st (fst (upsert_profile now p st))"
| status: "store_step st (fst (set_runtime_status_with_reason now sid status reason st))"
| open_s: "store_step st (fst (open_session chan u now now' sid st))"
| close_s: "store_step st (fst (close_session chan u now now' sid st))"
| delete: "store_step st (fst (delete_profile now sid st))"
| delete_deferred: "store_step st (fst (delete_profile_deferred_system_event_cleanup now sid st))"
| prepared: "store_step st (fst (record_prepared_event vt now e st))"
| system: "store_step st (fst (record_system_event_tracked chan u now sid text st))"
| send: "send_text_with_bytes_ref_and_audit_action rx ids now actor sid text bref action n st =
      Some (st', r) \<Longrightarrow> store_step st st'"
| audit: "store_step st (record_audit rec st)"
| timeline: "store_step st (record_timeline_mark mark st)"
| sysmon: "store_step st (record_sysmon_snapshot snap st)"
| transfer: "store_step st (record_transfer task st)"
| replace: "store_step st (fst (replace_command_history jl entries limit days now_ms st))"
| merge: "store_step st (fst (merge_command_history jl entries limit days now_ms st))"
| command: "store_step st (fst (record_command_history jl cmd s limit days now_ms st))"
| auth: "store_step st (fst (record_auth_success sid m st))"
| host_key: "store_step st (fst (apply_host_key_decision cr fresh sid obs decision st))"
| notifier: "store_step st (fst (set_system_event_notifier chan sender st))"
| no_notifier: "store_step st (clear_system_event_notifier st)"
| drained: "store_step st (fst (drain_system_event_outbox st))"
| discard_s: "store_step st (discard_system_events_for_session sid st)"
| discard_e: "store_step st (discard_queued_system_event eid st)"
| reset: "store_step st (reset_terminal_screen vt now sid st)"
| resize: "store_step st (resize_terminal_screen vt sid rows cols st)"
| normalise: "normalize_bounded_histories jl now_ms st = Some st' \<Longrightarrow> store_step st st'"

inductive reachable :: "'vt SessionStore \<Rightarrow> bool" where
  initial: "reachable default_store"
| step: "reachable st \<Longrightarrow> store_step st st' \<Longrightarrow> reachable st'"

section \<open>Frames\<close>

lemma registry_ok_touch:
  "registry_ok ps (st_runtimes st) \<Longrightarrow> registry_ok ps (st_runtimes (touch_runtime sid f st))"
  by (simp add: touch_runtime_def) (rule registry_update_runtime, simp_all add: runtime_ok_def)

lemma record_prepared_event_sel:
  "st_profiles (fst (record_prepared_event vt now e st)) = st_profiles st"
  "st_runtimes (fst (record_prepared_event vt now e st)) \<in>
     {st_runtimes st, st_runtimes (touch_runtime (ev_session_id e) (\<lambda>t. max t (ev_ts e)) st)}"
  "st_audit (fst (record_prepared_event vt now e st)) = st_audit st"
  "st_timeline (fst (record_prepared_event vt now e st)) = st_timeline st"
  "st_sysmon (fst (record_prepared_event vt now e st)) = st_sysmon st"
  "st_transfers (fst (record_prepared_event vt now e st)) = st_transfers st"
  "st_sink (fst (record_prepared_event vt now e st)) = st_sink st"
  "st_command_history_revision (fst (record_prepared_event vt now e st)) =
     st_command_history_revision st"
  by (simp_all add: record_prepared_event_def Let_def split: option.splits)

lemma histories_ok_cong:
  assumes "st_audit a = st_audit b" "st_timeline a = st_timeline b" "st_sysmon a = st_sysmon b"
    "st_transfers a = st_transfers b"
    "st_command_history_revision a = st_command_history_revision b"
    "length (sink_outbox (st_sink a)) \<le> 4096"
  shows "histories_ok b \<Longrightarrow> histories_ok a"
  using assms by (simp add: histories_ok_def)

lemma enqueue_length:
  "length (sink_outbox s) \<le> 4096 \<Longrightarrow> length (sink_outbox (fst (enqueue chan e s))) \<le> 4096"
  by (simp add: enqueue_outbox)

lemma push_system_event_histories_ok:
  assumes "histories_ok st"
  shows "histories_ok (fst (push_system_event chan u now sid text st))"
proof (rule histories_ok_cong [OF _ _ _ _ _ _ assms])
  show "length (sink_outbox (st_sink (fst (push_system_event chan u now sid text st)))) \<le> 4096"
    using assms
    by (auto simp add: push_system_event_def Let_def split_def histories_ok_def
        split: option.splits intro!: enqueue_length)
qed simp_all

lemma record_audit_histories_ok: "histories_ok st \<Longrightarrow> histories_ok (record_audit a st)"
  using audit_log.rec_bound [where s = st and x = a] by (simp add: histories_ok_def)

lemma record_timeline_mark_histories_ok:
  "histories_ok st \<Longrightarrow> histories_ok (record_timeline_mark m st)"
  using timeline_log.rec_bound [where s = st and x = m]
  by (simp add: histories_ok_def) (simp add: record_timeline_mark_def)

lemma record_sysmon_snapshot_histories_ok:
  "histories_ok st \<Longrightarrow> histories_ok (record_sysmon_snapshot m st)"
  using sysmon_log.rec_bound [where s = st and x = m]
  by (simp add: histories_ok_def) (simp add: record_sysmon_snapshot_def)

lemma count_if_subseq: "subseq xs ys \<Longrightarrow> count_if P xs \<le> count_if P ys"
  unfolding count_if_def by (rule list_emb_length [OF subseq_filter])

lemma trim_transfers_bound:
  "count_if (is_terminal_transfer k) (trim_transfers sid xs) \<le>
     (if k = sid then 1000 else count_if (is_terminal_transfer k) xs)"
  using count_if_subseq [OF subseq_trim_transfers]
  by (simp add: trim_transfers_count)

lemma record_transfer_histories_ok:
  assumes "histories_ok st"
  shows "histories_ok (record_transfer t st)"
proof -
  have "count_if (is_terminal_transfer k)
      (trim_transfers (tft_session_id t) (st_transfers st @ [t])) \<le> 1000" for k
    using trim_transfers_bound [of k "tft_session_id t" "st_transfers st @ [t]"] assms
    by (cases "k = tft_session_id t")
       (auto simp add: histories_ok_def is_terminal_transfer_def intro: order_trans)
  then show ?thesis
    using assms by (simp add: histories_ok_def record_transfer_def trim_transfer_history_def)
qed

lemma send_text_histories_ok:
  assumes "send_text_with_bytes_ref_and_audit_action rx ids now actor sid text bref action n st =
      Some (st', r)" "histories_ok st"
  shows "histories_ok st'"
proof -
  have "histories_ok (push_event e (touch_runtime sid f st))" for e f
    by (rule histories_ok_cong [OF _ _ _ _ _ _ assms(2)])
       (use assms(2) in \<open>simp_all add: histories_ok_def\<close>)
  then show ?thesis using assms
    by (auto simp add: record_audit_histories_ok send_text_with_bytes_ref_and_audit_action_def Let_def
        split: option.splits if_splits)
qed

lemma replace_command_history_frame:
  "fst (replace_command_history jl entries limit days now_ms st) =
     st\<lparr>st_command_history := st_command_history (fst (replace_command_history jl entries limit days now_ms st)),
        st_command_history_migrated :=
          st_command_history_migrated (fst (replace_command_history jl entries limit days now_ms st)),
        st_command_history_revision :=
          st_command_history_revision (fst (replace_command_history jl entries limit days now_ms st))\<rparr>"
  by (simp add: replace_command_history_def Let_def split: sum.splits)

text \<open>The revision stops at the largest integer a JavaScript client can represent.\<close>

lemma replace_command_history_revision:
  assumes "st_command_history_revision st \<le> 9007199254740991"
  shows "st_command_history_revision (fst (replace_command_history jl entries limit days now_ms st))
    \<le> 9007199254740991"
proof -
  have "r + 1 \<le> 9007199254740991" if "\<not> 9007199254740991 \<le> r" for r :: u64
    using that by (simp add: not_le inc_le)
  then show ?thesis using assms
    by (auto simp add: replace_command_history_def Let_def split: sum.splits)
qed

lemma replace_command_history_store_ok:
  assumes "store_ok st"
  shows "store_ok (fst (replace_command_history jl entries limit days now_ms st))"
proof -
  let ?t = "fst (replace_command_history jl entries limit days now_ms st)"
  have r: "st_command_history_revision ?t \<le> 9007199254740991"
    using assms by (intro replace_command_history_revision) (simp add: store_ok_def histories_ok_def)
  have "store_ok (st\<lparr>st_command_history := h, st_command_history_migrated := m,
      st_command_history_revision := v\<rparr>)" if "v \<le> 9007199254740991" for h m v
    using assms that
    by (simp add: store_ok_def histories_ok_def events_ok_def counts_ok_def session_count_def
        session_ids_def)
  from this [OF r] show ?thesis by (subst replace_command_history_frame)
qed

section \<open>Normalising a loaded store\<close>

lemma fold_trim_transfers_bound:
  "count_if (is_terminal_transfer k) (fold trim_transfers ks xs) \<le>
     (if k \<in> set ks then 1000 else count_if (is_terminal_transfer k) xs)"
proof (induction ks arbitrary: xs)
  case (Cons c ks)
  show ?case
    using Cons.IH [of "trim_transfers c xs"] trim_transfers_bound [of k c xs]
    by (auto split: if_splits)
qed simp

lemma trim_all_transfers_bound:
  "count_if (is_terminal_transfer k)
     (fold trim_transfers (remdups (map tft_session_id xs)) xs) \<le> 1000"
proof (cases "k \<in> tft_session_id ` set xs")
  case True
  then show ?thesis
    using fold_trim_transfers_bound [of k "remdups (map tft_session_id xs)" xs] by simp
next
  case False
  then have "count_if (is_terminal_transfer k) xs = 0"
    by (auto simp add: count_if_eq_0_iff is_terminal_transfer_def)
  then show ?thesis
    using False fold_trim_transfers_bound [of k "remdups (map tft_session_id xs)" xs] by simp
qed

lemma length_of_key_trim_all: "length (of_key key k (trim_all m key xs)) \<le> m"
  using length_keep_newest [of m 0 "of_key key k xs"] by (simp add: of_key_trim_all)

lemma revision_min: "min (r :: u64) (9007199254740991 - 1) < 9007199254740991"
  by (rule le_less_trans [OF min.cobounded2]) (simp add: word_less_nat_alt)

lemma normalize_bounded_histories_Some:
  obtains st' where "normalize_bounded_histories jl now_ms st = Some st'"
    "\<And>sid. of_key ev_session_id sid (st_events st') =
       keep_newest 5000 0 (of_key ev_session_id sid (st_events st))"
    "counts_ok st'" "dom (st_event_counts st') = ev_session_id ` set (st_events st')"
    "st_command_history_revision st' < 9007199254740991"
    "\<And>k. length (of_key aud_session_id k (st_audit st')) \<le> 5000"
    "\<And>k. length (of_key tlm_session_id k (st_timeline st')) \<le> 2000"
    "\<And>k. length (of_key sms_session_id k (st_sysmon st')) \<le> 1024"
    "\<And>k. count_if (is_terminal_transfer k) (st_transfers st') \<le> 1000"
    "st_profiles st' = st_profiles st" "st_runtimes st' = st_runtimes st"
    "st_terminal_screens st' = st_terminal_screens st" "st_sink st' = st_sink st"
proof -
  obtain kept where kept: "retain_remaining (count_sessions Map.empty (st_events st)) (st_events st) = Some kept"
    "\<forall>sid. of_key ev_session_id sid kept = keep_newest 5000 0 (of_key ev_session_id sid (st_events st))"
    using retain_counted_Some by blast
  define h where "h = (case normalized_command_history jl (st_command_history st) 10000 0 now_ms of
      Inr n \<Rightarrow> n | Inl _ \<Rightarrow> st_command_history st)"
  define st' where "st' = st\<lparr>
    st_command_history_revision := min (st_command_history_revision st) (9007199254740991 - 1),
    st_command_history := h, st_events := kept, st_event_counts := count_sessions Map.empty kept,
    st_audit := trim_all 5000 aud_session_id (st_audit st),
    st_timeline := trim_all 2000 tlm_session_id (st_timeline st),
    st_sysmon := trim_all 1024 sms_session_id (st_sysmon st),
    st_transfers := fold trim_transfers (remdups (map tft_session_id (st_transfers st))) (st_transfers st)\<rparr>"
  have norm: "normalize_bounded_histories jl now_ms st = Some st'"
    using kept(1)
    by (simp add: normalize_bounded_histories_def st'_def h_def Let_def split: sum.splits)
  have counts: "counts_ok st'"
    by (auto simp add: counts_ok_def st'_def session_count_def count_sessions_exact Let_def
        split: if_splits)
  have doms: "dom (st_event_counts st') = ev_session_id ` set (st_events st')"
    by (auto simp add: st'_def domIff count_sessions_exact Let_def count_if_eq_0_iff split: if_splits)
  show ?thesis
    by (rule that [OF norm _ counts doms])
       (use kept(2) revision_min trim_all_transfers_bound length_of_key_trim_all in
         \<open>simp_all add: st'_def\<close>)
qed

text \<open>Whatever it is given, the normalisation establishes the invariants of the log and the histories.\<close>

lemma normalize_establishes:
  assumes n: "normalize_bounded_histories jl now_ms st = Some t"
    and "ev_session_id ` set (st_events st) \<subseteq> session_ids st"
    and "dom (st_terminal_screens st) \<subseteq> session_ids st" "length (sink_outbox (st_sink st)) \<le> 4096"
  shows "events_ok t" "histories_ok t"
proof -
  obtain st' where n': "normalize_bounded_histories jl now_ms st = Some st'"
    and ev: "\<And>sid. of_key ev_session_id sid (st_events st') =
       keep_newest 5000 0 (of_key ev_session_id sid (st_events st))"
    and c: "counts_ok st'" "dom (st_event_counts st') = ev_session_id ` set (st_events st')"
    and b: "st_command_history_revision st' < 9007199254740991"
    "\<And>k. length (of_key aud_session_id k (st_audit st')) \<le> 5000"
    "\<And>k. length (of_key tlm_session_id k (st_timeline st')) \<le> 2000"
    "\<And>k. length (of_key sms_session_id k (st_sysmon st')) \<le> 1024"
    "\<And>k. count_if (is_terminal_transfer k) (st_transfers st') \<le> 1000"
    and f: "st_profiles st' = st_profiles st" "st_runtimes st' = st_runtimes st"
    "st_terminal_screens st' = st_terminal_screens st" "st_sink st' = st_sink st"
    using normalize_bounded_histories_Some [of jl now_ms st] by blast
  have t: "t = st'" using n n' by simp
  have sub: "ev_session_id ` set (st_events st') \<subseteq> ev_session_id ` set (st_events st)"
  proof
    fix sid assume "sid \<in> ev_session_id ` set (st_events st')"
    then have "of_key ev_session_id sid (st_events st') \<noteq> []"
      by (auto simp add: of_key_def filter_empty_conv)
    then have "of_key ev_session_id sid (st_events st) \<noteq> []" using ev by (auto simp add: keep_newest_def)
    then show "sid \<in> ev_session_id ` set (st_events st)"
      by (auto simp add: of_key_def filter_empty_conv)
  qed
  have "ev_session_id ` set (st_events st') \<subseteq> session_ids st" using sub assms(2) by blast
  moreover have "session_count st' sid \<le> 5512" for sid
    using length_keep_newest [of 5000 0 "of_key ev_session_id sid (st_events st)"]
    by (simp add: of_key_events [symmetric] ev)
  ultimately show "events_ok t"
    using assms(3) c f by (simp add: t events_ok_def session_ids_def)
  show "histories_ok t"
    using b(1,5) assms(4) f(4)
    by (auto simp add: t histories_ok_def
        intro: order_trans [OF b(2)] order_trans [OF b(3)] order_trans [OF b(4)] less_imp_le)
qed

lemma normalize_store_ok:
  assumes "normalize_bounded_histories jl now_ms st = Some t" "store_ok st"
  shows "store_ok t"
proof -
  obtain st' where "normalize_bounded_histories jl now_ms st = Some st'"
    and f: "st_profiles st' = st_profiles st" "st_runtimes st' = st_runtimes st"
    by (rule normalize_bounded_histories_Some [of jl now_ms st], rule that)
  then have "t = st'" using assms(1) by simp
  moreover have a: "ev_session_id ` set (st_events st) \<subseteq> session_ids st"
    "dom (st_terminal_screens st) \<subseteq> session_ids st" "length (sink_outbox (st_sink st)) \<le> 4096"
    using assms(2) by (simp_all add: store_ok_def events_ok_def histories_ok_def)
  moreover have "events_ok t" by (rule normalize_establishes(1) [OF assms(1) a])
  moreover have "histories_ok t" by (rule normalize_establishes(2) [OF assms(1) a])
  ultimately show ?thesis using assms(2) f by (simp add: store_ok_def)
qed

section \<open>Deletion, security, outbox and screens\<close>

lemma delete_deferred_frame:
  "st_audit (fst (delete_profile_deferred_system_event_cleanup now sid st)) = st_audit st"
  "st_sink (fst (delete_profile_deferred_system_event_cleanup now sid st)) = st_sink st"
  "st_command_history_revision (fst (delete_profile_deferred_system_event_cleanup now sid st)) =
     st_command_history_revision st"
  by (simp_all add: delete_profile_deferred_system_event_cleanup_def split: option.splits)

lemma length_of_key_filter: "length (of_key key k (filter P xs)) \<le> length (of_key key k xs)"
  by (induction xs) auto

lemma count_if_filter: "count_if Q (filter P xs) \<le> count_if Q xs"
  by (induction xs) auto

lemma delete_deferred_histories_ok:
  assumes "histories_ok st"
  shows "histories_ok (fst (delete_profile_deferred_system_event_cleanup now sid st))"
proof (cases "deletable st sid")
  case True
  show ?thesis
    by (rule delete_deferred_done [OF True, of now])
       (use assms in \<open>auto simp add: histories_ok_def
          intro: order_trans [OF length_of_key_filter] order_trans [OF count_if_filter]\<close>)
next
  case False
  then show ?thesis using delete_deferred_refused [OF False, of now] assms by auto
qed

lemma delete_deferred_events_ok:
  assumes "registry_ok (st_profiles st) (st_runtimes st)" "events_ok st"
  shows "events_ok (fst (delete_profile_deferred_system_event_cleanup now sid st))"
proof (cases "deletable st sid")
  case True
  obtain i where i: "find_index (\<lambda>p. prof_id p = sid) (st_profiles st) = Some i"
    and eq: "st_profiles (fst (delete_profile_deferred_system_event_cleanup now sid st)) =
      take i (st_profiles st) @ drop (Suc i) (st_profiles st)"
    "st_events (fst (delete_profile_deferred_system_event_cleanup now sid st)) =
      filter (\<lambda>e. ev_session_id e \<noteq> sid) (st_events st)"
    "st_event_counts (fst (delete_profile_deferred_system_event_cleanup now sid st)) =
      (st_event_counts st)(sid := None)"
    "st_terminal_screens (fst (delete_profile_deferred_system_event_cleanup now sid st)) =
      (st_terminal_screens st)(sid := None)"
    by (rule delete_deferred_done [OF True, of now]) simp
  have ps: "take i (st_profiles st) @ drop (Suc i) (st_profiles st) =
      filter (\<lambda>p. prof_id p \<noteq> sid) (st_profiles st)"
    using i assms(1) by (intro remove_index_filter) (auto simp add: registry_ok_def)
  have cnt: "count_if (\<lambda>e. ev_session_id e = k) (filter (\<lambda>e. ev_session_id e \<noteq> sid) es) =
      (if k = sid then 0 else count_if (\<lambda>e. ev_session_id e = k) es)" for k es
    by (induction es) auto
  show ?thesis
    using assms(2)
    by (auto simp add: events_ok_def counts_ok_def session_count_def session_ids_def eq ps cnt)
next
  case False
  then show ?thesis using delete_deferred_refused [OF False, of now] assms by auto
qed

lemma discard_session_store_ok:
  assumes "store_ok st"
  shows "store_ok (discard_system_events_for_session sid st)"
  using assms
  by (auto simp add: store_ok_def discard_system_events_for_session_def discard_session_def
      histories_ok_def events_ok_def counts_ok_def session_count_def session_ids_def
      intro: order_trans [OF length_filter_le])

lemma delete_deferred_store_ok:
  "store_ok st \<Longrightarrow> store_ok (fst (delete_profile_deferred_system_event_cleanup now sid st))"
  by (simp add: store_ok_def delete_registry delete_deferred_events_ok delete_deferred_histories_ok)

text \<open>A store that differs in the outbox, the screens, the keys or the profiles' contents only.\<close>

lemma store_ok_cong:
  assumes "store_ok b"
    and "map prof_id (st_profiles a) = map prof_id (st_profiles b)"
    and "st_runtimes a = st_runtimes b" "st_events a = st_events b"
    and "st_event_counts a = st_event_counts b" "st_audit a = st_audit b"
    and "st_timeline a = st_timeline b" "st_sysmon a = st_sysmon b"
    and "st_transfers a = st_transfers b"
    and "st_command_history_revision a = st_command_history_revision b"
    and "length (sink_outbox (st_sink a)) \<le> 4096"
    and "dom (st_terminal_screens a) \<subseteq> session_ids b"
  shows "store_ok a"
proof -
  have "prof_id ` set (st_profiles a) = prof_id ` set (st_profiles b)"
    using assms(2) by (metis list.set_map)
  then show ?thesis using assms
    by (auto simp add: store_ok_def registry_ok_def events_ok_def histories_ok_def counts_ok_def
        session_count_def session_ids_def)
qed

lemma record_auth_success_frame:
  "\<exists>ps. fst (record_auth_success sid m st) = st\<lparr>st_profiles := ps\<rparr> \<and>
        map prof_id ps = map prof_id (st_profiles st)"
proof -
  have self: "\<exists>ps. st = st\<lparr>st_profiles := ps\<rparr> \<and> map prof_id ps = map prof_id (st_profiles st)"
    by (rule exI [where x = "st_profiles st"]) simp
  have "map prof_id (update_first P (\<lambda>p. p\<lparr>prof_connection := c\<rparr>) ps) = map prof_id ps" for P c ps
    by (rule map_update_first) simp
  then show ?thesis using self
    by (auto simp add: record_auth_success_def Let_def split: option.splits ConnectionConfig.splits)
qed

section \<open>Every step keeps the invariant\<close>

lemma default_store_ok: "store_ok default_store"
  by (simp add: store_ok_def registry_ok_def events_ok_def histories_ok_def default_store_def
      counts_ok_def session_ids_def session_count_def sink_default_def)

lemma upsert_store_ok: "store_ok st \<Longrightarrow> store_ok (fst (upsert_profile now p st))"
  by (auto simp add: store_ok_def upsert_profile_registry upsert_profile_ids session_ids_def
      events_ok_def histories_ok_def counts_ok_def session_count_def)

lemma status_store_ok:
  "store_ok st \<Longrightarrow> store_ok (fst (set_runtime_status_with_reason now sid status reason st))"
  using set_runtime_status_registry [of st now sid status reason]
  by (simp add: store_ok_def session_ids_def events_ok_def histories_ok_def counts_ok_def
      session_count_def)

lemma push_system_event_store_ok:
  "store_ok st \<Longrightarrow> store_ok (fst (push_system_event chan u now sid text st))"
  by (simp add: store_ok_def push_system_event_events_ok push_system_event_histories_ok)

lemma open_session_store_ok:
  assumes "store_ok st"
  shows "store_ok (fst (open_session chan u now now' sid st))"
proof -
  obtain st1 r where st1: "set_runtime_status_with_reason now sid Connected None st = (st1, r)"
    by (cases "set_runtime_status_with_reason now sid Connected None st")
  then have "store_ok st1" using status_store_ok [OF assms, of now sid Connected None] by simp
  then show ?thesis
    using st1 assms
    by (auto simp add: open_session_def set_runtime_status_def Let_def
        simp del: str_simps split: option.splits sum.splits intro!: push_system_event_store_ok)
qed

lemma update_runtimes_store_ok:
  assumes "store_ok st" "registry_ok (st_profiles st) rs"
  shows "store_ok (st\<lparr>st_runtimes := rs\<rparr>)"
  using assms
  by (simp add: store_ok_def events_ok_def histories_ok_def counts_ok_def session_count_def
      session_ids_def)

lemma close_session_store_ok:
  assumes "store_ok st"
  shows "store_ok (fst (close_session chan u now now' sid st))"
proof (cases "has_profile st sid")
  case True
  have "registry_ok (st_profiles st) (st_runtimes (fst (close_session chan u now now' sid st)))"
    using close_session_registry [of st chan u now now' sid] assms True
    by (simp add: store_ok_def close_session_def Let_def)
  then show ?thesis using True assms
    by (simp add: close_session_def Let_def push_system_event_store_ok update_runtimes_store_ok)
qed (simp add: close_session_def assms)

lemma record_prepared_event_store_ok:
  assumes "store_ok st"
  shows "store_ok (fst (record_prepared_event vt now e st))"
proof -
  have "registry_ok (st_profiles st) (st_runtimes (fst (record_prepared_event vt now e st)))"
    using record_prepared_event_sel(2) [of vt now e st] assms registry_ok_touch
    by (auto simp add: store_ok_def)
  moreover have "histories_ok (fst (record_prepared_event vt now e st))"
    using assms by (simp add: store_ok_def histories_ok_def record_prepared_event_sel)
  ultimately show ?thesis
    using assms by (simp add: store_ok_def record_prepared_event_events_ok record_prepared_event_sel)
qed

lemma send_text_store_ok:
  assumes "send_text_with_bytes_ref_and_audit_action rx ids now actor sid text bref action n st =
      Some (st', r)" "store_ok st"
  shows "store_ok st'"
proof -
  have "registry_ok (st_profiles st') (st_runtimes st')"
    using assms registry_ok_touch [of "st_profiles st" st]
    by (auto simp add: send_text_with_bytes_ref_and_audit_action_def Let_def store_ok_def
        split: if_splits option.splits)
  then show ?thesis
    using assms(2) send_text_events_ok [OF assms(1)] send_text_histories_ok [OF assms(1)]
    by (simp add: store_ok_def)
qed

lemma command_store_ok: "store_ok st \<Longrightarrow> store_ok (fst (record_command_history jl cmd s limit days now_ms st))"
  by (simp add: record_command_history_def Let_def replace_command_history_store_ok
      split: sum.splits list.splits)

lemma log_store_ok:
  assumes "store_ok st"
  shows "store_ok (record_audit rec st)" "store_ok (record_timeline_mark mark st)"
    "store_ok (record_sysmon_snapshot snap st)" "store_ok (record_transfer task st)"
  using assms
  by (simp_all add: store_ok_def record_audit_histories_ok record_timeline_mark_histories_ok
      record_sysmon_snapshot_histories_ok record_transfer_histories_ok)
     (simp_all add: events_ok_def counts_ok_def session_count_def session_ids_def
      record_timeline_mark_def record_sysmon_snapshot_def record_transfer_def
      trim_transfer_history_def)

lemma sink_store_ok:
  assumes "store_ok st" "length (sink_outbox s) \<le> 4096"
  shows "store_ok (st\<lparr>st_sink := s\<rparr>)"
  by (rule store_ok_cong [OF assms(1)])
     (use assms in \<open>simp_all add: store_ok_def events_ok_def\<close>)

lemma outbox_store_ok:
  assumes "store_ok st"
  shows "store_ok (fst (set_system_event_notifier chan sender st))"
    "store_ok (clear_system_event_notifier st)" "store_ok (fst (drain_system_event_outbox st))"
    "store_ok (discard_queued_system_event eid st)"
proof -
  have len: "length (sink_outbox (st_sink st)) \<le> 4096"
    using assms by (simp add: store_ok_def histories_ok_def)
  show "store_ok (fst (set_system_event_notifier chan sender st))"
    using len assms
    by (auto simp add: set_system_event_notifier_def split_def set_notifier_def Let_def
        intro!: sink_store_ok [OF assms])
  show "store_ok (clear_system_event_notifier st)"
    using len assms
    by (auto simp add: clear_system_event_notifier_def clear_notifier_def
        intro!: sink_store_ok [OF assms])
  show "store_ok (fst (drain_system_event_outbox st))"
    using len assms
    by (auto simp add: drain_system_event_outbox_def split_def drain_def
        intro!: sink_store_ok [OF assms])
  show "store_ok (discard_queued_system_event eid st)"
    using len assms
    by (auto simp add: discard_queued_system_event_def discard_event_def
        intro!: sink_store_ok [OF assms] intro: order_trans [OF length_filter_le])
qed

lemma screens_store_ok:
  assumes "store_ok st"
  shows "store_ok (reset_terminal_screen vt now sid st)"
    "store_ok (resize_terminal_screen vt sid rows cols st)"
proof -
  have screens: "store_ok (st\<lparr>st_terminal_screens := m\<rparr>)" if "dom m \<subseteq> session_ids st" for m
    by (rule store_ok_cong [OF assms])
       (use assms that in \<open>simp_all add: store_ok_def histories_ok_def\<close>)
  have dom: "dom (st_terminal_screens st) \<subseteq> session_ids st"
    using assms by (simp add: store_ok_def events_ok_def)
  show "store_ok (reset_terminal_screen vt now sid st)"
  proof (cases "store_profile st sid")
    case (Some p)
    then have "sid \<in> session_ids st" by (auto simp add: session_ids_def dest: store_profile_SomeD)
    then show ?thesis
      using Some dom by (simp add: reset_terminal_screen_def) (rule screens, simp)
  qed (simp add: reset_terminal_screen_def assms)
  show "store_ok (resize_terminal_screen vt sid rows cols st)"
  proof (cases "st_terminal_screens st sid")
    case (Some screen)
    then have "sid \<in> session_ids st" using dom by blast
    then show ?thesis
      using Some dom assms by (simp add: resize_terminal_screen_def) (intro impI screens, simp)
  qed (simp add: resize_terminal_screen_def assms)
qed

lemma security_store_ok:
  assumes "store_ok st"
  shows "store_ok (fst (record_auth_success sid m st))"
    "store_ok (fst (apply_host_key_decision cr fresh sid obs decision st))"
proof -
  have frame: "length (sink_outbox (st_sink st)) \<le> 4096"
    "dom (st_terminal_screens st) \<subseteq> session_ids st"
    using assms by (simp_all add: store_ok_def histories_ok_def events_ok_def)
  obtain ps where "fst (record_auth_success sid m st) = st\<lparr>st_profiles := ps\<rparr>"
    "map prof_id ps = map prof_id (st_profiles st)"
    using record_auth_success_frame by blast
  then show "store_ok (fst (record_auth_success sid m st))"
    using frame by (intro store_ok_cong [OF assms]) simp_all
  show "store_ok (fst (apply_host_key_decision cr fresh sid obs decision st))"
    using frame
    by (intro store_ok_cong [OF assms])
       (simp_all add: apply_host_key_decision_def split_def Let_def split: option.splits)
qed

lemma delete_profile_store_ok: "store_ok st \<Longrightarrow> store_ok (fst (delete_profile now sid st))"
  by (simp add: delete_profile_fst Let_def delete_deferred_store_ok discard_session_store_ok)

lemmas step_store_ok =
  upsert_store_ok status_store_ok open_session_store_ok close_session_store_ok
  delete_profile_store_ok delete_deferred_store_ok record_prepared_event_store_ok
  push_system_event_store_ok log_store_ok replace_command_history_store_ok command_store_ok
  security_store_ok outbox_store_ok discard_session_store_ok screens_store_ok

lemma store_step_ok: "store_step st st' \<Longrightarrow> store_ok st \<Longrightarrow> store_ok st'"
  by (induction rule: store_step.induct)
     (auto simp add: step_store_ok record_system_event_tracked_def merge_command_history_def
       dest: send_text_store_ok normalize_store_ok)

lemma reachable_ok: "reachable st \<Longrightarrow> store_ok st"
  by (induction rule: reachable.induct) (auto simp add: default_store_ok dest: store_step_ok)

end
