(* ===== verification/Store_Properties.thy ===== *)
theory Store_Properties
  imports Store_Machine
begin

text \<open>
  The properties of the session store, each a theorem about the operations of the store
  theories; the example store below makes the witnesses.
\<close>

definition ex_profile :: SessionProfile where
  "ex_profile =
     \<lparr>prof_id = str ''s'', prof_name = str ''box'', prof_kind = KShell, prof_group = [],
      prof_tags = [],
      prof_connection = ConnShell \<lparr>sh_program = str ''sh'', sh_args = [], sh_cwd = None\<rparr>,
      prof_terminal = default_terminal_settings, prof_logging = default_logging_settings,
      prof_triggers = [], prof_transfer = default_transfer_settings\<rparr>"

definition ex_grant :: McpGrant where
  "ex_grant =
     \<lparr>gr_client_id = str ''c'', gr_name = [], gr_scopes = [ReadLogs],
      gr_allowed_sessions = [str ''s''], gr_confirm_writes = True, gr_expires_at = None,
      gr_revoked_at = None\<rparr>"

definition ex_store :: "unit SessionStore" where
  "ex_store = fst (upsert_profile 1 ex_profile default_store)"

lemma ex_store_reachable: "reachable ex_store"
  unfolding ex_store_def by (rule reachable.step [OF reachable.initial store_step.upsert])

lemma ex_store_sel:
  "st_profiles ex_store = [ex_profile]"
  "st_runtimes ex_store =
     [\<lparr>rt_session_id = str ''s'', rt_pane_id = main_pane (str ''s''), rt_status = Disconnected,
       rt_title = str ''box'', rt_cwd = None, rt_connected_since = None, rt_last_activity = 1,
       rt_last_disconnect = None, rt_last_disconnect_reason = None,
       rt_active_transport = KShell\<rparr>]"
  "st_transfers ex_store = []" "st_events ex_store = []" "st_event_counts ex_store = Map.empty"
  by (simp_all add: ex_store_def upsert_profile_profiles upsert_profile_runtimes has_profile_def
      default_store_def find_runtime_def ex_profile_def)

lemma ex_store_known: "has_profile ex_store (str ''s'')"
  by (simp add: has_profile_def ex_store_sel) (simp add: ex_profile_def)

lemma ex_store_deletable: "deletable ex_store (str ''s'')"
  using ex_store_known by (simp add: deletable_def ex_store_sel inactive_def)

section \<open>The reachable stores\<close>





text \<open>
  C9. Deleting a profile never widens what an MCP client may do: at any later time, every
  permission that the new store grants, for a session or globally, the old store granted too.
\<close>

theorem delete_profile_never_widens:
  assumes "mcp_can t (fst (delete_profile now sid st)) client scope s"
  shows "mcp_can t st client scope s"
proof (cases "deletable st sid")
  case True
  have "st_grants (fst (delete_profile now sid st)) = map (grant_forget_session sid now) (st_grants st)"
    by (rule delete_deferred_done [OF True, of now])
       (simp add: delete_profile_def discard_system_events_for_session_def)
  then have "mcp_can t (st\<lparr>st_grants := map (grant_forget_session sid now) (st_grants st)\<rparr>) client scope s"
    using assms by (simp add: mcp_can_def)
  then show ?thesis
    by (rule mcp_can_map_grants) (auto intro: grant_forget_session_no_widening)
next
  case False
  then show ?thesis
    using delete_deferred_refused [OF False, of now] assms by (auto simp add: delete_profile_def)
qed

theorem delete_profile_never_widens_witness:
  "mcp_can 3 (fst (delete_profile 2 (str ''x'') (ex_store\<lparr>st_grants := [ex_grant]\<rparr>)))
     (str ''c'') ReadLogs (Some (str ''s'')) \<and>
   mcp_can 3 (ex_store\<lparr>st_grants := [ex_grant]\<rparr>) (str ''c'') ReadLogs (Some (str ''s''))"
proof -
  have "\<not> has_profile (ex_store\<lparr>st_grants := [ex_grant]\<rparr>) (str ''x'')"
    by (simp add: has_profile_def ex_store_sel) (simp add: ex_profile_def)
  then have "\<not> deletable (ex_store\<lparr>st_grants := [ex_grant]\<rparr>) (str ''x'')"
    by (simp add: deletable_def)
  from delete_deferred_refused [OF this, of 2]
  have "mcp_can 3 (fst (delete_profile 2 (str ''x'') (ex_store\<lparr>st_grants := [ex_grant]\<rparr>)))
     (str ''c'') ReadLogs (Some (str ''s''))"
    by (auto simp add: delete_profile_def mcp_can_session_iff authorized_def ex_grant_def
        grant_live_def grant_has_scope_def grant_covers_def denies_all_sessions_def
        MCP_NO_SESSIONS_SENTINEL_def)
  then show ?thesis using delete_profile_never_widens by blast
qed

section \<open>Authorised search\<close>

text \<open>
  C10. A log search on behalf of an MCP client returns exactly the newest \<open>limit\<close> events that
  contain the query and belong to a known session which the client may read: the client
  identifier is well formed and some live grant with the log scope covers the session at the
  moment the session is checked. The limit applies after authorisation.
\<close>

theorem mcp_search_logs_authorized:
  "mcp_search_logs clock lower st client query wanted limit =
     newest limit
       (\<lambda>e. (\<exists>i < length (st_profiles st). ev_session_id e = prof_id (st_profiles st ! i) \<and>
               (wanted = None \<or> wanted = Some (ev_session_id e)) \<and>
               authorized (clock i) st (trim client) ReadLogs (ev_session_id e)) \<and>
            trim client \<noteq> [] \<and> byte_len (trim client) \<le> 128 \<and>
            (\<forall>c \<in> set (trim client). \<not> is_control c) \<and>
            contains_str (lower (case ev_text e of Some t \<Rightarrow> t | None \<Rightarrow> [])) (lower query))
       (st_events st)"
proof -
  have "(sid \<in> set (mcp_visible clock st client wanted)) =
      ((\<exists>i < length (st_profiles st). sid = prof_id (st_profiles st ! i) \<and>
          (wanted = None \<or> wanted = Some sid) \<and>
          authorized (clock i) st (trim client) ReadLogs sid) \<and>
       trim client \<noteq> [] \<and> byte_len (trim client) \<le> 128 \<and>
       (\<forall>c \<in> set (trim client). \<not> is_control c))" for sid
    unfolding set_mcp_visible
    by (auto simp add: mcp_can_read_def Let_def mcp_can_session_iff list_ex_iff)
  then show ?thesis by (simp add: mcp_search_logs_newest conj_assoc)
qed

theorem mcp_search_logs_authorized_witness:
  "mcp_search_logs (\<lambda>_. 3) (\<lambda>s. s)
     (ex_store\<lparr>st_grants := [ex_grant],
        st_events := [system_event (str ''e1'') 2 (str ''s'') (str ''boot''),
                      system_event (str ''e2'') 3 (str ''s'') (str ''reboot'')]\<rparr>)
     (str '' c '') (str ''boot'') None 1 =
   [system_event (str ''e2'') 3 (str ''s'') (str ''reboot'')]"
proof -
  let ?st = "ex_store\<lparr>st_grants := [ex_grant],
        st_events := [system_event (str ''e1'') 2 (str ''s'') (str ''boot''),
                      system_event (str ''e2'') 3 (str ''s'') (str ''reboot'')]\<rparr>"
  have c: "trim (str '' c '') = str ''c''"
    by (simp add: trim_def trim_start_def trim_end_def is_whitespace_def)
  have "authorized 3 ?st (str ''c'') ReadLogs (str ''s'')"
    by (simp add: authorized_def ex_grant_def grant_live_def grant_has_scope_def grant_covers_def
        denies_all_sessions_def MCP_NO_SESSIONS_SENTINEL_def)
  moreover have "prof_id ex_profile = str ''s''" by (simp add: ex_profile_def)
  ultimately show ?thesis
    unfolding mcp_search_logs_authorized c
    by (simp add: newest_def ex_store_sel system_event_def is_control_def starts_with_def len_utf8_def)
qed

section \<open>Sessions\<close>

text \<open>
  Inserting or replacing a profile never panics: the summary it returns is that of the
  given profile with its runtime.
\<close>

theorem upsert_profile_returns:
  "\<exists>r. snd (upsert_profile now p st) =
         Some (summary_of (fst (upsert_profile now p st)) p r) \<and> rt_session_id r = prof_id p"
proof -
  let ?st = "fst (upsert_profile now p st)"
  have "store_profile ?st (prof_id p) = Some p"
  proof (cases "has_profile st (prof_id p)")
    case True
    then obtain q where "List.find (\<lambda>q. prof_id q = prof_id p) (st_profiles st) = Some q"
      using store_profile_None_iff [of st "prof_id p"] by (auto simp add: store_profile_def)
    then show ?thesis using True
      by (simp add: store_profile_def upsert_profile_profiles find_update_first)
  next
    case False
    then have "List.find (\<lambda>q. prof_id q = prof_id p) (st_profiles st) = None"
      using store_profile_None_iff [of st "prof_id p"] by (simp add: store_profile_def)
    then have "List.find (\<lambda>q. prof_id q = prof_id p) (st_profiles st @ [p]) = Some p"
      by (simp add: find_append)
    then show ?thesis using False by (simp add: store_profile_def upsert_profile_profiles)
  qed
  moreover obtain r where r: "find_runtime ?st (prof_id p) = Some r"
    using find_runtime_upsert [of now p st] by blast
  moreover have "rt_session_id r = prof_id p"
    using r by (auto simp add: find_runtime_def dest: find_SomeD)
  moreover have "snd (upsert_profile now p st) = find_summary ?st (prof_id p)"
    by (simp add: upsert_profile_def Let_def)
  ultimately show ?thesis by (intro exI [where x = r]) (simp add: find_summary_eq)
qed

text \<open>
  A status change of a known session is exact: the runtime gets the status; the connection
  time is kept while it stays connected, set to now when it connects and cleared otherwise; the
  start of an outage is kept while the outage goes on, is now when it begins, and a non-outage
  status leaves it alone.
\<close>

theorem status_change_effect:
  assumes "has_profile st sid" "find_runtime st sid = Some r"
  shows "\<exists>r'. find_runtime (fst (set_runtime_status_with_reason now sid status reason st)) sid = Some r' \<and>
    rt_status r' = status \<and> rt_last_activity r' = now \<and>
    rt_connected_since r' =
      (if status \<noteq> Connected then None
       else if rt_connected_since r = None then Some now else rt_connected_since r) \<and>
    rt_last_disconnect r' =
      (if runtime_outage_status status \<and>
          (\<not> runtime_outage_status (rt_status r) \<or> rt_last_disconnect r = None)
       then Some now else rt_last_disconnect r)"
proof -
  obtain p where "store_profile st sid = Some p"
    using assms(1) store_profile_None_iff [of st sid] by auto
  from set_runtime_status_runtime [OF this assms(2)] show ?thesis
    by (simp add: apply_runtime_health_last split: option.splits)
qed

theorem status_change_effect_witness:
  "\<exists>r'. find_runtime (fst (set_runtime_status_with_reason 7 (str ''s'') Connected None ex_store))
           (str ''s'') = Some r' \<and>
    rt_status r' = Connected \<and> rt_connected_since r' = Some 7 \<and> rt_last_disconnect r' = None"
proof -
  have "find_runtime ex_store (str ''s'') = Some (hd (st_runtimes ex_store))"
    by (simp add: find_runtime_def ex_store_sel)
  from status_change_effect [OF ex_store_known this, of 7 Connected None] show ?thesis
    by (auto simp add: ex_store_sel)
qed

text \<open>
  The normalised disconnect reason is the text's words joined by single spaces; a blank
  text has none, and a text of more than 256 characters is cut to 253 and marked with an
  ellipsis.
\<close>

theorem disconnect_reason_normal_form:
  "normalize_session_disconnect_reason value =
    (let w = join_str [chr CHR '' ''] (split_whitespace value)
     in if w = [] then None
        else if length w \<le> 256 then Some w
        else Some (take 253 w @ str ''...''))"
  using normalize_reason_eq by (simp add: collapse_whitespace_def)

section \<open>Histories\<close>



text \<open>
  Normalising a loaded store never panics, whatever it holds: of every session the newest
  5000 events stay and the count cache is exact, the audit, timeline, monitoring and finished
  transfer histories are cut to their limits, and the command-history revision leaves room for
  another change.
\<close>

theorem normalize_never_panics:
  "\<exists>st'. normalize_bounded_histories jl now_ms st = Some st' \<and>
    (\<forall>sid. of_key ev_session_id sid (st_events st') =
       keep_newest 5000 0 (of_key ev_session_id sid (st_events st))) \<and>
    counts_ok st' \<and> st_command_history_revision st' < 9007199254740991 \<and>
    (\<forall>k. length (of_key aud_session_id k (st_audit st')) \<le> 5000) \<and>
    (\<forall>k. length (of_key tlm_session_id k (st_timeline st')) \<le> 2000) \<and>
    (\<forall>k. length (of_key sms_session_id k (st_sysmon st')) \<le> 1024) \<and>
    (\<forall>k. count_if (is_terminal_transfer k) (st_transfers st') \<le> 1000)"
  by (rule normalize_bounded_histories_Some [of jl now_ms st]) blast

text \<open>
  C28. Recording a transfer leaves at most 1000 finished transfers of its session. Active
  transfers and those of other sessions are all kept, and every finished transfer that is
  dropped finished before every finished one that is kept, or at the same time and stood before
  it.
\<close>

theorem record_transfer_drops_oldest:
  "let xs = st_transfers st @ [t]; ys = st_transfers (record_transfer t st);
       finished = is_terminal_transfer (tft_session_id t)
   in \<exists>R. ys = nths xs (- R) \<and>
        count_if finished ys = min 1000 (count_if finished xs) \<and>
        filter (\<lambda>u. \<not> finished u) ys = filter (\<lambda>u. \<not> finished u) xs \<and>
        (\<forall>i \<in> R. \<forall>j < length xs. j \<notin> R \<longrightarrow> finished (xs ! j) \<longrightarrow>
           (tft_finished_at (xs ! i), i) < (tft_finished_at (xs ! j), j))"
proof -
  let ?xs = "st_transfers st @ [t]"
  let ?R = "removed_positions (tft_session_id t) ?xs"
  have eq: "st_transfers (record_transfer t st) = trim_transfers (tft_session_id t) ?xs"
    by (simp add: record_transfer_def trim_transfer_history_def)
  have others: "filter (\<lambda>u. \<not> is_terminal_transfer (tft_session_id t) u)
      (trim_transfers (tft_session_id t) ?xs) =
      filter (\<lambda>u. \<not> is_terminal_transfer (tft_session_id t) u) ?xs"
    by (rule trim_transfers_filter_other) simp
  have oldest: "\<forall>i \<in> ?R. \<forall>j < length ?xs. j \<notin> ?R \<longrightarrow>
      is_terminal_transfer (tft_session_id t) (?xs ! j) \<longrightarrow>
      (tft_finished_at (?xs ! i), i) < (tft_finished_at (?xs ! j), j)"
    using removed_positions_oldest by blast
  show ?thesis
    unfolding Let_def eq
    using trim_transfers_eq [of "tft_session_id t" ?xs] trim_transfers_count [of "tft_session_id t" ?xs]
      others oldest by (intro exI [where x = ?R] conjI)
qed

definition ex_transfer :: TransferTask where
  "ex_transfer =
     \<lparr>tft_id = str ''t'', tft_session_id = str ''s'', tft_protocol = Sftp, tft_source = [],
      tft_destination = [], tft_bytes_total = 9, tft_bytes_done = 9, tft_status = Completed,
      tft_message = None, tft_started_at = Some 1, tft_finished_at = Some 2,
      tft_average_bytes_per_second = None\<rparr>"

theorem record_transfer_drops_oldest_witness:
  "count_if (is_terminal_transfer (str ''s'')) (st_transfers (record_transfer ex_transfer ex_store)) = 1"
proof -
  have t: "tft_session_id ex_transfer = str ''s''" "is_terminal_transfer (str ''s'') ex_transfer"
    by (simp_all add: ex_transfer_def is_terminal_transfer_def)
  obtain R where "count_if (is_terminal_transfer (str ''s''))
      (st_transfers (record_transfer ex_transfer ex_store)) =
      min 1000 (count_if (is_terminal_transfer (str ''s'')) (st_transfers ex_store @ [ex_transfer]))"
    using record_transfer_drops_oldest [of ex_store ex_transfer] unfolding Let_def t(1) by blast
  then show ?thesis using t(2) by (simp add: ex_store_sel)
qed

text \<open>
  A normalised command history is well formed: at most \<open>limit\<close> entries, no two with the
  same command and session, every command non-blank, without NUL and at most 8192 characters
  long, every time between the retention cutoff and now, every session identifier normal, and
  the serialized snapshot within its byte budget. Normalising it again changes nothing.
\<close>

theorem command_history_normal:
  assumes "normalized_command_history jl es limit days now = Inr h"
  shows "history_ok jl limit (history_cutoff days now) now h \<and>
    normalized_command_history jl h limit days now = Inr h"
  using normalized_command_history_ok [OF assms] normalized_command_history_id by simp

theorem command_history_normal_witness:
  "history_ok (\<lambda>_. Some 10) 5 (history_cutoff 0 9) 9
     [\<lparr>che_command = str ''ls'', che_recorded_at = 4, che_session_id = None\<rparr>] \<and>
   normalized_command_history (\<lambda>_. Some 10)
     [\<lparr>che_command = str ''ls'', che_recorded_at = 4, che_session_id = None\<rparr>] 5 0 9 =
   Inr [\<lparr>che_command = str ''ls'', che_recorded_at = 4, che_session_id = None\<rparr>]"
proof -
  have "normalized_command_history (\<lambda>_. Some 10)
      [\<lparr>che_command = str ''ls'', che_recorded_at = 4, che_session_id = None\<rparr>,
       \<lparr>che_command = str '' '', che_recorded_at = 5, che_session_id = None\<rparr>,
       \<lparr>che_command = str ''ls'', che_recorded_at = 6, che_session_id = None\<rparr>] 5 0 9 =
      Inr [\<lparr>che_command = str ''ls'', che_recorded_at = 4, che_session_id = None\<rparr>]"
    by (simp add: normalized_command_history_def history_cutoff_def clamp_def trim_def
        trim_start_def trim_end_def is_whitespace_def)
  from command_history_normal [OF this] show ?thesis .
qed

lemma history_loop_total:
  assumes "\<forall>e. jl e \<noteq> None"
  shows "\<exists>res. history_loop jl limit cutoff now seen out b es = Inr res"
  using assms
proof (induction es arbitrary: seen out b)
  case (Cons e es)
  obtain n where "jl \<lparr>che_command = che_command e,
      che_recorded_at = clamp 0 (max now 0) (che_recorded_at e),
      che_session_id = Option.bind (che_session_id e) normalize_history_session_id\<rparr> = Some n"
    using Cons.prems by blast
  then show ?case using Cons by (simp add: Let_def)
qed simp

text \<open>
  Recording a valid command succeeds and puts it first: when the limits are in range, every
  entry serializes, the entry alone fits the byte budget and the revision is not exhausted, the
  new history starts with the command at the current time and its normalised session.
\<close>

theorem record_command_goes_first:
  assumes "trim cmd \<noteq> []" "0 \<notin> set cmd" "length cmd \<le> 8192"
    and "1 \<le> limit" "limit \<le> 10000" "days \<le> 3650" "\<forall>e. jl e \<noteq> None"
    and "jl \<lparr>che_command = cmd, che_recorded_at = max now 0,
              che_session_id = Option.bind s normalize_history_session_id\<rparr> = Some n" "n \<le> 2097126"
    and "st_command_history_revision st < 9007199254740991"
  shows "\<exists>rest. snd (record_command_history jl cmd s limit days now st) =
      Inr (\<lparr>che_command = cmd, che_recorded_at = max now 0,
            che_session_id = Option.bind s normalize_history_session_id\<rparr> # rest) \<and>
    st_command_history (fst (record_command_history jl cmd s limit days now st)) =
      \<lparr>che_command = cmd, che_recorded_at = max now 0,
       che_session_id = Option.bind s normalize_history_session_id\<rparr> # rest"
proof -
  let ?s = "Option.bind s normalize_history_session_id"
  let ?c = "\<lparr>che_command = cmd, che_recorded_at = max now 0, che_session_id = ?s\<rparr>"
  have c: "clamp 0 (max now 0) now = max now 0" by (auto simp add: clamp_def)
  have first: "normalized_command_history jl
      [\<lparr>che_command = cmd, che_recorded_at = now, che_session_id = s\<rparr>] 1 0 now = Inr [?c]"
    using assms(1-3,8,9)
    by (simp add: normalized_command_history_def history_cutoff_def c)
  have head: "\<exists>rest. normalized_command_history jl
      (\<lparr>che_command = cmd, che_recorded_at = now, che_session_id = ?s\<rparr> # es) limit days now =
      Inr (?c # rest)" for es
  proof -
    obtain res where res: "history_loop jl limit (history_cutoff days now) now [(cmd, ?s)] [?c]
        (26 + n) (take 19999 es) = Inr res"
      using history_loop_total [OF assms(7)] by blast
    then obtain rest where "res = ?c # rest"
      using history_loop_extends [OF res] by (auto simp add: prefix_def)
    with res show ?thesis
      using assms(1-6,8,9) history_cutoff_le [of days now]
      by (auto simp add: normalized_command_history_def c normalize_history_session_id_idem Let_def
          not_less)
  qed
  obtain rest where "normalized_command_history jl
      (\<lparr>che_command = cmd, che_recorded_at = now, che_session_id = ?s\<rparr> #
       filter (\<lambda>e. che_command e \<noteq> cmd \<or> che_session_id e \<noteq> ?s) (st_command_history st))
      limit days now = Inr (?c # rest)"
    using head by blast
  then show ?thesis
    using assms(10)
    unfolding record_command_history_def first
    by (auto simp add: replace_command_history_def Let_def not_le)
qed

theorem record_command_goes_first_witness:
  "\<exists>rest. st_command_history (fst (record_command_history (\<lambda>_. Some 40) (str ''ls'') None 100 30 7
     ex_store)) = \<lparr>che_command = str ''ls'', che_recorded_at = 7, che_session_id = None\<rparr> # rest"
proof -
  have "trim (str ''ls'') \<noteq> []"
    by (simp add: trim_def trim_start_def trim_end_def is_whitespace_def)
  moreover have "st_command_history_revision ex_store < 9007199254740991"
    by (simp add: ex_store_def default_store_def)
  ultimately show ?thesis
    using record_command_goes_first [of "str ''ls''" 100 30 "\<lambda>_. Some 40" 7 None 40 ex_store]
    by auto
qed

section \<open>Exports and the outbox\<close>

text \<open>A connection that names no secret and no local path of a key.\<close>

definition ssh_no_secret_refs :: "SshConnection \<Rightarrow> bool" where
  "ssh_no_secret_refs ssh \<longleftrightarrow>
     ssh_password_secret_ref ssh = None \<and> ssh_passphrase_secret_ref ssh = None \<and>
     px_password_secret_ref (ssh_proxy ssh) = None \<and>
     list_all (\<lambda>i. idr_path i = None \<and> idr_secret_ref i = None) (ssh_identity_refs ssh) \<and>
     list_all (\<lambda>j. jh_password_secret_ref j = None \<and> jh_passphrase_secret_ref j = None) (ssh_jumps ssh)"

fun no_secret_refs :: "ConnectionConfig \<Rightarrow> bool" where
  "no_secret_refs (ConnSsh ssh) = ssh_no_secret_refs ssh"
| "no_secret_refs (ConnTmux ssh) = ssh_no_secret_refs ssh"
| "no_secret_refs (ConnTelnet tcp) = (px_password_secret_ref (tcp_proxy tcp) = None)"
| "no_secret_refs (ConnTcp tcp) = (px_password_secret_ref (tcp_proxy tcp) = None)"
| "no_secret_refs (ConnShell shell) = (sh_cwd shell = None \<and> sh_args shell = [])"
| "no_secret_refs (ConnSerial serial) = True"



text \<open>
  The outbox of system events is a bounded first-in first-out queue: after any sequence of
  enqueues from an empty outbox, whatever the channel answers, draining returns a subsequence of
  what was offered, in order and at most 4096 long, and empties the outbox.
\<close>

theorem outbox_fifo_bounded:
  assumes "\<not> sink_poisoned s" "sink_outbox s = []"
  shows "let (s', got) = drain (fold (\<lambda>e s. fst (enqueue chan e s)) offered s)
    in subseq got offered \<and> length got \<le> 4096 \<and> sink_outbox s' = []"
  using sink.drain_after_enq [OF assms, of chan offered]
    sink.enq_many [OF assms(1), of chan offered] assms(2)
    sink.drn_contents
  by (simp add: split_def) (metis prod.collapse)

theorem outbox_fifo_bounded_witness:
  "let (s', got) = drain (fold (\<lambda>e s. fst (enqueue (\<lambda>_. SendOk) e s))
       [(system_event (str ''e'') 1 (str ''s'') [], None)] (sink_default\<lparr>sink_status := SinkActive 1\<rparr>))
   in subseq got [(system_event (str ''e'') 1 (str ''s'') [], None)] \<and> length got \<le> 4096 \<and>
      sink_outbox s' = []"
  by (rule outbox_fifo_bounded) (simp_all add: sink_default_def)

end
