(* ===== verification/List_Rules.thy ===== *)
theory List_Rules
  imports Session_Model
begin

text \<open>
  What the validators of \<open>portmate-core\<close> share. Profiles carry lists of triggers and tunnels,
  the store a list of custom scripts; each kind has a validator that refuses a bad list and a
  normaliser that repairs a loaded one. The locale \<open>list_normalizer\<close> is the contract between
  the two: what the normaliser returns is accepted, and an accepted list is left alone. UTF-8
  bytes are defined here for the checks the code does on bytes.
\<close>

section \<open>UTF-8\<close>

definition utf8_char :: "uchar \<Rightarrow> nat list" where
  "utf8_char c =
     (if c < 128 then [c]
      else if c < 2048 then [192 + c div 64, 128 + c mod 64]
      else if c < 65536 then [224 + c div 4096, 128 + c div 64 mod 64, 128 + c mod 64]
      else [240 + c div 262144, 128 + c div 4096 mod 64, 128 + c div 64 mod 64, 128 + c mod 64])"

definition utf8_bytes :: "ustr \<Rightarrow> nat list" where
  "utf8_bytes s = concat (map utf8_char s)"

lemma length_utf8_bytes: "length (utf8_bytes s) = byte_len s"
  by (induction s) (auto simp add: utf8_bytes_def utf8_char_def len_utf8_def)

lemma utf8_bytes_simps [simp]:
  "utf8_bytes [] = []" "utf8_bytes (c # s) = utf8_char c @ utf8_bytes s"
  "utf8_bytes (s @ t) = utf8_bytes s @ utf8_bytes t"
  by (simp_all add: utf8_bytes_def)

lemma utf8_ascii: "(\<forall>c \<in> set s. c < 128) \<Longrightarrow> utf8_bytes s = s"
  by (induction s) (auto simp add: utf8_char_def)

text \<open>If every byte is ASCII, the text is its bytes.\<close>

lemma utf8_lead: "128 \<le> c \<Longrightarrow> \<exists>b \<in> set (utf8_char c). 128 \<le> b"
  by (simp add: utf8_char_def)

lemma utf8_all_ascii:
  assumes "\<forall>b \<in> set (utf8_bytes s). b < 128"
  shows "\<forall>c \<in> set s. c < 128"
proof
  fix c assume "c \<in> set s"
  then have "set (utf8_char c) \<subseteq> set (utf8_bytes s)" by (auto simp add: utf8_bytes_def)
  then show "c < 128" using assms utf8_lead [of c] by (meson not_le subsetD)
qed

lemma utf8_all_ascii_id: "(\<forall>b \<in> set (utf8_bytes s). b < 128) \<Longrightarrow> utf8_bytes s = s"
  by (rule utf8_ascii) (rule utf8_all_ascii)

section \<open>Keeping the first valid entry of each key\<close>

text \<open>
  The loop \<open>if valid(x) && ids.insert(key(x)) { out.push(x) }\<close> over a list, with the keys
  seen so far.
\<close>

fun retain_unique :: "('a \<Rightarrow> bool) \<Rightarrow> ('a \<Rightarrow> 'k) \<Rightarrow> 'k list \<Rightarrow> 'a list \<Rightarrow> 'a list" where
  "retain_unique valid key seen [] = []"
| "retain_unique valid key seen (x # xs) =
     (if valid x \<and> key x \<notin> set seen then x # retain_unique valid key (key x # seen) xs
      else retain_unique valid key seen xs)"

lemma retain_unique_sound:
  "list_all valid (retain_unique valid key seen xs) \<and>
   distinct (map key (retain_unique valid key seen xs)) \<and>
   key ` set (retain_unique valid key seen xs) \<inter> set seen = {} \<and>
   subseq (retain_unique valid key seen xs) xs"
proof (induction xs arbitrary: seen)
  case (Cons x xs)
  show ?case
    using Cons.IH [of "key x # seen"] Cons.IH [of seen] by (auto simp add: image_iff)
qed simp

lemma retain_unique_id:
  assumes "list_all valid xs" "distinct (map key xs)" "key ` set xs \<inter> set seen = {}"
  shows "retain_unique valid key seen xs = xs"
  using assms by (induction xs arbitrary: seen) auto

text \<open>
  The validating loop: each entry is checked, then its key is inserted; \<open>wrap\<close> labels an error
  with the entry's number.
\<close>

fun check_unique ::
  "(nat \<Rightarrow> 'e \<Rightarrow> 'f) \<Rightarrow> (nat \<Rightarrow> 'f) \<Rightarrow> ('a \<Rightarrow> 'e + unit) \<Rightarrow> ('a \<Rightarrow> 'k) \<Rightarrow> nat \<Rightarrow> 'k list \<Rightarrow> 'a list
     \<Rightarrow> 'f + unit" where
  "check_unique wrap dup check key index seen [] = Inr ()"
| "check_unique wrap dup check key index seen (x # xs) =
     and_then (map_err (wrap (index + 1)) (check x)) (\<lambda>_.
       if key x \<in> set seen then Inl (dup (index + 1))
       else check_unique wrap dup check key (index + 1) (key x # seen) xs)"

lemma check_unique_ok:
  "is_ok (check_unique wrap dup check key index seen xs) \<longleftrightarrow>
     list_all (\<lambda>x. is_ok (check x)) xs \<and> distinct (map key xs) \<and> key ` set xs \<inter> set seen = {}"
proof (induction xs arbitrary: index seen)
  case (Cons x xs)
  show ?case
    using Cons.IH [of "index + 1" "key x # seen"]
    by (cases "check x") (auto simp add: image_iff)
qed simp

section \<open>The contract of a validator and a normaliser\<close>

locale list_normalizer =
  fixes norm :: "'a list \<Rightarrow> 'a list"
    and accepted :: "'a list \<Rightarrow> bool"
  assumes norm_accepted: "accepted (norm xs)"
    and accepted_norm: "accepted xs \<Longrightarrow> norm xs = xs"
begin

lemma norm_idem: "norm (norm xs) = norm xs"
  by (rule accepted_norm [OF norm_accepted])

lemma norm_fixed_iff: "norm xs = xs \<longleftrightarrow> accepted xs"
  using norm_accepted [of xs] accepted_norm by metis

end

end
