(* ===== verification/Triggers.thy ===== *)
theory Triggers
  imports List_Rules
begin

text \<open>
  Output triggers (\<open>triggers.rs\<close>): matching a line against the triggers of a profile,
  validating a list of triggers and normalising a loaded one. The regular-expression engine
  and the Unicode lower-casing are the argument \<open>env\<close>; error values are the messages of the
  code, without the engine's own explanation of a bad pattern.
\<close>

record trigger_env =
  te_regex_builds :: "ustr \<Rightarrow> bool"         \<comment> \<open>the pattern compiles within the size limit\<close>
  te_regex_matches :: "ustr \<Rightarrow> ustr \<Rightarrow> bool" \<comment> \<open>pattern, line\<close>
  te_lowercase :: "ustr \<Rightarrow> ustr"

abbreviation (input) MAX_TRIGGERS_PER_PROFILE :: nat where "MAX_TRIGGERS_PER_PROFILE \<equiv> 64"
abbreviation (input) MAX_TRIGGER_ACTIONS :: nat where "MAX_TRIGGER_ACTIONS \<equiv> 16"
abbreviation (input) MAX_TRIGGER_ID_CHARACTERS :: nat where "MAX_TRIGGER_ID_CHARACTERS \<equiv> 128"
abbreviation (input) MAX_TRIGGER_LABEL_CHARACTERS :: nat where "MAX_TRIGGER_LABEL_CHARACTERS \<equiv> 128"
abbreviation (input) MAX_TRIGGER_MATCHER_CHARACTERS :: nat where "MAX_TRIGGER_MATCHER_CHARACTERS \<equiv> 1024"
abbreviation (input) MAX_TRIGGER_ACTION_VALUE_CHARACTERS :: nat
  where "MAX_TRIGGER_ACTION_VALUE_CHARACTERS \<equiv> 4096"

record TriggerMatch =
  tm_trigger_id :: ustr
  tm_label :: ustr
  tm_actions :: "TriggerAction list"

definition validate_trigger_text :: "ustr \<Rightarrow> ustr \<Rightarrow> nat \<Rightarrow> bool \<Rightarrow> ustr + unit" where
  "validate_trigger_text label value max_characters allow_empty =
     (if \<not> allow_empty \<and> value = [] then Inl (label @ str '' must not be empty'')
      else if 0 \<in> set value then Inl (label @ str '' must not contain NUL'')
      else if max_characters < length value
      then Inl (label @ str '' exceeds '' @ nat_str max_characters @ str '' characters'')
      else Inr ())"

definition validate_trigger_metadata :: "TriggerSpec \<Rightarrow> ustr + unit" where
  "validate_trigger_metadata trigger =
     and_then (validate_trigger_text (str ''id'') (trg_id trigger) MAX_TRIGGER_ID_CHARACTERS False) (\<lambda>_.
       if trim (trg_id trigger) \<noteq> trg_id trigger
       then Inl (str ''id must not have surrounding whitespace'')
       else if list_ex is_control (trg_id trigger)
       then Inl (str ''id must not contain control characters'')
       else and_then (validate_trigger_text (str ''label'') (trg_label trigger)
                        MAX_TRIGGER_LABEL_CHARACTERS True) (\<lambda>_.
         if list_ex is_control (trg_label trigger)
         then Inl (str ''label must not contain control characters'')
         else Inr ()))"

definition validate_action :: "TriggerAction \<Rightarrow> ustr + unit" where
  "validate_action action =
     (case action of
        ActHighlight color \<Rightarrow>
          if byte_len color \<noteq> 7 \<or> \<not> starts_with color (str ''#'') \<or>
             \<not> list_all is_ascii_hexdigit (utf8_bytes (drop 1 color))
          then Inl (str ''highlight color must use #RRGGBB'') else Inr ()
      | ActSound name \<Rightarrow>
          if name \<in> {str ''bell'', str ''chime'', str ''alert''} then Inr ()
          else Inl (str ''sound must be bell, chime, or alert'')
      | ActLocalCommand command \<Rightarrow>
          and_then (validate_trigger_text (str ''local command'') command
                      MAX_TRIGGER_ACTION_VALUE_CHARACTERS False) (\<lambda>_.
            if trim command = [] then Inl (str ''local command must not be blank'') else Inr ())
      | ActSendText text \<Rightarrow>
          validate_trigger_text (str ''send text'') text MAX_TRIGGER_ACTION_VALUE_CHARACTERS True
      | ActNotification message \<Rightarrow>
          validate_trigger_text (str ''notification'') message MAX_TRIGGER_ACTION_VALUE_CHARACTERS True
      | ActTimelineMark label \<Rightarrow>
          validate_trigger_text (str ''timeline label'') label MAX_TRIGGER_ACTION_VALUE_CHARACTERS True
      | ActCustomLink url_template \<Rightarrow>
          validate_trigger_text (str ''custom link'') url_template
            MAX_TRIGGER_ACTION_VALUE_CHARACTERS True)"

fun validate_actions_from :: "nat \<Rightarrow> TriggerAction list \<Rightarrow> ustr + unit" where
  "validate_actions_from index [] = Inr ()"
| "validate_actions_from index (action # actions) =
     and_then (map_err (\<lambda>e. str ''action '' @ nat_str (index + 1) @ str '': '' @ e)
                 (validate_action action))
       (\<lambda>_. validate_actions_from (index + 1) actions)"

definition validate_trigger_actions :: "TriggerSpec \<Rightarrow> ustr + unit" where
  "validate_trigger_actions trigger =
     (if MAX_TRIGGER_ACTIONS < length (trg_actions trigger)
      then Inl (str ''action count exceeds '' @ nat_str MAX_TRIGGER_ACTIONS)
      else validate_actions_from 0 (trg_actions trigger))"

definition validate_matcher_shape :: "TriggerMatcher \<Rightarrow> ustr + unit" where
  "validate_matcher_shape matcher =
     (case matcher of
        MatchContains text _ \<Rightarrow>
          validate_trigger_text (str ''contains matcher'') text MAX_TRIGGER_MATCHER_CHARACTERS False
      | MatchRegex pattern \<Rightarrow>
          validate_trigger_text (str ''regex matcher'') pattern MAX_TRIGGER_MATCHER_CHARACTERS False)"

definition build_trigger_regex :: "trigger_env \<Rightarrow> ustr \<Rightarrow> ustr + unit" where
  "build_trigger_regex env pattern =
     (if te_regex_builds env pattern then Inr () else Inl (str ''invalid regex matcher''))"

definition validate_matcher :: "trigger_env \<Rightarrow> TriggerMatcher \<Rightarrow> ustr + unit" where
  "validate_matcher env matcher =
     and_then (validate_matcher_shape matcher) (\<lambda>_.
       case matcher of
         MatchRegex pattern \<Rightarrow> build_trigger_regex env pattern
       | MatchContains _ _ \<Rightarrow> Inr ())"

definition validate_trigger :: "trigger_env \<Rightarrow> TriggerSpec \<Rightarrow> ustr + unit" where
  "validate_trigger env trigger =
     and_then (validate_trigger_metadata trigger) (\<lambda>_.
       and_then (validate_matcher env (trg_matcher trigger)) (\<lambda>_. validate_trigger_actions trigger))"

definition validate_triggers :: "trigger_env \<Rightarrow> TriggerSpec list \<Rightarrow> ustr + unit" where
  "validate_triggers env triggers =
     (if MAX_TRIGGERS_PER_PROFILE < length triggers
      then Inl (str ''trigger count exceeds '' @ nat_str MAX_TRIGGERS_PER_PROFILE)
      else check_unique (\<lambda>n e. str ''trigger '' @ nat_str n @ str '': '' @ e)
             (\<lambda>n. str ''trigger '' @ nat_str n @ str '': duplicate id'')
             (validate_trigger env) trg_id 0 [] triggers)"

definition normalize_triggers :: "trigger_env \<Rightarrow> TriggerSpec list \<Rightarrow> TriggerSpec list" where
  "normalize_triggers env triggers =
     retain_unique (\<lambda>t. is_ok (validate_trigger env t)) trg_id []
       (take MAX_TRIGGERS_PER_PROFILE triggers)"

definition matcher_hits :: "trigger_env \<Rightarrow> TriggerMatcher \<Rightarrow> ustr \<Rightarrow> bool" where
  "matcher_hits env matcher line =
     (if \<not> is_ok (validate_matcher_shape matcher) then False
      else (case matcher of
              MatchContains text case_sensitive \<Rightarrow>
                if case_sensitive then contains_str line text
                else contains_str (te_lowercase env line) (te_lowercase env text)
            | MatchRegex pattern \<Rightarrow>
                is_ok (build_trigger_regex env pattern) \<and> te_regex_matches env pattern line))"

definition evaluate_triggers :: "trigger_env \<Rightarrow> TriggerSpec list \<Rightarrow> ustr \<Rightarrow> TriggerMatch list" where
  "evaluate_triggers env triggers line =
     map (\<lambda>t. \<lparr>tm_trigger_id = trg_id t, tm_label = trg_label t, tm_actions = trg_actions t\<rparr>)
       (filter (\<lambda>t. trg_enabled t \<and> is_ok (validate_trigger_metadata t) \<and>
                    matcher_hits env (trg_matcher t) line \<and> is_ok (validate_trigger_actions t))
         (take MAX_TRIGGERS_PER_PROFILE triggers))"

section \<open>Facts\<close>

lemma validate_triggers_ok:
  "is_ok (validate_triggers env ts) \<longleftrightarrow>
     length ts \<le> 64 \<and> list_all (\<lambda>t. is_ok (validate_trigger env t)) ts \<and> distinct (map trg_id ts)"
  by (simp add: validate_triggers_def check_unique_ok not_less)

interpretation trigger_list:
  list_normalizer "normalize_triggers env" "\<lambda>ts. is_ok (validate_triggers env ts)" for env
proof unfold_locales
  fix ts
  show "is_ok (validate_triggers env (normalize_triggers env ts))"
    using retain_unique_sound [of "\<lambda>t. is_ok (validate_trigger env t)" trg_id "[]" "take 64 ts"]
      list_emb_length [of "(=)" "normalize_triggers env ts" "take 64 ts"]
    by (auto simp add: validate_triggers_ok normalize_triggers_def)
  show "is_ok (validate_triggers env ts) \<Longrightarrow> normalize_triggers env ts = ts"
    by (simp add: validate_triggers_ok normalize_triggers_def retain_unique_id)
qed

text \<open>A trigger hits only if it is valid as a whole, the pattern compiling included.\<close>

lemma hit_is_valid:
  assumes "is_ok (validate_trigger_metadata t)" "matcher_hits env (trg_matcher t) line"
    "is_ok (validate_trigger_actions t)"
  shows "is_ok (validate_trigger env t)"
  using assms
  by (cases "trg_matcher t")
     (auto simp add: validate_trigger_def validate_matcher_def matcher_hits_def res_simps
       split: if_splits)

section \<open>Properties\<close>

text \<open>
  Normalising a list of triggers yields a list that validation accepts, normalising twice is
  normalising once, and the lists it leaves alone are exactly the accepted ones.
\<close>

theorem normalize_triggers_accepted:
  "is_ok (validate_triggers env (normalize_triggers env ts)) \<and>
   normalize_triggers env (normalize_triggers env ts) = normalize_triggers env ts \<and>
   (normalize_triggers env ts = ts \<longleftrightarrow> is_ok (validate_triggers env ts))"
  using trigger_list.norm_accepted trigger_list.norm_idem trigger_list.norm_fixed_iff by blast

text \<open>
  On a validated list, a line fires exactly the enabled triggers whose matcher applies, in
  order: a text matcher when the line contains the text (up to lower case unless it is case
  sensitive), a pattern matcher when the pattern matches.
\<close>

theorem evaluate_triggers_exact:
  assumes "is_ok (validate_triggers env ts)"
  shows "map tm_trigger_id (evaluate_triggers env ts line) =
    map trg_id (filter (\<lambda>t. trg_enabled t \<and>
      (case trg_matcher t of
         MatchContains text True \<Rightarrow> contains_str line text
       | MatchContains text False \<Rightarrow> contains_str (te_lowercase env line) (te_lowercase env text)
       | MatchRegex pattern \<Rightarrow> te_regex_matches env pattern line)) ts)"
proof -
  have v: "length ts \<le> 64" "\<And>t. t \<in> set ts \<Longrightarrow> is_ok (validate_trigger env t)"
    using assms by (auto simp add: validate_triggers_ok list_all_iff)
  have "(trg_enabled t \<and> is_ok (validate_trigger_metadata t) \<and>
      matcher_hits env (trg_matcher t) line \<and> is_ok (validate_trigger_actions t)) =
    (trg_enabled t \<and> (case trg_matcher t of
         MatchContains text True \<Rightarrow> contains_str line text
       | MatchContains text False \<Rightarrow> contains_str (te_lowercase env line) (te_lowercase env text)
       | MatchRegex pattern \<Rightarrow> te_regex_matches env pattern line))" if "t \<in> set ts" for t
    using v(2) [OF that]
    by (cases "trg_matcher t")
       (auto simp add: validate_trigger_def validate_matcher_def matcher_hits_def res_simps
         split: bool.splits)
  then show ?thesis using v(1) by (simp add: evaluate_triggers_def cong: filter_cong)
qed

definition ex_env :: trigger_env where
  "ex_env = \<lparr>te_regex_builds = \<lambda>_. True, te_regex_matches = \<lambda>_ _. False, te_lowercase = \<lambda>s. s\<rparr>"

definition ex_trigger :: TriggerSpec where
  "ex_trigger = \<lparr>trg_id = str ''t1'', trg_label = [], trg_matcher = MatchContains (str ''err'') True,
     trg_actions = [ActSound (str ''bell'')], trg_enabled = True\<rparr>"

theorem evaluate_triggers_exact_witness:
  "is_ok (validate_triggers ex_env [ex_trigger]) \<and>
   map tm_trigger_id (evaluate_triggers ex_env [ex_trigger] (str ''an error'')) = [str ''t1'']"
proof -
  have ok: "is_ok (validate_triggers ex_env [ex_trigger])"
    by (simp add: validate_triggers_ok validate_trigger_def validate_trigger_metadata_def
        validate_trigger_text_def validate_matcher_def validate_matcher_shape_def
        validate_trigger_actions_def validate_action_def ex_trigger_def is_control_def
        trim_def trim_start_def trim_end_def is_whitespace_def)
  show ?thesis
    using ok evaluate_triggers_exact [OF ok, of "str ''an error''"]
    by (simp add: ex_trigger_def starts_with_def)
qed

end
