(* ===== verification/Tunnels.thy ===== *)
theory Tunnels
  imports List_Rules
begin

text \<open>
  Tunnels of a profile (\<open>tunnels.rs\<close>): validating and normalising a list of tunnels and the
  route rules of dynamic ones, and deciding whether a target may be reached. Networks and
  addresses are parsed and printed by the \<open>ipnet\<close> crate and by \<open>std::net\<close> on its behalf: the
  argument \<open>net\<close>, about which nothing is assumed, so the results hold whatever those parsers
  accept.
\<close>

record ('net, 'ip) net_ops =
  net_parse :: "ustr \<Rightarrow> 'net option"
  net_trunc_string :: "'net \<Rightarrow> ustr"      \<comment> \<open>\<open>network.trunc().to_string()\<close>\<close>
  net_contains :: "'net \<Rightarrow> 'ip \<Rightarrow> bool"
  ip_parse :: "ustr \<Rightarrow> 'ip option"
  ip_string :: "'ip \<Rightarrow> ustr"

abbreviation (input) MAX_TUNNELS_PER_PROFILE :: nat where "MAX_TUNNELS_PER_PROFILE \<equiv> 64"
abbreviation (input) MAX_TUNNEL_ID_CHARACTERS :: nat where "MAX_TUNNEL_ID_CHARACTERS \<equiv> 128"
abbreviation (input) MAX_TUNNEL_LABEL_CHARACTERS :: nat where "MAX_TUNNEL_LABEL_CHARACTERS \<equiv> 128"
abbreviation (input) MAX_TUNNEL_HOST_CHARACTERS :: nat where "MAX_TUNNEL_HOST_CHARACTERS \<equiv> 255"
abbreviation (input) MAX_TUNNEL_ROUTE_RULES :: nat where "MAX_TUNNEL_ROUTE_RULES \<equiv> 64"

section \<open>Texts\<close>

text \<open>The loop over the characters, with the count so far.\<close>

fun check_characters :: "ustr \<Rightarrow> nat \<Rightarrow> bool \<Rightarrow> nat \<Rightarrow> ustr \<Rightarrow> ustr + unit" where
  "check_characters label max_characters reject_whitespace count [] = Inr ()"
| "check_characters label max_characters reject_whitespace count (c # cs) =
     (if max_characters < count + 1
      then Inl (label @ str '' exceeds '' @ nat_str max_characters @ str '' Unicode characters'')
      else if is_control c then Inl (label @ str '' must not contain control characters'')
      else if reject_whitespace \<and> is_whitespace c
      then Inl (label @ str '' must not contain whitespace'')
      else check_characters label max_characters reject_whitespace (count + 1) cs)"

definition validate_tunnel_text :: "ustr \<Rightarrow> ustr \<Rightarrow> nat \<Rightarrow> bool \<Rightarrow> bool \<Rightarrow> ustr + unit" where
  "validate_tunnel_text label value max_characters allow_empty reject_whitespace =
     (if trim value \<noteq> value then Inl (label @ str '' must not have surrounding whitespace'')
      else if \<not> allow_empty \<and> value = [] then Inl (label @ str '' must not be empty'')
      else check_characters label max_characters reject_whitespace 0 value)"

definition validate_host :: "ustr \<Rightarrow> ustr \<Rightarrow> bool \<Rightarrow> ustr + unit" where
  "validate_host label value allow_empty =
     validate_tunnel_text label value MAX_TUNNEL_HOST_CHARACTERS allow_empty True"

section \<open>Route rules\<close>

definition normalized_route_host :: "('net, 'ip) net_ops \<Rightarrow> ustr \<Rightarrow> ustr" where
  "normalized_route_host net v =
     (let v = to_ascii_lowercase (trim_end_char (chr CHR ''.'') (trim v))
      in case net_parse net v of
           Some network \<Rightarrow> net_trunc_string net network
         | None \<Rightarrow> (case ip_parse net v of Some address \<Rightarrow> ip_string net address | None \<Rightarrow> v))"

definition normalize_tunnel_route_rules ::
  "('net, 'ip) net_ops \<Rightarrow> TunnelRouteRule list \<Rightarrow> TunnelRouteRule list" where
  "normalize_tunnel_route_rules net rules =
     map (\<lambda>rule. if \<not> list_ex is_control (rr_host rule)
                 then rule\<lparr>rr_host := normalized_route_host net (rr_host rule)\<rparr> else rule) rules"

definition valid_dns_name :: "ustr \<Rightarrow> bool" where
  "valid_dns_name v =
     (if v = [] \<or> 253 < byte_len v \<or> starts_with v (str ''.'') \<or> ends_with v (str ''.'') then False
      else list_all (\<lambda>label. label \<noteq> [] \<and> byte_len label \<le> 63 \<and>
             \<not> starts_with label (str ''-'') \<and> \<not> ends_with label (str ''-'') \<and>
             list_all (\<lambda>b. is_ascii_alphanumeric b \<or> b = chr CHR ''-'') (utf8_bytes label))
           (split_char (chr CHR ''.'') v))"

definition validate_route_rule :: "('net, 'ip) net_ops \<Rightarrow> TunnelRouteRule \<Rightarrow> ustr + unit" where
  "validate_route_rule net rule =
     and_then (validate_host (str ''host'') (rr_host rule) False) (\<lambda>_.
       if normalized_route_host net (rr_host rule) \<noteq> rr_host rule
       then Inl (str ''host must be normalized without surrounding whitespace or a trailing dot'')
       else if rr_port rule = Some 0 then Inl (str ''port must be between 1 and 65535'')
       else if starts_with (rr_host rule) (str ''*.'') then
         if \<not> valid_dns_name (drop 2 (rr_host rule))
         then Inl (str ''wildcard host must be a valid *.example.com suffix'') else Inr ()
       else if chr CHR ''/'' \<in> set (rr_host rule) then
         (case net_parse net (rr_host rule) of
            None \<Rightarrow> Inl (str ''CIDR host must be a valid IPv4 or IPv6 network'')
          | Some network \<Rightarrow>
              if net_trunc_string net network \<noteq> rr_host rule
              then Inl (str ''CIDR host must use its canonical network address'') else Inr ())
       else if ip_parse net (rr_host rule) \<noteq> None \<or> valid_dns_name (rr_host rule) then Inr ()
       else Inl (str ''host must be a domain, wildcard domain, IP address, or CIDR''))"

definition validate_tunnel_route_rules ::
  "('net, 'ip) net_ops \<Rightarrow> TunnelRouteRule list \<Rightarrow> ustr + unit" where
  "validate_tunnel_route_rules net rules =
     (if MAX_TUNNEL_ROUTE_RULES < length rules
      then Inl (str ''route rule count exceeds '' @ nat_str MAX_TUNNEL_ROUTE_RULES)
      else check_unique (\<lambda>n e. str ''route rule '' @ nat_str n @ str '': '' @ e)
             (\<lambda>n. str ''route rule '' @ nat_str n @ str '': duplicate rule'')
             (validate_route_rule net) (\<lambda>r. (rr_host r, rr_port r)) 0 [] rules)"

text \<open>The byte access before the suffix is in range: the target is longer than the suffix.\<close>

definition tunnel_route_allowed ::
  "('net, 'ip) net_ops \<Rightarrow> TunnelRouteRule list \<Rightarrow> ustr \<Rightarrow> u16 \<Rightarrow> bool" where
  "tunnel_route_allowed net rules target_host target_port =
     (if rules = [] then True
      else
        let target_host = to_ascii_lowercase (trim_end_char (chr CHR ''.'') (trim target_host));
            target_ip = ip_parse net target_host
        in list_ex (\<lambda>rule.
             if (case rr_port rule of None \<Rightarrow> False | Some port \<Rightarrow> port \<noteq> target_port) then False
             else (case net_parse net (rr_host rule) of
                     Some network \<Rightarrow>
                       (case target_ip of None \<Rightarrow> False | Some address \<Rightarrow> net_contains net network address)
                   | None \<Rightarrow>
                       (case strip_prefix (rr_host rule) (str ''*.'') of
                          Some sfx \<Rightarrow>
                            byte_len sfx < byte_len target_host \<and> ends_with target_host sfx \<and>
                            utf8_bytes target_host ! (byte_len target_host - byte_len sfx - 1) = 46
                        | None \<Rightarrow> rr_host rule = target_host))) rules)"

section \<open>Tunnels\<close>

definition normalize_tunnel :: "('net, 'ip) net_ops \<Rightarrow> TunnelSpec \<Rightarrow> TunnelSpec" where
  "normalize_tunnel net tunnel =
     (let tunnel = tunnel\<lparr>tn_id := trim (tn_id tunnel), tn_label := trim (tn_label tunnel),
                          tn_bind_host := trim (tn_bind_host tunnel),
                          tn_target_host := trim (tn_target_host tunnel)\<rparr>
      in if tn_mode tunnel = TunDynamic
         then tunnel\<lparr>tn_target_host := [], tn_target_port := 0,
                     tn_route_rules := normalize_tunnel_route_rules net (tn_route_rules tunnel)\<rparr>
         else tunnel\<lparr>tn_route_rules := []\<rparr>)"

definition validate_tunnel :: "('net, 'ip) net_ops \<Rightarrow> TunnelSpec \<Rightarrow> ustr + unit" where
  "validate_tunnel net tunnel =
     and_then (validate_tunnel_text (str ''id'') (tn_id tunnel) MAX_TUNNEL_ID_CHARACTERS False False) (\<lambda>_.
     and_then (validate_tunnel_text (str ''label'') (tn_label tunnel) MAX_TUNNEL_LABEL_CHARACTERS
                 False False) (\<lambda>_.
     and_then (validate_host (str ''bind host'') (tn_bind_host tunnel) (tn_mode tunnel = TunRemote)) (\<lambda>_.
       if tn_egress tunnel = PortmateHost \<and> tn_mode tunnel = TunRemote
       then Inl (str ''PortMate host egress does not support remote SSH forwarding'')
       else if tn_mode tunnel = TunDynamic then
         if tn_target_host tunnel \<noteq> [] \<or> tn_target_port tunnel \<noteq> 0
         then Inl (str ''dynamic tunnel must not have a target'')
         else and_then (validate_tunnel_route_rules net (tn_route_rules tunnel)) (\<lambda>_.
           if tn_egress tunnel = PortmateHost \<and> tn_route_rules tunnel = []
           then Inl (str ''PortMate host SOCKS5 proxies require at least one route rule'')
           else Inr ())
       else
         if tn_route_rules tunnel \<noteq> []
         then Inl (str ''route rules are only supported by dynamic tunnels'')
         else and_then (validate_host (str ''target host'') (tn_target_host tunnel) False) (\<lambda>_.
           if tn_target_port tunnel = 0
           then Inl (str ''target port must be between 1 and 65535'') else Inr ()))))"

definition validate_tunnels :: "('net, 'ip) net_ops \<Rightarrow> TunnelSpec list \<Rightarrow> ustr + unit" where
  "validate_tunnels net tunnels =
     (if MAX_TUNNELS_PER_PROFILE < length tunnels
      then Inl (str ''tunnel count exceeds '' @ nat_str MAX_TUNNELS_PER_PROFILE)
      else check_unique (\<lambda>n e. str ''tunnel '' @ nat_str n @ str '': '' @ e)
             (\<lambda>n. str ''tunnel '' @ nat_str n @ str '': duplicate id'')
             (validate_tunnel net) tn_id 0 [] tunnels)"

text \<open>
  The inner loop over the tunnels of one kind: the list built so far and the identifiers seen
  are passed on; at the capacity nothing is added any more.
\<close>

fun normalize_tunnels_loop ::
  "('net, 'ip) net_ops \<Rightarrow> TunnelSpec list \<Rightarrow> ustr list \<Rightarrow> TunnelSpec list
     \<Rightarrow> TunnelSpec list \<times> ustr list" where
  "normalize_tunnels_loop net normalized ids [] = (normalized, ids)"
| "normalize_tunnels_loop net normalized ids (tunnel # tunnels) =
     (if MAX_TUNNELS_PER_PROFILE \<le> length normalized then (normalized, ids)
      else
        let tunnel = normalize_tunnel net tunnel
        in if is_ok (validate_tunnel net tunnel) \<and> tn_id tunnel \<notin> set ids
           then normalize_tunnels_loop net (normalized @ [tunnel]) (tn_id tunnel # ids) tunnels
           else normalize_tunnels_loop net normalized ids tunnels)"

definition normalize_tunnels :: "('net, 'ip) net_ops \<Rightarrow> TunnelSpec list \<Rightarrow> TunnelSpec list" where
  "normalize_tunnels net tunnels =
     (let (normalized, ids) = normalize_tunnels_loop net [] [] (filter tn_enabled tunnels)
      in fst (normalize_tunnels_loop net normalized ids (filter (\<lambda>t. \<not> tn_enabled t) tunnels)))"

section \<open>Facts\<close>

lemma check_characters_ok:
  "is_ok (check_characters label m r n cs) \<longleftrightarrow>
     (cs = [] \<or> n + length cs \<le> m) \<and>
     (\<forall>c \<in> set cs. \<not> is_control c \<and> (r \<longrightarrow> \<not> is_whitespace c))"
proof (induction cs arbitrary: n)
  case (Cons c cs)
  show ?case using Cons.IH [of "n + 1"] by (cases cs) auto
qed simp

lemma validate_tunnel_text_ok:
  "is_ok (validate_tunnel_text label v m e r) \<longleftrightarrow>
     trim v = v \<and> (e \<or> v \<noteq> []) \<and> length v \<le> m \<and>
     (\<forall>c \<in> set v. \<not> is_control c \<and> (r \<longrightarrow> \<not> is_whitespace c))"
  by (auto simp add: validate_tunnel_text_def check_characters_ok)

lemma and_then_ok: "is_ok (and_then r f) \<longleftrightarrow> (\<exists>a. r = Inr a \<and> is_ok (f a))"
  by (cases r) auto

lemma and_then_ok_unit: "is_ok (and_then (r :: 'e + unit) f) \<longleftrightarrow> is_ok r \<and> is_ok (f ())"
  by (cases r) auto

lemma validate_route_rules_ok:
  "is_ok (validate_tunnel_route_rules net rules) \<longleftrightarrow>
     length rules \<le> 64 \<and> list_all (\<lambda>r. is_ok (validate_route_rule net r)) rules \<and>
     distinct (map (\<lambda>r. (rr_host r, rr_port r)) rules)"
  by (simp add: validate_tunnel_route_rules_def check_unique_ok not_less)

lemma validate_route_rule_normal:
  assumes "is_ok (validate_route_rule net r)"
  shows "\<not> list_ex is_control (rr_host r)" "normalized_route_host net (rr_host r) = rr_host r"
  using assms
  by (auto simp add: validate_route_rule_def and_then_ok_unit validate_host_def
      validate_tunnel_text_ok list_ex_iff split: if_splits)

lemma normalize_route_rules_id:
  "list_all (\<lambda>r. is_ok (validate_route_rule net r)) rules \<Longrightarrow>
     normalize_tunnel_route_rules net rules = rules"
  by (induction rules)
     (auto simp add: normalize_tunnel_route_rules_def validate_route_rule_normal)

lemma validate_tunnel_ok:
  "is_ok (validate_tunnel net t) \<longleftrightarrow>
     is_ok (validate_tunnel_text (str ''id'') (tn_id t) 128 False False) \<and>
     is_ok (validate_tunnel_text (str ''label'') (tn_label t) 128 False False) \<and>
     is_ok (validate_host (str ''bind host'') (tn_bind_host t) (tn_mode t = TunRemote)) \<and>
     \<not> (tn_egress t = PortmateHost \<and> tn_mode t = TunRemote) \<and>
     (if tn_mode t = TunDynamic
      then tn_target_host t = [] \<and> tn_target_port t = 0 \<and>
           is_ok (validate_tunnel_route_rules net (tn_route_rules t)) \<and>
           (tn_egress t = PortmateHost \<longrightarrow> tn_route_rules t \<noteq> [])
      else tn_route_rules t = [] \<and>
           is_ok (validate_host (str ''target host'') (tn_target_host t) False) \<and>
           tn_target_port t \<noteq> 0)"
  by (auto simp add: validate_tunnel_def and_then_ok_unit)

text \<open>Normalising leaves a valid tunnel alone.\<close>

lemma normalize_tunnel_id:
  assumes "is_ok (validate_tunnel net t)"
  shows "normalize_tunnel net t = t"
proof -
  have "trim (tn_id t) = tn_id t" "trim (tn_label t) = tn_label t" "trim (tn_bind_host t) = tn_bind_host t"
    "trim (tn_target_host t) = tn_target_host t"
    using assms
    by (auto simp add: validate_tunnel_ok validate_host_def validate_tunnel_text_ok split: if_splits)
  moreover have "tn_mode t = TunDynamic \<Longrightarrow>
      normalize_tunnel_route_rules net (tn_route_rules t) = tn_route_rules t \<and>
      tn_target_host t = [] \<and> tn_target_port t = 0"
    using assms by (simp add: validate_tunnel_ok validate_route_rules_ok normalize_route_rules_id)
  moreover have "tn_mode t \<noteq> TunDynamic \<Longrightarrow> tn_route_rules t = []"
    using assms by (simp add: validate_tunnel_ok)
  ultimately show ?thesis
    by (cases t) (auto simp add: normalize_tunnel_def Let_def)
qed

lemma normalize_tunnel_enabled [simp]: "tn_enabled (normalize_tunnel net t) = tn_enabled t"
  by (simp add: normalize_tunnel_def Let_def)

definition tunnels_ok :: "('net, 'ip) net_ops \<Rightarrow> TunnelSpec list \<Rightarrow> bool" where
  "tunnels_ok net ts \<longleftrightarrow>
     length ts \<le> 64 \<and> list_all (\<lambda>t. is_ok (validate_tunnel net t)) ts \<and> distinct (map tn_id ts)"

lemma validate_tunnels_ok: "is_ok (validate_tunnels net ts) \<longleftrightarrow> tunnels_ok net ts"
  by (simp add: validate_tunnels_def tunnels_ok_def check_unique_ok not_less)

lemma normalize_tunnels_loop_ok:
  assumes "tunnels_ok net normalized" "set ids = tn_id ` set normalized"
    "normalize_tunnels_loop net normalized ids ts = (out, ids')" "\<forall>t \<in> set ts. tn_enabled t = e"
  shows "tunnels_ok net out \<and> set ids' = tn_id ` set out \<and>
    (\<exists>added. out = normalized @ added \<and> (\<forall>t \<in> set added. tn_enabled t = e))"
  using assms
proof (induction ts arbitrary: normalized ids)
  case (Cons t ts)
  let ?t = "normalize_tunnel net t"
  consider "64 \<le> length normalized" |
    (add) "length normalized < 64" "is_ok (validate_tunnel net ?t) \<and> tn_id ?t \<notin> set ids" |
    (skip) "length normalized < 64" "\<not> (is_ok (validate_tunnel net ?t) \<and> tn_id ?t \<notin> set ids)"
    by linarith
  then show ?case
  proof cases
    case add
    then have "tunnels_ok net (normalized @ [?t])"
      using Cons.prems(1,2) by (auto simp add: tunnels_ok_def)
    from Cons.IH [OF this, of "tn_id ?t # ids"] add Cons.prems(2-4) show ?thesis
      by (auto simp add: Let_def)
  next
    case skip
    with Cons.IH [OF Cons.prems(1,2)] Cons.prems(3,4) show ?thesis by (auto simp add: Let_def)
  qed (use Cons.prems in auto)
qed simp

lemma normalize_tunnels_loop_id:
  assumes "list_all (\<lambda>t. is_ok (validate_tunnel net t)) ts" "distinct (map tn_id (normalized @ ts))"
    "length (normalized @ ts) \<le> 64" "set ids = tn_id ` set normalized"
  shows "normalize_tunnels_loop net normalized ids ts = (normalized @ ts, rev (map tn_id ts) @ ids)"
  using assms
proof (induction ts arbitrary: normalized ids)
  case (Cons t ts)
  have "normalize_tunnels_loop net (normalized @ [t]) (tn_id t # ids) ts =
      ((normalized @ [t]) @ ts, rev (map tn_id ts) @ tn_id t # ids)"
    using Cons.prems by (intro Cons.IH) auto
  then show ?case using Cons.prems by (auto simp add: normalize_tunnel_id Let_def)
qed simp

text \<open>The normal lists: valid, with the enabled tunnels first.\<close>

definition tunnels_normal :: "('net, 'ip) net_ops \<Rightarrow> TunnelSpec list \<Rightarrow> bool" where
  "tunnels_normal net ts \<longleftrightarrow>
     is_ok (validate_tunnels net ts) \<and> filter tn_enabled ts @ filter (\<lambda>t. \<not> tn_enabled t) ts = ts"

lemma normalize_tunnels_normal: "tunnels_normal net (normalize_tunnels net ts)"
proof -
  obtain a ids where a: "normalize_tunnels_loop net [] [] (filter tn_enabled ts) = (a, ids)"
    by (cases "normalize_tunnels_loop net [] [] (filter tn_enabled ts)")
  obtain b ids' where b: "normalize_tunnels_loop net a ids (filter (\<lambda>t. \<not> tn_enabled t) ts) = (b, ids')"
    by (cases "normalize_tunnels_loop net a ids (filter (\<lambda>t. \<not> tn_enabled t) ts)")
  have A: "tunnels_ok net a" "set ids = tn_id ` set a" "\<forall>t \<in> set a. tn_enabled t"
    using normalize_tunnels_loop_ok [OF _ _ a, of True] by (auto simp add: tunnels_ok_def)
  obtain added where B: "tunnels_ok net b" "b = a @ added" "\<forall>t \<in> set added. \<not> tn_enabled t"
    using normalize_tunnels_loop_ok [OF A(1,2) b, of False] by auto
  have "filter tn_enabled a = a" "filter tn_enabled added = []"
    "filter (\<lambda>t. \<not> tn_enabled t) a = []" "filter (\<lambda>t. \<not> tn_enabled t) added = added"
    using A(3) B(3) by (auto simp add: filter_id_conv filter_empty_conv)
  then have "filter tn_enabled b @ filter (\<lambda>t. \<not> tn_enabled t) b = b" using B(2) by simp
  moreover have "normalize_tunnels net ts = b" using a b by (simp add: normalize_tunnels_def)
  ultimately show ?thesis using B(1) by (simp add: tunnels_normal_def validate_tunnels_ok)
qed

lemma normalize_tunnels_id:
  assumes "tunnels_normal net ts"
  shows "normalize_tunnels net ts = ts"
proof -
  let ?e = "filter tn_enabled ts" and ?d = "filter (\<lambda>t. \<not> tn_enabled t) ts"
  have ok: "tunnels_ok net (?e @ ?d)" and eq: "?e @ ?d = ts"
    using assms by (simp_all add: tunnels_normal_def validate_tunnels_ok)
  have "normalize_tunnels_loop net [] [] ?e = (?e, rev (map tn_id ?e) @ [])"
    using ok normalize_tunnels_loop_id [of net ?e "[]" "[]"] by (auto simp add: tunnels_ok_def)
  moreover have "fst (normalize_tunnels_loop net ?e (rev (map tn_id ?e) @ []) ?d) = ?e @ ?d"
    using ok normalize_tunnels_loop_id [of net ?d ?e "rev (map tn_id ?e) @ []"]
    by (auto simp add: tunnels_ok_def)
  ultimately show ?thesis using eq by (simp add: normalize_tunnels_def)
qed

interpretation tunnel_list: list_normalizer "normalize_tunnels net" "tunnels_normal net" for net
  by unfold_locales (rule normalize_tunnels_normal, rule normalize_tunnels_id)

section \<open>Routing\<close>

text \<open>The reading of one rule: a network, a proper subdomain, or one host.\<close>

definition rule_names :: "('net, 'ip) net_ops \<Rightarrow> TunnelRouteRule \<Rightarrow> ustr \<Rightarrow> bool" where
  "rule_names net rule target \<longleftrightarrow>
     (case net_parse net (rr_host rule) of
        Some network \<Rightarrow> (\<exists>address. ip_parse net target = Some address \<and> net_contains net network address)
      | None \<Rightarrow>
          (if starts_with (rr_host rule) (str ''*.'')
           then \<exists>front. target = front @ chr CHR ''.'' # drop 2 (rr_host rule)
           else target = rr_host rule))"

definition canonical_target :: "ustr \<Rightarrow> ustr" where
  "canonical_target host = to_ascii_lowercase (trim_end_char (chr CHR ''.'') (trim host))"

lemma utf8_char_last: "utf8_char c \<noteq> [] \<and> (last (utf8_char c) = 46 \<longleftrightarrow> c = 46)"
  by (auto simp add: utf8_char_def split: if_splits)

lemma utf8_bytes_last: "s \<noteq> [] \<Longrightarrow> utf8_bytes s \<noteq> [] \<and> (last (utf8_bytes s) = 46 \<longleftrightarrow> last s = 46)"
proof (induction s rule: rev_induct)
  case (snoc c s)
  then show ?case using utf8_char_last [of c] by (auto simp add: last_append)
qed simp

text \<open>The length, suffix and byte tests say that a dot precedes the suffix.\<close>

lemma suffix_tests:
  "(byte_len sfx < byte_len t \<and> ends_with t sfx \<and>
      utf8_bytes t ! (byte_len t - byte_len sfx - 1) = 46) \<longleftrightarrow> (\<exists>front. t = front @ 46 # sfx)"
proof
  assume L: "byte_len sfx < byte_len t \<and> ends_with t sfx \<and>
      utf8_bytes t ! (byte_len t - byte_len sfx - 1) = 46"
  then obtain u where u: "t = u @ sfx" by (auto simp add: ends_with_iff)
  then have "u \<noteq> []" using L by auto
  then obtain front c where c: "u = front @ [c]" by (metis append_butlast_last_id)
  have "byte_len t - byte_len sfx - 1 = length (utf8_bytes u) - 1"
    by (simp add: u length_utf8_bytes)
  then have "last (utf8_bytes u) = 46"
    using L utf8_bytes_last [OF \<open>u \<noteq> []\<close>] by (simp add: u nth_append last_conv_nth)
  then have "c = 46" using utf8_bytes_last [OF \<open>u \<noteq> []\<close>] c by simp
  then show "\<exists>front. t = front @ 46 # sfx" using u c by auto
next
  assume "\<exists>front. t = front @ 46 # sfx"
  then obtain front where t: "t = front @ 46 # sfx" by blast
  have "ends_with t sfx" unfolding ends_with_iff t by (intro exI [where x = "front @ [46]"]) simp
  then show "byte_len sfx < byte_len t \<and> ends_with t sfx \<and>
      utf8_bytes t ! (byte_len t - byte_len sfx - 1) = 46"
    by (simp add: t len_utf8_def nth_append length_utf8_bytes utf8_char_def)
qed

lemma tunnel_route_allowed_iff:
  "tunnel_route_allowed net rules host port \<longleftrightarrow>
     rules = [] \<or>
     (\<exists>r \<in> set rules. (rr_port r = None \<or> rr_port r = Some port) \<and>
        rule_names net r (canonical_target host))"
proof -
  have sp: "strip_prefix h (str ''*.'') = (if starts_with h (str ''*.'') then Some (drop 2 h) else None)" for h
    by (simp add: strip_prefix_def numeral_2_eq_2)
  have dot: "chr CHR ''.'' = 46" by (simp add: chr_def)
  have wild: "(case strip_prefix h (str ''*.'') of
           Some sfx \<Rightarrow> byte_len sfx < byte_len t \<and> ends_with t sfx \<and>
              utf8_bytes t ! (byte_len t - byte_len sfx - 1) = 46
         | None \<Rightarrow> h = t) =
        (if starts_with h (str ''*.'') then \<exists>front. t = front @ chr CHR ''.'' # drop 2 h else t = h)" for h t
    by (cases "starts_with h (str ''*.'')") (simp_all only: sp dot if_True if_False option.case suffix_tests, auto)
  have "(if case rr_port r of None \<Rightarrow> False | Some p \<Rightarrow> p \<noteq> port then False
         else (case net_parse net (rr_host r) of
                 Some network \<Rightarrow>
                   (case ip_parse net t of None \<Rightarrow> False | Some address \<Rightarrow> net_contains net network address)
               | None \<Rightarrow>
                   (case strip_prefix (rr_host r) (str ''*.'') of
                      Some sfx \<Rightarrow> byte_len sfx < byte_len t \<and> ends_with t sfx \<and>
                        utf8_bytes t ! (byte_len t - byte_len sfx - 1) = 46
                    | None \<Rightarrow> rr_host r = t))) =
      ((rr_port r = None \<or> rr_port r = Some port) \<and> rule_names net r t)" for r t
    unfolding wild rule_names_def
    by (cases "rr_port r"; cases "net_parse net (rr_host r)"; cases "ip_parse net t") auto
  then show ?thesis
    unfolding tunnel_route_allowed_def canonical_target_def Let_def by (simp only: list_ex_iff) auto
qed

section \<open>Properties\<close>

text \<open>
  Normalising the tunnels of a profile yields a list that validation accepts, with enabled
  tunnels first; normalising twice is normalising once, and the lists it leaves alone are exactly
  the accepted ones in that order.
\<close>

theorem normalize_tunnels_accepted:
  "is_ok (validate_tunnels net (normalize_tunnels net ts)) \<and>
   normalize_tunnels net (normalize_tunnels net ts) = normalize_tunnels net ts \<and>
   (normalize_tunnels net ts = ts \<longleftrightarrow> tunnels_normal net ts)"
  using tunnel_list.norm_accepted [of net ts] tunnel_list.norm_idem [of net ts]
    tunnel_list.norm_fixed_iff [of net ts]
  by (simp add: tunnels_normal_def)

text \<open>
  A target is allowed exactly when there are no rules, or some rule without a port or with
  the target's port names it: the network contains the address, the target is a proper subdomain
  of a wildcard's domain, or the host is the same, after trimming, removing trailing dots and
  lower-casing.
\<close>

theorem tunnel_route_allowed_spec:
  "tunnel_route_allowed net rules host port \<longleftrightarrow>
     rules = [] \<or>
     (\<exists>r \<in> set rules. (rr_port r = None \<or> rr_port r = Some port) \<and>
        rule_names net r (canonical_target host))"
  by (rule tunnel_route_allowed_iff)

text \<open>
  A dynamic tunnel that leaves through the PortMate host fails closed: once validated, it
  reaches only targets that one of its rules names.
\<close>

theorem host_proxy_fails_closed:
  assumes "is_ok (validate_tunnel net t)" "tn_egress t = PortmateHost" "tn_mode t = TunDynamic"
  shows "tunnel_route_allowed net (tn_route_rules t) host port \<longleftrightarrow>
    (\<exists>r \<in> set (tn_route_rules t). (rr_port r = None \<or> rr_port r = Some port) \<and>
       rule_names net r (canonical_target host))"
  using assms by (simp add: tunnel_route_allowed_iff validate_tunnel_ok)

definition ex_net :: "(unit, unit) net_ops" where
  "ex_net = \<lparr>net_parse = \<lambda>_. None, net_trunc_string = \<lambda>_. [], net_contains = \<lambda>_ _. False,
     ip_parse = \<lambda>_. None, ip_string = \<lambda>_. []\<rparr>"

definition ex_tunnel :: TunnelSpec where
  "ex_tunnel = \<lparr>tn_id = str ''t'', tn_label = str ''l'', tn_egress = PortmateHost,
     tn_mode = TunDynamic, tn_bind_host = str ''h'', tn_bind_port = 1080, tn_target_host = [],
     tn_target_port = 0, tn_route_rules = [\<lparr>rr_host = str ''*.a.b'', rr_port = Some 443\<rparr>],
     tn_enabled = True\<rparr>"

theorem host_proxy_fails_closed_witness:
  "is_ok (validate_tunnel ex_net ex_tunnel) \<and>
   \<not> tunnel_route_allowed ex_net (tn_route_rules ex_tunnel) (str ''x.a.b'') 80"
proof -
  have trims: "trim [c] = [c]" if "\<not> is_whitespace c" for c
    using that by (simp add: trim_def trim_start_def trim_end_def)
  have host: "trim (str ''*.a.b'') = str ''*.a.b''"
    by (simp add: trim_def trim_start_def trim_end_def is_whitespace_def)
  have ok: "is_ok (validate_tunnel ex_net ex_tunnel)"
    using host
    by (simp add: validate_tunnel_ok ex_tunnel_def validate_host_def validate_tunnel_text_ok trims
        is_whitespace_def is_control_def validate_route_rules_ok validate_route_rule_def and_then_ok_unit
        normalized_route_host_def ex_net_def Let_def trim_end_char_def to_ascii_lowercase_def
        ascii_lower_def is_ascii_upper_def starts_with_def ends_with_def valid_dns_name_def
        len_utf8_def split_char_def chr_def utf8_char_def is_ascii_alphanumeric_def
        is_ascii_digit_def is_ascii_lower_def)
  have "tn_egress ex_tunnel = PortmateHost" "tn_mode ex_tunnel = TunDynamic"
    by (simp_all add: ex_tunnel_def)
  from ok host_proxy_fails_closed [OF ok this, of "str ''x.a.b''" 80] show ?thesis
    by (simp add: ex_tunnel_def)
qed

end
