(* ===== verification/Scripts.thy ===== *)
theory Scripts
  imports List_Rules
begin

text \<open>
  Custom host scripts (\<open>custom_scripts.rs\<close>): validating a script and the parameters of a call,
  the tool a published script offers, and normalising the scripts of a loaded store. JSON values
  belong to \<open>serde_json\<close> and UUID parsing to \<open>uuid\<close>: the arguments \<open>js\<close> and \<open>uuid_ok\<close>.
\<close>

record 'j json_ops =
  js_object :: "'j \<Rightarrow> (ustr \<times> 'j) list option"  \<comment> \<open>\<open>as_object\<close>, with distinct keys\<close>
  js_len :: "'j \<Rightarrow> nat option"                   \<comment> \<open>the length of \<open>to_vec\<close>\<close>
  js_is_string :: "'j \<Rightarrow> bool"
  js_is_number :: "'j \<Rightarrow> bool"
  js_is_i64 :: "'j \<Rightarrow> bool"
  js_is_u64 :: "'j \<Rightarrow> bool"
  js_is_boolean :: "'j \<Rightarrow> bool"
  js_as_str :: "'j \<Rightarrow> ustr option"

datatype ScriptError =
    InvalidTimeout | InvalidPath | PathNotAbsolute | TooManyClientsOrParameters
  | InvalidClientId | InvalidParameterDefinition
  | ParametersNotObject | ParametersUnserializable | ParametersTooLarge
  | UnknownParameter ustr | MissingParameter ustr | InvalidParameterType ustr | ParameterHasNul ustr
  | IdNotUuid | InvalidName | InvalidDescription | InvalidContent | NoClientSelected
  | InconsistentTimestamps

abbreviation (input) MAX_CUSTOM_SCRIPTS :: nat where "MAX_CUSTOM_SCRIPTS \<equiv> 128"
abbreviation (input) MAX_CUSTOM_SCRIPT_NAME_CHARACTERS :: nat
  where "MAX_CUSTOM_SCRIPT_NAME_CHARACTERS \<equiv> 128"
abbreviation (input) MAX_CUSTOM_SCRIPT_DESCRIPTION_CHARACTERS :: nat
  where "MAX_CUSTOM_SCRIPT_DESCRIPTION_CHARACTERS \<equiv> 1024"
abbreviation (input) MAX_CUSTOM_SCRIPT_CONTENT_CHARACTERS :: nat
  where "MAX_CUSTOM_SCRIPT_CONTENT_CHARACTERS \<equiv> 65536"
abbreviation (input) MAX_CUSTOM_SCRIPT_CONTENT_BYTES :: nat
  where "MAX_CUSTOM_SCRIPT_CONTENT_BYTES \<equiv> 262144"

section \<open>Configuration\<close>

definition byte_at :: "nat \<Rightarrow> ustr \<Rightarrow> nat option" where
  "byte_at i s = (let b = utf8_bytes s in if i < length b then Some (b ! i) else None)"

definition validate_script_path :: "ustr \<Rightarrow> ScriptError + unit" where
  "validate_script_path path =
     (if 4096 < byte_len path \<or> list_ex is_control path then Inl InvalidPath
      else if path \<noteq> [] \<and> \<not> starts_with path (str ''/'') \<and>
              \<not> (byte_at 1 path = Some (of_char CHR '':'') \<and>
                 (byte_at 2 path = Some 92 \<or> byte_at 2 path = Some (of_char CHR ''/''))) \<and>
              \<not> starts_with path [92, 92]
      then Inl PathNotAbsolute
      else Inr ())"

fun validate_client_ids :: "ustr list \<Rightarrow> ustr list \<Rightarrow> ScriptError + unit" where
  "validate_client_ids seen [] = Inr ()"
| "validate_client_ids seen (i # ids) =
     (if i = [] \<or> 128 < byte_len i \<or> trim i \<noteq> i \<or> list_ex is_control i \<or> i \<in> set seen
      then Inl InvalidClientId
      else validate_client_ids (i # seen) ids)"

fun validate_parameter_definitions ::
  "ustr list \<Rightarrow> HostScriptParameter list \<Rightarrow> ScriptError + unit" where
  "validate_parameter_definitions seen [] = Inr ()"
| "validate_parameter_definitions seen (p # ps) =
     (if hsp_name p = [] \<or> 64 < byte_len (hsp_name p) \<or>
         \<not> list_all (\<lambda>b. is_ascii_alphanumeric b \<or> b = of_char CHR ''_'') (utf8_bytes (hsp_name p)) \<or>
         is_ascii_digit (hd (utf8_bytes (hsp_name p))) \<or>
         to_ascii_lowercase (hsp_name p) \<in> set seen \<or>
         1024 < byte_len (hsp_description p) \<or> list_ex is_control (hsp_description p)
      then Inl InvalidParameterDefinition
      else validate_parameter_definitions (to_ascii_lowercase (hsp_name p) # seen) ps)"

definition validate_host_script_config :: "HostScriptConfig \<Rightarrow> ScriptError + unit" where
  "validate_host_script_config host =
     (if \<not> (1 \<le> hsc_timeout_seconds host \<and> hsc_timeout_seconds host \<le> 60) then Inl InvalidTimeout
      else
        and_then (validate_script_path (hsc_interpreter host)) (\<lambda>_.
        and_then (validate_script_path (hsc_working_directory host)) (\<lambda>_.
          if 128 < length (hsc_allowed_client_ids host) \<or> 32 < length (hsc_parameters host)
          then Inl TooManyClientsOrParameters
          else and_then (validate_client_ids [] (hsc_allowed_client_ids host)) (\<lambda>_.
            validate_parameter_definitions [] (hsc_parameters host)))))"

section \<open>Parameters of a call\<close>

definition parameter_kind_ok :: "'j json_ops \<Rightarrow> HostScriptParameterKind \<Rightarrow> 'j \<Rightarrow> bool" where
  "parameter_kind_ok js kind v =
     (case kind of
        PkString \<Rightarrow> js_is_string js v
      | PkNumber \<Rightarrow> js_is_number js v
      | PkInteger \<Rightarrow> js_is_i64 js v \<or> js_is_u64 js v
      | PkBoolean \<Rightarrow> js_is_boolean js v)"

fun check_keys :: "HostScriptParameter list \<Rightarrow> ustr list \<Rightarrow> ScriptError + unit" where
  "check_keys ps [] = Inr ()"
| "check_keys ps (k # ks) =
     (if \<not> list_ex (\<lambda>p. hsp_name p = k) ps then Inl (UnknownParameter k) else check_keys ps ks)"

fun check_parameters ::
  "'j json_ops \<Rightarrow> (ustr \<times> 'j) list \<Rightarrow> HostScriptParameter list \<Rightarrow> ScriptError + unit" where
  "check_parameters js obj [] = Inr ()"
| "check_parameters js obj (p # ps) =
     (case map_of obj (hsp_name p) of
        None \<Rightarrow>
          if hsp_required p then Inl (MissingParameter (hsp_name p)) else check_parameters js obj ps
      | Some v \<Rightarrow>
          if \<not> parameter_kind_ok js (hsp_kind p) v then Inl (InvalidParameterType (hsp_name p))
          else if (case js_as_str js v of None \<Rightarrow> False | Some s \<Rightarrow> 0 \<in> set s)
          then Inl (ParameterHasNul (hsp_name p))
          else check_parameters js obj ps)"

definition validate_host_script_parameters ::
  "'j json_ops \<Rightarrow> HostScriptConfig \<Rightarrow> 'j \<Rightarrow> ScriptError + unit" where
  "validate_host_script_parameters js host v =
     (case js_object js v of
        None \<Rightarrow> Inl ParametersNotObject
      | Some obj \<Rightarrow>
          (case js_len js v of
             None \<Rightarrow> Inl ParametersUnserializable
           | Some n \<Rightarrow>
               if 16384 < n then Inl ParametersTooLarge
               else and_then (check_keys (hsc_parameters host) (map fst obj)) (\<lambda>_.
                 check_parameters js obj (hsc_parameters host))))"

section \<open>Published tools\<close>

text \<open>The fields of the tool definition; the schema's fixed parts are left out.\<close>

record HostTool =
  tool_name :: ustr
  tool_title :: ustr
  tool_description :: ustr
  tool_properties :: "ustr \<rightharpoonup> HostScriptParameterKind \<times> ustr"
  tool_required :: "ustr list"
  tool_read_only :: bool

definition host_script_tool_definition :: "CustomScript \<Rightarrow> HostTool" where
  "host_script_tool_definition script =
     (let host = cs_host script
      in \<lparr>tool_name = host_tool_name script, tool_title = cs_name script,
          tool_description =
            str ''Runs on the PortMate HOST, not a terminal session. '' @ cs_description script,
          tool_properties =
            map_of (rev (map (\<lambda>p. (hsp_name p, (hsp_kind p, hsp_description p))) (hsc_parameters host))),
          tool_required = map hsp_name (filter hsp_required (hsc_parameters host)),
          tool_read_only = False\<rparr>)"

section \<open>Scripts\<close>

fun replace_crlf :: "ustr \<Rightarrow> ustr" where
  "replace_crlf [] = []"
| "replace_crlf (c # s) =
     (if c = 13 then (case s of d # t \<Rightarrow> if d = 10 then 10 # replace_crlf t else 13 # replace_crlf s
                      | [] \<Rightarrow> [13])
      else c # replace_crlf s)"

definition normalize_custom_script_content :: "ustr \<Rightarrow> ustr" where
  "normalize_custom_script_content v = replace_char 13 [10] (replace_crlf v)"

definition validate_custom_script :: "(ustr \<Rightarrow> bool) \<Rightarrow> CustomScript \<Rightarrow> ScriptError + unit" where
  "validate_custom_script uuid_ok script =
     (if \<not> uuid_ok (cs_id script) then Inl IdNotUuid
      else if cs_name script = [] \<or> MAX_CUSTOM_SCRIPT_NAME_CHARACTERS < length (cs_name script) \<or>
              list_ex is_control (cs_name script)
      then Inl InvalidName
      else if MAX_CUSTOM_SCRIPT_DESCRIPTION_CHARACTERS < length (cs_description script) \<or>
              list_ex is_control (cs_description script)
      then Inl InvalidDescription
      else if trim (cs_content script) = [] \<or> 0 \<in> set (cs_content script) \<or>
              MAX_CUSTOM_SCRIPT_CONTENT_CHARACTERS < length (cs_content script) \<or>
              MAX_CUSTOM_SCRIPT_CONTENT_BYTES < byte_len (cs_content script)
      then Inl InvalidContent
      else and_then (validate_host_script_config (cs_host script)) (\<lambda>_.
        if cs_mcp_enabled script \<and> hsc_allowed_client_ids (cs_host script) = []
        then Inl NoClientSelected
        else if cs_updated_at script < cs_created_at script then Inl InconsistentTimestamps
        else Inr ()))"

definition normalize_script_fields :: "CustomScript \<Rightarrow> CustomScript" where
  "normalize_script_fields script = script
     \<lparr>cs_name := trim (cs_name script), cs_description := trim (cs_description script),
      cs_content := normalize_custom_script_content (cs_content script)\<rparr>"

fun normalize_scripts_loop ::
  "(ustr \<Rightarrow> bool) \<Rightarrow> CustomScript list \<Rightarrow> ustr list \<Rightarrow> CustomScript list \<Rightarrow> CustomScript list" where
  "normalize_scripts_loop uuid_ok normalized seen_ids [] = normalized"
| "normalize_scripts_loop uuid_ok normalized seen_ids (script # scripts) =
     (if MAX_CUSTOM_SCRIPTS \<le> length normalized then normalized
      else
        let script = normalize_script_fields script
        in if cs_id script \<in> set seen_ids
           then normalize_scripts_loop uuid_ok normalized seen_ids scripts
           else if \<not> is_ok (validate_custom_script uuid_ok script)
           then normalize_scripts_loop uuid_ok normalized (cs_id script # seen_ids) scripts
           else normalize_scripts_loop uuid_ok (normalized @ [script]) (cs_id script # seen_ids) scripts)"

definition normalize_loaded_custom_scripts ::
  "(ustr \<Rightarrow> bool) \<Rightarrow> CustomScript list \<Rightarrow> CustomScript list" where
  "normalize_loaded_custom_scripts uuid_ok scripts = normalize_scripts_loop uuid_ok [] [] scripts"

section \<open>Facts\<close>

lemma replace_crlf_id: "13 \<notin> set s \<Longrightarrow> replace_crlf s = s"
  by (induction s rule: replace_crlf.induct) auto

lemma replace_char_gone: "c \<notin> set r \<Longrightarrow> c \<notin> set (replace_char c r s)"
  by (auto simp add: replace_char_def split: if_splits)

lemma replace_char_id: "c \<notin> set s \<Longrightarrow> replace_char c r s = s"
  by (induction s) (auto simp add: replace_char_def)

lemma normalize_content_no_cr: "13 \<notin> set (normalize_custom_script_content v)"
  unfolding normalize_custom_script_content_def by (rule replace_char_gone) simp

lemma normalize_content_idem:
  "normalize_custom_script_content (normalize_custom_script_content v) = normalize_custom_script_content v"
  using normalize_content_no_cr [of v]
  by (simp add: normalize_custom_script_content_def [of "normalize_custom_script_content v"]
      replace_crlf_id replace_char_id)

lemma normalize_script_fields_idem:
  "normalize_script_fields (normalize_script_fields s) = normalize_script_fields s"
  by (simp add: normalize_script_fields_def normalize_content_idem)

lemma normalize_script_fields_id [simp]: "cs_id (normalize_script_fields s) = cs_id s"
  by (simp add: normalize_script_fields_def)

text \<open>The normal lists of scripts.\<close>

definition scripts_normal :: "(ustr \<Rightarrow> bool) \<Rightarrow> CustomScript list \<Rightarrow> bool" where
  "scripts_normal uuid_ok ss \<longleftrightarrow>
     length ss \<le> 128 \<and> distinct (map cs_id ss) \<and>
     list_all (\<lambda>s. is_ok (validate_custom_script uuid_ok s) \<and> normalize_script_fields s = s) ss"

lemma normalize_scripts_loop_normal:
  assumes "scripts_normal uuid_ok out" "cs_id ` set out \<subseteq> set seen"
  shows "scripts_normal uuid_ok (normalize_scripts_loop uuid_ok out seen ss)"
  using assms
proof (induction ss arbitrary: out seen)
  case (Cons s ss)
  let ?s = "normalize_script_fields s"
  have "scripts_normal uuid_ok (out @ [?s])"
    if "length out < 128" "cs_id ?s \<notin> set seen" "is_ok (validate_custom_script uuid_ok ?s)"
    using that Cons.prems by (auto simp add: scripts_normal_def normalize_script_fields_idem)
  moreover have "scripts_normal uuid_ok (normalize_scripts_loop uuid_ok out (cs_id s # seen) ss)"
    using Cons.prems by (intro Cons.IH) auto
  ultimately show ?case
    using Cons.prems Cons.IH [of "out @ [?s]" "cs_id s # seen"] Cons.IH [of out seen]
      subset_insertI2 [OF Cons.prems(2), of "cs_id s"]
    by (simp add: Let_def)
qed simp

lemma normalize_scripts_loop_id:
  assumes "scripts_normal uuid_ok (out @ ss)" "cs_id ` set ss \<inter> set seen = {}"
  shows "normalize_scripts_loop uuid_ok out seen ss = out @ ss"
  using assms
proof (induction ss arbitrary: out seen)
  case (Cons s ss)
  then have "normalize_scripts_loop uuid_ok (out @ [s]) (cs_id s # seen) ss = (out @ [s]) @ ss"
    by (intro Cons.IH) (auto simp add: scripts_normal_def)
  then show ?case using Cons.prems by (auto simp add: scripts_normal_def Let_def)
qed simp

interpretation script_list:
  list_normalizer "normalize_loaded_custom_scripts uuid_ok" "scripts_normal uuid_ok" for uuid_ok
proof unfold_locales
  fix ss
  show "scripts_normal uuid_ok (normalize_loaded_custom_scripts uuid_ok ss)"
    unfolding normalize_loaded_custom_scripts_def
    by (rule normalize_scripts_loop_normal) (simp_all add: scripts_normal_def)
  show "scripts_normal uuid_ok ss \<Longrightarrow> normalize_loaded_custom_scripts uuid_ok ss = ss"
    unfolding normalize_loaded_custom_scripts_def
    using normalize_scripts_loop_id [of uuid_ok "[]" ss "[]"] by simp
qed

lemma check_keys_ok: "is_ok (check_keys ps ks) \<longleftrightarrow> set ks \<subseteq> hsp_name ` set ps"
  by (induction ks) (auto simp add: list_ex_iff image_iff)

lemma check_parameters_ok:
  "is_ok (check_parameters js obj ps) \<longleftrightarrow>
     (\<forall>p \<in> set ps. case map_of obj (hsp_name p) of
        None \<Rightarrow> \<not> hsp_required p
      | Some v \<Rightarrow> parameter_kind_ok js (hsp_kind p) v \<and> (\<forall>s. js_as_str js v = Some s \<longrightarrow> 0 \<notin> set s))"
  by (induction ps) (auto split: option.splits)

section \<open>Properties\<close>

text \<open>
  Normalising the scripts of a loaded store keeps at most 128, all valid, with distinct
  identifiers, trimmed names and descriptions and contents without carriage returns; normalising
  twice is normalising once, and exactly the lists of that form are left alone.
\<close>

theorem normalize_scripts_accepted:
  "scripts_normal uuid_ok (normalize_loaded_custom_scripts uuid_ok ss) \<and>
   list_all (\<lambda>s. 13 \<notin> set (cs_content s)) (normalize_loaded_custom_scripts uuid_ok ss) \<and>
   normalize_loaded_custom_scripts uuid_ok (normalize_loaded_custom_scripts uuid_ok ss) =
     normalize_loaded_custom_scripts uuid_ok ss \<and>
   (normalize_loaded_custom_scripts uuid_ok ss = ss \<longleftrightarrow> scripts_normal uuid_ok ss)"
proof -
  have "13 \<notin> set (cs_content s)" if "normalize_script_fields s = s" for s
  proof -
    have "cs_content s = normalize_custom_script_content (cs_content s)"
      using arg_cong [OF that, of cs_content] by (simp add: normalize_script_fields_def)
    then show ?thesis by (metis normalize_content_no_cr)
  qed
  then show ?thesis
    using script_list.norm_accepted [of uuid_ok ss] script_list.norm_idem [of uuid_ok ss]
      script_list.norm_fixed_iff [of uuid_ok ss]
    by (auto simp add: scripts_normal_def list_all_iff)
qed

text \<open>
  The parameters of a call are accepted exactly when they are an object of at most 16 KiB
  whose keys are all declared, every required parameter is present, and every given one has the
  declared kind and, if a string, no NUL.
\<close>

theorem script_parameters_exact:
  "is_ok (validate_host_script_parameters js host v) \<longleftrightarrow>
     (\<exists>obj n. js_object js v = Some obj \<and> js_len js v = Some n \<and> n \<le> 16384 \<and>
        fst ` set obj \<subseteq> hsp_name ` set (hsc_parameters host) \<and>
        (\<forall>p \<in> set (hsc_parameters host). case map_of obj (hsp_name p) of
           None \<Rightarrow> \<not> hsp_required p
         | Some w \<Rightarrow> parameter_kind_ok js (hsp_kind p) w \<and>
             (\<forall>s. js_as_str js w = Some s \<longrightarrow> 0 \<notin> set s)))"
proof -
  have u: "is_ok (and_then r f) \<longleftrightarrow> is_ok r \<and> is_ok (f ())" for r :: "'e + unit" and f :: "unit \<Rightarrow> 'e + unit"
    by (cases r) auto
  show ?thesis
    by (auto simp add: validate_host_script_parameters_def u check_keys_ok check_parameters_ok not_less
        split: option.splits)
qed

definition ex_js :: "nat json_ops" where
  "ex_js = \<lparr>js_object = \<lambda>v. if v = 0 then Some [(str ''n'', 1)] else None, js_len = \<lambda>_. Some 7,
     js_is_string = \<lambda>_. False, js_is_number = \<lambda>v. v = 1, js_is_i64 = \<lambda>v. v = 1,
     js_is_u64 = \<lambda>v. v = 1, js_is_boolean = \<lambda>_. False, js_as_str = \<lambda>_. None\<rparr>"

definition ex_script_config :: HostScriptConfig where
  "ex_script_config = \<lparr>hsc_language = Shell, hsc_interpreter = str ''/bin/sh'',
     hsc_working_directory = [], hsc_timeout_seconds = 5, hsc_allowed_client_ids = [],
     hsc_parameters = [\<lparr>hsp_name = str ''n'', hsp_description = [], hsp_kind = PkInteger,
                        hsp_required = True\<rparr>]\<rparr>"

theorem script_parameters_exact_witness:
  "is_ok (validate_host_script_parameters ex_js ex_script_config 0)"
  using script_parameters_exact [of ex_js ex_script_config 0]
  by (simp add: ex_js_def ex_script_config_def parameter_kind_ok_def)

end
