(* ===== verification/Mcp_Transfer.thy ===== *)
theory Mcp_Transfer
  imports List_Rules
begin

text \<open>
  Transfer requests of MCP clients (\<open>mcp_transfer.rs\<close>) and hexadecimal text (\<open>hex.rs\<close>): which
  source a request names, the structured and textual forms of a TFTP receiver, and the boot
  loader commands sent for it. URL parsing and form encoding belong to the \<open>url\<close> crate: the
  argument \<open>url\<close>; \<open>clock_fits\<close> says whether the platform's clock can represent a timeout. IPv4
  addresses are those of \<open>std::net\<close>.
\<close>

unbundle bit_operations_syntax

section \<open>IPv4 addresses\<close>

type_synonym ipv4 = "u8 \<times> u8 \<times> u8 \<times> u8"

text \<open>A decimal number of at most three digits, without a leading zero, at most 255.\<close>

definition parse_octet :: "ustr \<Rightarrow> u8 option" where
  "parse_octet s =
     (if s \<noteq> [] \<and> length s \<le> 3 \<and> list_all is_ascii_digit s \<and> (hd s = 48 \<longrightarrow> s = [48]) \<and>
         digits_value 0 s \<le> 255
      then Some (of_nat (digits_value 0 s)) else None)"

definition parse_ipv4 :: "ustr \<Rightarrow> ipv4 option" where
  "parse_ipv4 s =
     (case split_char 46 s of
        [a, b, c, d] \<Rightarrow>
          Option.bind (parse_octet a) (\<lambda>a. Option.bind (parse_octet b) (\<lambda>b.
          Option.bind (parse_octet c) (\<lambda>c. map_option (\<lambda>d. (a, b, c, d)) (parse_octet d))))
      | _ \<Rightarrow> None)"

definition octet_string :: "u8 \<Rightarrow> ustr" where
  "octet_string b = nat_str (unat b)"

fun ipv4_string :: "ipv4 \<Rightarrow> ustr" where
  "ipv4_string (a, b, c, d) =
     octet_string a @ 46 # octet_string b @ 46 # octet_string c @ 46 # octet_string d"

fun is_multicast :: "ipv4 \<Rightarrow> bool" where
  "is_multicast (a, _) \<longleftrightarrow> 224 \<le> a \<and> a \<le> 239"

definition ipv4_broadcast :: ipv4 where
  "ipv4_broadcast = (255, 255, 255, 255)"

definition is_unspecified :: "ipv4 \<Rightarrow> bool" where
  "is_unspecified ip \<longleftrightarrow> ip = (0, 0, 0, 0)"

section \<open>Sources of a transfer\<close>

definition has_remote_transfer_prefix :: "ustr \<Rightarrow> bool" where
  "has_remote_transfer_prefix v \<longleftrightarrow> starts_with v (str ''remote:'') \<or> starts_with v (str ''ssh:'')"

definition has_load_receiver_prefix :: "ustr \<Rightarrow> bool" where
  "has_load_receiver_prefix v \<longleftrightarrow> starts_with v (str ''load:'')"

definition is_nonlocal_transfer_endpoint :: "ustr \<Rightarrow> bool" where
  "is_nonlocal_transfer_endpoint v \<longleftrightarrow> has_remote_transfer_prefix v \<or> has_load_receiver_prefix v"

datatype McpStartTransferSource = SrcSource | SrcInline | SrcUpload

definition TFTP_OPTION_FIELDS :: "ustr list" where
  "TFTP_OPTION_FIELDS =
     [str ''address'', str ''deviceIp'', str ''serverIp'', str ''bindHost'', str ''bindPort'',
      str ''timeoutSeconds'']"

text \<open>A request object is named by its keys: nothing else of it is read here.\<close>

definition misplaced_mcp_tftp_destination_option :: "ustr set \<Rightarrow> ustr option" where
  "misplaced_mcp_tftp_destination_option keys = List.find (\<lambda>field. field \<in> keys) TFTP_OPTION_FIELDS"

datatype SourceError =
    NotExactlyOneSource
  | MisplacedTftpOption ustr McpStartTransferSource
  | UnsupportedFields "ustr set"

fun allowed_fields :: "McpStartTransferSource \<Rightarrow> ustr set" where
  "allowed_fields SrcSource = {str ''sessionId'', str ''protocol'', str ''source'', str ''destination''}"
| "allowed_fields SrcInline =
     {str ''sessionId'', str ''protocol'', str ''fileName'', str ''contentBase64'', str ''destination''}"
| "allowed_fields SrcUpload = {str ''uploadId''}"

definition classify_mcp_start_transfer_source ::
  "ustr set \<Rightarrow> SourceError + McpStartTransferSource" where
  "classify_mcp_start_transfer_source keys =
     (let has_source = (str ''source'' \<in> keys);
          has_inline = (str ''fileName'' \<in> keys \<or> str ''contentBase64'' \<in> keys);
          has_upload = (str ''uploadId'' \<in> keys);
          mode =
            (if has_source \<and> \<not> has_inline \<and> \<not> has_upload then Some SrcSource
             else if \<not> has_source \<and> has_inline \<and> \<not> has_upload \<and>
                     str ''fileName'' \<in> keys \<and> str ''contentBase64'' \<in> keys then Some SrcInline
             else if \<not> has_source \<and> \<not> has_inline \<and> has_upload then Some SrcUpload
             else None)
      in case mode of
           None \<Rightarrow> Inl NotExactlyOneSource
         | Some mode \<Rightarrow>
             let unsupported = keys - allowed_fields mode
             in if unsupported = {} then Inr mode
                else (case misplaced_mcp_tftp_destination_option keys of
                        Some field \<Rightarrow> Inl (MisplacedTftpOption field mode)
                      | None \<Rightarrow> Inl (UnsupportedFields unsupported)))"

section \<open>TFTP receivers\<close>

datatype TftpError =
    InvalidAddress | InvalidFileName | NotIpv4 ustr | NotUnicast ustr | InvalidBindPort
  | InvalidTimeoutNumber | TimeoutTooShort | TimeoutTooLong | LoadHasHost | LoadInvalidUrl
  | NotTftpboot | DuplicateOption ustr | UnsupportedOption ustr | MissingDeviceIp
  | InvalidEndpointText | NotTftpEndpoint | NeedsTftpProtocol

record url_parts =
  url_scheme :: ustr
  url_path :: ustr
  url_has_fragment :: bool
  url_query_pairs :: "(ustr \<times> ustr) list"

record url_ops =
  url_parse :: "ustr \<Rightarrow> url_parts option"
  form_urlencode :: "(ustr \<times> ustr) list \<Rightarrow> ustr"

record TftpReceiverSpec =
  tr_address :: "ustr option"
  tr_file_name :: "ustr option"
  tr_device_ip :: ipv4
  tr_server_ip :: "ipv4 option"
  tr_bind_host :: "ipv4 option"
  tr_bind_port :: u16
  tr_timeout_seconds :: u64

abbreviation (input) DEFAULT_TFTP_PORT :: u16 where "DEFAULT_TFTP_PORT \<equiv> 69"
abbreviation (input) DEFAULT_TFTP_TIMEOUT_SECONDS :: u64 where "DEFAULT_TFTP_TIMEOUT_SECONDS \<equiv> 60"
abbreviation (input) MAX_MCP_TRANSFER_ENDPOINT_BYTES :: nat where "MAX_MCP_TRANSFER_ENDPOINT_BYTES \<equiv> 32768"

definition validate_load_address :: "ustr \<Rightarrow> TftpError + ustr" where
  "validate_load_address v =
     (let digits = (case strip_prefix v (str ''0x'') of
                      Some d \<Rightarrow> d
                    | None \<Rightarrow> (case strip_prefix v (str ''0X'') of Some d \<Rightarrow> d | None \<Rightarrow> v))
      in if digits = [] \<or> 16 < byte_len digits \<or> \<not> list_all is_ascii_hexdigit (utf8_bytes digits)
         then Inl InvalidAddress else Inr v)"

definition parse_tftp_ipv4 :: "ustr \<Rightarrow> ustr \<Rightarrow> bool \<Rightarrow> TftpError + ipv4" where
  "parse_tftp_ipv4 v name allow_unspecified =
     (case parse_ipv4 v of
        None \<Rightarrow> Inl (NotIpv4 name)
      | Some address \<Rightarrow>
          if is_multicast address \<or> address = ipv4_broadcast \<or>
             (\<not> allow_unspecified \<and> is_unspecified address)
          then Inl (NotUnicast name) else Inr address)"

definition validate_tftp_timeout :: "(u64 \<Rightarrow> bool) \<Rightarrow> u64 \<Rightarrow> TftpError + unit" where
  "validate_tftp_timeout clock_fits seconds =
     (if seconds < 5 then Inl TimeoutTooShort
      else if \<not> clock_fits seconds then Inl TimeoutTooLong else Inr ())"

definition tftp_name_byte :: "nat \<Rightarrow> bool" where
  "tftp_name_byte b \<longleftrightarrow>
     is_ascii_alphanumeric b \<or> b = chr CHR ''.'' \<or> b = chr CHR ''_'' \<or> b = chr CHR ''-'' \<or>
     b = chr CHR ''+'' \<or> b = chr CHR ''/''"

definition validate_tftp_file_name :: "ustr \<Rightarrow> TftpError + unit" where
  "validate_tftp_file_name file_name =
     (if file_name = [] \<or> 255 < byte_len file_name \<or> starts_with file_name (str ''/'') \<or>
         list_ex (\<lambda>component. component = [] \<or> component = str ''.'' \<or> component = str ''..'')
           (split_char (chr CHR ''/'') file_name) \<or>
         \<not> list_all tftp_name_byte (utf8_bytes file_name)
      then Inl InvalidFileName else Inr ())"

text \<open>The options gathered from the query so far.\<close>

record tftp_options =
  to_address :: "ustr option"
  to_file_name :: "ustr option"
  to_device_ip :: "ipv4 option"
  to_server_ip :: "ipv4 option"
  to_bind_host :: "ipv4 option"
  to_bind_port :: "u16 option"
  to_timeout :: "u64 option"

definition no_options :: tftp_options where
  "no_options = \<lparr>to_address = None, to_file_name = None, to_device_ip = None, to_server_ip = None,
     to_bind_host = None, to_bind_port = None, to_timeout = None\<rparr>"

definition KNOWN_OPTIONS :: "ustr list" where
  "KNOWN_OPTIONS = [str ''address'', str ''fileName'', str ''deviceIp'', str ''serverIp'',
     str ''bindHost'', str ''bindPort'', str ''timeoutSeconds'']"

definition take_option ::
  "(u64 \<Rightarrow> bool) \<Rightarrow> ustr \<Rightarrow> ustr \<Rightarrow> tftp_options \<Rightarrow> TftpError + tftp_options" where
  "take_option clock_fits key v opts =
     (if key = str ''address'' \<and> to_address opts = None then
        and_then (validate_load_address v) (\<lambda>a. Inr (opts\<lparr>to_address := Some a\<rparr>))
      else if key = str ''fileName'' \<and> to_file_name opts = None then
        and_then (validate_tftp_file_name v) (\<lambda>_. Inr (opts\<lparr>to_file_name := Some v\<rparr>))
      else if key = str ''deviceIp'' \<and> to_device_ip opts = None then
        and_then (parse_tftp_ipv4 v (str ''deviceIp'') False) (\<lambda>ip. Inr (opts\<lparr>to_device_ip := Some ip\<rparr>))
      else if key = str ''serverIp'' \<and> to_server_ip opts = None then
        and_then (parse_tftp_ipv4 v (str ''serverIp'') False) (\<lambda>ip. Inr (opts\<lparr>to_server_ip := Some ip\<rparr>))
      else if key = str ''bindHost'' \<and> to_bind_host opts = None then
        and_then (parse_tftp_ipv4 v (str ''bindHost'') True) (\<lambda>ip. Inr (opts\<lparr>to_bind_host := Some ip\<rparr>))
      else if key = str ''bindPort'' \<and> to_bind_port opts = None then
        and_then (ok_or InvalidBindPort (parse_u16 v)) (\<lambda>p. Inr (opts\<lparr>to_bind_port := Some p\<rparr>))
      else if key = str ''timeoutSeconds'' \<and> to_timeout opts = None then
        and_then (ok_or InvalidTimeoutNumber (parse_u64 v)) (\<lambda>seconds.
        and_then (validate_tftp_timeout clock_fits seconds) (\<lambda>_.
          Inr (opts\<lparr>to_timeout := Some seconds\<rparr>)))
      else if key \<in> set KNOWN_OPTIONS then Inl (DuplicateOption key)
      else Inl (UnsupportedOption key))"

fun take_options ::
  "(u64 \<Rightarrow> bool) \<Rightarrow> (ustr \<times> ustr) list \<Rightarrow> tftp_options \<Rightarrow> TftpError + tftp_options" where
  "take_options clock_fits [] opts = Inr opts"
| "take_options clock_fits ((key, v) # pairs) opts =
     and_then (take_option clock_fits key v opts) (take_options clock_fits pairs)"

definition parse_tftp_receiver_endpoint ::
  "url_ops \<Rightarrow> (u64 \<Rightarrow> bool) \<Rightarrow> ustr \<Rightarrow> TftpError + TftpReceiverSpec option" where
  "parse_tftp_receiver_endpoint url clock_fits v =
     (if \<not> starts_with v (str ''load:'') then Inr None
      else if starts_with v (str ''load://'') then Inl LoadHasHost
      else (case url_parse url v of
              None \<Rightarrow> Inl LoadInvalidUrl
            | Some parsed \<Rightarrow>
                if url_scheme parsed \<noteq> str ''load'' \<or> url_path parsed \<noteq> str ''tftpboot'' \<or>
                   url_has_fragment parsed
                then Inl NotTftpboot
                else and_then (take_options clock_fits (url_query_pairs parsed) no_options) (\<lambda>opts.
                  and_then (ok_or MissingDeviceIp (to_device_ip opts)) (\<lambda>device_ip.
                    Inr (Some
                      \<lparr>tr_address = to_address opts, tr_file_name = to_file_name opts,
                       tr_device_ip = device_ip, tr_server_ip = to_server_ip opts,
                       tr_bind_host = to_bind_host opts,
                       tr_bind_port = (case to_bind_port opts of Some p \<Rightarrow> p | None \<Rightarrow> DEFAULT_TFTP_PORT),
                       tr_timeout_seconds =
                         (case to_timeout opts of Some t \<Rightarrow> t | None \<Rightarrow> DEFAULT_TFTP_TIMEOUT_SECONDS)\<rparr>)))))"

section \<open>Structured destinations\<close>

record StructuredTftp =
  sd_device_ip :: ustr
  sd_address :: "ustr option"
  sd_file_name :: "ustr option"
  sd_server_ip :: "ustr option"
  sd_bind_host :: "ustr option"
  sd_bind_port :: "u16 option"
  sd_timeout_seconds :: "u64 option"

datatype McpTransferDestination = DstEndpoint ustr | DstStructured StructuredTftp

text \<open>\<open>.map(f).transpose()?\<close>.\<close>

definition transpose_map :: "('a \<Rightarrow> 'e + 'b) \<Rightarrow> 'a option \<Rightarrow> 'e + 'b option" where
  "transpose_map f x = (case x of None \<Rightarrow> Inr None | Some a \<Rightarrow> and_then (f a) (\<lambda>b. Inr (Some b)))"

definition opt_pair :: "ustr \<Rightarrow> ustr option \<Rightarrow> (ustr \<times> ustr) list" where
  "opt_pair key v = (case v of None \<Rightarrow> [] | Some s \<Rightarrow> [(key, s)])"

definition tftp_pairs ::
  "ipv4 \<Rightarrow> ustr option \<Rightarrow> ustr option \<Rightarrow> ipv4 option \<Rightarrow> ipv4 option \<Rightarrow> u16 option \<Rightarrow> u64 option
     \<Rightarrow> (ustr \<times> ustr) list" where
  "tftp_pairs device_ip address file_name server_ip bind_host bind_port timeout =
     opt_pair (str ''address'') address @ opt_pair (str ''fileName'') file_name @
     [(str ''deviceIp'', ipv4_string device_ip)] @
     opt_pair (str ''serverIp'') (map_option ipv4_string server_ip) @
     opt_pair (str ''bindHost'') (map_option ipv4_string bind_host) @
     opt_pair (str ''bindPort'') (map_option (\<lambda>p. nat_str (unat p)) bind_port) @
     opt_pair (str ''timeoutSeconds'') (map_option (\<lambda>t. nat_str (unat t)) timeout)"

definition encode_structured_tftp_destination ::
  "url_ops \<Rightarrow> (u64 \<Rightarrow> bool) \<Rightarrow> StructuredTftp \<Rightarrow> TftpError + ustr" where
  "encode_structured_tftp_destination url clock_fits d =
     and_then (parse_tftp_ipv4 (sd_device_ip d) (str ''deviceIp'') False) (\<lambda>device_ip.
     and_then (transpose_map validate_load_address (sd_address d)) (\<lambda>address.
     and_then (case sd_file_name d of None \<Rightarrow> Inr () | Some f \<Rightarrow> validate_tftp_file_name f) (\<lambda>_.
     and_then (transpose_map (\<lambda>v. parse_tftp_ipv4 v (str ''serverIp'') False) (sd_server_ip d)) (\<lambda>server_ip.
     and_then (transpose_map (\<lambda>v. parse_tftp_ipv4 v (str ''bindHost'') True) (sd_bind_host d)) (\<lambda>bind_host.
     and_then (case sd_timeout_seconds d of None \<Rightarrow> Inr () | Some t \<Rightarrow> validate_tftp_timeout clock_fits t) (\<lambda>_.
       Inr (str ''load:tftpboot?'' @ form_urlencode url
              (tftp_pairs device_ip address (sd_file_name d) server_ip bind_host
                 (sd_bind_port d) (sd_timeout_seconds d)))))))))"

definition validate_endpoint_text :: "ustr \<Rightarrow> TftpError + unit" where
  "validate_endpoint_text endpoint =
     (if endpoint = [] \<or> MAX_MCP_TRANSFER_ENDPOINT_BYTES < byte_len endpoint \<or> 0 \<in> set endpoint
      then Inl InvalidEndpointText else Inr ())"

definition normalize_structured ::
  "url_ops \<Rightarrow> (u64 \<Rightarrow> bool) \<Rightarrow> TransferProtocol \<Rightarrow> StructuredTftp \<Rightarrow> TftpError + ustr" where
  "normalize_structured url clock_fits protocol d =
     (if protocol \<noteq> Tftp then Inl NeedsTftpProtocol
      else encode_structured_tftp_destination url clock_fits d)"

definition normalize_destination ::
  "url_ops \<Rightarrow> (u64 \<Rightarrow> bool) \<Rightarrow> TransferProtocol \<Rightarrow> McpTransferDestination \<Rightarrow> TftpError + ustr" where
  "normalize_destination url clock_fits protocol dst =
     (case dst of
        DstEndpoint endpoint \<Rightarrow>
          and_then (validate_endpoint_text endpoint) (\<lambda>_.
            if protocol = Tftp then
              and_then (parse_tftp_receiver_endpoint url clock_fits endpoint) (\<lambda>spec.
                if spec = None then Inl NotTftpEndpoint else Inr endpoint)
            else Inr endpoint)
      | DstStructured d \<Rightarrow> normalize_structured url clock_fits protocol d)"

definition command_lines :: "TftpReceiverSpec \<Rightarrow> ustr \<Rightarrow> ipv4 \<Rightarrow> u16 \<Rightarrow> TftpError + ustr" where
  "command_lines spec file_name server_ip server_port =
     and_then (validate_tftp_file_name file_name) (\<lambda>_.
       let address = (case tr_address spec of Some a \<Rightarrow> a | None \<Rightarrow> str ''${loadaddr}'');
           commands = str ''setenv ipaddr '' @ ipv4_string (tr_device_ip spec) @ [13] @
                      str ''setenv serverip '' @ ipv4_string server_ip @ [13];
           commands = commands @
             (if server_port = DEFAULT_TFTP_PORT then str ''setenv tftpdstp'' @ [13]
              else str ''setenv tftpdstp '' @ nat_str (unat server_port) @ [13])
       in Inr (commands @
            (if server_port = DEFAULT_TFTP_PORT
             then str ''tftpboot '' @ address @ str '' '' @ file_name @ [13]
             else str ''tftpboot '' @ address @ str '' '' @ ipv4_string server_ip @ str '':'' @
                  nat_str (unat server_port) @ str '':'' @ file_name @ [13])))"

section \<open>Hexadecimal text\<close>

definition hex_digit :: "nat \<Rightarrow> uchar" where
  "hex_digit n = str ''0123456789abcdef'' ! n"

definition encode_hex :: "u8 list \<Rightarrow> ustr" where
  "encode_hex bytes =
     concat (map (\<lambda>b. [hex_digit (unat (drop_bit 4 b)), hex_digit (unat (b AND 15))]) bytes)"

section \<open>Addresses: facts\<close>

lemma nat_str_length: "n < 10 ^ Suc k \<Longrightarrow> length (nat_str n) \<le> Suc k"
proof (induction n arbitrary: k rule: nat_str.induct)
  case (1 n)
  show ?case
  proof (cases "n < 10")
    case True
    then show ?thesis by (simp add: nat_str.simps [of n])
  next
    case False
    then obtain j where k: "k = Suc j" using "1.prems" by (cases k) auto
    have "length (nat_str (n div 10)) \<le> Suc j"
      using "1.IH" [OF False, of j] "1.prems" k by (simp add: less_mult_imp_div_less)
    then show ?thesis using False k by (simp add: nat_str.simps [of n])
  qed
qed

lemma nat_str_hd: "hd (nat_str n) = 48 \<longleftrightarrow> n = 0"
proof (induction n rule: nat_str.induct)
  case (1 n)
  then show ?case by (cases "n < 10") (simp_all add: nat_str.simps [of n])
qed

lemma parse_octet_string [simp]: "parse_octet (octet_string b) = Some b"
proof -
  have "unat b < 2 ^ LENGTH(8)" by (rule unsigned_less)
  then have b: "unat b < 256" by simp
  then have "length (nat_str (unat b)) \<le> 3" using nat_str_length [of "unat b" 2] by simp
  moreover have "hd (nat_str (unat b)) = 48 \<Longrightarrow> nat_str (unat b) = [48]"
    using nat_str_hd [of "unat b"] by (simp add: nat_str.simps)
  ultimately show ?thesis
    using b nat_str_digits [of "unat b"]
    by (auto simp add: parse_octet_def octet_string_def digits_value_nat_str)
qed

lemma octet_string_no_dot: "list_all (\<lambda>c. \<not> c = 46) (octet_string b)"
  using nat_str_digits [of "unat b"] by (auto simp add: octet_string_def list_all_iff is_ascii_digit_def)

lemma parse_ipv4_string [simp]: "parse_ipv4 (ipv4_string ip) = Some ip"
proof -
  obtain a b c d where ip: "ip = (a, b, c, d)" by (cases ip)
  have "split_char 46 (ipv4_string ip) = [octet_string a, octet_string b, octet_string c, octet_string d]"
    using octet_string_no_dot
    by (simp add: ip split_char_def split_by_append_sep split_by_no_sep)
  then show ?thesis by (simp add: parse_ipv4_def ip)
qed

definition unicast :: "bool \<Rightarrow> ipv4 \<Rightarrow> bool" where
  "unicast allow_unspecified ip \<longleftrightarrow>
     \<not> is_multicast ip \<and> ip \<noteq> ipv4_broadcast \<and> (allow_unspecified \<or> \<not> is_unspecified ip)"

lemma parse_tftp_ipv4_Inr:
  "parse_tftp_ipv4 v name u = Inr ip \<longleftrightarrow> parse_ipv4 v = Some ip \<and> unicast u ip"
  by (auto simp add: parse_tftp_ipv4_def unicast_def split: option.splits)

lemma parse_tftp_ipv4_string: "unicast u ip \<Longrightarrow> parse_tftp_ipv4 (ipv4_string ip) name u = Inr ip"
  by (simp add: parse_tftp_ipv4_Inr)

lemma validate_load_address_Inr: "validate_load_address v = Inr w \<Longrightarrow> w = v"
  by (auto simp add: validate_load_address_def Let_def split: if_splits)

section \<open>The round trip of a structured destination\<close>

lemma take_options_append:
  "take_options fits (xs @ ys) opts = and_then (take_options fits xs opts) (take_options fits ys)"
proof (induction xs arbitrary: opts)
  case (Cons x xs)
  obtain k v where x: "x = (k, v)" by (cases x)
  show ?case by (cases "take_option fits k v opts") (simp_all add: x Cons.IH)
qed simp

lemma take_opt_pair:
  "take_options fits (opt_pair key v) opts =
     (case v of None \<Rightarrow> Inr opts | Some s \<Rightarrow> take_option fits key s opts)"
  by (cases v; cases "take_option fits key (the v) opts") (simp_all add: opt_pair_def)

lemma take_options_pairs:
  assumes "unicast False dev"
    and "\<And>a. addr = Some a \<Longrightarrow> validate_load_address a = Inr a"
    and "\<And>f. name = Some f \<Longrightarrow> validate_tftp_file_name f = Inr ()"
    and "\<And>ip. server = Some ip \<Longrightarrow> unicast False ip"
    and "\<And>ip. bind_host = Some ip \<Longrightarrow> unicast True ip"
    and "\<And>t. timeout = Some t \<Longrightarrow> validate_tftp_timeout fits t = Inr ()"
  shows "take_options fits (tftp_pairs dev addr name server bind_host port timeout) no_options =
    Inr \<lparr>to_address = addr, to_file_name = name, to_device_ip = Some dev, to_server_ip = server,
         to_bind_host = bind_host, to_bind_port = port, to_timeout = timeout\<rparr>"
proof -
  have 1: "take_options fits (opt_pair (str ''address'') addr) no_options = Inr (no_options\<lparr>to_address := addr\<rparr>)"
    using assms(2) by (cases addr) (simp_all add: take_opt_pair take_option_def no_options_def)
  have 2: "take_options fits (opt_pair (str ''fileName'') name) (no_options\<lparr>to_address := addr\<rparr>) =
      Inr (no_options\<lparr>to_address := addr, to_file_name := name\<rparr>)"
    using assms(3) by (cases name) (simp_all add: take_opt_pair take_option_def no_options_def)
  let ?o = "no_options\<lparr>to_address := addr, to_file_name := name, to_device_ip := Some dev\<rparr>"
  have 3: "take_options fits [(str ''deviceIp'', ipv4_string dev)]
      (no_options\<lparr>to_address := addr, to_file_name := name\<rparr>) = Inr ?o"
    using assms(1) by (simp add: take_option_def no_options_def parse_tftp_ipv4_string)
  have 4: "take_options fits (opt_pair (str ''serverIp'') (map_option ipv4_string server)) ?o =
      Inr (?o\<lparr>to_server_ip := server\<rparr>)"
    using assms(4)
    by (cases server) (simp_all add: take_opt_pair take_option_def no_options_def parse_tftp_ipv4_string)
  have 5: "take_options fits (opt_pair (str ''bindHost'') (map_option ipv4_string bind_host))
      (?o\<lparr>to_server_ip := server\<rparr>) = Inr (?o\<lparr>to_server_ip := server, to_bind_host := bind_host\<rparr>)"
    using assms(5)
    by (cases bind_host) (simp_all add: take_opt_pair take_option_def no_options_def parse_tftp_ipv4_string)
  have 6: "take_options fits (opt_pair (str ''bindPort'') (map_option (\<lambda>p. nat_str (unat p)) port))
      (?o\<lparr>to_server_ip := server, to_bind_host := bind_host\<rparr>) =
      Inr (?o\<lparr>to_server_ip := server, to_bind_host := bind_host, to_bind_port := port\<rparr>)"
    by (cases port)
       (simp_all add: take_opt_pair take_option_def no_options_def parse_u16_nat_str ok_or_def)
  have 7: "take_options fits (opt_pair (str ''timeoutSeconds'') (map_option (\<lambda>p. nat_str (unat p)) timeout))
      (?o\<lparr>to_server_ip := server, to_bind_host := bind_host, to_bind_port := port\<rparr>) =
      Inr (?o\<lparr>to_server_ip := server, to_bind_host := bind_host, to_bind_port := port, to_timeout := timeout\<rparr>)"
    using assms(6)
    by (cases timeout)
       (simp_all add: take_opt_pair take_option_def no_options_def parse_u64_nat_str ok_or_def)
  show ?thesis
    unfolding tftp_pairs_def take_options_append
    by (simp only: 1 2 3 4 5 6 7 and_then.simps) (simp add: no_options_def)
qed

section \<open>Safe names and commands\<close>

lemma validate_tftp_file_name_ok:
  "validate_tftp_file_name f = Inr u \<longleftrightarrow>
     f \<noteq> [] \<and> length f \<le> 255 \<and> list_all tftp_name_byte f \<and>
     (\<forall>component \<in> set (split_char (chr CHR ''/'') f).
        component \<noteq> [] \<and> component \<noteq> str ''.'' \<and> component \<noteq> str ''..'')"
proof -
  have small: "tftp_name_byte b \<Longrightarrow> b < 128" for b
    by (auto simp add: tftp_name_byte_def is_ascii_alphanumeric_def is_ascii_digit_def
        is_ascii_upper_def is_ascii_lower_def chr_def)
  have bytes: "list_all tftp_name_byte (utf8_bytes f) \<longleftrightarrow> list_all tftp_name_byte f"
  proof
    assume "list_all tftp_name_byte (utf8_bytes f)"
    moreover from this have "utf8_bytes f = f"
      using small by (intro utf8_all_ascii_id) (auto simp add: list_all_iff)
    ultimately show "list_all tftp_name_byte f" by simp
  next
    assume "list_all tftp_name_byte f"
    moreover from this have "utf8_bytes f = f"
      using small by (intro utf8_ascii) (auto simp add: list_all_iff)
    ultimately show "list_all tftp_name_byte (utf8_bytes f)" by simp
  qed
  have len: "byte_len f = length f" if "list_all tftp_name_byte f"
    using that small length_utf8_bytes [of f] utf8_ascii [of f] by (auto simp add: list_all_iff)
  have slash: "\<exists>component \<in> set (split_char (chr CHR ''/'') f). component = []"
    if "starts_with f (str ''/'')"
    using that by (cases f) (auto simp add: starts_with_def split_char_def chr_def)
  have ex: "list_ex (\<lambda>component. component = [] \<or> component = str ''.'' \<or> component = str ''..'')
      (split_char (chr CHR ''/'') f) \<longleftrightarrow>
    \<not> (\<forall>component \<in> set (split_char (chr CHR ''/'') f).
        component \<noteq> [] \<and> component \<noteq> str ''.'' \<and> component \<noteq> str ''..'')"
    unfolding list_ex_iff by blast
  show ?thesis
  proof (cases "list_all tftp_name_byte f")
    case True
    then show ?thesis
      using bytes len [OF True] slash
      unfolding validate_tftp_file_name_def ex by (simp add: not_less) blast
  next
    case False
    then show ?thesis using bytes unfolding validate_tftp_file_name_def by simp
  qed
qed

text \<open>
  The characters a boot loader command is made of: those of names and numbers, blanks, colons
  and the reference to the load address.
\<close>

definition command_char :: "uchar \<Rightarrow> bool" where
  "command_char c \<longleftrightarrow>
     tftp_name_byte c \<or> c = chr CHR '' '' \<or> c = chr CHR '':'' \<or> c \<in> set (str ''${loadaddr}'')"

lemma command_char_no_cr: "command_char c \<Longrightarrow> c \<noteq> 13 \<and> c \<noteq> 10 \<and> c \<noteq> 59"
  by (auto simp add: command_char_def tftp_name_byte_def is_ascii_alphanumeric_def
      is_ascii_digit_def is_ascii_upper_def is_ascii_lower_def chr_def)

lemma command_chars_no_break:
  "list_all command_char s \<Longrightarrow> list_all (\<lambda>ch. command_char ch \<and> ch \<noteq> 13 \<and> ch \<noteq> 10 \<and> ch \<noteq> 59) s"
  using command_char_no_cr by (auto simp add: list_all_iff)

lemma digit_command_char: "is_ascii_digit c \<Longrightarrow> command_char c"
  by (simp add: command_char_def tftp_name_byte_def is_ascii_alphanumeric_def)

lemma nat_str_command: "list_all command_char (nat_str n)"
  using nat_str_digits [of n] by (auto simp add: list_all_iff digit_command_char)

lemma ipv4_command: "list_all command_char (ipv4_string ip)"
  using nat_str_command
  by (cases ip) (simp add: octet_string_def command_char_def tftp_name_byte_def chr_def)

lemma hexdigit_command: "is_ascii_hexdigit c \<Longrightarrow> command_char c \<and> c < 128"
  by (auto simp add: is_ascii_hexdigit_def command_char_def tftp_name_byte_def
      is_ascii_alphanumeric_def is_ascii_digit_def is_ascii_upper_def is_ascii_lower_def)

lemma prefix_split: "take n v = p \<Longrightarrow> p @ drop n v = v"
  by (metis append_take_drop_id)

lemma load_address_command:
  assumes "validate_load_address v = Inr w"
  shows "list_all command_char w"
proof -
  define d where "d = (case strip_prefix v (str ''0x'') of Some d \<Rightarrow> d
    | None \<Rightarrow> (case strip_prefix v (str ''0X'') of Some d \<Rightarrow> d | None \<Rightarrow> v))"
  have d3: "list_all is_ascii_hexdigit (utf8_bytes d)"
    using assms unfolding validate_load_address_def Let_def d_def [symmetric] by (simp split: if_splits)
  have "v = d \<or> v = str ''0x'' @ d \<or> v = str ''0X'' @ d"
    unfolding d_def strip_prefix_def starts_with_def
    by (cases "take (length (str ''0x'')) v = str ''0x''"; cases "take (length (str ''0X'')) v = str ''0X''")
       (simp_all only: if_True if_False option.case append_take_drop_id simp_thms
          eq_commute [of v] prefix_split)
  then obtain p where d: "v = p @ d" "p \<in> {[], str ''0x'', str ''0X''}"
    by (metis append_Nil insertCI)
  have "utf8_bytes d = d"
    using d3 hexdigit_command by (intro utf8_all_ascii_id) (auto simp add: list_all_iff)
  then have "list_all command_char d"
    using d3 hexdigit_command by (auto simp add: list_all_iff)
  moreover have "list_all command_char p"
    using d(2)
    by (auto simp add: command_char_def tftp_name_byte_def is_ascii_alphanumeric_def
        is_ascii_digit_def is_ascii_upper_def is_ascii_lower_def)
  ultimately show ?thesis using d(1) validate_load_address_Inr [OF assms] by simp
qed

lemma take_option_address:
  assumes "take_option fits k v opts = Inr opts'"
    "\<forall>a. to_address opts = Some a \<longrightarrow> list_all command_char a"
  shows "\<forall>a. to_address opts' = Some a \<longrightarrow> list_all command_char a"
  using assms load_address_command [of v]
  by (auto simp add: take_option_def res_simps split: if_splits)

lemma take_options_address:
  assumes "take_options fits ps opts = Inr opts'"
    "\<forall>a. to_address opts = Some a \<longrightarrow> list_all command_char a"
  shows "\<forall>a. to_address opts' = Some a \<longrightarrow> list_all command_char a"
  using assms
proof (induction ps arbitrary: opts)
  case (Cons x ps)
  obtain k v where x: "x = (k, v)" by (cases x)
  then obtain o1 where o1: "take_option fits k v opts = Inr o1" "take_options fits ps o1 = Inr opts'"
    using Cons.prems(1) by (auto simp add: and_then_eq_Inr)
  show ?case using Cons.IH [OF o1(2)] take_option_address [OF o1(1) Cons.prems(2)] by blast
qed simp

lemma parsed_address_command:
  assumes "parse_tftp_receiver_endpoint url fits v = Inr (Some spec)"
  shows "\<forall>a. tr_address spec = Some a \<longrightarrow> list_all command_char a"
proof -
  let ?pairs = "url_query_pairs (the (url_parse url v))"
  have "\<exists>opts. take_options fits ?pairs no_options = Inr opts \<and> tr_address spec = to_address opts"
    using assms unfolding parse_tftp_receiver_endpoint_def
    by (auto simp add: and_then_eq_Inr simp del: take_options.simps split: if_splits option.splits)
  then obtain opts where opts: "take_options fits ?pairs no_options = Inr opts"
    and addr: "tr_address spec = to_address opts" by blast
  show ?thesis
    using take_options_address [OF opts] by (simp add: addr no_options_def)
qed

section \<open>Reading hexadecimal text back\<close>

text \<open>The reading of lower case hexadecimal text that the encoder is measured against.\<close>

definition hex_value :: "uchar \<Rightarrow> nat option" where
  "hex_value c =
     (if 48 \<le> c \<and> c \<le> 57 then Some (c - 48) else if 97 \<le> c \<and> c \<le> 102 then Some (c - 87) else None)"

fun decode_hex :: "ustr \<Rightarrow> u8 list option" where
  "decode_hex [] = Some []"
| "decode_hex (hi # lo # cs) =
     Option.bind (hex_value hi) (\<lambda>h. Option.bind (hex_value lo) (\<lambda>l.
       map_option (\<lambda>bs. of_nat (16 * h + l) # bs) (decode_hex cs)))"
| "decode_hex [_] = None"

lemma hex_value_digit: "n < 16 \<Longrightarrow> hex_value (hex_digit n) = Some n"
proof -
  assume "n < 16"
  then have "n \<in> set [0..<16]" by simp
  moreover have "\<forall>n \<in> set [0..<16]. hex_value (hex_digit n) = Some n" by code_simp
  ultimately show ?thesis by blast
qed

lemma nibbles:
  fixes b :: u8
  shows "unat (drop_bit 4 b) < 16" "unat (b AND 15) < 16"
    "of_nat (16 * unat (drop_bit 4 b) + unat (b AND 15)) = b"
proof -
  have hi: "unat (drop_bit 4 b) = unat b div 16" by (simp add: drop_bit_eq_div unat_div_distrib)
  have "b AND 15 = take_bit 4 b" by (simp add: take_bit_eq_mask mask_eq_exp_minus_1)
  then have lo: "unat (b AND 15) = unat b mod 16" by (simp add: take_bit_eq_mod unat_mod_distrib)
  have "unat b < 2 ^ LENGTH(8)" by (rule unsigned_less)
  then show "unat (drop_bit 4 b) < 16" by (simp add: hi)
  show "unat (b AND 15) < 16" by (simp add: lo)
  show "of_nat (16 * unat (drop_bit 4 b) + unat (b AND 15)) = b"
    unfolding hi lo by (simp only: mult_div_mod_eq) simp
qed

section \<open>Properties\<close>

text \<open>
  A structured TFTP destination that is accepted encodes to a text which parses back to the
  same receiver, with the default port and timeout filled in, given that the URL crate reads
  back the form it encoded.
\<close>

theorem structured_tftp_round_trip:
  assumes "encode_structured_tftp_destination url fits d = Inr endpoint"
    and "\<And>pairs. url_parse url (str ''load:tftpboot?'' @ form_urlencode url pairs) =
      Some \<lparr>url_scheme = str ''load'', url_path = str ''tftpboot'', url_has_fragment = False,
            url_query_pairs = pairs\<rparr>"
  shows "\<exists>spec. parse_tftp_receiver_endpoint url fits endpoint = Inr (Some spec) \<and>
    parse_ipv4 (sd_device_ip d) = Some (tr_device_ip spec) \<and>
    tr_address spec = sd_address d \<and> tr_file_name spec = sd_file_name d \<and>
    tr_server_ip spec = Option.bind (sd_server_ip d) parse_ipv4 \<and>
    tr_bind_host spec = Option.bind (sd_bind_host d) parse_ipv4 \<and>
    tr_bind_port spec = (case sd_bind_port d of None \<Rightarrow> 69 | Some p \<Rightarrow> p) \<and>
    tr_timeout_seconds spec = (case sd_timeout_seconds d of None \<Rightarrow> 60 | Some t \<Rightarrow> t)"
proof -
  obtain dev addr server bind_host where
    dev: "parse_tftp_ipv4 (sd_device_ip d) (str ''deviceIp'') False = Inr dev"
    and addr: "transpose_map validate_load_address (sd_address d) = Inr addr"
    and name: "(case sd_file_name d of None \<Rightarrow> Inr () | Some f \<Rightarrow> validate_tftp_file_name f) = Inr ()"
    and server: "transpose_map (\<lambda>v. parse_tftp_ipv4 v (str ''serverIp'') False) (sd_server_ip d) = Inr server"
    and host: "transpose_map (\<lambda>v. parse_tftp_ipv4 v (str ''bindHost'') True) (sd_bind_host d) = Inr bind_host"
    and time: "(case sd_timeout_seconds d of None \<Rightarrow> Inr () | Some t \<Rightarrow> validate_tftp_timeout fits t) = Inr ()"
    and out: "endpoint = str ''load:tftpboot?'' @ form_urlencode url
      (tftp_pairs dev addr (sd_file_name d) server bind_host (sd_bind_port d) (sd_timeout_seconds d))"
    using assms(1) by (auto simp add: encode_structured_tftp_destination_def and_then_eq_Inr)
  have addr': "addr = sd_address d" "\<And>a. addr = Some a \<Longrightarrow> validate_load_address a = Inr a"
    using addr validate_load_address_Inr
    by (auto simp add: transpose_map_def and_then_eq_Inr split: option.splits)
  have server': "server = Option.bind (sd_server_ip d) parse_ipv4" "\<And>ip. server = Some ip \<Longrightarrow> unicast False ip"
    using server by (auto simp add: transpose_map_def and_then_eq_Inr parse_tftp_ipv4_Inr split: option.splits)
  have host': "bind_host = Option.bind (sd_bind_host d) parse_ipv4" "\<And>ip. bind_host = Some ip \<Longrightarrow> unicast True ip"
    using host by (auto simp add: transpose_map_def and_then_eq_Inr parse_tftp_ipv4_Inr split: option.splits)
  have "take_options fits (tftp_pairs dev addr (sd_file_name d) server bind_host (sd_bind_port d)
      (sd_timeout_seconds d)) no_options =
    Inr \<lparr>to_address = addr, to_file_name = sd_file_name d, to_device_ip = Some dev,
         to_server_ip = server, to_bind_host = bind_host, to_bind_port = sd_bind_port d,
         to_timeout = sd_timeout_seconds d\<rparr>"
    using dev name time addr'(2) server'(2) host'(2)
    by (intro take_options_pairs) (auto simp add: parse_tftp_ipv4_Inr)
  then show ?thesis
    using dev addr'(1) server'(1) host'(1) assms(2)
    by (auto simp add: out parse_tftp_receiver_endpoint_def starts_with_def parse_tftp_ipv4_Inr ok_or_def)
qed

text \<open>A URL library for the examples: the form is encoded by the lengths of its texts.\<close>

function read_form :: "ustr \<Rightarrow> (ustr \<times> ustr) list" where
  "read_form [] = []"
| "read_form (n # cs) =
     (case drop n cs of [] \<Rightarrow> [] | m # ds \<Rightarrow> (take n cs, take m ds) # read_form (drop m ds))"
  by pat_completeness auto
termination
proof (relation "measure length")
  fix n cs m ds
  assume "drop n cs = (m :: nat) # ds"
  then have "length ds < length cs" by (metis Suc_le_lessD length_Cons length_drop diff_le_self)
  then show "(drop m ds, n # cs) \<in> measure length" by simp
qed simp

definition example_url :: url_ops where
  "example_url =
     \<lparr>url_parse = (\<lambda>s. Some \<lparr>url_scheme = str ''load'', url_path = str ''tftpboot'', url_has_fragment = False,
        url_query_pairs = read_form (drop 14 s)\<rparr>),
      form_urlencode = (\<lambda>pairs. concat (map (\<lambda>(k, v). length k # k @ length v # v) pairs))\<rparr>"

lemma read_form_encode: "read_form (concat (map (\<lambda>(k, v). length k # k @ length v # v) pairs)) = pairs"
  by (induction pairs) auto

lemma example_url_reads_back:
  "url_parse example_url (str ''load:tftpboot?'' @ form_urlencode example_url pairs) =
     Some \<lparr>url_scheme = str ''load'', url_path = str ''tftpboot'', url_has_fragment = False,
           url_query_pairs = pairs\<rparr>"
  by (simp add: example_url_def read_form_encode)

definition example_destination :: StructuredTftp where
  "example_destination =
     \<lparr>sd_device_ip = str ''10.0.0.2'', sd_address = Some (str ''0x80''), sd_file_name = Some (str ''a.bin''),
      sd_server_ip = None, sd_bind_host = None, sd_bind_port = Some 6969, sd_timeout_seconds = None\<rparr>"

definition example_endpoint :: ustr where
  "example_endpoint = str ''load:tftpboot?'' @ form_urlencode example_url
     (tftp_pairs (10, 0, 0, 2) (Some (str ''0x80'')) (Some (str ''a.bin'')) None None (Some 6969) None)"

lemma example_ip: "parse_ipv4 (str ''10.0.0.2'') = Some (10, 0, 0, 2)"
  using parse_ipv4_string [of "(10, 0, 0, 2)"] by (simp add: octet_string_def nat_str.simps)

lemma example_file: "validate_tftp_file_name (str ''a.bin'') = Inr ()"
  by code_simp

lemma example_address: "validate_load_address (str ''0x80'') = Inr (str ''0x80'')"
  by code_simp

lemma example_encodes:
  "encode_structured_tftp_destination example_url (\<lambda>_. True) example_destination = Inr example_endpoint"
  unfolding encode_structured_tftp_destination_def example_destination_def
  by (simp add: parse_tftp_ipv4_def example_ip [simplified] is_unspecified_def ipv4_broadcast_def transpose_map_def
      example_address [simplified] example_file [simplified] example_endpoint_def)

theorem structured_tftp_round_trip_witness:
  "\<exists>spec. parse_tftp_receiver_endpoint example_url (\<lambda>_. True) example_endpoint = Inr (Some spec) \<and>
    tr_device_ip spec = (10, 0, 0, 2) \<and> tr_bind_port spec = 6969 \<and> tr_timeout_seconds spec = 60"
  using structured_tftp_round_trip [OF example_encodes example_url_reads_back] example_ip
  by (auto simp add: example_destination_def)

text \<open>
  The boot loader commands for a parsed receiver are exactly four lines, each ended by a
  carriage return, and every other character is a letter, a digit, a blank or one of the few
  punctuation marks of names: no file name, address or port of a request can smuggle in another
  command.
\<close>

theorem tftp_commands_safe:
  assumes "parse_tftp_receiver_endpoint url fits v = Inr (Some spec)"
    and "command_lines spec file_name server_ip server_port = Inr commands"
  shows "\<exists>a b c d. commands = a @ 13 # b @ 13 # c @ 13 # d @ [13] \<and>
    list_all (\<lambda>ch. command_char ch \<and> ch \<noteq> 13 \<and> ch \<noteq> 10 \<and> ch \<noteq> 59) (a @ b @ c @ d)"
proof -
  have name: "list_all command_char file_name"
    using assms(2)
    by (auto simp add: command_lines_def and_then_eq_Inr validate_tftp_file_name_ok list_all_iff
        command_char_def)
  have address: "list_all command_char (case tr_address spec of Some a \<Rightarrow> a | None \<Rightarrow> str ''${loadaddr}'')"
    using parsed_address_command [OF assms(1)] by (auto simp add: command_char_def split: option.splits)
  let ?a = "str ''setenv ipaddr '' @ ipv4_string (tr_device_ip spec)"
  let ?b = "str ''setenv serverip '' @ ipv4_string server_ip"
  let ?c = "if server_port = 69 then str ''setenv tftpdstp'' else str ''setenv tftpdstp '' @ nat_str (unat server_port)"
  let ?d = "str ''tftpboot '' @ (case tr_address spec of Some a \<Rightarrow> a | None \<Rightarrow> str ''${loadaddr}'') @ str '' '' @
    (if server_port = 69 then file_name
     else ipv4_string server_ip @ str '':'' @ nat_str (unat server_port) @ str '':'' @ file_name)"
  have "commands = ?a @ 13 # ?b @ 13 # ?c @ 13 # ?d @ [13]"
    using assms(2) by (auto simp add: command_lines_def and_then_eq_Inr Let_def)
  moreover have lits: "list_all command_char (str ''setenv ipaddr '')" "list_all command_char (str ''setenv serverip '')"
    "list_all command_char (str ''setenv tftpdstp'')" "list_all command_char (str ''setenv tftpdstp '')"
    "list_all command_char (str ''tftpboot '')" "list_all command_char (str '' '')" "list_all command_char (str '':'')"
    by (simp_all add: command_char_def tftp_name_byte_def is_ascii_alphanumeric_def is_ascii_digit_def
        is_ascii_upper_def is_ascii_lower_def chr_def)
  have "list_all command_char (?a @ ?b @ ?c @ ?d)"
    by (simp only: list_all_append lits name address ipv4_command nat_str_command if_split simp_thms)
  ultimately show ?thesis using command_chars_no_break by blast
qed


lemma example_parses: "\<exists>spec. parse_tftp_receiver_endpoint example_url (\<lambda>_. True) example_endpoint = Inr (Some spec)"
proof -
  have "take_options (\<lambda>_. True) (tftp_pairs (10, 0, 0, 2) (Some (str ''0x80'')) (Some (str ''a.bin''))
      None None (Some 6969) None) no_options =
    Inr \<lparr>to_address = Some (str ''0x80''), to_file_name = Some (str ''a.bin''), to_device_ip = Some (10, 0, 0, 2),
         to_server_ip = None, to_bind_host = None, to_bind_port = Some 6969, to_timeout = None\<rparr>"
    by (rule take_options_pairs)
       (use example_file example_address in
         \<open>auto simp add: unicast_def ipv4_broadcast_def is_unspecified_def\<close>)
  then show ?thesis
    by (simp add: parse_tftp_receiver_endpoint_def example_endpoint_def starts_with_def
        example_url_reads_back [simplified] ok_or_def)
qed

theorem tftp_commands_safe_witness:
  "\<exists>spec commands a b c d.
     parse_tftp_receiver_endpoint example_url (\<lambda>_. True) example_endpoint = Inr (Some spec) \<and>
     command_lines spec (str ''a.bin'') (10, 0, 0, 1) 6969 = Inr commands \<and>
     commands = a @ 13 # b @ 13 # c @ 13 # d @ [13] \<and>
     list_all (\<lambda>ch. command_char ch \<and> ch \<noteq> 13 \<and> ch \<noteq> 10 \<and> ch \<noteq> 59) (a @ b @ c @ d)"
proof -
  obtain spec where spec: "parse_tftp_receiver_endpoint example_url (\<lambda>_. True) example_endpoint = Inr (Some spec)"
    using example_parses by blast
  obtain commands where commands: "command_lines spec (str ''a.bin'') (10, 0, 0, 1) 6969 = Inr commands"
    using example_file by (auto simp add: command_lines_def Let_def)
  show ?thesis using tftp_commands_safe [OF spec commands] spec commands by blast
qed

text \<open>The fields by which a request says which source it means.\<close>

definition identifying_fields :: "McpStartTransferSource \<Rightarrow> ustr set" where
  "identifying_fields mode =
     (case mode of
        SrcSource \<Rightarrow> {str ''source''}
      | SrcInline \<Rightarrow> {str ''fileName'', str ''contentBase64''}
      | SrcUpload \<Rightarrow> {str ''uploadId''})"

text \<open>
  A transfer request is accepted exactly when it names one source in full and nothing that
  source has no use for: a request with two sources, half a source or a stray field is refused.
\<close>

theorem classify_source_exact:
  "classify_mcp_start_transfer_source keys = Inr mode \<longleftrightarrow>
     identifying_fields mode \<subseteq> keys \<and> keys \<subseteq> allowed_fields mode"
  by (cases mode)
     (auto simp add: classify_mcp_start_transfer_source_def identifying_fields_def Let_def
        split: option.splits)

text \<open>
  Hexadecimal text has two lower case digits for each byte and reads back as the same bytes.
\<close>

theorem encode_hex_reads_back:
  "decode_hex (encode_hex bytes) = Some bytes \<and> length (encode_hex bytes) = 2 * length bytes"
proof (induction bytes)
  case (Cons b bytes)
  then show ?case
    using nibbles [of b] hex_value_digit by (simp add: encode_hex_def)
qed (simp add: encode_hex_def)

end
