(* ===== verification/Wire_Bytes.thy ===== *)
theory Wire_Bytes
  imports List_Rules
begin

text \<open>
  What the wire protocols of \<open>src-tauri\<close> share: the bytes of a text (\<open>str::as_bytes\<close>), big-endian
  16-bit numbers (\<open>u16::to_be_bytes\<close>, \<open>u16::from_be_bytes\<close>) and reading a fixed number of bytes
  from a stream (\<open>read_exact\<close>). A stream is the list of the bytes that are still to come; reading
  past its end is the error of a closed connection.
\<close>

unbundle bit_operations_syntax

section \<open>Texts as bytes\<close>

definition as_bytes :: "ustr \<Rightarrow> u8 list" where
  "as_bytes s = map of_nat (utf8_bytes s)"

text \<open>A Rust \<open>char\<close> is at most \<open>0x10FFFF\<close>.\<close>

definition scalar_text :: "ustr \<Rightarrow> bool" where
  "scalar_text s = list_all (\<lambda>c. c < 1114112) s"

text \<open>
  \<open>String::from_utf8\<close>: no overlong form, no surrogate, nothing above \<open>0x10FFFF\<close>.
\<close>

definition continuation :: "u8 \<Rightarrow> bool" where
  "continuation b \<longleftrightarrow> 128 \<le> unat b \<and> unat b < 192"

definition surrogate :: "uchar \<Rightarrow> bool" where
  "surrogate c \<longleftrightarrow> 55296 \<le> c \<and> c < 57344"

function from_utf8 :: "u8 list \<Rightarrow> ustr option" where
  "from_utf8 [] = Some []"
| "from_utf8 (b # bs) =
     (let n = unat b
      in if n < 128 then map_option ((#) n) (from_utf8 bs)
         else (case bs of
            [] \<Rightarrow> None
          | c1 # bs1 \<Rightarrow>
              if \<not> continuation c1 then None
              else if 194 \<le> n \<and> n < 224 then
                map_option ((#) ((n - 192) * 64 + (unat c1 - 128))) (from_utf8 bs1)
              else (case bs1 of
                 [] \<Rightarrow> None
               | c2 # bs2 \<Rightarrow>
                   if \<not> continuation c2 then None
                   else if 224 \<le> n \<and> n < 240 then
                     (let v = (n - 224) * 4096 + (unat c1 - 128) * 64 + (unat c2 - 128)
                      in if v < 2048 \<or> surrogate v then None
                         else map_option ((#) v) (from_utf8 bs2))
                   else (case bs2 of
                      [] \<Rightarrow> None
                    | c3 # bs3 \<Rightarrow>
                        if \<not> continuation c3 \<or> n < 240 \<or> 245 \<le> n then None
                        else
                          (let v = (n - 240) * 262144 + (unat c1 - 128) * 4096 + (unat c2 - 128) * 64 +
                                   (unat c3 - 128)
                           in if v < 65536 \<or> 1114112 \<le> v then None
                              else map_option ((#) v) (from_utf8 bs3))))))"
  by pat_completeness auto
termination by (relation "measure length") auto

text \<open>
  \<open>String::from_utf8_lossy\<close>: each longest prefix of a valid sequence that is not completed becomes
  one replacement character.
\<close>

abbreviation (input) REPLACEMENT :: uchar where "REPLACEMENT \<equiv> 65533"

definition second_byte :: "u8 \<Rightarrow> u8 \<Rightarrow> bool" where
  "second_byte b c \<longleftrightarrow>
     (if unat b = 224 then 160 \<le> unat c \<and> unat c < 192
      else if unat b = 237 then 128 \<le> unat c \<and> unat c < 160
      else if unat b = 240 then 144 \<le> unat c \<and> unat c < 192
      else if unat b = 244 then 128 \<le> unat c \<and> unat c < 144
      else continuation c)"

function from_utf8_lossy :: "u8 list \<Rightarrow> ustr" where
  "from_utf8_lossy [] = []"
| "from_utf8_lossy (b # bs) =
     (let n = unat b
      in if n < 128 then n # from_utf8_lossy bs
         else if n < 194 \<or> 245 \<le> n then REPLACEMENT # from_utf8_lossy bs
         else (case bs of
            [] \<Rightarrow> [REPLACEMENT]
          | c1 # bs1 \<Rightarrow>
              if \<not> second_byte b c1 then REPLACEMENT # from_utf8_lossy (c1 # bs1)
              else if n < 224 then ((n - 192) * 64 + (unat c1 - 128)) # from_utf8_lossy bs1
              else (case bs1 of
                 [] \<Rightarrow> [REPLACEMENT]
               | c2 # bs2 \<Rightarrow>
                   if \<not> continuation c2 then REPLACEMENT # from_utf8_lossy (c2 # bs2)
                   else if n < 240 then
                     ((n - 224) * 4096 + (unat c1 - 128) * 64 + (unat c2 - 128)) # from_utf8_lossy bs2
                   else (case bs2 of
                      [] \<Rightarrow> [REPLACEMENT]
                    | c3 # bs3 \<Rightarrow>
                        if \<not> continuation c3 then REPLACEMENT # from_utf8_lossy (c3 # bs3)
                        else ((n - 240) * 262144 + (unat c1 - 128) * 4096 + (unat c2 - 128) * 64 +
                             (unat c3 - 128)) # from_utf8_lossy bs3))))"
  by pat_completeness auto
termination by (relation "measure length") auto

section \<open>Numbers in network order\<close>

definition to_be_bytes :: "u16 \<Rightarrow> u8 list" where
  "to_be_bytes w = [ucast (drop_bit 8 w), ucast w]"

definition from_be_bytes :: "u8 \<Rightarrow> u8 \<Rightarrow> u16" where
  "from_be_bytes hi lo = push_bit 8 (ucast hi) OR ucast lo"

section \<open>Reading a stream\<close>

definition read_exact :: "nat \<Rightarrow> u8 list \<Rightarrow> (u8 list \<times> u8 list) option" where
  "read_exact n input = (if length input < n then None else Some (take n input, drop n input))"

section \<open>Facts\<close>

lemma as_bytes_simps [simp]:
  "as_bytes [] = []" "as_bytes (c # s) = map of_nat (utf8_char c) @ as_bytes s"
  "as_bytes (s @ t) = as_bytes s @ as_bytes t"
  by (simp_all add: as_bytes_def)

lemma length_as_bytes [simp]: "length (as_bytes s) = byte_len s"
  by (simp add: as_bytes_def length_utf8_bytes)

lemma scalar_text_simps [simp]:
  "scalar_text []" "scalar_text (c # s) \<longleftrightarrow> c < 1114112 \<and> scalar_text s"
  "scalar_text (s @ t) \<longleftrightarrow> scalar_text s \<and> scalar_text t"
  by (simp_all add: scalar_text_def)

text \<open>Of a character beyond ASCII every byte has its top bit set, and none is \<open>0xFF\<close>.\<close>

lemma utf8_char_range:
  assumes "128 \<le> c" "c < 1114112" "b \<in> set (utf8_char c)"
  shows "128 \<le> b \<and> b < 255"
proof -
  have "c div 64 < 32" if "c < 2048" using that by (simp add: less_mult_imp_div_less)
  moreover have "c div 4096 < 16" if "c < 65536" using that by (simp add: less_mult_imp_div_less)
  moreover have "c div 262144 < 5" using assms(2) by (simp add: less_mult_imp_div_less)
  moreover have "x mod 64 < 64" for x :: nat by simp
  ultimately show ?thesis
    using assms(1,3) by (auto simp add: utf8_char_def not_less split: if_splits)
qed

lemma unat_small_byte: "n < 256 \<Longrightarrow> unat (of_nat n :: u8) = n"
  by (simp add: unat_of_nat)

lemma utf8_byte_values:
  assumes "128 \<le> c" "c < 1114112" "b \<in> set (map of_nat (utf8_char c) :: u8 list)"
  shows "128 \<le> b \<and> b \<noteq> 255"
proof -
  obtain n where n: "n \<in> set (utf8_char c)" "b = of_nat n" using assms(3) by auto
  then have "128 \<le> n" "n < 255" using utf8_char_range assms(1,2) by blast+
  then have "unat b = n" by (simp add: n(2) unat_small_byte)
  with \<open>128 \<le> n\<close> \<open>n < 255\<close> show ?thesis by (auto simp add: word_le_nat_alt)
qed

text \<open>A string of Unicode scalar values reads back from its bytes.\<close>

lemma from_utf8_char:
  assumes "c < 1114112" "\<not> surrogate c"
  shows "from_utf8 (map of_nat (utf8_char c) @ bs) = map_option ((#) c) (from_utf8 bs)"
proof -
  have cont: "continuation (of_nat (128 + x mod 64))" "unat (of_nat (128 + x mod 64) :: u8) = 128 + x mod 64" for x
  proof -
    have "128 + x mod 64 < 256" by simp
    then show "unat (of_nat (128 + x mod 64) :: u8) = 128 + x mod 64" by (rule unat_small_byte)
    then show "continuation (of_nat (128 + x mod 64))" by (simp add: continuation_def)
  qed
  have split2: "c div 64 * 64 + c mod 64 = c" by simp
  have split3: "c div 4096 * 4096 + c div 64 mod 64 * 64 + c mod 64 = c"
  proof -
    have "c div 4096 * 64 + c div 64 mod 64 = c div 64"
      using div_mult_mod_eq [of "c div 64" 64] by (simp add: div_mult2_eq [symmetric])
    then show ?thesis using split2 by linarith
  qed
  consider "c < 128" | "128 \<le> c" "c < 2048" | "2048 \<le> c" "c < 65536" | "65536 \<le> c" by linarith
  then show ?thesis
  proof cases
    case 1
    then show ?thesis by (simp add: utf8_char_def unat_small_byte)
  next
    case 2
    then have "c div 64 < 32" "2 \<le> c div 64" by (simp_all add: less_mult_imp_div_less div_le_mono [of 128 c 64, simplified])
    then have "unat (of_nat (192 + c div 64) :: u8) = 192 + c div 64" by (intro unat_small_byte) simp
    moreover have "utf8_char c = [192 + c div 64, 128 + c mod 64]" using 2 by (simp add: utf8_char_def)
    ultimately show ?thesis using cont split2 \<open>c div 64 < 32\<close> \<open>2 \<le> c div 64\<close> by (simp add: Let_def)
  next
    case 3
    then have "c div 4096 < 16" by (simp add: less_mult_imp_div_less)
    then have "unat (of_nat (224 + c div 4096) :: u8) = 224 + c div 4096" by (intro unat_small_byte) simp
    then show ?thesis
      using 3 cont split3 assms(2) \<open>c div 4096 < 16\<close> by (simp add: utf8_char_def Let_def)
  next
    case 4
    have "c div 262144 < 5" using assms(1) by (simp add: less_mult_imp_div_less)
    then have u: "unat (of_nat (240 + c div 262144) :: u8) = 240 + c div 262144" by (intro unat_small_byte) simp
    have "c div 262144 * 262144 + c div 4096 mod 64 * 4096 = c div 4096 * 4096"
      using div_mult_mod_eq [of "c div 4096" 64] by (simp add: div_mult2_eq [symmetric])
    then have "c div 262144 * 262144 + c div 4096 mod 64 * 4096 + c div 64 mod 64 * 64 + c mod 64 = c"
      using split3 by linarith
    then show ?thesis
      using 4 cont u assms(1) \<open>c div 262144 < 5\<close> by (simp add: utf8_char_def Let_def)
  qed
qed

lemma from_utf8_as_bytes:
  "scalar_text s \<Longrightarrow> list_all (\<lambda>c. \<not> surrogate c) s \<Longrightarrow> from_utf8 (as_bytes s) = Some s"
  by (induction s) (simp_all add: from_utf8_char)

lemma second_byte_two: "194 \<le> unat b \<Longrightarrow> unat b < 224 \<Longrightarrow> second_byte b c \<longleftrightarrow> continuation c"
  by (simp add: second_byte_def)

lemma second_byte_three:
  assumes "224 \<le> unat b" "unat b < 240" "continuation c1" "continuation c2"
    and "v = (unat b - 224) * 4096 + (unat c1 - 128) * 64 + (unat c2 - 128)" "2048 \<le> v" "\<not> surrogate v"
  shows "second_byte b c1"
proof -
  have "160 \<le> unat c1" if "unat b = 224"
  proof -
    have "2048 \<le> (unat c1 - 128) * 64 + (unat c2 - 128)" using that assms(5,6) by simp
    then show ?thesis using assms(4) unfolding continuation_def by linarith
  qed
  moreover have "unat c1 < 160" if "unat b = 237"
  proof -
    have "v = 53248 + (unat c1 - 128) * 64 + (unat c2 - 128)" using that assms(5) by simp
    then show ?thesis using assms(3,4,7) unfolding continuation_def surrogate_def by linarith
  qed
  ultimately show ?thesis using assms(1-3) by (simp add: second_byte_def continuation_def)
qed

lemma second_byte_four:
  assumes "240 \<le> unat b" "unat b < 245" "continuation c1" "continuation c2" "continuation c3"
    and "v = (unat b - 240) * 262144 + (unat c1 - 128) * 4096 + (unat c2 - 128) * 64 + (unat c3 - 128)"
    and "65536 \<le> v" "v < 1114112"
  shows "second_byte b c1"
proof -
  have "144 \<le> unat c1" if "unat b = 240"
  proof -
    have "65536 \<le> (unat c1 - 128) * 4096 + (unat c2 - 128) * 64 + (unat c3 - 128)" using that assms(6,7) by simp
    then show ?thesis using assms(4,5) unfolding continuation_def by linarith
  qed
  moreover have "unat c1 < 144" if "unat b = 244"
  proof -
    have "v = 1048576 + (unat c1 - 128) * 4096 + (unat c2 - 128) * 64 + (unat c3 - 128)" using that assms(6) by simp
    then show ?thesis using assms(3,8) unfolding continuation_def by linarith
  qed
  ultimately show ?thesis using assms(1-3) by (simp add: second_byte_def continuation_def)
qed

lemma from_utf8_lossy_valid: "from_utf8 bs = Some s \<Longrightarrow> from_utf8_lossy bs = s"
proof (induction bs arbitrary: s rule: length_induct)
  case (1 bs)
  show ?case
  proof (cases bs)
    case (Cons b bs0)
    show ?thesis
    proof (cases "unat b < 128")
      case True
      then show ?thesis using 1 by (auto simp add: Cons)
    next
      case big: False
      then obtain c1 bs1 where bs0: "bs0 = c1 # bs1" and c1: "continuation c1"
        using 1(2) by (cases bs0; cases "continuation (hd bs0)") (simp_all add: Cons)
      consider "194 \<le> unat b" "unat b < 224" | "224 \<le> unat b" | "unat b < 194" by linarith
      then show ?thesis
      proof cases
        case 1
        then show ?thesis
          using "1.IH" "1.prems" big c1 second_byte_two [OF 1] by (auto simp add: Cons bs0)
      next
        case three: 2
        then obtain c2 bs2 where bs1: "bs1 = c2 # bs2" and c2: "continuation c2"
          using "1.prems" c1 by (cases bs1; cases "continuation (hd bs1)") (simp_all add: Cons bs0)
        show ?thesis
        proof (cases "unat b < 240")
          case True
          let ?v = "(unat b - 224) * 4096 + (unat c1 - 128) * 64 + (unat c2 - 128)"
          have decode: "from_utf8 bs = (if ?v < 2048 \<or> surrogate ?v then None else map_option ((#) ?v) (from_utf8 bs2))"
            using True three c1 c2 by (simp add: Cons bs0 bs1 Let_def)
          then have v: "2048 \<le> ?v" "\<not> surrogate ?v" using "1.prems" by (auto split: if_splits)
          then obtain t where "from_utf8 bs2 = Some t" "s = ?v # t"
            using decode "1.prems" by (cases "from_utf8 bs2") simp_all
          moreover have "length bs2 < length bs" by (simp add: Cons bs0 bs1)
          ultimately show ?thesis
            using "1.IH" True three c2 second_byte_three [OF three True c1 c2 refl v]
            by (simp add: Cons bs0 bs1)
        next
          case False
          then obtain c3 bs3 where bs2: "bs2 = c3 # bs3" and c3: "continuation c3" and b: "240 \<le> unat b" "unat b < 245"
            using "1.prems" c1 c2 three
            by (cases bs2; cases "continuation (hd bs2)"; cases "unat b < 245") (simp_all add: Cons bs0 bs1)
          let ?v = "(unat b - 240) * 262144 + (unat c1 - 128) * 4096 + (unat c2 - 128) * 64 + (unat c3 - 128)"
          have decode: "from_utf8 bs = (if ?v < 65536 \<or> 1114112 \<le> ?v then None else map_option ((#) ?v) (from_utf8 bs3))"
            using b c1 c2 c3 by (simp add: Cons bs0 bs1 bs2 Let_def)
          then have v: "65536 \<le> ?v" "?v < 1114112" using "1.prems" by (auto simp del: One_nat_def split: if_splits)
          then obtain t where "from_utf8 bs3 = Some t" "s = ?v # t"
            using decode "1.prems" by (cases "from_utf8 bs3") simp_all
          moreover have "length bs3 < length bs" by (simp add: Cons bs0 bs1 bs2)
          ultimately show ?thesis
            using "1.IH" b c2 c3 second_byte_four [OF b c1 c2 c3 refl v]
            by (simp add: Cons bs0 bs1 bs2)
        qed
      next
        case 3
        then show ?thesis
          using "1.prems" big c1
          by (cases bs1; cases "tl bs1"; cases "continuation (hd bs1)") (simp_all add: Cons bs0)
      qed
    qed
  qed (use 1 in simp)
qed

lemma be_bytes_round_trip [simp]:
  "from_be_bytes (ucast (drop_bit 8 w)) (ucast w) = w"
  by (rule bit_eqI)
     (auto simp add: from_be_bytes_def bit_simps not_less dest: le_imp_diff_is_add)

lemma be_bytes_inject:
  assumes "from_be_bytes hi lo = from_be_bytes hi' lo'"
  shows "hi = hi' \<and> lo = lo'"
proof
  have bits: "bit (from_be_bytes h l) n \<longleftrightarrow> (if n < 8 then bit l n else n < 16 \<and> bit h (n - 8))" for h l n
    by (auto simp add: from_be_bytes_def bit_simps dest: bit_imp_le_length)
  show "hi = hi'"
  proof (rule bit_eqI)
    fix n
    assume "possible_bit TYPE(u8) n"
    then show "bit hi n \<longleftrightarrow> bit hi' n"
      using bits [of hi lo "n + 8"] bits [of hi' lo' "n + 8"] assms by simp
  qed
  show "lo = lo'"
  proof (rule bit_eqI)
    fix n
    assume "possible_bit TYPE(u8) n"
    then show "bit lo n \<longleftrightarrow> bit lo' n"
      using bits [of hi lo n] bits [of hi' lo' n] assms by simp
  qed
qed

lemma read_exact_append [simp]: "length xs = n \<Longrightarrow> read_exact n (xs @ ys) = Some (xs, ys)"
  by (simp add: read_exact_def)

section \<open>Machines fed by a stream\<close>

text \<open>
  A connection delivers its bytes in chunks whose boundaries mean nothing. The contract of a
  machine that is fed such chunks: feeding byte by byte and joining what comes out is the same
  as feeding the chunk, and each byte keeps the invariant.
\<close>

fun feed_chunks :: "('b list \<Rightarrow> 's \<Rightarrow> 's \<times> 'o) \<Rightarrow> 'o \<Rightarrow> ('o \<Rightarrow> 'o \<Rightarrow> 'o) \<Rightarrow> 'b list list \<Rightarrow> 's \<Rightarrow> 's \<times> 'o" where
  "feed_chunks feed none join [] s = (s, none)"
| "feed_chunks feed none join (chunk # chunks) s =
     (let (s1, o1) = feed chunk s; (s2, o2) = feed_chunks feed none join chunks s1 in (s2, join o1 o2))"

locale stream_machine =
  fixes feed :: "'b list \<Rightarrow> 's \<Rightarrow> 's \<times> 'o"
    and none :: 'o
    and join :: "'o \<Rightarrow> 'o \<Rightarrow> 'o"
    and inv :: "'s \<Rightarrow> bool"
  assumes join_none: "join none x = x"
    and join_none_right: "join x none = x"
    and join_assoc: "join (join x y) z = join x (join y z)"
    and feed_Nil: "feed [] s = (s, none)"
    and feed_Cons: "feed (b # bs) s =
      (let (s1, o1) = feed [b] s; (s2, o2) = feed bs s1 in (s2, join o1 o2))"
    and feed_inv: "inv s \<Longrightarrow> inv (fst (feed [b] s))"
begin

lemma feed_append:
  "feed (xs @ ys) s = (let (s1, o1) = feed xs s; (s2, o2) = feed ys s1 in (s2, join o1 o2))"
proof (induction xs arbitrary: s)
  case Nil
  then show ?case by (simp add: feed_Nil join_none split: prod.split)
next
  case (Cons x xs)
  then show ?case
    by (simp add: feed_Cons [of x "xs @ ys"] feed_Cons [of x xs] join_assoc split: prod.split)
qed

lemma feed_concat: "feed_chunks feed none join chunks s = feed (concat chunks) s"
  by (induction chunks arbitrary: s) (simp_all add: feed_Nil feed_append)

lemma inv_feed: "inv s \<Longrightarrow> inv (fst (feed bs s))"
proof (induction bs arbitrary: s)
  case Nil
  then show ?case by (simp add: feed_Nil)
next
  case (Cons b bs)
  obtain s1 o1 where s1: "feed [b] s = (s1, o1)" by (cases "feed [b] s")
  then have "inv s1" using feed_inv [OF Cons.prems, of b] by simp
  then show ?case using Cons.IH [of s1] by (auto simp add: feed_Cons [of b bs] s1 split: prod.split)
qed

lemma inv_feed_chunks: "inv s \<Longrightarrow> inv (fst (feed_chunks feed none join chunks s))"
  by (simp add: feed_concat inv_feed)

end

end
