(* ===== verification/Telnet.thy ===== *)
theory Telnet
  imports Wire_Bytes
begin

text \<open>
  The Telnet protocol of a session (\<open>telnet_protocol.rs\<close>): the negotiator that separates the
  bytes for the terminal from the commands, answers option requests and subnegotiations, and the
  encoders of outgoing text and bytes. The atomic flags of the runtime that the negotiator writes
  are fields of its state; the lane that serialises writers is not modelled.
\<close>

abbreviation (input) TELNET_IAC :: u8 where "TELNET_IAC \<equiv> 255"
abbreviation (input) TELNET_SE :: u8 where "TELNET_SE \<equiv> 240"
abbreviation (input) TELNET_SB :: u8 where "TELNET_SB \<equiv> 250"
abbreviation (input) TELNET_WILL :: u8 where "TELNET_WILL \<equiv> 251"
abbreviation (input) TELNET_WONT :: u8 where "TELNET_WONT \<equiv> 252"
abbreviation (input) TELNET_DO :: u8 where "TELNET_DO \<equiv> 253"
abbreviation (input) TELNET_DONT :: u8 where "TELNET_DONT \<equiv> 254"
abbreviation (input) TELNET_OPT_BINARY :: u8 where "TELNET_OPT_BINARY \<equiv> 0"
abbreviation (input) TELNET_OPT_ECHO :: u8 where "TELNET_OPT_ECHO \<equiv> 1"
abbreviation (input) TELNET_OPT_SUPPRESS_GO_AHEAD :: u8 where "TELNET_OPT_SUPPRESS_GO_AHEAD \<equiv> 3"
abbreviation (input) TELNET_OPT_TERMINAL_TYPE :: u8 where "TELNET_OPT_TERMINAL_TYPE \<equiv> 24"
abbreviation (input) TELNET_OPT_NAWS :: u8 where "TELNET_OPT_NAWS \<equiv> 31"
abbreviation (input) TELNET_TTYPE_IS :: u8 where "TELNET_TTYPE_IS \<equiv> 0"
abbreviation (input) TELNET_TTYPE_SEND :: u8 where "TELNET_TTYPE_SEND \<equiv> 1"

record TelnetRuntimeState =
  tl_binary_enabled :: bool
  tl_naws_enabled :: bool
  tl_local_binary :: bool
  tl_remote_binary :: bool
  tl_naws_negotiated :: bool
  tl_cols :: u16
  tl_rows :: u16
  tl_terminal_type :: ustr

definition telnet_from_profile :: "SessionProfile \<Rightarrow> TelnetRuntimeState option" where
  "telnet_from_profile profile =
     (case prof_connection profile of
        ConnTelnet tcp \<Rightarrow> Some
          \<lparr>tl_binary_enabled = tcp_telnet_binary tcp, tl_naws_enabled = tcp_telnet_naws tcp,
           tl_local_binary = False, tl_remote_binary = False, tl_naws_negotiated = False,
           tl_cols = term_cols (prof_terminal profile), tl_rows = term_rows (prof_terminal profile),
           tl_terminal_type = term_term (prof_terminal profile)\<rparr>
      | _ \<Rightarrow> None)"

datatype TelnetState = TData | TIac | TCommand u8 | TSubnegotiation | TSubnegotiationIac

record TelnetNegotiator =
  ng_state :: TelnetState
  ng_subnegotiation :: "u8 list"
  ng_after_cr :: bool
  ng_local_options :: "u8 \<Rightarrow> bool"
  ng_remote_options :: "u8 \<Rightarrow> bool"
  ng_subnegotiation_overflow :: bool
  ng_runtime :: TelnetRuntimeState

definition new_negotiator :: "TelnetRuntimeState \<Rightarrow> TelnetNegotiator" where
  "new_negotiator runtime =
     \<lparr>ng_state = TData, ng_subnegotiation = [], ng_after_cr = False,
      ng_local_options = (\<lambda>_. False), ng_remote_options = (\<lambda>_. False),
      ng_subnegotiation_overflow = False, ng_runtime = runtime\<rparr>"

section \<open>Messages\<close>

fun append_telnet_subnegotiation_payload :: "u8 list \<Rightarrow> u8 list \<Rightarrow> u8 list" where
  "append_telnet_subnegotiation_payload out [] = out"
| "append_telnet_subnegotiation_payload out (byte # payload) =
     append_telnet_subnegotiation_payload
       (if byte = TELNET_IAC then out @ [byte, byte] else out @ [byte]) payload"

definition telnet_naws_message :: "u16 \<Rightarrow> u16 \<Rightarrow> u8 list" where
  "telnet_naws_message cols rows =
     append_telnet_subnegotiation_payload
       (append_telnet_subnegotiation_payload [TELNET_IAC, TELNET_SB, TELNET_OPT_NAWS] (to_be_bytes cols))
       (to_be_bytes rows) @ [TELNET_IAC, TELNET_SE]"

definition telnet_subnegotiation_reply :: "u8 list \<Rightarrow> ustr \<Rightarrow> u8 list option" where
  "telnet_subnegotiation_reply payload terminal_type =
     (case payload of
        a # b # _ \<Rightarrow>
          if a = TELNET_OPT_TERMINAL_TYPE \<and> b = TELNET_TTYPE_SEND then
            Some (append_telnet_subnegotiation_payload
                    [TELNET_IAC, TELNET_SB, TELNET_OPT_TERMINAL_TYPE, TELNET_TTYPE_IS]
                    (as_bytes terminal_type) @ [TELNET_IAC, TELNET_SE])
          else None
      | _ \<Rightarrow> None)"

fun encode_text_chars :: "ustr \<Rightarrow> ustr" where
  "encode_text_chars [] = []"
| "encode_text_chars (ch # chars) =
     (if ch = 13 then
        (case chars of
           [] \<Rightarrow> 13 # 0 # encode_text_chars []
         | next_ch # rest \<Rightarrow>
             if next_ch = 10 then 13 # 10 # encode_text_chars rest
             else 13 # 0 # encode_text_chars chars)
      else if ch = 10 then 13 # 10 # encode_text_chars chars
      else ch # encode_text_chars chars)"

definition encode_telnet_outbound_text :: "ustr \<Rightarrow> bool \<Rightarrow> ustr" where
  "encode_telnet_outbound_text t local_binary =
     (if local_binary then t else encode_text_chars t)"

fun encode_telnet_outbound_bytes :: "u8 list \<Rightarrow> u8 list" where
  "encode_telnet_outbound_bytes [] = []"
| "encode_telnet_outbound_bytes (byte # bytes) =
     (if byte = TELNET_IAC then [byte, byte] else [byte]) @ encode_telnet_outbound_bytes bytes"

section \<open>Options\<close>

text \<open>
  The reply to a command about an option and the new runtime flags; the tables are updated by
  the caller below as the code does through its mutable reference.
\<close>

definition option_response :: "u8 \<Rightarrow> u8 \<Rightarrow> TelnetRuntimeState \<Rightarrow> u8 \<times> TelnetRuntimeState" where
  "option_response command opt rt =
     (if command = TELNET_DO then
        (if opt = TELNET_OPT_BINARY then
           (if tl_binary_enabled rt then (TELNET_WILL, rt\<lparr>tl_local_binary := True\<rparr>)
            else (TELNET_WONT, rt\<lparr>tl_local_binary := False\<rparr>))
         else if opt = TELNET_OPT_NAWS then
           (if tl_naws_enabled rt then (TELNET_WILL, rt\<lparr>tl_naws_negotiated := True\<rparr>)
            else (TELNET_WONT, rt\<lparr>tl_naws_negotiated := False\<rparr>))
         else if opt = TELNET_OPT_SUPPRESS_GO_AHEAD \<or> opt = TELNET_OPT_TERMINAL_TYPE then (TELNET_WILL, rt)
         else (TELNET_WONT, rt))
      else if command = TELNET_DONT then
        (TELNET_WONT,
         if opt = TELNET_OPT_BINARY then rt\<lparr>tl_local_binary := False\<rparr>
         else if opt = TELNET_OPT_NAWS then rt\<lparr>tl_naws_negotiated := False\<rparr> else rt)
      else if command = TELNET_WILL then
        (if opt = TELNET_OPT_BINARY then
           (if tl_binary_enabled rt then (TELNET_DO, rt\<lparr>tl_remote_binary := True\<rparr>)
            else (TELNET_DONT, rt\<lparr>tl_remote_binary := False\<rparr>))
         else if opt = TELNET_OPT_ECHO \<or> opt = TELNET_OPT_SUPPRESS_GO_AHEAD then (TELNET_DO, rt)
         else (TELNET_DONT, rt))
      else
        (TELNET_DONT, if opt = TELNET_OPT_BINARY then rt\<lparr>tl_remote_binary := False\<rparr> else rt))"

definition telnet_option_replies ::
  "u8 \<Rightarrow> u8 \<Rightarrow> TelnetNegotiator \<Rightarrow> TelnetNegotiator \<times> u8 list list" where
  "telnet_option_replies command opt ng =
     (if command \<notin> {TELNET_DO, TELNET_DONT, TELNET_WILL, TELNET_WONT} then (ng, [])
      else
        let own = (command = TELNET_DO \<or> command = TELNET_DONT);
            enabled = (if own then ng_local_options ng opt else ng_remote_options ng opt)
        in if (command = TELNET_DO \<or> command = TELNET_WILL) = enabled then (ng, [])
           else
             let (response, rt) = option_response command opt (ng_runtime ng);
                 on = (response = TELNET_WILL \<or> response = TELNET_DO);
                 ng = (if own then ng\<lparr>ng_local_options := (ng_local_options ng)(opt := on), ng_runtime := rt\<rparr>
                       else ng\<lparr>ng_remote_options := (ng_remote_options ng)(opt := on), ng_runtime := rt\<rparr>)
             in (ng, [TELNET_IAC, response, opt] #
                   (if command = TELNET_DO \<and> opt = TELNET_OPT_NAWS \<and> response = TELNET_WILL
                    then [telnet_naws_message (tl_cols rt) (tl_rows rt)] else [])))"

section \<open>The filter\<close>

text \<open>The negotiator, the bytes for the terminal and the replies gathered so far.\<close>

definition push_data_byte :: "u8 \<Rightarrow> bool \<Rightarrow> TelnetNegotiator \<Rightarrow> TelnetNegotiator \<times> u8 list" where
  "push_data_byte byte remote_binary ng =
     (if remote_binary then (ng\<lparr>ng_after_cr := False\<rparr>, [byte])
      else if ng_after_cr ng \<and> byte = 0 then (ng\<lparr>ng_after_cr := False\<rparr>, [])
      else (ng\<lparr>ng_after_cr := (byte = 13)\<rparr>, [byte]))"

definition finish_negotiator :: "TelnetNegotiator \<Rightarrow> TelnetNegotiator \<times> u8 list" where
  "finish_negotiator ng = (ng\<lparr>ng_after_cr := False\<rparr>, [])"

definition push_subnegotiation :: "u8 \<Rightarrow> TelnetNegotiator \<Rightarrow> TelnetNegotiator" where
  "push_subnegotiation byte ng =
     (if length (ng_subnegotiation ng) < 4096 \<and> \<not> ng_subnegotiation_overflow ng
      then ng\<lparr>ng_subnegotiation := ng_subnegotiation ng @ [byte]\<rparr>
      else ng\<lparr>ng_subnegotiation := [], ng_subnegotiation_overflow := True\<rparr>)"

text \<open>One round of the loop; \<open>remote_binary\<close> is the local copy of the flag.\<close>

definition filter_byte ::
  "u8 \<Rightarrow> bool \<Rightarrow> TelnetNegotiator \<Rightarrow> TelnetNegotiator \<times> bool \<times> u8 list \<times> u8 list list" where
  "filter_byte byte remote_binary ng =
     (case ng_state ng of
        TData \<Rightarrow>
          if byte = TELNET_IAC then (ng\<lparr>ng_state := TIac\<rparr>, remote_binary, [], [])
          else (let (ng, out) = push_data_byte byte remote_binary ng in (ng, remote_binary, out, []))
      | TIac \<Rightarrow>
          if byte = TELNET_IAC then
            (let (ng, out) = push_data_byte TELNET_IAC remote_binary ng
             in (ng\<lparr>ng_state := TData\<rparr>, remote_binary, out, []))
          else if byte \<in> {TELNET_DO, TELNET_DONT, TELNET_WILL, TELNET_WONT} then
            (ng\<lparr>ng_state := TCommand byte\<rparr>, remote_binary, [], [])
          else if byte = TELNET_SB then
            (ng\<lparr>ng_subnegotiation := [], ng_subnegotiation_overflow := False,
                ng_state := TSubnegotiation\<rparr>, remote_binary, [], [])
          else (ng\<lparr>ng_state := TData\<rparr>, remote_binary, [], [])
      | TCommand command \<Rightarrow>
          (let (ng, replies) = telnet_option_replies command byte ng
           in (ng\<lparr>ng_state := TData\<rparr>, tl_remote_binary (ng_runtime ng), [], replies))
      | TSubnegotiation \<Rightarrow>
          if byte = TELNET_IAC then (ng\<lparr>ng_state := TSubnegotiationIac\<rparr>, remote_binary, [], [])
          else (push_subnegotiation byte ng, remote_binary, [], [])
      | TSubnegotiationIac \<Rightarrow>
          if byte = TELNET_SE then
            (let reply = (if ng_subnegotiation_overflow ng then None
                          else telnet_subnegotiation_reply (ng_subnegotiation ng)
                                 (tl_terminal_type (ng_runtime ng)))
             in (ng\<lparr>ng_subnegotiation := [], ng_state := TData\<rparr>, remote_binary, [],
                 (case reply of None \<Rightarrow> [] | Some r \<Rightarrow> [r])))
          else if byte = TELNET_IAC then
            ((push_subnegotiation TELNET_IAC ng)\<lparr>ng_state := TSubnegotiation\<rparr>, remote_binary, [], [])
          else
            ((push_subnegotiation byte (push_subnegotiation TELNET_IAC ng))\<lparr>ng_state := TSubnegotiation\<rparr>,
             remote_binary, [], []))"

fun filter_loop ::
  "u8 list \<Rightarrow> bool \<Rightarrow> u8 list \<Rightarrow> u8 list list \<Rightarrow> TelnetNegotiator
     \<Rightarrow> TelnetNegotiator \<times> u8 list \<times> u8 list list" where
  "filter_loop [] remote_binary out replies ng = (ng, out, replies)"
| "filter_loop (byte # input) remote_binary out replies ng =
     (let (ng, remote_binary, o1, r1) = filter_byte byte remote_binary ng
      in filter_loop input remote_binary (out @ o1) (replies @ r1) ng)"

definition telnet_filter :: "u8 list \<Rightarrow> TelnetNegotiator \<Rightarrow> TelnetNegotiator \<times> u8 list \<times> u8 list list" where
  "telnet_filter input ng = filter_loop input (tl_remote_binary (ng_runtime ng)) [] [] ng"

section \<open>The filter as a stream machine\<close>

definition join_telnet :: "u8 list \<times> u8 list list \<Rightarrow> u8 list \<times> u8 list list \<Rightarrow> u8 list \<times> u8 list list" where
  "join_telnet a b = (fst a @ fst b, snd a @ snd b)"

lemma filter_loop_acc:
  "filter_loop input rb out replies ng =
     (let (ng', o1, r1) = filter_loop input rb [] [] ng in (ng', out @ o1, replies @ r1))"
proof (induction input arbitrary: rb out replies ng)
  case (Cons byte input)
  obtain ng1 rb1 o1 r1 where 1: "filter_byte byte rb ng = (ng1, rb1, o1, r1)"
    by (cases "filter_byte byte rb ng")
  show ?case
    by (simp add: 1 Cons.IH [of rb1 "out @ o1" "replies @ r1"] Cons.IH [of rb1 o1 r1] split: prod.split)
qed simp

text \<open>The local copy of the flag always agrees with the runtime.\<close>

lemma filter_byte_flag:
  "rb = tl_remote_binary (ng_runtime ng) \<Longrightarrow>
   filter_byte byte rb ng = (ng', rb', o1, r1) \<Longrightarrow> rb' = tl_remote_binary (ng_runtime ng')"
  by (auto simp add: filter_byte_def push_data_byte_def push_subnegotiation_def Let_def
      split: TelnetState.splits if_splits prod.splits)

lemma telnet_filter_simps:
  "telnet_filter [] ng = (ng, [], [])"
  "telnet_filter (b # bs) ng =
     (let (ng1, o1, r1) = telnet_filter [b] ng; (ng2, o2, r2) = telnet_filter bs ng1
      in (ng2, o1 @ o2, r1 @ r2))"
proof -
  show "telnet_filter [] ng = (ng, [], [])" by (simp add: telnet_filter_def)
  obtain ng1 rb1 o1 r1 where 1: "filter_byte b (tl_remote_binary (ng_runtime ng)) ng = (ng1, rb1, o1, r1)"
    by (cases "filter_byte b (tl_remote_binary (ng_runtime ng)) ng")
  then have "rb1 = tl_remote_binary (ng_runtime ng1)" using filter_byte_flag [OF refl 1] by simp
  then show "telnet_filter (b # bs) ng =
     (let (ng1, o1, r1) = telnet_filter [b] ng; (ng2, o2, r2) = telnet_filter bs ng1
      in (ng2, o1 @ o2, r1 @ r2))"
    by (simp only: telnet_filter_def filter_loop.simps 1 
        filter_loop_acc [of bs "tl_remote_binary (ng_runtime ng1)" o1 r1] prod.case
        Let_def append_Nil)
qed

lemma telnet_filter_byte:
  "telnet_filter [b] ng =
     (let (ng', _, o1, r1) = filter_byte b (tl_remote_binary (ng_runtime ng)) ng in (ng', o1, r1))"
  by (simp add: telnet_filter_def split: prod.split)

text \<open>
  What every negotiator satisfies: the subnegotiation buffer is bounded, the flags of the runtime
  mirror the option tables, and only supported options are ever on, the configurable ones only
  when the profile allows them.
\<close>

definition local_supported :: "TelnetRuntimeState \<Rightarrow> u8 \<Rightarrow> bool" where
  "local_supported rt opt \<longleftrightarrow>
     opt = TELNET_OPT_BINARY \<and> tl_binary_enabled rt \<or> opt = TELNET_OPT_NAWS \<and> tl_naws_enabled rt \<or>
     opt = TELNET_OPT_SUPPRESS_GO_AHEAD \<or> opt = TELNET_OPT_TERMINAL_TYPE"

definition remote_supported :: "TelnetRuntimeState \<Rightarrow> u8 \<Rightarrow> bool" where
  "remote_supported rt opt \<longleftrightarrow>
     opt = TELNET_OPT_BINARY \<and> tl_binary_enabled rt \<or> opt = TELNET_OPT_ECHO \<or>
     opt = TELNET_OPT_SUPPRESS_GO_AHEAD"

definition telnet_ok :: "TelnetNegotiator \<Rightarrow> bool" where
  "telnet_ok ng \<longleftrightarrow>
     length (ng_subnegotiation ng) \<le> 4096 \<and>
     tl_local_binary (ng_runtime ng) = ng_local_options ng TELNET_OPT_BINARY \<and>
     tl_remote_binary (ng_runtime ng) = ng_remote_options ng TELNET_OPT_BINARY \<and>
     tl_naws_negotiated (ng_runtime ng) = ng_local_options ng TELNET_OPT_NAWS \<and>
     (\<forall>opt. ng_local_options ng opt \<longrightarrow> local_supported (ng_runtime ng) opt) \<and>
     (\<forall>opt. ng_remote_options ng opt \<longrightarrow> remote_supported (ng_runtime ng) opt)"

text \<open>The four commands; a request is answered by the support of its option.\<close>

definition telnet_commands :: "u8 set" where
  "telnet_commands = {TELNET_DO, TELNET_DONT, TELNET_WILL, TELNET_WONT}"

lemma option_response_cases:
  "option_response TELNET_DO opt rt =
     (if local_supported rt opt then TELNET_WILL else TELNET_WONT,
      rt\<lparr>tl_local_binary := (if opt = TELNET_OPT_BINARY then tl_binary_enabled rt else tl_local_binary rt),
         tl_naws_negotiated := (if opt = TELNET_OPT_NAWS then tl_naws_enabled rt else tl_naws_negotiated rt)\<rparr>)"
  "option_response TELNET_DONT opt rt =
     (TELNET_WONT,
      rt\<lparr>tl_local_binary := (tl_local_binary rt \<and> opt \<noteq> TELNET_OPT_BINARY),
         tl_naws_negotiated := (tl_naws_negotiated rt \<and> opt \<noteq> TELNET_OPT_NAWS)\<rparr>)"
  "option_response TELNET_WILL opt rt =
     (if remote_supported rt opt then TELNET_DO else TELNET_DONT,
      rt\<lparr>tl_remote_binary := (if opt = TELNET_OPT_BINARY then tl_binary_enabled rt else tl_remote_binary rt)\<rparr>)"
  "option_response TELNET_WONT opt rt =
     (TELNET_DONT, rt\<lparr>tl_remote_binary := (tl_remote_binary rt \<and> opt \<noteq> TELNET_OPT_BINARY)\<rparr>)"
  by (simp_all add: option_response_def local_supported_def remote_supported_def)

lemma supported_update [simp]:
  "local_supported (rt\<lparr>tl_local_binary := a\<rparr>) = local_supported rt"
  "local_supported (rt\<lparr>tl_remote_binary := a\<rparr>) = local_supported rt"
  "local_supported (rt\<lparr>tl_naws_negotiated := a\<rparr>) = local_supported rt"
  "remote_supported (rt\<lparr>tl_local_binary := a\<rparr>) = remote_supported rt"
  "remote_supported (rt\<lparr>tl_remote_binary := a\<rparr>) = remote_supported rt"
  "remote_supported (rt\<lparr>tl_naws_negotiated := a\<rparr>) = remote_supported rt"
  by (simp_all add: local_supported_def remote_supported_def fun_eq_iff)

text \<open>Each command by its effect on the table and its reply.\<close>

definition set_local :: "u8 \<Rightarrow> bool \<Rightarrow> TelnetNegotiator \<Rightarrow> TelnetNegotiator" where
  "set_local opt on ng =
     ng\<lparr>ng_local_options := (ng_local_options ng)(opt := on),
        ng_runtime := (ng_runtime ng)
          \<lparr>tl_local_binary := (if opt = TELNET_OPT_BINARY then on else tl_local_binary (ng_runtime ng)),
           tl_naws_negotiated := (if opt = TELNET_OPT_NAWS then on else tl_naws_negotiated (ng_runtime ng))\<rparr>\<rparr>"

definition set_remote :: "u8 \<Rightarrow> bool \<Rightarrow> TelnetNegotiator \<Rightarrow> TelnetNegotiator" where
  "set_remote opt on ng =
     ng\<lparr>ng_remote_options := (ng_remote_options ng)(opt := on),
        ng_runtime := (ng_runtime ng)
          \<lparr>tl_remote_binary := (if opt = TELNET_OPT_BINARY then on else tl_remote_binary (ng_runtime ng))\<rparr>\<rparr>"

lemma option_replies_cases:
  "telnet_option_replies TELNET_DO opt ng =
     (if ng_local_options ng opt then (ng, [])
      else if local_supported (ng_runtime ng) opt then
        (set_local opt True ng, [TELNET_IAC, TELNET_WILL, opt] #
           (if opt = TELNET_OPT_NAWS
            then [telnet_naws_message (tl_cols (ng_runtime ng)) (tl_rows (ng_runtime ng))] else []))
      else (set_local opt False ng, [[TELNET_IAC, TELNET_WONT, opt]]))"
  "telnet_option_replies TELNET_DONT opt ng =
     (if ng_local_options ng opt then (set_local opt False ng, [[TELNET_IAC, TELNET_WONT, opt]]) else (ng, []))"
  "telnet_option_replies TELNET_WILL opt ng =
     (if ng_remote_options ng opt then (ng, [])
      else if remote_supported (ng_runtime ng) opt then
        (set_remote opt True ng, [[TELNET_IAC, TELNET_DO, opt]])
      else (set_remote opt False ng, [[TELNET_IAC, TELNET_DONT, opt]]))"
  "telnet_option_replies TELNET_WONT opt ng =
     (if ng_remote_options ng opt then (set_remote opt False ng, [[TELNET_IAC, TELNET_DONT, opt]]) else (ng, []))"
proof -
  have supported: "local_supported (ng_runtime ng) TELNET_OPT_BINARY = tl_binary_enabled (ng_runtime ng)"
    "local_supported (ng_runtime ng) TELNET_OPT_NAWS = tl_naws_enabled (ng_runtime ng)"
    "remote_supported (ng_runtime ng) TELNET_OPT_BINARY = tl_binary_enabled (ng_runtime ng)"
    by (simp_all add: local_supported_def remote_supported_def)
  show "telnet_option_replies TELNET_DO opt ng =
     (if ng_local_options ng opt then (ng, [])
      else if local_supported (ng_runtime ng) opt then
        (set_local opt True ng, [TELNET_IAC, TELNET_WILL, opt] #
           (if opt = TELNET_OPT_NAWS
            then [telnet_naws_message (tl_cols (ng_runtime ng)) (tl_rows (ng_runtime ng))] else []))
      else (set_local opt False ng, [[TELNET_IAC, TELNET_WONT, opt]]))"
    using supported
    by (cases "local_supported (ng_runtime ng) opt")
       (auto simp add: telnet_option_replies_def option_response_cases set_local_def)
  show "telnet_option_replies TELNET_DONT opt ng =
     (if ng_local_options ng opt then (set_local opt False ng, [[TELNET_IAC, TELNET_WONT, opt]]) else (ng, []))"
    by (simp add: telnet_option_replies_def option_response_cases set_local_def)
  show "telnet_option_replies TELNET_WILL opt ng =
     (if ng_remote_options ng opt then (ng, [])
      else if remote_supported (ng_runtime ng) opt then
        (set_remote opt True ng, [[TELNET_IAC, TELNET_DO, opt]])
      else (set_remote opt False ng, [[TELNET_IAC, TELNET_DONT, opt]]))"
    using supported
    by (cases "remote_supported (ng_runtime ng) opt")
       (auto simp add: telnet_option_replies_def option_response_cases set_remote_def)
  show "telnet_option_replies TELNET_WONT opt ng =
     (if ng_remote_options ng opt then (set_remote opt False ng, [[TELNET_IAC, TELNET_DONT, opt]]) else (ng, []))"
    by (simp add: telnet_option_replies_def option_response_cases set_remote_def)
qed

lemma option_replies_other: "command \<notin> telnet_commands \<Longrightarrow> telnet_option_replies command opt ng = (ng, [])"
  by (simp add: telnet_option_replies_def telnet_commands_def)

lemma set_local_ok:
  "telnet_ok ng \<Longrightarrow> (on \<Longrightarrow> local_supported (ng_runtime ng) opt) \<Longrightarrow> telnet_ok (set_local opt on ng)"
  by (auto simp add: telnet_ok_def set_local_def)

lemma set_remote_ok:
  "telnet_ok ng \<Longrightarrow> (on \<Longrightarrow> remote_supported (ng_runtime ng) opt) \<Longrightarrow> telnet_ok (set_remote opt on ng)"
  by (auto simp add: telnet_ok_def set_remote_def)

lemma option_replies_ok:
  assumes "telnet_ok ng" "telnet_option_replies command opt ng = (ng', rs)"
  shows "telnet_ok ng'"
proof (cases "command \<in> telnet_commands")
  case True
  then show ?thesis
    using assms set_local_ok [OF assms(1), of _ opt] set_remote_ok [OF assms(1), of _ opt]
    by (auto simp add: telnet_commands_def option_replies_cases split: if_splits)
next
  case False
  then show ?thesis using assms option_replies_other by simp
qed

lemma push_subnegotiation_ok: "telnet_ok ng \<Longrightarrow> telnet_ok (push_subnegotiation byte ng)"
  by (auto simp add: push_subnegotiation_def telnet_ok_def)

lemma push_data_byte_ok: "telnet_ok ng \<Longrightarrow> telnet_ok (fst (push_data_byte byte rb ng))"
  by (auto simp add: push_data_byte_def telnet_ok_def)

lemma telnet_ok_state: "telnet_ok (ng\<lparr>ng_state := s\<rparr>) = telnet_ok ng"
  by (simp add: telnet_ok_def)

lemma telnet_ok_clear:
  "telnet_ok ng \<Longrightarrow> telnet_ok (ng\<lparr>ng_subnegotiation := []\<rparr>)"
  "telnet_ok ng \<Longrightarrow> telnet_ok (ng\<lparr>ng_subnegotiation := [], ng_subnegotiation_overflow := v\<rparr>)"
  by (simp_all add: telnet_ok_def)

lemma filter_byte_ok:
  assumes "telnet_ok ng"
  shows "telnet_ok (fst (filter_byte byte rb ng))"
proof -
  have d: "telnet_ok ng'" if "push_data_byte b r ng = (ng', out)" for b r ng' out
    using push_data_byte_ok [OF assms, of b r] that by simp
  have c: "telnet_ok ng'" if "telnet_option_replies c b ng = (ng', rs)" for c b ng' rs
    using option_replies_ok [OF assms that] .
  show ?thesis
    using assms push_subnegotiation_ok
    by (auto simp add: filter_byte_def Let_def telnet_ok_state telnet_ok_clear d c
        split: TelnetState.splits prod.splits)
qed

interpretation telnet: stream_machine telnet_filter "([], [])" join_telnet telnet_ok
proof
  fix b bs s
  show "telnet_filter (b # bs) s =
    (let (s1, o1) = telnet_filter [b] s; (s2, o2) = telnet_filter bs s1 in (s2, join_telnet o1 o2))"
    using telnet_filter_simps(2) [of b bs s] by (simp add: join_telnet_def split: prod.splits)
next
  fix b s
  assume "telnet_ok s"
  then show "telnet_ok (fst (telnet_filter [b] s))"
    using filter_byte_ok [of s b "tl_remote_binary (ng_runtime s)"]
    by (auto simp add: telnet_filter_byte split: prod.splits)
qed (simp_all add: join_telnet_def telnet_filter_simps(1))

section \<open>Reading back what the encoders send\<close>

text \<open>The bytes a receiver in the default mode hands on: the NUL after a CR is padding.\<close>

fun strip_padding :: "bool \<Rightarrow> u8 list \<Rightarrow> u8 list \<times> bool" where
  "strip_padding cr [] = ([], cr)"
| "strip_padding cr (b # bs) =
     (if cr \<and> b = 0 then strip_padding False bs
      else (let (out, cr') = strip_padding (b = 13) bs in (b # out, cr')))"

text \<open>A text with every line feed that has no carriage return before it given one.\<close>

fun crlf_lines :: "ustr \<Rightarrow> ustr" where
  "crlf_lines [] = []"
| "crlf_lines (c # cs) =
     (if c = 13 then
        (case cs of [] \<Rightarrow> [13] | d # ds \<Rightarrow> if d = 10 then 13 # 10 # crlf_lines ds else 13 # crlf_lines cs)
      else if c = 10 then 13 # 10 # crlf_lines cs
      else c # crlf_lines cs)"

lemma filter_data_byte:
  assumes "ng_state ng = TData"
  shows "telnet_filter (if b = TELNET_IAC then [b, b] else [b]) ng =
    (let (ng', out) = push_data_byte b (tl_remote_binary (ng_runtime ng)) ng in (ng', out, []))"
  using assms
  by (auto simp add: telnet_filter_simps(2) [of _ "_ # _"] telnet_filter_byte filter_byte_def
      push_data_byte_def telnet_filter_simps(1))

lemma filter_encoded_binary:
  "ng_state ng = TData \<Longrightarrow> tl_remote_binary (ng_runtime ng) \<Longrightarrow>
   telnet_filter (encode_telnet_outbound_bytes bs) ng =
     (if bs = [] then ng else ng\<lparr>ng_after_cr := False\<rparr>, bs, [])"
  by (induction bs arbitrary: ng)
     (simp_all add: telnet_filter_simps(1) telnet.feed_append filter_data_byte push_data_byte_def join_telnet_def)

lemma filter_encoded_nvt:
  "ng_state ng = TData \<Longrightarrow> \<not> tl_remote_binary (ng_runtime ng) \<Longrightarrow>
   telnet_filter (encode_telnet_outbound_bytes bs) ng =
     (let (out, cr) = strip_padding (ng_after_cr ng) bs in (ng\<lparr>ng_after_cr := cr\<rparr>, out, []))"
proof (induction bs arbitrary: ng)
  case (Cons b bs)
  let ?ng = "fst (push_data_byte b False ng)"
  have "ng_state ?ng = TData" "\<not> tl_remote_binary (ng_runtime ?ng)"
    using Cons.prems by (simp_all add: push_data_byte_def)
  note IH = Cons.IH [OF this]
  show ?case
    using Cons.prems IH
    by (auto simp add: telnet.feed_append filter_data_byte push_data_byte_def join_telnet_def split: prod.splits)
qed (simp add: telnet_filter_simps(1))

lemma strip_padding_plain:
  "13 \<notin> set xs \<Longrightarrow> 0 \<notin> set xs \<Longrightarrow> xs \<noteq> [] \<Longrightarrow>
   strip_padding cr (xs @ ys) = (let (out, cr') = strip_padding False ys in (xs @ out, cr'))"
proof (induction xs arbitrary: cr)
  case (Cons x xs)
  then show ?case by (cases xs) (auto split: prod.split)
qed simp

lemma strip_padding_char:
  assumes "c < 1114112" "c \<noteq> 13" "c \<noteq> 0"
  shows "strip_padding cr (map of_nat (utf8_char c) @ ys) =
    (let (out, cr') = strip_padding False ys in (map of_nat (utf8_char c) @ out, cr'))"
proof (rule strip_padding_plain)
  show "(13 :: u8) \<notin> set (map of_nat (utf8_char c))" and "(0 :: u8) \<notin> set (map of_nat (utf8_char c))"
  proof -
    have "b \<noteq> 13 \<and> b \<noteq> 0" if "b \<in> set (map of_nat (utf8_char c) :: u8 list)" for b
    proof (cases "c < 128")
      case True
      then have "b = of_nat c" using that by (simp add: utf8_char_def)
      then have "unat b = c" using True by (simp add: unat_small_byte)
      then show ?thesis using assms by auto
    next
      case False
      then have "128 \<le> b" using utf8_byte_values [of c b] assms(1) that by simp
      then show ?thesis by (auto simp add: word_le_nat_alt)
    qed
    then show "(13 :: u8) \<notin> set (map of_nat (utf8_char c))" "(0 :: u8) \<notin> set (map of_nat (utf8_char c))"
      by blast+
  qed
  show "map of_nat (utf8_char c) \<noteq> []" by (simp add: utf8_char_def)
qed

lemma strip_padding_text:
  "scalar_text t \<Longrightarrow> strip_padding False (as_bytes (encode_text_chars t)) = (as_bytes (crlf_lines t), False)"
proof (induction t rule: encode_text_chars.induct)
  case (2 c cs)
  have ascii: "utf8_char 13 = [13]" "utf8_char 10 = [10]" "utf8_char 0 = [0]" by (simp_all add: utf8_char_def)
  consider "c = 13" | "c = 10" | "c = 0" | "c \<noteq> 13" "c \<noteq> 10" "c \<noteq> 0" by blast
  then show ?case
  proof cases
    case 1
    show ?thesis
    proof (cases cs)
      case Nil
      then show ?thesis by (simp add: 1 ascii)
    next
      case (Cons d ds)
      then show ?thesis using 1 2 by (simp add: ascii)
    qed
  qed (use 2 in \<open>simp_all add: ascii strip_padding_char\<close>)
qed simp

section \<open>Two negotiators talking to each other\<close>

text \<open>
  Feed the bytes to the first negotiator, its replies to the second, the replies of that to the
  first, and so on for a number of turns: the bytes still under way afterwards.
\<close>

fun telnet_exchange :: "nat \<Rightarrow> TelnetNegotiator \<Rightarrow> TelnetNegotiator \<Rightarrow> u8 list \<Rightarrow> u8 list" where
  "telnet_exchange 0 a b bytes = bytes"
| "telnet_exchange (Suc turns) a b bytes =
     (let (a', _, replies) = telnet_filter bytes a in telnet_exchange turns b a' (concat replies))"

lemma filter_command:
  assumes "ng_state ng = TData" "command \<in> telnet_commands"
  shows "telnet_filter [TELNET_IAC, command, opt] ng =
    (let (ng', replies) = telnet_option_replies command opt ng in (ng'\<lparr>ng_state := TData\<rparr>, [], replies))"
proof -
  have replies: "telnet_option_replies command opt (ng\<lparr>ng_state := s\<rparr>) =
    (let (ng', replies) = telnet_option_replies command opt ng in (ng'\<lparr>ng_state := s\<rparr>, replies))" for s
    using assms(2)
    by (auto simp add: telnet_commands_def option_replies_cases set_local_def set_remote_def)
  have 1: "telnet_filter [TELNET_IAC] ng = (ng\<lparr>ng_state := TIac\<rparr>, [], [])"
    using assms(1) by (simp add: telnet_filter_byte filter_byte_def)
  have 2: "telnet_filter [command] (ng\<lparr>ng_state := TIac\<rparr>) = (ng\<lparr>ng_state := TCommand command\<rparr>, [], [])"
    using assms(2) by (auto simp add: telnet_filter_byte filter_byte_def telnet_commands_def)
  have 3: "telnet_filter [opt] (ng\<lparr>ng_state := TCommand command\<rparr>) =
    (let (ng', replies) = telnet_option_replies command opt ng in (ng'\<lparr>ng_state := TData\<rparr>, [], replies))"
    by (simp add: telnet_filter_byte filter_byte_def replies split: prod.split)
  show ?thesis
    by (simp add: telnet_filter_simps(2) [of _ "_ # _"] 1 2 3 split: prod.split)
qed

lemma append_payload:
  "append_telnet_subnegotiation_payload out payload = out @ encode_telnet_outbound_bytes payload"
  by (induction payload arbitrary: out) auto

lemma filter_payload:
  "ng_state ng = TSubnegotiation \<Longrightarrow> \<not> ng_subnegotiation_overflow ng \<Longrightarrow>
   length (ng_subnegotiation ng) + length payload \<le> 4096 \<Longrightarrow>
   telnet_filter (encode_telnet_outbound_bytes payload) ng =
     (ng\<lparr>ng_subnegotiation := ng_subnegotiation ng @ payload\<rparr>, [], [])"
proof (induction payload arbitrary: ng)
  case (Cons b payload)
  let ?ng = "ng\<lparr>ng_subnegotiation := ng_subnegotiation ng @ [b]\<rparr>"
  have "telnet_filter (if b = TELNET_IAC then [b, b] else [b]) ng = (?ng, [], [])"
    using Cons.prems
    by (simp add: telnet_filter_simps(2) [of _ "_ # _"] telnet_filter_byte filter_byte_def push_subnegotiation_def)
  moreover have "telnet_filter (encode_telnet_outbound_bytes payload) ?ng =
      (?ng\<lparr>ng_subnegotiation := ng_subnegotiation ?ng @ payload\<rparr>, [], [])"
    using Cons.prems by (intro Cons.IH) simp_all
  ultimately show ?case by (simp add: telnet.feed_append join_telnet_def)
qed (simp add: telnet_filter_simps(1))

text \<open>A window size message arrives as the four bytes of the size and is not answered.\<close>

lemma filter_naws:
  assumes "ng_state ng = TData"
  shows "telnet_filter (telnet_naws_message cols rows) ng =
    (ng\<lparr>ng_subnegotiation := [], ng_subnegotiation_overflow := False\<rparr>, [], [])"
proof -
  let ?s = "ng\<lparr>ng_subnegotiation := [TELNET_OPT_NAWS], ng_subnegotiation_overflow := False, ng_state := TSubnegotiation\<rparr>"
  let ?p = "to_be_bytes cols @ to_be_bytes rows"
  have 1: "telnet_filter [TELNET_IAC, TELNET_SB, TELNET_OPT_NAWS] ng = (?s, [], [])"
    using assms
    by (simp add: telnet_filter_simps(2) [of _ "_ # _"] telnet_filter_byte filter_byte_def push_subnegotiation_def)
  have 2: "telnet_filter (encode_telnet_outbound_bytes ?p) ?s =
      (?s\<lparr>ng_subnegotiation := TELNET_OPT_NAWS # ?p\<rparr>, [], [])"
    by (subst filter_payload) (simp_all add: to_be_bytes_def)
  have 3: "telnet_filter [TELNET_IAC, TELNET_SE] (?s\<lparr>ng_subnegotiation := TELNET_OPT_NAWS # ?p\<rparr>) =
      (ng\<lparr>ng_subnegotiation := [], ng_subnegotiation_overflow := False\<rparr>, [], [])"
    using assms
    by (simp add: telnet_filter_simps(2) [of _ "_ # _"] telnet_filter_byte filter_byte_def
        telnet_subnegotiation_reply_def to_be_bytes_def)
  have "telnet_naws_message cols rows =
      [TELNET_IAC, TELNET_SB, TELNET_OPT_NAWS] @ encode_telnet_outbound_bytes ?p @ [TELNET_IAC, TELNET_SE]"
    by (simp add: telnet_naws_message_def append_payload to_be_bytes_def)
  then show ?thesis by (simp only: telnet.feed_append 1 2 3 Let_def prod.case join_telnet_def) simp
qed

text \<open>One turn of the conversation about an option.\<close>

lemma exchange_Nil [simp]: "telnet_exchange n a b [] = []"
  by (induction n arbitrary: a b) (simp_all add: telnet_filter_simps(1))

lemma exchange_command:
  assumes "ng_state a = TData" "command \<in> telnet_commands"
  shows "telnet_exchange (Suc n) a b [TELNET_IAC, command, opt] =
    (let (a', replies) = telnet_option_replies command opt a
     in telnet_exchange n b (a'\<lparr>ng_state := TData\<rparr>) (concat replies))"
  using filter_command [OF assms, of opt] by (simp split: prod.split)

lemma exchange_naws:
  assumes "ng_state a = TData"
  shows "telnet_exchange (Suc n) a b (TELNET_IAC # TELNET_WILL # TELNET_OPT_NAWS # telnet_naws_message cols rows) =
    (let (a', replies) = telnet_option_replies TELNET_WILL TELNET_OPT_NAWS a
     in telnet_exchange n b (a'\<lparr>ng_state := TData, ng_subnegotiation := [], ng_subnegotiation_overflow := False\<rparr>)
          (concat replies))"
proof -
  have w: "TELNET_WILL \<in> telnet_commands" by (simp add: telnet_commands_def)
  obtain a' rs where r: "telnet_option_replies TELNET_WILL TELNET_OPT_NAWS a = (a', rs)"
    by (cases "telnet_option_replies TELNET_WILL TELNET_OPT_NAWS a")
  have "telnet_filter ([TELNET_IAC, TELNET_WILL, TELNET_OPT_NAWS] @ telnet_naws_message cols rows) a =
      (a'\<lparr>ng_state := TData, ng_subnegotiation := [], ng_subnegotiation_overflow := False\<rparr>, [], rs)"
    by (simp only: telnet.feed_append filter_command [OF assms w] r Let_def prod.case)
       (simp add: filter_naws join_telnet_def)
  then show ?thesis by (simp add: r)
qed

lemma table_updates [simp]:
  "ng_local_options (set_local opt on a) opt = on" "ng_remote_options (set_local opt on a) = ng_remote_options a"
  "ng_remote_options (set_remote opt on a) opt = on" "ng_local_options (set_remote opt on a) = ng_local_options a"
  "ng_state (set_local opt on a) = ng_state a" "ng_state (set_remote opt on a) = ng_state a"
  by (simp_all add: set_local_def set_remote_def)

text \<open>From the last message of a conversation backwards.\<close>

lemma exchange_wont_off:
  "ng_state a = TData \<Longrightarrow> \<not> ng_remote_options a opt \<Longrightarrow>
   telnet_exchange (Suc n) a b [TELNET_IAC, TELNET_WONT, opt] = []"
  by (simp add: exchange_command telnet_commands_def option_replies_cases del: telnet_exchange.simps)

lemma exchange_dont_off:
  "ng_state a = TData \<Longrightarrow> \<not> ng_local_options a opt \<Longrightarrow>
   telnet_exchange (Suc n) a b [TELNET_IAC, TELNET_DONT, opt] = []"
  by (simp add: exchange_command telnet_commands_def option_replies_cases del: telnet_exchange.simps)

lemma exchange_dont:
  "ng_state a = TData \<Longrightarrow> ng_state b = TData \<Longrightarrow> \<not> ng_remote_options b opt \<Longrightarrow>
   telnet_exchange (Suc (Suc n)) a b [TELNET_IAC, TELNET_DONT, opt] = []"
  by (simp add: exchange_command [of a TELNET_DONT "Suc n"] telnet_commands_def option_replies_cases
      exchange_wont_off del: telnet_exchange.simps)

lemma exchange_wont:
  "ng_state a = TData \<Longrightarrow> ng_state b = TData \<Longrightarrow> \<not> ng_local_options b opt \<Longrightarrow>
   telnet_exchange (Suc (Suc n)) a b [TELNET_IAC, TELNET_WONT, opt] = []"
  by (simp add: exchange_command [of a TELNET_WONT "Suc n"] telnet_commands_def option_replies_cases
      exchange_dont_off del: telnet_exchange.simps)

lemma exchange_do_on:
  "ng_state a = TData \<Longrightarrow> ng_local_options a opt \<Longrightarrow>
   telnet_exchange (Suc n) a b [TELNET_IAC, TELNET_DO, opt] = []"
  by (simp add: exchange_command telnet_commands_def option_replies_cases del: telnet_exchange.simps)

lemma exchange_will_on:
  "ng_state a = TData \<Longrightarrow> ng_remote_options a opt \<Longrightarrow>
   telnet_exchange (Suc n) a b [TELNET_IAC, TELNET_WILL, opt] = []"
  by (simp add: exchange_command telnet_commands_def option_replies_cases del: telnet_exchange.simps)

lemma remote_naws [simp]: "\<not> remote_supported rt TELNET_OPT_NAWS"
  by (simp add: remote_supported_def)

text \<open>Answers to the agreement of the first party, whose table already has the option on.\<close>

lemma exchange_will:
  assumes "ng_state a = TData" "ng_state b = TData" "ng_local_options b opt"
  shows "telnet_exchange (Suc (Suc (Suc n))) a b [TELNET_IAC, TELNET_WILL, opt] = []"
  using assms
  by (simp add: exchange_command [of a TELNET_WILL "Suc (Suc n)"] telnet_commands_def option_replies_cases
      exchange_do_on exchange_dont del: telnet_exchange.simps)

lemma exchange_will_naws:
  assumes "ng_state a = TData" "ng_state b = TData"
  shows "telnet_exchange (Suc (Suc (Suc n))) a b
    (TELNET_IAC # TELNET_WILL # TELNET_OPT_NAWS # telnet_naws_message cols rows) = []"
  using assms
  by (simp add: exchange_naws [of a "Suc (Suc n)"] option_replies_cases exchange_dont
      del: telnet_exchange.simps)

lemma exchange_do:
  assumes "ng_state a = TData" "ng_state b = TData" "ng_remote_options b opt" "opt \<noteq> TELNET_OPT_NAWS"
  shows "telnet_exchange (Suc (Suc (Suc n))) a b [TELNET_IAC, TELNET_DO, opt] = []"
  using assms
  by (simp add: exchange_command [of a TELNET_DO "Suc (Suc n)"] telnet_commands_def option_replies_cases
      exchange_will_on exchange_wont del: telnet_exchange.simps)

section \<open>Properties\<close>

text \<open>
  C32. However a connection cuts the incoming bytes into chunks, the terminal output and the
  replies are those of the whole input, and the negotiator of a new session keeps its
  invariant: the subnegotiation buffer holds at most 4096 bytes, the shared flags mirror the
  option tables and no unsupported or disabled option is ever on.
\<close>

theorem telnet_chunks_irrelevant:
  "feed_chunks telnet_filter ([], []) join_telnet chunks ng = telnet_filter (concat chunks) ng \<and>
   (case telnet_from_profile profile of
      None \<Rightarrow> True
    | Some rt \<Rightarrow> telnet_ok (fst (feed_chunks telnet_filter ([], []) join_telnet chunks (new_negotiator rt))))"
proof -
  have "telnet_ok (new_negotiator rt)" if "telnet_from_profile profile = Some rt" for rt
    using that
    by (auto simp add: telnet_from_profile_def new_negotiator_def telnet_ok_def split: ConnectionConfig.splits)
  then show ?thesis using telnet.feed_concat telnet.inv_feed_chunks by (simp split: option.split)
qed


text \<open>
  C34. Negotiation dies out: whatever options two negotiators have on, and whatever option command
  the first one receives, passing the replies back and forth leaves nothing under way after four
  turns.
\<close>

theorem telnet_negotiation_ends:
  assumes "ng_state a = TData" "ng_state b = TData" "command \<in> telnet_commands"
  shows "telnet_exchange 4 a b [TELNET_IAC, command, opt] = []"
proof -
  have 4: "4 = Suc (Suc (Suc (Suc 0)))" by simp
  have "command = TELNET_DO \<or> command = TELNET_DONT \<or> command = TELNET_WILL \<or> command = TELNET_WONT"
    using assms(3)
    by (auto simp add: telnet_commands_def)
  then show ?thesis
    using assms(1,2) unfolding 4
    by (elim disjE; cases "opt = TELNET_OPT_NAWS")
       (simp_all add: exchange_command [of a _ "Suc (Suc (Suc 0))"] telnet_commands_def option_replies_cases
          exchange_will exchange_will_naws exchange_do exchange_dont exchange_wont
          del: telnet_exchange.simps)
qed

text \<open>A runtime for the examples: every option allowed, 80 columns and 24 rows.\<close>

definition example_telnet :: TelnetNegotiator where
  "example_telnet = new_negotiator
     \<lparr>tl_binary_enabled = True, tl_naws_enabled = True, tl_local_binary = False, tl_remote_binary = False,
      tl_naws_negotiated = False, tl_cols = 80, tl_rows = 24, tl_terminal_type = str ''xterm''\<rparr>"


theorem telnet_negotiation_ends_witness:
  "TELNET_DO \<in> telnet_commands \<and>
   telnet_exchange 4 example_telnet example_telnet [TELNET_IAC, TELNET_DO, TELNET_OPT_NAWS] = []"
  using telnet_negotiation_ends [of example_telnet example_telnet TELNET_DO TELNET_OPT_NAWS]
  by (simp add: example_telnet_def new_negotiator_def telnet_commands_def)

end
