(* ===== verification/Modem.thy ===== *)
theory Modem
  imports Wire_Bytes
begin

text \<open>
  XModem and YModem transfers over a session (\<open>modem_protocol.rs\<close>, \<open>modem_xmodem.rs\<close>): the
  checksums and packets, the waiting and retry loops, sending a file in acknowledged blocks and
  receiving one. The session is an environment: the results of the successive \<open>next_byte\<close> calls
  with the milliseconds each took, and answers that may fail for writing to the session, the
  cancellation checks, progress reports and the local file; each interaction advances a tick the
  answers depend on. A read past the given results is a closed stream.
\<close>

unbundle bit_operations_syntax

abbreviation (input) MODEM_SOH :: u8 where "MODEM_SOH \<equiv> 1"
abbreviation (input) MODEM_STX :: u8 where "MODEM_STX \<equiv> 2"
abbreviation (input) MODEM_EOT :: u8 where "MODEM_EOT \<equiv> 4"
abbreviation (input) MODEM_ACK :: u8 where "MODEM_ACK \<equiv> 6"
abbreviation (input) MODEM_NAK :: u8 where "MODEM_NAK \<equiv> 21"
abbreviation (input) MODEM_CAN :: u8 where "MODEM_CAN \<equiv> 24"
abbreviation (input) MODEM_CRC_REQUEST :: u8 where "MODEM_CRC_REQUEST \<equiv> 67"
abbreviation (input) MODEM_EOF :: u8 where "MODEM_EOF \<equiv> 26"
abbreviation (input) MODEM_ACK_TIMEOUT :: nat where "MODEM_ACK_TIMEOUT \<equiv> 12000"
abbreviation (input) MODEM_MAX_RETRIES :: nat where "MODEM_MAX_RETRIES \<equiv> 10"
abbreviation (input) XMODEM_BLOCK_SIZE :: nat where "XMODEM_BLOCK_SIZE \<equiv> 128"
abbreviation (input) YMODEM_BLOCK_SIZE :: nat where "YMODEM_BLOCK_SIZE \<equiv> 1024"

datatype ModemError =
    ByteTimeout | AckTimeout | CrcTimeout | PacketTimeout
  | ReceiverSilent | RemoteCancelled | TransferCancelled | StreamClosed
  | NotAcknowledged u8 | EotNotAcknowledged
  | UnexpectedMarker u8 | BlockCheckFailed | CrcMismatch u16 u16 | OutOfOrder u8 u8
  | PaddingOverflow | WrittenOverflow | ReceivedOverflow | SourceEndedEarly | SourceChanged
  | ReceiverWithoutCrc | NameWithNul | MetadataTooLong | FinalBlockRejected
  | EndBeforeMetadata | MetadataMissing | EmptyBatch | EmptyLocalDestination | SizeMismatch nat nat
  | OtherError ustr

text \<open>The texts of the first four name a timeout; other texts are searched.\<close>

fun is_modem_timeout :: "ModemError \<Rightarrow> bool" where
  "is_modem_timeout ByteTimeout = True"
| "is_modem_timeout AckTimeout = True"
| "is_modem_timeout CrcTimeout = True"
| "is_modem_timeout PacketTimeout = True"
| "is_modem_timeout (OtherError e) = (contains_str e (str ''timeout'') \<or> contains_str e (str ''timed out''))"
| "is_modem_timeout _ = False"

type_synonym reads = "(nat \<times> (ModemError + u8)) list"

datatype check = CheckCancelled | CheckInterrupted ModemError

record modem_env =
  env_write :: "nat \<Rightarrow> ModemError option"
  env_check :: "nat \<Rightarrow> check option"
  env_progress :: "nat \<Rightarrow> ModemError option"
  env_file :: "nat \<Rightarrow> ModemError option"
  env_file_read :: "nat \<Rightarrow> nat"

record modem_io =
  io_reads :: reads
  io_sent :: "u8 list list"
  io_tick :: nat

section \<open>Packets\<close>

definition crc_shift :: "u16 \<Rightarrow> u16" where
  "crc_shift crc = (if crc AND 0x8000 \<noteq> 0 then push_bit 1 crc XOR 0x1021 else push_bit 1 crc)"

definition crc_byte :: "u16 \<Rightarrow> u8 \<Rightarrow> u16" where
  "crc_byte crc byte = (crc_shift ^^ 8) (crc XOR push_bit 8 (ucast byte))"

definition crc16_xmodem :: "u8 list \<Rightarrow> u16" where
  "crc16_xmodem data = foldl crc_byte 0 data"

definition modem_packet_bytes :: "u8 \<Rightarrow> u8 \<Rightarrow> u8 list \<Rightarrow> nat \<Rightarrow> bool \<Rightarrow> u8 list" where
  "modem_packet_bytes marker block_no payload block_size crc =
     (let data = take (min (length payload) block_size) payload @
                 replicate (block_size - min (length payload) block_size) MODEM_EOF
      in [marker, block_no, 255 - block_no] @ data @
         (if crc then to_be_bytes (crc16_xmodem data) else [foldl (+) 0 data]))"

record ModemPacket =
  mp_block_no :: u8
  mp_data :: "u8 list"

section \<open>Reading and writing\<close>

fun next_byte :: "reads \<Rightarrow> reads \<times> (ModemError + u8)" where
  "next_byte [] = ([], Inl StreamClosed)"
| "next_byte ((_, r) # reads) = (reads, r)"

fun modem_read_exact :: "nat \<Rightarrow> reads \<Rightarrow> reads \<times> (ModemError + u8 list)" where
  "modem_read_exact 0 reads = (reads, Inr [])"
| "modem_read_exact (Suc n) reads =
     (case next_byte reads of
        (reads, Inl e) \<Rightarrow> (reads, Inl e)
      | (reads, Inr b) \<Rightarrow>
          (case modem_read_exact n reads of
             (reads, Inl e) \<Rightarrow> (reads, Inl e)
           | (reads, Inr bs) \<Rightarrow> (reads, Inr (b # bs))))"

definition write_runtime_bytes :: "modem_env \<Rightarrow> u8 list \<Rightarrow> modem_io \<Rightarrow> modem_io \<times> (ModemError + unit)" where
  "write_runtime_bytes env bytes io =
     (let tick = io_tick io; io = io\<lparr>io_tick := Suc tick\<rparr>
      in case env_write env tick of
           Some e \<Rightarrow> (io, Inl e)
         | None \<Rightarrow> (io\<lparr>io_sent := io_sent io @ [bytes]\<rparr>, Inr ()))"

definition check_modem_cancelled :: "modem_env \<Rightarrow> modem_io \<Rightarrow> modem_io \<times> (ModemError + unit)" where
  "check_modem_cancelled env io =
     (let tick = io_tick io; io = io\<lparr>io_tick := Suc tick\<rparr>
      in case env_check env tick of
           None \<Rightarrow> (io, Inr ())
         | Some CheckCancelled \<Rightarrow>
             (fst (write_runtime_bytes env [MODEM_CAN, MODEM_CAN, MODEM_CAN] io), Inl TransferCancelled)
         | Some (CheckInterrupted e) \<Rightarrow> (io, Inl e))"

definition progress_update :: "modem_env \<Rightarrow> modem_io \<Rightarrow> modem_io \<times> (ModemError + unit)" where
  "progress_update env io =
     (io\<lparr>io_tick := Suc (io_tick io)\<rparr>,
      case env_progress env (io_tick io) of None \<Rightarrow> Inr () | Some e \<Rightarrow> Inl e)"

text \<open>
  The loop of the three waiting functions: read until a byte decides, a time limit passes or an
  error other than a timeout comes back. \<open>decide\<close> says what a byte means, if anything.
\<close>

fun wait_loop ::
  "nat \<Rightarrow> ModemError \<Rightarrow> (u8 \<Rightarrow> (ModemError + 'a) option) \<Rightarrow> nat \<Rightarrow> reads \<Rightarrow> reads \<times> (ModemError + 'a)" where
  "wait_loop timeout late decide elapsed [] =
     (if timeout \<le> elapsed then ([], Inl late) else ([], Inl StreamClosed))"
| "wait_loop timeout late decide elapsed ((dt, r) # reads) =
     (if timeout \<le> elapsed then ((dt, r) # reads, Inl late)
      else (case r of
              Inr b \<Rightarrow>
                (case decide b of
                   Some result \<Rightarrow> (reads, result)
                 | None \<Rightarrow> wait_loop timeout late decide (elapsed + dt) reads)
            | Inl e \<Rightarrow>
                if is_modem_timeout e then wait_loop timeout late decide (elapsed + dt) reads
                else (reads, Inl e)))"

definition modem_wait_for_receiver :: "reads \<Rightarrow> reads \<times> (ModemError + bool)" where
  "modem_wait_for_receiver =
     wait_loop 45000 ReceiverSilent
       (\<lambda>b. if b = MODEM_CRC_REQUEST then Some (Inr True)
            else if b = MODEM_NAK then Some (Inr False)
            else if b = MODEM_CAN then Some (Inl RemoteCancelled) else None) 0"

definition modem_wait_for_crc_request :: "nat \<Rightarrow> reads \<Rightarrow> reads \<times> (ModemError + unit)" where
  "modem_wait_for_crc_request timeout =
     wait_loop timeout CrcTimeout
       (\<lambda>b. if b = MODEM_CRC_REQUEST then Some (Inr ())
            else if b = MODEM_CAN then Some (Inl RemoteCancelled) else None) 0"

datatype ModemAck = Ack | Nak

definition modem_wait_for_ack :: "nat \<Rightarrow> reads \<Rightarrow> reads \<times> (ModemError + ModemAck)" where
  "modem_wait_for_ack timeout =
     wait_loop timeout AckTimeout
       (\<lambda>b. if b = MODEM_ACK then Some (Inr Ack)
            else if b = MODEM_NAK then Some (Inr Nak)
            else if b = MODEM_CAN then Some (Inl RemoteCancelled) else None) 0"

text \<open>Sending and waiting for the acknowledgement, as often as allowed; the last error is given.\<close>

fun send_until_ack ::
  "modem_env \<Rightarrow> u8 list \<Rightarrow> nat \<Rightarrow> ModemError \<Rightarrow> nat \<Rightarrow> modem_io \<Rightarrow> modem_io \<times> (ModemError + unit)" where
  "send_until_ack env bytes timeout exhausted 0 io = (io, Inl exhausted)"
| "send_until_ack env bytes timeout exhausted (Suc tries) io =
     (case write_runtime_bytes env bytes io of
        (io, Inl e) \<Rightarrow> (io, Inl e)
      | (io, Inr _) \<Rightarrow>
          (case modem_wait_for_ack timeout (io_reads io) of
             (reads, Inr Ack) \<Rightarrow> (io\<lparr>io_reads := reads\<rparr>, Inr ())
           | (reads, Inr Nak) \<Rightarrow> send_until_ack env bytes timeout exhausted tries (io\<lparr>io_reads := reads\<rparr>)
           | (reads, Inl e) \<Rightarrow>
               if is_modem_timeout e
               then send_until_ack env bytes timeout exhausted tries (io\<lparr>io_reads := reads\<rparr>)
               else (io\<lparr>io_reads := reads\<rparr>, Inl e)))"

definition modem_send_packet_bytes_with_retries ::
  "modem_env \<Rightarrow> u8 \<Rightarrow> u8 list \<Rightarrow> nat \<Rightarrow> modem_io \<Rightarrow> modem_io \<times> (ModemError + unit)" where
  "modem_send_packet_bytes_with_retries env block_no packet ack_timeout =
     send_until_ack env packet ack_timeout (NotAcknowledged block_no) MODEM_MAX_RETRIES"

definition modem_send_packet_with_retries ::
  "modem_env \<Rightarrow> u8 \<Rightarrow> u8 \<Rightarrow> u8 list \<Rightarrow> bool \<Rightarrow> modem_io \<Rightarrow> modem_io \<times> (ModemError + unit)" where
  "modem_send_packet_with_retries env marker block_no payload crc =
     (let block_size = (if marker = MODEM_STX then YMODEM_BLOCK_SIZE else XMODEM_BLOCK_SIZE)
      in modem_send_packet_bytes_with_retries env block_no
           (modem_packet_bytes marker block_no payload block_size crc) MODEM_ACK_TIMEOUT)"

definition modem_finish_eot_with_timeout ::
  "modem_env \<Rightarrow> nat \<Rightarrow> modem_io \<Rightarrow> modem_io \<times> (ModemError + unit)" where
  "modem_finish_eot_with_timeout env ack_timeout =
     send_until_ack env [MODEM_EOT] ack_timeout EotNotAcknowledged MODEM_MAX_RETRIES"

definition modem_finish_eot :: "modem_env \<Rightarrow> modem_io \<Rightarrow> modem_io \<times> (ModemError + unit)" where
  "modem_finish_eot env = modem_finish_eot_with_timeout env MODEM_ACK_TIMEOUT"

section \<open>Receiving packets\<close>

fun modem_wait_for_next_marker :: "reads \<Rightarrow> reads \<times> (ModemError + u8)" where
  "modem_wait_for_next_marker [] = ([], Inl StreamClosed)"
| "modem_wait_for_next_marker ((_, r) # reads) =
     (case r of
        Inl e \<Rightarrow> (reads, Inl e)
      | Inr b \<Rightarrow>
          if b = MODEM_SOH \<or> b = MODEM_STX \<or> b = MODEM_EOT then (reads, Inr b)
          else if b = MODEM_CAN then (reads, Inl RemoteCancelled)
          else modem_wait_for_next_marker reads)"

fun request_packet :: "modem_env \<Rightarrow> nat \<Rightarrow> modem_io \<Rightarrow> modem_io \<times> (ModemError + u8)" where
  "request_packet env 0 io = (io, Inl PacketTimeout)"
| "request_packet env (Suc tries) io =
     (case write_runtime_bytes env [MODEM_CRC_REQUEST] io of
        (io, Inl e) \<Rightarrow> (io, Inl e)
      | (io, Inr _) \<Rightarrow>
          (case modem_wait_for_next_marker (io_reads io) of
             (reads, Inr marker) \<Rightarrow> (io\<lparr>io_reads := reads\<rparr>, Inr marker)
           | (reads, Inl e) \<Rightarrow>
               if is_modem_timeout e then request_packet env tries (io\<lparr>io_reads := reads\<rparr>)
               else (io\<lparr>io_reads := reads\<rparr>, Inl e)))"

definition modem_wait_for_packet_marker :: "modem_env \<Rightarrow> modem_io \<Rightarrow> modem_io \<times> (ModemError + u8)" where
  "modem_wait_for_packet_marker env = request_packet env 24"

definition modem_read_packet :: "u8 \<Rightarrow> reads \<Rightarrow> reads \<times> (ModemError + ModemPacket)" where
  "modem_read_packet marker reads =
     (if marker \<noteq> MODEM_SOH \<and> marker \<noteq> MODEM_STX then (reads, Inl (UnexpectedMarker marker))
      else
        let block_size = (if marker = MODEM_SOH then XMODEM_BLOCK_SIZE else YMODEM_BLOCK_SIZE)
        in case modem_read_exact 2 reads of
             (reads, Inl e) \<Rightarrow> (reads, Inl e)
           | (reads, Inr header) \<Rightarrow>
               if header ! 0 \<noteq> 255 - header ! 1 then (reads, Inl BlockCheckFailed)
               else
                 (case modem_read_exact (block_size + 2) reads of
                    (reads, Inl e) \<Rightarrow> (reads, Inl e)
                  | (reads, Inr data) \<Rightarrow>
                      let received_crc = from_be_bytes (data ! block_size) (data ! (block_size + 1));
                          data = take block_size data;
                          actual_crc = crc16_xmodem data
                      in if received_crc \<noteq> actual_crc then (reads, Inl (CrcMismatch received_crc actual_crc))
                         else (reads, Inr \<lparr>mp_block_no = header ! 0, mp_data = data\<rparr>)))"

section \<open>The received file\<close>

text \<open>
  The output while it is written: its bytes so far, the padding bytes held back and the count of
  written bytes (a \<open>u64\<close>, its overflow an error). Only a finished output replaces the target.
\<close>

record modem_output =
  mo_content :: "u8 list"
  mo_trailing_padding :: nat
  mo_bytes_written :: nat

definition checked_add_u64 :: "nat \<Rightarrow> nat \<Rightarrow> nat option" where
  "checked_add_u64 a b = (if a + b < 2 ^ 64 then Some (a + b) else None)"

definition rposition :: "('a \<Rightarrow> bool) \<Rightarrow> 'a list \<Rightarrow> nat option" where
  "rposition P xs =
     (case dropWhile (\<lambda>x. \<not> P x) (rev xs) of [] \<Rightarrow> None | _ # rest \<Rightarrow> Some (length rest))"

fun write_modem_padding :: "nat \<Rightarrow> u8 list \<Rightarrow> u8 list" where
  "write_modem_padding remaining content =
     (if remaining = 0 then content
      else let count = min remaining 1024
           in write_modem_padding (remaining - count) (content @ replicate count MODEM_EOF))"

declare write_modem_padding.simps [simp del]

definition append_modem_data_without_trailing_padding ::
  "u8 list \<Rightarrow> modem_output \<Rightarrow> modem_output \<times> (ModemError + unit)" where
  "append_modem_data_without_trailing_padding data out =
     (case rposition (\<lambda>byte. byte \<noteq> MODEM_EOF) data of
        None \<Rightarrow>
          (case checked_add_u64 (mo_trailing_padding out) (length data) of
             None \<Rightarrow> (out, Inl PaddingOverflow)
           | Some n \<Rightarrow> (out\<lparr>mo_trailing_padding := n\<rparr>, Inr ()))
      | Some last_content \<Rightarrow>
          let padded =
            (if 0 < mo_trailing_padding out then
               let out = out\<lparr>mo_content := write_modem_padding (mo_trailing_padding out) (mo_content out)\<rparr>
               in case checked_add_u64 (mo_bytes_written out) (mo_trailing_padding out) of
                    None \<Rightarrow> (out, Inl WrittenOverflow)
                  | Some n \<Rightarrow> (out\<lparr>mo_bytes_written := n, mo_trailing_padding := 0\<rparr>, Inr ())
             else (out, Inr ()))
          in case padded of
               (out, Inl e) \<Rightarrow> (out, Inl e)
             | (out, Inr _) \<Rightarrow>
                 let trailing_count = length data - (last_content + 1);
                     data = take (last_content + 1) data;
                     out = out\<lparr>mo_content := mo_content out @ data\<rparr>
                 in case checked_add_u64 (mo_bytes_written out) (length data) of
                      None \<Rightarrow> (out, Inl WrittenOverflow)
                    | Some n \<Rightarrow> (out\<lparr>mo_bytes_written := n, mo_trailing_padding := trailing_count\<rparr>, Inr ()))"

section \<open>Receiving a file\<close>

record xmodem_state =
  xm_io :: modem_io
  xm_expected :: u8
  xm_output :: modem_output
  xm_bytes_received :: nat
  xm_first_packet :: bool

datatype 's round = Again 's | Stop "modem_io \<times> (ModemError + modem_output)"

text \<open>Local file errors are those of the environment; a block of padding only writes nothing.\<close>

definition append_received ::
  "modem_env \<Rightarrow> u8 list \<Rightarrow> modem_io \<Rightarrow> modem_output \<Rightarrow> modem_io \<times> (ModemError + modem_output)" where
  "append_received env data io out =
     (let tick = io_tick io; io = io\<lparr>io_tick := Suc tick\<rparr>
      in case (if rposition (\<lambda>byte. byte \<noteq> MODEM_EOF) data = None then None else env_file env tick) of
           Some e \<Rightarrow> (io, Inl e)
         | None \<Rightarrow>
             (case append_modem_data_without_trailing_padding data out of
                (_, Inl e) \<Rightarrow> (io, Inl e)
              | (out, Inr _) \<Rightarrow> (io, Inr out)))"

definition xmodem_marker :: "modem_env \<Rightarrow> xmodem_state \<Rightarrow> modem_io \<Rightarrow> modem_io \<times> (ModemError + u8)" where
  "xmodem_marker env st io =
     (if xm_first_packet st then modem_wait_for_packet_marker env io
      else (case modem_wait_for_next_marker (io_reads io) of (reads, r) \<Rightarrow> (io\<lparr>io_reads := reads\<rparr>, r)))"

text \<open>What happens to a packet that was read without error.\<close>

definition xmodem_packet :: "modem_env \<Rightarrow> ModemPacket \<Rightarrow> modem_io \<Rightarrow> xmodem_state \<Rightarrow> xmodem_state round" where
  "xmodem_packet env packet io st =
     (if mp_block_no packet = xm_expected st then
        (case append_received env (mp_data packet) io (xm_output st) of
           (io, Inl e) \<Rightarrow> Stop (io, Inl e)
         | (io, Inr out) \<Rightarrow>
             (case checked_add_u64 (xm_bytes_received st) (length (mp_data packet)) of
                None \<Rightarrow> Stop (io, Inl ReceivedOverflow)
              | Some received \<Rightarrow>
                  (case progress_update env io of
                     (io, Inl e) \<Rightarrow> Stop (io, Inl e)
                   | (io, Inr _) \<Rightarrow>
                       (case write_runtime_bytes env [MODEM_ACK] io of
                          (io, Inl e) \<Rightarrow> Stop (io, Inl e)
                        | (io, Inr _) \<Rightarrow>
                            Again \<lparr>xm_io = io, xm_expected = xm_expected st + 1, xm_output = out,
                                   xm_bytes_received = received, xm_first_packet = False\<rparr>))))
      else if xm_expected st \<noteq> 1 \<and> mp_block_no packet = xm_expected st - 1 then
        (case write_runtime_bytes env [MODEM_ACK] io of
           (io, Inl e) \<Rightarrow> Stop (io, Inl e)
         | (io, Inr _) \<Rightarrow> Again (st\<lparr>xm_io := io, xm_first_packet := False\<rparr>))
      else
        Stop (fst (write_runtime_bytes env [MODEM_NAK] io),
              Inl (OutOfOrder (mp_block_no packet) (xm_expected st))))"

definition xmodem_round :: "modem_env \<Rightarrow> xmodem_state \<Rightarrow> xmodem_state round" where
  "xmodem_round env st =
     (case check_modem_cancelled env (xm_io st) of
        (io, Inl e) \<Rightarrow> Stop (io, Inl e)
      | (io, Inr _) \<Rightarrow>
          (case xmodem_marker env st io of
             (io, Inl e) \<Rightarrow> Stop (io, Inl e)
           | (io, Inr marker) \<Rightarrow>
               if marker = MODEM_EOT then
                 (case write_runtime_bytes env [MODEM_ACK] io of
                    (io, Inl e) \<Rightarrow> Stop (io, Inl e)
                  | (io, Inr _) \<Rightarrow> Stop (io, Inr (xm_output st)))
               else
                 (case modem_read_packet marker (io_reads io) of
                    (reads, Inl e) \<Rightarrow>
                      (case write_runtime_bytes env [MODEM_NAK] (io\<lparr>io_reads := reads\<rparr>) of
                         (io, Inl e') \<Rightarrow> Stop (io, Inl e')
                       | (io, Inr _) \<Rightarrow> Stop (io, Inl e))
                  | (reads, Inr packet) \<Rightarrow> xmodem_packet env packet (io\<lparr>io_reads := reads\<rparr>) st)))"

text \<open>Every round that goes on has read something, so the loop ends.\<close>

lemma next_byte_length: "next_byte reads = (reads', Inr b) \<Longrightarrow> length reads' < length reads"
  by (cases reads) auto

lemma next_byte_le: "next_byte reads = (reads', r) \<Longrightarrow> length reads' \<le> length reads"
  by (cases reads) auto

lemma read_exact_le: "modem_read_exact n reads = (reads', r) \<Longrightarrow> length reads' \<le> length reads"
proof (induction n arbitrary: reads r reads')
  case (Suc n)
  obtain reads1 r1 where 1: "next_byte reads = (reads1, r1)" by (cases "next_byte reads")
  obtain reads2 r2 where 2: "modem_read_exact n reads1 = (reads2, r2)" by (cases "modem_read_exact n reads1")
  have "length reads' \<le> length reads1"
    using Suc.prems Suc.IH [OF 2] by (auto simp add: 1 2 split: sum.splits)
  then show ?case using next_byte_le [OF 1] by simp
qed simp

lemma next_marker_length:
  "modem_wait_for_next_marker reads = (reads', r) \<Longrightarrow>
   length reads' \<le> length reads \<and> (\<forall>m. r = Inr m \<longrightarrow> length reads' < length reads)"
proof (induction reads arbitrary: reads' r)
  case (Cons x reads)
  obtain dt y where x: "x = (dt, y)" by (cases x)
  show ?case
    using Cons.prems Cons.IH [of reads' r] by (auto simp add: x split: sum.splits if_splits)
qed auto

lemma write_reads:
  "write_runtime_bytes env bytes io = (io', r) \<Longrightarrow> io_reads io' = io_reads io"
  by (auto simp add: write_runtime_bytes_def Let_def split: option.splits)

lemma fst_write_reads [simp]: "io_reads (fst (write_runtime_bytes env bytes io)) = io_reads io"
  by (metis prod.collapse write_reads)

lemma check_reads: "check_modem_cancelled env io = (io', r) \<Longrightarrow> io_reads io' = io_reads io"
  by (auto simp add: check_modem_cancelled_def Let_def split: option.splits check.splits)

lemma progress_reads: "progress_update env io = (io', r) \<Longrightarrow> io_reads io' = io_reads io"
  by (auto simp add: progress_update_def)

lemma append_received_reads: "append_received env data io out = (io', r) \<Longrightarrow> io_reads io' = io_reads io"
  by (auto simp add: append_received_def Let_def split: option.splits prod.splits sum.splits)

lemma request_packet_length:
  "request_packet env tries io = (io', Inr m) \<Longrightarrow> length (io_reads io') < length (io_reads io)"
proof (induction tries arbitrary: io)
  case (Suc tries)
  obtain io1 r1 where 1: "write_runtime_bytes env [MODEM_CRC_REQUEST] io = (io1, r1)"
    by (cases "write_runtime_bytes env [MODEM_CRC_REQUEST] io")
  have io1: "io_reads io1 = io_reads io" using write_reads [OF 1] .
  obtain reads2 r2 where 2: "modem_wait_for_next_marker (io_reads io) = (reads2, r2)"
    by (cases "modem_wait_for_next_marker (io_reads io)")
  show ?case
    using Suc.prems Suc.IH [of "io1\<lparr>io_reads := reads2\<rparr>"] next_marker_length [OF 2]
    by (auto simp add: 1 2 io1 split: sum.splits if_splits)
qed simp

lemma xmodem_marker_length:
  "xmodem_marker env st io = (io', Inr m) \<Longrightarrow> length (io_reads io') < length (io_reads io)"
  by (auto simp add: xmodem_marker_def modem_wait_for_packet_marker_def
      dest: request_packet_length next_marker_length split: if_splits prod.splits)

lemma read_packet_le: "modem_read_packet marker reads = (reads', r) \<Longrightarrow> length reads' \<le> length reads"
  unfolding modem_read_packet_def Let_def
  by (auto dest!: read_exact_le split: if_splits prod.splits sum.splits)

lemma xmodem_packet_reads:
  "xmodem_packet env packet io st = Again st' \<Longrightarrow> io_reads (xm_io st') = io_reads io"
  unfolding xmodem_packet_def
  by (auto dest!: append_received_reads progress_reads write_reads
      split: if_splits prod.splits sum.splits option.splits)

lemma xmodem_round_decreases:
  assumes "xmodem_round env st = Again st'"
  shows "length (io_reads (xm_io st')) < length (io_reads (xm_io st))"
proof -
  obtain io1 r1 where 1: "check_modem_cancelled env (xm_io st) = (io1, r1)"
    by (cases "check_modem_cancelled env (xm_io st)")
  obtain io2 r2 where 2: "xmodem_marker env st io1 = (io2, r2)" by (cases "xmodem_marker env st io1")
  from assms 1 2 obtain m where m: "r2 = Inr m" "m \<noteq> MODEM_EOT"
    by (auto simp add: xmodem_round_def split: sum.splits if_splits prod.splits)
  obtain reads3 r3 where 3: "modem_read_packet m (io_reads io2) = (reads3, r3)"
    by (cases "modem_read_packet m (io_reads io2)")
  have "xmodem_packet env (projr r3) (io2\<lparr>io_reads := reads3\<rparr>) st = Again st'"
    using assms 1 2 3 m by (auto simp add: xmodem_round_def split: sum.splits prod.splits)
  then have "io_reads (xm_io st') = reads3" by (auto dest: xmodem_packet_reads)
  then show ?thesis
    using check_reads [OF 1] xmodem_marker_length [of env st io1 io2 m] 2 m(1) read_packet_le [OF 3] by simp
qed

function xmodem_receive_loop :: "modem_env \<Rightarrow> xmodem_state \<Rightarrow> modem_io \<times> (ModemError + modem_output)" where
  "xmodem_receive_loop env st =
     (case xmodem_round env st of Again st' \<Rightarrow> xmodem_receive_loop env st' | Stop result \<Rightarrow> result)"
  by pat_completeness auto
termination
  by (relation "measure (\<lambda>(env, st). length (io_reads (xm_io st)))") (simp_all add: xmodem_round_decreases)

declare xmodem_receive_loop.simps [simp del]

text \<open>
  Creating and finishing the local output may fail; then the target is left alone. The result has
  the bytes sent to the session, the outcome, and the content of the target if it was replaced.
\<close>

definition xmodem_receive_file ::
  "modem_env \<Rightarrow> ModemError option \<Rightarrow> ModemError option \<Rightarrow> reads
     \<Rightarrow> u8 list list \<times> (ModemError + nat) \<times> u8 list option" where
  "xmodem_receive_file env create finish reads =
     (case create of
        Some e \<Rightarrow> ([], Inl e, None)
      | None \<Rightarrow>
          (case xmodem_receive_loop env
                  \<lparr>xm_io = \<lparr>io_reads = reads, io_sent = [], io_tick = 0\<rparr>, xm_expected = 1,
                   xm_output = \<lparr>mo_content = [], mo_trailing_padding = 0, mo_bytes_written = 0\<rparr>,
                   xm_bytes_received = 0, xm_first_packet = True\<rparr> of
             (io, Inl e) \<Rightarrow> (io_sent io, Inl e, None)
           | (io, Inr out) \<Rightarrow>
               (case finish of
                  Some e \<Rightarrow> (io_sent io, Inl e, None)
                | None \<Rightarrow> (io_sent io, Inr (mo_bytes_written out), Some (mo_content out)))))"

section \<open>Sending a file\<close>

text \<open>A read from the local file: some bytes of what is left, none at its end.\<close>

definition file_read ::
  "modem_env \<Rightarrow> nat \<Rightarrow> u8 list \<Rightarrow> modem_io \<Rightarrow> modem_io \<times> (ModemError + u8 list)" where
  "file_read env limit content io =
     (let tick = io_tick io; io = io\<lparr>io_tick := Suc tick\<rparr>
      in case env_file env tick of
           Some e \<Rightarrow> (io, Inl e)
         | None \<Rightarrow> (io, Inr (take (min limit (max 1 (env_file_read env tick))) content)))"

function xmodem_send_loop ::
  "modem_env \<Rightarrow> bool \<Rightarrow> nat \<Rightarrow> u8 \<Rightarrow> nat \<Rightarrow> u8 list \<Rightarrow> modem_io \<Rightarrow> modem_io \<times> (ModemError + nat)" where
  "xmodem_send_loop env crc total_size block_no bytes_done content io =
     (if total_size \<le> bytes_done then (io, Inr bytes_done)
      else
        (case check_modem_cancelled env io of
           (io, Inl e) \<Rightarrow> (io, Inl e)
         | (io, Inr _) \<Rightarrow>
             (case file_read env (min (total_size - bytes_done) XMODEM_BLOCK_SIZE) content io of
                (io, Inl e) \<Rightarrow> (io, Inl e)
              | (io, Inr chunk) \<Rightarrow>
                  if length chunk = 0 then (io, Inl SourceEndedEarly)
                  else
                    (case modem_send_packet_with_retries env MODEM_SOH block_no chunk crc io of
                       (io, Inl e) \<Rightarrow> (io, Inl e)
                     | (io, Inr _) \<Rightarrow>
                         (case progress_update env io of
                            (io, Inl e) \<Rightarrow> (io, Inl e)
                          | (io, Inr _) \<Rightarrow>
                              xmodem_send_loop env crc total_size (block_no + 1) (bytes_done + length chunk)
                                (drop (length chunk) content) io)))))"
  by pat_completeness auto
termination
  by (relation "measure (\<lambda>(env, crc, total_size, block_no, bytes_done, content, io). total_size - bytes_done)")
     (auto simp add: diff_less_mono2 length_greater_0_conv [symmetric] simp del: length_greater_0_conv)

declare xmodem_send_loop.simps [simp del]

fun finish_auto :: "modem_env \<Rightarrow> nat \<Rightarrow> modem_io \<Rightarrow> modem_io \<times> (ModemError + unit)" where
  "finish_auto env 0 io = (io, Inl EotNotAcknowledged)"
| "finish_auto env (Suc tries) io =
     (case write_runtime_bytes env [MODEM_EOT] io of
        (io, Inl e) \<Rightarrow> (io, Inl e)
      | (io, Inr _) \<Rightarrow>
          (case modem_wait_for_ack 2000 (io_reads io) of
             (reads, Inr Ack) \<Rightarrow> (io\<lparr>io_reads := reads\<rparr>, Inr ())
           | (reads, Inr Nak) \<Rightarrow> finish_auto env tries (io\<lparr>io_reads := reads\<rparr>)
           | (reads, Inl e) \<Rightarrow>
               (io\<lparr>io_reads := reads\<rparr>, if is_modem_timeout e then Inr () else Inl e)))"

definition modem_finish_auto_remote_xmodem :: "modem_env \<Rightarrow> modem_io \<Rightarrow> modem_io \<times> (ModemError + unit)" where
  "modem_finish_auto_remote_xmodem env = finish_auto env 3"

text \<open>
  The opened source has its content and the size it had then; \<open>unchanged\<close> says whether it still
  has that size at the end.
\<close>

definition xmodem_send_file ::
  "modem_env \<Rightarrow> u8 list \<Rightarrow> nat \<Rightarrow> bool \<Rightarrow> bool \<Rightarrow> reads \<Rightarrow> modem_io \<times> (ModemError + nat)" where
  "xmodem_send_file env content total_size unchanged auto_remote_receiver reads =
     (let io = \<lparr>io_reads = reads, io_sent = [], io_tick = 0\<rparr>
      in case modem_wait_for_receiver reads of
           (reads, Inl e) \<Rightarrow> (io\<lparr>io_reads := reads\<rparr>, Inl e)
         | (reads, Inr crc) \<Rightarrow>
             (case xmodem_send_loop env crc total_size 1 0 content (io\<lparr>io_reads := reads\<rparr>) of
                (io, Inl e) \<Rightarrow> (io, Inl e)
              | (io, Inr bytes_done) \<Rightarrow>
                  if \<not> unchanged then (io, Inl SourceChanged)
                  else
                    (case (if auto_remote_receiver then modem_finish_auto_remote_xmodem env io
                           else modem_finish_eot env io) of
                       (io, Inl e) \<Rightarrow> (io, Inl e)
                     | (io, Inr _) \<Rightarrow> (io, Inr bytes_done))))"

section \<open>The checksum\<close>

lemma crc_shift_bit: "crc_shift crc = push_bit 1 crc XOR (if bit crc 15 then 0x1021 else 0)"
proof -
  have "crc AND 0x8000 = 0 \<longleftrightarrow> \<not> bit crc 15"
    using and_exp_eq_0_iff_not_bit [of crc 15] by simp
  then show ?thesis by (simp add: crc_shift_def)
qed

lemma xor_cancel_right:
  fixes a b k :: u16
  assumes "a XOR k = b XOR k"
  shows "a = b"
proof -
  have "(a XOR k) XOR k = (b XOR k) XOR k" using assms by simp
  then show ?thesis by (simp add: xor.assoc)
qed

lemma crc_shift_inj: "inj crc_shift"
proof (rule injI)
  fix x y
  assume eq: "crc_shift x = crc_shift y"
  have "bit (crc_shift z) 0 = bit z 15" for z
    by (simp add: crc_shift_bit bit_simps) (simp add: bit_0)
  with eq have top: "bit x 15 = bit y 15" by metis
  let ?k = "if bit y 15 then 0x1021 else 0 :: u16"
  have "push_bit 1 x XOR ?k = push_bit 1 y XOR ?k" using eq top unfolding crc_shift_bit by simp
  then have push: "push_bit 1 x = push_bit 1 y" by (rule xor_cancel_right)
  show "x = y"
  proof (rule bit_eqI)
    fix n
    assume n: "possible_bit TYPE(u16) n"
    show "bit x n \<longleftrightarrow> bit y n"
    proof (cases "n = 15")
      case False
      then have "Suc n < 16" using n by simp
      then have "bit (push_bit 1 z) (Suc n) = bit z n" for z :: u16
        by (simp only: bit_push_bit_iff) simp
      then show ?thesis using push by metis
    qed (use top in simp)
  qed
qed

lemma crc_rounds_inj: "inj (crc_shift ^^ n)"
  by (induction n) (auto simp add: inj_def dest!: injD [OF crc_shift_inj])

lemma crc_byte_inj_state: "crc_byte c b = crc_byte c' b \<Longrightarrow> c = c'"
  unfolding crc_byte_def by (drule injD [OF crc_rounds_inj]) (rule xor_cancel_right)

lemma crc_byte_inj_byte:
  assumes "crc_byte c b = crc_byte c b'"
  shows "b = b'"
proof -
  have "c XOR push_bit 8 (ucast b) = c XOR push_bit 8 (ucast b')"
    using assms unfolding crc_byte_def by (rule injD [OF crc_rounds_inj])
  then have "push_bit 8 (ucast b) XOR c = push_bit 8 (ucast b') XOR c" by (simp add: xor.commute)
  then have "push_bit 8 (ucast b :: u16) = push_bit 8 (ucast b')" by (rule xor_cancel_right)
  then have "from_be_bytes b 0 = from_be_bytes b' 0" by (simp add: from_be_bytes_def)
  then show ?thesis using be_bytes_inject by blast
qed

lemma crc_fold_inj: "foldl crc_byte c xs = foldl crc_byte c' xs \<Longrightarrow> c = c'"
  by (induction xs arbitrary: c c') (auto dest: crc_byte_inj_state)

lemma crc_detects_byte:
  assumes "i < length data" "x \<noteq> data ! i"
  shows "crc16_xmodem (data[i := x]) \<noteq> crc16_xmodem data"
proof
  let ?pre = "take i data" and ?post = "drop (Suc i) data"
  assume "crc16_xmodem (data[i := x]) = crc16_xmodem data"
  moreover have "data[i := x] = ?pre @ x # ?post" using assms(1) by (rule upd_conv_take_nth_drop)
  moreover have "data = ?pre @ (data ! i) # ?post" using assms(1) by (rule id_take_nth_drop)
  ultimately have "foldl crc_byte 0 (?pre @ x # ?post) = foldl crc_byte 0 (?pre @ (data ! i) # ?post)"
    unfolding crc16_xmodem_def by metis
  then have "crc_byte (foldl crc_byte 0 ?pre) x = crc_byte (foldl crc_byte 0 ?pre) (data ! i)"
    by (auto dest: crc_fold_inj)
  then show False using assms(2) crc_byte_inj_byte by blast
qed

section \<open>Packets on the line\<close>

definition deliver :: "u8 list \<Rightarrow> reads" where
  "deliver bytes = map (\<lambda>b. (0, Inr b)) bytes"

lemma deliver_simps [simp]:
  "deliver [] = []" "deliver (b # bs) = (0, Inr b) # deliver bs" "deliver (xs @ ys) = deliver xs @ deliver ys"
  by (simp_all add: deliver_def)

lemma read_exact_deliver [simp]:
  "length bs = n \<Longrightarrow> modem_read_exact n (deliver bs @ rest) = (rest, Inr bs)"
  by (induction bs arbitrary: n) auto

text \<open>What reading the bytes after the marker gives, when all of them arrive.\<close>

definition block_size_of :: "u8 \<Rightarrow> nat" where
  "block_size_of m = (if m = MODEM_SOH then 128 else 1024)"

lemma read_exact_two: "modem_read_exact 2 (deliver [b, c] @ rest) = (rest, Inr [b, c])"
  by (simp add: numeral_2_eq_2)

lemma read_packet_bad_header:
  assumes "m = MODEM_SOH \<or> m = MODEM_STX" "b \<noteq> 255 - c"
  shows "modem_read_packet m (deliver [b, c] @ rest) = (rest, Inl BlockCheckFailed)"
  using assms by (auto simp add: modem_read_packet_def read_exact_two simp del: deliver_simps)

lemma read_packet_data:
  assumes "m = MODEM_SOH \<or> m = MODEM_STX" "length data = block_size_of m"
  shows "modem_read_packet m (deliver ([b, 255 - b] @ data @ [hi, lo]) @ rest) =
    (rest,
     if from_be_bytes hi lo = crc16_xmodem data then Inr \<lparr>mp_block_no = b, mp_data = data\<rparr>
     else Inl (CrcMismatch (from_be_bytes hi lo) (crc16_xmodem data)))"
proof -
  have "modem_read_exact (block_size_of m + 2) (deliver (data @ [hi, lo]) @ rest) = (rest, Inr (data @ [hi, lo]))"
    using assms(2) by (intro read_exact_deliver) simp
  moreover have "modem_read_exact 2 (deliver ([b, 255 - b] @ data @ [hi, lo]) @ rest) =
      (deliver (data @ [hi, lo]) @ rest, Inr [b, 255 - b])"
    using read_exact_two [of b "255 - b" "deliver (data @ [hi, lo]) @ rest"] by simp
  ultimately show ?thesis
    using assms
    by (auto simp add: modem_read_packet_def block_size_of_def nth_append Let_def simp del: deliver_simps)
qed

text \<open>The padded block of a payload.\<close>

definition padded :: "nat \<Rightarrow> u8 list \<Rightarrow> u8 list" where
  "padded n payload = take n payload @ replicate (n - length payload) MODEM_EOF"

lemma length_padded [simp]: "length (padded n payload) = n"
  by (simp add: padded_def)

lemma packet_bytes_padded:
  "modem_packet_bytes m b payload n True =
     m # [b, 255 - b] @ padded n payload @ to_be_bytes (crc16_xmodem (padded n payload))"
proof -
  have "take (min (length payload) n) payload @ replicate (n - min (length payload) n) MODEM_EOF = padded n payload"
    by (cases "n \<le> length payload") (simp_all add: padded_def min_def)
  then show ?thesis by (simp add: modem_packet_bytes_def Let_def)
qed

lemma read_own_packet:
  assumes "m = MODEM_SOH \<or> m = MODEM_STX"
  shows "modem_read_packet m (deliver (tl (modem_packet_bytes m b payload (block_size_of m) True)) @ rest) =
    (rest, Inr \<lparr>mp_block_no = b, mp_data = padded (block_size_of m) payload\<rparr>)"
proof -
  let ?d = "padded (block_size_of m) payload"
  have "tl (modem_packet_bytes m b payload (block_size_of m) True) =
      [b, 255 - b] @ ?d @ [ucast (drop_bit 8 (crc16_xmodem ?d)), ucast (crc16_xmodem ?d)]"
    by (simp add: packet_bytes_padded to_be_bytes_def)
  then show ?thesis
    using read_packet_data [OF assms, of ?d b "ucast (drop_bit 8 (crc16_xmodem ?d))" "ucast (crc16_xmodem ?d)" rest]
    by (simp only: be_bytes_round_trip length_padded if_True simp_thms)
qed

text \<open>One wrong byte anywhere after the marker is noticed.\<close>

lemma corrupted_packet_rejected:
  assumes "m = MODEM_SOH \<or> m = MODEM_STX"
    and "i < length (tl (modem_packet_bytes m b payload (block_size_of m) True))"
    and "x \<noteq> tl (modem_packet_bytes m b payload (block_size_of m) True) ! i"
  shows "\<exists>e. snd (modem_read_packet m
    (deliver ((tl (modem_packet_bytes m b payload (block_size_of m) True))[i := x]) @ rest)) = Inl e"
proof -
  let ?n = "block_size_of m" and ?d = "padded (block_size_of m) payload"
  let ?hi = "ucast (drop_bit 8 (crc16_xmodem ?d)) :: u8" and ?lo = "ucast (crc16_xmodem ?d) :: u8"
  have p: "tl (modem_packet_bytes m b payload ?n True) = [b, 255 - b] @ ?d @ [?hi, ?lo]"
    by (simp add: packet_bytes_padded to_be_bytes_def)
  consider "i = 0" | "i = 1" | "2 \<le> i" "i < 2 + ?n" | "i = 2 + ?n" | "i = 3 + ?n"
    using assms(2) unfolding p by fastforce
  then show ?thesis
  proof cases
    case 1
    then have "x \<noteq> 255 - (255 - b)" using assms(3) p by simp
    then show ?thesis
      using read_packet_bad_header [OF assms(1), of x "255 - b" "deliver (?d @ [?hi, ?lo]) @ rest"] 1
      by (simp add: p)
  next
    case 2
    then have "x \<noteq> 255 - b" using assms(3) p by simp
    then have "b \<noteq> 255 - x" by auto
    then show ?thesis
      using read_packet_bad_header [OF assms(1), of b x "deliver (?d @ [?hi, ?lo]) @ rest"] 2
      by (simp add: p)
  next
    case 3
    then obtain j where j: "i = Suc (Suc j)" "j < length ?d"
      by (metis Suc_le_D Suc_less_eq add_2_eq_Suc length_padded less_2_cases_iff not_less numeral_2_eq_2 Suc_le_mono)
    have "x \<noteq> ?d ! j" using j assms(3) by (simp add: p nth_append)
    then have "crc16_xmodem (?d[j := x]) \<noteq> crc16_xmodem ?d" using crc_detects_byte [OF j(2)] by blast
    moreover have "([b, 255 - b] @ ?d @ [?hi, ?lo])[i := x] = [b, 255 - b] @ ?d[j := x] @ [?hi, ?lo]"
      using j by (simp add: list_update_append)
    ultimately show ?thesis
      using read_packet_data [OF assms(1), of "?d[j := x]" b ?hi ?lo rest]
      unfolding p by (simp only: be_bytes_round_trip) simp
  next
    case 4
    then have "x \<noteq> ?hi" using assms(3) by (simp add: p nth_append)
    then have "from_be_bytes x ?lo \<noteq> crc16_xmodem ?d"
      using be_bytes_inject [of x ?lo ?hi ?lo] by (metis be_bytes_round_trip)
    moreover have "([b, 255 - b] @ ?d @ [?hi, ?lo])[i := x] = [b, 255 - b] @ ?d @ [x, ?lo]"
      using 4 by (simp add: list_update_append)
    ultimately show ?thesis
      using read_packet_data [OF assms(1), of ?d b x ?lo rest] unfolding p by simp
  next
    case 5
    then have "x \<noteq> ?lo" using assms(3) by (simp add: p nth_append nth_Cons')
    then have "from_be_bytes ?hi x \<noteq> crc16_xmodem ?d"
      using be_bytes_inject [of ?hi x ?hi ?lo] by (metis be_bytes_round_trip)
    moreover have "([b, 255 - b] @ ?d @ [?hi, ?lo])[i := x] = [b, 255 - b] @ ?d @ [?hi, x]"
      using 5 by (simp add: list_update_append)
    ultimately show ?thesis
      using read_packet_data [OF assms(1), of ?d b ?hi x rest] unfolding p by simp
  qed
qed

section \<open>Trailing padding\<close>

definition strip_eof :: "u8 list \<Rightarrow> u8 list" where
  "strip_eof xs = rev (dropWhile (\<lambda>b. b = MODEM_EOF) (rev xs))"

lemma write_padding: "write_modem_padding n content = content @ replicate n MODEM_EOF"
proof (induction n content rule: write_modem_padding.induct)
  case (1 n content)
  show ?case
  proof (cases "n = 0")
    case False
    then have "write_modem_padding n content =
        content @ replicate (min n 1024) MODEM_EOF @ replicate (n - min n 1024) MODEM_EOF"
      using "1.IH" by (subst write_modem_padding.simps) (simp add: Let_def)
    then show ?thesis by (simp add: replicate_add [symmetric])
  qed (simp add: write_modem_padding.simps)
qed

lemma strip_eof_decomp: "xs = strip_eof xs @ replicate (length xs - length (strip_eof xs)) MODEM_EOF"
proof -
  let ?t = "takeWhile (\<lambda>b. b = MODEM_EOF) (rev xs)" and ?d = "dropWhile (\<lambda>b. b = MODEM_EOF) (rev xs)"
  have "\<forall>x \<in> set ?t. x = MODEM_EOF" using set_takeWhileD by fast
  then have t: "rev ?t = replicate (length ?t) MODEM_EOF"
    using replicate_length_same [of ?t MODEM_EOF] by (metis rev_replicate)
  have "rev xs = ?t @ ?d" by simp
  then have xs: "xs = rev ?d @ rev ?t" by (metis rev_append rev_rev_ident)
  then have "length xs - length ?d = length ?t" by (metis diff_add_inverse length_append length_rev)
  then show ?thesis unfolding strip_eof_def length_rev using xs t by simp
qed

lemma length_strip_eof: "length (strip_eof xs) \<le> length xs"
  by (simp add: strip_eof_def length_dropWhile_le [of _ "rev xs", simplified])

lemma strip_eof_padding [simp]: "strip_eof (xs @ replicate n MODEM_EOF) = strip_eof xs"
proof -
  have "dropWhile (\<lambda>b. b = MODEM_EOF) (replicate n MODEM_EOF @ ys) = dropWhile (\<lambda>b. b = MODEM_EOF) ys" for ys
    by (induction n) simp_all
  then show ?thesis by (simp add: strip_eof_def)
qed

lemma strip_eof_append:
  "strip_eof (xs @ ys) = (if strip_eof ys = [] then strip_eof xs else xs @ strip_eof ys)"
proof (cases "strip_eof ys = []")
  case True
  then have "ys = replicate (length ys) MODEM_EOF" using strip_eof_decomp [of ys] by simp
  then show ?thesis using True strip_eof_padding by metis
next
  case False
  then show ?thesis by (auto simp add: strip_eof_def dropWhile_append)
qed

lemma rposition_strip:
  "rposition (\<lambda>b. b \<noteq> MODEM_EOF) data = (if strip_eof data = [] then None else Some (length (strip_eof data) - 1))"
proof (cases "dropWhile (\<lambda>b. b = MODEM_EOF) (rev data)")
  case Nil
  then show ?thesis unfolding rposition_def strip_eof_def by (simp only: not_not list.case rev.simps) simp
next
  case (Cons y rest)
  then show ?thesis unfolding rposition_def strip_eof_def by (simp only: not_not) simp
qed

lemma take_strip_eof: "take (length (strip_eof data)) data = strip_eof data"
  by (metis append_eq_conv_conj strip_eof_decomp)

text \<open>The output after the data of some blocks: all but the padding at the end is written.\<close>

definition output_of :: "u8 list \<Rightarrow> modem_output" where
  "output_of d = \<lparr>mo_content = strip_eof d, mo_trailing_padding = length d - length (strip_eof d),
     mo_bytes_written = length (strip_eof d)\<rparr>"

lemma append_data_output:
  assumes "length d + length data < 2 ^ 64"
  shows "append_modem_data_without_trailing_padding data (output_of d) = (output_of (d @ data), Inr ())"
proof (cases "strip_eof data = []")
  case True
  have "length d - length (strip_eof d) + length data < 2 ^ 64" using assms by linarith
  then show ?thesis
    using True length_strip_eof [of d]
    by (simp add: append_modem_data_without_trailing_padding_def rposition_strip output_of_def
        strip_eof_append checked_add_u64_def)
next
  case False
  let ?n = "length (strip_eof data)"
  have n: "Suc (?n - Suc 0) = ?n" using False by (cases "strip_eof data") auto
  have le: "?n \<le> length data" "length (strip_eof d) \<le> length d" by (rule length_strip_eof)+
  have d: "strip_eof d @ replicate (length d - length (strip_eof d)) MODEM_EOF = d"
    using strip_eof_decomp [of d] by simp
  have zero: "strip_eof d = d" if "length d - length (strip_eof d) = 0" using d that by simp
  show ?thesis
    using False assms le n d zero take_strip_eof [of data]
    by (simp add: append_modem_data_without_trailing_padding_def rposition_strip output_of_def
        strip_eof_append checked_add_u64_def write_padding Let_def)
qed

section \<open>The receiver on a line without errors\<close>

definition no_faults :: "modem_env \<Rightarrow> bool" where
  "no_faults env \<longleftrightarrow>
     env_write env = (\<lambda>_. None) \<and> env_check env = (\<lambda>_. None) \<and> env_progress env = (\<lambda>_. None) \<and>
     env_file env = (\<lambda>_. None)"

lemma no_faults_io:
  assumes "no_faults env"
  shows "write_runtime_bytes env bytes io = (io\<lparr>io_tick := Suc (io_tick io), io_sent := io_sent io @ [bytes]\<rparr>, Inr ())"
    "check_modem_cancelled env io = (io\<lparr>io_tick := Suc (io_tick io)\<rparr>, Inr ())"
    "progress_update env io = (io\<lparr>io_tick := Suc (io_tick io)\<rparr>, Inr ())"
  using assms
  by (simp_all add: no_faults_def write_runtime_bytes_def check_modem_cancelled_def progress_update_def)

text \<open>The receiver after the data \<open>d\<close>.\<close>

definition receiving :: "reads \<Rightarrow> u8 list list \<Rightarrow> nat \<Rightarrow> u8 \<Rightarrow> u8 list \<Rightarrow> bool \<Rightarrow> xmodem_state" where
  "receiving reads sent tick expected d first =
     \<lparr>xm_io = \<lparr>io_reads = reads, io_sent = sent, io_tick = tick\<rparr>, xm_expected = expected,
      xm_output = output_of d, xm_bytes_received = length d, xm_first_packet = first\<rparr>"

definition request :: "bool \<Rightarrow> u8 list list" where
  "request first = (if first then [[MODEM_CRC_REQUEST]] else [])"

lemma request_next_marker:
  assumes "no_faults env" "m \<in> {MODEM_SOH, MODEM_STX, MODEM_EOT}"
  shows "xmodem_marker env (receiving reads sent tick expected d first)
      \<lparr>io_reads = deliver [m] @ rest, io_sent = sent, io_tick = tick'\<rparr> =
    (\<lparr>io_reads = rest, io_sent = sent @ request first, io_tick = tick' + length (request first)\<rparr>, Inr m)"
proof -
  have m: "modem_wait_for_next_marker (deliver [m] @ rest) = (rest, Inr m)" using assms(2) by auto
  let ?io = "\<lparr>io_reads = deliver [m] @ rest, io_sent = sent, io_tick = tick'\<rparr>"
  have "request_packet env 24 ?io =
      (\<lparr>io_reads = rest, io_sent = sent @ [[MODEM_CRC_REQUEST]], io_tick = Suc tick'\<rparr>, Inr m)"
    using request_packet.simps(2) [of env 23 ?io] m no_faults_io [OF assms(1)]
    by (simp del: deliver_simps request_packet.simps)
  then show ?thesis
    using m
    by (simp add: xmodem_marker_def receiving_def request_def modem_wait_for_packet_marker_def
        del: deliver_simps)
qed

text \<open>The packet of a payload in XModem.\<close>

definition xmodem_block :: "u8 \<Rightarrow> u8 list \<Rightarrow> u8 list" where
  "xmodem_block b payload = modem_packet_bytes MODEM_SOH b payload XMODEM_BLOCK_SIZE True"

lemma xmodem_block_marker: "xmodem_block b payload = MODEM_SOH # tl (xmodem_block b payload)"
  by (simp add: xmodem_block_def packet_bytes_padded)

lemma read_xmodem_block:
  "modem_read_packet MODEM_SOH (deliver (tl (xmodem_block b payload)) @ rest) =
     (rest, Inr \<lparr>mp_block_no = b, mp_data = padded 128 payload\<rparr>)"
  using read_own_packet [of MODEM_SOH b payload rest] by (simp add: xmodem_block_def block_size_of_def)

lemma round_packet:
  assumes "no_faults env"
  shows "xmodem_round env (receiving (deliver (xmodem_block b payload) @ rest) sent tick expected d first) =
    xmodem_packet env \<lparr>mp_block_no = b, mp_data = padded 128 payload\<rparr>
      \<lparr>io_reads = rest, io_sent = sent @ request first, io_tick = Suc tick + length (request first)\<rparr>
      (receiving (deliver (xmodem_block b payload) @ rest) sent tick expected d first)"
proof -
  let ?st = "receiving (deliver (xmodem_block b payload) @ rest) sent tick expected d first"
  have reads: "deliver (xmodem_block b payload) @ rest = deliver [MODEM_SOH] @ deliver (tl (xmodem_block b payload)) @ rest"
    by (subst xmodem_block_marker) simp
  have io: "check_modem_cancelled env (xm_io ?st) =
      (\<lparr>io_reads = deliver (xmodem_block b payload) @ rest, io_sent = sent, io_tick = Suc tick\<rparr>, Inr ())"
    using no_faults_io(2) [OF assms] by (simp add: receiving_def)
  have marker: "xmodem_marker env ?st \<lparr>io_reads = deliver (xmodem_block b payload) @ rest, io_sent = sent, io_tick = Suc tick\<rparr> =
      (\<lparr>io_reads = deliver (tl (xmodem_block b payload)) @ rest, io_sent = sent @ request first,
        io_tick = Suc tick + length (request first)\<rparr>, Inr MODEM_SOH)"
    using request_next_marker [OF assms, of MODEM_SOH "deliver (xmodem_block b payload) @ rest" sent tick expected d first
        "deliver (tl (xmodem_block b payload)) @ rest" "Suc tick"]
    by (simp only: reads) simp
  show ?thesis
    by (simp add: xmodem_round_def io marker read_xmodem_block)
qed

lemma round_new_block:
  assumes "no_faults env" "length d + 128 < 2 ^ 64"
  shows "xmodem_round env (receiving (deliver (xmodem_block b payload) @ rest) sent tick b d first) =
    Again (receiving rest (sent @ request first @ [[MODEM_ACK]]) (tick + length (request first) + 4) (b + 1)
      (d @ padded 128 payload) False)"
proof -
  have nofile: "env_file env = (\<lambda>_. None)" using assms(1) by (simp add: no_faults_def)
  show ?thesis
    unfolding round_packet [OF assms(1)] xmodem_packet_def
    using assms(2) append_data_output [of d "padded 128 payload"] no_faults_io [OF assms(1)] nofile
    by (simp add: receiving_def append_received_def checked_add_u64_def)
qed

lemma round_repeated_block:
  assumes "no_faults env" "b \<noteq> 0"
  shows "xmodem_round env (receiving (deliver (xmodem_block b payload) @ rest) sent tick (b + 1) d False) =
    Again (receiving rest (sent @ [[MODEM_ACK]]) (tick + 2) (b + 1) d False)"
  unfolding round_packet [OF assms(1)] xmodem_packet_def
  using assms no_faults_io [OF assms(1)] by (simp add: receiving_def request_def)

lemma round_out_of_order:
  assumes "no_faults env" "b \<noteq> expected" "expected = 1 \<or> b \<noteq> expected - 1"
  shows "\<exists>io. xmodem_round env (receiving (deliver (xmodem_block b payload) @ rest) sent tick expected d first) =
    Stop (io, Inl (OutOfOrder b expected))"
  unfolding round_packet [OF assms(1)] xmodem_packet_def
  using assms(2,3) no_faults_io [OF assms(1)] by (auto simp add: receiving_def)

lemma round_end:
  assumes "no_faults env"
  shows "xmodem_round env (receiving (deliver [MODEM_EOT]) sent tick expected d first) =
    Stop (\<lparr>io_reads = [], io_sent = sent @ request first @ [[MODEM_ACK]], io_tick = tick + length (request first) + 2\<rparr>,
          Inr (output_of d))"
proof -
  have "xmodem_marker env (receiving (deliver [MODEM_EOT]) sent tick expected d first)
      \<lparr>io_reads = deliver [MODEM_EOT], io_sent = sent, io_tick = Suc tick\<rparr> =
    (\<lparr>io_reads = [], io_sent = sent @ request first, io_tick = Suc tick + length (request first)\<rparr>, Inr MODEM_EOT)"
    using request_next_marker [OF assms, of MODEM_EOT _ _ _ _ _ _ "[]"] by simp
  then show ?thesis
    using no_faults_io [OF assms] by (simp add: xmodem_round_def receiving_def del: deliver_simps)
qed

text \<open>
  The bytes of numbered blocks, each with the number of times it is sent again, and what the
  receiver accepts of repetitions: not those of a block numbered 0.
\<close>

fun block_stream :: "u8 \<Rightarrow> (u8 list \<times> nat) list \<Rightarrow> u8 list" where
  "block_stream b [] = []"
| "block_stream b ((payload, again) # blocks) =
     concat (replicate (Suc again) (xmodem_block b payload)) @ block_stream (b + 1) blocks"

fun repeats_ok :: "u8 \<Rightarrow> (u8 list \<times> nat) list \<Rightarrow> bool" where
  "repeats_ok b [] = True"
| "repeats_ok b ((payload, again) # blocks) \<longleftrightarrow> (b = 0 \<longrightarrow> again = 0) \<and> repeats_ok (b + 1) blocks"

definition block_data :: "(u8 list \<times> nat) list \<Rightarrow> u8 list" where
  "block_data blocks = concat (map (\<lambda>(payload, again). padded 128 payload) blocks)"

definition packet_count :: "(u8 list \<times> nat) list \<Rightarrow> nat" where
  "packet_count blocks = sum_list (map (\<lambda>(payload, again). Suc again) blocks)"

lemma length_block_data: "length (block_data blocks) = 128 * length blocks"
  by (induction blocks) (auto simp add: block_data_def)

lemma loop_repeats:
  assumes "no_faults env" "b \<noteq> 0"
  shows "\<exists>tick'. xmodem_receive_loop env
      (receiving (deliver (concat (replicate k (xmodem_block b payload))) @ rest) sent tick (b + 1) d False) =
    xmodem_receive_loop env (receiving rest (sent @ replicate k [MODEM_ACK]) tick' (b + 1) d False)"
proof (induction k arbitrary: sent tick)
  case (Suc k)
  let ?rest = "deliver (concat (replicate k (xmodem_block b payload))) @ rest"
  have "xmodem_receive_loop env (receiving (deliver (xmodem_block b payload) @ ?rest) sent tick (b + 1) d False) =
      xmodem_receive_loop env (receiving ?rest (sent @ [[MODEM_ACK]]) (tick + 2) (b + 1) d False)"
    by (subst xmodem_receive_loop.simps) (simp add: round_repeated_block [OF assms])
  then show ?case using Suc.IH [of "sent @ [[MODEM_ACK]]" "tick + 2"] by simp
qed auto

lemma loop_blocks:
  assumes "no_faults env" "repeats_ok b blocks" "length d + length (block_data blocks) < 2 ^ 64"
  shows "\<exists>tick'. xmodem_receive_loop env (receiving (deliver (block_stream b blocks) @ rest) sent tick b d first) =
    xmodem_receive_loop env
      (receiving rest (sent @ request (first \<and> blocks \<noteq> []) @ replicate (packet_count blocks) [MODEM_ACK]) tick'
        (b + of_nat (length blocks)) (d @ block_data blocks) (first \<and> blocks = []))"
  using assms(2,3)
proof (induction blocks arbitrary: b sent tick d first)
  case Nil
  then show ?case by (auto simp add: block_data_def packet_count_def request_def)
next
  case (Cons x blocks)
  obtain payload k where x: "x = (payload, k)" by (cases x)
  let ?more = "deliver (concat (replicate k (xmodem_block b payload))) @ deliver (block_stream (b + 1) blocks) @ rest"
  let ?d = "d @ padded 128 payload" and ?sent = "sent @ request first @ [[MODEM_ACK]]"
  have len: "length d + 128 < 2 ^ 64" "length ?d + length (block_data blocks) < 2 ^ 64"
    using Cons.prems(2) by (simp_all add: x block_data_def)
  have ok: "repeats_ok (b + 1) blocks" using Cons.prems(1) by (simp add: x)
  have "xmodem_receive_loop env (receiving (deliver (xmodem_block b payload) @ ?more) sent tick b d first) =
      xmodem_receive_loop env (receiving ?more ?sent (tick + length (request first) + 4) (b + 1) ?d False)"
    by (subst xmodem_receive_loop.simps) (simp add: round_new_block [OF assms(1) len(1)])
  moreover obtain t1 where
    "xmodem_receive_loop env (receiving ?more ?sent (tick + length (request first) + 4) (b + 1) ?d False) =
      xmodem_receive_loop env (receiving (deliver (block_stream (b + 1) blocks) @ rest)
        (?sent @ replicate k [MODEM_ACK]) t1 (b + 1) ?d False)"
  proof (cases "k = 0")
    case False
    then have "b \<noteq> 0" using Cons.prems(1) by (auto simp add: x)
    then show thesis using loop_repeats [OF assms(1)] that by blast
  qed (use that in simp)
  moreover obtain t2 where
    "xmodem_receive_loop env (receiving (deliver (block_stream (b + 1) blocks) @ rest)
        (?sent @ replicate k [MODEM_ACK]) t1 (b + 1) ?d False) =
      xmodem_receive_loop env (receiving rest
        ((?sent @ replicate k [MODEM_ACK]) @ request (False \<and> blocks \<noteq> []) @ replicate (packet_count blocks) [MODEM_ACK])
        t2 (b + 1 + of_nat (length blocks)) (?d @ block_data blocks) (False \<and> blocks = []))"
    using Cons.IH [OF ok len(2)] by blast
  moreover have "[MODEM_ACK] # replicate k [MODEM_ACK] @ replicate (packet_count blocks) [MODEM_ACK] =
      replicate (packet_count (x # blocks)) [MODEM_ACK]"
    by (simp add: x packet_count_def replicate_add)
  ultimately show ?case
    by (intro exI [of _ t2]) (simp add: x block_data_def request_def ac_simps)
qed

lemma receive_file_blocks:
  assumes "no_faults env" "repeats_ok 1 blocks" "length (block_data blocks) < 2 ^ 64"
  shows "xmodem_receive_file env None None (deliver (block_stream 1 blocks @ [MODEM_EOT])) =
    ([MODEM_CRC_REQUEST] # replicate (Suc (packet_count blocks)) [MODEM_ACK],
     Inr (length (strip_eof (block_data blocks))), Some (strip_eof (block_data blocks)))"
proof -
  have start: "\<lparr>xm_io = \<lparr>io_reads = reads, io_sent = [], io_tick = 0\<rparr>, xm_expected = 1,
      xm_output = \<lparr>mo_content = [], mo_trailing_padding = 0, mo_bytes_written = 0\<rparr>,
      xm_bytes_received = 0, xm_first_packet = True\<rparr> = receiving reads [] 0 1 [] True" for reads
    by (simp add: receiving_def output_of_def strip_eof_def)
  obtain tick where
    "xmodem_receive_loop env (receiving (deliver (block_stream 1 blocks) @ deliver [MODEM_EOT]) [] 0 1 [] True) =
      xmodem_receive_loop env (receiving (deliver [MODEM_EOT])
        (request (blocks \<noteq> []) @ replicate (packet_count blocks) [MODEM_ACK]) tick
        (1 + of_nat (length blocks)) (block_data blocks) (blocks = []))"
    using loop_blocks [OF assms(1,2), of "[]" "deliver [MODEM_EOT]" "[]" 0 True] assms(3) by auto
  then have "xmodem_receive_loop env (receiving (deliver (block_stream 1 blocks @ [MODEM_EOT])) [] 0 1 [] True) =
      (\<lparr>io_reads = [], io_sent = (request (blocks \<noteq> []) @ replicate (packet_count blocks) [MODEM_ACK]) @
          request (blocks = []) @ [[MODEM_ACK]], io_tick = tick + length (request (blocks = [])) + 2\<rparr>,
       Inr (output_of (block_data blocks)))"
    by (subst (asm) (2) xmodem_receive_loop.simps) (simp add: round_end [OF assms(1)] del: deliver_simps(2))
  then show ?thesis
    unfolding xmodem_receive_file_def start
    by (cases "blocks = []") (simp_all add: request_def output_of_def packet_count_def replicate_append_same)
qed

section \<open>The sender\<close>

text \<open>Whatever comes back, at most the allowed number of copies goes out.\<close>

lemma send_until_ack_sent:
  "send_until_ack env bytes timeout e tries io = (io', r) \<Longrightarrow>
   \<exists>k \<le> tries. io_sent io' = io_sent io @ replicate k bytes"
proof (induction tries arbitrary: io)
  case (Suc tries)
  obtain io1 r1 where 1: "write_runtime_bytes env bytes io = (io1, r1)"
    by (cases "write_runtime_bytes env bytes io")
  have sent: "io_sent io1 = (if r1 = Inr () then io_sent io @ [bytes] else io_sent io)"
    using 1 by (auto simp add: write_runtime_bytes_def Let_def split: option.splits)
  obtain reads2 r2 where 2: "modem_wait_for_ack timeout (io_reads io1) = (reads2, r2)"
    by (cases "modem_wait_for_ack timeout (io_reads io1)")
  have next_try: "io_sent io' = io_sent io1 \<or>
      r1 = Inr () \<and> send_until_ack env bytes timeout e tries (io1\<lparr>io_reads := reads2\<rparr>) = (io', r)"
  proof (cases r1)
    case (Inl f)
    then show ?thesis using Suc.prems by (simp add: 1)
  next
    case (Inr u)
    then show ?thesis
      using Suc.prems by (cases r2) (auto simp add: 1 2 split: if_splits ModemAck.splits)
  qed
  show ?case
  proof (cases "io_sent io' = io_sent io1")
    case True
    then have "io_sent io' = io_sent io @ replicate (if r1 = Inr () then 1 else 0) bytes" using sent by simp
    then show ?thesis by (metis One_nat_def Suc_le_mono le0)
  next
    case False
    then obtain k where "k \<le> tries" "io_sent io' = io_sent io1 @ replicate k bytes"
      using next_try Suc.IH [of "io1\<lparr>io_reads := reads2\<rparr>"] by auto
    then have "Suc k \<le> Suc tries" "io_sent io' = io_sent io @ replicate (Suc k) bytes"
      using sent next_try False by auto
    then show ?thesis by blast
  qed
qed simp

lemma wait_for_ack_byte:
  "0 < timeout \<Longrightarrow> modem_wait_for_ack timeout (deliver [MODEM_ACK] @ rest) = (rest, Inr Ack)"
  "0 < timeout \<Longrightarrow> modem_wait_for_ack timeout (deliver [MODEM_NAK] @ rest) = (rest, Inr Nak)"
  by (simp_all add: modem_wait_for_ack_def)

text \<open>Refused a few times and then accepted.\<close>

lemma send_until_ack_accepted:
  assumes "no_faults env" "k < tries" "0 < timeout"
    and "io_reads io = deliver (replicate k MODEM_NAK) @ deliver [MODEM_ACK] @ rest"
  shows "send_until_ack env bytes timeout e tries io =
    (\<lparr>io_reads = rest, io_sent = io_sent io @ replicate (Suc k) bytes, io_tick = io_tick io + Suc k\<rparr>, Inr ())"
  using assms(2,4)
proof (induction k arbitrary: io tries)
  case 0
  then obtain n where "tries = Suc n" by (cases tries) auto
  then show ?case
    using 0 no_faults_io(1) [OF assms(1)] wait_for_ack_byte [OF assms(3)] by simp
next
  case (Suc k)
  then obtain n where n: "tries = Suc n" "k < n" by (cases tries) auto
  let ?reads = "deliver (replicate k MODEM_NAK) @ deliver [MODEM_ACK] @ rest"
  let ?io = "io\<lparr>io_tick := Suc (io_tick io), io_sent := io_sent io @ [bytes], io_reads := ?reads\<rparr>"
  have "modem_wait_for_ack timeout (io_reads io) = (?reads, Inr Nak)"
    using Suc.prems(2) wait_for_ack_byte(2) [OF assms(3), of ?reads] by simp
  then have "send_until_ack env bytes timeout e tries io = send_until_ack env bytes timeout e n ?io"
    using no_faults_io(1) [OF assms(1)] by (simp add: n(1))
  then show ?case using Suc.IH [OF n(2), of ?io] by simp
qed

fun blocks_of :: "u8 list \<Rightarrow> u8 list list" where
  "blocks_of [] = []"
| "blocks_of (x # xs) = take 128 (x # xs) # blocks_of (drop 128 (x # xs))"

fun numbered :: "u8 \<Rightarrow> u8 list list \<Rightarrow> u8 list list" where
  "numbered b [] = []"
| "numbered b (payload # payloads) = xmodem_block b payload # numbered (b + 1) payloads"

lemma block_stream_numbered: "block_stream b (map (\<lambda>p. (p, 0)) ps) = concat (numbered b ps)"
  by (induction ps arbitrary: b) auto

lemma repeats_ok_single: "repeats_ok b (map (\<lambda>p. (p, 0)) ps)"
  by (induction ps arbitrary: b) auto

lemma packet_count_single: "packet_count (map (\<lambda>p. (p, 0)) ps) = length ps"
  by (induction ps) (auto simp add: packet_count_def)

lemma concat_acks: "concat (replicate k [MODEM_ACK]) = replicate k MODEM_ACK"
  by (induction k) simp_all

lemma blocks_of_padded:
  "\<exists>n < 128. block_data (map (\<lambda>p. (p, 0)) (blocks_of f)) = f @ replicate n MODEM_EOF"
proof (induction f rule: blocks_of.induct)
  case (2 x xs)
  let ?f = "x # xs"
  obtain n where n: "n < 128" "block_data (map (\<lambda>p. (p, 0)) (blocks_of (drop 128 ?f))) = drop 128 ?f @ replicate n MODEM_EOF"
    using 2 by auto
  have cons: "block_data (map (\<lambda>p. (p, 0)) (blocks_of ?f)) = padded 128 (take 128 ?f) @ drop 128 ?f @ replicate n MODEM_EOF"
    using n(2) by (simp add: block_data_def)
  show ?case
  proof (cases "128 \<le> length ?f")
    case True
    then have "padded 128 (take 128 ?f) = take 128 ?f" by (simp add: padded_def)
    then show ?thesis using cons n(1) by (metis append.assoc append_take_drop_id)
  next
    case False
    then have "drop 128 ?f = []" by simp
    then have "block_data (map (\<lambda>p. (p, 0)) (blocks_of (drop 128 ?f))) = []" by (simp add: block_data_def)
    then have "n = 0" using n(2) \<open>drop 128 ?f = []\<close> by simp
    moreover have "padded 128 (take 128 ?f) = ?f @ replicate (128 - length ?f) MODEM_EOF"
      using False by (simp add: padded_def)
    moreover have "128 - length ?f < 128" by simp
    ultimately show ?thesis using cons \<open>drop 128 ?f = []\<close> by (metis append_Nil2 replicate_0)
  qed
qed (auto simp add: block_data_def)

lemma strip_blocks: "strip_eof (block_data (map (\<lambda>p. (p, 0)) (blocks_of f))) = strip_eof f"
  using blocks_of_padded [of f] by auto

lemma length_blocks: "length (block_data (map (\<lambda>p. (p, 0)) (blocks_of f))) < length f + 128"
  using blocks_of_padded [of f] by auto

lemma send_loop_blocks:
  assumes "no_faults env" "\<forall>t. 128 \<le> env_file_read env t"
    and "io_reads io = deliver (replicate (length (blocks_of f)) MODEM_ACK) @ rest"
  shows "\<exists>tick. xmodem_send_loop env True (n + length f) b n f io =
    (\<lparr>io_reads = rest, io_sent = io_sent io @ numbered b (blocks_of f), io_tick = tick\<rparr>, Inr (n + length f))"
  using assms(3)
proof (induction f arbitrary: n b io rule: blocks_of.induct)
  case 1
  then show ?case by (intro exI [of _ "io_tick io"]) (subst xmodem_send_loop.simps, simp)
next
  case (2 x xs)
  let ?f = "x # xs"
  let ?c = "take 128 ?f"
  let ?reads = "deliver (replicate (length (blocks_of (drop 128 ?f))) MODEM_ACK) @ rest"
  let ?t = "io_tick io"
  let ?io = "\<lparr>io_reads = ?reads, io_sent = io_sent io @ [xmodem_block b ?c], io_tick = 4 + ?t\<rparr>"
  have reads: "io_reads io = deliver (replicate 0 MODEM_NAK) @ deliver [MODEM_ACK] @ ?reads" using 2(2) by simp
  have len: "length ?c = min 128 (length ?f)" by simp
  have file_chunk: "file_read env (min (length ?f) 128) ?f io1 = (io1\<lparr>io_tick := Suc (io_tick io1)\<rparr>, Inr ?c)" for io1
  proof -
    have "128 \<le> env_file_read env (io_tick io1)" using assms(2) by blast
    then have "take (min (min (length ?f) 128) (max 1 (env_file_read env (io_tick io1)))) ?f = ?c"
      by (cases "length ?f \<le> 128") (simp_all add: min_def max_def)
    then show ?thesis using assms(1) by (simp add: file_read_def no_faults_def)
  qed
  have send: "modem_send_packet_with_retries env MODEM_SOH b ?c True (io\<lparr>io_tick := Suc (Suc ?t)\<rparr>) =
      (\<lparr>io_reads = ?reads, io_sent = io_sent io @ [xmodem_block b ?c], io_tick = ?t + 3\<rparr>, Inr ())"
    using send_until_ack_accepted [OF assms(1), of 0 10 MODEM_ACK_TIMEOUT "io\<lparr>io_tick := Suc (Suc ?t)\<rparr>" ?reads
        "xmodem_block b ?c" "NotAcknowledged b"] reads
    by (simp add: modem_send_packet_with_retries_def modem_send_packet_bytes_with_retries_def xmodem_block_def)
  have "drop (length ?c) ?f = drop 128 ?f" by (simp add: min_def)
  then have step: "xmodem_send_loop env True (n + length ?f) b n ?f io =
      xmodem_send_loop env True (n + length ?f) (b + 1) (n + length ?c) (drop 128 ?f) ?io"
    using no_faults_io [OF assms(1)] file_chunk send
    by (subst xmodem_send_loop.simps) (simp add: len min.commute)
  have tot: "n + length ?f = n + length ?c + length (drop 128 ?f)" by simp
  have "io_reads ?io = ?reads" by simp
  from "2.IH" [OF this, of "n + length ?c" "b + 1"] obtain tick where
    "xmodem_send_loop env True (n + length ?f) (b + 1) (n + length ?c) (drop 128 ?f) ?io =
      (\<lparr>io_reads = rest, io_sent = io_sent ?io @ numbered (b + 1) (blocks_of (drop 128 ?f)), io_tick = tick\<rparr>,
       Inr (n + length ?f))"
    unfolding tot [symmetric] by blast
  then show ?case unfolding step by (intro exI [of _ tick]) simp
qed

lemma send_file_blocks:
  assumes "no_faults env" "\<forall>t. 128 \<le> env_file_read env t"
  shows "\<exists>tick. xmodem_send_file env f (length f) True False
      (deliver (MODEM_CRC_REQUEST # replicate (length (blocks_of f)) MODEM_ACK @ [MODEM_ACK])) =
    (\<lparr>io_reads = [], io_sent = numbered 1 (blocks_of f) @ [[MODEM_EOT]], io_tick = tick\<rparr>, Inr (length f))"
proof -
  let ?acks = "deliver (replicate (length (blocks_of f)) MODEM_ACK)"
  let ?io = "\<lparr>io_reads = ?acks @ deliver [MODEM_ACK], io_sent = [], io_tick = 0\<rparr>"
  have receiver: "modem_wait_for_receiver (deliver (MODEM_CRC_REQUEST # replicate (length (blocks_of f)) MODEM_ACK @ [MODEM_ACK])) =
      (?acks @ deliver [MODEM_ACK], Inr True)"
    by (simp add: modem_wait_for_receiver_def)
  obtain tick where blocks: "xmodem_send_loop env True (0 + length f) 1 0 f ?io =
      (\<lparr>io_reads = deliver [MODEM_ACK], io_sent = io_sent ?io @ numbered 1 (blocks_of f), io_tick = tick\<rparr>, Inr (0 + length f))"
    using send_loop_blocks [OF assms, of ?io f "deliver [MODEM_ACK]" 0 1] by auto
  have "modem_finish_eot env \<lparr>io_reads = deliver [MODEM_ACK], io_sent = numbered 1 (blocks_of f), io_tick = tick\<rparr> =
      (\<lparr>io_reads = [], io_sent = numbered 1 (blocks_of f) @ [[MODEM_EOT]], io_tick = tick + 1\<rparr>, Inr ())"
    using send_until_ack_accepted [OF assms(1), of 0 10 MODEM_ACK_TIMEOUT
        "\<lparr>io_reads = deliver [MODEM_ACK], io_sent = numbered 1 (blocks_of f), io_tick = tick\<rparr>" "[]" "[MODEM_EOT]" EotNotAcknowledged]
    by (simp add: modem_finish_eot_def modem_finish_eot_with_timeout_def)
  then show ?thesis
    using blocks receiver by (simp add: xmodem_send_file_def del: deliver_simps)
qed

section \<open>Properties\<close>


text \<open>
  The receiver takes blocks in order, acknowledges each and drops repetitions of the block
  before, as after a lost acknowledgement: the file is that of the blocks sent once. The proviso
  is that no block numbered 0 is repeated.
\<close>

theorem xmodem_receive_drops_repeats:
  assumes "no_faults env" "repeats_ok 1 blocks" "length (block_data blocks) < 2 ^ 64"
  shows "xmodem_receive_file env None None (deliver (block_stream 1 blocks @ [MODEM_EOT])) =
    ([MODEM_CRC_REQUEST] # replicate (Suc (packet_count blocks)) [MODEM_ACK],
     Inr (length (strip_eof (block_data blocks))), Some (strip_eof (block_data blocks)))"
  using assms by (rule receive_file_blocks)

text \<open>
  Without the proviso a transfer is lost: when the 256th block, numbered 0 because block
  numbers wrap around, is repeated after its acknowledgement was lost, the receiver takes the
  repetition for a block out of order and gives up, although it would accept the repetition of
  any other block.
\<close>

theorem xmodem_repeat_of_block_256_fails:
  assumes "no_faults env" "length payloads = 255"
  shows "\<exists>sent. xmodem_receive_file env None None
      (deliver (block_stream 1 (map (\<lambda>p. (p, 0)) payloads @ [(q, 1)]) @ rest)) =
    (sent, Inl (OutOfOrder 0 1), None)"
proof -
  let ?blocks = "map (\<lambda>p. (p, 0 :: nat)) (payloads @ [q])"
  let ?tail = "deliver (xmodem_block 0 q) @ deliver rest"
  have app: "block_stream b (xs @ ys) = block_stream b xs @ block_stream (b + of_nat (length xs)) ys" for b xs ys
    by (induction xs arbitrary: b) (auto simp add: ac_simps)
  have zero: "1 + of_nat (length payloads) = (0 :: u8)" using assms(2) by simp
  have stream: "block_stream 1 (map (\<lambda>p. (p, 0)) payloads @ [(q, 1)]) = block_stream 1 ?blocks @ xmodem_block 0 q"
    by (simp add: app zero)
  have small: "length ([] :: u8 list) + length (block_data ?blocks) < 2 ^ 64"
    using assms(2) by (simp add: length_block_data del: map_append)
  obtain tick where
    "xmodem_receive_loop env (receiving (deliver (block_stream 1 ?blocks) @ ?tail) [] 0 1 [] True) =
      xmodem_receive_loop env (receiving ?tail ([] @ request (True \<and> ?blocks \<noteq> []) @ replicate (packet_count ?blocks) [MODEM_ACK])
        tick (1 + of_nat (length ?blocks)) ([] @ block_data ?blocks) (True \<and> ?blocks = []))"
    using loop_blocks [OF assms(1) repeats_ok_single [of 1 "payloads @ [q]"] small,
        where rest = ?tail and sent = "[]" and tick = 0 and first = True] by blast
  moreover have wrap: "(257 :: u8) = 1" by simp
  moreover have "\<exists>io. xmodem_receive_loop env (receiving ?tail sent tick 1 d False) = (io, Inl (OutOfOrder 0 1))" for sent tick d
  proof -
    obtain io where "xmodem_round env (receiving ?tail sent tick 1 d False) = Stop (io, Inl (OutOfOrder 0 1))"
      using round_out_of_order [OF assms(1), of 0 1 q "deliver rest" sent tick d False] by auto
    then show ?thesis by (subst xmodem_receive_loop.simps) simp
  qed
  ultimately have "\<exists>io. xmodem_receive_loop env (receiving (deliver (block_stream 1 ?blocks) @ ?tail) [] 0 1 [] True) =
      (io, Inl (OutOfOrder 0 1))"
    using assms(2) wrap by (simp del: map_append)
  then show ?thesis
    unfolding stream xmodem_receive_file_def receiving_def output_of_def
    by (auto simp add: strip_eof_def)
qed

text \<open>
  C31. One wrong byte anywhere after the marker of a packet, in the block number, its complement,
  the data or the checksum, is always noticed: the packet is rejected.
\<close>

theorem modem_single_byte_error_rejected:
  assumes "m = MODEM_SOH \<or> m = MODEM_STX"
    and "i < length (tl (modem_packet_bytes m b payload (block_size_of m) True))"
    and "x \<noteq> tl (modem_packet_bytes m b payload (block_size_of m) True) ! i"
  shows "\<exists>e. snd (modem_read_packet m
    (deliver ((tl (modem_packet_bytes m b payload (block_size_of m) True))[i := x]) @ rest)) = Inl e"
  using assms by (rule corrupted_packet_rejected)

text \<open>
  Sending a packet never puts more than ten copies on the line, whatever the session and the
  peer do, and it succeeds when the peer refuses fewer than ten times before it accepts.
\<close>

theorem modem_send_retries:
  "(\<exists>k \<le> 10. io_sent (fst (modem_send_packet_with_retries env marker b payload crc io)) =
      io_sent io @ replicate k (modem_packet_bytes marker b payload
        (if marker = MODEM_STX then 1024 else 128) crc)) \<and>
   (no_faults env \<and> n < 10 \<and> io_reads io = deliver (replicate n MODEM_NAK) @ deliver [MODEM_ACK] @ rest \<longrightarrow>
      snd (modem_send_packet_with_retries env marker b payload crc io) = Inr () \<and>
      io_reads (fst (modem_send_packet_with_retries env marker b payload crc io)) = rest)"
proof (intro conjI impI)
  let ?p = "modem_packet_bytes marker b payload (if marker = MODEM_STX then 1024 else 128) crc"
  have unfold: "modem_send_packet_with_retries env marker b payload crc io =
      send_until_ack env ?p MODEM_ACK_TIMEOUT (NotAcknowledged b) 10 io"
    by (simp add: modem_send_packet_with_retries_def modem_send_packet_bytes_with_retries_def Let_def)
  show "\<exists>k \<le> 10. io_sent (fst (modem_send_packet_with_retries env marker b payload crc io)) = io_sent io @ replicate k ?p"
    unfolding unfold using send_until_ack_sent [of env ?p MODEM_ACK_TIMEOUT "NotAcknowledged b" 10 io]
    by (metis prod.collapse)
  assume a: "no_faults env \<and> n < 10 \<and> io_reads io = deliver (replicate n MODEM_NAK) @ deliver [MODEM_ACK] @ rest"
  show "snd (modem_send_packet_with_retries env marker b payload crc io) = Inr ()"
    and "io_reads (fst (modem_send_packet_with_retries env marker b payload crc io)) = rest"
    unfolding unfold using send_until_ack_accepted [of env n 10 MODEM_ACK_TIMEOUT io rest ?p] a by simp_all
qed

section \<open>Examples\<close>

definition example_env :: modem_env where
  "example_env = \<lparr>env_write = \<lambda>_. None, env_check = \<lambda>_. None, env_progress = \<lambda>_. None, env_file = \<lambda>_. None,
     env_file_read = \<lambda>_. 4096\<rparr>"

lemma example_env_no_faults: "no_faults example_env"
  by (simp add: no_faults_def example_env_def)


theorem xmodem_receive_drops_repeats_witness:
  "repeats_ok 1 [([7], 1)] \<and>
   xmodem_receive_file example_env None None (deliver (block_stream 1 [([7], 1)] @ [MODEM_EOT])) =
     ([[MODEM_CRC_REQUEST], [MODEM_ACK], [MODEM_ACK], [MODEM_ACK]], Inr 1, Some [7])"
proof -
  have "strip_eof (block_data [([7], 1)]) = strip_eof ([7] @ replicate 127 MODEM_EOF)"
    by (simp add: block_data_def padded_def)
  then have strip: "strip_eof (block_data [([7], 1)]) = [7]"
    by (simp only: strip_eof_padding) (simp add: strip_eof_def)
  show ?thesis
    using xmodem_receive_drops_repeats [OF example_env_no_faults, of "[([7], 1)]"]
    unfolding strip by (simp add: packet_count_def block_data_def)
qed

theorem xmodem_repeat_of_block_256_fails_witness:
  "\<exists>sent. xmodem_receive_file example_env None None
      (deliver (block_stream 1 (map (\<lambda>p. (p, 0)) (replicate 255 [7]) @ [([8], 1)]) @ [MODEM_EOT])) =
    (sent, Inl (OutOfOrder 0 1), None)"
  by (rule xmodem_repeat_of_block_256_fails [OF example_env_no_faults]) simp

theorem modem_single_byte_error_rejected_witness:
  "\<exists>e. snd (modem_read_packet MODEM_SOH
     (deliver ((tl (modem_packet_bytes MODEM_SOH 1 [7] (block_size_of MODEM_SOH) True))[0 := 2]) @ [])) = Inl e"
  by (rule modem_single_byte_error_rejected) (simp_all add: packet_bytes_padded)

theorem modem_send_retries_witness:
  "snd (modem_send_packet_with_retries example_env MODEM_SOH 1 [7] True
     \<lparr>io_reads = deliver (replicate 3 MODEM_NAK) @ deliver [MODEM_ACK] @ [], io_sent = [], io_tick = 0\<rparr>) = Inr ()"
  using modem_send_retries [of example_env MODEM_SOH 1 "[7]" True
      "\<lparr>io_reads = deliver (replicate 3 MODEM_NAK) @ deliver [MODEM_ACK] @ [], io_sent = [], io_tick = 0\<rparr>" 3 "[]"]
    example_env_no_faults
  by simp

end
