(* ===== verification/Ymodem.thy ===== *)
theory Ymodem
  imports Modem
begin

text \<open>
  YModem transfers (\<open>modem_ymodem.rs\<close>) with the file names they use (\<open>portable_file_name\<close> of
  \<open>file_operation_paths.rs\<close>, the helpers at the end of \<open>modem_protocol.rs\<close>): the metadata block,
  sending a file in blocks of 1024 bytes and receiving one with the size it was announced with.
  The session and the local files are the environment of \<open>Modem\<close>. A path below a directory is the
  directory with the name; whether a path is a directory is an argument.
\<close>

section \<open>File names\<close>

definition is_separator :: "uchar \<Rightarrow> bool" where
  "is_separator c \<longleftrightarrow> c = 47 \<or> c = 92"

definition trim_end_separators :: "ustr \<Rightarrow> ustr" where
  "trim_end_separators s = rev (dropWhile is_separator (rev s))"

definition portable_file_name :: "ustr \<Rightarrow> ustr option" where
  "portable_file_name path =
     (let trimmed = trim_end_separators path
      in if trimmed = [] then None
         else
           let without_drive =
                 (case trimmed of
                    c # d # rest \<Rightarrow>
                      if (is_ascii_upper c \<or> is_ascii_lower c) \<and> d = 58 then rest else trimmed
                  | _ \<Rightarrow> trimmed);
               name = last (split_by is_separator without_drive)
           in if name = [] \<or> name = str ''.'' \<or> name = str ''..'' \<or>
                 list_ex (\<lambda>c. is_control c \<or> c = 0) name
              then None else Some name)"

definition unwrap_or_default :: "ustr option \<Rightarrow> ustr" where
  "unwrap_or_default x = (case x of None \<Rightarrow> [] | Some s \<Rightarrow> s)"

definition local_file_name :: "ustr \<Rightarrow> ustr" where
  "local_file_name path =
     (case portable_file_name path of None \<Rightarrow> str ''portmate-transfer.bin'' | Some name \<Rightarrow> name)"

definition remote_parent_and_file_name :: "ustr \<Rightarrow> ustr \<times> ustr" where
  "remote_parent_and_file_name path =
     (let normalized = trim_end_separators path
      in if \<not> list_ex is_separator normalized then
           ([], unwrap_or_default (portable_file_name normalized))
         else
           let name = last (split_by is_separator normalized);
               parent = take (length normalized - Suc (length name)) normalized
           in (if parent = [] then [47] else parent, unwrap_or_default (portable_file_name name)))"

section \<open>Metadata\<close>

definition ymodem_metadata_block :: "ustr \<Rightarrow> nat \<Rightarrow> ModemError + u8 list" where
  "ymodem_metadata_block name total_size =
     (if 0 \<in> set name then Inl NameWithNul
      else
        let metadata_text = name @ [0] @ nat_str total_size @ [32]
        in if XMODEM_BLOCK_SIZE < byte_len metadata_text then Inl MetadataTooLong
           else Inr (as_bytes metadata_text @ replicate (XMODEM_BLOCK_SIZE - byte_len metadata_text) 0))"

definition parse_ymodem_metadata :: "u8 list \<Rightarrow> ustr \<times> nat option" where
  "parse_ymodem_metadata data =
     (let name = takeWhile (\<lambda>b. b \<noteq> 0) data;
          rest = drop (Suc (length name)) data
      in (from_utf8_lossy name,
          case split_whitespace (from_utf8_lossy rest) of
            [] \<Rightarrow> None
          | v # _ \<Rightarrow> parse_unsigned (2 ^ 64 - 1) v))"

definition ymodem_local_target_path ::
  "(ustr \<Rightarrow> bool) \<Rightarrow> ustr \<Rightarrow> ustr \<Rightarrow> ModemError + (ustr \<times> ustr option)" where
  "ymodem_local_target_path is_dir local_destination incoming_name =
     (if trim local_destination = [] then Inl EmptyLocalDestination
      else if is_dir local_destination \<or>
              ends_with local_destination [47] \<or> ends_with local_destination [92] then
        Inr (local_destination,
             Some (case portable_file_name incoming_name of
                     None \<Rightarrow> str ''ymodem-file.bin'' | Some name \<Rightarrow> name))
      else Inr (local_destination, None))"

section \<open>Sending\<close>

definition io_then ::
  "modem_io \<times> (ModemError + 'a) \<Rightarrow> ('a \<Rightarrow> modem_io \<Rightarrow> modem_io \<times> (ModemError + 'b))
     \<Rightarrow> modem_io \<times> (ModemError + 'b)" where
  "io_then r f = (case r of (io, Inl e) \<Rightarrow> (io, Inl e) | (io, Inr a) \<Rightarrow> f a io)"

definition reading ::
  "(reads \<Rightarrow> reads \<times> (ModemError + 'a)) \<Rightarrow> modem_io \<Rightarrow> modem_io \<times> (ModemError + 'a)" where
  "reading f io = (case f (io_reads io) of (reads, r) \<Rightarrow> (io\<lparr>io_reads := reads\<rparr>, r))"

function ymodem_send_loop ::
  "modem_env \<Rightarrow> nat \<Rightarrow> u8 \<Rightarrow> nat \<Rightarrow> u8 list \<Rightarrow> modem_io \<Rightarrow> modem_io \<times> (ModemError + nat)" where
  "ymodem_send_loop env total_size block_no bytes_done content io =
     (if total_size \<le> bytes_done then (io, Inr bytes_done)
      else
        (case check_modem_cancelled env io of
           (io, Inl e) \<Rightarrow> (io, Inl e)
         | (io, Inr _) \<Rightarrow>
             (case file_read env (min (total_size - bytes_done) YMODEM_BLOCK_SIZE) content io of
                (io, Inl e) \<Rightarrow> (io, Inl e)
              | (io, Inr chunk) \<Rightarrow>
                  if length chunk = 0 then (io, Inl SourceEndedEarly)
                  else
                    (case modem_send_packet_with_retries env MODEM_STX block_no chunk True io of
                       (io, Inl e) \<Rightarrow> (io, Inl e)
                     | (io, Inr _) \<Rightarrow>
                         (case progress_update env io of
                            (io, Inl e) \<Rightarrow> (io, Inl e)
                          | (io, Inr _) \<Rightarrow>
                              ymodem_send_loop env total_size (block_no + 1) (bytes_done + length chunk)
                                (drop (length chunk) content) io)))))"
  by pat_completeness auto
termination
  by (relation "measure (\<lambda>(env, total_size, block_no, bytes_done, content, io). total_size - bytes_done)")
     (auto simp add: diff_less_mono2 length_greater_0_conv [symmetric] simp del: length_greater_0_conv)

declare ymodem_send_loop.simps [simp del]

definition empty_block :: "u8 list" where
  "empty_block = replicate XMODEM_BLOCK_SIZE 0"

fun finish_batch :: "modem_env \<Rightarrow> nat \<Rightarrow> modem_io \<Rightarrow> modem_io \<times> (ModemError + unit)" where
  "finish_batch env 0 io = (io, Inl FinalBlockRejected)"
| "finish_batch env (Suc tries) io =
     (case write_runtime_bytes env (modem_packet_bytes MODEM_SOH 0 empty_block XMODEM_BLOCK_SIZE True) io of
        (io, Inl e) \<Rightarrow> (io, Inl e)
      | (io, Inr _) \<Rightarrow>
          (case modem_wait_for_ack 2000 (io_reads io) of
             (reads, Inr Ack) \<Rightarrow> (io\<lparr>io_reads := reads\<rparr>, Inr ())
           | (reads, Inr Nak) \<Rightarrow> finish_batch env tries (io\<lparr>io_reads := reads\<rparr>)
           | (reads, Inl e) \<Rightarrow>
               (io\<lparr>io_reads := reads\<rparr>, if is_modem_timeout e then Inr () else Inl e)))"

definition modem_finish_auto_remote_ymodem_batch ::
  "modem_env \<Rightarrow> modem_io \<Rightarrow> modem_io \<times> (ModemError + unit)" where
  "modem_finish_auto_remote_ymodem_batch env = finish_batch env 3"

text \<open>The name that is announced: that of the remote destination, else that of the local source.\<close>

definition ymodem_name :: "ustr \<Rightarrow> ustr option \<Rightarrow> ustr" where
  "ymodem_name local_source remote_destination =
     (let remote_name = (case remote_destination of
                           None \<Rightarrow> local_file_name local_source
                         | Some d \<Rightarrow> snd (remote_parent_and_file_name d))
      in if remote_name = [] then local_file_name local_source else remote_name)"

definition ymodem_send_file ::
  "modem_env \<Rightarrow> ustr \<Rightarrow> ustr option \<Rightarrow> u8 list \<Rightarrow> nat \<Rightarrow> bool \<Rightarrow> bool \<Rightarrow> reads
     \<Rightarrow> modem_io \<times> (ModemError + nat)" where
  "ymodem_send_file env local_source remote_destination content total_size unchanged auto_remote_receiver reads =
     io_then (reading modem_wait_for_receiver \<lparr>io_reads = reads, io_sent = [], io_tick = 0\<rparr>) (\<lambda>crc io.
     if \<not> crc then (io, Inl ReceiverWithoutCrc)
     else
       (case ymodem_metadata_block (ymodem_name local_source remote_destination) total_size of
          Inl e \<Rightarrow> (io, Inl e)
        | Inr metadata \<Rightarrow>
            io_then (modem_send_packet_with_retries env MODEM_SOH 0 metadata True io) (\<lambda>_ io.
            io_then (reading (modem_wait_for_crc_request 10000) io) (\<lambda>_ io.
            io_then (ymodem_send_loop env total_size 1 0 content io) (\<lambda>bytes_done io.
            if \<not> unchanged then (io, Inl SourceChanged)
            else
              io_then (modem_finish_eot env io) (\<lambda>_ io.
              io_then (reading (modem_wait_for_crc_request 10000) io) (\<lambda>_ io.
              io_then (if auto_remote_receiver then modem_finish_auto_remote_ymodem_batch env io
                       else modem_send_packet_with_retries env MODEM_SOH 0 empty_block True io) (\<lambda>_ io.
                (io, Inr bytes_done)))))))))"

section \<open>Receiving\<close>

definition append_modem_data_with_size_limit ::
  "u8 list \<Rightarrow> nat \<Rightarrow> modem_output \<Rightarrow> modem_output \<times> (ModemError + unit)" where
  "append_modem_data_with_size_limit data limit out =
     (let remaining = limit - mo_bytes_written out;
          count = min remaining (length data)
      in if count = 0 then (out, Inr ())
         else
           let out = out\<lparr>mo_content := mo_content out @ take count data\<rparr>
           in case checked_add_u64 (mo_bytes_written out) count of
                None \<Rightarrow> (out, Inl WrittenOverflow)
              | Some n \<Rightarrow> (out\<lparr>mo_bytes_written := n\<rparr>, Inr ()))"

text \<open>Appending what a block holds; the local file may fail only if something is written.\<close>

definition append_sized ::
  "modem_env \<Rightarrow> nat \<Rightarrow> u8 list \<Rightarrow> modem_io \<Rightarrow> modem_output \<Rightarrow> modem_io \<times> (ModemError + modem_output)" where
  "append_sized env limit data io out =
     (let tick = io_tick io; io = io\<lparr>io_tick := Suc tick\<rparr>
      in case (if min (limit - mo_bytes_written out) (length data) = 0 then None else env_file env tick) of
           Some e \<Rightarrow> (io, Inl e)
         | None \<Rightarrow>
             (case append_modem_data_with_size_limit data limit out of
                (_, Inl e) \<Rightarrow> (io, Inl e)
              | (out, Inr _) \<Rightarrow> (io, Inr out)))"

record ymodem_state =
  ym_io :: modem_io
  ym_expected :: u8
  ym_output :: modem_output
  ym_bytes_received :: nat

definition ymodem_append ::
  "modem_env \<Rightarrow> nat option \<Rightarrow> u8 list \<Rightarrow> modem_io \<Rightarrow> modem_output \<Rightarrow> modem_io \<times> (ModemError + modem_output)" where
  "ymodem_append env expected_size data io out =
     (case expected_size of
        Some limit \<Rightarrow> append_sized env limit data io out
      | None \<Rightarrow> append_received env data io out)"

definition ymodem_packet ::
  "modem_env \<Rightarrow> u8 list \<Rightarrow> nat option \<Rightarrow> ModemPacket \<Rightarrow> modem_io \<Rightarrow> ymodem_state
     \<Rightarrow> ymodem_state round" where
  "ymodem_packet env metadata expected_size packet io st =
     (if mp_block_no packet = ym_expected st then
        (case ymodem_append env expected_size (mp_data packet) io (ym_output st) of
           (io, Inl e) \<Rightarrow> Stop (io, Inl e)
         | (io, Inr out) \<Rightarrow>
             (case checked_add_u64 (ym_bytes_received st) (length (mp_data packet)) of
                None \<Rightarrow> Stop (io, Inl ReceivedOverflow)
              | Some received \<Rightarrow>
                  (case progress_update env io of
                     (io, Inl e) \<Rightarrow> Stop (io, Inl e)
                   | (io, Inr _) \<Rightarrow>
                       (case write_runtime_bytes env [MODEM_ACK] io of
                          (io, Inl e) \<Rightarrow> Stop (io, Inl e)
                        | (io, Inr _) \<Rightarrow>
                            Again \<lparr>ym_io = io, ym_expected = ym_expected st + 1, ym_output = out,
                                   ym_bytes_received = received\<rparr>))))
      else if ym_bytes_received st = 0 \<and> mp_block_no packet = 0 \<and> mp_data packet = metadata then
        (case write_runtime_bytes env [MODEM_ACK, MODEM_CRC_REQUEST] io of
           (io, Inl e) \<Rightarrow> Stop (io, Inl e)
         | (io, Inr _) \<Rightarrow> Again (st\<lparr>ym_io := io\<rparr>))
      else if 0 < ym_bytes_received st \<and> mp_block_no packet = ym_expected st - 1 then
        (case write_runtime_bytes env [MODEM_ACK] io of
           (io, Inl e) \<Rightarrow> Stop (io, Inl e)
         | (io, Inr _) \<Rightarrow> Again (st\<lparr>ym_io := io\<rparr>))
      else
        Stop (fst (write_runtime_bytes env [MODEM_NAK] io),
              Inl (OutOfOrder (mp_block_no packet) (ym_expected st))))"

text \<open>After the end of the file: the empty block that ends the batch, if it comes, and the size.\<close>

definition ymodem_end ::
  "modem_env \<Rightarrow> nat option \<Rightarrow> modem_io \<Rightarrow> modem_output \<Rightarrow> modem_io \<times> (ModemError + modem_output)" where
  "ymodem_end env expected_size io out =
     io_then (write_runtime_bytes env [MODEM_ACK, MODEM_CRC_REQUEST] io) (\<lambda>_ io.
     io_then
       (case reading modem_wait_for_next_marker io of
          (io, Inl _) \<Rightarrow> (io, Inr ())
        | (io, Inr final_marker) \<Rightarrow>
            if final_marker = MODEM_EOT then (io, Inr ())
            else
              io_then (reading (modem_read_packet final_marker) io) (\<lambda>final_packet io.
                if mp_block_no final_packet = 0 then write_runtime_bytes env [MODEM_ACK] io
                else (io, Inr ()))) (\<lambda>_ io.
     (io,
      case expected_size of
        Some limit \<Rightarrow> if mo_bytes_written out \<noteq> limit then Inl (SizeMismatch (mo_bytes_written out) limit) else Inr out
      | None \<Rightarrow> Inr out)))"

definition ymodem_round ::
  "modem_env \<Rightarrow> u8 list \<Rightarrow> nat option \<Rightarrow> ymodem_state \<Rightarrow> ymodem_state round" where
  "ymodem_round env metadata expected_size st =
     (case check_modem_cancelled env (ym_io st) of
        (io, Inl e) \<Rightarrow> Stop (io, Inl e)
      | (io, Inr _) \<Rightarrow>
          (case modem_wait_for_next_marker (io_reads io) of
             (reads, Inl e) \<Rightarrow> Stop (io\<lparr>io_reads := reads\<rparr>, Inl e)
           | (reads, Inr marker) \<Rightarrow>
               if marker = MODEM_EOT then
                 Stop (ymodem_end env expected_size (io\<lparr>io_reads := reads\<rparr>) (ym_output st))
               else
                 (case modem_read_packet marker reads of
                    (reads, Inl e) \<Rightarrow> Stop (io\<lparr>io_reads := reads\<rparr>, Inl e)
                  | (reads, Inr packet) \<Rightarrow>
                      ymodem_packet env metadata expected_size packet (io\<lparr>io_reads := reads\<rparr>) st)))"

lemma append_sized_reads: "append_sized env limit data io out = (io', r) \<Longrightarrow> io_reads io' = io_reads io"
  by (auto simp add: append_sized_def Let_def split: option.splits prod.splits sum.splits if_splits)

lemma ymodem_append_reads: "ymodem_append env limit data io out = (io', r) \<Longrightarrow> io_reads io' = io_reads io"
  by (auto simp add: ymodem_append_def dest: append_sized_reads append_received_reads split: option.splits)

lemma ymodem_packet_reads:
  "ymodem_packet env metadata limit packet io st = Again st' \<Longrightarrow> io_reads (ym_io st') = io_reads io"
  unfolding ymodem_packet_def
  by (auto dest!: ymodem_append_reads progress_reads write_reads
      split: if_splits prod.splits sum.splits option.splits)

lemma ymodem_round_decreases:
  assumes "ymodem_round env metadata limit st = Again st'"
  shows "length (io_reads (ym_io st')) < length (io_reads (ym_io st))"
proof -
  obtain io1 r1 where 1: "check_modem_cancelled env (ym_io st) = (io1, r1)"
    by (cases "check_modem_cancelled env (ym_io st)")
  obtain reads2 r2 where 2: "modem_wait_for_next_marker (io_reads io1) = (reads2, r2)"
    by (cases "modem_wait_for_next_marker (io_reads io1)")
  from assms 1 2 obtain m where m: "r2 = Inr m" "m \<noteq> MODEM_EOT"
    by (auto simp add: ymodem_round_def split: sum.splits if_splits)
  obtain reads3 r3 where 3: "modem_read_packet m reads2 = (reads3, r3)"
    by (cases "modem_read_packet m reads2")
  have "ymodem_packet env metadata limit (projr r3) (io1\<lparr>io_reads := reads3\<rparr>) st = Again st'"
    using assms 1 2 3 m by (auto simp add: ymodem_round_def split: sum.splits)
  then have "io_reads (ym_io st') = reads3" by (auto dest: ymodem_packet_reads)
  then show ?thesis
    using check_reads [OF 1] next_marker_length [OF 2] m(1) read_packet_le [OF 3] by auto
qed

function ymodem_receive_loop ::
  "modem_env \<Rightarrow> u8 list \<Rightarrow> nat option \<Rightarrow> ymodem_state \<Rightarrow> modem_io \<times> (ModemError + modem_output)" where
  "ymodem_receive_loop env metadata limit st =
     (case ymodem_round env metadata limit st of
        Again st' \<Rightarrow> ymodem_receive_loop env metadata limit st' | Stop result \<Rightarrow> result)"
  by pat_completeness auto
termination
  by (relation "measure (\<lambda>(env, metadata, limit, st). length (io_reads (ym_io st)))")
     (simp_all add: ymodem_round_decreases)

declare ymodem_receive_loop.simps [simp del]

text \<open>As for XModem the result has what was sent, the outcome and the committed file.\<close>

definition ymodem_receive_file ::
  "modem_env \<Rightarrow> (ustr \<Rightarrow> bool) \<Rightarrow> ustr \<Rightarrow> ModemError option \<Rightarrow> ModemError option \<Rightarrow> reads
     \<Rightarrow> u8 list list \<times> (ModemError + nat) \<times> ((ustr \<times> ustr option) \<times> u8 list) option" where
  "ymodem_receive_file env is_dir local_destination create finish reads =
     (let fails = (\<lambda>io e. (io_sent io, Inl e, None)) in
      case modem_wait_for_packet_marker env \<lparr>io_reads = reads, io_sent = [], io_tick = 0\<rparr> of
        (io, Inl e) \<Rightarrow> fails io e
      | (io, Inr marker) \<Rightarrow>
          if marker = MODEM_EOT then fails io EndBeforeMetadata
          else
            (case reading (modem_read_packet marker) io of
               (io, Inl e) \<Rightarrow> fails io e
             | (io, Inr metadata) \<Rightarrow>
                 if mp_block_no metadata \<noteq> 0 then fails io MetadataMissing
                 else
                   let (name, expected_size) = parse_ymodem_metadata (mp_data metadata) in
                   if name = [] then
                     (case write_runtime_bytes env [MODEM_ACK] io of
                        (io, Inl e) \<Rightarrow> fails io e | (io, Inr _) \<Rightarrow> fails io EmptyBatch)
                   else
                     (case write_runtime_bytes env [MODEM_ACK, MODEM_CRC_REQUEST] io of
                        (io, Inl e) \<Rightarrow> fails io e
                      | (io, Inr _) \<Rightarrow>
                          (case ymodem_local_target_path is_dir local_destination name of
                             Inl e \<Rightarrow> fails io e
                           | Inr destination \<Rightarrow>
                               (case create of
                                  Some e \<Rightarrow> fails io e
                                | None \<Rightarrow>
                                    (case ymodem_receive_loop env (mp_data metadata) expected_size
                                            \<lparr>ym_io = io, ym_expected = 1,
                                             ym_output = \<lparr>mo_content = [], mo_trailing_padding = 0,
                                                          mo_bytes_written = 0\<rparr>,
                                             ym_bytes_received = 0\<rparr> of
                                       (io, Inl e) \<Rightarrow> fails io e
                                     | (io, Inr out) \<Rightarrow>
                                         (case finish of
                                            Some e \<Rightarrow> fails io e
                                          | None \<Rightarrow>
                                              (io_sent io, Inr (mo_bytes_written out),
                                               Some (destination, mo_content out)))))))))"

section \<open>Names and metadata\<close>

lemma portable_file_name_safe:
  assumes "portable_file_name path = Some name"
  shows "name \<noteq> [] \<and> name \<noteq> str ''.'' \<and> name \<noteq> str ''..'' \<and>
    list_all (\<lambda>c. \<not> is_separator c \<and> \<not> is_control c \<and> c \<noteq> 0) name"
proof -
  obtain without_drive where name: "name = last (split_by is_separator without_drive)"
    and ok: "name \<noteq> []" "name \<noteq> str ''.''" "name \<noteq> str ''..''" "\<not> list_ex (\<lambda>c. is_control c \<or> c = 0) name"
    using assms unfolding portable_file_name_def Let_def by (auto simp only: option.inject split: if_splits)
  have "list_all (\<lambda>c. \<not> is_separator c \<and> c \<in> set without_drive) name"
    unfolding name by (rule split_by_parts) simp
  then show ?thesis using ok by (auto simp add: list_all_iff list_ex_iff)
qed

lemma ymodem_name_not_empty: "ymodem_name local_source remote_destination \<noteq> []"
proof -
  have "local_file_name local_source \<noteq> []"
    using portable_file_name_safe [of local_source] by (auto simp add: local_file_name_def split: option.splits)
  then show ?thesis by (simp add: ymodem_name_def Let_def)
qed

lemma as_bytes_nonzero: "scalar_text s \<Longrightarrow> 0 \<notin> set s \<Longrightarrow> 0 \<notin> set (as_bytes s)"
proof (induction s)
  case (Cons c s)
  have "0 \<notin> set (map of_nat (utf8_char c) :: u8 list)"
  proof (cases "c < 128")
    case True
    then have "unat (of_nat c :: u8) = c" by (simp add: unat_small_byte)
    then have "(of_nat c :: u8) \<noteq> 0" using Cons.prems(2) by (metis list.set_intros(1) unat_0)
    then show ?thesis using True by (auto simp add: utf8_char_def)
  next
    case False
    then show ?thesis using utf8_byte_values [of c 0] Cons.prems(1) by auto
  qed
  then show ?case using Cons by auto
qed simp

lemma as_bytes_ascii: "list_all (\<lambda>c. c < 128) s \<Longrightarrow> as_bytes s = map of_nat s"
  by (induction s) (simp_all add: utf8_char_def)

lemma ymodem_metadata_round_trip:
  assumes "ymodem_metadata_block name n = Inr metadata"
    and "scalar_text name" "list_all (\<lambda>c. \<not> surrogate c) name" "n < 2 ^ 64"
  shows "length metadata = 128" "parse_ymodem_metadata metadata = (name, Some n)"
proof -
  let ?text = "name @ [0] @ nat_str n @ [32]"
  let ?zeros = "replicate (128 - byte_len ?text) 0"
  have zero: "0 \<notin> set name" and len: "byte_len ?text \<le> 128" and m: "metadata = as_bytes ?text @ ?zeros"
    using assms(1) by (auto simp add: ymodem_metadata_block_def Let_def split: if_splits)
  show "length metadata = 128"
  proof -
    have "length (as_bytes ?text) = byte_len ?text" by (rule length_as_bytes)
    then show ?thesis using len unfolding m by (simp only: length_append length_replicate)
  qed
  have ascii: "list_all (\<lambda>c. c < 128) (nat_str n @ [32] @ replicate k 0)" for k
    using nat_str_digits [of n] by (auto simp add: list_all_iff is_ascii_digit_def)
  have bytes: "metadata = as_bytes name @ 0 # as_bytes (nat_str n @ [32] @ replicate (128 - byte_len ?text) 0)"
  proof -
    have "as_bytes (replicate k 0) = replicate k 0" for k by (induction k) (simp_all add: utf8_char_def)
    then show ?thesis by (simp add: m utf8_char_def)
  qed
  have take_name: "takeWhile (\<lambda>b. b \<noteq> 0) metadata = as_bytes name"
    unfolding bytes using as_bytes_nonzero [OF assms(2) zero] by (subst takeWhile_append2) auto
  have name: "from_utf8_lossy (as_bytes name) = name"
    using from_utf8_lossy_valid [OF from_utf8_as_bytes [OF assms(2,3)]] .
  have rest: "from_utf8_lossy (as_bytes (nat_str n @ [32] @ replicate k 0)) = nat_str n @ [32] @ replicate k 0" for k
  proof (rule from_utf8_lossy_valid [OF from_utf8_as_bytes])
    show "scalar_text (nat_str n @ [32] @ replicate k 0)"
      unfolding scalar_text_def by (rule list.pred_mono_strong [OF ascii]) simp
    show "list_all (\<lambda>c. \<not> surrogate c) (nat_str n @ [32] @ replicate k 0)"
      by (rule list.pred_mono_strong [OF ascii]) (simp add: surrogate_def)
  qed
  have words: "\<exists>more. split_whitespace (nat_str n @ [32] @ replicate k 0) = nat_str n # more" for k
  proof -
    have "is_whitespace 32" by (simp add: is_whitespace_def)
    then show ?thesis
      using split_by_append_sep [OF nat_str_no_whitespace, of 32 n "replicate k 0"]
      by (simp add: split_whitespace_def)
  qed
  have "drop (Suc (length (as_bytes name))) metadata = as_bytes (nat_str n @ [32] @ replicate (128 - byte_len ?text) 0)"
    unfolding bytes by simp
  then show "parse_ymodem_metadata metadata = (name, Some n)"
    using words [of "128 - byte_len ?text"] assms(4) parse_unsigned_nat_str [of n "2 ^ 64 - 1"]
    unfolding parse_ymodem_metadata_def take_name Let_def name by (auto simp only: rest list.case)
qed

section \<open>The receiver on a line without errors\<close>

text \<open>The output after the data \<open>d\<close> of a file announced with \<open>limit\<close> bytes.\<close>

definition sized_output :: "nat \<Rightarrow> u8 list \<Rightarrow> modem_output" where
  "sized_output limit d =
     \<lparr>mo_content = take limit d, mo_trailing_padding = 0, mo_bytes_written = min limit (length d)\<rparr>"

lemma append_sized_output:
  assumes "limit < 2 ^ 64"
  shows "append_modem_data_with_size_limit data limit (sized_output limit d) = (sized_output limit (d @ data), Inr ())"
  using assms
  by (auto simp add: append_modem_data_with_size_limit_def sized_output_def checked_add_u64_def Let_def min_def)

definition sized_state :: "nat \<Rightarrow> reads \<Rightarrow> u8 list list \<Rightarrow> nat \<Rightarrow> u8 \<Rightarrow> u8 list \<Rightarrow> ymodem_state" where
  "sized_state limit reads sent tick expected d =
     \<lparr>ym_io = \<lparr>io_reads = reads, io_sent = sent, io_tick = tick\<rparr>, ym_expected = expected,
      ym_output = sized_output limit d, ym_bytes_received = length d\<rparr>"

definition ymodem_block :: "u8 \<Rightarrow> u8 list \<Rightarrow> u8 list" where
  "ymodem_block b payload = modem_packet_bytes MODEM_STX b payload YMODEM_BLOCK_SIZE True"

definition header_block :: "u8 list \<Rightarrow> u8 list" where
  "header_block payload = modem_packet_bytes MODEM_SOH 0 payload XMODEM_BLOCK_SIZE True"

lemma block_markers:
  "ymodem_block b payload = MODEM_STX # tl (ymodem_block b payload)"
  "header_block payload = MODEM_SOH # tl (header_block payload)"
  by (simp_all add: ymodem_block_def header_block_def packet_bytes_padded)

lemma read_blocks:
  "modem_read_packet MODEM_STX (deliver (tl (ymodem_block b payload)) @ rest) =
     (rest, Inr \<lparr>mp_block_no = b, mp_data = padded 1024 payload\<rparr>)"
  "modem_read_packet MODEM_SOH (deliver (tl (header_block payload)) @ rest) =
     (rest, Inr \<lparr>mp_block_no = 0, mp_data = padded 128 payload\<rparr>)"
  using read_own_packet [of MODEM_STX b payload rest] read_own_packet [of MODEM_SOH 0 payload rest]
  by (simp_all add: ymodem_block_def header_block_def block_size_of_def)

lemma marker_first:
  "modem_wait_for_next_marker (deliver (ymodem_block b payload) @ rest) =
     (deliver (tl (ymodem_block b payload)) @ rest, Inr MODEM_STX)"
  "modem_wait_for_next_marker (deliver (header_block payload) @ rest) =
     (deliver (tl (header_block payload)) @ rest, Inr MODEM_SOH)"
  by (subst block_markers, simp)+

lemma sized_round:
  assumes "no_faults env"
  shows "ymodem_round env metadata (Some limit) (sized_state limit (deliver (ymodem_block b payload) @ rest) sent tick expected d) =
      ymodem_packet env metadata (Some limit) \<lparr>mp_block_no = b, mp_data = padded 1024 payload\<rparr>
        \<lparr>io_reads = rest, io_sent = sent, io_tick = Suc tick\<rparr>
        (sized_state limit (deliver (ymodem_block b payload) @ rest) sent tick expected d)"
    "ymodem_round env metadata (Some limit) (sized_state limit (deliver (header_block payload) @ rest) sent tick expected d) =
      ymodem_packet env metadata (Some limit) \<lparr>mp_block_no = 0, mp_data = padded 128 payload\<rparr>
        \<lparr>io_reads = rest, io_sent = sent, io_tick = Suc tick\<rparr>
        (sized_state limit (deliver (header_block payload) @ rest) sent tick expected d)"
  using no_faults_io(2) [OF assms]
  by (simp_all add: ymodem_round_def sized_state_def marker_first read_blocks)

lemma sized_new_block:
  assumes "no_faults env" "limit < 2 ^ 64" "length d + 1024 < 2 ^ 64"
  shows "ymodem_round env metadata (Some limit) (sized_state limit (deliver (ymodem_block b payload) @ rest) sent tick b d) =
    Again (sized_state limit rest (sent @ [[MODEM_ACK]]) (tick + 4) (b + 1) (d @ padded 1024 payload))"
proof -
  have nofile: "env_file env = (\<lambda>_. None)" using assms(1) by (simp add: no_faults_def)
  show ?thesis
    unfolding sized_round [OF assms(1)] ymodem_packet_def
    using assms(3) append_sized_output [OF assms(2), of "padded 1024 payload" d] no_faults_io [OF assms(1)] nofile
    by (simp add: sized_state_def ymodem_append_def append_sized_def checked_add_u64_def)
qed

lemma sized_repeated_block:
  assumes "no_faults env" "d \<noteq> []"
  shows "ymodem_round env metadata (Some limit) (sized_state limit (deliver (ymodem_block b payload) @ rest) sent tick (b + 1) d) =
    Again (sized_state limit rest (sent @ [[MODEM_ACK]]) (tick + 2) (b + 1) d)"
  unfolding sized_round [OF assms(1)] ymodem_packet_def
  using assms(2) no_faults_io [OF assms(1)] by (simp add: sized_state_def)

lemma sized_repeated_metadata:
  assumes "no_faults env" "length metadata = 128"
  shows "ymodem_round env metadata (Some limit) (sized_state limit (deliver (header_block metadata) @ rest) sent tick 1 []) =
    Again (sized_state limit rest (sent @ [[MODEM_ACK, MODEM_CRC_REQUEST]]) (tick + 2) 1 [])"
proof -
  have "padded 128 metadata = metadata" using assms(2) by (simp add: padded_def)
  then show ?thesis
    unfolding sized_round [OF assms(1)] ymodem_packet_def
    using no_faults_io [OF assms(1)] by (simp add: sized_state_def)
qed

lemma sized_end:
  assumes "no_faults env" "limit \<le> length d"
  shows "ymodem_round env metadata (Some limit)
      (sized_state limit (deliver [MODEM_EOT] @ deliver (header_block payload)) sent tick expected d) =
    Stop (\<lparr>io_reads = [], io_sent = sent @ [[MODEM_ACK, MODEM_CRC_REQUEST], [MODEM_ACK]], io_tick = tick + 3\<rparr>,
          Inr (sized_output limit d))"
proof -
  have nothing_left: "modem_wait_for_next_marker (deliver (header_block payload)) = (deliver (tl (header_block payload)), Inr MODEM_SOH)"
    "modem_read_packet MODEM_SOH (deliver (tl (header_block payload))) = ([], Inr \<lparr>mp_block_no = 0, mp_data = padded 128 payload\<rparr>)"
    using marker_first(2) [of payload "[]"] read_blocks(2) [of payload "[]"] by simp_all
  show ?thesis
    using no_faults_io [OF assms(1)] assms(2)
    by (simp add: ymodem_round_def ymodem_end_def io_then_def reading_def sized_state_def nothing_left sized_output_def)
qed

text \<open>Numbered blocks, each with the number of times it is sent again.\<close>

fun sized_stream :: "u8 \<Rightarrow> (u8 list \<times> nat) list \<Rightarrow> u8 list" where
  "sized_stream b [] = []"
| "sized_stream b ((payload, again) # blocks) =
     concat (replicate (Suc again) (ymodem_block b payload)) @ sized_stream (b + 1) blocks"

definition sized_data :: "(u8 list \<times> nat) list \<Rightarrow> u8 list" where
  "sized_data blocks = concat (map (\<lambda>(payload, again). padded 1024 payload) blocks)"

lemma sized_loop_repeats:
  assumes "no_faults env" "d \<noteq> []"
  shows "\<exists>tick'. ymodem_receive_loop env metadata (Some limit)
      (sized_state limit (deliver (concat (replicate k (ymodem_block b payload))) @ rest) sent tick (b + 1) d) =
    ymodem_receive_loop env metadata (Some limit)
      (sized_state limit rest (sent @ replicate k [MODEM_ACK]) tick' (b + 1) d)"
proof (induction k arbitrary: sent tick)
  case (Suc k)
  let ?rest = "deliver (concat (replicate k (ymodem_block b payload))) @ rest"
  have "ymodem_receive_loop env metadata (Some limit)
      (sized_state limit (deliver (ymodem_block b payload) @ ?rest) sent tick (b + 1) d) =
      ymodem_receive_loop env metadata (Some limit)
        (sized_state limit ?rest (sent @ [[MODEM_ACK]]) (tick + 2) (b + 1) d)"
    by (subst ymodem_receive_loop.simps) (simp add: sized_repeated_block [OF assms])
  then show ?case using Suc.IH [of "sent @ [[MODEM_ACK]]" "tick + 2"] by simp
qed auto

lemma sized_loop_metadata:
  assumes "no_faults env" "length metadata = 128"
  shows "\<exists>tick'. ymodem_receive_loop env metadata (Some limit)
      (sized_state limit (deliver (concat (replicate k (header_block metadata))) @ rest) sent tick 1 []) =
    ymodem_receive_loop env metadata (Some limit)
      (sized_state limit rest (sent @ replicate k [MODEM_ACK, MODEM_CRC_REQUEST]) tick' 1 [])"
proof (induction k arbitrary: sent tick)
  case (Suc k)
  let ?rest = "deliver (concat (replicate k (header_block metadata))) @ rest"
  have "ymodem_receive_loop env metadata (Some limit)
      (sized_state limit (deliver (header_block metadata) @ ?rest) sent tick 1 []) =
      ymodem_receive_loop env metadata (Some limit)
        (sized_state limit ?rest (sent @ [[MODEM_ACK, MODEM_CRC_REQUEST]]) (tick + 2) 1 [])"
    by (subst ymodem_receive_loop.simps) (simp add: sized_repeated_metadata [OF assms])
  then show ?case using Suc.IH [of "sent @ [[MODEM_ACK, MODEM_CRC_REQUEST]]" "tick + 2"] by simp
qed auto

lemma sized_loop_blocks:
  assumes "no_faults env" "limit < 2 ^ 64" "length d + length (sized_data blocks) < 2 ^ 64"
  shows "\<exists>tick'. ymodem_receive_loop env metadata (Some limit)
      (sized_state limit (deliver (sized_stream b blocks) @ rest) sent tick b d) =
    ymodem_receive_loop env metadata (Some limit)
      (sized_state limit rest (sent @ replicate (packet_count blocks) [MODEM_ACK]) tick'
        (b + of_nat (length blocks)) (d @ sized_data blocks))"
  using assms(3)
proof (induction blocks arbitrary: b sent tick d)
  case Nil
  then show ?case by (auto simp add: sized_data_def packet_count_def)
next
  case (Cons x blocks)
  obtain payload k where x: "x = (payload, k)" by (cases x)
  let ?loop = "ymodem_receive_loop env metadata (Some limit)"
  let ?more = "deliver (concat (replicate k (ymodem_block b payload))) @ deliver (sized_stream (b + 1) blocks) @ rest"
  let ?d = "d @ padded 1024 payload" and ?sent = "sent @ [[MODEM_ACK]]"
  have len: "length d + 1024 < 2 ^ 64" "length ?d + length (sized_data blocks) < 2 ^ 64"
    using Cons.prems by (simp_all add: x sized_data_def)
  have "?d \<noteq> []" using length_padded [of 1024 payload] by (metis append_is_Nil_conv list.size(3) zero_neq_numeral)
  have "?loop (sized_state limit (deliver (ymodem_block b payload) @ ?more) sent tick b d) =
      ?loop (sized_state limit ?more ?sent (tick + 4) (b + 1) ?d)"
    by (subst ymodem_receive_loop.simps) (simp add: sized_new_block [OF assms(1,2) len(1)])
  moreover obtain t1 where
    "?loop (sized_state limit ?more ?sent (tick + 4) (b + 1) ?d) =
      ?loop (sized_state limit (deliver (sized_stream (b + 1) blocks) @ rest)
        (?sent @ replicate k [MODEM_ACK]) t1 (b + 1) ?d)"
    using sized_loop_repeats [OF assms(1) \<open>?d \<noteq> []\<close>] by blast
  moreover obtain t2 where
    "?loop (sized_state limit (deliver (sized_stream (b + 1) blocks) @ rest)
        (?sent @ replicate k [MODEM_ACK]) t1 (b + 1) ?d) =
      ?loop (sized_state limit rest ((?sent @ replicate k [MODEM_ACK]) @ replicate (packet_count blocks) [MODEM_ACK])
        t2 (b + 1 + of_nat (length blocks)) (?d @ sized_data blocks))"
    using Cons.IH [OF len(2)] by blast
  moreover have "[MODEM_ACK] # replicate k [MODEM_ACK] @ replicate (packet_count blocks) [MODEM_ACK] =
      replicate (packet_count (x # blocks)) [MODEM_ACK]"
    by (simp add: x packet_count_def replicate_add)
  ultimately show ?case
    by (intro exI [of _ t2]) (simp add: x sized_data_def ac_simps)
qed

text \<open>
  The receiver on a whole batch: the metadata and every block may come several times.
\<close>

lemma ymodem_receive_blocks:
  assumes "no_faults env" "ymodem_metadata_block name limit = Inr metadata"
    and "scalar_text name" "list_all (\<lambda>c. \<not> surrogate c) name" "name \<noteq> []"
    and "ymodem_local_target_path is_dir destination name = Inr target"
    and "limit \<le> length (sized_data blocks)" "length (sized_data blocks) < 2 ^ 64"
  shows "ymodem_receive_file env is_dir destination None None
      (deliver (concat (replicate (Suc k) (header_block metadata)) @ sized_stream 1 blocks @ [MODEM_EOT] @ header_block closing)) =
    ([MODEM_CRC_REQUEST] # replicate (Suc k) [MODEM_ACK, MODEM_CRC_REQUEST] @
       replicate (packet_count blocks) [MODEM_ACK] @ [[MODEM_ACK, MODEM_CRC_REQUEST], [MODEM_ACK]],
     Inr limit, Some (target, take limit (sized_data blocks)))"
proof -
  let ?loop = "ymodem_receive_loop env metadata (Some limit)"
  let ?tail = "deliver [MODEM_EOT] @ deliver (header_block closing)"
  let ?rest = "deliver (concat (replicate k (header_block metadata))) @ deliver (sized_stream 1 blocks) @ ?tail"
  have small: "limit < 2 ^ 64" using assms(7,8) by linarith
  note meta = ymodem_metadata_round_trip [OF assms(2,3,4) small]
  have pad: "padded 128 metadata = metadata" using meta(1) by (simp add: padded_def)
  have marker: "modem_wait_for_packet_marker env \<lparr>io_reads = deliver (header_block metadata) @ ?rest, io_sent = [], io_tick = 0\<rparr> =
      (\<lparr>io_reads = deliver (tl (header_block metadata)) @ ?rest, io_sent = [[MODEM_CRC_REQUEST]], io_tick = 1\<rparr>, Inr MODEM_SOH)"
    using request_packet.simps(2) [of env 23] marker_first(2) no_faults_io [OF assms(1)]
    by (simp add: modem_wait_for_packet_marker_def del: deliver_simps request_packet.simps)
  let ?sent = "[[MODEM_CRC_REQUEST], [MODEM_ACK, MODEM_CRC_REQUEST]]"
  obtain t1 where 1: "?loop (sized_state limit ?rest ?sent 2 1 []) =
      ?loop (sized_state limit (deliver (sized_stream 1 blocks) @ ?tail)
        (?sent @ replicate k [MODEM_ACK, MODEM_CRC_REQUEST]) t1 1 [])"
    using sized_loop_metadata [OF assms(1) meta(1)] by blast
  obtain t2 where 2: "?loop (sized_state limit (deliver (sized_stream 1 blocks) @ ?tail)
        (?sent @ replicate k [MODEM_ACK, MODEM_CRC_REQUEST]) t1 1 []) =
      ?loop (sized_state limit ?tail
        ((?sent @ replicate k [MODEM_ACK, MODEM_CRC_REQUEST]) @ replicate (packet_count blocks) [MODEM_ACK])
        t2 (1 + of_nat (length blocks)) ([] @ sized_data blocks))"
    using sized_loop_blocks [OF assms(1) small, of "[]" blocks metadata 1 ?tail
        "?sent @ replicate k [MODEM_ACK, MODEM_CRC_REQUEST]" t1] assms(8)
    by (simp del: deliver_simps) blast
  have 3: "?loop (sized_state limit ?tail sent t2 e ([] @ sized_data blocks)) =
      (\<lparr>io_reads = [], io_sent = sent @ [[MODEM_ACK, MODEM_CRC_REQUEST], [MODEM_ACK]], io_tick = t2 + 3\<rparr>,
       Inr (sized_output limit (sized_data blocks)))" for sent e
    using sized_end [OF assms(1,7)] by (subst ymodem_receive_loop.simps) simp
  have start: "\<lparr>ym_io = \<lparr>io_reads = ?rest, io_sent = ?sent, io_tick = Suc (Suc 0)\<rparr>, ym_expected = 1,
      ym_output = \<lparr>mo_content = [], mo_trailing_padding = 0, mo_bytes_written = 0\<rparr>, ym_bytes_received = 0\<rparr> =
      sized_state limit ?rest ?sent 2 1 []"
    by (simp add: sized_state_def sized_output_def numeral_2_eq_2)
  have reads: "deliver (concat (replicate (Suc k) (header_block metadata)) @ sized_stream 1 blocks @ [MODEM_EOT] @ header_block closing) =
      deliver (header_block metadata) @ ?rest" by simp
  have out: "mo_bytes_written (sized_output limit (sized_data blocks)) = limit"
    "mo_content (sized_output limit (sized_data blocks)) = take limit (sized_data blocks)"
    using assms(7) by (simp_all add: sized_output_def)
  show ?thesis
    unfolding ymodem_receive_file_def Let_def reads marker
    using no_faults_io(1) [OF assms(1)] 1 2 3
    by (simp add: reading_def read_blocks(2) pad meta(2) assms(5,6) start out del: deliver_simps)
qed

section \<open>The sender\<close>

fun ymodem_blocks :: "u8 list \<Rightarrow> u8 list list" where
  "ymodem_blocks [] = []"
| "ymodem_blocks (x # xs) = take 1024 (x # xs) # ymodem_blocks (drop 1024 (x # xs))"

fun ymodem_numbered :: "u8 \<Rightarrow> u8 list list \<Rightarrow> u8 list list" where
  "ymodem_numbered b [] = []"
| "ymodem_numbered b (payload # payloads) = ymodem_block b payload # ymodem_numbered (b + 1) payloads"

lemma sized_stream_numbered: "sized_stream b (map (\<lambda>p. (p, 0)) ps) = concat (ymodem_numbered b ps)"
  by (induction ps arbitrary: b) auto

lemma ymodem_blocks_padded:
  "\<exists>n < 1024. sized_data (map (\<lambda>p. (p, 0)) (ymodem_blocks f)) = f @ replicate n MODEM_EOF"
proof (induction f rule: ymodem_blocks.induct)
  case (2 x xs)
  let ?f = "x # xs"
  obtain n where n: "n < 1024" "sized_data (map (\<lambda>p. (p, 0)) (ymodem_blocks (drop 1024 ?f))) = drop 1024 ?f @ replicate n MODEM_EOF"
    using 2 by auto
  have cons: "sized_data (map (\<lambda>p. (p, 0)) (ymodem_blocks ?f)) = padded 1024 (take 1024 ?f) @ drop 1024 ?f @ replicate n MODEM_EOF"
    using n(2) by (simp add: sized_data_def)
  show ?case
  proof (cases "1024 \<le> length ?f")
    case True
    then have "padded 1024 (take 1024 ?f) = take 1024 ?f" by (simp add: padded_def)
    then show ?thesis using cons n(1) by (metis append.assoc append_take_drop_id)
  next
    case False
    then have "drop 1024 ?f = []" by simp
    then have "sized_data (map (\<lambda>p. (p, 0)) (ymodem_blocks (drop 1024 ?f))) = []" by (simp add: sized_data_def)
    then have "n = 0" using n(2) \<open>drop 1024 ?f = []\<close> by simp
    moreover have "padded 1024 (take 1024 ?f) = ?f @ replicate (1024 - length ?f) MODEM_EOF"
      using False by (simp add: padded_def)
    moreover have "1024 - length ?f < 1024" by simp
    ultimately show ?thesis using cons \<open>drop 1024 ?f = []\<close> by (metis append_Nil2 replicate_0)
  qed
qed (auto simp add: sized_data_def)

lemma send_packet_accepted:
  assumes "no_faults env" "io_reads io = deliver [MODEM_ACK] @ rest"
  shows "modem_send_packet_with_retries env m b payload True io =
    (\<lparr>io_reads = rest, io_sent = io_sent io @ [modem_packet_bytes m b payload (if m = MODEM_STX then 1024 else 128) True],
      io_tick = Suc (io_tick io)\<rparr>, Inr ())"
  using send_until_ack_accepted [OF assms(1), of 0 10 MODEM_ACK_TIMEOUT io rest
      "modem_packet_bytes m b payload (if m = MODEM_STX then 1024 else 128) True" "NotAcknowledged b"] assms(2)
  by (simp add: modem_send_packet_with_retries_def modem_send_packet_bytes_with_retries_def)

lemma file_chunk:
  assumes "no_faults env" "\<forall>t. n \<le> env_file_read env t" "0 < n"
  shows "file_read env (min (length f) n) f io = (io\<lparr>io_tick := Suc (io_tick io)\<rparr>, Inr (take n f))"
proof -
  have "n \<le> env_file_read env (io_tick io)" using assms(2) by blast
  then have "take (min (min (length f) n) (max 1 (env_file_read env (io_tick io)))) f = take n f"
    using assms(3) by (cases "length f \<le> n") (auto simp add: min_def max_def)
  then show ?thesis using assms(1) by (simp add: file_read_def no_faults_def)
qed

lemma ymodem_send_loop_blocks:
  assumes "no_faults env" "\<forall>t. 1024 \<le> env_file_read env t"
    and "io_reads io = deliver (replicate (length (ymodem_blocks f)) MODEM_ACK) @ rest"
  shows "\<exists>tick. ymodem_send_loop env (n + length f) b n f io =
    (\<lparr>io_reads = rest, io_sent = io_sent io @ ymodem_numbered b (ymodem_blocks f), io_tick = tick\<rparr>, Inr (n + length f))"
  using assms(3)
proof (induction f arbitrary: n b io rule: ymodem_blocks.induct)
  case 1
  then show ?case by (intro exI [of _ "io_tick io"]) (subst ymodem_send_loop.simps, simp)
next
  case (2 x xs)
  let ?f = "x # xs"
  let ?c = "take 1024 ?f"
  let ?reads = "deliver (replicate (length (ymodem_blocks (drop 1024 ?f))) MODEM_ACK) @ rest"
  let ?io = "\<lparr>io_reads = ?reads, io_sent = io_sent io @ [ymodem_block b ?c], io_tick = 4 + io_tick io\<rparr>"
  have "io_reads io = deliver [MODEM_ACK] @ ?reads" using 2(2) by simp
  then have send: "modem_send_packet_with_retries env MODEM_STX b ?c True (io\<lparr>io_tick := Suc (Suc (io_tick io))\<rparr>) =
      (\<lparr>io_reads = ?reads, io_sent = io_sent io @ [ymodem_block b ?c], io_tick = io_tick io + 3\<rparr>, Inr ())"
    using send_packet_accepted [OF assms(1), of "io\<lparr>io_tick := Suc (Suc (io_tick io))\<rparr>" ?reads MODEM_STX b ?c]
    by (simp add: ymodem_block_def)
  have "drop (length ?c) ?f = drop 1024 ?f" by (simp add: min_def)
  then have step: "ymodem_send_loop env (n + length ?f) b n ?f io =
      ymodem_send_loop env (n + length ?f) (b + 1) (n + length ?c) (drop 1024 ?f) ?io"
    using no_faults_io [OF assms(1)] file_chunk [OF assms(1,2), of ?f] send
    by (subst ymodem_send_loop.simps) (simp add: min.commute)
  have all: "n + length ?f = n + length ?c + length (drop 1024 ?f)" by simp
  have "io_reads ?io = ?reads" by simp
  from "2.IH" [OF this, of "n + length ?c" "b + 1"] obtain tick where
    "ymodem_send_loop env (n + length ?f) (b + 1) (n + length ?c) (drop 1024 ?f) ?io =
      (\<lparr>io_reads = rest, io_sent = io_sent ?io @ ymodem_numbered (b + 1) (ymodem_blocks (drop 1024 ?f)), io_tick = tick\<rparr>,
       Inr (n + length ?f))"
    unfolding all [symmetric] by blast
  then show ?case unfolding step by (intro exI [of _ tick]) simp
qed

lemma ymodem_send_file_blocks:
  assumes "no_faults env" "\<forall>t. 1024 \<le> env_file_read env t"
    and "ymodem_metadata_block (ymodem_name source remote) (length f) = Inr metadata"
  shows "\<exists>tick. ymodem_send_file env source remote f (length f) True False
      (deliver ([MODEM_CRC_REQUEST, MODEM_ACK, MODEM_CRC_REQUEST] @
        replicate (length (ymodem_blocks f)) MODEM_ACK @ [MODEM_ACK, MODEM_CRC_REQUEST, MODEM_ACK])) =
    (\<lparr>io_reads = [], io_sent = [header_block metadata] @ ymodem_numbered 1 (ymodem_blocks f) @
        [[MODEM_EOT], header_block empty_block], io_tick = tick\<rparr>, Inr (length f))"
proof -
  let ?acks = "deliver (replicate (length (ymodem_blocks f)) MODEM_ACK)"
  let ?finish = "deliver [MODEM_ACK, MODEM_CRC_REQUEST, MODEM_ACK]"
  let ?io = "\<lparr>io_reads = ?acks @ ?finish, io_sent = [header_block metadata], io_tick = Suc 0\<rparr>"
  have receiver: "modem_wait_for_receiver (deliver [MODEM_CRC_REQUEST] @ rest) = (rest, Inr True)" for rest
    by (simp add: modem_wait_for_receiver_def)
  have crc: "modem_wait_for_crc_request 10000 (deliver [MODEM_CRC_REQUEST] @ rest) = (rest, Inr ())" for rest
    by (simp add: modem_wait_for_crc_request_def)
  have header: "modem_send_packet_with_retries env MODEM_SOH 0 payload True
      \<lparr>io_reads = deliver [MODEM_ACK] @ rest, io_sent = sent, io_tick = tick\<rparr> =
      (\<lparr>io_reads = rest, io_sent = sent @ [header_block payload], io_tick = Suc tick\<rparr>, Inr ())" for payload rest sent tick
    using send_packet_accepted [OF assms(1), of "\<lparr>io_reads = deliver [MODEM_ACK] @ rest, io_sent = sent, io_tick = tick\<rparr>" rest MODEM_SOH 0 payload]
    by (simp add: header_block_def del: deliver_simps)
  obtain tick where blocks: "ymodem_send_loop env (0 + length f) 1 0 f ?io =
      (\<lparr>io_reads = ?finish, io_sent = io_sent ?io @ ymodem_numbered 1 (ymodem_blocks f), io_tick = tick\<rparr>, Inr (0 + length f))"
    using ymodem_send_loop_blocks [OF assms(1,2), of ?io f ?finish 0 1] by auto
  have eot: "modem_finish_eot env \<lparr>io_reads = deliver [MODEM_ACK] @ rest, io_sent = sent, io_tick = tick\<rparr> =
      (\<lparr>io_reads = rest, io_sent = sent @ [[MODEM_EOT]], io_tick = Suc tick\<rparr>, Inr ())" for rest sent
    using send_until_ack_accepted [OF assms(1), of 0 10 MODEM_ACK_TIMEOUT
        "\<lparr>io_reads = deliver [MODEM_ACK] @ rest, io_sent = sent, io_tick = tick\<rparr>" rest "[MODEM_EOT]" EotNotAcknowledged]
    by (simp add: modem_finish_eot_def modem_finish_eot_with_timeout_def)
  note header_last = header [of _ "[]", unfolded append_Nil2]
  have three: "deliver [a, b, c] = deliver [a] @ deliver [b] @ deliver [c]" for a b c by simp
  have reads: "deliver ([MODEM_CRC_REQUEST, MODEM_ACK, MODEM_CRC_REQUEST] @
        replicate (length (ymodem_blocks f)) MODEM_ACK @ [MODEM_ACK, MODEM_CRC_REQUEST, MODEM_ACK]) =
      deliver [MODEM_CRC_REQUEST] @ deliver [MODEM_ACK] @ deliver [MODEM_CRC_REQUEST] @ ?acks @ ?finish"
    by simp
  show ?thesis
    unfolding ymodem_send_file_def reads
    using blocks eot
    by (simp add: io_then_def reading_def receiver header header_last crc assms(3) three del: deliver_simps)
qed

section \<open>Properties\<close>



text \<open>
  A drive prefix is removed only at the start of the path, so a name may still begin with one.
\<close>

lemma portable_name_keeps_inner_drive: "portable_file_name (str ''a/D:x'') = Some (str ''D:x'')"
  by (simp add: portable_file_name_def trim_end_separators_def is_separator_def is_ascii_upper_def
      is_ascii_lower_def is_control_def)



end
