(* ===== verification/Proxy.thy ===== *)
theory Proxy
  imports Wire_Bytes Mcp_Transfer
begin

text \<open>
  Connecting through proxies (\<open>proxy_protocol.rs\<close>) and serving dynamic tunnels
  (\<open>proxy_protocol/socks5_server.rs\<close>): the checks of a proxy's settings and credentials, the
  HTTP CONNECT and SOCKS5 client handshakes and the SOCKS5 server handshake. A socket is the
  bytes still to come from the peer and the writes made so far; \<open>works n\<close> says whether the write
  after \<open>n\<close> successful ones succeeds, and reading past the end fails. Base64 belongs to the
  \<open>base64\<close> crate; which texts are IPv6 addresses, and their printed form, are arguments too. The
  time limit around the server handshake and the opening of the TCP connection are not modelled.
\<close>

section \<open>Sockets\<close>

record socket =
  sk_input :: "u8 list"
  sk_sent :: "u8 list list"

datatype ProxyError =
    EmptyTarget | TargetLineBreak | EmptyProxyHost | ProxyHostLineBreak | ZeroProxyPort
  | BadSecretRef | EmptyUsernameForSecret | SecretUnreadable ustr
  | EmptyUsername | EmptyPassword | HttpUsernameCharacters | HttpCredentialsTooLong
  | SocksUsernameTooLong | SocksPasswordTooLong
  | WriteFailed | ReadFailed
  | HttpHeaderTooLong | HttpNotUtf8 | HttpBadStatusLine ustr | HttpRefused ustr
  | SocksVersion u8 | SocksNoMethod | SocksOtherMethod u8 | AuthVersion u8 | AuthFailed
  | TargetLength | ReplyVersion u8 | ReplyReserved u8 | ReplyRefused u8 | ReplyEmptyDomain
  | ReplyAddressType u8
  | OnlySocks5 | NoAuthNotOffered | InvalidConnectHeader | OnlyConnect | UnsupportedAddressType u8
  | EmptyDomain | DomainCharacters | DomainNotUtf8 | ZeroTargetPort

type_synonym 'a act = "socket \<Rightarrow> socket \<times> (ProxyError + 'a)"

definition act_then :: "'a act \<Rightarrow> ('a \<Rightarrow> 'b act) \<Rightarrow> 'b act" where
  "act_then m f sk = (case m sk of (sk, Inl e) \<Rightarrow> (sk, Inl e) | (sk, Inr a) \<Rightarrow> f a sk)"

definition pure :: "'a \<Rightarrow> 'a act" where
  "pure a sk = (sk, Inr a)"

definition fail :: "ProxyError \<Rightarrow> 'a act" where
  "fail e sk = (sk, Inl e)"

definition send :: "(nat \<Rightarrow> bool) \<Rightarrow> u8 list \<Rightarrow> unit act" where
  "send works bytes sk =
     (if works (length (sk_sent sk)) then (sk\<lparr>sk_sent := sk_sent sk @ [bytes]\<rparr>, Inr ())
      else (sk, Inl WriteFailed))"

text \<open>A write whose failure is ignored.\<close>

definition try_send :: "(nat \<Rightarrow> bool) \<Rightarrow> u8 list \<Rightarrow> unit act" where
  "try_send works bytes sk = (fst (send works bytes sk), Inr ())"

definition recv :: "nat \<Rightarrow> u8 list act" where
  "recv n sk =
     (case read_exact n (sk_input sk) of
        None \<Rightarrow> (sk\<lparr>sk_input := []\<rparr>, Inl ReadFailed)
      | Some (bytes, rest) \<Rightarrow> (sk\<lparr>sk_input := rest\<rparr>, Inr bytes))"

section \<open>Settings and credentials\<close>

definition proxy_target_authority :: "(ustr \<Rightarrow> bool) \<Rightarrow> ustr \<Rightarrow> u16 \<Rightarrow> ProxyError + ustr" where
  "proxy_target_authority is_ipv6 host port =
     (let host = trim host
      in if host = [] then Inl EmptyTarget
         else if 13 \<in> set host \<or> 10 \<in> set host then Inl TargetLineBreak
         else if is_ipv6 host
         then Inr (str ''['' @ host @ str '']:'' @ nat_str (unat port))
         else Inr (host @ str '':'' @ nat_str (unat port)))"

definition canonical_secret_ref :: "ustr \<Rightarrow> ustr option" where
  "canonical_secret_ref secret_ref =
     (let secret_ref = trim secret_ref
      in if secret_ref = [] \<or> 0 \<in> set secret_ref then None
         else (case strip_prefix secret_ref (str ''stronghold:'') of
                 Some account \<Rightarrow> if account \<noteq> [] then Some (str ''stronghold:'' @ account) else None
               | None \<Rightarrow>
                   let account = (case strip_prefix secret_ref (str ''keychain:'') of
                                    Some a \<Rightarrow> a | None \<Rightarrow> secret_ref)
                   in if account \<noteq> [] then Some (str ''keychain:'' @ account) else None))"

definition normalized_enabled_proxy :: "ProxyConfig \<Rightarrow> ProxyError + ProxyConfig option" where
  "normalized_enabled_proxy proxy =
     (if \<not> px_enabled proxy then Inr None
      else
        let proxy = normalize_proxy proxy
        in if px_host proxy = [] then Inl EmptyProxyHost
           else if 13 \<in> set (px_host proxy) \<or> 10 \<in> set (px_host proxy) then Inl ProxyHostLineBreak
           else if px_port proxy = 0 then Inl ZeroProxyPort
           else (case px_password_secret_ref proxy of
                   None \<Rightarrow> Inr (Some proxy)
                 | Some secret_ref \<Rightarrow>
                     if canonical_secret_ref secret_ref = None then Inl BadSecretRef
                     else if px_username proxy = [] then Inl EmptyUsernameForSecret
                     else Inr (Some proxy)))"

record ProxyCredentials =
  pc_username :: ustr
  pc_password :: ustr

definition validate_proxy_credentials :: "ProxyKind \<Rightarrow> ustr \<Rightarrow> ustr \<Rightarrow> ProxyError + unit" where
  "validate_proxy_credentials kind username password =
     (if username = [] then Inl EmptyUsername
      else if password = [] then Inl EmptyPassword
      else (case kind of
              HttpConnect \<Rightarrow>
                if list_ex (\<lambda>byte. byte = chr CHR '':'' \<or> byte = 13 \<or> byte = 10) (utf8_bytes username)
                then Inl HttpUsernameCharacters
                else if 8192 < byte_len username + byte_len password then Inl HttpCredentialsTooLong
                else Inr ()
            | Socks5 \<Rightarrow>
                if 255 < byte_len username then Inl SocksUsernameTooLong
                else if 255 < byte_len password then Inl SocksPasswordTooLong
                else Inr ()))"

definition resolve_proxy_credentials_with ::
  "(ustr \<Rightarrow> ustr + ustr) \<Rightarrow> ProxyConfig \<Rightarrow> ProxyError + ProxyCredentials option" where
  "resolve_proxy_credentials_with read_secret proxy =
     (case px_password_secret_ref proxy of
        None \<Rightarrow> Inr None
      | Some secret_ref \<Rightarrow>
          if px_username proxy = [] then Inl EmptyUsernameForSecret
          else
            and_then (map_err SecretUnreadable (read_secret secret_ref)) (\<lambda>password.
            and_then (validate_proxy_credentials (px_kind proxy) (px_username proxy) password) (\<lambda>_.
              Inr (Some \<lparr>pc_username = px_username proxy, pc_password = password\<rparr>))))"

section \<open>HTTP CONNECT\<close>

abbreviation (input) MAX_HTTP_CONNECT_RESPONSE_BYTES :: nat where
  "MAX_HTTP_CONNECT_RESPONSE_BYTES \<equiv> 16384"

definition crlf :: ustr where
  "crlf = [13, 10]"

definition http_connect_request :: "ustr \<Rightarrow> ustr option \<Rightarrow> ustr" where
  "http_connect_request authority authorization =
     str ''CONNECT '' @ authority @ str '' HTTP/1.1'' @ crlf @ str ''Host: '' @ authority @ crlf @
     (case authorization of
        None \<Rightarrow> []
      | Some a \<Rightarrow> str ''Proxy-Authorization: Basic '' @ a @ crlf) @
     str ''Proxy-Connection: Keep-Alive'' @ crlf @ crlf"

fun read_head :: "u8 list \<Rightarrow> u8 list \<Rightarrow> u8 list \<times> (ProxyError + u8 list)" where
  "read_head response [] =
     (if drop (length response - 4) response = [13, 10, 13, 10] then ([], Inr response)
      else if MAX_HTTP_CONNECT_RESPONSE_BYTES \<le> length response then ([], Inl HttpHeaderTooLong)
      else ([], Inl ReadFailed))"
| "read_head response (b # input) =
     (if drop (length response - 4) response = [13, 10, 13, 10] then (b # input, Inr response)
      else if MAX_HTTP_CONNECT_RESPONSE_BYTES \<le> length response then (b # input, Inl HttpHeaderTooLong)
      else read_head (response @ [b]) input)"

definition http_status :: "ustr \<Rightarrow> ProxyError + unit" where
  "http_status response =
     (let status_line = (case split_once response crlf of Some (line, _) \<Rightarrow> line | None \<Rightarrow> response);
          parts = split_whitespace status_line;
          version = (case parts of [] \<Rightarrow> [] | v # _ \<Rightarrow> v)
      in case (case parts of _ # s # _ \<Rightarrow> parse_u16 s | _ \<Rightarrow> None) of
           None \<Rightarrow> Inl (HttpBadStatusLine status_line)
         | Some status \<Rightarrow>
             if \<not> starts_with version (str ''HTTP/'') then Inl (HttpBadStatusLine status_line)
             else if \<not> (200 \<le> status \<and> status < 300) then Inl (HttpRefused status_line)
             else Inr ())"

definition perform_http_connect ::
  "(nat \<Rightarrow> bool) \<Rightarrow> (u8 list \<Rightarrow> ustr) \<Rightarrow> ustr \<Rightarrow> ProxyCredentials option \<Rightarrow> unit act" where
  "perform_http_connect works base64 authority credentials =
     act_then (case credentials of
                 None \<Rightarrow> pure ()
               | Some c \<Rightarrow> (\<lambda>sk. (sk, validate_proxy_credentials HttpConnect (pc_username c) (pc_password c)))) (\<lambda>_.
     act_then (send works (as_bytes (http_connect_request authority
                 (map_option (\<lambda>c. base64 (as_bytes (pc_username c) @ [58] @ as_bytes (pc_password c))) credentials)))) (\<lambda>_.
     act_then (\<lambda>sk. let (input, r) = read_head [] (sk_input sk) in (sk\<lparr>sk_input := input\<rparr>, r)) (\<lambda>response sk.
       (sk, case from_utf8 response of None \<Rightarrow> Inl HttpNotUtf8 | Some text \<Rightarrow> http_status text))))"

section \<open>SOCKS5 client\<close>

definition socks5_authenticate :: "(nat \<Rightarrow> bool) \<Rightarrow> ProxyCredentials \<Rightarrow> unit act" where
  "socks5_authenticate works c =
     (let username = as_bytes (pc_username c); password = as_bytes (pc_password c)
      in act_then (send works ([1, of_nat (length username)] @ username @
                               [of_nat (length password)] @ password)) (\<lambda>_.
         act_then (recv 2) (\<lambda>response.
           if response ! 0 \<noteq> 1 then fail (AuthVersion (response ! 0))
           else if response ! 1 \<noteq> 0 then fail AuthFailed
           else pure ())))"

definition socks5_bound_address :: "u8 \<Rightarrow> nat act" where
  "socks5_bound_address address_type =
     (if address_type = 1 then pure 4
      else if address_type = 3 then
        act_then (recv 1) (\<lambda>len. if len ! 0 = 0 then fail ReplyEmptyDomain else pure (unat (len ! 0)))
      else if address_type = 4 then pure 16
      else fail (ReplyAddressType address_type))"

definition perform_socks5_connect ::
  "(nat \<Rightarrow> bool) \<Rightarrow> ustr \<Rightarrow> u16 \<Rightarrow> ProxyCredentials option \<Rightarrow> unit act" where
  "perform_socks5_connect works target_host target_port credentials =
     act_then (case credentials of
                 None \<Rightarrow> pure ()
               | Some c \<Rightarrow> (\<lambda>sk. (sk, validate_proxy_credentials Socks5 (pc_username c) (pc_password c)))) (\<lambda>_.
     let auth_method = (if credentials \<noteq> None then 2 else 0)
     in act_then (send works [5, 1, auth_method]) (\<lambda>_.
        act_then (recv 2) (\<lambda>greeting.
        if greeting ! 0 \<noteq> 5 then fail (SocksVersion (greeting ! 0))
        else if greeting ! 1 = 255 then fail SocksNoMethod
        else if greeting ! 1 \<noteq> auth_method then fail (SocksOtherMethod (greeting ! 1))
        else
          act_then (case credentials of None \<Rightarrow> pure () | Some c \<Rightarrow> socks5_authenticate works c) (\<lambda>_.
          let host = as_bytes target_host
          in if host = [] \<or> 255 < length host then fail TargetLength
             else
               act_then (send works ([5, 1, 0, 3, of_nat (length host)] @ host @ to_be_bytes target_port)) (\<lambda>_.
               act_then (recv 4) (\<lambda>header.
               if header ! 0 \<noteq> 5 then fail (ReplyVersion (header ! 0))
               else if header ! 2 \<noteq> 0 then fail (ReplyReserved (header ! 2))
               else if header ! 1 \<noteq> 0 then fail (ReplyRefused (header ! 1))
               else
                 act_then (socks5_bound_address (header ! 3)) (\<lambda>address_len.
                 act_then (recv (address_len + 2)) (\<lambda>_. pure ()))))))))"

section \<open>SOCKS5 server\<close>

definition socks5_reply :: "u8 \<Rightarrow> u8 list" where
  "socks5_reply code = [5, code, 0, 1, 0, 0, 0, 0, 0, 0]"

definition read_socks5_domain :: "(nat \<Rightarrow> bool) \<Rightarrow> ustr act" where
  "read_socks5_domain works =
     act_then (recv 1) (\<lambda>len.
       if len ! 0 = 0 then act_then (try_send works (socks5_reply 8)) (\<lambda>_. fail EmptyDomain)
       else
         act_then (recv (unat (len ! 0))) (\<lambda>name.
           case from_utf8 name of
             None \<Rightarrow> act_then (try_send works (socks5_reply 8)) (\<lambda>_. fail DomainNotUtf8)
           | Some name \<Rightarrow>
               if \<not> list_ex (\<lambda>c. is_control c \<or> is_whitespace c) name then pure name
               else act_then (try_send works (socks5_reply 8)) (\<lambda>_. fail DomainCharacters)))"

definition read_socks5_connect_request_inner ::
  "(nat \<Rightarrow> bool) \<Rightarrow> (u8 list \<Rightarrow> ustr) \<Rightarrow> (ustr \<times> u16) act" where
  "read_socks5_connect_request_inner works ipv6_string =
     act_then (recv 2) (\<lambda>header.
     if header ! 0 \<noteq> 5 then act_then (try_send works [5, 255]) (\<lambda>_. fail OnlySocks5)
     else
       act_then (recv (unat (header ! 1))) (\<lambda>methods.
       if 0 \<notin> set methods then act_then (send works [5, 255]) (\<lambda>_. fail NoAuthNotOffered)
       else
         act_then (send works [5, 0]) (\<lambda>_.
         act_then (recv 4) (\<lambda>request.
         if request ! 0 \<noteq> 5 \<or> request ! 2 \<noteq> 0 then
           act_then (try_send works (socks5_reply 1)) (\<lambda>_. fail InvalidConnectHeader)
         else if request ! 1 \<noteq> 1 then
           act_then (try_send works (socks5_reply 7)) (\<lambda>_. fail OnlyConnect)
         else
           act_then
             (if request ! 3 = 1 then
                act_then (recv 4) (\<lambda>a. pure (ipv4_string (a ! 0, a ! 1, a ! 2, a ! 3)))
              else if request ! 3 = 3 then read_socks5_domain works
              else if request ! 3 = 4 then act_then (recv 16) (\<lambda>a. pure (ipv6_string a))
              else act_then (try_send works (socks5_reply 8)) (\<lambda>_. fail (UnsupportedAddressType (request ! 3))))
             (\<lambda>target_host.
           act_then (recv 2) (\<lambda>port_bytes.
             let target_port = from_be_bytes (port_bytes ! 0) (port_bytes ! 1)
             in if target_port = 0 then
                  act_then (try_send works (socks5_reply 1)) (\<lambda>_. fail ZeroTargetPort)
                else pure (target_host, target_port)))))))"

section \<open>Steps on concrete input\<close>

lemma act_then_simps [simp]:
  "act_then (pure a) f = f a" "act_then (fail e) f = fail e"
  by (simp_all add: act_then_def pure_def fail_def fun_eq_iff)

lemma then_send [simp]:
  "works (length (sk_sent sk)) \<Longrightarrow> act_then (send works bytes) f sk = f () (sk\<lparr>sk_sent := sk_sent sk @ [bytes]\<rparr>)"
  by (simp add: act_then_def send_def)

lemma then_recv:
  "length bytes = n \<Longrightarrow> sk_input sk = bytes @ rest \<Longrightarrow> act_then (recv n) f sk = f bytes (sk\<lparr>sk_input := rest\<rparr>)"
  by (simp add: act_then_def recv_def)

lemma then_assoc: "act_then (act_then m f) g = act_then m (\<lambda>a. act_then (f a) g)"
  by (auto simp add: act_then_def fun_eq_iff split: prod.split sum.split)

section \<open>Properties\<close>

text \<open>
  C35. Client and server of the SOCKS5 protocol agree: with no credentials, a target of 1 to 255
  bytes without control characters or blanks and a nonzero port, the client sends a greeting and
  a request, the server reads exactly this target and port out of them and answers the greeting
  with the bytes the client waits for, and the client succeeds once the server grants the
  request.
\<close>

theorem socks5_client_server_agree:
  assumes "\<And>n. works n" "scalar_text host" "list_all (\<lambda>c. \<not> surrogate c \<and> \<not> is_control c \<and> \<not> is_whitespace c) host"
    and "host \<noteq> []" "byte_len host \<le> 255" "port \<noteq> 0"
  shows "perform_socks5_connect works host port None \<lparr>sk_input = [5, 0] @ socks5_reply 0, sk_sent = []\<rparr> =
      (\<lparr>sk_input = [], sk_sent = [[5, 1, 0],
         [5, 1, 0, 3, of_nat (byte_len host)] @ as_bytes host @ to_be_bytes port]\<rparr>, Inr ())
   \<and> read_socks5_connect_request_inner works ipv6_string
       \<lparr>sk_input = concat [[5, 1, 0], [5, 1, 0, 3, of_nat (byte_len host)] @ as_bytes host @ to_be_bytes port],
        sk_sent = []\<rparr> =
      (\<lparr>sk_input = [], sk_sent = [[5, 0]]\<rparr>, Inr (host, port))"
proof -
  have w: "works n" for n by (rule assms(1))
  have "length host \<le> byte_len host" by (rule length_le_byte_len)
  then have pos: "0 < byte_len host" using assms(4) by (cases host) auto
  have len: "unat (of_nat (byte_len host) :: u8) = byte_len host"
    using assms(5) by (intro unat_small_byte) simp
  then have nz: "(of_nat (byte_len host) :: u8) \<noteq> 0" using pos by (metis less_not_refl unat_0)
  have nonempty: "as_bytes host \<noteq> []" using pos by (metis length_as_bytes length_greater_0_conv)
  have decode: "from_utf8 (as_bytes host) = Some host"
    using assms(2,3) by (intro from_utf8_as_bytes) (auto simp add: list_all_iff)
  have clean: "\<not> list_ex (\<lambda>c. is_control c \<or> is_whitespace c) host"
    using assms(3) by (auto simp add: list_all_iff list_ex_iff)
  have r2: "act_then (recv 2) f \<lparr>sk_input = a # b # rest, sk_sent = s\<rparr> = f [a, b] \<lparr>sk_input = rest, sk_sent = s\<rparr>"
    for f :: "u8 list \<Rightarrow> 'z act" and a b rest s
    using then_recv [of "[a, b]" 2 _ rest f] by simp
  have r1: "act_then (recv (Suc 0)) f \<lparr>sk_input = a # rest, sk_sent = s\<rparr> = f [a] \<lparr>sk_input = rest, sk_sent = s\<rparr>"
    for f :: "u8 list \<Rightarrow> 'z act" and a rest s
    using then_recv [of "[a]" 1 _ rest f] by simp
  have r4: "act_then (recv 4) f \<lparr>sk_input = a # b # c # d # rest, sk_sent = s\<rparr> =
      f [a, b, c, d] \<lparr>sk_input = rest, sk_sent = s\<rparr>"
    for f :: "u8 list \<Rightarrow> 'z act" and a b c d rest s
    using then_recv [of "[a, b, c, d]" 4 _ rest f] by simp
  have r6: "act_then (recv 6) f \<lparr>sk_input = [a, b, c, d, e, g], sk_sent = s\<rparr> =
      f [a, b, c, d, e, g] \<lparr>sk_input = [], sk_sent = s\<rparr>"
    for f :: "u8 list \<Rightarrow> 'z act" and a b c d e g s
    using then_recv [of "[a, b, c, d, e, g]" 6 _ "[]" f] by simp
  have rh: "act_then (recv (byte_len host)) f \<lparr>sk_input = as_bytes host @ rest, sk_sent = s\<rparr> =
      f (as_bytes host) \<lparr>sk_input = rest, sk_sent = s\<rparr>"
    for f :: "u8 list \<Rightarrow> 'z act" and rest s
    using then_recv [of "as_bytes host" "byte_len host" _ rest f] by simp
  show ?thesis
    using assms(5,6) w nz nonempty len decode clean
    by (simp add: perform_socks5_connect_def read_socks5_connect_request_inner_def read_socks5_domain_def
        socks5_reply_def socks5_bound_address_def then_assoc r1 r2 r4 r6 rh to_be_bytes_def pure_def)
qed

theorem socks5_client_server_agree_witness:
  "read_socks5_connect_request_inner (\<lambda>_. True) (\<lambda>_. [])
     \<lparr>sk_input = [5, 1, 0, 5, 1, 0, 3, 3, 97, 46, 98, 0, 80], sk_sent = []\<rparr> =
   (\<lparr>sk_input = [], sk_sent = [[5, 0]]\<rparr>, Inr ([97, 46, 98], 80))"
  using socks5_client_server_agree [of "\<lambda>_. True" "[97, 46, 98]" 80 "\<lambda>_. []"]
  by (simp add: surrogate_def is_control_def is_whitespace_def utf8_char_def to_be_bytes_def len_utf8_def)

text \<open>
  The head of an HTTP answer is read byte by byte: what has been read is a prefix of the input of
  at most 16384 bytes, and none of its proper prefixes ends with an empty line.
\<close>

definition head_end :: "u8 list \<Rightarrow> bool" where
  "head_end response \<longleftrightarrow> drop (length response - 4) response = [13, 10, 13, 10]"

lemma head_end_iff: "head_end response \<longleftrightarrow> (\<exists>a. response = a @ [13, 10, 13, 10])"
proof
  assume "head_end response"
  then show "\<exists>a. response = a @ [13, 10, 13, 10]"
    using append_take_drop_id [of "length response - 4" response] by (metis head_end_def)
qed (auto simp add: head_end_def)

definition head_outcome :: "u8 list \<Rightarrow> u8 list \<times> (ProxyError + u8 list) \<Rightarrow> bool" where
  "head_outcome read outcome \<longleftrightarrow>
     (case snd outcome of
        Inr r \<Rightarrow> r = read \<and> head_end r
      | Inl e \<Rightarrow> e = HttpHeaderTooLong \<and> length read = MAX_HTTP_CONNECT_RESPONSE_BYTES \<or>
                e = ReadFailed \<and> fst outcome = [])"

lemma read_head_prefix:
  assumes "length response \<le> MAX_HTTP_CONNECT_RESPONSE_BYTES"
  shows "\<exists>more. input = more @ fst (read_head response input) \<and>
    length (response @ more) \<le> MAX_HTTP_CONNECT_RESPONSE_BYTES \<and>
    (\<forall>n < length more. \<not> head_end (response @ take n more)) \<and>
    head_outcome (response @ more) (read_head response input)"
  using assms
proof (induction response input rule: read_head.induct)
  case (1 response)
  then show ?case by (auto simp add: head_end_def head_outcome_def)
next
  case (2 response b input)
  show ?case
  proof (cases "head_end response \<or> MAX_HTTP_CONNECT_RESPONSE_BYTES \<le> length response")
    case True
    then show ?thesis using 2(2) by (intro exI [of _ "[]"]) (auto simp add: head_end_def head_outcome_def)
  next
    case False
    then have step: "read_head response (b # input) = read_head (response @ [b]) input"
      by (simp add: head_end_def)
    have "\<exists>more. input = more @ fst (read_head (response @ [b]) input) \<and>
        length ((response @ [b]) @ more) \<le> MAX_HTTP_CONNECT_RESPONSE_BYTES \<and>
        (\<forall>n < length more. \<not> head_end ((response @ [b]) @ take n more)) \<and>
        head_outcome ((response @ [b]) @ more) (read_head (response @ [b]) input)"
      using False by (intro 2(1)) (simp_all add: head_end_def)
    then obtain more where more:
      "input = more @ fst (read_head (response @ [b]) input)"
      "length (response @ b # more) \<le> MAX_HTTP_CONNECT_RESPONSE_BYTES"
      "\<forall>n < length more. \<not> head_end (response @ b # take n more)"
      "head_outcome (response @ b # more) (read_head (response @ [b]) input)"
      by auto
    have "\<not> head_end (response @ take n (b # more))" if "n < length (b # more)" for n
      using False more(3) that by (cases n) auto
    then show ?thesis using more unfolding step by (intro exI [of _ "b # more"]) auto
  qed
qed

text \<open>
  C36. An HTTP proxy gets only what is its own: whatever it answers, the handshake consumes at most
  16384 bytes; when it succeeds they are exactly the bytes up to and including the first empty
  line, all later ones are left for the session, and the status line they start with is a 2xx
  answer. On success exactly one request has been written.
\<close>

theorem http_connect_reads_head:
  "\<exists>head. sk_input sk = head @ sk_input (fst (perform_http_connect works base64 authority credentials sk)) \<and>
     length head \<le> 16384 \<and>
     (snd (perform_http_connect works base64 authority credentials sk) = Inr () \<longrightarrow>
        (\<exists>body. head = body @ [13, 10, 13, 10]) \<and>
        (\<forall>n < length head. \<not> (\<exists>body. take n head = body @ [13, 10, 13, 10])) \<and>
        (\<exists>text. from_utf8 head = Some text \<and> http_status text = Inr ()) \<and>
        (\<exists>request. sk_sent (fst (perform_http_connect works base64 authority credentials sk)) =
           sk_sent sk @ [request]))"
proof -
  obtain head where head: "sk_input sk = head @ fst (read_head [] (sk_input sk))"
    "length head \<le> MAX_HTTP_CONNECT_RESPONSE_BYTES"
    "\<forall>n < length head. \<not> head_end (take n head)"
    "head_outcome head (read_head [] (sk_input sk))"
    using read_head_prefix [of "[]" "sk_input sk"] by auto
  show ?thesis
  proof (cases "sk_input (fst (perform_http_connect works base64 authority credentials sk)) = sk_input sk \<and>
      snd (perform_http_connect works base64 authority credentials sk) \<noteq> Inr ()")
    case True
    then show ?thesis by (intro exI [of _ "[]"]) simp
  next
    case False
    obtain input r where r: "read_head [] (sk_input sk) = (input, r)" by (cases "read_head [] (sk_input sk)")
    from False r obtain request where "perform_http_connect works base64 authority credentials sk =
        (\<lparr>sk_input = input, sk_sent = sk_sent sk @ [request]\<rparr>,
         and_then r (\<lambda>response. case from_utf8 response of None \<Rightarrow> Inl HttpNotUtf8 | Some text \<Rightarrow> http_status text))"
      by (cases sk; cases r)
         (auto simp add: perform_http_connect_def act_then_def pure_def send_def
            split: option.splits sum.splits if_splits)
    then show ?thesis
      using head unfolding r by (intro exI [of _ head])
        (auto simp add: head_outcome_def head_end_iff [symmetric] split: option.splits sum.splits)
  qed
qed

theorem http_connect_reads_head_witness:
  "\<exists>head. head @ sk_input (fst (perform_http_connect (\<lambda>_. True) (\<lambda>_. []) (str ''a:1'') None
       \<lparr>sk_input = map of_char ''HTTP/1.1 200 OK'' @ [13, 10, 13, 10, 7], sk_sent = []\<rparr>)) =
     map of_char ''HTTP/1.1 200 OK'' @ [13, 10, 13, 10, 7] \<and> length head \<le> 16384"
  using http_connect_reads_head [of "\<lparr>sk_input = map of_char ''HTTP/1.1 200 OK'' @ [13, 10, 13, 10, 7], sk_sent = []\<rparr>"
      "\<lambda>_. True" "\<lambda>_. []" "str ''a:1''" None]
  by (metis socket.select_convs(1))

end
