(* ===== verification/Tmux.thy ===== *)
theory Tmux
  imports Wire_Bytes
begin

text \<open>
  The tmux integration (\<open>tmux_protocol.rs\<close>, \<open>command_types/tmux.rs\<close> and \<open>shell_quote\<close> of
  \<open>ssh_exec.rs\<close>): the shell commands built from a request, the list formats and the parsers of
  what tmux prints for them, and the reader of control-mode notifications. The rendering of a
  timestamp belongs to the \<open>chrono\<close> crate: the argument \<open>rfc3339\<close>.
\<close>

datatype TmuxError =
    LineTooLong | EmptyTmuxTarget | TargetTooLong | TargetControl
  | EmptyName | NameTooLong | NameControl
  | SessionNameMissing | WindowNameMissing | DestinationMissing | LayoutMissing | ResizeAmount

datatype TmuxMutationAction =
    RenameSession | KillSession | NewWindow | RenameWindow | KillWindow | KillPane | SelectPane
  | BreakPane | MovePaneHorizontal | MovePaneVertical | SplitPaneHorizontal | SplitPaneVertical
  | SwapPanePrevious | SwapPaneNext | ResizePaneLeft | ResizePaneRight | ResizePaneUp
  | ResizePaneDown | SelectLayout

datatype TmuxWindowLayout = EvenHorizontal | EvenVertical | MainHorizontal | MainVertical | Tiled

record TmuxMutationRequest =
  tmr_session_id :: ustr
  tmr_action :: TmuxMutationAction
  tmr_target :: ustr
  tmr_name :: "ustr option"
  tmr_destination :: "ustr option"
  tmr_layout :: "TmuxWindowLayout option"
  tmr_amount :: "u16 option"

record TmuxSessionInfo =
  tsi_name :: ustr
  tsi_windows :: u32
  tsi_attached :: u32
  tsi_created :: "ustr option"

record TmuxPaneInfo =
  tpi_session :: ustr
  tpi_window_index :: u32
  tpi_pane_index :: u32
  tpi_pane_id :: ustr
  tpi_active :: bool
  tpi_synchronized :: bool
  tpi_command :: ustr
  tpi_title :: ustr

record TmuxWindowInfo =
  twi_session :: ustr
  twi_window_index :: u32
  twi_window_id :: ustr
  twi_name :: ustr
  twi_panes :: u32
  twi_active :: bool
  twi_synchronized :: bool

abbreviation (input) MAX_TMUX_CONTROL_LINE_BYTES :: nat where "MAX_TMUX_CONTROL_LINE_BYTES \<equiv> 65536"

definition TMUX_FIELD_SEPARATOR :: ustr where
  "TMUX_FIELD_SEPARATOR = str ''|PORTMATE:Q1:|''"

section \<open>List formats\<close>

definition tmux_list_format :: "ustr list \<Rightarrow> ustr" where
  "tmux_list_format names =
     join_str TMUX_FIELD_SEPARATOR (map (\<lambda>field. str ''#{q:'' @ field @ str ''}'') names)"

definition tmux_session_list_format :: ustr where
  "tmux_session_list_format = tmux_list_format
     [str ''session_name'', str ''session_windows'', str ''session_attached'', str ''session_created'']"

definition tmux_window_list_format :: ustr where
  "tmux_window_list_format = tmux_list_format
     [str ''session_name'', str ''window_index'', str ''window_id'', str ''window_name'',
      str ''window_panes'', str ''window_active'']"

definition tmux_pane_list_format :: ustr where
  "tmux_pane_list_format = tmux_list_format
     [str ''session_name'', str ''window_index'', str ''pane_index'', str ''pane_id'', str ''pane_active'',
      str ''pane_current_command'', str ''pane_title'', str ''pane_synchronized'']"

definition bounded_tmux_control_error :: "ustr \<Rightarrow> ustr" where
  "bounded_tmux_control_error error =
     take 512 error @ (if 512 < length error then str ''...'' else [])"

section \<open>Control mode\<close>

record TmuxControlParseResult =
  tcr_changed :: bool
  tcr_last_event :: "string option"

definition CONTROL_EVENTS :: "string list" where
  "CONTROL_EVENTS =
     [''client-active-pane'', ''client-session-changed'', ''layout-change'', ''pane-exited'',
      ''pane-mode-changed'', ''session-changed'', ''session-renamed'', ''session-window-changed'',
      ''sessions-changed'', ''subscription-changed'', ''unlinked-window-add'', ''unlinked-window-close'',
      ''unlinked-window-renamed'', ''window-add'', ''window-close'', ''window-pane-changed'',
      ''window-renamed'']"

definition tmux_control_event_kind :: "u8 list \<Rightarrow> string option" where
  "tmux_control_event_kind line =
     (let line = (if line \<noteq> [] \<and> last line = 13 then butlast line else line);
          name = takeWhile (\<lambda>b. b \<noteq> 32) line
      in List.find (\<lambda>event. name = 37 # map of_char event) CONTROL_EVENTS)"

definition append_partial :: "u8 list \<Rightarrow> u8 list \<Rightarrow> TmuxError + u8 list" where
  "append_partial partial data =
     (if MAX_TMUX_CONTROL_LINE_BYTES < length partial + length data then Inl LineTooLong
      else Inr (partial @ data))"

text \<open>
  The loop over the line ends of a chunk; \<open>segment\<close> are the bytes since the last one
  (\<open>data[start..index]\<close>).
\<close>

fun push_loop ::
  "u8 list \<Rightarrow> u8 list \<Rightarrow> TmuxControlParseResult \<Rightarrow> u8 list \<Rightarrow> TmuxError + (u8 list \<times> TmuxControlParseResult)" where
  "push_loop partial segment parsed [] =
     and_then (append_partial partial segment) (\<lambda>partial. Inr (partial, parsed))"
| "push_loop partial segment parsed (byte # data) =
     (if byte \<noteq> 10 then push_loop partial (segment @ [byte]) parsed data
      else
        and_then (append_partial partial segment) (\<lambda>partial.
          push_loop [] []
            (case tmux_control_event_kind partial of
               None \<Rightarrow> parsed
             | Some kind \<Rightarrow> \<lparr>tcr_changed = True, tcr_last_event = Some kind\<rparr>) data))"

definition no_event :: TmuxControlParseResult where
  "no_event = \<lparr>tcr_changed = False, tcr_last_event = None\<rparr>"

definition tmux_push :: "u8 list \<Rightarrow> u8 list \<Rightarrow> TmuxError + (u8 list \<times> TmuxControlParseResult)" where
  "tmux_push partial data = push_loop partial [] no_event data"

section \<open>Commands\<close>

definition shell_quote :: "ustr \<Rightarrow> ustr" where
  "shell_quote v = [39] @ replace_char 39 [39, 92, 39, 39] v @ [39]"

definition normalize_tmux_target :: "ustr \<Rightarrow> TmuxError + ustr" where
  "normalize_tmux_target target =
     (let target = trim target
      in if target = [] then Inl EmptyTmuxTarget
         else if 256 < length target then Inl TargetTooLong
         else if list_ex is_control target then Inl TargetControl
         else Inr target)"

definition normalize_tmux_name :: "ustr \<Rightarrow> TmuxError + ustr" where
  "normalize_tmux_name name =
     (let name = trim name
      in if name = [] then Inl EmptyName
         else if 128 < length name then Inl NameTooLong
         else if list_ex is_control name then Inl NameControl
         else Inr name)"

definition tmux_attach_command :: "ustr \<Rightarrow> TmuxError + ustr" where
  "tmux_attach_command target =
     and_then (normalize_tmux_target target) (\<lambda>target.
       let target = shell_quote target
       in Inr (str ''if tmux has-session -t '' @ target @ str '' 2>/dev/null; then exec tmux attach-session -t '' @
               target @ str ''; else exec tmux new-session -s '' @ target @ str ''; fi''))"

definition tmux_pane_sync_command :: "ustr \<Rightarrow> bool \<Rightarrow> TmuxError + ustr" where
  "tmux_pane_sync_command target enabled =
     and_then (normalize_tmux_target target) (\<lambda>target.
       Inr (str ''tmux set-option -w -t '' @ shell_quote target @ str '' synchronize-panes '' @
            (if enabled then str ''on'' else str ''off'')))"

definition normalize_tmux_resize_amount :: "u16 option \<Rightarrow> TmuxError + u16" where
  "normalize_tmux_resize_amount amount =
     (let amount = (case amount of None \<Rightarrow> 5 | Some a \<Rightarrow> a)
      in if \<not> (1 \<le> amount \<and> amount \<le> 100) then Inl ResizeAmount else Inr amount)"

fun tmux_window_layout_argument :: "TmuxWindowLayout \<Rightarrow> ustr" where
  "tmux_window_layout_argument EvenHorizontal = str ''even-horizontal''"
| "tmux_window_layout_argument EvenVertical = str ''even-vertical''"
| "tmux_window_layout_argument MainHorizontal = str ''main-horizontal''"
| "tmux_window_layout_argument MainVertical = str ''main-vertical''"
| "tmux_window_layout_argument Tiled = str ''tiled''"

definition resize_command :: "ustr \<Rightarrow> ustr \<Rightarrow> u16 option \<Rightarrow> TmuxError + ustr" where
  "resize_command target flag amount =
     and_then (normalize_tmux_resize_amount amount) (\<lambda>n.
       Inr (str ''tmux resize-pane -t '' @ target @ str '' '' @ flag @ str '' '' @ nat_str (unat n)))"

definition move_command :: "ustr \<Rightarrow> ustr \<Rightarrow> ustr option \<Rightarrow> TmuxError + ustr" where
  "move_command target flag destination =
     and_then (ok_or DestinationMissing destination) (\<lambda>d.
     and_then (normalize_tmux_target d) (\<lambda>d.
       Inr (str ''tmux move-pane -d '' @ flag @ str '' -s '' @ target @ str '' -t '' @ shell_quote d)))"

definition tmux_mutation_command :: "TmuxMutationRequest \<Rightarrow> TmuxError + ustr" where
  "tmux_mutation_command request =
     and_then (normalize_tmux_target (tmr_target request)) (\<lambda>raw_target.
     and_then (case tmr_name request of
                 None \<Rightarrow> Inr None
               | Some name \<Rightarrow> and_then (normalize_tmux_name name) (\<lambda>n. Inr (Some n))) (\<lambda>name.
       let target = shell_quote raw_target
       in case tmr_action request of
            RenameSession \<Rightarrow>
              and_then (ok_or SessionNameMissing name) (\<lambda>name.
                Inr (str ''tmux rename-session -t '' @ target @ str '' '' @ shell_quote name))
          | KillSession \<Rightarrow> Inr (str ''tmux kill-session -t '' @ target)
          | NewWindow \<Rightarrow>
              Inr (case name of
                     Some name \<Rightarrow> str ''tmux new-window -t '' @ target @ str '' -n '' @ shell_quote name
                   | None \<Rightarrow> str ''tmux new-window -t '' @ target)
          | RenameWindow \<Rightarrow>
              and_then (ok_or WindowNameMissing name) (\<lambda>name.
                Inr (str ''tmux rename-window -t '' @ target @ str '' '' @ shell_quote name))
          | KillWindow \<Rightarrow> Inr (str ''tmux kill-window -t '' @ target)
          | KillPane \<Rightarrow> Inr (str ''tmux kill-pane -t '' @ target)
          | SelectPane \<Rightarrow> Inr (str ''tmux select-pane -t '' @ target)
          | BreakPane \<Rightarrow> Inr (str ''tmux break-pane -d -s '' @ target)
          | MovePaneHorizontal \<Rightarrow> move_command target (str ''-h'') (tmr_destination request)
          | MovePaneVertical \<Rightarrow> move_command target (str ''-v'') (tmr_destination request)
          | SplitPaneHorizontal \<Rightarrow> Inr (str ''tmux split-window -h -t '' @ target)
          | SplitPaneVertical \<Rightarrow> Inr (str ''tmux split-window -v -t '' @ target)
          | SwapPanePrevious \<Rightarrow> Inr (str ''tmux swap-pane -t '' @ target @ str '' -U'')
          | SwapPaneNext \<Rightarrow> Inr (str ''tmux swap-pane -t '' @ target @ str '' -D'')
          | ResizePaneLeft \<Rightarrow> resize_command target (str ''-L'') (tmr_amount request)
          | ResizePaneRight \<Rightarrow> resize_command target (str ''-R'') (tmr_amount request)
          | ResizePaneUp \<Rightarrow> resize_command target (str ''-U'') (tmr_amount request)
          | ResizePaneDown \<Rightarrow> resize_command target (str ''-D'') (tmr_amount request)
          | SelectLayout \<Rightarrow>
              and_then (ok_or LayoutMissing (tmr_layout request)) (\<lambda>layout.
                Inr (str ''tmux select-layout -t '' @ target @ str '' '' @ tmux_window_layout_argument layout))))"

definition tmux_mutation_event_scope :: "TmuxMutationRequest \<Rightarrow> TmuxError + ustr" where
  "tmux_mutation_event_scope request =
     and_then (normalize_tmux_target (tmr_target request)) (\<lambda>target.
       if tmr_action request = MovePaneHorizontal \<or> tmr_action request = MovePaneVertical then
         and_then (ok_or DestinationMissing (tmr_destination request)) (\<lambda>d.
         and_then (normalize_tmux_target d) (\<lambda>d. Inr (target @ str '' -> '' @ d)))
       else Inr target)"

section \<open>Listings\<close>

lemma split_once_shorter: "split_once s sep = Some (a, b) \<Longrightarrow> sep \<noteq> [] \<Longrightarrow> length b < length s"
proof (induction s sep arbitrary: a b rule: split_once.induct)
  case (2 c s p)
  then show ?case by (cases p) (auto split: if_splits)
qed simp

text \<open>\<open>str::split\<close> with a pattern string.\<close>

function split_str :: "ustr \<Rightarrow> ustr \<Rightarrow> ustr list" where
  "split_str sep s =
     (if sep = [] then [s]
      else (case split_once s sep of None \<Rightarrow> [s] | Some (a, b) \<Rightarrow> a # split_str sep b))"
  by pat_completeness auto

termination
  by (relation "measure (\<lambda>(sep, s). length s)") (auto dest: split_once_shorter)

declare split_str.simps [simp del]

fun tmux_unquote_field :: "ustr \<Rightarrow> ustr option" where
  "tmux_unquote_field [] = Some []"
| "tmux_unquote_field (c # cs) =
     (if c = 92 then
        (case cs of
           [] \<Rightarrow> None
         | d # ds \<Rightarrow> if is_control d then None else map_option ((#) d) (tmux_unquote_field ds))
      else if is_control c then None
      else map_option ((#) c) (tmux_unquote_field cs))"

text \<open>\<open>collect::<Option<Vec<_>>>()\<close>.\<close>

fun collect_options :: "'a option list \<Rightarrow> 'a list option" where
  "collect_options [] = Some []"
| "collect_options (x # xs) =
     (case x of None \<Rightarrow> None | Some a \<Rightarrow> map_option ((#) a) (collect_options xs))"

definition tmux_fields :: "ustr \<Rightarrow> ustr list option" where
  "tmux_fields line =
     (if contains_str line TMUX_FIELD_SEPARATOR
      then collect_options (map tmux_unquote_field (split_str TMUX_FIELD_SEPARATOR line))
      else Some (split_char (if 31 \<in> set line then 31 else 9) line))"

definition parse_u32 :: "ustr \<Rightarrow> u32 option" where
  "parse_u32 s = map_option of_nat (parse_unsigned 4294967295 s)"

definition parse_i64 :: "ustr \<Rightarrow> int option" where
  "parse_i64 s =
     (case s of
        c # r \<Rightarrow>
          if c = 45 then
            (if r \<noteq> [] \<and> list_all is_ascii_digit r \<and> digits_value 0 r \<le> 9223372036854775808
             then Some (- int (digits_value 0 r)) else None)
          else map_option int (parse_unsigned 9223372036854775807 s)
      | [] \<Rightarrow> None)"

text \<open>The \<open>i\<close>-th of the following parts, with the defaults of the code for a missing one.\<close>

definition part :: "nat \<Rightarrow> ustr list \<Rightarrow> ustr" where
  "part i parts = (if i < length parts then parts ! i else [])"

definition number :: "nat \<Rightarrow> ustr list \<Rightarrow> u32" where
  "number i parts =
     (case (if i < length parts then parse_u32 (parts ! i) else None) of None \<Rightarrow> 0 | Some n \<Rightarrow> n)"

definition parse_tmux_session :: "(int \<Rightarrow> ustr option) \<Rightarrow> ustr \<Rightarrow> TmuxSessionInfo option" where
  "parse_tmux_session rfc3339 line =
     Option.bind (tmux_fields line) (\<lambda>parts.
       if parts = [] \<or> parts ! 0 = [] then None
       else Some
         \<lparr>tsi_name = parts ! 0, tsi_windows = number 1 parts, tsi_attached = number 2 parts,
          tsi_created = Option.bind (if 3 < length parts then parse_i64 (parts ! 3) else None) rfc3339\<rparr>)"

definition parse_tmux_window :: "ustr \<Rightarrow> TmuxWindowInfo option" where
  "parse_tmux_window line =
     Option.bind (tmux_fields line) (\<lambda>parts.
       if parts = [] \<or> parts ! 0 = [] then None
       else Some
         \<lparr>twi_session = parts ! 0, twi_window_index = number 1 parts, twi_window_id = part 2 parts,
          twi_name = part 3 parts, twi_panes = number 4 parts, twi_active = (part 5 parts = str ''1''),
          twi_synchronized = False\<rparr>)"

definition parse_tmux_pane :: "ustr \<Rightarrow> TmuxPaneInfo option" where
  "parse_tmux_pane line =
     Option.bind (tmux_fields line) (\<lambda>parts.
       if parts = [] \<or> parts ! 0 = [] then None
       else Some
         \<lparr>tpi_session = parts ! 0, tpi_window_index = number 1 parts, tpi_pane_index = number 2 parts,
          tpi_pane_id = part 3 parts, tpi_active = (part 4 parts = str ''1''),
          tpi_synchronized = (part 7 parts = str ''1''), tpi_command = part 5 parts,
          tpi_title = part 6 parts\<rparr>)"

section \<open>How a shell reads the commands\<close>

text \<open>
  The words of a command line that has single quotes, backslashes and blanks and is otherwise
  made of characters without a meaning to the shell; \<open>None\<close> for anything else.
\<close>

definition plain_char :: "uchar \<Rightarrow> bool" where
  "plain_char c \<longleftrightarrow> is_ascii_alphanumeric c \<or> c = 45"

fun shell_words :: "bool \<Rightarrow> ustr option \<Rightarrow> ustr \<Rightarrow> ustr list option" where
  "shell_words quoted word [] =
     (if quoted then None else Some (case word of None \<Rightarrow> [] | Some w \<Rightarrow> [w]))"
| "shell_words quoted word (c # cs) =
     (let w = (case word of None \<Rightarrow> [] | Some w \<Rightarrow> w)
      in if quoted then
           (if c = 39 then shell_words False (Some w) cs else shell_words True (Some (w @ [c])) cs)
         else if c = 39 then shell_words True (Some w) cs
         else if c = 92 then
           (case cs of [] \<Rightarrow> None | d # ds \<Rightarrow> if d = 10 then None else shell_words False (Some (w @ [d])) ds)
         else if c = 32 then
           map_option (\<lambda>ws. (case word of None \<Rightarrow> [] | Some w \<Rightarrow> [w]) @ ws) (shell_words False None cs)
         else if plain_char c then shell_words False (Some (w @ [c])) cs
         else None)"

lemma append_single [simp]: "(@) [v] = (#) v"
  by (simp add: fun_eq_iff)

lemma shell_words_escaped:
  "shell_words True (Some w) (replace_char 39 [39, 92, 39, 39] v @ 39 # cs) = shell_words False (Some (w @ v)) cs"
  by (induction v arbitrary: w) (auto simp add: replace_char_def)

lemma shell_words_quote:
  "shell_words False None (shell_quote v) = Some [v]"
  "shell_words False None (shell_quote v @ 32 # cs) = map_option ((#) v) (shell_words False None cs)"
  using shell_words_escaped [of "[]" v] by (simp_all add: shell_quote_def)

lemma shell_words_plain_acc:
  "list_all plain_char v \<Longrightarrow> shell_words False (Some w) v = Some [w @ v]"
  "list_all plain_char v \<Longrightarrow>
     shell_words False (Some w) (v @ 32 # cs) = map_option ((#) (w @ v)) (shell_words False None cs)"
  by (induction v arbitrary: w)
     (auto simp add: plain_char_def is_ascii_alphanumeric_def is_ascii_digit_def is_ascii_upper_def
        is_ascii_lower_def)

lemma shell_words_plain:
  assumes "list_all plain_char v" "v \<noteq> []"
  shows "shell_words False None v = Some [v]"
    "shell_words False None (v @ 32 # cs) = map_option ((#) v) (shell_words False None cs)"
proof -
  obtain c u where v: "v = c # u" using assms(2) by (cases v) auto
  have c: "plain_char c" "list_all plain_char u" using assms(1) by (simp_all add: v)
  then have first: "shell_words False None (c # ds) = shell_words False (Some [c]) ds" for ds
    by (auto simp add: plain_char_def is_ascii_alphanumeric_def is_ascii_digit_def is_ascii_upper_def
        is_ascii_lower_def)
  show "shell_words False None v = Some [v]"
    using shell_words_plain_acc(1) [OF c(2), of "[c]"] by (simp only: v first) simp
  show "shell_words False None (v @ 32 # cs) = map_option ((#) v) (shell_words False None cs)"
    using shell_words_plain_acc(2) [OF c(2), of "[c]" cs] by (simp only: v append_Cons first) simp
qed

text \<open>A command line as words that are plain or quoted, separated by single blanks.\<close>

fun render :: "(bool \<times> ustr) list \<Rightarrow> ustr" where
  "render ws = join_str [32] (map (\<lambda>(quote, w). if quote then shell_quote w else w) ws)"

lemma shell_words_render:
  "list_all (\<lambda>(quote, w). quote \<or> w \<noteq> [] \<and> list_all plain_char w) ws \<Longrightarrow>
   shell_words False None (render ws) = Some (map snd ws)"
proof (induction ws)
  case (Cons x ws)
  obtain q w where x: "x = (q, w)" by (cases x)
  show ?case
  proof (cases ws)
    case Nil
    then show ?thesis
      using Cons.prems shell_words_quote(1) [of w] shell_words_plain(1) [of w] by (auto simp add: x)
  next
    case (Cons y ys)
    then have "render (x # ws) = (if q then shell_quote w else w) @ 32 # render ws" by (simp add: x)
    then show ?thesis
      using Cons.prems Cons.IH shell_words_quote(2) [of w "render ws"] shell_words_plain(2) [of w "render ws"]
      by (auto simp add: x simp del: render.simps shell_words.simps)
  qed
qed simp

text \<open>What the request means, as the words tmux is called with.\<close>

definition tmux_argv :: "TmuxMutationRequest \<Rightarrow> (bool \<times> ustr) list" where
  "tmux_argv request =
     (let target = (True, trim (tmr_target request));
          name = (True, trim (the (tmr_name request)));
          destination = (True, trim (the (tmr_destination request)));
          lit = (\<lambda>s. (False, str s));
          amount = (False, nat_str (unat (case tmr_amount request of None \<Rightarrow> 5 | Some a \<Rightarrow> a)))
      in lit ''tmux'' #
         (case tmr_action request of
            RenameSession \<Rightarrow> [lit ''rename-session'', lit ''-t'', target, name]
          | KillSession \<Rightarrow> [lit ''kill-session'', lit ''-t'', target]
          | NewWindow \<Rightarrow> [lit ''new-window'', lit ''-t'', target] @
              (if tmr_name request = None then [] else [lit ''-n'', name])
          | RenameWindow \<Rightarrow> [lit ''rename-window'', lit ''-t'', target, name]
          | KillWindow \<Rightarrow> [lit ''kill-window'', lit ''-t'', target]
          | KillPane \<Rightarrow> [lit ''kill-pane'', lit ''-t'', target]
          | SelectPane \<Rightarrow> [lit ''select-pane'', lit ''-t'', target]
          | BreakPane \<Rightarrow> [lit ''break-pane'', lit ''-d'', lit ''-s'', target]
          | MovePaneHorizontal \<Rightarrow>
              [lit ''move-pane'', lit ''-d'', lit ''-h'', lit ''-s'', target, lit ''-t'', destination]
          | MovePaneVertical \<Rightarrow>
              [lit ''move-pane'', lit ''-d'', lit ''-v'', lit ''-s'', target, lit ''-t'', destination]
          | SplitPaneHorizontal \<Rightarrow> [lit ''split-window'', lit ''-h'', lit ''-t'', target]
          | SplitPaneVertical \<Rightarrow> [lit ''split-window'', lit ''-v'', lit ''-t'', target]
          | SwapPanePrevious \<Rightarrow> [lit ''swap-pane'', lit ''-t'', target, lit ''-U'']
          | SwapPaneNext \<Rightarrow> [lit ''swap-pane'', lit ''-t'', target, lit ''-D'']
          | ResizePaneLeft \<Rightarrow> [lit ''resize-pane'', lit ''-t'', target, lit ''-L'', amount]
          | ResizePaneRight \<Rightarrow> [lit ''resize-pane'', lit ''-t'', target, lit ''-R'', amount]
          | ResizePaneUp \<Rightarrow> [lit ''resize-pane'', lit ''-t'', target, lit ''-U'', amount]
          | ResizePaneDown \<Rightarrow> [lit ''resize-pane'', lit ''-t'', target, lit ''-D'', amount]
          | SelectLayout \<Rightarrow>
              [lit ''select-layout'', lit ''-t'', target,
               (False, tmux_window_layout_argument (the (tmr_layout request)))]))"

lemma normalize_target_Inr: "normalize_tmux_target t = Inr u \<Longrightarrow> u = trim t"
  by (auto simp add: normalize_tmux_target_def Let_def split: if_splits)

lemma normalize_name_Inr: "normalize_tmux_name t = Inr u \<Longrightarrow> u = trim t"
  by (auto simp add: normalize_tmux_name_def Let_def split: if_splits)

lemma mutation_command_render:
  assumes "tmux_mutation_command request = Inr command"
  shows "command = render (tmux_argv request)"
proof -
  obtain target name where target: "normalize_tmux_target (tmr_target request) = Inr target"
    and name: "(case tmr_name request of None \<Rightarrow> Inr None
      | Some name \<Rightarrow> and_then (normalize_tmux_name name) (\<lambda>n. Inr (Some n))) = Inr name"
    using assms by (auto simp add: tmux_mutation_command_def and_then_eq_Inr)
  have t: "target = trim (tmr_target request)" using normalize_target_Inr [OF target] .
  have n: "name = map_option trim (tmr_name request)"
    using name by (auto simp add: and_then_eq_Inr dest!: normalize_name_Inr split: option.splits)
  show ?thesis
    using assms
    by (cases "tmr_action request")
       (auto simp add: tmux_mutation_command_def target name t n tmux_argv_def resize_command_def
          move_command_def normalize_tmux_resize_amount_def and_then_eq_Inr ok_or_eq_Inr Let_def
          dest!: normalize_target_Inr split: if_splits option.splits)
qed

lemma argv_plain: "list_all (\<lambda>(quote, w). quote \<or> w \<noteq> [] \<and> list_all plain_char w) (tmux_argv request)"
proof -
  have digits: "list_all plain_char (nat_str n)" for n
    using nat_str_digits [of n] by (auto simp add: list_all_iff plain_char_def is_ascii_alphanumeric_def)
  have layout: "tmux_window_layout_argument l \<noteq> [] \<and> list_all plain_char (tmux_window_layout_argument l)" for l
    by (cases l) (simp_all add: plain_char_def is_ascii_alphanumeric_def is_ascii_digit_def
        is_ascii_upper_def is_ascii_lower_def)
  show ?thesis
    using digits layout
    by (cases "tmr_action request"; cases "tmr_name request"; cases "tmr_destination request")
       (simp_all add: tmux_argv_def Let_def plain_char_def is_ascii_alphanumeric_def is_ascii_digit_def
          is_ascii_upper_def is_ascii_lower_def)
qed

section \<open>Quoted fields\<close>

text \<open>
  tmux's \<open>q\<close> modifier puts a backslash before the characters of some set; the code relies on the
  backslash and the pipe being among them.
\<close>

definition tmux_quote :: "(uchar \<Rightarrow> bool) \<Rightarrow> ustr \<Rightarrow> ustr" where
  "tmux_quote escaped f = concat (map (\<lambda>c. if escaped c then [92, c] else [c]) f)"

lemma tmux_quote_simps [simp]:
  "tmux_quote E [] = []"
  "tmux_quote E (c # f) = (if E c then [92, c] else [c]) @ tmux_quote E f"
  by (simp_all add: tmux_quote_def)

lemma unquote_quote:
  "E 92 \<Longrightarrow> list_all (\<lambda>c. \<not> is_control c) f \<Longrightarrow> tmux_unquote_field (tmux_quote E f) = Some f"
proof (induction f)
  case (Cons c f)
  have "c \<noteq> 92" if "\<not> E c" using that Cons.prems(1) by auto
  then show ?case using Cons by (cases "E c") simp_all
qed simp

definition SEPARATOR_BODY :: ustr where
  "SEPARATOR_BODY = str ''PORTMATE:Q1:''"

lemma separator_parts: "TMUX_FIELD_SEPARATOR = 124 # SEPARATOR_BODY @ [124]"
  by (simp add: TMUX_FIELD_SEPARATOR_def SEPARATOR_BODY_def)

lemma separator_body_plain: "list_all (\<lambda>c. c \<noteq> 124 \<and> c \<noteq> 92) SEPARATOR_BODY"
  by (simp add: SEPARATOR_BODY_def)

lemma starts_with_Cons [simp]:
  "starts_with (a # s) (b # p) \<longleftrightarrow> a = b \<and> starts_with s p" "\<not> starts_with [] (b # p)" "starts_with s []"
  by (auto simp add: starts_with_def)

text \<open>
  After an escaped pipe the rest of a separator can only follow if the field ends there and the
  text goes on with a pipe.
\<close>

lemma body_in_quoted:
  assumes "E 92" "E 124" "list_all (\<lambda>c. c \<noteq> 124 \<and> c \<noteq> 92) u"
    and "starts_with (tmux_quote E f @ t) (u @ [124])" "t = [] \<or> hd t = 124"
  shows "f = u \<and> t \<noteq> []"
  using assms(3,4)
proof (induction u arbitrary: f)
  case Nil
  then show ?case using assms(1,2,5) by (cases f; cases t) (auto split: if_splits)
next
  case (Cons x u)
  show ?case
  proof (cases f)
    case Nil
    then show ?thesis using Cons.prems assms(5) by (cases t) auto
  next
    case (Cons d f')
    then show ?thesis
      using Cons.prems Cons.IH [of f'] assms(1,2) by (auto split: if_splits)
  qed
qed

lemma split_once_quoted:
  assumes "E 92" "E 124" "t = [] \<or> hd t = 124" "t \<noteq> [] \<longrightarrow> \<not> ends_with f (124 # SEPARATOR_BODY)"
  shows "split_once (tmux_quote E f @ t) TMUX_FIELD_SEPARATOR =
    map_option (\<lambda>(a, b). (tmux_quote E f @ a, b)) (split_once t TMUX_FIELD_SEPARATOR)"
  using assms(4)
proof (induction f)
  case Nil
  then show ?case by (simp add: option.map_ident)
next
  case (Cons c f)
  have end_tail: "t \<noteq> [] \<longrightarrow> \<not> ends_with f (124 # SEPARATOR_BODY)"
    using Cons.prems by (auto simp add: ends_with_iff)
  have no_match: "\<not> starts_with (c # tmux_quote E f @ t) TMUX_FIELD_SEPARATOR"
  proof
    assume "starts_with (c # tmux_quote E f @ t) TMUX_FIELD_SEPARATOR"
    then have "c = 124" and m: "starts_with (tmux_quote E f @ t) (SEPARATOR_BODY @ [124])"
      by (simp_all add: separator_parts)
    from body_in_quoted [OF assms(1,2) separator_body_plain m assms(3)]
    have "f = SEPARATOR_BODY" "t \<noteq> []" by simp_all
    then show False using Cons.prems \<open>c = 124\<close> by (auto simp add: ends_with_iff)
  qed
  have no_back: "\<not> starts_with (92 # c # s) TMUX_FIELD_SEPARATOR" for s by (simp add: separator_parts)
  show ?case
    using no_match no_back Cons.IH [OF end_tail]
    by (cases "E c") (simp_all add: option.map_comp comp_def case_prod_beta')
qed

lemma split_once_separator: "split_once (TMUX_FIELD_SEPARATOR @ rest) TMUX_FIELD_SEPARATOR = Some ([], rest)"
  by (simp add: separator_parts starts_with_def)

lemma split_fields:
  assumes "E 92" "E 124" "fs \<noteq> []" "\<forall>f \<in> set (butlast fs). \<not> ends_with f (124 # SEPARATOR_BODY)"
  shows "split_str TMUX_FIELD_SEPARATOR (join_str TMUX_FIELD_SEPARATOR (map (tmux_quote E) fs)) = map (tmux_quote E) fs"
  using assms(3,4)
proof (induction fs)
  case (Cons f fs)
  have sep: "TMUX_FIELD_SEPARATOR \<noteq> []" by (simp add: separator_parts)
  show ?case
  proof (cases fs)
    case Nil
    have "split_once (tmux_quote E f @ []) TMUX_FIELD_SEPARATOR = None"
      using sep by (subst split_once_quoted [OF assms(1,2)]) simp_all
    then show ?thesis using Nil by (simp add: split_str.simps)
  next
    case (Cons g gs)
    let ?rest = "join_str TMUX_FIELD_SEPARATOR (map (tmux_quote E) fs)"
    have "\<not> ends_with f (124 # SEPARATOR_BODY)" using Cons.prems Cons by simp
    then have "split_once (tmux_quote E f @ TMUX_FIELD_SEPARATOR @ ?rest) TMUX_FIELD_SEPARATOR = Some (tmux_quote E f, ?rest)"
      by (subst split_once_quoted [OF assms(1,2)]) (simp_all add: split_once_separator, simp_all add: separator_parts)
    moreover have "split_str TMUX_FIELD_SEPARATOR ?rest = map (tmux_quote E) fs"
      using Cons.IH Cons.prems Cons by simp
    ultimately show ?thesis using sep Cons by (subst split_str.simps) simp
  qed
qed simp

lemma collect_unquote:
  "E 92 \<Longrightarrow> list_all (list_all (\<lambda>c. \<not> is_control c)) fs \<Longrightarrow>
   collect_options (map tmux_unquote_field (map (tmux_quote E) fs)) = Some fs"
  by (induction fs) (simp_all add: unquote_quote)

lemma contains_join:
  assumes "2 \<le> length fs"
  shows "contains_str (join_str TMUX_FIELD_SEPARATOR (map q fs)) TMUX_FIELD_SEPARATOR"
proof -
  obtain f g gs where "fs = f # g # gs" using assms by (cases fs; cases "tl fs") auto
  then show ?thesis by (auto simp add: contains_str_iff)
qed

section \<open>Properties\<close>

text \<open>
  C37. Whatever the target, the name and the destination of a request hold (blanks, quotes,
  \<open>;\<close>, \<open>$\<close>, backslashes), the command that is built for it is read by a shell as exactly the
  words of the action: each value of the request is one word, trimmed and otherwise unchanged, and
  no character of it is interpreted.
\<close>

theorem tmux_mutation_words:
  assumes "tmux_mutation_command request = Inr command"
  shows "shell_words False None command = Some (map snd (tmux_argv request))"
  using mutation_command_render [OF assms] shell_words_render [OF argv_plain] by simp

definition sample_request :: TmuxMutationRequest where
  "sample_request =
     \<lparr>tmr_session_id = str ''s'', tmr_action = RenameSession, tmr_target = str ''a b'',
      tmr_name = Some (str ''x; ' $y''), tmr_destination = None, tmr_layout = None, tmr_amount = None\<rparr>"

lemma sample_argv:
  "map snd (tmux_argv sample_request) =
     [str ''tmux'', str ''rename-session'', str ''-t'', str ''a b'', str ''x; ' $y'']"
  by (simp add: tmux_argv_def sample_request_def trim_def trim_start_def trim_end_def is_whitespace_def)

theorem tmux_mutation_words_witness:
  "\<exists>command. tmux_mutation_command sample_request = Inr command \<and>
     shell_words False None command =
       Some [str ''tmux'', str ''rename-session'', str ''-t'', str ''a b'', str ''x; ' $y'']"
proof -
  obtain command where c: "tmux_mutation_command sample_request = Inr command"
    by (simp add: tmux_mutation_command_def sample_request_def normalize_tmux_target_def
        normalize_tmux_name_def trim_def trim_start_def trim_end_def is_whitespace_def is_control_def Let_def ok_or_def)
  show ?thesis using c tmux_mutation_words [OF c] by (simp only: sample_argv) blast
qed

text \<open>
  The listing parser undoes tmux's quoting: when tmux escapes at least the backslash and the
  pipe, the fields it prints between the separators of the list format are read back exactly, as
  long as they hold no control character and no field before the last ends with the separator
  less its final pipe.
\<close>

theorem tmux_fields_round_trip:
  assumes "escaped 92" "escaped 124" "2 \<le> length fs"
    and "list_all (list_all (\<lambda>c. \<not> is_control c)) fs"
    and "\<forall>f \<in> set (butlast fs). \<not> ends_with f (124 # SEPARATOR_BODY)"
  shows "tmux_fields (join_str TMUX_FIELD_SEPARATOR (map (tmux_quote escaped) fs)) = Some fs"
proof -
  have "fs \<noteq> []" using assms(3) by auto
  then have "split_str TMUX_FIELD_SEPARATOR (join_str TMUX_FIELD_SEPARATOR (map (tmux_quote escaped) fs)) =
      map (tmux_quote escaped) fs"
    using split_fields [OF assms(1,2) _ assms(5)] by simp
  moreover have "contains_str (join_str TMUX_FIELD_SEPARATOR (map (tmux_quote escaped) fs)) TMUX_FIELD_SEPARATOR"
    using assms(3) by (rule contains_join)
  ultimately show ?thesis
    using collect_unquote [of escaped, OF assms(1,4)] by (simp add: tmux_fields_def)
qed

definition sample_escaped :: "uchar \<Rightarrow> bool" where
  "sample_escaped c \<longleftrightarrow> c = 92 \<or> c = 124 \<or> c = 32"

theorem tmux_fields_round_trip_witness:
  "tmux_quote sample_escaped (str ''a|b'') = [97, 92, 124, 98] \<and>
   tmux_fields (join_str TMUX_FIELD_SEPARATOR
     (map (tmux_quote sample_escaped) [str ''a|b'', str ''3'', [92], str ''x y''])) =
   Some [str ''a|b'', str ''3'', [92], str ''x y'']"
  using tmux_fields_round_trip [of sample_escaped "[str ''a|b'', str ''3'', [92], str ''x y'']"]
  by (simp add: sample_escaped_def is_control_def ends_with_def SEPARATOR_BODY_def
      del: join_str.simps)

text \<open>
  The restriction on the ends of the fields is needed: a title that ends with the separator less
  its final pipe makes the separator appear one character early, and the line is dropped.
\<close>

lemma tmux_field_with_separator_lost:
  "tmux_fields (join_str TMUX_FIELD_SEPARATOR
     (map (tmux_quote sample_escaped) [str ''x|PORTMATE:Q1:'', str ''0''])) = None"
  by (simp add: tmux_fields_def TMUX_FIELD_SEPARATOR_def sample_escaped_def split_str.simps starts_with_def)

text \<open>
  Control-mode input in pieces: a chunk that ends inside a line leaves the same partial line and
  reports the same as the two halves together.
\<close>

definition merge_results :: "TmuxControlParseResult \<Rightarrow> TmuxControlParseResult \<Rightarrow> TmuxControlParseResult" where
  "merge_results a b =
     \<lparr>tcr_changed = (tcr_changed a \<or> tcr_changed b),
      tcr_last_event = (case tcr_last_event b of None \<Rightarrow> tcr_last_event a | Some e \<Rightarrow> Some e)\<rparr>"

lemma push_loop_segment:
  "push_loop partial (segment @ ys) parsed data =
     and_then (append_partial partial segment) (\<lambda>p. push_loop p ys parsed data)"
proof (induction data arbitrary: ys)
  case (Cons byte data)
  then show ?case by (auto simp add: append_partial_def)
qed (auto simp add: append_partial_def)

lemma push_loop_append:
  "push_loop partial segment parsed (xs @ ys) =
     and_then (push_loop partial segment parsed xs) (\<lambda>(p, r). push_loop p [] r ys)"
proof (induction xs arbitrary: partial segment parsed)
  case Nil
  then show ?case using push_loop_segment [of partial segment "[]"] by (auto simp add: append_partial_def)
qed (auto simp add: append_partial_def)

lemma push_loop_merge:
  "push_loop partial segment (merge_results a b) data =
     and_then (push_loop partial segment b data) (\<lambda>(p, r). Inr (p, merge_results a r))"
proof (induction data arbitrary: partial segment b)
  case (Cons byte data)
  have event: "\<lparr>tcr_changed = True, tcr_last_event = Some kind\<rparr> =
      merge_results a \<lparr>tcr_changed = True, tcr_last_event = Some kind\<rparr>" for kind
    by (simp add: merge_results_def)
  have step: "(case tmux_control_event_kind l of None \<Rightarrow> merge_results a b
      | Some kind \<Rightarrow> \<lparr>tcr_changed = True, tcr_last_event = Some kind\<rparr>) =
      merge_results a (case tmux_control_event_kind l of None \<Rightarrow> b
        | Some kind \<Rightarrow> \<lparr>tcr_changed = True, tcr_last_event = Some kind\<rparr>)" for l
    using event by (cases "tmux_control_event_kind l") simp_all
  show ?case by (simp add: step Cons.IH append_partial_def)
qed (simp add: append_partial_def)

lemma tmux_push_append:
  "tmux_push partial (xs @ ys) =
     and_then (tmux_push partial xs) (\<lambda>(p, a).
     and_then (tmux_push p ys) (\<lambda>(q, b). Inr (q, merge_results a b)))"
proof (cases "tmux_push partial xs")
  case (Inr x)
  obtain p a where x: "x = (p, a)" by (cases x)
  have "merge_results a no_event = a" by (simp add: merge_results_def no_event_def)
  then show ?thesis
    using Inr push_loop_merge [of p "[]" a no_event ys] by (simp add: tmux_push_def push_loop_append x)
qed (simp add: tmux_push_def push_loop_append)

lemma tmux_push_bounded:
  "push_loop partial segment parsed data = Inr (p, r) \<Longrightarrow> length p \<le> MAX_TMUX_CONTROL_LINE_BYTES"
  by (induction data arbitrary: partial segment parsed)
     (auto simp add: append_partial_def and_then_eq_Inr split: if_splits)

end
