(* ===== verification/Http_Request.thy ===== *)
theory Http_Request
  imports Wire_Bytes
begin

text \<open>
  Reading one HTTP request of the MCP server process (\<open>portmate-mcp/src/http_request.rs\<close>). A stream
  is what its successive reads will deliver: pieces of bytes or an error, and its end when there
  are none left; a read into a buffer takes at most the length of the buffer from the next piece.
  Parsing the head belongs to the \<open>httparse\<close> crate and is an argument, as is the limit for the body,
  which depends on the head. Sizes are those of a 64-bit system, and the arithmetic wraps as in a
  release build.
\<close>

abbreviation (input) MAX_HTTP_BODY_BYTES :: nat where "MAX_HTTP_BODY_BYTES \<equiv> 6291456"
abbreviation (input) MAX_HTTP_HEADER_BYTES :: nat where "MAX_HTTP_HEADER_BYTES \<equiv> 65536"
abbreviation (input) MAX_HTTP_CHUNK_FRAMING_BYTES :: nat where "MAX_HTTP_CHUNK_FRAMING_BYTES \<equiv> 65536"
abbreviation (input) MAX_HTTP_HEADERS :: nat where "MAX_HTTP_HEADERS \<equiv> 128"
abbreviation (input) BUFFER_BYTES :: nat where "BUFFER_BYTES \<equiv> 4096"

datatype HttpError =
    StreamTimedOut | StreamFailed
  | ClosedBeforeHeaders | HeadersTooLong | InvalidHeaders | IncompleteHeaders | BytesAfterHeaders
  | MissingMethod | MissingPath | MissingVersion | HeaderNotUtf8 ustr | DuplicateHeader ustr
  | HttpAuthenticationRequired
  | BothLengthAndEncoding | UnsupportedTransferEncoding | BadContentLength | BodyTooLarge
  | BytesAfterBody | ClosedBeforeBody
  | BadChunkSize | BadChunkExtension | BytesAfterChunkedBody | ChunkNotTerminated
  | ChunkFramingTooLong | TooManyTrailers | BadChunkTrailer | ClosedBeforeFraming | ClosedBeforeChunk

type_synonym stream = "(HttpError + u8 list) list"

type_synonym headers = "ustr \<rightharpoonup> ustr"

record HttpRequest =
  hr_method :: ustr
  hr_path :: ustr
  hr_headers :: headers
  hr_body :: "u8 list"

text \<open>What \<open>httparse\<close> gives for a head.\<close>

record parsed_request =
  pr_bytes :: nat
  pr_method :: "ustr option"
  pr_path :: "ustr option"
  pr_version :: "u8 option"
  pr_headers :: "(ustr \<times> u8 list) list"

datatype parse_status = ParseFailed | Partial | Complete parsed_request

section \<open>Reading from the stream\<close>

fun read_stream_chunk :: "nat \<Rightarrow> stream \<Rightarrow> stream \<times> (HttpError + u8 list)" where
  "read_stream_chunk n [] = ([], Inr [])"
| "read_stream_chunk n (Inl e # stream) = (stream, Inl e)"
| "read_stream_chunk n (Inr piece # stream) =
     (if length piece \<le> n then (stream, Inr piece) else (Inr (drop n piece) # stream, Inr (take n piece)))"

fun stream_size :: "stream \<Rightarrow> nat" where
  "stream_size [] = 0"
| "stream_size (Inl e # stream) = Suc (stream_size stream)"
| "stream_size (Inr piece # stream) = Suc (length piece) + stream_size stream"

lemma read_stream_shrinks:
  "read_stream_chunk n stream = (stream', Inr bytes) \<Longrightarrow> bytes \<noteq> [] \<Longrightarrow> stream_size stream' < stream_size stream"
  by (cases "(n, stream)" rule: read_stream_chunk.cases) (auto split: if_splits)

lemma read_stream_length: "read_stream_chunk n stream = (stream', Inr bytes) \<Longrightarrow> length bytes \<le> n"
  by (cases "(n, stream)" rule: read_stream_chunk.cases) (auto split: if_splits)

text \<open>\<open>windows(n).position\<close>: where a pattern begins first.\<close>

fun find_window :: "'a list \<Rightarrow> 'a list \<Rightarrow> nat option" where
  "find_window pattern [] = None"
| "find_window pattern (x # xs) =
     (if take (length pattern) (x # xs) = pattern then Some 0
      else map_option Suc (find_window pattern xs))"

lemma find_window_less: "find_window p xs = Some n \<Longrightarrow> n < length xs"
  by (induction xs arbitrary: n) (auto split: if_splits)

lemma find_window_match: "find_window p xs = Some n \<Longrightarrow> take (length p) (drop n xs) = p"
  by (induction xs arbitrary: n) (auto split: if_splits)

definition find_header_end :: "u8 list \<Rightarrow> nat option" where
  "find_header_end raw = find_window [13, 10, 13, 10] raw"

section \<open>The head\<close>

function read_http_head :: "u8 list \<Rightarrow> stream \<Rightarrow> stream \<times> (HttpError + u8 list \<times> nat)" where
  "read_http_head raw stream =
     (case read_stream_chunk BUFFER_BYTES stream of
        (stream, Inl e) \<Rightarrow> (stream, Inl e)
      | (stream, Inr bytes) \<Rightarrow>
          if bytes = [] then (stream, Inl ClosedBeforeHeaders)
          else
            let raw = raw @ bytes
            in case find_header_end raw of
                 Some index \<Rightarrow>
                   if MAX_HTTP_HEADER_BYTES < index + 4 then (stream, Inl HeadersTooLong)
                   else (stream, Inr (raw, index))
               | None \<Rightarrow>
                   if MAX_HTTP_HEADER_BYTES < length raw then (stream, Inl HeadersTooLong)
                   else read_http_head raw stream)"
  by pat_completeness auto
termination
  by (relation "measure (\<lambda>(raw, stream). stream_size stream)")
     (auto dest: read_stream_shrinks [OF sym])

declare read_http_head.simps [simp del]

definition SINGLE_VALUE_HEADERS :: "ustr list" where
  "SINGLE_VALUE_HEADERS =
     [str ''authorization'', str ''content-length'', str ''content-type'', str ''host'',
      str ''mcp-protocol-version'', str ''origin'', str ''transfer-encoding'', str ''x-portmate-mcp-token'']"

definition is_single_value_http_header :: "ustr \<Rightarrow> bool" where
  "is_single_value_http_header name \<longleftrightarrow> name \<in> set SINGLE_VALUE_HEADERS"

definition insert_http_header :: "headers \<Rightarrow> ustr \<Rightarrow> ustr \<Rightarrow> HttpError + headers" where
  "insert_http_header headers name v =
     (let name = to_ascii_lowercase name; v = trim v
      in case headers name of
           Some existing \<Rightarrow>
             if is_single_value_http_header name then Inl (DuplicateHeader name)
             else Inr (headers(name \<mapsto> existing @ str '', '' @ v))
         | None \<Rightarrow> Inr (headers(name \<mapsto> v)))"

fun insert_http_headers :: "headers \<Rightarrow> (ustr \<times> u8 list) list \<Rightarrow> HttpError + headers" where
  "insert_http_headers headers [] = Inr headers"
| "insert_http_headers headers ((name, bytes) # rest) =
     (case from_utf8 bytes of
        None \<Rightarrow> Inl (HeaderNotUtf8 name)
      | Some v \<Rightarrow> and_then (insert_http_header headers name v) (\<lambda>headers. insert_http_headers headers rest))"

definition parse_http_head ::
  "(u8 list \<Rightarrow> parse_status) \<Rightarrow> u8 list \<Rightarrow> nat \<Rightarrow> HttpError + (ustr \<times> ustr \<times> headers)" where
  "parse_http_head httparse raw body_start =
     (case httparse (take body_start raw) of
        ParseFailed \<Rightarrow> Inl InvalidHeaders
      | Partial \<Rightarrow> Inl IncompleteHeaders
      | Complete parsed \<Rightarrow>
          if pr_bytes parsed \<noteq> body_start then Inl BytesAfterHeaders
          else
            and_then (ok_or MissingMethod (pr_method parsed)) (\<lambda>method.
            and_then (ok_or MissingPath (pr_path parsed)) (\<lambda>path.
            and_then (ensure (pr_version parsed \<noteq> None) MissingVersion) (\<lambda>_.
            and_then (insert_http_headers Map.empty (pr_headers parsed)) (\<lambda>headers.
              Inr (method, path, headers))))))"

section \<open>A body with a length\<close>

function read_declared_body :: "nat \<Rightarrow> u8 list \<Rightarrow> stream \<Rightarrow> stream \<times> (HttpError + u8 list)" where
  "read_declared_body content_length body stream =
     (if content_length \<le> length body then (stream, Inr body)
      else
        (case read_stream_chunk (min (content_length - length body) BUFFER_BYTES) stream of
           (stream, Inl e) \<Rightarrow> (stream, Inl e)
         | (stream, Inr bytes) \<Rightarrow>
             if bytes = [] then (stream, Inl ClosedBeforeBody)
             else read_declared_body content_length (body @ bytes) stream))"
  by pat_completeness auto
termination
  by (relation "measure (\<lambda>(content_length, body, stream). stream_size stream)")
     (auto dest: read_stream_shrinks [OF sym])

declare read_declared_body.simps [simp del]

definition read_http_content_length_body ::
  "nat \<Rightarrow> nat \<Rightarrow> u8 list \<Rightarrow> stream \<Rightarrow> stream \<times> (HttpError + u8 list)" where
  "read_http_content_length_body max_body_bytes content_length initial_body stream =
     (if max_body_bytes < content_length then (stream, Inl BodyTooLarge)
      else if content_length < length initial_body then (stream, Inl BytesAfterBody)
      else read_declared_body content_length initial_body stream)"

section \<open>A body in chunks\<close>

text \<open>
  What has been read of the encoded body, how far it is decoded and the bytes spent on framing.
\<close>

record chunk_state =
  ck_encoded :: "u8 list"
  ck_position :: nat
  ck_framing :: nat
  ck_stream :: stream

definition chunk_read_length :: "u8 list \<Rightarrow> nat \<Rightarrow> nat" where
  "chunk_read_length encoded position =
     min (unat ((65537 :: u64) - of_nat (length encoded) + of_nat position)) BUFFER_BYTES"

function read_http_chunk_line :: "chunk_state \<Rightarrow> chunk_state \<times> (HttpError + u8 list)" where
  "read_http_chunk_line st =
     (let encoded = ck_encoded st; position = ck_position st
      in case find_window [13, 10] (drop position encoded) of
           Some line_end \<Rightarrow>
             (let framing = ck_framing st + line_end + 2;
                  st = st\<lparr>ck_position := position + line_end + 2, ck_framing := framing\<rparr>
              in if MAX_HTTP_CHUNK_FRAMING_BYTES < framing then (st, Inl ChunkFramingTooLong)
                 else (st, Inr (take line_end (drop position encoded))))
         | None \<Rightarrow>
             if MAX_HTTP_CHUNK_FRAMING_BYTES \<le> length encoded - position then (st, Inl ChunkFramingTooLong)
             else
               (case read_stream_chunk (chunk_read_length encoded position) (ck_stream st) of
                  (stream, Inl e) \<Rightarrow> (st\<lparr>ck_stream := stream\<rparr>, Inl e)
                | (stream, Inr bytes) \<Rightarrow>
                    if bytes = [] then (st\<lparr>ck_stream := stream\<rparr>, Inl ClosedBeforeFraming)
                    else read_http_chunk_line (st\<lparr>ck_stream := stream, ck_encoded := encoded @ bytes\<rparr>)))"
  by pat_completeness auto
termination
  by (relation "measure (\<lambda>st. stream_size (ck_stream st))") (auto dest: read_stream_shrinks [OF sym])

declare read_http_chunk_line.simps [simp del]

function ensure_http_chunk_bytes :: "nat \<Rightarrow> chunk_state \<Rightarrow> chunk_state \<times> (HttpError + unit)" where
  "ensure_http_chunk_bytes needed st =
     (let available = length (ck_encoded st) - ck_position st
      in if needed \<le> available then (st, Inr ())
         else
           (case read_stream_chunk (min (needed - available) BUFFER_BYTES) (ck_stream st) of
              (stream, Inl e) \<Rightarrow> (st\<lparr>ck_stream := stream\<rparr>, Inl e)
            | (stream, Inr bytes) \<Rightarrow>
                if bytes = [] then (st\<lparr>ck_stream := stream\<rparr>, Inl ClosedBeforeChunk)
                else ensure_http_chunk_bytes needed
                       (st\<lparr>ck_stream := stream, ck_encoded := ck_encoded st @ bytes\<rparr>)))"
  by pat_completeness auto
termination
  by (relation "measure (\<lambda>(needed, st). stream_size (ck_stream st))") (auto dest: read_stream_shrinks [OF sym])

declare ensure_http_chunk_bytes.simps [simp del]

definition byte_char :: "u8 \<Rightarrow> uchar" where
  "byte_char b = unat b"

definition is_ascii_control_byte :: "u8 \<Rightarrow> bool" where
  "is_ascii_control_byte b \<longleftrightarrow> b < 32 \<or> b = 127"

definition is_http_token_byte :: "u8 \<Rightarrow> bool" where
  "is_http_token_byte byte \<longleftrightarrow>
     is_ascii_alphanumeric (byte_char byte) \<or> byte_char byte \<in> set (str ''!#$%&'' @ [39] @ str ''*+-.^_`|~'')"

text \<open>The number of a text of hexadecimal digits.\<close>

definition hexdigit_value :: "uchar \<Rightarrow> nat" where
  "hexdigit_value c = (if is_ascii_digit c then c - 48 else if is_ascii_lower c then c - 87 else c - 55)"

definition hex_number :: "ustr \<Rightarrow> nat" where
  "hex_number digits = foldl (\<lambda>n c. 16 * n + hexdigit_value c) 0 digits"

definition chunk_size :: "u8 list \<Rightarrow> HttpError + nat" where
  "chunk_size line =
     (let size_bytes = takeWhile (\<lambda>b. b \<noteq> 59) line;
          rest = dropWhile (\<lambda>b. b \<noteq> 59) line
      in if size_bytes = [] \<or> \<not> list_all (\<lambda>b. is_ascii_hexdigit (byte_char b)) size_bytes then Inl BadChunkSize
         else if rest \<noteq> [] \<and> (tl rest = [] \<or> list_ex (\<lambda>b. 128 \<le> b \<or> is_ascii_control_byte b) (tl rest))
         then Inl BadChunkExtension
         else
           let n = hex_number (map byte_char size_bytes)
           in if 2 ^ 64 \<le> n then Inl BadChunkSize else Inr n)"

definition trailer_ok :: "u8 list \<Rightarrow> bool" where
  "trailer_ok line \<longleftrightarrow>
     (let name = takeWhile (\<lambda>b. b \<noteq> 58) line;
          rest = dropWhile (\<lambda>b. b \<noteq> 58) line
      in rest \<noteq> [] \<and> name \<noteq> [] \<and> list_all is_http_token_byte name \<and>
         \<not> is_single_value_http_header (to_ascii_lowercase (map byte_char name)) \<and>
         \<not> list_ex (\<lambda>b. b \<noteq> 9 \<and> (is_ascii_control_byte b \<or> b = 127)) (tl rest))"

text \<open>At most 128 trailers: \<open>left\<close> is how many more are allowed.\<close>

fun read_http_chunk_trailers :: "nat \<Rightarrow> chunk_state \<Rightarrow> chunk_state \<times> (HttpError + unit)" where
  "read_http_chunk_trailers left st =
     (case read_http_chunk_line st of
        (st, Inl e) \<Rightarrow> (st, Inl e)
      | (st, Inr line) \<Rightarrow>
          if line = [] then (st, Inr ())
          else
            (case left of
               0 \<Rightarrow> (st, Inl TooManyTrailers)
             | Suc left \<Rightarrow>
                 if trailer_ok line then read_http_chunk_trailers left st else (st, Inl BadChunkTrailer)))"

declare read_http_chunk_trailers.simps [simp del]

text \<open>One turn of the loop: the end of the body, or the data of a chunk.\<close>

datatype chunk_step = ChunkStop "HttpError + unit" | ChunkData "u8 list"

definition read_http_chunk :: "nat \<Rightarrow> chunk_state \<Rightarrow> chunk_state \<times> chunk_step" where
  "read_http_chunk room st =
     (case read_http_chunk_line st of
        (st, Inl e) \<Rightarrow> (st, ChunkStop (Inl e))
      | (st, Inr line) \<Rightarrow>
          (case chunk_size line of
             Inl e \<Rightarrow> (st, ChunkStop (Inl e))
           | Inr n \<Rightarrow>
               if room < n then (st, ChunkStop (Inl BodyTooLarge))
               else if n = 0 then
                 (case read_http_chunk_trailers MAX_HTTP_HEADERS st of
                    (st, Inl e) \<Rightarrow> (st, ChunkStop (Inl e))
                  | (st, Inr _) \<Rightarrow>
                      (st, ChunkStop (if ck_position st \<noteq> length (ck_encoded st) then Inl BytesAfterChunkedBody
                                      else Inr ())))
               else
                 (case ensure_http_chunk_bytes (n + 2) st of
                    (st, Inl e) \<Rightarrow> (st, ChunkStop (Inl e))
                  | (st, Inr _) \<Rightarrow>
                      let chunk_end = ck_position st + n
                      in if take 2 (drop chunk_end (ck_encoded st)) \<noteq> [13, 10]
                         then (st, ChunkStop (Inl ChunkNotTerminated))
                         else
                           let data = take n (drop (ck_position st) (ck_encoded st));
                               framing = ck_framing st + 2;
                               st = st\<lparr>ck_position := chunk_end + 2, ck_framing := framing\<rparr>
                           in if MAX_HTTP_CHUNK_FRAMING_BYTES < framing then (st, ChunkStop (Inl ChunkFramingTooLong))
                              else (st, ChunkData data))))"

text \<open>The cases of reading a line.\<close>

lemma chunk_line_found:
  "find_window [13, 10] (drop (ck_position st) (ck_encoded st)) = Some n \<Longrightarrow>
   read_http_chunk_line st =
     (st\<lparr>ck_position := ck_position st + n + 2, ck_framing := ck_framing st + n + 2\<rparr>,
      if MAX_HTTP_CHUNK_FRAMING_BYTES < ck_framing st + n + 2 then Inl ChunkFramingTooLong
      else Inr (take n (drop (ck_position st) (ck_encoded st))))"
  by (subst read_http_chunk_line.simps) (simp add: Let_def)

lemma chunk_line_cases:
  assumes "find_window [13, 10] (drop (ck_position st) (ck_encoded st)) = None"
  obtains e st' where "read_http_chunk_line st = (st', Inl e)"
  | stream bytes where
      "read_stream_chunk (chunk_read_length (ck_encoded st) (ck_position st)) (ck_stream st) = (stream, Inr bytes)"
      "bytes \<noteq> []"
      "read_http_chunk_line st =
         read_http_chunk_line (st\<lparr>ck_stream := stream, ck_encoded := ck_encoded st @ bytes\<rparr>)"
proof -
  obtain stream r where r:
    "read_stream_chunk (chunk_read_length (ck_encoded st) (ck_position st)) (ck_stream st) = (stream, r)"
    by (cases "read_stream_chunk (chunk_read_length (ck_encoded st) (ck_position st)) (ck_stream st)")
  note unfold = read_http_chunk_line.simps [of st, unfolded Let_def assms option.case r prod.case]
  show thesis
  proof (cases "MAX_HTTP_CHUNK_FRAMING_BYTES \<le> length (ck_encoded st) - ck_position st")
    case True
    then show thesis using that(1) unfold by simp
  next
    case False
    then show thesis
      using that unfold r by (cases r) (auto split: if_splits)
  qed
qed

lemma chunk_line_framing:
  "read_http_chunk_line st = (st', Inr line) \<Longrightarrow> ck_framing st' = ck_framing st + length line + 2 \<and>
     ck_framing st' \<le> MAX_HTTP_CHUNK_FRAMING_BYTES"
proof (induction "stream_size (ck_stream st)" arbitrary: st rule: less_induct)
  case less
  show ?case
  proof (cases "find_window [13, 10] (drop (ck_position st) (ck_encoded st))")
    case (Some n)
    then have "n < length (drop (ck_position st) (ck_encoded st))" by (rule find_window_less)
    then show ?thesis using less.prems chunk_line_found [OF Some] by (auto split: if_splits)
  next
    case None
    then show ?thesis
    proof (cases rule: chunk_line_cases)
      case 1
      then show ?thesis using less.prems by simp
    next
      case (2 stream bytes)
      then show ?thesis
        using less.hyps [of "st\<lparr>ck_stream := stream, ck_encoded := ck_encoded st @ bytes\<rparr>"] less.prems
          read_stream_shrinks [OF 2(1,2)] by simp
    qed
  qed
qed

lemma ensure_bytes_framing:
  "ensure_http_chunk_bytes needed st = (st', r) \<Longrightarrow> ck_framing st' = ck_framing st \<and> ck_position st' = ck_position st"
proof (induction needed st rule: ensure_http_chunk_bytes.induct)
  case (1 needed st)
  then show ?case
    by (subst (asm) (2) ensure_http_chunk_bytes.simps) (auto simp add: Let_def split: if_splits prod.splits sum.splits)
qed

lemma read_chunk_framing:
  assumes "read_http_chunk room st = (st', ChunkData data)"
  shows "ck_framing st < ck_framing st' \<and> ck_framing st' \<le> MAX_HTTP_CHUNK_FRAMING_BYTES"
proof -
  obtain st1 r1 where 1: "read_http_chunk_line st = (st1, r1)" by (cases "read_http_chunk_line st")
  then obtain line where r1: "r1 = Inr line" using assms by (cases r1) (simp_all add: read_http_chunk_def)
  obtain n where n: "chunk_size line = Inr n" using assms 1 r1 by (cases "chunk_size line") (simp_all add: read_http_chunk_def)
  obtain st2 r2 where 2: "ensure_http_chunk_bytes (n + 2) st1 = (st2, r2)" by (cases "ensure_http_chunk_bytes (n + 2) st1")
  have "ck_framing st < ck_framing st2"
    using chunk_line_framing [of st st1 line] 1 r1 ensure_bytes_framing [OF 2] by simp
  then show ?thesis
    using assms unfolding read_http_chunk_def 1 prod.case r1 sum.case n 2 Let_def
    by (cases r2) (auto split: if_splits prod.splits sum.splits)
qed

function read_http_chunks :: "nat \<Rightarrow> u8 list \<Rightarrow> chunk_state \<Rightarrow> chunk_state \<times> (HttpError + u8 list)" where
  "read_http_chunks max_body_bytes body st =
     (case read_http_chunk (max_body_bytes - length body) st of
        (st, ChunkStop (Inl e)) \<Rightarrow> (st, Inl e)
      | (st, ChunkStop (Inr _)) \<Rightarrow> (st, Inr body)
      | (st, ChunkData data) \<Rightarrow> read_http_chunks max_body_bytes (body @ data) st)"
  by pat_completeness auto
termination
  by (relation "measure (\<lambda>(max_body_bytes, body, st). MAX_HTTP_CHUNK_FRAMING_BYTES + 1 - ck_framing st)")
     (auto dest: read_chunk_framing [OF sym])

declare read_http_chunks.simps [simp del]

definition read_http_chunked_body :: "nat \<Rightarrow> u8 list \<Rightarrow> stream \<Rightarrow> stream \<times> (HttpError + u8 list)" where
  "read_http_chunked_body max_body_bytes initial_body stream =
     (case read_http_chunks max_body_bytes []
             \<lparr>ck_encoded = initial_body, ck_position = 0, ck_framing = 0, ck_stream = stream\<rparr> of
        (st, r) \<Rightarrow> (ck_stream st, r))"

section \<open>A request\<close>

definition eq_ignore_ascii_case :: "ustr \<Rightarrow> ustr \<Rightarrow> bool" where
  "eq_ignore_ascii_case a b \<longleftrightarrow> to_ascii_lowercase a = to_ascii_lowercase b"

definition read_http_body :: "nat \<Rightarrow> headers \<Rightarrow> u8 list \<Rightarrow> stream \<Rightarrow> stream \<times> (HttpError + u8 list)" where
  "read_http_body max_body_bytes headers initial_body stream =
     (case headers (str ''transfer-encoding'') of
        Some transfer_encoding \<Rightarrow>
          if headers (str ''content-length'') \<noteq> None then (stream, Inl BothLengthAndEncoding)
          else if \<not> eq_ignore_ascii_case transfer_encoding (str ''chunked'') then (stream, Inl UnsupportedTransferEncoding)
          else read_http_chunked_body max_body_bytes initial_body stream
      | None \<Rightarrow>
          (case (case headers (str ''content-length'') of
                   None \<Rightarrow> Some 0 | Some v \<Rightarrow> parse_unsigned (2 ^ 64 - 1) v) of
             None \<Rightarrow> (stream, Inl BadContentLength)
           | Some content_length \<Rightarrow>
               read_http_content_length_body max_body_bytes content_length initial_body stream))"

definition read_http_request_with_body_limit ::
  "(u8 list \<Rightarrow> parse_status) \<Rightarrow> (ustr \<Rightarrow> ustr \<Rightarrow> headers \<Rightarrow> HttpError + nat) \<Rightarrow> stream
     \<Rightarrow> stream \<times> (HttpError + HttpRequest)" where
  "read_http_request_with_body_limit httparse body_limit stream =
     (case read_http_head [] stream of
        (stream, Inl e) \<Rightarrow> (stream, Inl e)
      | (stream, Inr (raw, header_end)) \<Rightarrow>
          let body_start = header_end + 4
          in case parse_http_head httparse raw body_start of
               Inl e \<Rightarrow> (stream, Inl e)
             | Inr (method, path, headers) \<Rightarrow>
                 (case body_limit method path headers of
                    Inl e \<Rightarrow> (stream, Inl e)
                  | Inr limit \<Rightarrow>
                      (case read_http_body (min limit MAX_HTTP_BODY_BYTES) headers (drop body_start raw) stream of
                         (stream, Inl e) \<Rightarrow> (stream, Inl e)
                       | (stream, Inr body) \<Rightarrow>
                           (stream, Inr \<lparr>hr_method = method, hr_path = path, hr_headers = headers, hr_body = body\<rparr>))))"

section \<open>Streams that deliver\<close>

text \<open>The bytes a stream of non-empty pieces will deliver.\<close>

definition flatten :: "stream \<Rightarrow> u8 list" where
  "flatten stream = concat (map (\<lambda>r. case r of Inl _ \<Rightarrow> [] | Inr piece \<Rightarrow> piece) stream)"

definition delivers :: "stream \<Rightarrow> bool" where
  "delivers stream = list_all (\<lambda>r. case r of Inl _ \<Rightarrow> False | Inr piece \<Rightarrow> piece \<noteq> []) stream"

lemma flatten_simps [simp]:
  "flatten [] = []" "flatten (Inr piece # stream) = piece @ flatten stream" "flatten (Inl e # stream) = flatten stream"
  by (simp_all add: flatten_def)

lemma delivers_simps [simp]:
  "delivers []" "delivers (Inr piece # stream) \<longleftrightarrow> piece \<noteq> [] \<and> delivers stream" "\<not> delivers (Inl e # stream)"
  by (simp_all add: delivers_def)

lemma read_stream_delivers:
  assumes "delivers stream" "0 < n" "flatten stream \<noteq> []"
  obtains stream' bytes where "read_stream_chunk n stream = (stream', Inr bytes)" "bytes \<noteq> []"
    "flatten stream = bytes @ flatten stream'" "delivers stream'"
proof (cases "(n, stream)" rule: read_stream_chunk.cases)
  case (3 n' piece rest)
  then show thesis using that assms by (cases "length piece \<le> n") auto
qed (use assms in auto)

definition pending :: "chunk_state \<Rightarrow> u8 list" where
  "pending st = drop (ck_position st) (ck_encoded st) @ flatten (ck_stream st)"

definition chunk_ok :: "chunk_state \<Rightarrow> bool" where
  "chunk_ok st \<longleftrightarrow>
     delivers (ck_stream st) \<and> ck_position st \<le> length (ck_encoded st) \<and>
     length (ck_encoded st) + length (flatten (ck_stream st)) < 2 ^ 64"

text \<open>The wrapping subtraction gives the room that is left, although an intermediate result is negative.\<close>

lemma chunk_read_length_eq:
  assumes "position \<le> length encoded" "length encoded < 2 ^ 64" "length encoded - position < 65536"
  shows "chunk_read_length encoded position = min (65537 - (length encoded - position)) BUFFER_BYTES"
proof -
  let ?d = "length encoded - position"
  have split: "length encoded = ?d + position" using assms(1) by simp
  have "(of_nat (length encoded) :: u64) = of_nat ?d + of_nat position" by (subst split) simp
  then have w: "(65537 :: u64) - of_nat (length encoded) + of_nat position = of_nat (65537 - ?d)"
    using assms(3) by (simp add: of_nat_diff)
  have "unat (of_nat (65537 - ?d) :: u64) = 65537 - ?d" by (simp add: unat_of_nat)
  then show ?thesis by (simp only: chunk_read_length_def w)
qed

lemma find_crlf_append:
  "find_window [13, 10] xs = Some n \<Longrightarrow> find_window [13, 10] (xs @ ys) = Some n"
proof (induction xs arbitrary: n)
  case (Cons x xs)
  show ?case
  proof (cases xs)
    case Nil
    then show ?thesis using Cons.prems by (simp split: if_splits)
  next
    case (Cons y zs)
    then show ?thesis using Cons.prems Cons.IH by (auto split: if_splits)
  qed
qed simp

lemma find_crlf_line: "13 \<notin> set line \<Longrightarrow> find_window [13, 10] (line @ 13 # 10 # rest) = Some (length line)"
  by (induction line) auto

lemma find_crlf_None:
  assumes "find_window [13, 10] xs = None" "xs @ ys = line @ 13 # 10 # rest" "13 \<notin> set line"
  shows "length xs < length line + 2"
proof (rule ccontr)
  assume "\<not> length xs < length line + 2"
  then have "take (length line + 2) xs = take (length line + 2) (xs @ ys)" by simp
  also have "\<dots> = line @ [13, 10]" unfolding assms(2) by simp
  finally have "xs = (line @ [13, 10]) @ drop (length line + 2) xs" by (metis append_take_drop_id)
  then have "find_window [13, 10] xs = Some (length line)"
    using find_crlf_line [OF assms(3)] by (metis append.assoc append_Cons append_Nil)
  then show False using assms(1) by simp
qed

lemma prefix_parts:
  assumes "xs @ ys = a @ b" "length a \<le> length xs"
  shows "take (length a) xs = a" "drop (length a) xs @ ys = b"
  using assms by (auto simp add: append_eq_append_conv_if split: if_splits)

lemma read_line_delivers:
  assumes "chunk_ok st" "pending st = line @ [13, 10] @ rest" "13 \<notin> set line"
    and "ck_framing st + length line + 2 \<le> MAX_HTTP_CHUNK_FRAMING_BYTES"
  shows "\<exists>st'. read_http_chunk_line st = (st', Inr line) \<and> chunk_ok st' \<and> pending st' = rest \<and>
    ck_framing st' = ck_framing st + length line + 2"
  using assms
proof (induction "stream_size (ck_stream st)" arbitrary: st rule: less_induct)
  case less
  let ?xs = "drop (ck_position st) (ck_encoded st)"
  have whole: "?xs @ flatten (ck_stream st) = line @ 13 # 10 # rest" using less.prems(2) by (simp add: pending_def)
  show ?case
  proof (cases "find_window [13, 10] ?xs")
    case (Some n)
    have "find_window [13, 10] (?xs @ flatten (ck_stream st)) = Some n" using find_crlf_append [OF Some] .
    then have n: "n = length line" unfolding whole using find_crlf_line [OF less.prems(3)] by simp
    have "take 2 (drop n ?xs) = [13, 10]" using find_window_match [OF Some] by (simp add: numeral_2_eq_2)
    then have "2 \<le> length (drop n ?xs)" by (metis length_Cons length_take list.size(3) min.cobounded1 numeral_2_eq_2)
    then have "n + 2 \<le> length ?xs" by simp
    then have "take n ?xs = line" "drop (n + 2) ?xs @ flatten (ck_stream st) = rest"
      using prefix_parts [of ?xs "flatten (ck_stream st)" line "13 # 10 # rest"]
        prefix_parts(2) [of ?xs "flatten (ck_stream st)" "line @ [13, 10]" rest] whole n by simp_all
    then show ?thesis
      using less.prems(1,4) n \<open>n + 2 \<le> length ?xs\<close>
      by (auto simp add: chunk_line_found [OF Some] pending_def chunk_ok_def add.commute add.left_commute)
  next
    case None
    have short: "length ?xs < length line + 2" by (rule find_crlf_None [OF None whole less.prems(3)])
    have "length (?xs @ flatten (ck_stream st)) = length line + 2 + length rest" unfolding whole by simp
    then have flat: "flatten (ck_stream st) \<noteq> []" using short by auto
    have "chunk_read_length (ck_encoded st) (ck_position st) = min (65537 - length ?xs) BUFFER_BYTES"
      using chunk_read_length_eq [of "ck_position st" "ck_encoded st"] short less.prems(1,4) by (simp add: chunk_ok_def)
    moreover have "length ?xs < 65536" using short less.prems(4) by linarith
    ultimately have pos: "0 < chunk_read_length (ck_encoded st) (ck_position st)" by simp
    obtain stream bytes where read:
      "read_stream_chunk (chunk_read_length (ck_encoded st) (ck_position st)) (ck_stream st) = (stream, Inr bytes)"
      "bytes \<noteq> []" "flatten (ck_stream st) = bytes @ flatten stream" "delivers stream"
      using read_stream_delivers [OF _ pos flat] less.prems(1) by (auto simp add: chunk_ok_def)
    let ?st = "st\<lparr>ck_stream := stream, ck_encoded := ck_encoded st @ bytes\<rparr>"
    have "read_http_chunk_line st = read_http_chunk_line ?st"
      using read(1,2) None \<open>length ?xs < 65536\<close> by (subst read_http_chunk_line.simps) (simp add: Let_def)
    moreover have "chunk_ok ?st" "pending ?st = line @ [13, 10] @ rest"
      using less.prems(1,2) read(3,4) by (auto simp add: chunk_ok_def pending_def)
    ultimately show ?thesis
      using less.hyps [of ?st] read_stream_shrinks [OF read(1,2)] less.prems(3,4) by simp
  qed
qed

lemma ensure_delivers:
  assumes "chunk_ok st" "needed \<le> length (pending st)"
  shows "\<exists>st'. ensure_http_chunk_bytes needed st = (st', Inr ()) \<and> chunk_ok st' \<and> pending st' = pending st \<and>
    ck_position st' = ck_position st \<and> ck_framing st' = ck_framing st \<and>
    needed \<le> length (ck_encoded st') - ck_position st'"
  using assms
proof (induction "stream_size (ck_stream st)" arbitrary: st rule: less_induct)
  case less
  let ?n = "length (ck_encoded st) - ck_position st"
  show ?case
  proof (cases "needed \<le> ?n")
    case True
    then show ?thesis using less.prems(1) by (subst ensure_http_chunk_bytes.simps) simp
  next
    case False
    then have flat: "flatten (ck_stream st) \<noteq> []" "0 < min (needed - ?n) BUFFER_BYTES"
      using less.prems(2) by (auto simp add: pending_def)
    obtain stream bytes where read:
      "read_stream_chunk (min (needed - ?n) BUFFER_BYTES) (ck_stream st) = (stream, Inr bytes)"
      "bytes \<noteq> []" "flatten (ck_stream st) = bytes @ flatten stream" "delivers stream"
      using read_stream_delivers [OF _ flat(2,1)] less.prems(1) by (auto simp add: chunk_ok_def)
    let ?st = "st\<lparr>ck_stream := stream, ck_encoded := ck_encoded st @ bytes\<rparr>"
    have "ensure_http_chunk_bytes needed st = ensure_http_chunk_bytes needed ?st"
      using read(1,2) False by (subst ensure_http_chunk_bytes.simps) (simp add: Let_def)
    moreover have "chunk_ok ?st" "pending ?st = pending st"
      using less.prems(1) read(3,4) by (auto simp add: chunk_ok_def pending_def)
    ultimately show ?thesis
      using less.hyps [of ?st] read_stream_shrinks [OF read(1,2)] less.prems(2) by simp
  qed
qed

section \<open>Chunked encoding\<close>

lemma chunk_size_no_cr:
  assumes "chunk_size line = Inr n"
  shows "13 \<notin> set line"
proof
  assume "13 \<in> set line"
  let ?size = "takeWhile (\<lambda>b. b \<noteq> 59) line" and ?rest = "dropWhile (\<lambda>b. b \<noteq> 59) line"
  have hex: "list_all (\<lambda>b. is_ascii_hexdigit (byte_char b)) ?size"
    and ext: "?rest = [] \<or> \<not> list_ex (\<lambda>b. 128 \<le> b \<or> is_ascii_control_byte b) (tl ?rest)"
    using assms by (auto simp add: chunk_size_def Let_def split: if_splits)
  have "line = ?size @ ?rest" by simp
  then have "13 \<in> set ?size \<or> 13 \<in> set ?rest" using \<open>13 \<in> set line\<close> by (metis Un_iff set_append)
  then show False
  proof
    assume "13 \<in> set ?size"
    then have "is_ascii_hexdigit (byte_char 13)" using hex by (auto simp add: list_all_iff)
    then show False by (simp add: is_ascii_hexdigit_def is_ascii_digit_def byte_char_def)
  next
    assume in_rest: "13 \<in> set ?rest"
    then have rest: "?rest \<noteq> []" by (metis empty_iff list.set(1))
    then have "hd ?rest = 59" using hd_dropWhile [of "\<lambda>b. b \<noteq> 59" line] by simp
    then have "13 \<in> set (tl ?rest)" using in_rest by (cases ?rest) auto
    moreover have "\<not> list_ex (\<lambda>b. 128 \<le> b \<or> is_ascii_control_byte b) (tl ?rest)" using ext rest by blast
    ultimately show False by (auto simp add: list_ex_iff is_ascii_control_byte_def)
  qed
qed

lemma trailer_no_cr:
  assumes "trailer_ok line"
  shows "13 \<notin> set line" "line \<noteq> []"
proof -
  let ?name = "takeWhile (\<lambda>b. b \<noteq> 58) line" and ?rest = "dropWhile (\<lambda>b. b \<noteq> 58) line"
  have ok: "?rest \<noteq> []" "list_all is_http_token_byte ?name"
    "\<not> list_ex (\<lambda>b. b \<noteq> 9 \<and> (is_ascii_control_byte b \<or> b = 127)) (tl ?rest)"
    using assms by (auto simp add: trailer_ok_def Let_def)
  show "line \<noteq> []" using ok(1) by auto
  have "13 \<notin> set ?name"
    using ok(2) by (auto simp add: list_all_iff is_http_token_byte_def byte_char_def is_ascii_alphanumeric_def
        is_ascii_digit_def is_ascii_upper_def is_ascii_lower_def)
  moreover have "13 \<notin> set ?rest"
  proof
    assume in_rest: "13 \<in> set ?rest"
    have "hd ?rest = 58" using hd_dropWhile [OF ok(1)] by simp
    then have "13 \<in> set (tl ?rest)" using in_rest by (cases ?rest) auto
    then show False using ok(3) by (auto simp add: list_ex_iff is_ascii_control_byte_def)
  qed
  moreover have "line = ?name @ ?rest" by simp
  ultimately show "13 \<notin> set line" by (metis Un_iff set_append)
qed

text \<open>A chunk is its size line and its data; the body ends with a line for 0 and the trailers.\<close>

definition encode_chunk :: "u8 list \<times> u8 list \<Rightarrow> u8 list" where
  "encode_chunk c = fst c @ [13, 10] @ snd c @ [13, 10]"

definition encode_chunked :: "(u8 list \<times> u8 list) list \<Rightarrow> u8 list \<Rightarrow> u8 list list \<Rightarrow> u8 list" where
  "encode_chunked chunks last_line trailers =
     concat (map encode_chunk chunks) @ last_line @ [13, 10] @ concat (map (\<lambda>t. t @ [13, 10]) trailers) @ [13, 10]"

definition framing_of :: "(u8 list \<times> u8 list) list \<Rightarrow> u8 list \<Rightarrow> u8 list list \<Rightarrow> nat" where
  "framing_of chunks last_line trailers =
     sum_list (map (\<lambda>c. length (fst c) + 4) chunks) + length last_line + 2 +
     sum_list (map (\<lambda>t. length t + 2) trailers) + 2"

definition chunk_valid :: "u8 list \<times> u8 list \<Rightarrow> bool" where
  "chunk_valid c \<longleftrightarrow> chunk_size (fst c) = Inr (length (snd c)) \<and> snd c \<noteq> []"

lemma read_chunk_delivers:
  assumes "chunk_ok st" "pending st = encode_chunk c @ rest" "chunk_valid c" "length (snd c) \<le> room"
    and "ck_framing st + length (fst c) + 4 \<le> MAX_HTTP_CHUNK_FRAMING_BYTES"
  shows "\<exists>st'. read_http_chunk room st = (st', ChunkData (snd c)) \<and> chunk_ok st' \<and> pending st' = rest \<and>
    ck_framing st' = ck_framing st + length (fst c) + 4"
proof -
  let ?n = "length (snd c)" and ?tail = "snd c @ [13, 10] @ rest"
  have line: "chunk_size (fst c) = Inr ?n" "snd c \<noteq> []" using assms(3) by (simp_all add: chunk_valid_def)
  have "pending st = fst c @ [13, 10] @ ?tail" using assms(2) by (simp add: encode_chunk_def)
  moreover have "ck_framing st + length (fst c) + 2 \<le> MAX_HTTP_CHUNK_FRAMING_BYTES" using assms(5) by simp
  ultimately obtain st1 where 1: "read_http_chunk_line st = (st1, Inr (fst c))" "chunk_ok st1" "pending st1 = ?tail"
    "ck_framing st1 = ck_framing st + length (fst c) + 2"
    using read_line_delivers [OF assms(1) _ chunk_size_no_cr [OF line(1)]] by blast
  have "?n + 2 \<le> length (pending st1)" unfolding 1(3) by simp
  from ensure_delivers [OF 1(2) this] obtain st2 where 2: "ensure_http_chunk_bytes (?n + 2) st1 = (st2, Inr ())"
    "chunk_ok st2" "pending st2 = ?tail" "ck_framing st2 = ck_framing st1" "?n + 2 \<le> length (ck_encoded st2) - ck_position st2"
    using 1(3) by auto
  let ?xs = "drop (ck_position st2) (ck_encoded st2)"
  have xs: "?xs @ flatten (ck_stream st2) = snd c @ [13, 10] @ rest" "length (snd c) + 2 \<le> length ?xs"
    using 2(3,5) by (simp_all add: pending_def)
  have data: "take ?n ?xs = snd c" "drop ?n ?xs @ flatten (ck_stream st2) = [13, 10] @ rest"
    using prefix_parts [OF xs(1)] xs(2) by simp_all
  have crlf: "take 2 (drop ?n ?xs) = [13, 10]" "drop 2 (drop ?n ?xs) @ flatten (ck_stream st2) = rest"
    using prefix_parts [OF data(2)] xs(2) by (simp_all add: numeral_2_eq_2)
  have "read_http_chunk room st =
      (st2\<lparr>ck_position := ck_position st2 + ?n + 2, ck_framing := ck_framing st2 + 2\<rparr>, ChunkData (snd c))"
    using assms(4,5) line 1(1,4) 2(1,4) data(1) crlf(1)
    by (simp add: read_http_chunk_def Let_def add.commute)
  moreover have "chunk_ok (st2\<lparr>ck_position := ck_position st2 + ?n + 2, ck_framing := ck_framing st2 + 2\<rparr>)"
    using 2(2) xs(2) by (auto simp add: chunk_ok_def)
  moreover have "pending (st2\<lparr>ck_position := ck_position st2 + ?n + 2, ck_framing := ck_framing st2 + 2\<rparr>) = rest"
    using crlf(2) by (simp add: pending_def add.commute add.left_commute)
  ultimately show ?thesis using 1(4) 2(4) by simp
qed

lemma read_trailers_deliver:
  assumes "chunk_ok st" "pending st = concat (map (\<lambda>t. t @ [13, 10]) trailers) @ [13, 10] @ rest"
    and "list_all trailer_ok trailers" "length trailers \<le> n"
    and "ck_framing st + sum_list (map (\<lambda>t. length t + 2) trailers) + 2 \<le> MAX_HTTP_CHUNK_FRAMING_BYTES"
  shows "\<exists>st'. read_http_chunk_trailers n st = (st', Inr ()) \<and> chunk_ok st' \<and> pending st' = rest"
  using assms
proof (induction trailers arbitrary: st n)
  case Nil
  then obtain st' where "read_http_chunk_line st = (st', Inr [])" "chunk_ok st'" "pending st' = rest"
    using read_line_delivers [of st "[]" rest] by auto
  then show ?case by (subst read_http_chunk_trailers.simps) simp
next
  case (Cons t trailers)
  let ?tail = "concat (map (\<lambda>t. t @ [13, 10]) trailers) @ [13, 10] @ rest"
  have t: "13 \<notin> set t" "t \<noteq> []" using trailer_no_cr [of t] Cons.prems(3) by simp_all
  obtain m where n: "n = Suc m" "length trailers \<le> m" using Cons.prems(4) by (cases n) auto
  have "pending st = t @ [13, 10] @ ?tail" using Cons.prems(2) by simp
  moreover have "ck_framing st + length t + 2 \<le> MAX_HTTP_CHUNK_FRAMING_BYTES" using Cons.prems(5) by simp
  ultimately obtain st1 where 1: "read_http_chunk_line st = (st1, Inr t)" "chunk_ok st1" "pending st1 = ?tail"
    "ck_framing st1 = ck_framing st + length t + 2"
    using read_line_delivers [OF Cons.prems(1) _ t(1)] by blast
  then show ?case
    using Cons.IH [OF 1(2,3)] Cons.prems(3,5) t(2) n by (subst read_http_chunk_trailers.simps) simp
qed

lemma read_chunks_deliver:
  assumes "chunk_ok st" "pending st = encode_chunked chunks last_line trailers"
    and "list_all chunk_valid chunks" "chunk_size last_line = Inr 0"
    and "list_all trailer_ok trailers" "length trailers \<le> MAX_HTTP_HEADERS"
    and "length body + length (concat (map snd chunks)) \<le> max_body_bytes"
    and "ck_framing st + framing_of chunks last_line trailers \<le> MAX_HTTP_CHUNK_FRAMING_BYTES"
  shows "\<exists>st'. read_http_chunks max_body_bytes body st = (st', Inr (body @ concat (map snd chunks))) \<and>
    ck_stream st' = []"
  using assms(1,2,3,7,8)
proof (induction chunks arbitrary: st body)
  case Nil
  let ?tail = "concat (map (\<lambda>t. t @ [13, 10]) trailers) @ [13, 10] @ []"
  have framing: "ck_framing st + length last_line + 2 \<le> MAX_HTTP_CHUNK_FRAMING_BYTES"
    "ck_framing st + length last_line + 2 + sum_list (map (\<lambda>t. length t + 2) trailers) + 2 \<le> MAX_HTTP_CHUNK_FRAMING_BYTES"
    using Nil.prems(5) by (simp_all add: framing_of_def)
  have "pending st = last_line @ [13, 10] @ ?tail" using Nil.prems(2) by (simp add: encode_chunked_def)
  then obtain st1 where 1: "read_http_chunk_line st = (st1, Inr last_line)" "chunk_ok st1" "pending st1 = ?tail"
    "ck_framing st1 = ck_framing st + length last_line + 2"
    using read_line_delivers [OF Nil.prems(1) _ chunk_size_no_cr [OF assms(4)] framing(1)] by blast
  obtain st2 where 2: "read_http_chunk_trailers MAX_HTTP_HEADERS st1 = (st2, Inr ())" "chunk_ok st2" "pending st2 = []"
    using read_trailers_deliver [OF 1(2,3) assms(5,6)] framing(2) unfolding 1(4) by blast
  then have "ck_position st2 = length (ck_encoded st2)" and flat: "flatten (ck_stream st2) = []"
    by (auto simp add: pending_def chunk_ok_def)
  moreover have "ck_stream st2 = []"
    using 2(2) flat by (cases "ck_stream st2"; cases "hd (ck_stream st2)") (auto simp add: chunk_ok_def)
  ultimately have "read_http_chunk (max_body_bytes - length body) st = (st2, ChunkStop (Inr ()))"
    using 1(1) 2(1) assms(4) by (simp add: read_http_chunk_def)
  then show ?case using \<open>ck_stream st2 = []\<close> by (subst read_http_chunks.simps) simp
next
  case (Cons c chunks)
  have "pending st = encode_chunk c @ encode_chunked chunks last_line trailers"
    using Cons.prems(2) by (simp add: encode_chunked_def)
  moreover have "chunk_valid c" "length (snd c) \<le> max_body_bytes - length body"
    "ck_framing st + length (fst c) + 4 \<le> MAX_HTTP_CHUNK_FRAMING_BYTES"
    using Cons.prems(3,4,5) by (simp_all add: framing_of_def)
  ultimately obtain st1 where 1: "read_http_chunk (max_body_bytes - length body) st = (st1, ChunkData (snd c))"
    "chunk_ok st1" "pending st1 = encode_chunked chunks last_line trailers"
    "ck_framing st1 = ck_framing st + length (fst c) + 4"
    using read_chunk_delivers [OF Cons.prems(1)] by blast
  have "\<exists>st'. read_http_chunks max_body_bytes (body @ snd c) st1 =
      (st', Inr ((body @ snd c) @ concat (map snd chunks))) \<and> ck_stream st' = []"
    using Cons.prems(3,4,5) 1(4) by (intro Cons.IH [OF 1(2,3)]) (simp_all add: framing_of_def)
  then show ?case using 1(1) by (subst read_http_chunks.simps) simp
qed

section \<open>Properties\<close>



lemma read_chunk_data:
  assumes "read_http_chunk room st = (st', ChunkData data)"
  shows "length data \<le> room"
  using assms unfolding read_http_chunk_def
  by (auto simp add: Let_def split: prod.splits sum.splits if_splits)

lemma read_chunks_bounded:
  "read_http_chunks max_body_bytes body st = (st', Inr result) \<Longrightarrow> length body \<le> max_body_bytes \<Longrightarrow>
   length result \<le> max_body_bytes"
proof (induction max_body_bytes body st rule: read_http_chunks.induct)
  case (1 max_body_bytes body st)
  obtain st1 r where r: "read_http_chunk (max_body_bytes - length body) st = (st1, r)"
    by (cases "read_http_chunk (max_body_bytes - length body) st")
  show ?case
  proof (cases r)
    case (ChunkStop s)
    then show ?thesis
      using "1.prems" r by (cases s) (simp_all add: read_http_chunks.simps [of max_body_bytes body st])
  next
    case (ChunkData data)
    then show ?thesis
      using "1.prems" "1.IH" [OF r [symmetric]] r read_chunk_data [of "max_body_bytes - length body" st st1 data]
      by (simp add: read_http_chunks.simps [of max_body_bytes body st])
  qed
qed

lemma read_declared_bounded:
  "read_declared_body n body stream = (stream', Inr result) \<Longrightarrow> length body \<le> n \<Longrightarrow> length result = n"
proof (induction n body stream rule: read_declared_body.induct)
  case (1 n body stream)
  show ?case
  proof (cases "n \<le> length body")
    case True
    then have "read_declared_body n body stream = (stream, Inr body)" by (subst read_declared_body.simps) simp
    then show ?thesis using "1.prems" True by simp
  next
    case False
    obtain stream1 r where r: "read_stream_chunk (min (n - length body) BUFFER_BYTES) stream = (stream1, r)"
      by (cases "read_stream_chunk (min (n - length body) BUFFER_BYTES) stream")
    then obtain bytes where bytes: "r = Inr bytes" "bytes \<noteq> []"
      "read_declared_body n (body @ bytes) stream1 = (stream', Inr result)"
      using "1.prems"(1) False
      by (cases r) (auto simp add: read_declared_body.simps [of n body stream] split: if_splits)
    have "length bytes \<le> min (n - length body) BUFFER_BYTES" using read_stream_length [OF r [unfolded bytes(1)]] .
    then have "length (body @ bytes) \<le> n" using False by (simp add: le_diff_conv2)
    then show ?thesis by (rule "1.IH" [OF False r [symmetric] bytes(1,2,3)])
  qed
qed

text \<open>
  The body of a request never exceeds the limit that its head was given, nor 6 MiB, and a
  declared length is met exactly: whatever arrives, a request that is read has a body of the
  declared length, or of at most the limit when it is chunked.
\<close>

theorem http_body_bounded:
  assumes "read_http_request_with_body_limit httparse body_limit stream = (stream', Inr request)"
  shows "\<exists>limit. body_limit (hr_method request) (hr_path request) (hr_headers request) = Inr limit \<and>
    length (hr_body request) \<le> min limit 6291456 \<and>
    (hr_headers request (str ''transfer-encoding'') = None \<longrightarrow>
       (case hr_headers request (str ''content-length'') of
          None \<Rightarrow> hr_body request = []
        | Some v \<Rightarrow> parse_unsigned (2 ^ 64 - 1) v = Some (length (hr_body request))))"
proof -
  obtain stream1 raw header_end where 1: "read_http_head [] stream = (stream1, Inr (raw, header_end))"
    using assms
    by (cases "read_http_head [] stream"; cases "snd (read_http_head [] stream)")
       (auto simp add: read_http_request_with_body_limit_def)
  let ?start = "header_end + 4"
  obtain verb path headers where 2: "parse_http_head httparse raw ?start = Inr (verb, path, headers)"
    using assms 1
    by (cases "parse_http_head httparse raw ?start") (auto simp add: read_http_request_with_body_limit_def)
  obtain limit where 3: "body_limit verb path headers = Inr limit"
    using assms 1 2
    by (cases "body_limit verb path headers") (auto simp add: read_http_request_with_body_limit_def)
  let ?body = "read_http_body (min limit MAX_HTTP_BODY_BYTES) headers (drop ?start raw) stream1"
  obtain body where 4: "?body = (stream', Inr body)"
    "request = \<lparr>hr_method = verb, hr_path = path, hr_headers = headers, hr_body = body\<rparr>"
    using assms 1 2 3
    by (cases ?body; cases "snd ?body") (auto simp add: read_http_request_with_body_limit_def)
  have "length body \<le> min limit MAX_HTTP_BODY_BYTES \<and>
      (headers (str ''transfer-encoding'') = None \<longrightarrow>
        (case headers (str ''content-length'') of
           None \<Rightarrow> body = [] | Some v \<Rightarrow> parse_unsigned (2 ^ 64 - 1) v = Some (length body)))"
  proof (cases "headers (str ''transfer-encoding'')")
    case None
    then obtain n where n: "(case headers (str ''content-length'') of
        None \<Rightarrow> Some 0 | Some v \<Rightarrow> parse_unsigned (2 ^ 64 - 1) v) = Some n"
      "n \<le> min limit MAX_HTTP_BODY_BYTES" "length (drop ?start raw) \<le> n"
      "read_declared_body n (drop ?start raw) stream1 = (stream', Inr body)"
      using 4(1) unfolding read_http_body_def read_http_content_length_body_def
      by (cases "case headers (str ''content-length'') of
        None \<Rightarrow> Some 0 | Some v \<Rightarrow> parse_unsigned (2 ^ 64 - 1) v") (auto simp add: not_less split: if_splits)
    then have "length body = n" using read_declared_bounded by blast
    then show ?thesis using n(1,2) by (cases "headers (str ''content-length'')") auto
  next
    case (Some encoding)
    then obtain st where "read_http_chunks (min limit MAX_HTTP_BODY_BYTES) []
        \<lparr>ck_encoded = drop ?start raw, ck_position = 0, ck_framing = 0, ck_stream = stream1\<rparr> = (st, Inr body)"
      using 4(1) unfolding read_http_body_def read_http_chunked_body_def by (auto split: if_splits prod.splits)
    then have "length body \<le> min limit MAX_HTTP_BODY_BYTES" by (rule read_chunks_bounded) simp
    then show ?thesis using Some by simp
  qed
  moreover have "hr_method request = verb" "hr_path request = path" "hr_headers request = headers" "hr_body request = body"
    using 4(2) by simp_all
  ultimately show ?thesis using 3 by (metis min.absorb1)
qed

definition sample_head :: "u8 list \<Rightarrow> parse_status" where
  "sample_head raw = Complete
     \<lparr>pr_bytes = 5, pr_method = Some (str ''M''), pr_path = Some (str ''/''), pr_version = Some 1,
      pr_headers = [(str ''Content-Length'', [50])]\<rparr>"

theorem http_body_bounded_witness:
  "\<exists>stream' request. read_http_request_with_body_limit sample_head (\<lambda>_ _ _. Inr 4)
       [Inr [65, 13, 10, 13, 10, 1], Inr [2]] = (stream', Inr request) \<and>
     length (hr_body request) \<le> min 4 6291456"
proof -
  let ?stream = "[Inr [65, 13, 10, 13, 10, 1], Inr [2]] :: stream"
  have head: "read_http_head [] ?stream = ([Inr [2]], Inr ([65, 13, 10, 13, 10, 1], 1))"
    by (subst read_http_head.simps) (simp add: find_header_end_def)
  have parsed: "parse_http_head sample_head [65, 13, 10, 13, 10, 1] 5 =
      Inr (str ''M'', str ''/'', [str ''content-length'' \<mapsto> [50]])"
    by (simp add: parse_http_head_def sample_head_def insert_http_header_def to_ascii_lowercase_def ascii_lower_def
        is_ascii_upper_def trim_def trim_start_def trim_end_def is_whitespace_def ok_or_def ensure_def)
  have "parse_unsigned (2 ^ 64 - 1) [50] = Some 2"
    by (simp add: parse_unsigned_def is_ascii_digit_def)
  then have body: "read_http_body 4 [str ''content-length'' \<mapsto> [50]] [1] [Inr [2]] = ([], Inr [1, 2])"
    by (simp add: read_http_body_def read_http_content_length_body_def read_declared_body.simps)
  have "read_http_request_with_body_limit sample_head (\<lambda>_ _ _. Inr 4) ?stream =
      ([], Inr \<lparr>hr_method = str ''M'', hr_path = str ''/'', hr_headers = [str ''content-length'' \<mapsto> [50]], hr_body = [1, 2]\<rparr>)"
    using body parsed by (simp add: read_http_request_with_body_limit_def head)
  from this http_body_bounded [OF this] show ?thesis by auto
qed

end
