(* ===== verification/Mcp_Http.thy ===== *)
theory Mcp_Http
  imports Http_Request
begin

text \<open>
  The HTTP side of the MCP server process: who may use it (\<open>http_security.rs\<close>), protocol versions
  and media types (\<open>http_protocol.rs\<close>), JSON-RPC dispatch (\<open>json_rpc.rs\<close>) and the handling of a
  connection (\<open>http_server.rs\<close>). Parsing JSON and decoding a JSON-RPC request belong to
  \<open>serde_json\<close>, and the server behind the dispatch is an argument. Responses are their status and
  what their body says; the text around them and the keep-alive events of an open event stream are
  not modelled.
\<close>

unbundle bit_operations_syntax

section \<open>Security\<close>

record HttpSecurityConfig =
  sc_token :: ustr
  sc_allowed_origins :: "ustr list"

definition validate_origin :: "ustr option \<Rightarrow> HttpSecurityConfig \<Rightarrow> bool" where
  "validate_origin origin config =
     (case origin of
        None \<Rightarrow> True
      | Some origin \<Rightarrow>
          trim origin = [] \<or>
          list_ex (\<lambda>allowed. allowed = str ''*'' \<or> allowed = trim origin) (sc_allowed_origins config))"

definition constant_time_str_eq :: "ustr \<Rightarrow> ustr \<Rightarrow> bool" where
  "constant_time_str_eq a b =
     (let a = as_bytes a; b = as_bytes b
      in if length a \<noteq> length b then False
         else foldl (\<lambda>acc (x, y). acc OR (x XOR y)) 0 (zip a b) = 0)"

definition token_header :: "headers \<Rightarrow> ustr \<Rightarrow> bool" where
  "token_header headers token =
     (case headers (str ''x-portmate-mcp-token'') of
        None \<Rightarrow> False
      | Some candidate \<Rightarrow> constant_time_str_eq (trim candidate) token)"

definition authorized_http_headers :: "headers \<Rightarrow> ustr \<Rightarrow> bool" where
  "authorized_http_headers headers token =
     (case headers (str ''authorization'') of
        None \<Rightarrow> token_header headers token
      | Some v \<Rightarrow>
          (case split_whitespace v of
             [scheme, candidate] \<Rightarrow>
               if eq_ignore_ascii_case scheme (str ''bearer'') then constant_time_str_eq candidate token
               else token_header headers token
           | _ \<Rightarrow> token_header headers token))"

section \<open>Protocol versions and media types\<close>

definition MCP_PROTOCOL_VERSION :: ustr where
  "MCP_PROTOCOL_VERSION = str ''2025-06-18''"

definition MCP_PROTOCOL_VERSIONS :: "ustr list" where
  "MCP_PROTOCOL_VERSIONS = [str ''2024-11-05'', str ''2025-03-26'', MCP_PROTOCOL_VERSION]"

definition http_protocol_version :: "HttpRequest \<Rightarrow> ustr" where
  "http_protocol_version request =
     (case hr_headers request (str ''mcp-protocol-version'') of
        None \<Rightarrow> MCP_PROTOCOL_VERSION
      | Some v \<Rightarrow> if v \<in> set MCP_PROTOCOL_VERSIONS then v else MCP_PROTOCOL_VERSION)"

definition validate_mcp_protocol_version :: "HttpRequest \<Rightarrow> bool" where
  "validate_mcp_protocol_version request =
     (case hr_headers request (str ''mcp-protocol-version'') of
        None \<Rightarrow> True | Some v \<Rightarrow> v \<in> set MCP_PROTOCOL_VERSIONS)"

definition has_json_http_content_type :: "HttpRequest \<Rightarrow> bool" where
  "has_json_http_content_type request =
     (case hr_headers request (str ''content-type'') of
        None \<Rightarrow> False
      | Some v \<Rightarrow> eq_ignore_ascii_case (trim (hd (split_char 59 v))) (str ''application/json''))"

text \<open>
  A quality is read as an \<open>f32\<close> and only compared with 0 and 1. A decimal \<open>m * 10 ^ e\<close> rounds to
  zero up to half of the least subnormal number and to at most 1 up to half a step above 1.
\<close>

datatype quality = OutOfRange | ZeroQuality | PositiveQuality

definition decimal_quality :: "bool \<Rightarrow> nat \<Rightarrow> int \<Rightarrow> quality" where
  "decimal_quality negative m e =
     (let up = 10 ^ nat e; down = 10 ^ nat (- e)
      in if m * up * 2 ^ 150 \<le> down then ZeroQuality
         else if negative \<or> (2 ^ 24 + 1) * down < m * up * 2 ^ 24 then OutOfRange
         else PositiveQuality)"

definition parse_exponent :: "ustr \<Rightarrow> int option" where
  "parse_exponent s =
     (case s of
        [] \<Rightarrow> None
      | c # r \<Rightarrow>
          let digits = (if c = 43 \<or> c = 45 then r else s)
          in if digits = [] \<or> \<not> list_all is_ascii_digit digits then None
             else Some (if c = 45 then - int (digits_value 0 digits) else int (digits_value 0 digits)))"

definition parse_decimal :: "bool \<Rightarrow> ustr \<Rightarrow> quality option" where
  "parse_decimal negative s =
     (let whole = takeWhile is_ascii_digit s;
          rest = dropWhile is_ascii_digit s;
          point = (rest \<noteq> [] \<and> hd rest = 46);
          fraction = (if point then takeWhile is_ascii_digit (tl rest) else []);
          rest = (if point then dropWhile is_ascii_digit (tl rest) else rest)
      in if whole = [] \<and> fraction = [] then None
         else
           map_option (\<lambda>e. decimal_quality negative (digits_value 0 (whole @ fraction)) (e - int (length fraction)))
             (if rest = [] then Some 0
              else if hd rest = 101 \<or> hd rest = 69 then parse_exponent (tl rest)
              else None))"

definition parse_quality :: "ustr \<Rightarrow> quality" where
  "parse_quality s =
     (let negative = (s \<noteq> [] \<and> hd s = 45);
          body = (if s \<noteq> [] \<and> (hd s = 45 \<or> hd s = 43) then tl s else s)
      in if to_ascii_lowercase body \<in> {str ''inf'', str ''infinity'', str ''nan''} then OutOfRange
         else (case parse_decimal negative body of None \<Rightarrow> ZeroQuality | Some q \<Rightarrow> q))"

definition item_quality :: "ustr list \<Rightarrow> quality" where
  "item_quality parameters =
     foldl (\<lambda>quality parameter.
       case split_once (trim parameter) [61] of
         None \<Rightarrow> quality
       | Some (name, v) \<Rightarrow> if eq_ignore_ascii_case (trim name) (str ''q'') then parse_quality (trim v) else quality)
     PositiveQuality parameters"

definition media_range :: "ustr \<Rightarrow> ustr \<Rightarrow> ustr \<Rightarrow> (nat \<times> quality) option" where
  "media_range offered_type offered_subtype item =
     (let parts = split_char 59 item
      in case split_once (to_ascii_lowercase (trim (hd parts))) [47] of
           None \<Rightarrow> None
         | Some (range_type, range_subtype) \<Rightarrow>
             let quality = item_quality (tl parts)
             in if quality = OutOfRange \<or> range_type \<noteq> str ''*'' \<and> range_type \<noteq> offered_type \<or>
                   range_subtype \<noteq> str ''*'' \<and> range_subtype \<noteq> offered_subtype
                then None
                else Some ((if range_type \<noteq> str ''*'' then 1 else 0) +
                           (if range_subtype \<noteq> str ''*'' then 1 else 0), quality))"

text \<open>\<open>max_by_key\<close>: the last of the greatest.\<close>

definition max_by_key :: "('a \<Rightarrow> nat) \<Rightarrow> 'a list \<Rightarrow> 'a option" where
  "max_by_key key xs =
     foldl (\<lambda>best x. case best of None \<Rightarrow> Some x | Some b \<Rightarrow> if key b \<le> key x then Some x else best) None xs"

definition accepts_http_media_type :: "HttpRequest \<Rightarrow> bool \<Rightarrow> ustr \<Rightarrow> bool" where
  "accepts_http_media_type request default_when_missing offered_media_type =
     (case hr_headers request (str ''accept'') of
        None \<Rightarrow> default_when_missing
      | Some accept \<Rightarrow>
          (case split_once offered_media_type [47] of
             None \<Rightarrow> False
           | Some (offered_type, offered_subtype) \<Rightarrow>
               (case max_by_key fst (List.map_filter (media_range offered_type offered_subtype) (split_char 44 accept)) of
                  None \<Rightarrow> False | Some (_, quality) \<Rightarrow> quality = PositiveQuality)))"

definition accepts_json_http_response :: "HttpRequest \<Rightarrow> bool" where
  "accepts_json_http_response request = accepts_http_media_type request True (str ''application/json'')"

definition accepts_sse_http_response :: "HttpRequest \<Rightarrow> bool" where
  "accepts_sse_http_response request = accepts_http_media_type request False (str ''text/event-stream'')"

definition is_sse_stream_request :: "HttpRequest \<Rightarrow> bool" where
  "is_sse_stream_request request \<longleftrightarrow>
     hr_method request = str ''GET'' \<and> hr_path request = str ''/mcp'' \<and> accepts_sse_http_response request"

section \<open>JSON-RPC\<close>

datatype json = JNull | JBool bool | JNumber ustr | JString ustr | JArray "json list" | JObject "(ustr \<times> json) list"

abbreviation (input) MAX_JSON_RPC_BATCH_ITEMS :: nat where "MAX_JSON_RPC_BATCH_ITEMS \<equiv> 128"

record JsonRpcRequest =
  rq_jsonrpc :: ustr
  rq_id :: "json option"
  rq_method :: ustr
  rq_params :: json

datatype RpcErrorText =
    EmptyBatch | BatchTooLong | BadId | BadParams | Undecodable ustr | HandlerFailed ustr | OtherText ustr

record JsonRpcResponse =
  rs_id :: json
  rs_result :: "json option"
  rs_error :: "(int \<times> RpcErrorText) option"

definition rpc_error :: "json \<Rightarrow> int \<Rightarrow> RpcErrorText \<Rightarrow> JsonRpcResponse" where
  "rpc_error id_value code message = \<lparr>rs_id = id_value, rs_result = None, rs_error = Some (code, message)\<rparr>"

fun json_get :: "json \<Rightarrow> ustr \<Rightarrow> json option" where
  "json_get (JObject members) key = map_of members key"
| "json_get _ key = None"

definition json_id_ok :: "json \<Rightarrow> bool" where
  "json_id_ok v = (case v of JNull \<Rightarrow> True | JNumber _ \<Rightarrow> True | JString _ \<Rightarrow> True | _ \<Rightarrow> False)"

definition json_container :: "json \<Rightarrow> bool" where
  "json_container v = (case v of JArray _ \<Rightarrow> True | JObject _ \<Rightarrow> True | _ \<Rightarrow> False)"

type_synonym 's rpc_handler = "JsonRpcRequest \<Rightarrow> 's \<Rightarrow> 's \<times> (ustr + JsonRpcResponse option)"

definition dispatch_one_json_rpc_value ::
  "(json \<Rightarrow> ustr + JsonRpcRequest) \<Rightarrow> 's rpc_handler \<Rightarrow> json \<Rightarrow> 's \<Rightarrow> 's \<times> JsonRpcResponse option" where
  "dispatch_one_json_rpc_value decode handle v s =
     (let has_id = (json_get v (str ''id'') \<noteq> None);
          id_value = (case json_get v (str ''id'') of None \<Rightarrow> JNull | Some i \<Rightarrow> i)
      in if has_id \<and> \<not> json_id_ok id_value then (s, Some (rpc_error JNull (-32600) BadId))
         else if (case json_get v (str ''params'') of None \<Rightarrow> False | Some p \<Rightarrow> \<not> json_container p)
         then (s, if has_id then Some (rpc_error id_value (-32602) BadParams) else None)
         else
           (case decode v of
              Inl e \<Rightarrow> (s, Some (rpc_error id_value (-32600) (Undecodable e)))
            | Inr request \<Rightarrow>
                let request = (if has_id then request\<lparr>rq_id := Some id_value\<rparr> else request)
                in case handle request s of
                     (s, Inr response) \<Rightarrow> (s, response)
                   | (s, Inl e) \<Rightarrow>
                       (s, if has_id then Some (rpc_error id_value (-32603) (HandlerFailed e)) else None)))"

fun dispatch_items ::
  "(json \<Rightarrow> ustr + JsonRpcRequest) \<Rightarrow> 's rpc_handler \<Rightarrow> json list \<Rightarrow> 's \<Rightarrow> 's \<times> JsonRpcResponse list" where
  "dispatch_items decode handle [] s = (s, [])"
| "dispatch_items decode handle (v # vs) s =
     (let (s, response) = dispatch_one_json_rpc_value decode handle v s;
          (s, responses) = dispatch_items decode handle vs s
      in (s, (case response of None \<Rightarrow> responses | Some r \<Rightarrow> r # responses)))"

datatype rpc_output = SingleResponse JsonRpcResponse | BatchResponse "JsonRpcResponse list"

definition dispatch_json_rpc_value ::
  "(json \<Rightarrow> ustr + JsonRpcRequest) \<Rightarrow> 's rpc_handler \<Rightarrow> json \<Rightarrow> 's \<Rightarrow> 's \<times> rpc_output option" where
  "dispatch_json_rpc_value decode handle v s =
     (case v of
        JArray items \<Rightarrow>
          if items = [] then (s, Some (SingleResponse (rpc_error JNull (-32600) EmptyBatch)))
          else if MAX_JSON_RPC_BATCH_ITEMS < length items then
            (s, Some (SingleResponse (rpc_error JNull (-32600) BatchTooLong)))
          else
            (let (s, responses) = dispatch_items decode handle items s
             in (s, if responses = [] then None else Some (BatchResponse responses)))
      | _ \<Rightarrow>
          (let (s, response) = dispatch_one_json_rpc_value decode handle v s
           in (s, map_option SingleResponse response)))"

section \<open>The server\<close>

text \<open>\<open>try_acquire_http_connection\<close> and the release when a permit is dropped.\<close>

definition try_acquire_http_connection :: "nat \<Rightarrow> nat \<Rightarrow> nat option" where
  "try_acquire_http_connection max_connections active =
     (if active < max_connections then Some (active + 1) else None)"

definition release_http_connection :: "nat \<Rightarrow> nat" where
  "release_http_connection active = active - 1"

datatype ServerError =
    OriginNotAllowed | UnknownEndpoint | MethodNotAllowed | UnsupportedVersion | NotJson | NotAcceptable
  | BadToken | SseLimit | RequestError HttpError | StateUnavailable ustr

datatype 'p HttpBody =
    EmptyBody | ErrorBody ServerError | JsonParseError | RpcBody rpc_output | RpcFailed ustr
  | SseMessage "'p HttpBody" | SseStart ustr 'p

record 'p HttpReply =
  rp_status :: nat
  rp_body :: "'p HttpBody"
  rp_origin :: "ustr option"
  rp_protocol :: ustr

definition http_response :: "nat \<Rightarrow> 'p HttpBody \<Rightarrow> ustr option \<Rightarrow> 'p HttpReply" where
  "http_response status body origin =
     \<lparr>rp_status = status, rp_body = body, rp_origin = origin, rp_protocol = MCP_PROTOCOL_VERSION\<rparr>"

text \<open>What lies behind the HTTP server.\<close>

record ('s, 'p) mcp_backend =
  mb_parse :: "u8 list \<Rightarrow> json option"
  mb_decode :: "json \<Rightarrow> ustr + JsonRpcRequest"
  mb_new :: "ustr + 's"
  mb_handle :: "'s rpc_handler"
  mb_state :: "ustr \<Rightarrow> ustr + 'p"

definition handle_http_json_rpc :: "('s, 'p) mcp_backend \<Rightarrow> json \<Rightarrow> ustr + rpc_output option" where
  "handle_http_json_rpc backend v =
     and_then (mb_new backend) (\<lambda>server.
       Inr (snd (dispatch_json_rpc_value (mb_decode backend) (mb_handle backend) v server)))"

definition http_sse_stream_start_response ::
  "('s, 'p) mcp_backend \<Rightarrow> HttpSecurityConfig \<Rightarrow> HttpRequest \<Rightarrow> 'p HttpReply" where
  "http_sse_stream_start_response backend config request =
     (let origin = hr_headers request (str ''origin'')
      in if \<not> validate_origin origin config then http_response 403 (ErrorBody OriginNotAllowed) origin
         else if \<not> validate_mcp_protocol_version request then http_response 400 (ErrorBody UnsupportedVersion) origin
         else if \<not> authorized_http_headers (hr_headers request) (sc_token config) then
           http_response 401 (ErrorBody BadToken) origin
         else
           let protocol_version = http_protocol_version request
           in case mb_state backend protocol_version of
                Inl e \<Rightarrow> http_response 500 (ErrorBody (StateUnavailable e)) origin
              | Inr payload \<Rightarrow>
                  \<lparr>rp_status = 200, rp_body = SseStart protocol_version payload, rp_origin = origin,
                   rp_protocol = protocol_version\<rparr>)"

text \<open>The reply to a request, and the JSON value that was given to the JSON-RPC dispatch, if any.\<close>

definition handle_http_request ::
  "('s, 'p) mcp_backend \<Rightarrow> HttpSecurityConfig \<Rightarrow> HttpRequest \<Rightarrow> 'p HttpReply \<times> json option" where
  "handle_http_request backend config request =
     (let origin = hr_headers request (str ''origin'')
      in if \<not> validate_origin origin config then (http_response 403 (ErrorBody OriginNotAllowed) origin, None)
         else if hr_path request \<noteq> str ''/mcp'' then (http_response 404 (ErrorBody UnknownEndpoint) origin, None)
         else if hr_method request = str ''OPTIONS'' then (http_response 204 EmptyBody origin, None)
         else if hr_method request = str ''GET'' \<and> accepts_sse_http_response request then
           (http_sse_stream_start_response backend config request, None)
         else if hr_method request \<noteq> str ''POST'' then
           (http_response 405 (ErrorBody MethodNotAllowed) origin, None)
         else if \<not> validate_mcp_protocol_version request then
           (http_response 400 (ErrorBody UnsupportedVersion) origin, None)
         else
           let protocol_version = http_protocol_version request;
               accepts_json = accepts_json_http_response request;
               accepts_sse = accepts_sse_http_response request
           in if \<not> has_json_http_content_type request then (http_response 415 (ErrorBody NotJson) origin, None)
              else if \<not> accepts_json \<and> \<not> accepts_sse then
                (http_response 406 (ErrorBody NotAcceptable) origin, None)
              else if \<not> authorized_http_headers (hr_headers request) (sc_token config) then
                (http_response 401 (ErrorBody BadToken) origin, None)
              else
                let reply = (\<lambda>status body. \<lparr>rp_status = status, rp_body = body, rp_origin = origin,
                                             rp_protocol = protocol_version\<rparr>);
                    result = (\<lambda>body. reply 200 (if accepts_sse \<and> \<not> accepts_json then SseMessage body else body))
                in case mb_parse backend (hr_body request) of
                     None \<Rightarrow> (reply 200 JsonParseError, None)
                   | Some v \<Rightarrow>
                       (case handle_http_json_rpc backend v of
                          Inr (Some out) \<Rightarrow> result (RpcBody out)
                        | Inr None \<Rightarrow> reply 202 EmptyBody
                        | Inl e \<Rightarrow> result (RpcFailed e), Some v))"

definition mcp_body_limit :: "HttpSecurityConfig \<Rightarrow> ustr \<Rightarrow> ustr \<Rightarrow> headers \<Rightarrow> HttpError + nat" where
  "mcp_body_limit config method path headers =
     (if path = str ''/mcp'' \<and> method = str ''POST'' then
        if authorized_http_headers headers (sc_token config) then Inr MAX_HTTP_BODY_BYTES
        else Inl HttpAuthenticationRequired
      else Inr 0)"

definition handle_http_connection ::
  "(u8 list \<Rightarrow> parse_status) \<Rightarrow> ('s, 'p) mcp_backend \<Rightarrow> HttpSecurityConfig \<Rightarrow> bool \<Rightarrow> stream
     \<Rightarrow> stream \<times> 'p HttpReply \<times> json option" where
  "handle_http_connection httparse backend config sse_permit stream =
     (case read_http_request_with_body_limit httparse (mcp_body_limit config) stream of
        (stream, Inr request) \<Rightarrow>
          (stream,
           if is_sse_stream_request request then
             (if \<not> sse_permit
              then (http_response 503 (ErrorBody SseLimit) (hr_headers request (str ''origin'')), None)
              else (http_sse_stream_start_response backend config request, None))
           else handle_http_request backend config request)
      | (stream, Inl e) \<Rightarrow>
          (stream,
           http_response
             (if e = HttpAuthenticationRequired then 401 else if e = StreamTimedOut then 408 else 400)
             (ErrorBody (RequestError e)) None, None))"

section \<open>Tokens\<close>

lemma or_zero_iff: "a OR b = 0 \<longleftrightarrow> a = 0 \<and> b = (0 :: u8)"
  by (fact or_eq_0_iff)

lemma xor_zero_iff: "a XOR b = 0 \<longleftrightarrow> a = (b :: u8)"
proof
  assume zero: "a XOR b = 0"
  have "a = a XOR (b XOR b)" by (simp only: xor_self_eq xor.right_neutral)
  also have "\<dots> = (a XOR b) XOR b" by (simp only: xor.assoc)
  also have "\<dots> = b" by (simp only: zero xor.left_neutral)
  finally show "a = b" .
qed (simp only: xor_self_eq)

lemma fold_xor_zero:
  "foldl (\<lambda>acc (x, y). acc OR (x XOR y)) (acc :: u8) ps = 0 \<longleftrightarrow> acc = 0 \<and> list_all (\<lambda>(x, y). x = y) ps"
proof (induction ps arbitrary: acc)
  case (Cons p ps)
  then show ?case by (cases p) (simp add: or_zero_iff xor_zero_iff)
qed simp

lemma zip_equal: "length xs = length ys \<Longrightarrow> list_all (\<lambda>(x, y). x = y) (zip xs ys) \<longleftrightarrow> xs = ys"
  by (induction xs ys rule: list_induct2) auto

lemma constant_time_str_eq_iff: "constant_time_str_eq a b \<longleftrightarrow> as_bytes a = as_bytes b"
proof (cases "length (as_bytes a) = length (as_bytes b)")
  case True
  then show ?thesis by (simp only: constant_time_str_eq_def Let_def fold_xor_zero zip_equal if_False simp_thms)
next
  case False
  then show ?thesis by (metis constant_time_str_eq_def)
qed

text \<open>What it means for a request to present the token.\<close>

definition presents_token :: "headers \<Rightarrow> ustr \<Rightarrow> bool" where
  "presents_token headers token \<longleftrightarrow>
     (\<exists>v scheme candidate. headers (str ''authorization'') = Some v \<and> split_whitespace v = [scheme, candidate] \<and>
        to_ascii_lowercase scheme = str ''bearer'' \<and> as_bytes candidate = as_bytes token) \<or>
     (\<exists>v. headers (str ''x-portmate-mcp-token'') = Some v \<and> as_bytes (trim v) = as_bytes token)"

lemma bearer_lower: "to_ascii_lowercase (str ''bearer'') = str ''bearer''"
  by (simp add: to_ascii_lowercase_def ascii_lower_def is_ascii_upper_def)

lemma token_header_presents: "token_header headers token \<Longrightarrow> presents_token headers token"
  by (auto simp add: token_header_def presents_token_def constant_time_str_eq_iff split: option.splits)

lemma authorized_presents:
  assumes "authorized_http_headers headers token"
  shows "presents_token headers token"
proof (cases "headers (str ''authorization'')")
  case None
  then show ?thesis using assms token_header_presents by (simp add: authorized_http_headers_def)
next
  case (Some v)
  show ?thesis
  proof (cases "token_header headers token")
    case False
    then obtain scheme candidate where "split_whitespace v = [scheme, candidate]"
      "eq_ignore_ascii_case scheme (str ''bearer'')" "constant_time_str_eq candidate token"
      using assms unfolding authorized_http_headers_def Some option.case by (auto split: list.splits if_splits)
    then show ?thesis
      using Some unfolding presents_token_def eq_ignore_ascii_case_def bearer_lower constant_time_str_eq_iff by blast
  qed (rule token_header_presents)
qed

definition origin_allowed :: "HttpSecurityConfig \<Rightarrow> headers \<Rightarrow> bool" where
  "origin_allowed config headers \<longleftrightarrow>
     (\<forall>origin. headers (str ''origin'') = Some origin \<longrightarrow> trim origin \<noteq> [] \<longrightarrow>
        str ''*'' \<in> set (sc_allowed_origins config) \<or> trim origin \<in> set (sc_allowed_origins config))"

lemma validate_origin_iff: "validate_origin (headers (str ''origin'')) config \<longleftrightarrow> origin_allowed config headers"
  by (auto simp add: validate_origin_def origin_allowed_def list_ex_iff split: option.splits)

lemma sse_start_authorized:
  assumes "rp_body (http_sse_stream_start_response backend config request) = SseStart version payload"
  shows "authorized_http_headers (hr_headers request) (sc_token config) \<and> origin_allowed config (hr_headers request)"
  using assms
  by (auto simp add: http_sse_stream_start_response_def http_response_def Let_def validate_origin_iff [symmetric]
      split: if_splits)

lemma handle_request_authorized:
  assumes "handle_http_request backend config request = (reply, served)"
    and "served \<noteq> None \<or> (\<exists>version payload. rp_body reply = SseStart version payload)"
  shows "authorized_http_headers (hr_headers request) (sc_token config) \<and> origin_allowed config (hr_headers request) \<and>
    (served \<noteq> None \<longrightarrow> hr_method request = str ''POST'' \<and> hr_path request = str ''/mcp'' \<and>
       served = mb_parse backend (hr_body request))"
proof (cases "hr_method request = str ''GET'' \<and> accepts_sse_http_response request \<and> hr_path request = str ''/mcp'' \<and>
    validate_origin (hr_headers request (str ''origin'')) config")
  case True
  then have "reply = http_sse_stream_start_response backend config request" "served = None"
    using assms(1) by (auto simp add: handle_http_request_def)
  then show ?thesis using assms(2) sse_start_authorized [of backend config request] by auto
next
  case False
  let ?h = "hr_headers request"
  have origin: "validate_origin (?h (str ''origin'')) config"
    by (rule ccontr) (use assms(1) assms(2) in \<open>auto simp add: handle_http_request_def http_response_def\<close>)
  have path: "hr_path request = str ''/mcp''"
    by (rule ccontr) (use assms(1) origin assms(2) in \<open>auto simp add: handle_http_request_def http_response_def\<close>)
  note known = assms(1) [unfolded handle_http_request_def Let_def, simplified origin path]
  have options: "hr_method request \<noteq> str ''OPTIONS''"
    by (rule notI) (use known assms(2) in \<open>auto simp add: http_response_def\<close>)
  have sse: "\<not> (hr_method request = str ''GET'' \<and> accepts_sse_http_response request)" using False origin path by blast
  have post: "hr_method request = str ''POST''"
    by (rule ccontr) (use known options sse assms(2) in \<open>auto simp add: http_response_def\<close>)
  have version: "validate_mcp_protocol_version request"
    by (rule ccontr) (use known post assms(2) in \<open>auto simp add: http_response_def\<close>)
  have content: "has_json_http_content_type request"
    by (rule ccontr) (use known post version assms(2) in \<open>auto simp add: http_response_def\<close>)
  have accept: "accepts_json_http_response request \<or> accepts_sse_http_response request"
    by (rule ccontr) (use known post version content assms(2) in \<open>auto simp add: http_response_def\<close>)
  have auth: "authorized_http_headers ?h (sc_token config)"
    by (rule ccontr) (use known post version content accept assms(2) in \<open>auto simp add: http_response_def\<close>)
  have "served = mb_parse backend (hr_body request)"
    using known post version content accept auth by (auto split: option.splits)
  then show ?thesis using auth origin [unfolded validate_origin_iff] path post by blast
qed

section \<open>Properties\<close>

text \<open>
  C14. Nothing is served without the token: if a connection reaches the JSON-RPC dispatch or is sent
  the state of the application, the request that was read presents the token of the server as a
  bearer token or in the token header and comes from an allowed origin or from none; only the body
  of a POST to the endpoint is dispatched. A POST to the endpoint without the token is answered
  with 401 after its head, and no further byte of it is read.
\<close>

theorem mcp_http_requires_token:
  assumes "handle_http_connection httparse backend config permit stream = (stream', reply, served)"
  shows "(served \<noteq> None \<or> (\<exists>version payload. rp_body reply = SseStart version payload) \<longrightarrow>
      (\<exists>request. read_http_request_with_body_limit httparse (mcp_body_limit config) stream = (stream', Inr request) \<and>
         presents_token (hr_headers request) (sc_token config) \<and> origin_allowed config (hr_headers request) \<and>
         (served \<noteq> None \<longrightarrow> hr_method request = str ''POST'' \<and> hr_path request = str ''/mcp'' \<and>
            served = mb_parse backend (hr_body request)))) \<and>
    (\<forall>stream1 raw header_end headers.
       read_http_head [] stream = (stream1, Inr (raw, header_end)) \<and>
       parse_http_head httparse raw (header_end + 4) = Inr (str ''POST'', str ''/mcp'', headers) \<and>
       \<not> presents_token headers (sc_token config) \<longrightarrow>
       stream' = stream1 \<and> rp_status reply = 401 \<and> served = None)"
proof (intro conjI impI allI)
  assume a: "served \<noteq> None \<or> (\<exists>version payload. rp_body reply = SseStart version payload)"
  obtain stream1 r where r: "read_http_request_with_body_limit httparse (mcp_body_limit config) stream = (stream1, r)"
    by (cases "read_http_request_with_body_limit httparse (mcp_body_limit config) stream")
  then obtain request where request: "r = Inr request" "stream1 = stream'"
    using a assms by (cases r) (auto simp add: handle_http_connection_def http_response_def)
  have "authorized_http_headers (hr_headers request) (sc_token config) \<and> origin_allowed config (hr_headers request) \<and>
      (served \<noteq> None \<longrightarrow> hr_method request = str ''POST'' \<and> hr_path request = str ''/mcp'' \<and>
         served = mb_parse backend (hr_body request))"
  proof (cases "is_sse_stream_request request")
    case True
    then show ?thesis
      using a assms sse_start_authorized [of backend config request]
      by (auto simp add: handle_http_connection_def r request http_response_def split: if_splits)
  next
    case False
    then have "handle_http_request backend config request = (reply, served)"
      using assms by (simp add: handle_http_connection_def r request)
    then show ?thesis using a by (rule handle_request_authorized)
  qed
  then show "\<exists>request. read_http_request_with_body_limit httparse (mcp_body_limit config) stream = (stream', Inr request) \<and>
      presents_token (hr_headers request) (sc_token config) \<and> origin_allowed config (hr_headers request) \<and>
      (served \<noteq> None \<longrightarrow> hr_method request = str ''POST'' \<and> hr_path request = str ''/mcp'' \<and>
         served = mb_parse backend (hr_body request))"
    using r request authorized_presents by blast
next
  fix stream1 raw header_end headers
  assume a: "read_http_head [] stream = (stream1, Inr (raw, header_end)) \<and>
    parse_http_head httparse raw (header_end + 4) = Inr (str ''POST'', str ''/mcp'', headers) \<and>
    \<not> presents_token headers (sc_token config)"
  then have "mcp_body_limit config (str ''POST'') (str ''/mcp'') headers = Inl HttpAuthenticationRequired"
    using authorized_presents by (auto simp add: mcp_body_limit_def)
  then have read: "read_http_request_with_body_limit httparse (mcp_body_limit config) stream =
      (stream1, Inl HttpAuthenticationRequired)"
    using a unfolding read_http_request_with_body_limit_def Let_def by (simp only: prod.case sum.case)
  show "stream' = stream1" "rp_status reply = 401" "served = None"
    using assms by (auto simp add: handle_http_connection_def read http_response_def)
qed

text \<open>A connection that posts one byte with the token \<open>k\<close>.\<close>

definition sample_post :: "u8 list \<Rightarrow> parse_status" where
  "sample_post raw = Complete \<lparr>pr_bytes = length raw, pr_method = Some (str ''POST''), pr_path = Some (str ''/mcp''),
     pr_version = Some 1, pr_headers = [(str ''Content-Length'', [49]), (str ''Content-Type'', 
         [97, 112, 112, 108, 105, 99, 97, 116, 105, 111, 110, 47, 106, 115, 111, 110]),
       (str ''X-PortMate-MCP-Token'', [107])]\<rparr>"

definition sample_backend :: "(unit, unit) mcp_backend" where
  "sample_backend = \<lparr>mb_parse = (\<lambda>_. Some JNull), mb_decode = (\<lambda>_. Inl []), mb_new = Inr (),
     mb_handle = (\<lambda>_ s. (s, Inr None)), mb_state = (\<lambda>_. Inl [])\<rparr>"

definition sample_post_headers :: headers where
  "sample_post_headers = [str ''content-length'' \<mapsto> [49], str ''content-type'' \<mapsto> str ''application/json'',
     str ''x-portmate-mcp-token'' \<mapsto> [107]]"

lemmas header_text =
  to_ascii_lowercase_def ascii_lower_def is_ascii_upper_def trim_def trim_start_def trim_end_def is_whitespace_def

lemma sample_post_parsed:
  "parse_http_head sample_post [65, 13, 10, 13, 10, 1] 5 = Inr (str ''POST'', str ''/mcp'', sample_post_headers)"
  by (simp add: parse_http_head_def sample_post_def sample_post_headers_def insert_http_header_def header_text
      ok_or_def ensure_def)

theorem mcp_http_requires_token_witness:
  "\<exists>reply. handle_http_connection sample_post sample_backend \<lparr>sc_token = [107], sc_allowed_origins = []\<rparr> True
       [Inr [65, 13, 10, 13, 10, 1]] = ([], reply, Some JNull) \<and> rp_status reply = 200 \<and>
     presents_token sample_post_headers [107]"
proof -
  let ?stream = "[Inr [65, 13, 10, 13, 10, 1]] :: stream"
  let ?config = "\<lparr>sc_token = [107], sc_allowed_origins = []\<rparr>"
  let ?request = "\<lparr>hr_method = str ''POST'', hr_path = str ''/mcp'', hr_headers = sample_post_headers, hr_body = [1]\<rparr>"
  have head: "read_http_head [] ?stream = ([], Inr ([65, 13, 10, 13, 10, 1], 1))"
    by (subst read_http_head.simps) (simp add: find_header_end_def)
  have "parse_unsigned (2 ^ 64 - 1) [49] = Some 1"
    by (simp add: parse_unsigned_def is_ascii_digit_def)
  then have body: "read_http_body MAX_HTTP_BODY_BYTES sample_post_headers [1] [] = ([], Inr [1])"
    by (simp add: read_http_body_def read_http_content_length_body_def read_declared_body.simps sample_post_headers_def)
  have auth: "authorized_http_headers sample_post_headers [107]"
    by (simp add: authorized_http_headers_def sample_post_headers_def token_header_def constant_time_str_eq_iff header_text)
  have read: "read_http_request_with_body_limit sample_post (mcp_body_limit ?config) ?stream = ([], Inr ?request)"
    using body sample_post_parsed auth by (simp add: read_http_request_with_body_limit_def head mcp_body_limit_def)
  have "\<not> accepts_sse_http_response ?request" "accepts_json_http_response ?request"
    "validate_mcp_protocol_version ?request" "validate_origin (sample_post_headers (str ''origin'')) ?config"
    by (simp_all add: accepts_sse_http_response_def accepts_json_http_response_def accepts_http_media_type_def
        validate_mcp_protocol_version_def validate_origin_def sample_post_headers_def)
  moreover have "has_json_http_content_type ?request"
    by (simp add: has_json_http_content_type_def sample_post_headers_def eq_ignore_ascii_case_def split_char_def header_text)
  ultimately obtain reply where reply: "handle_http_connection sample_post sample_backend ?config True ?stream =
      ([], reply, Some JNull)" "rp_status reply = 200"
    using auth by (auto simp add: handle_http_connection_def read is_sse_stream_request_def handle_http_request_def
        sample_backend_def handle_http_json_rpc_def dispatch_json_rpc_value_def dispatch_one_json_rpc_value_def)
  then have "presents_token (hr_headers ?request) [107]"
    using mcp_http_requires_token [OF reply(1)] read by auto
  with reply show ?thesis by auto
qed

end
