(* ===== verification/Profile_Norm.thy ===== *)
theory Profile_Norm
  imports Triggers Tunnels
begin

text \<open>
  The normal form of a session profile (\<open>src-tauri/src/profile_normalization.rs\<close>). Every profile
  that is saved or loaded passes through \<open>normalize_session_profile\<close>, and the reconnection tasks
  compare normalised profiles. Regular expressions and IP networks are the arguments of the
  trigger and tunnel rules; the fresh identifier of a profile without one is the argument
  \<open>uuid\<close>.
\<close>

section \<open>Limits\<close>

abbreviation (input) MAX_SESSION_PROFILE_NAME_CHARACTERS :: nat where "MAX_SESSION_PROFILE_NAME_CHARACTERS \<equiv> 128"
abbreviation (input) MAX_SESSION_PROFILE_ID_CHARACTERS :: nat where "MAX_SESSION_PROFILE_ID_CHARACTERS \<equiv> 256"
abbreviation (input) MAX_SESSION_PROFILE_GROUP_CHARACTERS :: nat where "MAX_SESSION_PROFILE_GROUP_CHARACTERS \<equiv> 256"
abbreviation (input) MAX_SESSION_PROFILE_TAGS :: nat where "MAX_SESSION_PROFILE_TAGS \<equiv> 32"
abbreviation (input) MAX_SESSION_PROFILE_TAG_CHARACTERS :: nat where "MAX_SESSION_PROFILE_TAG_CHARACTERS \<equiv> 64"
abbreviation (input) MAX_LOG_RETENTION_DAYS :: u32 where "MAX_LOG_RETENTION_DAYS \<equiv> 3650"
abbreviation (input) MIN_TERMINAL_ROWS :: u16 where "MIN_TERMINAL_ROWS \<equiv> 1"
abbreviation (input) MAX_TERMINAL_ROWS :: u16 where "MAX_TERMINAL_ROWS \<equiv> 512"
abbreviation (input) MIN_TERMINAL_COLS :: u16 where "MIN_TERMINAL_COLS \<equiv> 1"
abbreviation (input) MAX_TERMINAL_COLS :: u16 where "MAX_TERMINAL_COLS \<equiv> 1024"
abbreviation (input) MAX_TERMINAL_SCROLLBACK :: u32 where "MAX_TERMINAL_SCROLLBACK \<equiv> 10000000"
abbreviation (input) MIN_TERMINAL_FONT_SIZE :: u8 where "MIN_TERMINAL_FONT_SIZE \<equiv> 6"
abbreviation (input) MAX_TERMINAL_FONT_SIZE :: u8 where "MAX_TERMINAL_FONT_SIZE \<equiv> 72"
abbreviation (input) MIN_TERMINAL_BACKGROUND_OPACITY :: u8 where "MIN_TERMINAL_BACKGROUND_OPACITY \<equiv> 20"
abbreviation (input) MAX_TERMINAL_BACKGROUND_OPACITY :: u8 where "MAX_TERMINAL_BACKGROUND_OPACITY \<equiv> 100"
abbreviation (input) MAX_TERMINAL_NAME_BYTES :: nat where "MAX_TERMINAL_NAME_BYTES \<equiv> 64"
abbreviation (input) MAX_TERMINAL_FONT_FAMILY_CHARACTERS :: nat where "MAX_TERMINAL_FONT_FAMILY_CHARACTERS \<equiv> 256"

definition DEFAULT_TERMINAL_THEME :: ustr where
  "DEFAULT_TERMINAL_THEME = str ''portmate-dark''"

definition DEFAULT_TERMINAL_NAME :: ustr where
  "DEFAULT_TERMINAL_NAME = str ''xterm-256color''"

definition DEFAULT_TERMINAL_FONT_FAMILY :: ustr where
  "DEFAULT_TERMINAL_FONT_FAMILY = term_font_family default_terminal_settings"

definition LEGACY_DEFAULT_TERMINAL_FONT_FAMILIES :: "ustr list" where
  "LEGACY_DEFAULT_TERMINAL_FONT_FAMILIES =
     [str ''Roboto Mono, JetBrains Mono, monospace'', str ''JetBrains Mono, monospace'']"

definition SUPPORTED_TERMINAL_THEMES :: "ustr list" where
  "SUPPORTED_TERMINAL_THEMES =
     [DEFAULT_TERMINAL_THEME, str ''graphite'', str ''solarized-dark'', str ''portmate-light'']"

section \<open>Texts\<close>

definition normalized_terminal_name :: "ustr \<Rightarrow> ustr" where
  "normalized_terminal_name term =
     (let term = trim term
      in if byte_len term \<le> MAX_TERMINAL_NAME_BYTES \<and>
            (case utf8_bytes term of
               [] \<Rightarrow> False
             | byte # bytes \<Rightarrow>
                 is_ascii_alphanumeric byte \<and>
                 list_all (\<lambda>b. is_ascii_alphanumeric b \<or> b \<in> set (str ''._+-'')) bytes)
         then term else DEFAULT_TERMINAL_NAME)"

definition normalized_terminal_font_family :: "ustr \<Rightarrow> ustr" where
  "normalized_terminal_font_family font_family =
     (let font_family = trim font_family
      in if font_family \<noteq> [] \<and> length font_family \<le> MAX_TERMINAL_FONT_FAMILY_CHARACTERS \<and>
            \<not> list_ex is_control font_family \<and> font_family \<notin> set LEGACY_DEFAULT_TERMINAL_FONT_FAMILIES
         then font_family else DEFAULT_TERMINAL_FONT_FAMILY)"

definition normalized_terminal_theme :: "ustr \<Rightarrow> ustr" where
  "normalized_terminal_theme theme =
     (if trim theme \<in> set SUPPORTED_TERMINAL_THEMES then trim theme else DEFAULT_TERMINAL_THEME)"

definition normalized_profile_metadata_text :: "ustr \<Rightarrow> nat \<Rightarrow> ustr" where
  "normalized_profile_metadata_text v max_characters =
     (let clean = filter (\<lambda>c. \<not> is_control c) v
      in trim (take max_characters (trim clean)))"

definition normalized_session_profile_id :: "ustr \<Rightarrow> ustr" where
  "normalized_session_profile_id v = normalized_profile_metadata_text v MAX_SESSION_PROFILE_ID_CHARACTERS"

text \<open>\<open>as_deref().map(str::trim).filter(|text| !text.is_empty())\<close>.\<close>

definition trimmed_text :: "ustr option \<Rightarrow> ustr option" where
  "trimmed_text v =
     (case v of None \<Rightarrow> None | Some text \<Rightarrow> if trim text = [] then None else Some (trim text))"

text \<open>The loop over the tags; the tags kept so far are the tags seen.\<close>

fun normalize_tags :: "ustr list \<Rightarrow> ustr list \<Rightarrow> ustr list" where
  "normalize_tags tags [] = tags"
| "normalize_tags tags (tag # rest) =
     (let tag = normalized_profile_metadata_text tag MAX_SESSION_PROFILE_TAG_CHARACTERS
      in if tag = [] \<or> tag \<in> set tags then normalize_tags tags rest
         else
           let tags = tags @ [tag]
           in if MAX_SESSION_PROFILE_TAGS \<le> length tags then tags else normalize_tags tags rest)"

section \<open>Profiles\<close>

definition normalize_terminal_settings :: "TerminalSettings \<Rightarrow> TerminalSettings" where
  "normalize_terminal_settings t = t
     \<lparr>term_term := normalized_terminal_name (term_term t),
      term_rows := clamp MIN_TERMINAL_ROWS MAX_TERMINAL_ROWS (term_rows t),
      term_cols := clamp MIN_TERMINAL_COLS MAX_TERMINAL_COLS (term_cols t),
      term_scrollback := min (term_scrollback t) MAX_TERMINAL_SCROLLBACK,
      term_font_family := normalized_terminal_font_family (term_font_family t),
      term_font_size := clamp MIN_TERMINAL_FONT_SIZE MAX_TERMINAL_FONT_SIZE (term_font_size t),
      term_theme := normalized_terminal_theme (term_theme t),
      term_background_opacity :=
        clamp MIN_TERMINAL_BACKGROUND_OPACITY MAX_TERMINAL_BACKGROUND_OPACITY (term_background_opacity t)\<rparr>"

definition normalize_profile_host_key :: "ustr \<Rightarrow> TrustedHostKey \<Rightarrow> TrustedHostKey" where
  "normalize_profile_host_key profile_id key =
     (let key =
            (if thk_scope key = ScopeProfile then
               key\<lparr>thk_profile_id :=
                     Some (case trimmed_text (thk_profile_id key) of None \<Rightarrow> profile_id | Some p \<Rightarrow> p)\<rparr>
             else key)
      in key\<lparr>thk_alias := trim (thk_alias key)\<rparr>)"

definition normalize_jump :: "ustr \<Rightarrow> JumpHop \<Rightarrow> JumpHop" where
  "normalize_jump username jump = jump
     \<lparr>jh_host := trim (jh_host jump),
      jh_port := if jh_port jump = 0 then 22 else jh_port jump,
      jh_username := if trim (jh_username jump) = [] then username else trim (jh_username jump),
      jh_identity_ref := trimmed_text (jh_identity_ref jump)\<rparr>"

definition normalize_auth_order :: "AuthMethod list \<Rightarrow> AuthMethod list" where
  "normalize_auth_order methods =
     (let normalized = foldl (\<lambda>out m. if m \<in> set out then out else out @ [m]) [] methods
      in if normalized = [] then [AuthPublicKey, AuthKeyboardInteractive, AuthPassword] else normalized)"

definition normalize_identity_policy :: "IdentityPolicy \<Rightarrow> IdentityPolicy" where
  "normalize_identity_policy p =
     (let p = p\<lparr>idp_auth_order := normalize_auth_order (idp_auth_order p)\<rparr>
      in if \<not> idp_record_success p \<or>
            (case idp_last_successful p of None \<Rightarrow> False | Some m \<Rightarrow> m \<notin> set (idp_auth_order p))
         then p\<lparr>idp_last_successful := None\<rparr> else p)"

definition normalize_ssh :: "('net, 'ip) net_ops \<Rightarrow> ustr \<Rightarrow> SshConnection \<Rightarrow> SshConnection" where
  "normalize_ssh net profile_id ssh =
     (let endpoint = ssh_endpoint ssh;
          ssh = ssh\<lparr>ssh_endpoint := \<lparr>ep_host = trim (ep_host endpoint),
                                     ep_port = (if ep_port endpoint = 0 then 22 else ep_port endpoint)\<rparr>,
                    ssh_username := trim (ssh_username ssh)\<rparr>;
          ssh = ssh_normalize_health ssh;
          ssh = ssh\<lparr>ssh_proxy := normalize_proxy (ssh_proxy ssh),
                    ssh_tunnels := filter (\<lambda>t. tn_egress t = EgressSsh) (normalize_tunnels net (ssh_tunnels ssh)),
                    ssh_host_key_policy := (ssh_host_key_policy ssh)
                      \<lparr>hkp_alias := Some (case trimmed_text (hkp_alias (ssh_host_key_policy ssh)) of
                                            None \<Rightarrow> profile_id | Some alias \<Rightarrow> alias)\<rparr>,
                    ssh_trusted_host_keys :=
                      filter (\<lambda>key. thk_scope key \<noteq> ScopeProfile \<or> thk_profile_id key = Some profile_id)
                        (map (normalize_profile_host_key profile_id) (ssh_trusted_host_keys ssh)),
                    ssh_jumps :=
                      filter (\<lambda>jump. jh_host jump \<noteq> []) (map (normalize_jump (ssh_username ssh)) (ssh_jumps ssh)),
                    ssh_identity_policy := normalize_identity_policy (ssh_identity_policy ssh)\<rparr>
      in ssh)"

definition normalize_tcp :: "TcpConnection \<Rightarrow> TcpConnection" where
  "normalize_tcp tcp =
     tcp_normalize_health (tcp\<lparr>tcp_host := trim (tcp_host tcp), tcp_proxy := normalize_proxy (tcp_proxy tcp)\<rparr>)"

definition normalize_connection :: "('net, 'ip) net_ops \<Rightarrow> ustr \<Rightarrow> ConnectionConfig \<Rightarrow> ConnectionConfig" where
  "normalize_connection net profile_id connection =
     (case connection of
        ConnSsh ssh \<Rightarrow> ConnSsh (normalize_ssh net profile_id ssh)
      | ConnTmux ssh \<Rightarrow> ConnTmux (normalize_ssh net profile_id ssh)
      | ConnTcp tcp \<Rightarrow> ConnTcp (normalize_tcp tcp)
      | ConnTelnet tcp \<Rightarrow> ConnTelnet (normalize_tcp tcp)
      | ConnSerial serial \<Rightarrow>
          ConnSerial (serial_normalize_health
            (if trim (ser_port serial) = [] then serial\<lparr>ser_port := []\<rparr> else serial))
      | ConnShell shell \<Rightarrow>
          ConnShell (if trim (sh_program shell) = [] then shell\<lparr>sh_program := []\<rparr> else shell))"

text \<open>The name of a session without one, in Chinese.\<close>

definition UNNAMED_SESSION :: ustr where
  "UNNAMED_SESSION = [26410, 21629, 21517, 20250, 35805]"

definition profile_name_of :: "ustr \<Rightarrow> ustr \<Rightarrow> ustr" where
  "profile_name_of profile_id name =
     (let name = normalized_profile_metadata_text name MAX_SESSION_PROFILE_NAME_CHARACTERS;
          name = (if name = [] then normalized_profile_metadata_text profile_id MAX_SESSION_PROFILE_NAME_CHARACTERS
                  else name)
      in if name = [] then UNNAMED_SESSION else name)"

definition normalize_session_profile ::
  "trigger_env \<Rightarrow> ('net, 'ip) net_ops \<Rightarrow> ustr \<Rightarrow> SessionProfile \<Rightarrow> SessionProfile" where
  "normalize_session_profile env net uuid profile =
     (let profile_id = normalized_session_profile_id (prof_id profile);
          profile_id = (if profile_id = [] \<or> profile_id = MCP_NO_SESSIONS_SENTINEL then str ''session-'' @ uuid
                        else profile_id)
      in profile
           \<lparr>prof_id := profile_id,
            prof_name := profile_name_of profile_id (prof_name profile),
            prof_group := normalized_profile_metadata_text (prof_group profile) MAX_SESSION_PROFILE_GROUP_CHARACTERS,
            prof_tags := normalize_tags [] (prof_tags profile),
            prof_kind := connection_kind (prof_connection profile),
            prof_terminal := normalize_terminal_settings (prof_terminal profile),
            prof_logging := (prof_logging profile)
              \<lparr>log_retention_days := min (log_retention_days (prof_logging profile)) MAX_LOG_RETENTION_DAYS\<rparr>,
            prof_triggers := normalize_triggers env (prof_triggers profile),
            prof_connection := normalize_connection net profile_id (prof_connection profile)\<rparr>)"

section \<open>Normal texts\<close>

definition metadata_text :: "nat \<Rightarrow> ustr \<Rightarrow> bool" where
  "metadata_text max_characters t \<longleftrightarrow>
     trim t = t \<and> length t \<le> max_characters \<and> (\<forall>c \<in> set t. \<not> is_control c)"

lemma metadata_text_normalized [simp]: "metadata_text n (normalized_profile_metadata_text v n)"
proof -
  let ?clean = "filter (\<lambda>c. \<not> is_control c) v"
  have "set (trim (take n (trim ?clean))) \<subseteq> set ?clean"
    using set_trim_subset set_take_subset by (metis order_trans)
  moreover have "length (trim (take n (trim ?clean))) \<le> n"
    using trim_decomp [of "take n (trim ?clean)"] by (metis length_append le_add1 le_add2 length_take min.cobounded2 order_trans)
  ultimately show ?thesis by (auto simp add: metadata_text_def normalized_profile_metadata_text_def)
qed

lemma normalized_metadata_id: "metadata_text n t \<Longrightarrow> normalized_profile_metadata_text t n = t"
  by (simp add: metadata_text_def normalized_profile_metadata_text_def filter_id_conv [THEN iffD2])

lemma clamp_fixed_iff: "lo \<le> hi \<Longrightarrow> clamp lo hi x = x \<longleftrightarrow> lo \<le> x \<and> x \<le> hi"
  by (auto simp add: clamp_def)

lemma trimmed_text_idem [simp]: "trimmed_text (trimmed_text v) = trimmed_text v"
  by (auto simp add: trimmed_text_def split: option.splits)

lemma trimmed_text_SomeD: "trimmed_text v = Some t \<Longrightarrow> trim t = t \<and> t \<noteq> []"
  by (auto simp add: trimmed_text_def split: option.splits if_splits)

lemma terminal_name_idem [simp]:
  "normalized_terminal_name (normalized_terminal_name t) = normalized_terminal_name t"
proof -
  have "trim DEFAULT_TERMINAL_NAME = DEFAULT_TERMINAL_NAME"
    by (simp add: trim_eq_self_iff DEFAULT_TERMINAL_NAME_def is_whitespace_def)
  then have "normalized_terminal_name DEFAULT_TERMINAL_NAME = DEFAULT_TERMINAL_NAME"
    unfolding normalized_terminal_name_def Let_def
    by (simp add: DEFAULT_TERMINAL_NAME_def utf8_char_def is_ascii_alphanumeric_def is_ascii_digit_def is_ascii_lower_def)
  then show ?thesis by (auto simp add: normalized_terminal_name_def Let_def)
qed

lemma terminal_theme_idem [simp]:
  "normalized_terminal_theme (normalized_terminal_theme t) = normalized_terminal_theme t"
  by (simp add: normalized_terminal_theme_def SUPPORTED_TERMINAL_THEMES_def DEFAULT_TERMINAL_THEME_def
      trim_def trim_start_def trim_end_def is_whitespace_def)

lemma font_family_idem [simp]:
  "normalized_terminal_font_family (normalized_terminal_font_family t) = normalized_terminal_font_family t"
proof -
  have "trim DEFAULT_TERMINAL_FONT_FAMILY = DEFAULT_TERMINAL_FONT_FAMILY"
    by (simp add: trim_eq_self_iff DEFAULT_TERMINAL_FONT_FAMILY_def default_terminal_settings_def is_whitespace_def)
  then have "normalized_terminal_font_family DEFAULT_TERMINAL_FONT_FAMILY = DEFAULT_TERMINAL_FONT_FAMILY"
    by (simp add: normalized_terminal_font_family_def Let_def)
  then show ?thesis by (auto simp add: normalized_terminal_font_family_def Let_def)
qed

section \<open>Normal tags\<close>

definition tags_normal :: "ustr list \<Rightarrow> bool" where
  "tags_normal tags \<longleftrightarrow>
     length tags \<le> MAX_SESSION_PROFILE_TAGS \<and> distinct tags \<and>
     (\<forall>t \<in> set tags. t \<noteq> [] \<and> metadata_text MAX_SESSION_PROFILE_TAG_CHARACTERS t)"

lemma normalize_tags_normal: "tags_normal tags \<Longrightarrow> length tags < 32 \<Longrightarrow> tags_normal (normalize_tags tags ts)"
proof (induction ts arbitrary: tags)
  case (Cons t ts)
  let ?t = "normalized_profile_metadata_text t 64"
  show ?case
  proof (cases "?t = [] \<or> ?t \<in> set tags")
    case False
    then have "tags_normal (tags @ [?t])" using Cons.prems by (auto simp add: tags_normal_def)
    then show ?thesis using Cons.IH [of "tags @ [?t]"] False by (auto simp add: Let_def)
  qed (use Cons in \<open>auto simp add: Let_def\<close>)
qed simp

lemma normalize_tags_id: "tags_normal (tags @ ts) \<Longrightarrow> normalize_tags tags ts = tags @ ts"
proof (induction ts arbitrary: tags)
  case (Cons t ts)
  then have "normalized_profile_metadata_text t 64 = t" "t \<noteq> []" "t \<notin> set tags"
    by (auto simp add: tags_normal_def normalized_metadata_id)
  moreover have "ts = [] \<or> length (tags @ [t]) < 32" using Cons.prems by (cases ts) (auto simp add: tags_normal_def)
  ultimately show ?case using Cons.IH [of "tags @ [t]"] Cons.prems by (auto simp add: Let_def)
qed simp

section \<open>Normal connections\<close>

lemma dedup_methods:
  "set (foldl (\<lambda>out m. if m \<in> set out then out else out @ [m]) out ms) = set out \<union> set ms \<and>
   (distinct out \<longrightarrow> distinct (foldl (\<lambda>out m. if m \<in> set out then out else out @ [m]) out ms))"
  by (induction ms arbitrary: out) auto

lemma dedup_methods_id:
  "distinct (out @ ms) \<Longrightarrow> foldl (\<lambda>out m. if m \<in> set out then out else out @ [m]) out ms = out @ ms"
proof (induction ms arbitrary: out)
  case (Cons m ms)
  then show ?case using Cons.IH [of "out @ [m]"] by simp
qed simp

lemma auth_order_normal: "normalize_auth_order ms \<noteq> [] \<and> distinct (normalize_auth_order ms)"
  using dedup_methods [of "[]" ms] by (simp add: normalize_auth_order_def Let_def)

lemma auth_order_id: "ms \<noteq> [] \<Longrightarrow> distinct ms \<Longrightarrow> normalize_auth_order ms = ms"
  using dedup_methods_id [of "[]" ms] by (simp add: normalize_auth_order_def Let_def)

definition identity_normal :: "IdentityPolicy \<Rightarrow> bool" where
  "identity_normal p \<longleftrightarrow>
     idp_auth_order p \<noteq> [] \<and> distinct (idp_auth_order p) \<and>
     (\<forall>m. idp_last_successful p = Some m \<longrightarrow> idp_record_success p \<and> m \<in> set (idp_auth_order p))"

lemma identity_normal_normalize: "identity_normal (normalize_identity_policy p)"
  using auth_order_normal [of "idp_auth_order p"]
  by (auto simp add: identity_normal_def normalize_identity_policy_def Let_def split: option.splits)

lemma identity_normal_id: "identity_normal p \<Longrightarrow> normalize_identity_policy p = p"
  by (cases p) (auto simp add: identity_normal_def normalize_identity_policy_def Let_def auth_order_id split: option.splits)

lemma tunnels_normal_filter:
  assumes "tunnels_normal net ts"
  shows "tunnels_normal net (filter P ts)"
proof -
  have "filter P (filter tn_enabled ts @ filter (\<lambda>t. \<not> tn_enabled t) ts) = filter P ts"
    using assms by (simp only: tunnels_normal_def)
  then have "filter tn_enabled (filter P ts) @ filter (\<lambda>t. \<not> tn_enabled t) (filter P ts) = filter P ts"
    by (simp add: conj_commute)
  moreover have "tunnels_ok net ts" using assms by (simp add: tunnels_normal_def validate_tunnels_ok)
  then have "tunnels_ok net (filter P ts)"
    by (auto simp add: tunnels_ok_def list_all_iff distinct_map_filter intro: order_trans [OF length_filter_le])
  ultimately show ?thesis by (simp add: tunnels_normal_def validate_tunnels_ok)
qed

definition proxy_normal :: "ProxyConfig \<Rightarrow> bool" where
  "proxy_normal p \<longleftrightarrow>
     trim (px_host p) = px_host p \<and> trim (px_username p) = px_username p \<and>
     (\<forall>s. px_password_secret_ref p = Some s \<longrightarrow> s \<noteq> [] \<and> trim s = s)"

lemma proxy_normal_normalize: "proxy_normal (normalize_proxy p)"
  by (auto simp add: proxy_normal_def normalize_proxy_def split: option.splits if_splits)

lemma proxy_normal_id: "proxy_normal p \<Longrightarrow> normalize_proxy p = p"
  by (cases p) (auto simp add: proxy_normal_def normalize_proxy_def split: option.splits)

definition jump_normal :: "ustr \<Rightarrow> JumpHop \<Rightarrow> bool" where
  "jump_normal username jump \<longleftrightarrow>
     jh_host jump \<noteq> [] \<and> trim (jh_host jump) = jh_host jump \<and> jh_port jump \<noteq> 0 \<and>
     trim (jh_username jump) = jh_username jump \<and> (jh_username jump = [] \<longrightarrow> username = []) \<and>
     (\<forall>r. jh_identity_ref jump = Some r \<longrightarrow> r \<noteq> [] \<and> trim r = r)"

lemma jump_normal_normalize:
  "trim username = username \<Longrightarrow> jh_host (normalize_jump username jump) \<noteq> [] \<Longrightarrow>
   jump_normal username (normalize_jump username jump)"
  by (auto simp add: jump_normal_def normalize_jump_def dest: trimmed_text_SomeD)

lemma jump_normal_id: "jump_normal username jump \<Longrightarrow> normalize_jump username jump = jump"
  by (cases jump) (auto simp add: jump_normal_def normalize_jump_def trimmed_text_def split: option.splits)

definition host_key_normal :: "ustr \<Rightarrow> TrustedHostKey \<Rightarrow> bool" where
  "host_key_normal profile_id key \<longleftrightarrow>
     trim (thk_alias key) = thk_alias key \<and>
     (thk_scope key = ScopeProfile \<longrightarrow> thk_profile_id key = Some profile_id)"

lemma host_key_normal_id:
  "trim profile_id = profile_id \<Longrightarrow> profile_id \<noteq> [] \<Longrightarrow> host_key_normal profile_id key \<Longrightarrow>
   normalize_profile_host_key profile_id key = key"
  by (cases key) (auto simp add: host_key_normal_def normalize_profile_host_key_def trimmed_text_def)

definition ssh_normal :: "('net, 'ip) net_ops \<Rightarrow> ustr \<Rightarrow> SshConnection \<Rightarrow> bool" where
  "ssh_normal net profile_id ssh \<longleftrightarrow>
     trim (ep_host (ssh_endpoint ssh)) = ep_host (ssh_endpoint ssh) \<and> ep_port (ssh_endpoint ssh) \<noteq> 0 \<and>
     trim (ssh_username ssh) = ssh_username ssh \<and>
     100 \<le> ssh_reconnect_delay_ms ssh \<and> ssh_reconnect_delay_ms ssh \<le> 60000 \<and>
     1 \<le> ssh_keepalive_interval_seconds ssh \<and> ssh_keepalive_interval_seconds ssh \<le> 3600 \<and>
     ssh_keepalive_max_missed ssh \<le> 20 \<and>
     proxy_normal (ssh_proxy ssh) \<and>
     tunnels_normal net (ssh_tunnels ssh) \<and> (\<forall>t \<in> set (ssh_tunnels ssh). tn_egress t = EgressSsh) \<and>
     (\<exists>alias. hkp_alias (ssh_host_key_policy ssh) = Some alias \<and> alias \<noteq> [] \<and> trim alias = alias) \<and>
     (\<forall>key \<in> set (ssh_trusted_host_keys ssh). host_key_normal profile_id key) \<and>
     (\<forall>jump \<in> set (ssh_jumps ssh). jump_normal (ssh_username ssh) jump) \<and>
     identity_normal (ssh_identity_policy ssh)"

lemma ssh_normal_normalize:
  assumes "trim profile_id = profile_id" "profile_id \<noteq> []"
  shows "ssh_normal net profile_id (normalize_ssh net profile_id ssh)"
proof -
  have "tunnels_normal net (filter (\<lambda>t. tn_egress t = EgressSsh) (normalize_tunnels net (ssh_tunnels ssh)))"
    by (rule tunnels_normal_filter) (rule normalize_tunnels_normal)
  moreover have "host_key_normal profile_id key"
    if "key \<in> set (filter (\<lambda>key. thk_scope key \<noteq> ScopeProfile \<or> thk_profile_id key = Some profile_id)
                        (map (normalize_profile_host_key profile_id) keys))" for key keys
    using that by (auto simp add: host_key_normal_def normalize_profile_host_key_def Let_def split: if_splits)
  moreover have "\<exists>alias. (case trimmed_text a of None \<Rightarrow> profile_id | Some alias \<Rightarrow> alias) = alias \<and> alias \<noteq> [] \<and> trim alias = alias" for a
    using assms by (auto split: option.splits dest: trimmed_text_SomeD)
  ultimately show ?thesis
    by (auto simp add: ssh_normal_def normalize_ssh_def Let_def ssh_normalize_health_def clamp_bounds
        proxy_normal_normalize identity_normal_normalize jump_normal_normalize)
qed

lemma ssh_normal_id:
  assumes "ssh_normal net profile_id ssh" "trim profile_id = profile_id" "profile_id \<noteq> []"
  shows "normalize_ssh net profile_id ssh = ssh"
proof -
  have "ssh_normalize_health ssh = ssh"
    using assms(1) by (cases ssh) (simp add: ssh_normal_def ssh_normalize_health_def clamp_id)
  moreover have "filter (\<lambda>t. tn_egress t = EgressSsh) (normalize_tunnels net (ssh_tunnels ssh)) = ssh_tunnels ssh"
    using assms(1) by (simp add: ssh_normal_def normalize_tunnels_id)
  moreover have "map (normalize_profile_host_key profile_id) (ssh_trusted_host_keys ssh) = ssh_trusted_host_keys ssh"
    using assms by (intro map_idI host_key_normal_id) (auto simp add: ssh_normal_def)
  moreover have "filter (\<lambda>key. thk_scope key \<noteq> ScopeProfile \<or> thk_profile_id key = Some profile_id)
      (ssh_trusted_host_keys ssh) = ssh_trusted_host_keys ssh"
    using assms(1) by (auto simp add: ssh_normal_def host_key_normal_def filter_id_conv)
  moreover have "map (normalize_jump (ssh_username ssh)) (ssh_jumps ssh) = ssh_jumps ssh"
    using assms(1) by (intro map_idI jump_normal_id) (auto simp add: ssh_normal_def)
  moreover have "filter (\<lambda>jump. jh_host jump \<noteq> []) (ssh_jumps ssh) = ssh_jumps ssh"
    using assms(1) by (auto simp add: ssh_normal_def jump_normal_def filter_id_conv)
  moreover have "(ssh_host_key_policy ssh)\<lparr>hkp_alias := Some (case trimmed_text (hkp_alias (ssh_host_key_policy ssh)) of
      None \<Rightarrow> profile_id | Some alias \<Rightarrow> alias)\<rparr> = ssh_host_key_policy ssh"
    using assms(1) by (cases "ssh_host_key_policy ssh") (auto simp add: ssh_normal_def trimmed_text_def)
  ultimately show ?thesis
    using assms(1)
    by (cases ssh; cases "ssh_endpoint ssh")
       (simp add: normalize_ssh_def Let_def ssh_normal_def proxy_normal_id identity_normal_id)
qed

definition tcp_normal :: "TcpConnection \<Rightarrow> bool" where
  "tcp_normal tcp \<longleftrightarrow>
     trim (tcp_host tcp) = tcp_host tcp \<and> proxy_normal (tcp_proxy tcp) \<and>
     100 \<le> tcp_reconnect_delay_ms tcp \<and> tcp_reconnect_delay_ms tcp \<le> 60000 \<and>
     1 \<le> tcp_keepalive_idle_seconds tcp \<and> tcp_keepalive_idle_seconds tcp \<le> 86400 \<and>
     1 \<le> tcp_keepalive_interval_seconds tcp \<and> tcp_keepalive_interval_seconds tcp \<le> 3600 \<and>
     1 \<le> tcp_keepalive_retries tcp \<and> tcp_keepalive_retries tcp \<le> 20 \<and>
     (\<forall>name. tcp_tls_server_name tcp = Some name \<longrightarrow> normalize_tls_server_name name = Some name)"

lemma tls_server_name_fixed: "normalize_tls_server_name s = Some n \<Longrightarrow> normalize_tls_server_name n = Some n"
  using normalize_tls_server_name_idem [of s] by simp

lemma tcp_normal_normalize: "tcp_normal (normalize_tcp tcp)"
  by (cases "tcp_tls_server_name tcp")
     (auto simp add: tcp_normal_def normalize_tcp_def tcp_normalize_health_def clamp_bounds proxy_normal_normalize
       dest: tls_server_name_fixed)

lemma tcp_normal_id: "tcp_normal tcp \<Longrightarrow> normalize_tcp tcp = tcp"
  by (cases tcp; cases "tcp_tls_server_name tcp")
     (simp_all add: tcp_normal_def normalize_tcp_def tcp_normalize_health_def clamp_id proxy_normal_id)

definition connection_normal :: "('net, 'ip) net_ops \<Rightarrow> ustr \<Rightarrow> ConnectionConfig \<Rightarrow> bool" where
  "connection_normal net profile_id connection \<longleftrightarrow>
     (case connection of
        ConnSsh ssh \<Rightarrow> ssh_normal net profile_id ssh
      | ConnTmux ssh \<Rightarrow> ssh_normal net profile_id ssh
      | ConnTcp tcp \<Rightarrow> tcp_normal tcp
      | ConnTelnet tcp \<Rightarrow> tcp_normal tcp
      | ConnSerial serial \<Rightarrow>
          (trim (ser_port serial) = [] \<longrightarrow> ser_port serial = []) \<and>
          100 \<le> ser_reconnect_delay_ms serial \<and> ser_reconnect_delay_ms serial \<le> 60000 \<and>
          1 \<le> ser_receive_idle_timeout_seconds serial \<and> ser_receive_idle_timeout_seconds serial \<le> 86400
      | ConnShell shell \<Rightarrow> trim (sh_program shell) = [] \<longrightarrow> sh_program shell = [])"

lemma connection_normal_normalize:
  "trim profile_id = profile_id \<Longrightarrow> profile_id \<noteq> [] \<Longrightarrow>
   connection_normal net profile_id (normalize_connection net profile_id connection)"
  by (cases connection)
     (simp_all add: connection_normal_def normalize_connection_def ssh_normal_normalize tcp_normal_normalize
       serial_normalize_health_def clamp_bounds)

lemma connection_normal_id:
  assumes "connection_normal net profile_id connection" "trim profile_id = profile_id" "profile_id \<noteq> []"
  shows "normalize_connection net profile_id connection = connection"
proof (cases connection)
  case (ConnSerial serial)
  then show ?thesis
    using assms(1) by (cases serial) (auto simp add: connection_normal_def normalize_connection_def serial_normalize_health_def clamp_id)
next
  case (ConnShell shell)
  then show ?thesis using assms(1) by (cases shell) (auto simp add: connection_normal_def normalize_connection_def)
qed (use assms in \<open>simp_all add: connection_normal_def normalize_connection_def ssh_normal_id tcp_normal_id\<close>)

section \<open>Normal profiles\<close>

definition terminal_normal :: "TerminalSettings \<Rightarrow> bool" where
  "terminal_normal t \<longleftrightarrow>
     normalized_terminal_name (term_term t) = term_term t \<and>
     1 \<le> term_rows t \<and> term_rows t \<le> 512 \<and> 1 \<le> term_cols t \<and> term_cols t \<le> 1024 \<and>
     term_scrollback t \<le> 10000000 \<and>
     normalized_terminal_font_family (term_font_family t) = term_font_family t \<and>
     6 \<le> term_font_size t \<and> term_font_size t \<le> 72 \<and>
     term_theme t \<in> set SUPPORTED_TERMINAL_THEMES \<and>
     20 \<le> term_background_opacity t \<and> term_background_opacity t \<le> 100"

lemma theme_supported: "normalized_terminal_theme t \<in> set SUPPORTED_TERMINAL_THEMES"
  by (simp add: normalized_terminal_theme_def SUPPORTED_TERMINAL_THEMES_def)

lemma theme_fixed: "t \<in> set SUPPORTED_TERMINAL_THEMES \<Longrightarrow> normalized_terminal_theme t = t"
  by (auto simp add: normalized_terminal_theme_def SUPPORTED_TERMINAL_THEMES_def DEFAULT_TERMINAL_THEME_def
      trim_def trim_start_def trim_end_def is_whitespace_def)

lemma terminal_normal_normalize: "terminal_normal (normalize_terminal_settings t)"
  by (simp add: terminal_normal_def normalize_terminal_settings_def clamp_bounds theme_supported)

lemma terminal_normal_id: "terminal_normal t \<Longrightarrow> normalize_terminal_settings t = t"
  by (cases t) (simp add: terminal_normal_def normalize_terminal_settings_def clamp_id theme_fixed min_def)

definition profile_normal :: "trigger_env \<Rightarrow> ('net, 'ip) net_ops \<Rightarrow> SessionProfile \<Rightarrow> bool" where
  "profile_normal env net p \<longleftrightarrow>
     prof_id p \<noteq> [] \<and> prof_id p \<noteq> MCP_NO_SESSIONS_SENTINEL \<and> metadata_text 256 (prof_id p) \<and>
     prof_name p \<noteq> [] \<and> metadata_text 128 (prof_name p) \<and> metadata_text 256 (prof_group p) \<and>
     tags_normal (prof_tags p) \<and> prof_kind p = connection_kind (prof_connection p) \<and>
     terminal_normal (prof_terminal p) \<and> log_retention_days (prof_logging p) \<le> 3650 \<and>
     is_ok (validate_triggers env (prof_triggers p)) \<and>
     connection_normal net (prof_id p) (prof_connection p)"

text \<open>\<open>Uuid::new_v4().to_string()\<close> gives 36 hexadecimal digits and hyphens.\<close>

definition uuid_text :: "ustr \<Rightarrow> bool" where
  "uuid_text u \<longleftrightarrow> length u = 36 \<and> (\<forall>c \<in> set u. is_ascii_hexdigit c \<or> c = 45)"

lemma session_uuid:
  assumes "uuid_text u"
  shows "metadata_text 256 (str ''session-'' @ u)" "str ''session-'' @ u \<noteq> []"
    "str ''session-'' @ u \<noteq> MCP_NO_SESSIONS_SENTINEL"
proof -
  have "\<not> is_control c \<and> \<not> is_whitespace c" if "c \<in> set u" for c
    using that assms by (auto simp add: uuid_text_def is_control_def is_whitespace_def is_ascii_hexdigit_def is_ascii_digit_def)
  moreover have "u \<noteq> []" using assms by (auto simp add: uuid_text_def)
  moreover have "length u = 36" using assms by (simp add: uuid_text_def)
  ultimately show "metadata_text 256 (str ''session-'' @ u)"
    by (auto simp add: metadata_text_def trim_eq_self_iff is_control_def is_whitespace_def)
  show "str ''session-'' @ u \<noteq> []" by simp
  show "str ''session-'' @ u \<noteq> MCP_NO_SESSIONS_SENTINEL" by (simp add: MCP_NO_SESSIONS_SENTINEL_def)
qed

lemma profile_name_normal: "profile_name_of i name \<noteq> [] \<and> metadata_text 128 (profile_name_of i name)"
proof -
  have "metadata_text 128 UNNAMED_SESSION" "UNNAMED_SESSION \<noteq> []"
    by (simp_all add: metadata_text_def UNNAMED_SESSION_def trim_eq_self_iff is_control_def is_whitespace_def)
  then show ?thesis by (simp add: profile_name_of_def Let_def)
qed

lemma normalize_profile_normal:
  assumes "uuid_text uuid"
  shows "profile_normal env net (normalize_session_profile env net uuid p)"
proof -
  let ?i = "normalized_session_profile_id (prof_id p)"
  let ?id = "if ?i = [] \<or> ?i = MCP_NO_SESSIONS_SENTINEL then str ''session-'' @ uuid else ?i"
  have i: "?id \<noteq> [] \<and> ?id \<noteq> MCP_NO_SESSIONS_SENTINEL \<and> metadata_text 256 ?id"
    using session_uuid [OF assms] by (simp add: normalized_session_profile_id_def)
  then have "connection_normal net ?id (normalize_connection net ?id (prof_connection p))"
    by (intro connection_normal_normalize) (auto simp add: metadata_text_def)
  moreover have "connection_kind (normalize_connection net ?id (prof_connection p)) = connection_kind (prof_connection p)"
    by (cases "prof_connection p") (simp_all add: normalize_connection_def)
  ultimately show ?thesis
    using i trigger_list.norm_accepted [of env "prof_triggers p"] normalize_tags_normal [of "[]" "prof_tags p"]
    by (simp add: profile_normal_def normalize_session_profile_def Let_def profile_name_normal terminal_normal_normalize
        tags_normal_def)
qed

lemma normalize_profile_id:
  assumes "profile_normal env net p"
  shows "normalize_session_profile env net uuid p = p"
proof -
  have n: "trim (prof_id p) = prof_id p" "prof_id p \<noteq> []" using assms by (simp_all add: profile_normal_def metadata_text_def)
  have "normalized_session_profile_id (prof_id p) = prof_id p"
    using assms by (simp add: profile_normal_def normalized_session_profile_id_def normalized_metadata_id)
  moreover have "profile_name_of (prof_id p) (prof_name p) = prof_name p"
    using assms by (simp add: profile_normal_def profile_name_of_def normalized_metadata_id)
  moreover have "normalize_connection net (prof_id p) (prof_connection p) = prof_connection p"
    using assms n by (intro connection_normal_id) (simp_all add: profile_normal_def)
  moreover have "normalize_triggers env (prof_triggers p) = prof_triggers p"
    using assms by (intro trigger_list.accepted_norm) (simp add: profile_normal_def)
  moreover have "normalize_tags [] (prof_tags p) = prof_tags p"
    using assms normalize_tags_id [of "[]"] by (simp add: profile_normal_def)
  moreover have "(prof_logging p)\<lparr>log_retention_days := min (log_retention_days (prof_logging p)) 3650\<rparr> = prof_logging p"
    using assms by (cases "prof_logging p") (simp add: profile_normal_def min_def)
  ultimately show ?thesis
    using assms by (cases p) (simp add: profile_normal_def normalize_session_profile_def normalized_metadata_id terminal_normal_id)
qed

section \<open>Property\<close>

text \<open>
  C17. Normalising a session profile gives a profile in normal form, and exactly the profiles in
  normal form are left as they are: identifiers, names, tags, terminal settings and health settings
  are inside their limits, the triggers and tunnels are accepted by their validators, the trusted
  keys of the profile scope belong to the profile, every jump has a host, a port and a user when
  the connection has one, and the authentication order is not empty and has no repetition.
\<close>

theorem profile_normal_form:
  assumes "uuid_text uuid"
  shows "profile_normal env net (normalize_session_profile env net uuid p) \<and>
    (normalize_session_profile env net uuid p = p \<longleftrightarrow> profile_normal env net p)"
  using normalize_profile_normal [OF assms, of env net p] normalize_profile_id [of env net p uuid] by metis

text \<open>A profile without an identifier and with settings out of their limits.\<close>

definition sample_profile :: SessionProfile where
  "sample_profile =
     \<lparr>prof_id = [32, 7], prof_name = [], prof_kind = KShell, prof_group = [], prof_tags = [[97], [32, 97], []],
      prof_connection = ConnTcp (default_tcp\<lparr>tcp_reconnect_delay_ms := 5\<rparr>),
      prof_terminal = default_terminal_settings\<lparr>term_rows := 0\<rparr>, prof_logging = default_logging_settings,
      prof_triggers = [], prof_transfer = default_transfer_settings\<rparr>"

theorem profile_normal_form_witness:
  "\<forall>env net. profile_normal env (net :: (nat, nat) net_ops)
       (normalize_session_profile env net (replicate 36 48) sample_profile) \<and>
     prof_tags (normalize_session_profile env net (replicate 36 48) sample_profile) = [[97]] \<and>
     normalize_session_profile env net (replicate 36 48) sample_profile \<noteq> sample_profile"
proof (intro allI conjI)
  fix env and net :: "(nat, nat) net_ops"
  let ?p = "normalize_session_profile env net (replicate 36 48) sample_profile"
  have u: "uuid_text (replicate 36 48)" by (simp add: uuid_text_def is_ascii_hexdigit_def is_ascii_digit_def)
  note form = profile_normal_form [OF u, of env net sample_profile]
  show "profile_normal env net ?p" using form by blast
  have "prof_kind sample_profile \<noteq> connection_kind (prof_connection sample_profile)" by (simp add: sample_profile_def)
  then show "?p \<noteq> sample_profile" using form by (auto simp add: profile_normal_def)
  show "prof_tags ?p = [[97]]"
    by (simp add: normalize_session_profile_def sample_profile_def Let_def normalized_profile_metadata_text_def
        is_control_def trim_def trim_start_def trim_end_def is_whitespace_def)
qed

end
