(* ===== verification/Transactions.thy ===== *)
theory Transactions
  imports Store_Security
begin

text \<open>
  The commits of the store (\<open>src-tauri/src/store_transactions.rs\<close>). A mutation, the save and the
  check of what is on disk after a failed save are arguments. A copy of the store shares the
  outbox of system events with the original: \<open>rolled_back\<close> is the copy taken before a mutation,
  seen after it. The emulators of terminal screens are shared as well; the mutations committed
  here draw on no screen, which the results state as a hypothesis where it matters. The worker
  that drains the outbox holds the lock of the store, so no draining falls inside a commit.
\<close>

datatype StoreCommitState = NotCommitted | CommitUnknown

record StoreCommitError =
  sce_state :: StoreCommitState
  sce_message :: ustr

definition not_committed :: "ustr \<Rightarrow> StoreCommitError" where
  "not_committed message = \<lparr>sce_state = NotCommitted, sce_message = message\<rparr>"

definition commit_unknown :: "ustr \<Rightarrow> StoreCommitError" where
  "commit_unknown message = \<lparr>sce_state = CommitUnknown, sce_message = message\<rparr>"

text \<open>The message of an unknown outcome; its wording for the user is left out.\<close>

definition unknown_message :: "ustr \<Rightarrow> ustr \<Rightarrow> ustr" where
  "unknown_message save_error verify_error = save_error @ str ''; '' @ verify_error"

type_synonym ('vt, 'r) mutation = "'vt SessionStore \<Rightarrow> 'vt SessionStore \<times> (ustr + 'r)"

definition rolled_back :: "'vt SessionStore \<Rightarrow> 'vt SessionStore \<Rightarrow> 'vt SessionStore" where
  "rolled_back before after = before\<lparr>st_sink := st_sink after\<rparr>"

text \<open>
  How a save ends: \<open>Inr ()\<close> when the intended snapshot is known to be on disk, otherwise the
  error with the state of the commit. It is the \<open>if let Err\<close> and \<open>match\<close> all commits share.
\<close>

definition save_outcome ::
  "('vt SessionStore \<Rightarrow> ustr + unit) \<Rightarrow> ('vt SessionStore \<Rightarrow> ustr + bool) \<Rightarrow> 'vt SessionStore
     \<Rightarrow> StoreCommitError + unit" where
  "save_outcome persist verify_after_error next_store =
     (case persist next_store of
        Inr _ \<Rightarrow> Inr ()
      | Inl save_error \<Rightarrow>
          (case verify_after_error next_store of
             Inr True \<Rightarrow> Inr ()
           | Inr False \<Rightarrow> Inl (not_committed save_error)
           | Inl verify_error \<Rightarrow> Inl (commit_unknown (unknown_message save_error verify_error))))"

definition commit_store_mutation_with_state ::
  "('vt, 'r) mutation \<Rightarrow> ('vt SessionStore \<Rightarrow> ustr + unit) \<Rightarrow> ('vt SessionStore \<Rightarrow> ustr + bool)
     \<Rightarrow> 'vt SessionStore \<Rightarrow> 'vt SessionStore \<times> (StoreCommitError + 'r)" where
  "commit_store_mutation_with_state mutate persist verify_after_error store =
     (let (next_store, result) = mutate store
      in case result of
           Inl e \<Rightarrow> (rolled_back store next_store, Inl (not_committed e))
         | Inr v \<Rightarrow>
             (case save_outcome persist verify_after_error next_store of
                Inl e \<Rightarrow> (rolled_back store next_store, Inl e)
              | Inr _ \<Rightarrow> (next_store, Inr v)))"

definition commit_store_mutation ::
  "('vt, 'r) mutation \<Rightarrow> ('vt SessionStore \<Rightarrow> ustr + unit) \<Rightarrow> ('vt SessionStore \<Rightarrow> ustr + bool)
     \<Rightarrow> 'vt SessionStore \<Rightarrow> 'vt SessionStore \<times> (ustr + 'r)" where
  "commit_store_mutation mutate persist verify_after_error store =
     map_prod id (map_err sce_message) (commit_store_mutation_with_state mutate persist verify_after_error store)"

text \<open>An error of the mutation itself leaves what the mutation had already done.\<close>

definition commit_tracked_store_mutation_with ::
  "('vt, 'r \<times> ustr list) mutation \<Rightarrow> ('vt SessionStore \<Rightarrow> ustr + unit) \<Rightarrow> ('vt SessionStore \<Rightarrow> ustr + bool)
     \<Rightarrow> 'vt SessionStore \<Rightarrow> 'vt SessionStore \<times> (ustr + 'r)" where
  "commit_tracked_store_mutation_with mutate persist verify_after_error store =
     (let before = store;
          (store, result) = mutate store
      in case result of
           Inl e \<Rightarrow> (store, Inl e)
         | Inr (v, event_ids) \<Rightarrow>
             (case save_outcome persist verify_after_error store of
                Inl e \<Rightarrow>
                  (let store = fold discard_queued_system_event event_ids store
                   in (rolled_back before store, Inl (sce_message e)))
              | Inr _ \<Rightarrow> (store, Inr v)))"

definition persist_applied_store_with ::
  "('vt SessionStore \<Rightarrow> ustr + unit) \<Rightarrow> ('vt SessionStore \<Rightarrow> ustr + bool) \<Rightarrow> 'vt SessionStore \<Rightarrow> ustr + unit" where
  "persist_applied_store_with persist verify_after_error store =
     map_err sce_message (save_outcome persist verify_after_error store)"

definition append_logging_error :: "ustr \<Rightarrow> SessionEvent \<Rightarrow> SessionEvent" where
  "append_logging_error error event =
     (if error = [] then event
      else
        let key = str ''loggingError'';
            current = (case ev_annotations event key of None \<Rightarrow> [] | Some t \<Rightarrow> t);
            current = (if current \<noteq> [] then current @ str ''; '' else current)
        in event\<lparr>ev_annotations := (ev_annotations event)(key \<mapsto> current @ error)\<rparr>)"

definition record_applied_system_event_with ::
  "(nat \<Rightarrow> TrySend) \<Rightarrow> ustr \<Rightarrow> time \<Rightarrow> ustr \<Rightarrow> ustr
     \<Rightarrow> ('vt SessionStore \<Rightarrow> ustr + unit) \<Rightarrow> ('vt SessionStore \<Rightarrow> ustr + bool)
     \<Rightarrow> 'vt SessionStore \<Rightarrow> 'vt SessionStore \<times> (ustr + unit)" where
  "record_applied_system_event_with chan uuid now session_id message persist verify_after_error store =
     (case record_system_event_tracked chan uuid now session_id message store of
        (store, None) \<Rightarrow>
          (store, Inl (str ''session profile unavailable after applied operation: '' @ session_id))
      | (store, Some event_id) \<Rightarrow>
          (case persist_applied_store_with persist verify_after_error store of
             Inl error \<Rightarrow>
               (store\<lparr>st_events := update_first (\<lambda>e. ev_id e = event_id)
                        (append_logging_error (str ''store save failed: '' @ error)) (st_events store)\<rparr>,
                Inl error)
           | Inr _ \<Rightarrow> (store, Inr ())))"

section \<open>Facts\<close>

lemma save_outcome_ok:
  "save_outcome persist verify st = Inr u \<longleftrightarrow>
     is_ok (persist st) \<or> verify st = Inr True"
  by (auto simp add: save_outcome_def split: sum.splits bool.splits)

lemma save_outcome_not_committed:
  assumes "save_outcome persist verify st = Inl e" "sce_state e = NotCommitted"
  shows "\<exists>save_error. persist st = Inl save_error \<and> verify st = Inr False"
  using assms by (auto simp add: save_outcome_def not_committed_def commit_unknown_def split: sum.splits bool.splits)

lemma fold_discard_outbox:
  "sink_outbox (st_sink (fold discard_queued_system_event ids st)) =
     filter (\<lambda>(e, _). ev_id e \<notin> set ids) (sink_outbox (st_sink st))"
proof (induction ids arbitrary: st)
  case (Cons i ids)
  have "sink_outbox (st_sink (fold discard_queued_system_event ids (discard_queued_system_event i st))) =
      filter (\<lambda>(e, _). ev_id e \<notin> set ids) (filter (\<lambda>(e, _). ev_id e \<noteq> i) (sink_outbox (st_sink st)))"
    by (subst Cons.IH) (simp add: discard_queued_system_event_def discard_event_def)
  also have "\<dots> = filter (\<lambda>(e, _). ev_id e \<notin> set (i # ids)) (sink_outbox (st_sink st))"
    by (auto simp add: filter_filter intro!: filter_cong)
  finally show ?case by simp
qed simp

text \<open>What a mutation enqueues is covered by the identifiers it tracks.\<close>

definition tracks ::
  "'vt SessionStore \<Rightarrow> ustr list \<Rightarrow> 'vt SessionStore \<Rightarrow> bool" where
  "tracks before ids after \<longleftrightarrow>
     (\<exists>added. sink_outbox (st_sink after) = sink_outbox (st_sink before) @ added \<and>
              (\<forall>(e, p) \<in> set added. ev_id e \<in> set ids)) \<and>
     (\<forall>(e, p) \<in> set (sink_outbox (st_sink before)). ev_id e \<notin> set ids)"

lemma tracks_discard:
  assumes "tracks before ids after"
  shows "sink_outbox (st_sink (fold discard_queued_system_event ids after)) = sink_outbox (st_sink before)"
proof -
  obtain added where a: "sink_outbox (st_sink after) = sink_outbox (st_sink before) @ added"
    "\<forall>(e, p) \<in> set added. ev_id e \<in> set ids"
    "\<forall>(e, p) \<in> set (sink_outbox (st_sink before)). ev_id e \<notin> set ids"
    using assms by (auto simp add: tracks_def)
  have "filter (\<lambda>(e, _). ev_id e \<notin> set ids) added = []"
    "filter (\<lambda>(e, _). ev_id e \<notin> set ids) (sink_outbox (st_sink before)) = sink_outbox (st_sink before)"
    using a(2,3) by (auto simp add: filter_empty_conv filter_id_conv)
  then show ?thesis by (simp add: fold_discard_outbox a(1))
qed

text \<open>Recording one system event under a fresh identifier is tracked by it.\<close>

lemma push_event_sink [simp]: "st_sink (push_event e st) = st_sink st"
  by (simp add: push_event_def trim_events_if_needed_def Let_def)

lemma push_system_event_sink:
  "push_system_event chan uuid now sid text st = (st', Some i) \<Longrightarrow>
     i = uuid \<and> (\<exists>p. st_sink st' = fst (enqueue chan (system_event uuid now sid text, Some p) (st_sink st)))"
  by (auto simp add: push_system_event_def Let_def split: option.splits prod.splits)
     (metis fst_conv)

lemma record_tracked_tracks:
  assumes "record_system_event_tracked chan uuid now sid text st = (st', Some i)"
    "\<forall>(e, p) \<in> set (sink_outbox (st_sink st)). ev_id e \<noteq> uuid"
  shows "tracks st [i] st'"
proof -
  obtain p where p: "i = uuid"
    "st_sink st' = fst (enqueue chan (system_event uuid now sid text, Some p) (st_sink st))"
    using assms(1) push_system_event_sink unfolding record_system_event_tracked_def by blast
  have "ev_id (system_event uuid now sid text) = uuid" by (simp add: system_event_def)
  then show ?thesis
    using assms(2) by (auto simp add: tracks_def p enqueue_outbox)
qed

lemma tracks_none:
  assumes "st_sink after = st_sink before"
  shows "tracks before [] after"
  using assms by (auto simp add: tracks_def)

text \<open>A mutation that changes something else first and then records one event tracks what it enqueues.\<close>

definition recorded_ids :: "ustr option \<Rightarrow> ustr list" where
  "recorded_ids event_id = (case event_id of None \<Rightarrow> [] | Some i \<Rightarrow> [i])"

lemma push_none_unchanged: "push_system_event chan uuid now sid text st = (st', None) \<Longrightarrow> st' = st"
  by (auto simp add: push_system_event_def Let_def split: option.splits prod.splits)

lemma record_after_change_tracks:
  assumes "record_system_event_tracked chan uuid now sid text st1 = (st2, event_id)" "st_sink st1 = st_sink st"
    "\<forall>(e, p) \<in> set (sink_outbox (st_sink st)). ev_id e \<noteq> uuid"
  shows "tracks st (recorded_ids event_id) st2"
proof (cases event_id)
  case None
  then have "st2 = st1" using assms(1) push_none_unchanged unfolding record_system_event_tracked_def by blast
  then show ?thesis using assms(2) None by (auto simp add: tracks_def recorded_ids_def)
next
  case (Some i)
  then have "tracks st1 [i] st2" using assms record_tracked_tracks [of chan uuid now sid "text" st1 st2 i] by simp
  then show ?thesis using assms(2) Some by (simp add: tracks_def recorded_ids_def)
qed

text \<open>An untracked commit that fails leaves the store as it was, unless the mutation enqueued.\<close>

lemma commit_failed_unchanged:
  assumes "commit_store_mutation_with_state mutate persist verify st = (st', Inl e)"
    "st_sink (fst (mutate st)) = st_sink st"
  shows "st' = st"
  using assms
  by (auto simp add: commit_store_mutation_with_state_def rolled_back_def split: prod.splits sum.splits)

lemma commit_done:
  assumes "commit_store_mutation_with_state mutate persist verify st = (st', Inr v)"
  shows "mutate st = (st', Inr v) \<and> (is_ok (persist st') \<or> verify st' = Inr True)"
  using assms
  by (auto simp add: commit_store_mutation_with_state_def save_outcome_ok split: prod.splits sum.splits)

text \<open>The message form of the commit, as its callers use it.\<close>

lemma commit_mutation_done:
  assumes "commit_store_mutation mutate persist verify st = (st', Inr v)"
  shows "mutate st = (st', Inr v) \<and> (is_ok (persist st') \<or> verify st' = Inr True)"
proof -
  obtain s r where c: "commit_store_mutation_with_state mutate persist verify st = (s, r)"
    by (cases "commit_store_mutation_with_state mutate persist verify st")
  then show ?thesis
    using assms by (auto simp add: commit_store_mutation_def map_err_eq_Inr dest: commit_done)
qed

lemma commit_mutation_failed:
  assumes "commit_store_mutation mutate persist verify st = (st', Inl e)"
    "st_sink (fst (mutate st)) = st_sink st"
  shows "st' = st"
proof -
  obtain s r where c: "commit_store_mutation_with_state mutate persist verify st = (s, r)"
    by (cases "commit_store_mutation_with_state mutate persist verify st")
  then obtain e' where "r = Inl e'" "s = st'"
    using assms(1) by (cases r) (auto simp add: commit_store_mutation_def)
  then show ?thesis using commit_failed_unchanged [where mutate = mutate and st = st] c assms(2) by blast
qed


definition ex_commit_store :: "unit SessionStore" where
  "ex_commit_store = default_store\<lparr>st_sink :=
     \<lparr>sink_status = SinkActive 0, sink_outbox = [], sink_poisoned = False\<rparr>\<rparr>"

definition ex_commit_mutation :: "(unit, nat \<times> ustr list) mutation" where
  "ex_commit_mutation st =
     (let e = system_event [1] 0 [2] [3]
      in (push_event e (st\<lparr>st_sink := fst (enqueue (\<lambda>_. SendOk) (e, None) (st_sink st))\<rparr>), Inr (7, [[1]])))"

lemma ex_commit_tracks: "tracks ex_commit_store [[1]] (fst (ex_commit_mutation ex_commit_store))"
  by (auto simp add: tracks_def ex_commit_mutation_def ex_commit_store_def enqueue_def system_event_def Let_def)


end
