(* ===== verification/Mcp_Control.thy ===== *)
theory Mcp_Control
  imports Store_Security "HOL-Library.List_Lexorder"
begin

text \<open>
  The administration of MCP access in the desktop process (\<open>src-tauri/src/mcp_control.rs\<close>): the
  normal form of client identifiers and grants, the grants of the store, the settings of the HTTP
  bridge and the queue of approvals the user has to answer. Numeric addresses and the \<open>url\<close> crate
  are arguments. An approval is awaited in \<open>await_mcp_approval\<close>; what happens while it is pending
  (the clock readings, whether the window shows it, the answer) is an argument.
\<close>

abbreviation (input) MAX_MCP_HTTP_ORIGINS :: nat where "MAX_MCP_HTTP_ORIGINS \<equiv> 32"
abbreviation (input) MAX_MCP_HTTP_ORIGIN_BYTES :: nat where "MAX_MCP_HTTP_ORIGIN_BYTES \<equiv> 512"
abbreviation (input) MAX_MCP_HTTP_CLIENT_HOST_BYTES :: nat where "MAX_MCP_HTTP_CLIENT_HOST_BYTES \<equiv> 253"
abbreviation (input) MAX_MCP_GRANTS :: nat where "MAX_MCP_GRANTS \<equiv> 512"
abbreviation (input) MAX_MCP_GRANT_CLIENT_ID_BYTES :: nat where "MAX_MCP_GRANT_CLIENT_ID_BYTES \<equiv> 128"
abbreviation (input) MAX_MCP_GRANT_NAME_BYTES :: nat where "MAX_MCP_GRANT_NAME_BYTES \<equiv> 256"
abbreviation (input) MAX_MCP_GRANT_SCOPES :: nat where "MAX_MCP_GRANT_SCOPES \<equiv> 13"
abbreviation (input) MAX_MCP_GRANT_SESSIONS :: nat where "MAX_MCP_GRANT_SESSIONS \<equiv> 1024"
abbreviation (input) MAX_MCP_GRANT_SESSION_ID_BYTES :: nat where "MAX_MCP_GRANT_SESSION_ID_BYTES \<equiv> 128"
abbreviation (input) MAX_PENDING_MCP_APPROVALS :: nat where "MAX_PENDING_MCP_APPROVALS \<equiv> 32"

datatype ControlError =
    InvalidClientId | InvalidGrantName | TooManyScopes | DuplicateScopes | TooManySessions
  | MixedSentinel | InvalidGrantSession | DuplicateSessions | GrantLimit
  | ListenAddress | ListenPort | RemoteNotApproved | ClientHostText | ClientHostFormat | UnspecifiedClientHost
  | OriginText | OriginFormat | OriginParts | OriginNull | TooManyOrigins | DuplicateOrigins
  | InvalidApprovalSession | ApprovalQueueFull | ApprovalNotShown | ApprovalChannelClosed
  | InvalidApprovalId | ApprovalNotPending | ApprovalNotAwaited | NoActiveGrant | SettingsChanged

section \<open>Grants\<close>

text \<open>The test \<open>value.is_empty() || value.len() > max || value.chars().any(char::is_control)\<close>, negated.\<close>

definition printable_id :: "nat \<Rightarrow> ustr \<Rightarrow> bool" where
  "printable_id max_bytes v \<longleftrightarrow> v \<noteq> [] \<and> byte_len v \<le> max_bytes \<and> \<not> list_ex is_control v"

definition normalize_mcp_client_id :: "ustr \<Rightarrow> ControlError + ustr" where
  "normalize_mcp_client_id client_id =
     (let client_id = trim client_id
      in if printable_id MAX_MCP_GRANT_CLIENT_ID_BYTES client_id then Inr client_id else Inl InvalidClientId)"

fun grant_sessions_loop :: "nat \<Rightarrow> ustr list \<Rightarrow> ustr list \<Rightarrow> ControlError + ustr list" where
  "grant_sessions_loop allowed_session_count allowed_sessions [] = Inr allowed_sessions"
| "grant_sessions_loop allowed_session_count allowed_sessions (session_id # rest) =
     (let session_id = trim session_id
      in if session_id = MCP_NO_SESSIONS_SENTINEL then
           if allowed_sessions \<noteq> [] \<or> allowed_session_count \<noteq> 1 then Inl MixedSentinel
           else grant_sessions_loop allowed_session_count (allowed_sessions @ [MCP_NO_SESSIONS_SENTINEL]) rest
         else if \<not> printable_id MAX_MCP_GRANT_SESSION_ID_BYTES session_id then Inl InvalidGrantSession
         else if session_id \<in> set allowed_sessions then Inl DuplicateSessions
         else grant_sessions_loop allowed_session_count (allowed_sessions @ [session_id]) rest)"

definition normalize_mcp_grant :: "McpGrant \<Rightarrow> ControlError + McpGrant" where
  "normalize_mcp_grant grant =
     and_then (normalize_mcp_client_id (gr_client_id grant)) (\<lambda>client_id.
       let name = trim (gr_name grant)
       in and_then (ensure (byte_len name \<le> MAX_MCP_GRANT_NAME_BYTES \<and> \<not> list_ex is_control name) InvalidGrantName) (\<lambda>_.
          and_then (ensure (length (gr_scopes grant) \<le> MAX_MCP_GRANT_SCOPES) TooManyScopes) (\<lambda>_.
          and_then (ensure (distinct (gr_scopes grant)) DuplicateScopes) (\<lambda>_.
          and_then (ensure (length (gr_allowed_sessions grant) \<le> MAX_MCP_GRANT_SESSIONS) TooManySessions) (\<lambda>_.
          and_then (grant_sessions_loop (length (gr_allowed_sessions grant)) [] (gr_allowed_sessions grant)) (\<lambda>allowed_sessions.
            Inr (grant\<lparr>gr_client_id := client_id, gr_name := name, gr_allowed_sessions := allowed_sessions\<rparr>)))))))"

definition upsert_mcp_grant_in_store ::
  "McpGrant \<Rightarrow> 'vt SessionStore \<Rightarrow> 'vt SessionStore \<times> (ControlError + McpGrant list)" where
  "upsert_mcp_grant_in_store grant st =
     (if list_ex (\<lambda>g. gr_client_id g = gr_client_id grant) (st_grants st) then
        let st = st\<lparr>st_grants := update_first (\<lambda>g. gr_client_id g = gr_client_id grant) (\<lambda>_. grant) (st_grants st)\<rparr>
        in (st, Inr (st_grants st))
      else if MAX_MCP_GRANTS \<le> length (st_grants st) then (st, Inl GrantLimit)
      else
        let st = st\<lparr>st_grants := st_grants st @ [grant]\<rparr>
        in (st, Inr (st_grants st)))"

definition revoke_mcp_grant_from_store :: "ustr \<Rightarrow> 'vt SessionStore \<Rightarrow> 'vt SessionStore \<times> McpGrant list" where
  "revoke_mcp_grant_from_store client_id st =
     (let st = st\<lparr>st_grants := filter (\<lambda>g. gr_client_id g \<noteq> client_id) (st_grants st)\<rparr>
      in (st, st_grants st))"

definition mcp_http_client_has_active_grant :: "'vt SessionStore \<Rightarrow> ustr \<Rightarrow> time \<Rightarrow> bool" where
  "mcp_http_client_has_active_grant st client_id now \<longleftrightarrow>
     (let client_id = trim client_id
      in client_id \<noteq> [] \<and>
         list_ex (\<lambda>g. gr_client_id g = client_id \<and> gr_revoked_at g = None \<and>
                      (case gr_expires_at g of None \<Rightarrow> True | Some expires \<Rightarrow> \<not> expires \<le> now)) (st_grants st))"

definition require_active_mcp_http_client :: "time \<Rightarrow> 'vt SessionStore \<Rightarrow> ustr \<Rightarrow> ControlError + unit" where
  "require_active_mcp_http_client now st client_id =
     ensure (mcp_http_client_has_active_grant st client_id now) NoActiveGrant"

definition require_unchanged_mcp_http_settings ::
  "McpHttpSettings \<Rightarrow> McpHttpSettings option \<Rightarrow> ControlError + unit" where
  "require_unchanged_mcp_http_settings current expected =
     (case expected of None \<Rightarrow> Inr () | Some e \<Rightarrow> ensure (e = current) SettingsChanged)"

definition set_mcp_http_settings_in_store ::
  "McpHttpSettings \<Rightarrow> 'vt SessionStore \<Rightarrow> 'vt SessionStore \<times> McpHttpSettings" where
  "set_mcp_http_settings_in_store settings st =
     (let st = st\<lparr>st_mcp_http_settings := settings\<rparr> in (st, st_mcp_http_settings st))"

section \<open>The HTTP bridge\<close>

datatype 'ip url_host = HostDomain ustr | HostAddress 'ip

record parsed_url =
  pu_scheme :: ustr
  pu_has_host :: bool
  pu_username :: ustr
  pu_password :: "ustr option"
  pu_path :: ustr
  pu_query :: "ustr option"
  pu_fragment :: "ustr option"
  pu_origin :: ustr   \<comment> \<open>\<open>origin().ascii_serialization()\<close>\<close>

record 'ip address_ops =
  ao_parse :: "ustr \<Rightarrow> 'ip option"
  ao_text :: "'ip \<Rightarrow> ustr"
  ao_loopback :: "'ip \<Rightarrow> bool"
  ao_unspecified :: "'ip \<Rightarrow> bool"
  ao_v6 :: "'ip \<Rightarrow> bool"
  ao_host :: "ustr \<Rightarrow> 'ip url_host option"
  ao_url :: "ustr \<Rightarrow> parsed_url option"

definition strip_brackets :: "ustr \<Rightarrow> ustr" where
  "strip_brackets v =
     (case strip_prefix v [91] of
        None \<Rightarrow> v
      | Some inner \<Rightarrow> if ends_with inner [93] then butlast inner else v)"

definition normalize_mcp_http_client_host :: "'ip address_ops \<Rightarrow> ustr \<Rightarrow> ControlError + ustr" where
  "normalize_mcp_http_client_host ops v =
     (let v = strip_brackets (trim v)
      in if v = [] \<or> MAX_MCP_HTTP_CLIENT_HOST_BYTES < byte_len v \<or>
            list_ex (\<lambda>c. is_control c \<or> is_whitespace c) v
         then Inl ClientHostText
         else (case ao_host ops v of
                 None \<Rightarrow> Inl ClientHostFormat
               | Some (HostDomain domain) \<Rightarrow> Inr domain
               | Some (HostAddress ip) \<Rightarrow>
                   if ao_unspecified ops ip then Inl UnspecifiedClientHost else Inr (ao_text ops ip)))"

definition normalize_mcp_http_origin :: "'ip address_ops \<Rightarrow> ustr \<Rightarrow> ControlError + ustr" where
  "normalize_mcp_http_origin ops origin =
     (let origin = trim origin
      in if origin = [] \<or> MAX_MCP_HTTP_ORIGIN_BYTES < byte_len origin \<or>
            list_ex (\<lambda>c. is_control c \<or> is_whitespace c) origin \<or> 44 \<in> set origin
         then Inl OriginText
         else if origin = str ''*'' then Inr origin
         else (case ao_url ops origin of
                 None \<Rightarrow> Inl OriginFormat
               | Some parsed \<Rightarrow>
                   if pu_scheme parsed \<notin> {str ''http'', str ''https''} \<or> \<not> pu_has_host parsed \<or>
                      pu_username parsed \<noteq> [] \<or> pu_password parsed \<noteq> None \<or>
                      pu_path parsed \<notin> {[], str ''/''} \<or> pu_query parsed \<noteq> None \<or> pu_fragment parsed \<noteq> None
                   then Inl OriginParts
                   else if pu_origin parsed = str ''null'' then Inl OriginNull
                   else Inr (pu_origin parsed)))"

definition default_mcp_http_origins :: "'ip address_ops \<Rightarrow> 'ip \<Rightarrow> u16 \<Rightarrow> ustr list" where
  "default_mcp_http_origins ops bind_ip port =
     (let port = nat_str (unat port)
      in if ao_unspecified ops bind_ip
         then [str ''http://127.0.0.1:'' @ port, str ''http://localhost:'' @ port]
         else
           let host = (if ao_v6 ops bind_ip then [91] @ ao_text ops bind_ip @ [93] else ao_text ops bind_ip)
           in [str ''http://'' @ host @ str '':'' @ port])"

fun normalize_origins :: "'ip address_ops \<Rightarrow> ustr list \<Rightarrow> ustr list \<Rightarrow> ControlError + ustr list" where
  "normalize_origins ops allowed_origins [] = Inr allowed_origins"
| "normalize_origins ops allowed_origins (origin # rest) =
     and_then (normalize_mcp_http_origin ops origin) (\<lambda>origin.
       if origin \<in> set allowed_origins then Inl DuplicateOrigins
       else normalize_origins ops (allowed_origins @ [origin]) rest)"

definition normalize_mcp_http_settings ::
  "'ip address_ops \<Rightarrow> McpHttpSettings \<Rightarrow> ControlError + McpHttpSettings \<times> 'ip" where
  "normalize_mcp_http_settings ops request =
     and_then (ok_or ListenAddress (ao_parse ops (strip_brackets (trim (mhs_listen_host request))))) (\<lambda>bind_ip.
     and_then (ensure (mhs_port request \<noteq> 0) ListenPort) (\<lambda>_.
     and_then (ensure (ao_loopback ops bind_ip \<or> mhs_allow_remote request) RemoteNotApproved) (\<lambda>_.
     and_then (normalize_mcp_http_client_host ops (mhs_client_host request)) (\<lambda>client_host.
     and_then (normalize_mcp_client_id (mhs_client_id request)) (\<lambda>client_id.
     and_then (ensure (length (mhs_allowed_origins request) \<le> MAX_MCP_HTTP_ORIGINS) TooManyOrigins) (\<lambda>_.
     and_then (normalize_origins ops [] (mhs_allowed_origins request)) (\<lambda>allowed_origins.
       Inr (request
              \<lparr>mhs_listen_host := ao_text ops bind_ip, mhs_client_host := client_host, mhs_client_id := client_id,
               mhs_allow_remote := \<not> ao_loopback ops bind_ip, mhs_trusted := False,
               mhs_allowed_origins := (if allowed_origins = []
                                       then default_mcp_http_origins ops bind_ip (mhs_port request)
                                       else allowed_origins)\<rparr>, bind_ip))))))))"

section \<open>Approvals\<close>

fun mcp_scope_label :: "McpScope \<Rightarrow> ustr" where
  "mcp_scope_label ReadSessions = str ''read-sessions''"
| "mcp_scope_label ReadLogs = str ''read-logs''"
| "mcp_scope_label ReadTransfers = str ''read-transfers''"
| "mcp_scope_label ReadTunnels = str ''read-tunnels''"
| "mcp_scope_label ReadScripts = str ''read-scripts''"
| "mcp_scope_label ReadMcp = str ''read-mcp''"
| "mcp_scope_label WriteInput = str ''write-input''"
| "mcp_scope_label ScopeTransfer = str ''transfer''"
| "mcp_scope_label HostFiles = str ''host-files''"
| "mcp_scope_label ScopeTunnel = str ''tunnel''"
| "mcp_scope_label ManageSessions = str ''manage-sessions''"
| "mcp_scope_label RunScripts = str ''run-scripts''"
| "mcp_scope_label ManageMcp = str ''manage-mcp''"

definition mcp_audit_actor :: "ustr \<Rightarrow> ustr" where
  "mcp_audit_actor client_id =
     (let client_id = trim client_id
      in if client_id = [] then str ''<missing-client-id>''
         else if MAX_MCP_GRANT_CLIENT_ID_BYTES < byte_len client_id \<or> list_ex is_control client_id
         then str ''<invalid-client-id>''
         else client_id)"

definition validate_mcp_session_id :: "ustr \<Rightarrow> ControlError + unit" where
  "validate_mcp_session_id session_id =
     ensure (printable_id MAX_MCP_GRANT_SESSION_ID_BYTES session_id) InvalidApprovalSession"

record McpApprovalTarget =
  apt_kind :: ustr
  apt_id :: ustr
  apt_label :: ustr

record McpApprovalRequest =
  apr_id :: ustr
  apr_client_id :: ustr
  apr_action :: ustr
  apr_session_id :: ustr
  apr_scope :: ustr
  apr_target :: "McpApprovalTarget option"
  apr_created_at :: time
  apr_expires_at :: time

datatype McpApprovalOutcome = Approved | DeniedByUser | TimedOut

abbreviation (input) MCP_APPROVAL_TIMEOUT :: int where "MCP_APPROVAL_TIMEOUT \<equiv> 60000"

text \<open>The queue: the requests that are pending, one for each identifier.\<close>

type_synonym approval_queue = "McpApprovalRequest list"

definition remove_approval :: "ustr \<Rightarrow> approval_queue \<Rightarrow> approval_queue" where
  "remove_approval i pending = filter (\<lambda>r. apr_id r \<noteq> i) pending"

definition build_mcp_approval_request_with_target ::
  "ustr \<Rightarrow> time \<Rightarrow> ustr \<Rightarrow> ustr \<Rightarrow> ustr \<Rightarrow> McpScope \<Rightarrow> McpApprovalTarget option \<Rightarrow> ControlError + McpApprovalRequest" where
  "build_mcp_approval_request_with_target uuid created_at client_id action session_id scope target =
     and_then (validate_mcp_session_id session_id) (\<lambda>_.
       Inr \<lparr>apr_id = uuid, apr_client_id = mcp_audit_actor client_id, apr_action = action,
            apr_session_id = session_id, apr_scope = mcp_scope_label scope, apr_target = target,
            apr_created_at = created_at, apr_expires_at = created_at + MCP_APPROVAL_TIMEOUT\<rparr>)"

definition list_mcp_approvals_inner :: "time \<Rightarrow> approval_queue \<Rightarrow> McpApprovalRequest list" where
  "list_mcp_approvals_inner now pending =
     sort_key apr_created_at (sort_key apr_id (filter (\<lambda>r. now < apr_expires_at r) pending))"

text \<open>\<open>uuid\<close> is \<open>Uuid::parse_str\<close> with the normal text of the identifier; \<open>awaited\<close> says that the requester still waits.\<close>

definition respond_mcp_approval_inner ::
  "(ustr \<Rightarrow> ustr option) \<Rightarrow> time \<Rightarrow> bool \<Rightarrow> ustr \<Rightarrow> bool \<Rightarrow> approval_queue \<Rightarrow> approval_queue \<times> (ControlError + bool)" where
  "respond_mcp_approval_inner uuid now awaited approval_id approved pending =
     (case uuid approval_id of
        None \<Rightarrow> (pending, Inl InvalidApprovalId)
      | Some approval_id \<Rightarrow>
          (case List.find (\<lambda>r. apr_id r = approval_id) pending of
             None \<Rightarrow> (pending, Inl ApprovalNotPending)
           | Some request \<Rightarrow>
               (remove_approval approval_id pending,
                if awaited then Inr (approved \<and> now < apr_expires_at request) else Inl ApprovalNotAwaited)))"

text \<open>
  What happens while a request is pending: three clock readings, whether the window shows the
  request, what the rest of the program does to the queue meanwhile, and how waiting ends.
\<close>

datatype approval_reply = Replied bool | ReplyChannelClosed | WaitElapsed

record approval_env =
  ae_now :: "nat \<Rightarrow> time"
  ae_shown :: bool
  ae_others :: "approval_queue \<Rightarrow> approval_queue"
  ae_reply :: approval_reply

definition await_mcp_approval ::
  "approval_env \<Rightarrow> int \<Rightarrow> McpApprovalRequest \<Rightarrow> approval_queue
     \<Rightarrow> approval_queue \<times> (ControlError + McpApprovalOutcome)" where
  "await_mcp_approval env timeout request pending =
     (if apr_expires_at request \<le> ae_now env 0 then (pending, Inr TimedOut)
      else if MAX_PENDING_MCP_APPROVALS \<le> length pending then (pending, Inl ApprovalQueueFull)
      else
        let pending = remove_approval (apr_id request) pending @ [request];
            remaining = min (max 0 (apr_expires_at request - ae_now env 1)) timeout
        in if \<not> ae_shown env then (remove_approval (apr_id request) pending, Inl ApprovalNotShown)
           else if remaining = 0 then (remove_approval (apr_id request) pending, Inr TimedOut)
           else
             let pending = ae_others env pending
             in case ae_reply env of
                  Replied True \<Rightarrow>
                    (pending, Inr (if ae_now env 2 < apr_expires_at request then Approved else TimedOut))
                | Replied False \<Rightarrow> (pending, Inr DeniedByUser)
                | ReplyChannelClosed \<Rightarrow> (pending, Inl ApprovalChannelClosed)
                | WaitElapsed \<Rightarrow> (remove_approval (apr_id request) pending, Inr TimedOut))"

section \<open>Facts\<close>

lemma normalize_client_id_Inr:
  "normalize_mcp_client_id c = Inr i \<longleftrightarrow> i = trim c \<and> printable_id 128 i"
  by (auto simp add: normalize_mcp_client_id_def Let_def)

lemma grant_sessions_loop_shape:
  assumes "grant_sessions_loop n acc ss = Inr out"
  shows "out = acc @ map trim ss \<and>
    (distinct acc \<longrightarrow> distinct (map trim ss) \<and> (\<forall>s \<in> set ss. trim s \<notin> set acc)) \<and>
    (\<forall>s \<in> set ss. printable_id 128 (trim s)) \<and>
    (MCP_NO_SESSIONS_SENTINEL \<in> set (map trim ss) \<longrightarrow> n = 1)"
  using assms
proof (induction ss arbitrary: acc)
  case (Cons s ss)
  have sentinel: "printable_id 128 MCP_NO_SESSIONS_SENTINEL"
    by (simp add: printable_id_def MCP_NO_SESSIONS_SENTINEL_def byte_len_def len_utf8_def is_control_def)
  show ?case
  proof (cases "trim s = MCP_NO_SESSIONS_SENTINEL")
    case True
    then have "grant_sessions_loop n (acc @ [trim s]) ss = Inr out" "acc = []" "n = 1"
      using Cons.prems by (auto simp add: Let_def split: if_splits)
    with Cons.IH [of "acc @ [trim s]"] sentinel True show ?thesis by auto
  next
    case False
    then have "grant_sessions_loop n (acc @ [trim s]) ss = Inr out" "trim s \<notin> set acc" "printable_id 128 (trim s)"
      using Cons.prems by (auto simp add: Let_def split: if_splits)
    with Cons.IH [of "acc @ [trim s]"] False show ?thesis by auto
  qed
qed simp

lemma grant_sessions_loop_id:
  assumes "distinct (acc @ ss)" "\<forall>s \<in> set ss. trim s = s \<and> printable_id 128 s"
    "MCP_NO_SESSIONS_SENTINEL \<in> set ss \<longrightarrow> n = 1 \<and> acc = [] \<and> length ss = 1"
  shows "grant_sessions_loop n acc ss = Inr (acc @ ss)"
  using assms
proof (induction ss arbitrary: acc)
  case (Cons s ss)
  then show ?case
  proof (cases "s = MCP_NO_SESSIONS_SENTINEL")
    case True
    then show ?thesis using Cons.prems by (auto simp add: Let_def)
  next
    case False
    then have "MCP_NO_SESSIONS_SENTINEL \<notin> set ss" using Cons.prems(3) by auto
    with Cons.IH [of "acc @ [s]"] Cons.prems False show ?thesis by (auto simp add: Let_def)
  qed
qed simp

lemma normalize_mcp_grant_Inr:
  assumes "normalize_mcp_grant g = Inr g'"
  shows "gr_client_id g' = trim (gr_client_id g)" "gr_scopes g' = gr_scopes g"
    "gr_allowed_sessions g' = map trim (gr_allowed_sessions g)"
    "gr_expires_at g' = gr_expires_at g" "gr_revoked_at g' = gr_revoked_at g"
    "gr_confirm_writes g' = gr_confirm_writes g"
  using assms
  by (auto simp add: normalize_mcp_grant_def and_then_eq_Inr normalize_client_id_Inr ensure_eq_Inr Let_def
      dest: grant_sessions_loop_shape)

text \<open>A grant that is accepted once is accepted again as it is.\<close>

lemma normalize_mcp_grant_idem:
  assumes "normalize_mcp_grant g = Inr g'"
  shows "normalize_mcp_grant g' = Inr g'"
proof -
  let ?ss = "map trim (gr_allowed_sessions g)"
  have c: "printable_id 128 (trim (gr_client_id g))"
    and name: "byte_len (trim (gr_name g)) \<le> 256" "\<not> list_ex is_control (trim (gr_name g))"
    and scopes: "length (gr_scopes g) \<le> 13" "distinct (gr_scopes g)" "length (gr_allowed_sessions g) \<le> 1024"
    and loop: "grant_sessions_loop (length (gr_allowed_sessions g)) [] (gr_allowed_sessions g) = Inr ?ss"
    and g': "g' = g\<lparr>gr_client_id := trim (gr_client_id g), gr_name := trim (gr_name g), gr_allowed_sessions := ?ss\<rparr>"
    using assms
    by (auto simp add: normalize_mcp_grant_def and_then_eq_Inr normalize_client_id_Inr ensure_eq_Inr Let_def
        dest: grant_sessions_loop_shape)
  have "grant_sessions_loop (length ?ss) [] ?ss = Inr ([] @ ?ss)"
    using grant_sessions_loop_shape [OF loop] by (intro grant_sessions_loop_id) auto
  then show ?thesis
    using c name scopes
    by (simp add: g' normalize_mcp_grant_def normalize_mcp_client_id_def Let_def ensure_def)
qed

text \<open>
  The contract of a request that is brought to a normal form or refused: what is accepted is
  normal, and a normal request is accepted as it is.
\<close>

locale request_normalizer =
  fixes norm :: "'a \<Rightarrow> 'e + 'a"
    and normal :: "'a \<Rightarrow> bool"
  assumes norm_normal: "norm x = Inr y \<Longrightarrow> normal y"
    and normal_norm: "normal x \<Longrightarrow> norm x = Inr x"
begin

lemma norm_again: "norm x = Inr y \<Longrightarrow> norm y = Inr y"
  by (rule normal_norm [OF norm_normal])

lemma fixed_iff: "norm x = Inr x \<longleftrightarrow> normal x"
  using norm_normal normal_norm by blast

end

interpretation grant_form: request_normalizer normalize_mcp_grant "\<lambda>g. normalize_mcp_grant g = Inr g"
  by unfold_locales (rule normalize_mcp_grant_idem)

text \<open>The bridge listens on another address than the loopback only when the user has allowed it.\<close>

lemma normalize_settings_remote:
  assumes "normalize_mcp_http_settings ops request = Inr (settings, ip)"
  shows "mhs_allow_remote settings \<longleftrightarrow> \<not> ao_loopback ops ip"
    "mhs_allow_remote settings \<Longrightarrow> mhs_allow_remote request"
    "mhs_listen_host settings = ao_text ops ip" "mhs_port settings \<noteq> 0" "\<not> mhs_trusted settings"
    "mhs_allowed_origins settings \<noteq> []"
proof -
  obtain client_host client_id origins where r: "settings = request
      \<lparr>mhs_listen_host := ao_text ops ip, mhs_client_host := client_host, mhs_client_id := client_id,
       mhs_allow_remote := \<not> ao_loopback ops ip, mhs_trusted := False,
       mhs_allowed_origins := (if origins = [] then default_mcp_http_origins ops ip (mhs_port request) else origins)\<rparr>"
    "mhs_port request \<noteq> 0" "ao_loopback ops ip \<or> mhs_allow_remote request"
    using assms
    by (auto simp add: normalize_mcp_http_settings_def and_then_eq_Inr ensure_eq_Inr ok_or_eq_Inr)
  have "default_mcp_http_origins ops ip port \<noteq> []" for port
    by (simp add: default_mcp_http_origins_def Let_def)
  then show "mhs_allow_remote settings \<longleftrightarrow> \<not> ao_loopback ops ip"
    "mhs_allow_remote settings \<Longrightarrow> mhs_allow_remote request"
    "mhs_listen_host settings = ao_text ops ip" "mhs_port settings \<noteq> 0" "\<not> mhs_trusted settings"
    "mhs_allowed_origins settings \<noteq> []"
    using r by auto
qed

text \<open>Approved means that the user answered yes to a shown request before it expired.\<close>

lemma await_approved:
  assumes "await_mcp_approval env timeout request pending = (pending', Inr Approved)"
  shows "ae_shown env \<and> ae_reply env = Replied True \<and> ae_now env 2 < apr_expires_at request \<and> length pending < 32"
  using assms
  by (auto simp add: await_mcp_approval_def Let_def split: if_splits approval_reply.splits bool.splits)

end
