(* ===== verification/Tunnel_Store.thy ===== *)
theory Tunnel_Store
  imports Transactions Tunnels Mcp_Control
begin

text \<open>
  Requests for tunnels and what the desktop process does with them
  (\<open>ssh_tunnel_request.rs\<close>, \<open>ssh_tunnel_store.rs\<close> and the registry of running tunnels in
  \<open>ssh_tunnel.rs\<close>, \<open>ssh_tunnel_runtime.rs\<close> and \<open>ssh_tunnel_lifecycle.rs\<close> of \<open>src-tauri\<close>):
  normalising a request, the tunnel it stands for, saving a started or stopped tunnel in the
  profile. Listeners, sockets and SSH are not part of the model. A running tunnel is
  identified by its runtime; the flag \<open>closed\<close> that its tasks share is a field.
\<close>

section \<open>Requests\<close>

record CreateTunnelRequest =
  ctr_session_id :: ustr
  ctr_egress :: TunnelEgress
  ctr_mode :: TunnelMode
  ctr_bind_host :: ustr
  ctr_bind_port :: u16
  ctr_target_host :: ustr
  ctr_target_port :: u16
  ctr_route_rules :: "TunnelRouteRule list"
  ctr_allow_remote_bind :: bool
  ctr_label :: "ustr option"

record CreateMcpTunnelRequest =
  cmt_session_id :: "ustr option"
  cmt_egress :: "TunnelEgress option"
  cmt_mode :: TunnelMode
  cmt_bind_host :: ustr
  cmt_bind_port :: u16
  cmt_target_host :: ustr
  cmt_target_port :: u16
  cmt_route_rules :: "TunnelRouteRule list"
  cmt_allow_remote_bind :: bool
  cmt_label :: "ustr option"

record CreateHostRouteRequest =
  hrr_mode :: TunnelMode
  hrr_bind_host :: ustr
  hrr_bind_port :: u16
  hrr_target_host :: ustr
  hrr_target_port :: u16
  hrr_route_rules :: "TunnelRouteRule list"
  hrr_allow_remote_bind :: bool
  hrr_label :: "ustr option"

datatype NormalizedMcpTunnelRequest = SshTunnel CreateTunnelRequest | HostRoute CreateHostRouteRequest

datatype TunnelRequestError =
    ControlCharacters ustr | TooManyRouteRules | RouteRuleControl nat | InvalidRouteRules ustr
  | RulesNeedDynamic | RemoteBindNeedsHost | HostNeedsLocalOrDynamic | HostDynamicNeedsRules
  | NotLoopback | InvalidText ustr | TargetMissing | EgressNeedsSession | HostHasSession

definition is_loopback_tunnel_bind_host :: "'ip address_ops \<Rightarrow> ustr \<Rightarrow> bool" where
  "is_loopback_tunnel_bind_host ops host \<longleftrightarrow>
     to_ascii_lowercase host = str ''localhost'' \<or>
     (case ao_parse ops host of None \<Rightarrow> False | Some address \<Rightarrow> ao_loopback ops address)"

text \<open>The loop over the characters is the one of \<open>validate_text\<close> in the tunnels of a profile.\<close>

definition validate_tunnel_request_text ::
  "ustr \<Rightarrow> ustr \<Rightarrow> nat \<Rightarrow> bool \<Rightarrow> bool \<Rightarrow> TunnelRequestError + unit" where
  "validate_tunnel_request_text label v max_characters allow_empty reject_whitespace =
     (if \<not> allow_empty \<and> v = [] then Inl (InvalidText (label @ str '' must not be empty''))
      else map_err InvalidText (check_characters label max_characters reject_whitespace 0 v))"

definition request_no_control :: "CreateTunnelRequest \<Rightarrow> TunnelRequestError + unit" where
  "request_no_control request =
     (if list_ex is_control (ctr_session_id request) then Inl (ControlCharacters (str ''session id''))
      else if list_ex is_control (ctr_bind_host request) then Inl (ControlCharacters (str ''bind host''))
      else if list_ex is_control (ctr_target_host request) then Inl (ControlCharacters (str ''target host''))
      else if (case ctr_label request of None \<Rightarrow> False | Some label \<Rightarrow> list_ex is_control label)
      then Inl (ControlCharacters (str ''label'')) else Inr ())"

fun route_rules_no_control :: "nat \<Rightarrow> TunnelRouteRule list \<Rightarrow> TunnelRequestError + unit" where
  "route_rules_no_control index [] = Inr ()"
| "route_rules_no_control index (rule # rules) =
     (if list_ex is_control (rr_host rule) then Inl (RouteRuleControl (index + 1))
      else route_rules_no_control (index + 1) rules)"

text \<open>What is trimmed and normalised before the mode and the egress are looked at.\<close>

definition trim_request :: "('net, 'ip) net_ops \<Rightarrow> CreateTunnelRequest \<Rightarrow> CreateTunnelRequest" where
  "trim_request net request = request
     \<lparr>ctr_session_id := trim (ctr_session_id request), ctr_bind_host := trim (ctr_bind_host request),
      ctr_target_host := trim (ctr_target_host request),
      ctr_route_rules := normalize_tunnel_route_rules net (ctr_route_rules request),
      ctr_label := Option.bind (ctr_label request) (\<lambda>label. if trim label = [] then None else Some (trim label))\<rparr>"

definition check_egress :: "'ip address_ops \<Rightarrow> CreateTunnelRequest \<Rightarrow> TunnelRequestError + unit" where
  "check_egress ops request =
     (case ctr_egress request of
        EgressSsh \<Rightarrow> if ctr_allow_remote_bind request then Inl RemoteBindNeedsHost else Inr ()
      | PortmateHost \<Rightarrow>
          if ctr_mode request = TunRemote then Inl HostNeedsLocalOrDynamic
          else if ctr_mode request = TunDynamic \<and> ctr_route_rules request = [] then Inl HostDynamicNeedsRules
          else if \<not> ctr_allow_remote_bind request \<and>
                  \<not> is_loopback_tunnel_bind_host ops (ctr_bind_host request) then Inl NotLoopback
          else Inr ())"

definition check_request_texts :: "CreateTunnelRequest \<Rightarrow> TunnelRequestError + unit" where
  "check_request_texts request =
     and_then (validate_tunnel_request_text (str ''session id'') (ctr_session_id request) 256 False False) (\<lambda>_.
     and_then (validate_tunnel_request_text (str ''bind host'') (ctr_bind_host request) MAX_TUNNEL_HOST_CHARACTERS
                 (ctr_mode request = TunRemote) True) (\<lambda>_.
     and_then (case ctr_label request of None \<Rightarrow> Inr ()
               | Some label \<Rightarrow> validate_tunnel_request_text (str ''label'') label MAX_TUNNEL_LABEL_CHARACTERS False False) (\<lambda>_.
       if ctr_mode request \<noteq> TunDynamic then
         if ctr_target_host request = [] \<or> ctr_target_port request = 0 then Inl TargetMissing
         else validate_tunnel_request_text (str ''target host'') (ctr_target_host request)
                MAX_TUNNEL_HOST_CHARACTERS False True
       else Inr ())))"

definition normalize_tunnel_request ::
  "('net, 'ip) net_ops \<Rightarrow> 'ip address_ops \<Rightarrow> CreateTunnelRequest \<Rightarrow> TunnelRequestError + CreateTunnelRequest" where
  "normalize_tunnel_request net ops request =
     and_then (request_no_control request) (\<lambda>_.
     and_then (ensure (length (ctr_route_rules request) \<le> MAX_TUNNEL_ROUTE_RULES) TooManyRouteRules) (\<lambda>_.
     and_then (route_rules_no_control 0 (ctr_route_rules request)) (\<lambda>_.
       let request = trim_request net request
       in and_then (if ctr_mode request = TunDynamic
                    then and_then (map_err InvalidRouteRules (validate_tunnel_route_rules net (ctr_route_rules request)))
                           (\<lambda>_. Inr (request\<lparr>ctr_target_host := [], ctr_target_port := 0\<rparr>))
                    else if ctr_route_rules request \<noteq> [] then Inl RulesNeedDynamic
                    else Inr request) (\<lambda>request.
          and_then (check_egress ops request) (\<lambda>_.
          and_then (check_request_texts request) (\<lambda>_. Inr request))))))"

definition normalize_host_route_request ::
  "('net, 'ip) net_ops \<Rightarrow> 'ip address_ops \<Rightarrow> CreateHostRouteRequest \<Rightarrow> TunnelRequestError + CreateHostRouteRequest" where
  "normalize_host_route_request net ops request =
     and_then (normalize_tunnel_request net ops
       \<lparr>ctr_session_id = str ''portmate-host'', ctr_egress = PortmateHost, ctr_mode = hrr_mode request,
        ctr_bind_host = hrr_bind_host request, ctr_bind_port = hrr_bind_port request,
        ctr_target_host = hrr_target_host request, ctr_target_port = hrr_target_port request,
        ctr_route_rules = hrr_route_rules request, ctr_allow_remote_bind = hrr_allow_remote_bind request,
        ctr_label = hrr_label request\<rparr>) (\<lambda>normalized.
       Inr \<lparr>hrr_mode = ctr_mode normalized, hrr_bind_host = ctr_bind_host normalized,
            hrr_bind_port = ctr_bind_port normalized, hrr_target_host = ctr_target_host normalized,
            hrr_target_port = ctr_target_port normalized, hrr_route_rules = ctr_route_rules normalized,
            hrr_allow_remote_bind = ctr_allow_remote_bind normalized, hrr_label = ctr_label normalized\<rparr>)"

definition normalize_mcp_tunnel_request ::
  "('net, 'ip) net_ops \<Rightarrow> 'ip address_ops \<Rightarrow> CreateMcpTunnelRequest
     \<Rightarrow> TunnelRequestError + NormalizedMcpTunnelRequest" where
  "normalize_mcp_tunnel_request net ops request =
     (let inferred_egress = (if cmt_session_id request \<noteq> None then EgressSsh else PortmateHost)
      in case (case cmt_egress request of None \<Rightarrow> inferred_egress | Some egress \<Rightarrow> egress) of
           EgressSsh \<Rightarrow>
             and_then (ok_or EgressNeedsSession (cmt_session_id request)) (\<lambda>session_id.
             and_then (normalize_tunnel_request net ops
               \<lparr>ctr_session_id = session_id, ctr_egress = EgressSsh, ctr_mode = cmt_mode request,
                ctr_bind_host = cmt_bind_host request, ctr_bind_port = cmt_bind_port request,
                ctr_target_host = cmt_target_host request, ctr_target_port = cmt_target_port request,
                ctr_route_rules = cmt_route_rules request,
                ctr_allow_remote_bind = cmt_allow_remote_bind request, ctr_label = cmt_label request\<rparr>) (\<lambda>r.
               Inr (SshTunnel r)))
         | PortmateHost \<Rightarrow>
             if cmt_session_id request \<noteq> None then Inl HostHasSession
             else and_then (normalize_host_route_request net ops
               \<lparr>hrr_mode = cmt_mode request, hrr_bind_host = cmt_bind_host request,
                hrr_bind_port = cmt_bind_port request, hrr_target_host = cmt_target_host request,
                hrr_target_port = cmt_target_port request, hrr_route_rules = cmt_route_rules request,
                hrr_allow_remote_bind = cmt_allow_remote_bind request, hrr_label = cmt_label request\<rparr>) (\<lambda>r.
               Inr (HostRoute r)))"

section \<open>The tunnel of a request\<close>

definition host_port :: "ustr \<Rightarrow> u16 \<Rightarrow> ustr" where
  "host_port host port = host @ str '':'' @ nat_str (unat port)"

definition tunnel_label :: "TunnelMode \<Rightarrow> ustr \<Rightarrow> u16 \<Rightarrow> ustr \<Rightarrow> u16 \<Rightarrow> ustr" where
  "tunnel_label mode bind_host bind_port target_host target_port =
     take MAX_TUNNEL_LABEL_CHARACTERS
       (case mode of
          TunLocal \<Rightarrow> host_port bind_host bind_port @ str '' -> '' @ host_port target_host target_port
        | TunDynamic \<Rightarrow> str ''SOCKS5 '' @ host_port bind_host bind_port
        | TunRemote \<Rightarrow> str ''remote '' @ host_port bind_host bind_port @ str '' -> '' @ host_port target_host target_port)"

definition tunnel_label_for_egress ::
  "TunnelEgress \<Rightarrow> TunnelMode \<Rightarrow> ustr \<Rightarrow> u16 \<Rightarrow> ustr \<Rightarrow> u16 \<Rightarrow> ustr" where
  "tunnel_label_for_egress egress mode bind_host bind_port target_host target_port =
     (let label = tunnel_label mode bind_host bind_port target_host target_port
      in take MAX_TUNNEL_LABEL_CHARACTERS
           (case egress of EgressSsh \<Rightarrow> label | PortmateHost \<Rightarrow> str ''PortMate host '' @ label))"

text \<open>\<open>TunnelSpec { id: Uuid::new_v4(), .. }\<close> of a normalised request.\<close>

definition requested_tunnel :: "ustr \<Rightarrow> CreateTunnelRequest \<Rightarrow> TunnelSpec" where
  "requested_tunnel uuid request =
     \<lparr>tn_id = uuid,
      tn_label = (case ctr_label request of
          Some label \<Rightarrow> label
        | None \<Rightarrow> tunnel_label_for_egress (ctr_egress request) (ctr_mode request) (ctr_bind_host request)
                    (ctr_bind_port request) (ctr_target_host request) (ctr_target_port request)),
      tn_egress = ctr_egress request, tn_mode = ctr_mode request, tn_bind_host = ctr_bind_host request,
      tn_bind_port = ctr_bind_port request, tn_target_host = ctr_target_host request,
      tn_target_port = ctr_target_port request, tn_route_rules = ctr_route_rules request, tn_enabled = True\<rparr>"

definition MCP_HOST_ROUTE_OWNER_PREFIX :: ustr where
  "MCP_HOST_ROUTE_OWNER_PREFIX = 0 # str ''mcp-host:''"

definition mcp_host_route_owner_id :: "ustr \<Rightarrow> ControlError + ustr" where
  "mcp_host_route_owner_id client_id =
     and_then (normalize_mcp_client_id client_id) (\<lambda>client_id. Inr (MCP_HOST_ROUTE_OWNER_PREFIX @ client_id))"

section \<open>Running tunnels\<close>

abbreviation (input) MAX_ACTIVE_TUNNELS :: nat where "MAX_ACTIVE_TUNNELS \<equiv> 256"

record TunnelRuntime =
  trt_session_id :: ustr
  trt_ssh_runtime_id :: ustr
  trt_spec :: TunnelSpec
  trt_flag :: nat      \<comment> \<open>which shared flag \<open>closed\<close> is\<close>
  trt_closed :: bool

record TunnelRuntimeOwner =
  own_ssh_runtime_id :: ustr
  own_flag :: nat

definition owner_of :: "TunnelRuntime \<Rightarrow> TunnelRuntimeOwner" where
  "owner_of runtime = \<lparr>own_ssh_runtime_id = trt_ssh_runtime_id runtime, own_flag = trt_flag runtime\<rparr>"

definition owns :: "TunnelRuntimeOwner \<Rightarrow> TunnelRuntime \<Rightarrow> bool" where
  "owns owner runtime \<longleftrightarrow>
     trt_ssh_runtime_id runtime = own_ssh_runtime_id owner \<and> trt_flag runtime = own_flag owner"

type_synonym tunnel_registry = "ustr \<rightharpoonup> TunnelRuntime"

datatype TunnelStoreError =
    AlreadyRunning ustr | TooManyActive | TooManyRoutes | UnknownTunnelSession ustr
  | NotSshOrTmux | EnabledTunnelLimit | InvalidTunnels ustr

definition ensure_tunnel_runtime_slot :: "tunnel_registry \<Rightarrow> ustr \<Rightarrow> TunnelStoreError + unit" where
  "ensure_tunnel_runtime_slot tunnels tunnel_id =
     (if tunnel_id \<in> dom tunnels then Inl (AlreadyRunning tunnel_id)
      else if MAX_ACTIVE_TUNNELS \<le> card (dom tunnels) then Inl TooManyActive else Inr ())"

text \<open>The open routes an owner has on the desktop host.\<close>

definition open_host_routes :: "tunnel_registry \<Rightarrow> ustr \<Rightarrow> ustr set" where
  "open_host_routes tunnels owner_id =
     {i \<in> dom tunnels. case tunnels i of None \<Rightarrow> False
        | Some runtime \<Rightarrow> trt_session_id runtime = owner_id \<and> tn_egress (trt_spec runtime) = PortmateHost \<and>
                          \<not> trt_closed runtime}"

definition ensure_portmate_host_runtime_slot :: "tunnel_registry \<Rightarrow> ustr \<Rightarrow> ustr \<Rightarrow> TunnelStoreError + unit" where
  "ensure_portmate_host_runtime_slot tunnels owner_id tunnel_id =
     and_then (ensure_tunnel_runtime_slot tunnels tunnel_id) (\<lambda>_.
       ensure (card (open_host_routes tunnels owner_id) < MAX_TUNNELS_PER_PROFILE) TooManyRoutes)"

definition ensure_tunnel_creation_capacity ::
  "'vt SessionStore \<Rightarrow> tunnel_registry \<Rightarrow> ustr \<Rightarrow> TunnelEgress \<Rightarrow> TunnelStoreError + unit" where
  "ensure_tunnel_creation_capacity st tunnels session_id egress =
     and_then (ok_or (UnknownTunnelSession session_id) (store_profile st session_id)) (\<lambda>profile.
       if egress = PortmateHost
       then ensure (card (open_host_routes tunnels session_id) < MAX_TUNNELS_PER_PROFILE) TooManyRoutes
       else (case prof_connection profile of
               ConnSsh ssh \<Rightarrow> ensure (length (filter tn_enabled (ssh_tunnels ssh)) < MAX_TUNNELS_PER_PROFILE) EnabledTunnelLimit
             | ConnTmux ssh \<Rightarrow> ensure (length (filter tn_enabled (ssh_tunnels ssh)) < MAX_TUNNELS_PER_PROFILE) EnabledTunnelLimit
             | _ \<Rightarrow> Inl NotSshOrTmux))"

definition remove_tunnel_runtime_if_owned ::
  "TunnelRuntimeOwner \<Rightarrow> ustr \<Rightarrow> tunnel_registry \<Rightarrow> tunnel_registry \<times> TunnelRuntime option" where
  "remove_tunnel_runtime_if_owned owner tunnel_id tunnels =
     (case tunnels tunnel_id of
        None \<Rightarrow> (tunnels, None)
      | Some runtime \<Rightarrow>
          if \<not> owns owner runtime then (tunnels, None) else (tunnels(tunnel_id := None), Some runtime))"

text \<open>The tunnels that stay, and those that were removed and told to shut down.\<close>

definition stop_session_tunnel_runtimes :: "ustr \<Rightarrow> tunnel_registry \<Rightarrow> tunnel_registry \<times> tunnel_registry" where
  "stop_session_tunnel_runtimes session_id tunnels =
     (let ids = {i \<in> dom tunnels. map_option trt_session_id (tunnels i) = Some session_id}
      in (tunnels |` (- ids), \<lambda>i. map_option (\<lambda>r. r\<lparr>trt_closed := True\<rparr>) ((tunnels |` ids) i)))"

section \<open>Creating a tunnel and saving it\<close>

text \<open>
  \<open>create_tunnel_inner_with_validation\<close> before the listener starts: the request is normalised,
  the profile must have room for the tunnel and the tunnel must be valid.
\<close>

datatype CreateTunnelError = BadRequest TunnelRequestError | NoCapacity TunnelStoreError | InvalidTunnel ustr

definition prepare_tunnel ::
  "('net, 'ip) net_ops \<Rightarrow> 'ip address_ops \<Rightarrow> ustr \<Rightarrow> 'vt SessionStore \<Rightarrow> tunnel_registry
     \<Rightarrow> CreateTunnelRequest \<Rightarrow> CreateTunnelError + TunnelSpec" where
  "prepare_tunnel net ops uuid st tunnels request =
     and_then (map_err BadRequest (normalize_tunnel_request net ops request)) (\<lambda>request.
     and_then (map_err NoCapacity (ensure_tunnel_creation_capacity st tunnels (ctr_session_id request)
                                     (ctr_egress request))) (\<lambda>_.
       let tunnel = requested_tunnel uuid request
       in and_then (map_err InvalidTunnel (validate_tunnels net [tunnel])) (\<lambda>_. Inr tunnel)))"

fun tunnel_mode_debug :: "TunnelMode \<Rightarrow> ustr" where
  "tunnel_mode_debug TunLocal = str ''Local''"
| "tunnel_mode_debug TunRemote = str ''Remote''"
| "tunnel_mode_debug TunDynamic = str ''Dynamic''"

definition listen_text :: "TunnelSpec \<Rightarrow> ustr option \<Rightarrow> ustr" where
  "listen_text tunnel local_addr =
     (case local_addr of Some address \<Rightarrow> address | None \<Rightarrow> host_port (tn_bind_host tunnel) (tn_bind_port tunnel))"

text \<open>\<open>ssh.tunnels\<close> with the started tunnel; a disabled one gives way when the list is full.\<close>

fun remove_first :: "('a \<Rightarrow> bool) \<Rightarrow> 'a list \<Rightarrow> 'a list" where
  "remove_first P [] = []"
| "remove_first P (x # xs) = (if P x then xs else x # remove_first P xs)"

definition tunnels_with ::
  "('net, 'ip) net_ops \<Rightarrow> TunnelSpec \<Rightarrow> TunnelSpec list \<Rightarrow> TunnelStoreError + TunnelSpec list" where
  "tunnels_with net tunnel tunnels =
     (let tunnels = normalize_tunnels net tunnels;
          tunnels = filter (\<lambda>item. tn_id item \<noteq> tn_id tunnel) tunnels;
          tunnels = (if MAX_TUNNELS_PER_PROFILE \<le> length tunnels
                     then remove_first (\<lambda>item. \<not> tn_enabled item) tunnels else tunnels)
      in if MAX_TUNNELS_PER_PROFILE \<le> length tunnels then Inl EnabledTunnelLimit
         else and_then (map_err InvalidTunnels (validate_tunnels net (tunnels @ [tunnel])))
                (\<lambda>_. Inr (tunnels @ [tunnel])))"

definition profile_with_tunnel ::
  "('net, 'ip) net_ops \<Rightarrow> TunnelSpec \<Rightarrow> SessionProfile \<Rightarrow> TunnelStoreError + SessionProfile" where
  "profile_with_tunnel net tunnel profile =
     (case prof_connection profile of
        ConnSsh ssh \<Rightarrow> and_then (tunnels_with net tunnel (ssh_tunnels ssh))
          (\<lambda>ts. Inr (profile\<lparr>prof_connection := ConnSsh (ssh\<lparr>ssh_tunnels := ts\<rparr>)\<rparr>))
      | ConnTmux ssh \<Rightarrow> and_then (tunnels_with net tunnel (ssh_tunnels ssh))
          (\<lambda>ts. Inr (profile\<lparr>prof_connection := ConnTmux (ssh\<lparr>ssh_tunnels := ts\<rparr>)\<rparr>))
      | _ \<Rightarrow> Inl NotSshOrTmux)"

text \<open>A mutation with the texts of its errors; the wording for the user is the argument \<open>say\<close>.\<close>

definition tunnel_started_text :: "TunnelSpec \<Rightarrow> ustr option \<Rightarrow> ustr" where
  "tunnel_started_text tunnel local_addr =
     (case tn_egress tunnel of
        EgressSsh \<Rightarrow>
          str ''PortMate: SSH '' @ tunnel_mode_debug (tn_mode tunnel) @ str '' tunnel listening on '' @
          listen_text tunnel local_addr @ str '' -> '' @ host_port (tn_target_host tunnel) (tn_target_port tunnel)
      | PortmateHost \<Rightarrow>
          str ''PortMate: host '' @ tunnel_mode_debug (tn_mode tunnel) @ str '' proxy listening on '' @
          listen_text tunnel local_addr @ str '' -> '' @
          (if tn_mode tunnel = TunDynamic
           then nat_str (length (tn_route_rules tunnel)) @ str '' allowed route rule(s)''
           else host_port (tn_target_host tunnel) (tn_target_port tunnel)))"

definition tunnel_in_profile ::
  "time \<Rightarrow> ('net, 'ip) net_ops \<Rightarrow> ustr \<Rightarrow> TunnelSpec \<Rightarrow> 'vt SessionStore \<Rightarrow> TunnelStoreError + 'vt SessionStore" where
  "tunnel_in_profile now net session_id tunnel st =
     and_then (ok_or (UnknownTunnelSession session_id) (store_profile st session_id)) (\<lambda>profile.
       if tn_egress tunnel = PortmateHost then Inr st
       else and_then (profile_with_tunnel net tunnel profile) (\<lambda>profile.
              Inr (fst (upsert_profile now profile st))))"

definition tunnel_started_mutation ::
  "(TunnelStoreError \<Rightarrow> ustr) \<Rightarrow> (nat \<Rightarrow> TrySend) \<Rightarrow> ustr \<Rightarrow> time \<Rightarrow> ('net, 'ip) net_ops \<Rightarrow> ustr \<Rightarrow> TunnelSpec
     \<Rightarrow> ustr option \<Rightarrow> ('vt, unit \<times> ustr list) mutation" where
  "tunnel_started_mutation say chan uuid now net session_id tunnel local_addr st =
     (case tunnel_in_profile now net session_id tunnel st of
        Inl e \<Rightarrow> (st, Inl (say e))
      | Inr st \<Rightarrow>
          let (st, event_id) = record_system_event_tracked chan uuid now session_id
                (tunnel_started_text tunnel local_addr) st
          in (st, Inr ((), recorded_ids event_id)))"

definition persist_tunnel_to_profile_and_log ::
  "(TunnelStoreError \<Rightarrow> ustr) \<Rightarrow> (nat \<Rightarrow> TrySend) \<Rightarrow> ustr \<Rightarrow> time \<Rightarrow> ('net, 'ip) net_ops \<Rightarrow> ustr \<Rightarrow> TunnelSpec
     \<Rightarrow> ustr option \<Rightarrow> ('vt SessionStore \<Rightarrow> ustr + unit) \<Rightarrow> ('vt SessionStore \<Rightarrow> ustr + bool)
     \<Rightarrow> 'vt SessionStore \<Rightarrow> 'vt SessionStore \<times> (ustr + unit)" where
  "persist_tunnel_to_profile_and_log say chan uuid now net session_id tunnel local_addr persist verify st =
     commit_tracked_store_mutation_with
       (tunnel_started_mutation say chan uuid now net session_id tunnel local_addr) persist verify st"

definition profile_tunnel_stopped ::
  "('net, 'ip) net_ops \<Rightarrow> TunnelSpec \<Rightarrow> SshConnection \<Rightarrow> SshConnection" where
  "profile_tunnel_stopped net stopped ssh = ssh\<lparr>ssh_tunnels := normalize_tunnels net
     (update_first (\<lambda>item. tn_id item = tn_id stopped) (\<lambda>item. item\<lparr>tn_enabled := False\<rparr>) (ssh_tunnels ssh))\<rparr>"

definition mark_tunnel_stopped_in_store ::
  "time \<Rightarrow> ('net, 'ip) net_ops \<Rightarrow> ustr \<Rightarrow> TunnelSpec \<Rightarrow> 'vt SessionStore \<Rightarrow> 'vt SessionStore" where
  "mark_tunnel_stopped_in_store now net session_id stopped st =
     (case store_profile st session_id of
        None \<Rightarrow> st
      | Some profile \<Rightarrow>
          (case prof_connection profile of
             ConnSsh ssh \<Rightarrow> fst (upsert_profile now
               (profile\<lparr>prof_connection := ConnSsh (profile_tunnel_stopped net stopped ssh)\<rparr>) st)
           | ConnTmux ssh \<Rightarrow> fst (upsert_profile now
               (profile\<lparr>prof_connection := ConnTmux (profile_tunnel_stopped net stopped ssh)\<rparr>) st)
           | _ \<Rightarrow> st))"

definition tunnel_stopped_text :: "TunnelSpec \<Rightarrow> ustr" where
  "tunnel_stopped_text stopped =
     (case tn_egress stopped of
        EgressSsh \<Rightarrow> str ''PortMate: SSH '' @ tunnel_mode_debug (tn_mode stopped) @ str '' tunnel stopped on '' @
          host_port (tn_bind_host stopped) (tn_bind_port stopped)
      | PortmateHost \<Rightarrow> str ''PortMate: host '' @ tunnel_mode_debug (tn_mode stopped) @ str '' proxy stopped on '' @
          host_port (tn_bind_host stopped) (tn_bind_port stopped))"

definition persist_stopped_tunnel_to_profile_and_log ::
  "(nat \<Rightarrow> TrySend) \<Rightarrow> ustr \<Rightarrow> time \<Rightarrow> ('net, 'ip) net_ops \<Rightarrow> ustr \<Rightarrow> TunnelSpec
     \<Rightarrow> ('vt SessionStore \<Rightarrow> ustr + unit) \<Rightarrow> ('vt SessionStore \<Rightarrow> ustr + bool)
     \<Rightarrow> 'vt SessionStore \<Rightarrow> 'vt SessionStore \<times> (ustr + unit)" where
  "persist_stopped_tunnel_to_profile_and_log chan uuid now net session_id stopped persist verify st =
     (let st = mark_tunnel_stopped_in_store now net session_id stopped st;
          st = record_system_event chan uuid now session_id (tunnel_stopped_text stopped) st
      in (st, persist_applied_store_with persist verify st))"

section \<open>Accepted requests\<close>

lemma request_text_ok:
  "validate_tunnel_request_text label v m e r = Inr () \<longleftrightarrow>
     (e \<or> v \<noteq> []) \<and> length v \<le> m \<and> (\<forall>c \<in> set v. \<not> is_control c \<and> (r \<longrightarrow> \<not> is_whitespace c))"
  using check_characters_ok [of label m r 0 v]
  by (auto simp add: validate_tunnel_request_text_def is_ok_unit map_err_eq_Inr)

lemma route_rules_no_control_ok:
  "route_rules_no_control n rules = Inr () \<longleftrightarrow> (\<forall>r \<in> set rules. \<not> list_ex is_control (rr_host r))"
  by (induction rules arbitrary: n) auto

lemma request_no_control_ok:
  "request_no_control r = Inr () \<longleftrightarrow>
     \<not> list_ex is_control (ctr_session_id r) \<and> \<not> list_ex is_control (ctr_bind_host r) \<and>
     \<not> list_ex is_control (ctr_target_host r) \<and>
     (\<forall>l. ctr_label r = Some l \<longrightarrow> \<not> list_ex is_control l)"
  by (auto simp add: request_no_control_def split: option.splits)

lemma ensure_unit: "ensure b e = Inr () \<longleftrightarrow> b"
  by (simp add: ensure_def)

text \<open>What an accepted request is like.\<close>

definition request_normal :: "('net, 'ip) net_ops \<Rightarrow> 'ip address_ops \<Rightarrow> CreateTunnelRequest \<Rightarrow> bool" where
  "request_normal net ops r \<longleftrightarrow>
     trim_request net r = r \<and>
     (ctr_mode r = TunDynamic \<longrightarrow>
        ctr_target_host r = [] \<and> ctr_target_port r = 0 \<and>
        is_ok (validate_tunnel_route_rules net (ctr_route_rules r))) \<and>
     (ctr_mode r \<noteq> TunDynamic \<longrightarrow> ctr_route_rules r = []) \<and>
     check_egress ops r = Inr () \<and> check_request_texts r = Inr ()"

lemma trim_request_sel [simp]:
  "ctr_mode (trim_request net r) = ctr_mode r" "ctr_egress (trim_request net r) = ctr_egress r"
  "ctr_target_port (trim_request net r) = ctr_target_port r"
  "ctr_bind_port (trim_request net r) = ctr_bind_port r"
  "ctr_allow_remote_bind (trim_request net r) = ctr_allow_remote_bind r"
  "ctr_session_id (trim_request net r) = trim (ctr_session_id r)"
  "ctr_bind_host (trim_request net r) = trim (ctr_bind_host r)"
  "ctr_target_host (trim_request net r) = trim (ctr_target_host r)"
  "ctr_route_rules (trim_request net r) = normalize_tunnel_route_rules net (ctr_route_rules r)"
  by (simp_all add: trim_request_def)

lemma trim_request_fixed_iff:
  "trim_request net r = r \<longleftrightarrow>
     trim (ctr_session_id r) = ctr_session_id r \<and> trim (ctr_bind_host r) = ctr_bind_host r \<and>
     trim (ctr_target_host r) = ctr_target_host r \<and>
     normalize_tunnel_route_rules net (ctr_route_rules r) = ctr_route_rules r \<and>
     (\<forall>l. ctr_label r = Some l \<longrightarrow> trim l = l \<and> l \<noteq> [])"
  by (cases r; cases "ctr_label r") (auto simp add: trim_request_def split: if_splits)

lemma normalize_request_normal:
  assumes "normalize_tunnel_request net ops r = Inr r'"
  shows "request_normal net ops r' \<and> ctr_egress r' = ctr_egress r \<and> ctr_mode r' = ctr_mode r \<and>
    ctr_bind_port r' = ctr_bind_port r \<and> ctr_allow_remote_bind r' = ctr_allow_remote_bind r \<and>
    ctr_session_id r' = trim (ctr_session_id r) \<and> ctr_bind_host r' = trim (ctr_bind_host r)"
proof -
  let ?t = "trim_request net r"
  have label: "ctr_label ?t = Some l \<Longrightarrow> trim l = l \<and> l \<noteq> []" for l
    by (cases "ctr_label r") (auto simp add: trim_request_def split: if_splits)
  show ?thesis
  proof (cases "ctr_mode r = TunDynamic")
    case True
    then have r': "r' = ?t\<lparr>ctr_target_host := [], ctr_target_port := 0\<rparr>"
      and ok: "is_ok (validate_tunnel_route_rules net (ctr_route_rules ?t))"
      and checks: "check_egress ops r' = Inr ()" "check_request_texts r' = Inr ()"
      using assms by (auto simp add: normalize_tunnel_request_def and_then_eq_Inr map_err_eq_Inr Let_def)
    have "normalize_tunnel_route_rules net (ctr_route_rules ?t) = ctr_route_rules ?t"
      using ok by (simp only: validate_route_rules_ok normalize_route_rules_id)
    then have "trim_request net r' = r'"
      using label by (auto simp add: trim_request_fixed_iff r')
    then show ?thesis using ok checks True by (simp add: request_normal_def r')
  next
    case False
    then have r': "r' = ?t" and rules: "ctr_route_rules ?t = []"
      and checks: "check_egress ops r' = Inr ()" "check_request_texts r' = Inr ()"
      using assms by (auto simp add: normalize_tunnel_request_def and_then_eq_Inr Let_def split: if_splits)
    have "trim_request net r' = r'"
      using label rules by (auto simp add: trim_request_fixed_iff r' normalize_tunnel_route_rules_def)
    then show ?thesis using rules checks False by (simp add: request_normal_def r')
  qed
qed

lemma check_request_texts_ok:
  "check_request_texts r = Inr () \<longleftrightarrow>
     validate_tunnel_request_text (str ''session id'') (ctr_session_id r) 256 False False = Inr () \<and>
     validate_tunnel_request_text (str ''bind host'') (ctr_bind_host r) 255 (ctr_mode r = TunRemote) True = Inr () \<and>
     (\<forall>l. ctr_label r = Some l \<longrightarrow> validate_tunnel_request_text (str ''label'') l 128 False False = Inr ()) \<and>
     (ctr_mode r \<noteq> TunDynamic \<longrightarrow> ctr_target_port r \<noteq> 0 \<and>
        validate_tunnel_request_text (str ''target host'') (ctr_target_host r) 255 False True = Inr ())"
  by (cases "ctr_label r") (auto simp add: check_request_texts_def and_then_eq_Inr request_text_ok)

lemma normal_request_id:
  assumes "request_normal net ops r"
  shows "normalize_tunnel_request net ops r = Inr r"
proof -
  have trimmed: "trim_request net r = r" using assms by (simp add: request_normal_def)
  have texts: "check_request_texts r = Inr ()" and egress: "check_egress ops r = Inr ()"
    using assms by (simp_all add: request_normal_def)
  have rules: "length (ctr_route_rules r) \<le> 64 \<and> (\<forall>x \<in> set (ctr_route_rules r). \<not> list_ex is_control (rr_host x))"
  proof (cases "ctr_mode r = TunDynamic")
    case True
    then show ?thesis
      using assms validate_route_rule_normal(1) [of net]
      by (auto simp add: request_normal_def validate_route_rules_ok list_all_iff)
  next
    case False
    then show ?thesis using assms by (simp add: request_normal_def)
  qed
  have target: "\<not> list_ex is_control (ctr_target_host r)"
    using assms texts
    by (cases "ctr_mode r = TunDynamic")
       (auto simp add: request_normal_def check_request_texts_ok request_text_ok list_ex_iff)
  have "request_no_control r = Inr ()"
    using texts target
    by (auto simp add: request_no_control_ok check_request_texts_ok request_text_ok list_ex_iff)
  moreover have "route_rules_no_control 0 (ctr_route_rules r) = Inr ()"
    using rules by (simp add: route_rules_no_control_ok)
  ultimately show ?thesis
    using rules assms trimmed texts egress
    by (cases r) (auto simp add: normalize_tunnel_request_def request_normal_def is_ok_unit ensure_def Let_def)
qed


interpretation tunnel_request: request_normalizer "normalize_tunnel_request net ops" "request_normal net ops"
  for net ops
  by unfold_locales (auto dest: normalize_request_normal intro: normal_request_id)

text \<open>The generated label is never empty, fits and has no control character.\<close>

lemma host_port_chars:
  "c \<in> set (host_port h p) \<Longrightarrow> c \<in> set h \<or> c = 58 \<or> is_ascii_digit c"
  using nat_str_digits [of "unat p"] by (auto simp add: host_port_def list_all_iff)

lemma digit_not_control: "is_ascii_digit c \<Longrightarrow> \<not> is_control c"
  by (auto simp add: is_ascii_digit_def is_control_def)

lemma host_port_no_control:
  "\<forall>c \<in> set h. \<not> is_control c \<Longrightarrow> c \<in> set (host_port h p) \<Longrightarrow> \<not> is_control c"
  using host_port_chars [of c h p] digit_not_control by (auto simp add: is_control_def)

lemma tunnel_label_chars:
  assumes "\<forall>c \<in> set bh. \<not> is_control c" "\<forall>c \<in> set th. \<not> is_control c"
    "c \<in> set (tunnel_label_for_egress e m bh bp th tp)"
  shows "\<not> is_control c"
proof -
  have l: "\<not> is_control x" if "x \<in> set (tunnel_label m bh bp th tp)" for x
    using that host_port_no_control [OF assms(1), of x bp] host_port_no_control [OF assms(2), of x tp]
    by (auto simp add: tunnel_label_def is_control_def split: TunnelMode.splits dest!: in_set_takeD)
  show ?thesis
    using assms(3) l
    by (auto simp add: tunnel_label_for_egress_def is_control_def Let_def split: TunnelEgress.splits dest!: in_set_takeD)
qed

lemma tunnel_label_ok:
  "tunnel_label_for_egress e m bh bp th tp \<noteq> [] \<and> length (tunnel_label_for_egress e m bh bp th tp) \<le> 128"
  by (cases e; cases m) (auto simp add: tunnel_label_for_egress_def tunnel_label_def host_port_def Let_def)

lemma requested_tunnel_valid:
  assumes normal: "request_normal net ops r"
    and uuid: "is_ok (validate_tunnel_text (str ''id'') uuid 128 False False)"
  shows "is_ok (validate_tunnels net [requested_tunnel uuid r]) \<longleftrightarrow>
    trim (tn_label (requested_tunnel uuid r)) = tn_label (requested_tunnel uuid r)"
proof -
  let ?t = "requested_tunnel uuid r"
  have texts: "check_request_texts r = Inr ()" and egress: "check_egress ops r = Inr ()"
    and trims: "trim (ctr_bind_host r) = ctr_bind_host r" "trim (ctr_target_host r) = ctr_target_host r"
      "\<And>l. ctr_label r = Some l \<Longrightarrow> trim l = l \<and> l \<noteq> []"
    using normal by (auto simp add: request_normal_def trim_request_fixed_iff)
  have bind: "\<forall>c \<in> set (ctr_bind_host r). \<not> is_control c"
    using texts by (simp add: check_request_texts_ok request_text_ok)
  have target: "\<forall>c \<in> set (ctr_target_host r). \<not> is_control c"
    using texts normal
    by (cases "ctr_mode r = TunDynamic") (auto simp add: request_normal_def check_request_texts_ok request_text_ok)
  have label: "is_ok (validate_tunnel_text (str ''label'') (tn_label ?t) 128 False False) \<longleftrightarrow>
      trim (tn_label ?t) = tn_label ?t"
  proof (cases "ctr_label r")
    case None
    then show ?thesis
      using tunnel_label_ok tunnel_label_chars [OF bind target]
      by (auto simp add: requested_tunnel_def validate_tunnel_text_ok)
  next
    case (Some l)
    then show ?thesis
      using texts trims(3) by (auto simp add: requested_tunnel_def validate_tunnel_text_ok check_request_texts_ok request_text_ok)
  qed
  have "is_ok (validate_host (str ''bind host'') (ctr_bind_host r) (ctr_mode r = TunRemote))"
    using texts trims(1)
    by (auto simp add: validate_host_def validate_tunnel_text_ok check_request_texts_ok request_text_ok)
  moreover have "ctr_mode r \<noteq> TunDynamic \<Longrightarrow>
      is_ok (validate_host (str ''target host'') (ctr_target_host r) False) \<and> ctr_target_port r \<noteq> 0"
    using texts trims(2)
    by (auto simp add: validate_host_def validate_tunnel_text_ok check_request_texts_ok request_text_ok)
  ultimately have "is_ok (validate_tunnel net ?t) \<longleftrightarrow>
      is_ok (validate_tunnel_text (str ''label'') (tn_label ?t) 128 False False)"
    using normal egress uuid
    by (auto simp add: validate_tunnel_ok requested_tunnel_def request_normal_def check_egress_def
        split: TunnelEgress.splits if_splits)
  then show ?thesis
    using label by (simp add: validate_tunnels_ok tunnels_ok_def)
qed


definition ex_tunnel_net :: "(unit, nat) net_ops" where
  "ex_tunnel_net = \<lparr>net_parse = \<lambda>_. None, net_trunc_string = \<lambda>_. [], net_contains = \<lambda>_ _. False,
     ip_parse = \<lambda>_. None, ip_string = \<lambda>_. []\<rparr>"

definition ex_tunnel_addresses :: "nat address_ops" where
  "ex_tunnel_addresses = \<lparr>ao_parse = \<lambda>_. None, ao_text = \<lambda>_. [], ao_loopback = \<lambda>_. False,
     ao_unspecified = \<lambda>_. False, ao_v6 = \<lambda>_. False, ao_host = \<lambda>_. None, ao_url = \<lambda>_. None\<rparr>"

definition ex_tunnel_request :: "ustr \<Rightarrow> ustr option \<Rightarrow> CreateTunnelRequest" where
  "ex_tunnel_request bind_host label =
     \<lparr>ctr_session_id = str ''s'', ctr_egress = PortmateHost, ctr_mode = TunLocal, ctr_bind_host = bind_host,
      ctr_bind_port = 1, ctr_target_host = str ''h'', ctr_target_port = 22, ctr_route_rules = [],
      ctr_allow_remote_bind = True, ctr_label = label\<rparr>"

lemmas ex_tunnel_defs = ex_tunnel_request_def ex_tunnel_addresses_def ex_tunnel_net_def

lemmas request_eval = normalize_tunnel_request_def request_no_control_def trim_request_def check_egress_def
  check_request_texts_def request_text_ok ensure_def normalize_tunnel_route_rules_def
  is_loopback_tunnel_bind_host_def is_control_def is_whitespace_def trim_def trim_start_def trim_end_def
  validate_tunnel_request_text_def

lemma ex_tunnel_request_accepted:
  "normalize_tunnel_request ex_tunnel_net ex_tunnel_addresses (ex_tunnel_request (str '' 10.0.0.1'') (Some (str ''db''))) =
     Inr (ex_tunnel_request (str ''10.0.0.1'') (Some (str ''db'')))"
  by (simp add: request_eval ex_tunnel_defs)


text \<open>
  A generated label is cut to 128 characters. When the cut falls after the space that follows the
  bind address, an accepted request gives a tunnel that is refused.
\<close>

lemma generated_label_cut_at_space:
  assumes "length h = 111" "\<forall>c \<in> set h. \<not> is_control c \<and> \<not> is_whitespace c"
  shows "request_normal ex_tunnel_net ex_tunnel_addresses (ex_tunnel_request h None)"
    "\<not> is_ok (validate_tunnels ex_tunnel_net [requested_tunnel (str ''u'') (ex_tunnel_request h None)])"
proof -
  have one: "nat_str (Suc 0) = [49]" by (subst nat_str.simps) simp
  have ne: "h \<noteq> []" using assms(1) by auto
  then have t: "trim h = h" using assms(2) by (simp add: trim_eq_self_iff)
  have texts: "trim (str ''s'') = str ''s''" "trim (str ''h'') = str ''h''"
    by (simp_all add: trim_eq_self_iff is_whitespace_def)
  have "trim_request ex_tunnel_net (ex_tunnel_request h None) = ex_tunnel_request h None"
    unfolding trim_request_fixed_iff
    using t texts by (simp add: ex_tunnel_request_def normalize_tunnel_route_rules_def)
  moreover have "check_request_texts (ex_tunnel_request h None) = Inr ()"
    using assms ne
    by (simp add: check_request_texts_ok request_text_ok ex_tunnel_request_def is_control_def is_whitespace_def)
  ultimately show n: "request_normal ex_tunnel_net ex_tunnel_addresses (ex_tunnel_request h None)"
    by (simp add: request_normal_def ex_tunnel_request_def check_egress_def)
  let ?label = "str ''PortMate host '' @ h @ str '':1 ''"
  have "tn_label (requested_tunnel (str ''u'') (ex_tunnel_request h None)) = ?label"
    using assms(1)
    by (simp add: requested_tunnel_def ex_tunnel_request_def tunnel_label_for_egress_def tunnel_label_def host_port_def one
        take_Cons')
  moreover have "trim ?label \<noteq> ?label" by (simp add: trim_eq_self_iff is_whitespace_def)
  moreover have "is_ok (validate_tunnel_text (str ''id'') (str ''u'') 128 False False)"
    by (simp add: validate_tunnel_text_def is_control_def trim_eq_self_iff is_whitespace_def)
  ultimately show "\<not> is_ok (validate_tunnels ex_tunnel_net [requested_tunnel (str ''u'') (ex_tunnel_request h None)])"
    using requested_tunnel_valid [OF n, of "str ''u''"] by simp
qed

section \<open>Saving a tunnel\<close>

lemma set_remove_first_subset: "set (remove_first P xs) \<subseteq> set xs"
  by (induction xs) auto

lemma remove_first_keeps: "x \<in> set xs \<Longrightarrow> \<not> P x \<Longrightarrow> x \<in> set (remove_first P xs)"
  by (induction xs) auto

lemma tunnels_with_ok:
  assumes "tunnels_with net tunnel ts = Inr ts'"
  shows "is_ok (validate_tunnels net ts') \<and> tunnel \<in> set ts' \<and>
    (\<forall>u \<in> set (normalize_tunnels net ts). tn_enabled u \<and> tn_id u \<noteq> tn_id tunnel \<longrightarrow> u \<in> set ts')"
proof -
  let ?l = "filter (\<lambda>item. tn_id item \<noteq> tn_id tunnel) (normalize_tunnels net ts)"
  let ?k = "if 64 \<le> length ?l then remove_first (\<lambda>item. \<not> tn_enabled item) ?l else ?l"
  have k: "ts' = ?k @ [tunnel]" "is_ok (validate_tunnels net (?k @ [tunnel]))"
    using assms by (auto simp add: tunnels_with_def Let_def and_then_eq_Inr map_err_eq_Inr is_ok_unit split: if_splits)
  have "u \<in> set ?k" if "u \<in> set (normalize_tunnels net ts)" "tn_enabled u" "tn_id u \<noteq> tn_id tunnel" for u
  proof -
    have "u \<in> set ?l" using that by simp
    then show ?thesis using that(2) remove_first_keeps [of u ?l "\<lambda>item. \<not> tn_enabled item"] by auto
  qed
  then show ?thesis using k by simp
qed

lemma profile_with_tunnel_ok:
  assumes "profile_with_tunnel net tunnel p = Inr p'"
  shows "prof_id p' = prof_id p \<and>
    (\<exists>ssh ts. (prof_connection p = ConnSsh ssh \<and> prof_connection p' = ConnSsh (ssh\<lparr>ssh_tunnels := ts\<rparr>) \<or>
               prof_connection p = ConnTmux ssh \<and> prof_connection p' = ConnTmux (ssh\<lparr>ssh_tunnels := ts\<rparr>)) \<and>
              tunnels_with net tunnel (ssh_tunnels ssh) = Inr ts)"
  using assms by (auto simp add: profile_with_tunnel_def and_then_eq_Inr split: ConnectionConfig.splits)

lemma store_profile_upsert:
  assumes "store_profile st (prof_id p) = Some q"
  shows "store_profile (fst (upsert_profile now p st)) (prof_id p) = Some p"
proof -
  have "has_profile st (prof_id p)" using assms store_profile_None_iff [of st "prof_id p"] by auto
  then show ?thesis
    using assms by (simp add: upsert_profile_profiles store_profile_def find_update_first)
qed

lemma store_profile_push [simp]:
  "store_profile (fst (push_system_event chan u now sid text st)) i = store_profile st i"
  by (simp add: store_profile_def)

lemma tunnel_in_profile_ok:
  assumes "tunnel_in_profile now net sid tunnel st = Inr st1" "tn_egress tunnel = EgressSsh"
  shows "\<exists>ssh ts. ssh_profile st sid = Some ssh \<and> tunnels_with net tunnel (ssh_tunnels ssh) = Inr ts \<and>
    ssh_profile st1 sid = Some (ssh\<lparr>ssh_tunnels := ts\<rparr>)"
proof -
  obtain p p' where p: "store_profile st sid = Some p" "profile_with_tunnel net tunnel p = Inr p'"
    "st1 = fst (upsert_profile now p' st)"
    using assms by (auto simp add: tunnel_in_profile_def and_then_eq_Inr ok_or_eq_Inr)
  have sid: "prof_id p' = sid" using profile_with_tunnel_ok [OF p(2)] store_profile_SomeD [OF p(1)] by simp
  have "store_profile st1 sid = Some p'"
    using store_profile_upsert [of st p' p now] p(1,3) sid by simp
  then show ?thesis
    using profile_with_tunnel_ok [OF p(2)] p(1) by (auto simp add: ssh_profile_def)
qed

lemma tunnel_in_profile_sink: "tunnel_in_profile now net sid tunnel st = Inr st1 \<Longrightarrow> st_sink st1 = st_sink st"
  by (auto simp add: tunnel_in_profile_def and_then_eq_Inr split: if_splits)


definition ex_started_tunnel :: TunnelSpec where
  "ex_started_tunnel = \<lparr>tn_id = str ''t'', tn_label = str ''db'', tn_egress = EgressSsh, tn_mode = TunLocal,
     tn_bind_host = str ''::1'', tn_bind_port = 1, tn_target_host = str ''h'', tn_target_port = 22,
     tn_route_rules = [], tn_enabled = True\<rparr>"


end
