(* ===== verification/Transfer_Request.thy ===== *)
theory Transfer_Request
  imports Mcp_Transfer
begin

text \<open>
  Requests for a file transfer in the desktop process (\<open>transfer_request.rs\<close>, the path checks of
  \<open>file_transfer.rs\<close>, \<open>file_batch_planning.rs\<close> and \<open>state.rs\<close>, and \<open>mcp_transfer_validation.rs\<close> of
  \<open>src-tauri\<close>): which protocol a profile allows, the load receiver of a device, how a local path
  is completed, and what an MCP client may ask for. Joining a path to a directory is the standard
  library's and platform dependent: the argument \<open>pth\<close>, with the home directory and the joins.
\<close>

record StartTransferRequest =
  str_session_id :: ustr
  str_protocol :: TransferProtocol
  str_source :: ustr
  str_destination :: ustr

datatype LocalTransferPathPlatform = PlatformUnix | PlatformWindows

datatype LocalTransferPathKind =
  PathRelative | PathAbsolute | PathRootedWithoutDrive | PathDriveRelative | PathForeignAnchored

datatype TransferRequestError =
    LoadAsSource | LoadNeedsLocalSource | LoadInvalid TftpError | LoadInvalidFormat | LoadNotModem
  | LoadWrongCommand ustr | LoadInvalidAddress | LoadInvalidBaud | LoadZeroBaud
  | LoadDuplicateOption ustr | LoadUnknownOption ustr | LoadBaudWithoutAddress
  | RemotePathInvalid | NeedsSsh TransferProtocol | ProtocolDisabled TransferProtocol
  | FileToolProtocol TransferProtocol
  | DefaultDirNotAbsolute | HomeWithDrive | HomeUnknown | HomeNotUnicode
  | NoDrive | DriveRelativePath | ForeignPath
  | McpPathText | McpLocalToLocal | McpFileName | McpContentLength | McpContentNotBase64

section \<open>Paths\<close>

definition remote_path :: "ustr \<Rightarrow> ustr option" where
  "remote_path v =
     (case strip_prefix v (str ''remote:'') of Some p \<Rightarrow> Some p | None \<Rightarrow> strip_prefix v (str ''ssh:''))"

definition remote_path_has_dot_components :: "ustr \<Rightarrow> bool" where
  "remote_path_has_dot_components path \<longleftrightarrow>
     list_ex (\<lambda>component. component = str ''.'' \<or> component = str ''..'') (split_by (\<lambda>c. c = 47 \<or> c = 92) path)"

definition validate_remote_transfer_path :: "ustr \<Rightarrow> TransferRequestError + unit" where
  "validate_remote_transfer_path path =
     (let normalized = trim_end_char 47 path
      in if trim path = [] \<or> normalized = [] \<or>
            normalized \<in> {str ''.'', str ''..'', str ''~'', str ''/'', str ''//''} \<or>
            0 \<in> set path \<or> remote_path_has_dot_components normalized
         then Inl RemotePathInvalid else Inr ())"

definition is_ascii_alphabetic :: "nat \<Rightarrow> bool" where
  "is_ascii_alphabetic b \<longleftrightarrow> is_ascii_upper b \<or> is_ascii_lower b"

definition path_separator :: "nat \<Rightarrow> bool" where
  "path_separator b \<longleftrightarrow> b = 47 \<or> b = 92"

definition has_drive_prefix :: "nat list \<Rightarrow> bool" where
  "has_drive_prefix bytes \<longleftrightarrow> 2 \<le> length bytes \<and> is_ascii_alphabetic (bytes ! 0) \<and> bytes ! 1 = 58"

text \<open>\<open>bytes.get(i).is_some_and(P)\<close>.\<close>

definition byte_is :: "nat list \<Rightarrow> nat \<Rightarrow> (nat \<Rightarrow> bool) \<Rightarrow> bool" where
  "byte_is bytes i P \<longleftrightarrow> i < length bytes \<and> P (bytes ! i)"

definition classify_local_transfer_path :: "ustr \<Rightarrow> LocalTransferPathPlatform \<Rightarrow> LocalTransferPathKind" where
  "classify_local_transfer_path v platform =
     (let bytes = utf8_bytes v;
          first_is_forward = byte_is bytes 0 (\<lambda>b. b = 47);
          first_is_backward = byte_is bytes 0 (\<lambda>b. b = 92);
          first_is_separator = (first_is_forward \<or> first_is_backward);
          second_is_separator = byte_is bytes 1 path_separator
      in case platform of
           PlatformUnix \<Rightarrow>
             if first_is_forward then PathAbsolute
             else if first_is_backward \<or> has_drive_prefix bytes then PathForeignAnchored
             else PathRelative
         | PlatformWindows \<Rightarrow>
             if has_drive_prefix bytes then
               if byte_is bytes 2 path_separator then PathAbsolute else PathDriveRelative
             else if first_is_separator \<and> second_is_separator then PathAbsolute
             else if first_is_separator then PathRootedWithoutDrive
             else PathRelative)"

text \<open>\<open>trim_start_matches\<close> with a predicate on characters.\<close>

definition local_home_relative_path :: "ustr \<Rightarrow> bool \<Rightarrow> ustr option" where
  "local_home_relative_path path windows =
     (let relative = (if path = str ''~'' then Some []
                      else case strip_prefix path (str ''~/'') of
                             Some relative \<Rightarrow> Some relative
                           | None \<Rightarrow> if windows then strip_prefix path [126, 92] else None)
      in Option.bind relative (\<lambda>relative.
           let relative = (if windows then dropWhile path_separator relative else dropWhile (\<lambda>c. c = 47) relative)
           in if windows \<and> has_drive_prefix (utf8_bytes relative) then None else Some relative))"

definition has_local_home_prefix :: "ustr \<Rightarrow> bool \<Rightarrow> bool" where
  "has_local_home_prefix path windows \<longleftrightarrow>
     path = str ''~'' \<or> starts_with path (str ''~/'') \<or> (windows \<and> starts_with path [126, 92])"

text \<open>
  The home directory and \<open>Path::join\<close>: \<open>pt_home_join r\<close> is the home directory joined with the
  relative path \<open>r\<close>, \<open>None\<close> inside when it is not Unicode; \<open>pt_join d p\<close> is the text of the join.
\<close>

record path_ops =
  pt_home_join :: "(ustr \<Rightarrow> ustr option) option"
  pt_join :: "ustr \<Rightarrow> ustr \<Rightarrow> ustr"

definition expand_local_home_transfer_path :: "path_ops \<Rightarrow> ustr \<Rightarrow> bool \<Rightarrow> TransferRequestError + ustr" where
  "expand_local_home_transfer_path pth v windows =
     and_then (ok_or HomeWithDrive (local_home_relative_path v windows)) (\<lambda>relative.
     and_then (ok_or HomeUnknown (pt_home_join pth)) (\<lambda>join.
       ok_or HomeNotUnicode (join relative)))"

definition resolve_transfer_default_local_dir_with_home ::
  "path_ops \<Rightarrow> ustr option \<Rightarrow> LocalTransferPathPlatform \<Rightarrow> TransferRequestError + ustr option" where
  "resolve_transfer_default_local_dir_with_home pth default_local_dir platform =
     (case Option.bind default_local_dir (\<lambda>path. if trim path = [] then None else Some path) of
        None \<Rightarrow> Inr None
      | Some default_local_dir \<Rightarrow>
          let windows = (platform = PlatformWindows)
          in if has_local_home_prefix default_local_dir windows
             then and_then (expand_local_home_transfer_path pth default_local_dir windows) (\<lambda>p. Inr (Some p))
             else if classify_local_transfer_path default_local_dir platform \<noteq> PathAbsolute
             then Inl DefaultDirNotAbsolute
             else Inr (Some default_local_dir))"

definition resolve_default_local_transfer_path_with_home ::
  "path_ops \<Rightarrow> ustr \<Rightarrow> ustr option \<Rightarrow> LocalTransferPathPlatform \<Rightarrow> TransferRequestError + ustr" where
  "resolve_default_local_transfer_path_with_home pth v default_local_dir platform =
     (if is_nonlocal_transfer_endpoint v then Inr v
      else
        let windows = (platform = PlatformWindows)
        in if has_local_home_prefix v windows then expand_local_home_transfer_path pth v windows
           else case classify_local_transfer_path v platform of
                  PathAbsolute \<Rightarrow> Inr v
                | PathRelative \<Rightarrow> Inr (case default_local_dir of Some directory \<Rightarrow> pt_join pth directory v | None \<Rightarrow> v)
                | PathRootedWithoutDrive \<Rightarrow> Inl NoDrive
                | PathDriveRelative \<Rightarrow> Inl DriveRelativePath
                | PathForeignAnchored \<Rightarrow> Inl ForeignPath)"

section \<open>Load receivers\<close>

record LoadReceiverSpec =
  lr_command :: ustr
  lr_address :: "ustr option"
  lr_baud_rate :: "u32 option"

definition load_command_line :: "LoadReceiverSpec \<Rightarrow> ustr" where
  "load_command_line spec =
     (let command = lr_command spec;
          command = (case lr_address spec of None \<Rightarrow> command | Some address \<Rightarrow> command @ str '' '' @ address);
          command = (case lr_baud_rate spec of None \<Rightarrow> command
                     | Some baud_rate \<Rightarrow> command @ str '' '' @ nat_str (unat baud_rate))
      in command @ [13])"

definition parse_u32 :: "ustr \<Rightarrow> u32 option" where
  "parse_u32 s = map_option of_nat (parse_unsigned 4294967295 s)"

fun load_command :: "TransferProtocol \<Rightarrow> ustr option" where
  "load_command Xmodem = Some (str ''loadx'')"
| "load_command Ymodem = Some (str ''loady'')"
| "load_command Zmodem = Some (str ''loadz'')"
| "load_command _ = None"

definition address_digits :: "ustr \<Rightarrow> ustr" where
  "address_digits v =
     (case strip_prefix v (str ''0x'') of
        Some d \<Rightarrow> d
      | None \<Rightarrow> (case strip_prefix v (str ''0X'') of Some d \<Rightarrow> d | None \<Rightarrow> v))"

fun load_options ::
  "(ustr \<times> ustr) list \<Rightarrow> ustr option \<Rightarrow> u32 option \<Rightarrow> TransferRequestError + ustr option \<times> u32 option" where
  "load_options [] address baud_rate = Inr (address, baud_rate)"
| "load_options ((key, v) # pairs) address baud_rate =
     (if key = str ''address'' \<and> address = None then
        (let digits = address_digits v
         in if digits = [] \<or> 16 < byte_len digits \<or> \<not> list_all is_ascii_hexdigit (utf8_bytes digits)
            then Inl LoadInvalidAddress else load_options pairs (Some v) baud_rate)
      else if key = str ''baud'' \<and> baud_rate = None then
        (case parse_u32 v of
           None \<Rightarrow> Inl LoadInvalidBaud
         | Some baud \<Rightarrow> if baud = 0 then Inl LoadZeroBaud else load_options pairs address (Some baud))
      else if key = str ''address'' \<or> key = str ''baud'' then Inl (LoadDuplicateOption key)
      else Inl (LoadUnknownOption key))"

definition parse_load_receiver_endpoint ::
  "url_ops \<Rightarrow> ustr \<Rightarrow> TransferProtocol \<Rightarrow> TransferRequestError + LoadReceiverSpec option" where
  "parse_load_receiver_endpoint url v protocol =
     (if \<not> has_load_receiver_prefix v then Inr None
      else if starts_with v (str ''load://'') then Inl (LoadInvalid LoadHasHost)
      else (case url_parse url v of
              None \<Rightarrow> Inl (LoadInvalid LoadInvalidUrl)
            | Some parsed \<Rightarrow>
                if url_scheme parsed \<noteq> str ''load'' \<or> url_has_fragment parsed then Inl LoadInvalidFormat
                else and_then (ok_or LoadNotModem (load_command protocol)) (\<lambda>expected_command.
                  if url_path parsed \<noteq> expected_command then Inl (LoadWrongCommand expected_command)
                  else and_then (load_options (url_query_pairs parsed) None None) (\<lambda>(address, baud_rate).
                    if baud_rate \<noteq> None \<and> address = None then Inl LoadBaudWithoutAddress
                    else Inr (Some \<lparr>lr_command = expected_command, lr_address = address,
                                    lr_baud_rate = baud_rate\<rparr>)))))"

definition validate_load_receiver_endpoint ::
  "url_ops \<Rightarrow> (u64 \<Rightarrow> bool) \<Rightarrow> ustr \<Rightarrow> TransferProtocol \<Rightarrow> TransferRequestError + bool" where
  "validate_load_receiver_endpoint url clock_fits v protocol =
     (if \<not> has_load_receiver_prefix v then Inr False
      else if protocol = Tftp
      then and_then (map_err LoadInvalid (parse_tftp_receiver_endpoint url clock_fits v)) (\<lambda>spec. Inr (spec \<noteq> None))
      else and_then (parse_load_receiver_endpoint url v protocol) (\<lambda>spec. Inr (spec \<noteq> None)))"

section \<open>Preparing a request\<close>

fun protocol_enabled :: "TransferSettings \<Rightarrow> TransferProtocol \<Rightarrow> bool" where
  "protocol_enabled s Sftp = tfs_sftp s"
| "protocol_enabled s Scp = tfs_scp s"
| "protocol_enabled s Tftp = tfs_tftp s"
| "protocol_enabled s Xmodem = tfs_xmodem s"
| "protocol_enabled s Ymodem = tfs_ymodem s"
| "protocol_enabled s Zmodem = tfs_zmodem s"

definition validate_transfer_protocol ::
  "SessionProfile \<Rightarrow> TransferProtocol \<Rightarrow> bool \<Rightarrow> TransferRequestError + unit" where
  "validate_transfer_protocol profile protocol accesses_remote =
     (if \<not> accesses_remote \<and> protocol \<in> {Sftp, Scp} then Inr ()
      else
        let ssh_like = (prof_kind profile \<in> {KSsh, KTmux})
        in if accesses_remote \<and> protocol \<in> {Sftp, Scp} \<and> \<not> ssh_like then Inl (NeedsSsh protocol)
           else if protocol_enabled (prof_transfer profile) protocol then Inr ()
           else Inl (ProtocolDisabled protocol))"

definition validate_file_tool_transfer_protocol :: "TransferProtocol \<Rightarrow> TransferRequestError + unit" where
  "validate_file_tool_transfer_protocol protocol =
     ensure (protocol \<in> {Sftp, Scp}) (FileToolProtocol protocol)"

definition validate_remote_endpoint :: "ustr \<Rightarrow> TransferRequestError + unit" where
  "validate_remote_endpoint v =
     (case remote_path v of None \<Rightarrow> Inr () | Some path \<Rightarrow> validate_remote_transfer_path path)"

definition is_modem :: "TransferProtocol \<Rightarrow> bool" where
  "is_modem protocol \<longleftrightarrow> protocol \<in> {Xmodem, Ymodem, Zmodem}"

definition prepare_transfer_request_with_home ::
  "url_ops \<Rightarrow> (u64 \<Rightarrow> bool) \<Rightarrow> path_ops \<Rightarrow> SessionProfile \<Rightarrow> StartTransferRequest \<Rightarrow> LocalTransferPathPlatform
     \<Rightarrow> TransferRequestError + StartTransferRequest" where
  "prepare_transfer_request_with_home url clock_fits pth profile request platform =
     (if has_load_receiver_prefix (str_source request) then Inl LoadAsSource
      else and_then (validate_load_receiver_endpoint url clock_fits (str_destination request) (str_protocol request)) (\<lambda>load_receiver.
        if load_receiver \<and> has_remote_transfer_prefix (str_source request) then Inl LoadNeedsLocalSource
        else
          let accesses_remote = (is_nonlocal_transfer_endpoint (str_source request) \<or>
                                 is_nonlocal_transfer_endpoint (str_destination request))
          in and_then (validate_transfer_protocol profile (str_protocol request) accesses_remote) (\<lambda>_.
             and_then (validate_remote_endpoint (str_source request)) (\<lambda>_.
             and_then (validate_remote_endpoint (str_destination request)) (\<lambda>_.
             and_then (resolve_transfer_default_local_dir_with_home pth
                         (tfs_default_local_dir (prof_transfer profile)) platform) (\<lambda>default_local_dir.
             and_then (resolve_default_local_transfer_path_with_home pth (str_source request) default_local_dir platform) (\<lambda>source.
               let implicit_modem_remote_destination =
                     (is_modem (str_protocol request) \<and> \<not> has_remote_transfer_prefix source \<and>
                      \<not> is_nonlocal_transfer_endpoint (str_destination request))
               in and_then (if implicit_modem_remote_destination then Inr (str_destination request)
                            else resolve_default_local_transfer_path_with_home pth (str_destination request)
                                   default_local_dir platform) (\<lambda>destination.
                    Inr (request\<lparr>str_source := source, str_destination := destination\<rparr>)))))))))"

section \<open>Transfers of an MCP client\<close>

abbreviation (input) MAX_MCP_TRANSFER_PATH_BYTES :: nat where "MAX_MCP_TRANSFER_PATH_BYTES \<equiv> 32768"
abbreviation (input) MAX_MCP_CONTENT_TRANSFER_BYTES :: nat where "MAX_MCP_CONTENT_TRANSFER_BYTES \<equiv> 4194304"
abbreviation (input) MAX_MCP_CONTENT_TRANSFER_BASE64_LENGTH :: nat where "MAX_MCP_CONTENT_TRANSFER_BASE64_LENGTH \<equiv> 5592408"

definition mcp_path_text_ok :: "ustr \<Rightarrow> bool" where
  "mcp_path_text_ok path \<longleftrightarrow> path \<noteq> [] \<and> byte_len path \<le> MAX_MCP_TRANSFER_PATH_BYTES \<and> 0 \<notin> set path"

definition validate_mcp_transfer_route ::
  "url_ops \<Rightarrow> (u64 \<Rightarrow> bool) \<Rightarrow> StartTransferRequest \<Rightarrow> TransferRequestError + unit" where
  "validate_mcp_transfer_route url clock_fits request =
     (if \<not> mcp_path_text_ok (str_source request) \<or> \<not> mcp_path_text_ok (str_destination request) then Inl McpPathText
      else if has_load_receiver_prefix (str_source request) then Inl LoadAsSource
      else and_then (validate_load_receiver_endpoint url clock_fits (str_destination request) (str_protocol request)) (\<lambda>load_receiver.
        if load_receiver \<and> has_remote_transfer_prefix (str_source request) then Inl LoadNeedsLocalSource
        else
          let source_remote = is_nonlocal_transfer_endpoint (str_source request);
              destination_remote = is_nonlocal_transfer_endpoint (str_destination request)
          in if \<not> source_remote \<and> \<not> destination_remote then Inl McpLocalToLocal else Inr ()))"

definition mcp_transfer_uses_host_path :: "StartTransferRequest \<Rightarrow> bool" where
  "mcp_transfer_uses_host_path request \<longleftrightarrow>
     \<not> is_nonlocal_transfer_endpoint (str_source request) \<or> \<not> is_nonlocal_transfer_endpoint (str_destination request)"

record StartMcpContentTransferRequest =
  mct_session_id :: ustr
  mct_protocol :: TransferProtocol
  mct_file_name :: ustr
  mct_content_base64 :: ustr
  mct_destination :: ustr

definition content_route :: "StartMcpContentTransferRequest \<Rightarrow> StartTransferRequest" where
  "content_route r = \<lparr>str_session_id = mct_session_id r, str_protocol = mct_protocol r,
     str_source = mct_file_name r, str_destination = mct_destination r\<rparr>"

definition mcp_file_name_ok :: "ustr \<Rightarrow> bool" where
  "mcp_file_name_ok name \<longleftrightarrow>
     byte_len name \<le> 255 \<and> name \<noteq> [] \<and>
     \<not> list_ex (\<lambda>c. c = 0 \<or> is_control c \<or> c = 47 \<or> c = 92 \<or> c = 58) name \<and>
     name \<noteq> str ''.'' \<and> name \<noteq> str ''..''"

definition validate_mcp_content_transfer_request ::
  "url_ops \<Rightarrow> (u64 \<Rightarrow> bool) \<Rightarrow> (ustr \<Rightarrow> u8 list option) \<Rightarrow> StartMcpContentTransferRequest
     \<Rightarrow> TransferRequestError + unit" where
  "validate_mcp_content_transfer_request url clock_fits base64_decode request =
     and_then (ensure (mcp_file_name_ok (mct_file_name request)) McpFileName) (\<lambda>_.
     and_then (if mct_protocol request = Tftp then map_err LoadInvalid (validate_tftp_file_name (mct_file_name request))
               else Inr ()) (\<lambda>_.
     and_then (ensure (mct_content_base64 request \<noteq> [] \<and>
                       byte_len (mct_content_base64 request) \<le> MAX_MCP_CONTENT_TRANSFER_BASE64_LENGTH) McpContentLength) (\<lambda>_.
     and_then (ok_or McpContentNotBase64 (base64_decode (mct_content_base64 request))) (\<lambda>content.
     and_then (ensure (length content \<le> MAX_MCP_CONTENT_TRANSFER_BYTES) McpContentLength) (\<lambda>_.
       validate_mcp_transfer_route url clock_fits (content_route request))))))"

record McpContentUploadMetadata =
  mum_version :: u32
  mum_upload_id :: ustr
  mum_client_id :: ustr
  mum_session_id :: ustr
  mum_protocol :: TransferProtocol
  mum_file_name :: ustr
  mum_size_bytes :: u64
  mum_sha256 :: ustr
  mum_destination :: ustr
  mum_created_at_unix_seconds :: u64

definition validate_mcp_uploaded_content_route ::
  "url_ops \<Rightarrow> (u64 \<Rightarrow> bool) \<Rightarrow> McpContentUploadMetadata \<Rightarrow> TransferRequestError + unit" where
  "validate_mcp_uploaded_content_route url clock_fits metadata =
     and_then (if mum_protocol metadata = Tftp then map_err LoadInvalid (validate_tftp_file_name (mum_file_name metadata))
               else Inr ()) (\<lambda>_.
       validate_mcp_transfer_route url clock_fits
         \<lparr>str_session_id = mum_session_id metadata, str_protocol = mum_protocol metadata,
          str_source = mum_file_name metadata, str_destination = mum_destination metadata\<rparr>)"

section \<open>The command of a load receiver\<close>

lemma hexdigit_alnum: "is_ascii_hexdigit c \<Longrightarrow> is_ascii_alphanumeric c"
  by (auto simp add: is_ascii_hexdigit_def is_ascii_alphanumeric_def is_ascii_digit_def is_ascii_upper_def is_ascii_lower_def)

lemma digit_alnum: "is_ascii_digit c \<Longrightarrow> is_ascii_alphanumeric c"
  by (simp add: is_ascii_alphanumeric_def)

lemma hexdigits_ascii:
  assumes "list_all is_ascii_hexdigit (utf8_bytes d)"
  shows "list_all is_ascii_hexdigit d"
proof -
  have "utf8_bytes d = d"
    using assms by (intro utf8_all_ascii_id)
      (auto simp add: list_all_iff is_ascii_hexdigit_def is_ascii_digit_def dest!: bspec)
  then show ?thesis using assms by simp
qed

lemma strip_prefix_Some: "strip_prefix v p = Some d \<Longrightarrow> v = p @ d"
  by (auto simp add: strip_prefix_def starts_with_iff split: if_splits)

text \<open>What the options of an accepted endpoint are.\<close>

lemma address_chars:
  assumes "address_digits v \<noteq> []" "list_all is_ascii_hexdigit (utf8_bytes (address_digits v))"
  shows "v \<noteq> [] \<and> list_all is_ascii_alphanumeric v"
proof -
  obtain w where w: "w = address_digits v" by blast
  have d: "list_all is_ascii_alphanumeric w" "w \<noteq> []"
    using assms hexdigits_ascii [OF assms(2)] hexdigit_alnum by (auto simp add: list_all_iff w)
  have "v = w \<or> v = str ''0x'' @ w \<or> v = str ''0X'' @ w"
    unfolding w address_digits_def
    using strip_prefix_Some [of v "str ''0x''"] strip_prefix_Some [of v "str ''0X''"]
    by (simp split: option.split)
  then show ?thesis
    using d by (auto simp add: is_ascii_alphanumeric_def is_ascii_digit_def is_ascii_upper_def is_ascii_lower_def)
qed

lemma load_options_ok:
  assumes "load_options pairs a b = Inr (address, baud_rate)"
    "case a of None \<Rightarrow> True | Some x \<Rightarrow> x \<noteq> [] \<and> list_all is_ascii_alphanumeric x" "b \<noteq> Some 0"
  shows "(case address of None \<Rightarrow> True | Some x \<Rightarrow> x \<noteq> [] \<and> list_all is_ascii_alphanumeric x) \<and> baud_rate \<noteq> Some 0"
  using assms
proof (induction pairs arbitrary: a b)
  case (Cons kv pairs)
  obtain key v where kv: "kv = (key, v)" by (cases kv)
  consider (address) "key = str ''address''" "a = None" | (baud) "key = str ''baud''" "b = None"
    | (other) "\<not> (key = str ''address'' \<and> a = None)" "\<not> (key = str ''baud'' \<and> b = None)" by blast
  then show ?case
  proof cases
    case address
    then have ok: "address_digits v \<noteq> []" "list_all is_ascii_hexdigit (utf8_bytes (address_digits v))"
      and next_options: "load_options pairs (Some v) b = Inr (address, baud_rate)"
      using Cons.prems(1) by (auto simp add: kv Let_def split: if_splits)
    show ?thesis using Cons.IH [OF next_options] address_chars [OF ok] Cons.prems(3) by simp
  next
    case baud
    then obtain n where "n \<noteq> 0" "load_options pairs a (Some n) = Inr (address, baud_rate)"
      using Cons.prems(1) by (auto simp add: kv split: if_splits option.splits)
    then show ?thesis using Cons.IH Cons.prems(2) by auto
  next
    case other
    then have "load_options (kv # pairs) a b = Inl (if key = str ''address'' \<or> key = str ''baud''
        then LoadDuplicateOption key else LoadUnknownOption key)"
      by (simp only: kv load_options.simps if_False) simp
    then show ?thesis using Cons.prems(1) by simp
  qed
qed simp

lemma parse_load_receiver_Some:
  assumes "parse_load_receiver_endpoint url v protocol = Inr (Some spec)"
  shows "load_command protocol = Some (lr_command spec) \<and> list_all is_ascii_alphanumeric (lr_command spec) \<and>
    (\<forall>x. lr_address spec = Some x \<longrightarrow> x \<noteq> [] \<and> list_all is_ascii_alphanumeric x) \<and> lr_baud_rate spec \<noteq> Some 0 \<and>
    (lr_baud_rate spec \<noteq> None \<longrightarrow> lr_address spec \<noteq> None)"
proof -
  obtain parsed where u: "url_parse url v = Some parsed"
    using assms by (auto simp add: parse_load_receiver_endpoint_def split: if_splits option.splits)
  obtain command where c: "load_command protocol = Some command"
    using assms by (cases "load_command protocol") (simp_all add: parse_load_receiver_endpoint_def u ok_or_def split: if_splits)
  obtain address baud_rate where o: "load_options (url_query_pairs parsed) None None = Inr (address, baud_rate)"
    using assms
    by (cases "load_options (url_query_pairs parsed) None None")
       (auto simp add: parse_load_receiver_endpoint_def u c ok_or_def split: if_splits)
  have s: "load_command protocol = Some command"
    "load_options (url_query_pairs parsed) None None = Inr (address, baud_rate)"
    "\<not> (baud_rate \<noteq> None \<and> address = None)"
    "spec = \<lparr>lr_command = command, lr_address = address, lr_baud_rate = baud_rate\<rparr>"
    using assms c o
    by (auto simp add: parse_load_receiver_endpoint_def u ok_or_def simp del: str_simps split: if_splits)
  have "list_all is_ascii_alphanumeric command"
    using s(1)
    by (cases protocol)
       (auto simp add: is_ascii_alphanumeric_def is_ascii_lower_def is_ascii_digit_def)
  then show ?thesis using load_options_ok [OF s(2)] s by (auto split: option.splits)
qed

text \<open>
  C20. The line typed into a boot loader for an accepted \<open>load:\<close> endpoint is one command with at
  most two arguments: it ends with the only carriage return in it, and besides single spaces
  between the words it consists of ASCII letters and digits, so that nothing in the endpoint can
  start a second command.
\<close>

theorem load_command_line_safe:
  assumes "parse_load_receiver_endpoint url v protocol = Inr (Some spec)"
  shows "\<exists>words. load_command_line spec = join_str (str '' '') words @ [13] \<and>
    1 \<le> length words \<and> length words \<le> 3 \<and> load_command protocol = Some (hd words) \<and>
    (\<forall>w \<in> set words. w \<noteq> [] \<and> list_all is_ascii_alphanumeric w)"
proof -
  have p: "load_command protocol = Some (lr_command spec)" "list_all is_ascii_alphanumeric (lr_command spec)"
    "\<And>x. lr_address spec = Some x \<Longrightarrow> x \<noteq> [] \<and> list_all is_ascii_alphanumeric x"
    "lr_baud_rate spec \<noteq> None \<longrightarrow> lr_address spec \<noteq> None"
    using parse_load_receiver_Some [OF assms] by auto
  have c: "lr_command spec \<noteq> []" using p(1) by (cases protocol) auto
  have n: "list_all is_ascii_alphanumeric (nat_str k)" for k
    using nat_str_digits [of k] digit_alnum by (auto simp add: list_all_iff)
  let ?words = "lr_command spec # (case lr_address spec of None \<Rightarrow> [] | Some a \<Rightarrow> [a]) @
     (case lr_baud_rate spec of None \<Rightarrow> [] | Some b \<Rightarrow> [nat_str (unat b)])"
  have "load_command_line spec = join_str (str '' '') ?words @ [13]"
    using p(4) by (cases "lr_address spec"; cases "lr_baud_rate spec") (simp_all add: load_command_line_def)
  moreover have "\<forall>w \<in> set ?words. w \<noteq> [] \<and> list_all is_ascii_alphanumeric w"
    using p(2) p(3) c n by (cases "lr_address spec"; cases "lr_baud_rate spec") auto
  ultimately show ?thesis
    using p(1) by (intro exI [where x = ?words]) (auto split: option.splits)
qed

definition ex_load_url :: url_ops where
  "ex_load_url = \<lparr>url_parse = \<lambda>_. Some \<lparr>url_scheme = str ''load'', url_path = str ''loady'',
       url_has_fragment = False, url_query_pairs = [(str ''address'', str ''0x80'')]\<rparr>, form_urlencode = \<lambda>_. []\<rparr>"

theorem load_command_line_safe_witness:
  "\<exists>words. load_command_line \<lparr>lr_command = str ''loady'', lr_address = Some (str ''0x80''), lr_baud_rate = None\<rparr> =
     join_str (str '' '') words @ [13] \<and> length words \<le> 3"
proof -
  have "parse_load_receiver_endpoint ex_load_url (str ''load:loady?address=0x80'') Ymodem =
      Inr (Some \<lparr>lr_command = str ''loady'', lr_address = Some (str ''0x80''), lr_baud_rate = None\<rparr>)"
    by (simp add: parse_load_receiver_endpoint_def ex_load_url_def has_load_receiver_prefix_def starts_with_def
        strip_prefix_def byte_len_def len_utf8_def utf8_char_def is_ascii_hexdigit_def is_ascii_digit_def ok_or_def address_digits_def Let_def)
  from load_command_line_safe [OF this] show ?thesis by blast
qed

section \<open>Prepared requests\<close>

text \<open>What is relied on: the home directory is absolute and joining keeps an absolute directory absolute.\<close>

definition paths_ok :: "path_ops \<Rightarrow> LocalTransferPathPlatform \<Rightarrow> bool" where
  "paths_ok pth platform \<longleftrightarrow>
     (\<forall>join r p. pt_home_join pth = Some join \<longrightarrow> join r = Some p \<longrightarrow>
        classify_local_transfer_path p platform = PathAbsolute) \<and>
     (\<forall>d v. classify_local_transfer_path d platform = PathAbsolute \<longrightarrow>
        classify_local_transfer_path v platform = PathRelative \<longrightarrow>
        classify_local_transfer_path (pt_join pth d v) platform = PathAbsolute)"

lemma absolute_is_local:
  assumes "classify_local_transfer_path v platform = PathAbsolute"
  shows "\<not> is_nonlocal_transfer_endpoint v \<and> \<not> has_local_home_prefix v windows"
proof -
  have "\<not> starts_with v (str ''remote:'')" "\<not> starts_with v (str ''ssh:'')" "\<not> starts_with v (str ''load:'')"
    "v \<noteq> str ''~''" "\<not> starts_with v (str ''~/'')" "\<not> starts_with v [126, 92]"
    using assms
    by (cases platform; auto simp add: starts_with_iff classify_local_transfer_path_def utf8_char_def byte_is_def
        path_separator_def has_drive_prefix_def is_ascii_alphabetic_def is_ascii_upper_def is_ascii_lower_def
        Let_def split: if_splits)+
  then show ?thesis
    by (simp add: is_nonlocal_transfer_endpoint_def has_remote_transfer_prefix_def
        has_load_receiver_prefix_def has_local_home_prefix_def)
qed

lemma expand_home_absolute:
  assumes "paths_ok pth platform" "expand_local_home_transfer_path pth v windows = Inr p"
  shows "classify_local_transfer_path p platform = PathAbsolute"
  using assms by (auto simp add: expand_local_home_transfer_path_def and_then_eq_Inr ok_or_eq_Inr paths_ok_def)

lemma default_dir_absolute:
  assumes "paths_ok pth platform" "resolve_transfer_default_local_dir_with_home pth d platform = Inr (Some dir)"
  shows "classify_local_transfer_path dir platform = PathAbsolute"
  using assms expand_home_absolute [OF assms(1)]
  by (auto simp add: resolve_transfer_default_local_dir_with_home_def and_then_eq_Inr Let_def
      split: option.splits if_splits)

lemma resolve_shape:
  assumes "paths_ok pth platform" "\<And>d. dir = Some d \<Longrightarrow> classify_local_transfer_path d platform = PathAbsolute"
    "resolve_default_local_transfer_path_with_home pth v dir platform = Inr w"
  shows "is_nonlocal_transfer_endpoint v \<and> w = v \<or>
    \<not> is_nonlocal_transfer_endpoint v \<and> classify_local_transfer_path w platform = PathAbsolute \<or>
    \<not> is_nonlocal_transfer_endpoint v \<and> w = v \<and> dir = None \<and>
      classify_local_transfer_path v platform = PathRelative \<and> \<not> has_local_home_prefix v (platform = PlatformWindows)"
  using assms(3) expand_home_absolute [OF assms(1)] assms(1,2)
  by (auto simp add: resolve_default_local_transfer_path_with_home_def paths_ok_def Let_def
      split: if_splits LocalTransferPathKind.splits option.splits)

lemma resolve_again:
  assumes "paths_ok pth platform" "\<And>d. dir = Some d \<Longrightarrow> classify_local_transfer_path d platform = PathAbsolute"
    "resolve_default_local_transfer_path_with_home pth v dir platform = Inr w"
  shows "resolve_default_local_transfer_path_with_home pth w dir platform = Inr w \<and>
    is_nonlocal_transfer_endpoint w = is_nonlocal_transfer_endpoint v \<and>
    (is_nonlocal_transfer_endpoint v \<longrightarrow> w = v) \<and>
    (dir \<noteq> None \<and> \<not> is_nonlocal_transfer_endpoint v \<longrightarrow> classify_local_transfer_path w platform = PathAbsolute)"
  using resolve_shape [OF assms] absolute_is_local [of w platform]
  by (auto simp add: resolve_default_local_transfer_path_with_home_def Let_def)

lemma remote_path_iff: "remote_path v \<noteq> None \<longleftrightarrow> has_remote_transfer_prefix v"
  by (simp add: remote_path_def has_remote_transfer_prefix_def strip_prefix_def split: option.split)

lemma local_prefixes:
  assumes "\<not> is_nonlocal_transfer_endpoint v"
  shows "\<not> has_load_receiver_prefix v" "\<not> has_remote_transfer_prefix v" "remote_path v = None"
    "validate_remote_endpoint v = Inr ()" "validate_load_receiver_endpoint url fits v p = Inr False"
proof -
  show a: "\<not> has_load_receiver_prefix v" "\<not> has_remote_transfer_prefix v"
    using assms by (auto simp add: is_nonlocal_transfer_endpoint_def)
  then show "remote_path v = None" using remote_path_iff [of v] by blast
  then show "validate_remote_endpoint v = Inr ()" by (simp add: validate_remote_endpoint_def)
  show "validate_load_receiver_endpoint url fits v p = Inr False"
    using a by (simp add: validate_load_receiver_endpoint_def)
qed

text \<open>One endpoint after preparing: the same as far as the checks of the request go.\<close>

definition same_endpoint :: "ustr \<Rightarrow> ustr \<Rightarrow> bool" where
  "same_endpoint v w \<longleftrightarrow>
     is_nonlocal_transfer_endpoint w = is_nonlocal_transfer_endpoint v \<and> (is_nonlocal_transfer_endpoint v \<longrightarrow> w = v)"

lemma same_endpoint_checks:
  assumes "same_endpoint v w"
  shows "has_load_receiver_prefix w = has_load_receiver_prefix v"
    "has_remote_transfer_prefix w = has_remote_transfer_prefix v"
    "is_nonlocal_transfer_endpoint w = is_nonlocal_transfer_endpoint v"
    "validate_remote_endpoint w = validate_remote_endpoint v"
    "validate_load_receiver_endpoint url fits w p = validate_load_receiver_endpoint url fits v p"
  using assms local_prefixes [of v] local_prefixes [of w]
  by (cases "is_nonlocal_transfer_endpoint v"; simp add: same_endpoint_def)+

definition permitted_transfer :: "SessionProfile \<Rightarrow> StartTransferRequest \<Rightarrow> bool" where
  "permitted_transfer profile r \<longleftrightarrow>
     is_ok (validate_transfer_protocol profile (str_protocol r)
       (is_nonlocal_transfer_endpoint (str_source r) \<or> is_nonlocal_transfer_endpoint (str_destination r)))"

text \<open>
  C21. A prepared transfer is stable: preparing it again, as a retry does, changes no path. Its
  protocol is one the profile allows for it, remote endpoints are exactly those of the request
  and name no root, home or dotted component, and when the profile has a default directory the
  local file that is read has an absolute path.
\<close>

theorem prepared_transfer_stable:
  assumes "paths_ok pth platform"
    "prepare_transfer_request_with_home url fits pth profile request platform = Inr r"
  shows "prepare_transfer_request_with_home url fits pth profile r platform = Inr r \<and>
    permitted_transfer profile r \<and> str_protocol r = str_protocol request \<and>
    same_endpoint (str_source request) (str_source r) \<and> same_endpoint (str_destination request) (str_destination r) \<and>
    (\<forall>v p. v \<in> {str_source r, str_destination r} \<and> remote_path v = Some p \<longrightarrow>
       is_ok (validate_remote_transfer_path p)) \<and>
    (\<forall>d. tfs_default_local_dir (prof_transfer profile) = Some d \<and> trim d \<noteq> [] \<and>
         \<not> is_nonlocal_transfer_endpoint (str_source r) \<longrightarrow>
       classify_local_transfer_path (str_source r) platform = PathAbsolute)"
proof -
  let ?p = "str_protocol request" and ?s = "str_source request" and ?d = "str_destination request"
  let ?modem = "\<lambda>src. is_modem ?p \<and> \<not> has_remote_transfer_prefix src \<and> \<not> is_nonlocal_transfer_endpoint ?d"
  note prepared = assms(2) [unfolded prepare_transfer_request_with_home_def Let_def]
  have no_load: "\<not> has_load_receiver_prefix ?s" using prepared by (simp split: if_splits)
  obtain load where load: "validate_load_receiver_endpoint url fits ?d ?p = Inr load"
    "\<not> (load \<and> has_remote_transfer_prefix ?s)"
    using prepared no_load
    by (cases "validate_load_receiver_endpoint url fits ?d ?p") (simp_all split: if_splits)
  obtain u1 u2 u3 :: unit and dir src dst where found:
    "validate_transfer_protocol profile ?p
       (is_nonlocal_transfer_endpoint ?s \<or> is_nonlocal_transfer_endpoint ?d) = Inr u1"
    "validate_remote_endpoint ?s = Inr u2" "validate_remote_endpoint ?d = Inr u3"
    "resolve_transfer_default_local_dir_with_home pth (tfs_default_local_dir (prof_transfer profile)) platform = Inr dir"
    "resolve_default_local_transfer_path_with_home pth ?s dir platform = Inr src"
    "(if ?modem src then Inr ?d else resolve_default_local_transfer_path_with_home pth ?d dir platform) = Inr dst"
    "Inr (request\<lparr>str_source := src, str_destination := dst\<rparr>) = (Inr r :: TransferRequestError + StartTransferRequest)"
    using prepared no_load load by (simp only: if_False and_then.simps and_then_eq_Inr) blast
  have r: "r = request\<lparr>str_source := src, str_destination := dst\<rparr>" using found(7) by simp
  have unit: "u1 = ()" "u2 = ()" "u3 = ()" by simp_all
  note steps = no_load load found(1-6) [unfolded unit] r
  have dir: "\<And>d. dir = Some d \<Longrightarrow> classify_local_transfer_path d platform = PathAbsolute"
    using default_dir_absolute [OF assms(1)] steps(7) by blast
  have src: "resolve_default_local_transfer_path_with_home pth src dir platform = Inr src" "same_endpoint ?s src"
    "dir \<noteq> None \<Longrightarrow> \<not> is_nonlocal_transfer_endpoint ?s \<Longrightarrow> classify_local_transfer_path src platform = PathAbsolute"
    using resolve_again [OF assms(1) dir steps(8)] by (simp_all add: same_endpoint_def)
  have dst: "same_endpoint ?d dst \<and>
      (if ?modem src then Inr dst else resolve_default_local_transfer_path_with_home pth dst dir platform) = Inr dst"
  proof (cases "?modem src")
    case True
    then show ?thesis using steps(9) by (simp add: same_endpoint_def)
  next
    case False
    then have "resolve_default_local_transfer_path_with_home pth ?d dir platform = Inr dst"
      using steps(9) by (simp only: if_False)
    from resolve_again [OF assms(1) dir this] False show ?thesis by (simp add: same_endpoint_def)
  qed
  note eqs = same_endpoint_checks [OF src(2)] same_endpoint_checks [OF conjunct1 [OF dst]]
  have again: "prepare_transfer_request_with_home url fits pth profile r platform = Inr r"
    using steps src(1) dst
    by (auto simp add: prepare_transfer_request_with_home_def steps(10) eqs Let_def)
  have remote: "is_ok (validate_remote_transfer_path p)"
    if "v \<in> {src, dst}" "remote_path v = Some p" for v p
    using that steps(5,6) eqs by (auto simp add: validate_remote_endpoint_def)
  have absolute: "classify_local_transfer_path src platform = PathAbsolute"
    if "tfs_default_local_dir (prof_transfer profile) = Some d" "trim d \<noteq> []" "\<not> is_nonlocal_transfer_endpoint src" for d
  proof -
    have "dir \<noteq> None"
      using steps(7) that(1,2)
      by (cases dir) (auto simp add: resolve_transfer_default_local_dir_with_home_def and_then_eq_Inr Let_def split: if_splits)
    then show ?thesis using src that(3) eqs by simp
  qed
  show ?thesis
    using again src(2) dst steps(4) remote absolute
    by (auto simp add: steps(10) permitted_transfer_def eqs)
qed

definition ex_paths :: path_ops where
  "ex_paths = \<lparr>pt_home_join = Some (\<lambda>r. Some (str ''/home/'' @ r)), pt_join = \<lambda>d v. d @ str ''/'' @ v\<rparr>"

lemma slash_absolute: "classify_local_transfer_path (47 # v) PlatformUnix = PathAbsolute"
  by (simp add: classify_local_transfer_path_def byte_is_def utf8_char_def)

lemma ex_paths_ok: "paths_ok ex_paths PlatformUnix"
proof -
  have "\<exists>t. d = 47 # t" if "classify_local_transfer_path d PlatformUnix = PathAbsolute" for d
  proof (cases d)
    case (Cons c cs)
    then show ?thesis
      using that by (auto simp add: classify_local_transfer_path_def byte_is_def utf8_char_def Let_def split: if_splits)
  qed (use that in \<open>simp add: classify_local_transfer_path_def byte_is_def has_drive_prefix_def\<close>)
  then have "classify_local_transfer_path (d @ 47 # v) PlatformUnix = PathAbsolute"
    if "classify_local_transfer_path d PlatformUnix = PathAbsolute" for d v
    using that slash_absolute by fastforce
  then show ?thesis by (simp add: paths_ok_def ex_paths_def slash_absolute)
qed

definition ex_transfer_profile :: SessionProfile where
  "ex_transfer_profile = \<lparr>prof_id = [1], prof_name = [1], prof_kind = KShell, prof_group = [], prof_tags = [],
      prof_connection = ConnShell \<lparr>sh_program = [1], sh_args = [], sh_cwd = None\<rparr>,
      prof_terminal = default_terminal_settings, prof_logging = default_logging_settings,
      prof_triggers = [], prof_transfer = default_transfer_settings\<lparr>tfs_default_local_dir := Some (str ''/d'')\<rparr>\<rparr>"

definition ex_transfer :: "ustr \<Rightarrow> StartTransferRequest" where
  "ex_transfer source = \<lparr>str_session_id = [1], str_protocol = Ymodem, str_source = source, str_destination = str ''fw''\<rparr>"

theorem prepared_transfer_stable_witness:
  "prepare_transfer_request_with_home ex_load_url (\<lambda>_. True) ex_paths ex_transfer_profile
     (ex_transfer (str ''/d/a'')) PlatformUnix = Inr (ex_transfer (str ''/d/a''))"
proof -
  have "prepare_transfer_request_with_home ex_load_url (\<lambda>_. True) ex_paths ex_transfer_profile
      (ex_transfer (str ''a'')) PlatformUnix = Inr (ex_transfer (str ''/d/a''))"
    by (simp add: prepare_transfer_request_with_home_def ex_transfer_def ex_transfer_profile_def ex_paths_def
        validate_load_receiver_endpoint_def has_load_receiver_prefix_def is_nonlocal_transfer_endpoint_def
        has_remote_transfer_prefix_def starts_with_def validate_transfer_protocol_def default_transfer_settings_def
        validate_remote_endpoint_def remote_path_def strip_prefix_def resolve_transfer_default_local_dir_with_home_def
        resolve_default_local_transfer_path_with_home_def has_local_home_prefix_def slash_absolute trim_eq_Nil_iff
        is_whitespace_def is_modem_def classify_local_transfer_path_def byte_is_def utf8_char_def has_drive_prefix_def)
  from prepared_transfer_stable [OF ex_paths_ok this] show ?thesis by blast
qed

end
