(* ===== verification/Transfer_State.thy ===== *)
theory Transfer_State
  imports Transfer_Request Transactions Store_Machine
begin

text \<open>
  The life of a transfer (\<open>transfer_runtime.rs\<close>, \<open>transfer_runtime/state.rs\<close>, \<open>transfer_progress.rs\<close> and
  the bindings of \<open>modem_runtime.rs\<close>): queued in the store, run by a task of its own that waits for the
  lane of its session, finished or cancelled by the user at any moment. What the code does between
  two locks is one step; \<open>transfer_step\<close> lets the steps of all tasks, of the user and of the rest of
  the process interleave. A task and its \<open>TransferCancellation\<close> are named by the identifier of the
  transfer. Messages to the window are left out, and so is the pause that keeps a rate limit.
\<close>

abbreviation (input) MAX_ACTIVE_TRANSFER_TASKS :: nat where "MAX_ACTIVE_TRANSFER_TASKS \<equiv> 5000"
abbreviation (input) MAX_ACTIVE_TRANSFERS_PER_SESSION :: nat where "MAX_ACTIVE_TRANSFERS_PER_SESSION \<equiv> 5000"

section \<open>The runtimes of the sessions\<close>

datatype ModemRuntimeKind = KindSsh | KindShell | KindTcp | KindSerial

text \<open>The four registries: session, identifier of its runtime, whether that is closed.\<close>

type_synonym runtime_registry = "ModemRuntimeKind \<Rightarrow> ustr \<rightharpoonup> ustr \<times> bool"

record ModemRuntimeBinding =
  mb_session_id :: ustr
  mb_runtime_id :: ustr
  mb_kind :: ModemRuntimeKind

definition runtime_open :: "runtime_registry \<Rightarrow> ModemRuntimeKind \<Rightarrow> ustr \<Rightarrow> ustr \<Rightarrow> bool" where
  "runtime_open reg kind session_id runtime_id \<longleftrightarrow> reg kind session_id = Some (runtime_id, False)"

definition session_connected :: "'vt SessionStore \<Rightarrow> ustr \<Rightarrow> bool" where
  "session_connected st session_id \<longleftrightarrow>
     list_ex (\<lambda>r. rt_session_id r = session_id \<and> rt_status r = Connected) (st_runtimes st)"

definition ssh_runtime_connected :: "runtime_registry \<Rightarrow> 'vt SessionStore \<Rightarrow> ustr \<Rightarrow> ustr \<Rightarrow> bool" where
  "ssh_runtime_connected reg st session_id runtime_id \<longleftrightarrow>
     runtime_open reg KindSsh session_id runtime_id \<and> session_connected st session_id"

datatype ModemBindingError =
    SessionRuntimeMissing ustr | ModemSessionDisconnected SessionStatus | ModemRuntimeReplaced
  | NoModemRuntime | ModemRuntimeClosed

definition ensure_modem_session_connected :: "'vt SessionStore \<Rightarrow> ustr \<Rightarrow> ModemBindingError + unit" where
  "ensure_modem_session_connected st session_id =
     (case List.find (\<lambda>r. rt_session_id r = session_id) (st_runtimes st) of
        None \<Rightarrow> Inl (SessionRuntimeMissing session_id)
      | Some r \<Rightarrow> ensure (rt_status r = Connected) (ModemSessionDisconnected (rt_status r)))"

definition ensure_modem_runtime_current ::
  "runtime_registry \<Rightarrow> ustr \<Rightarrow> ustr \<Rightarrow> ModemRuntimeKind \<Rightarrow> ModemBindingError + unit" where
  "ensure_modem_runtime_current reg session_id runtime_id kind =
     ensure (runtime_open reg kind session_id runtime_id) ModemRuntimeReplaced"

definition binding_ensure_current ::
  "runtime_registry \<Rightarrow> 'vt SessionStore \<Rightarrow> ModemRuntimeBinding \<Rightarrow> ModemBindingError + unit" where
  "binding_ensure_current reg st b =
     and_then (ensure_modem_session_connected st (mb_session_id b)) (\<lambda>_.
       ensure_modem_runtime_current reg (mb_session_id b) (mb_runtime_id b) (mb_kind b))"

definition runtime_modem_binding ::
  "runtime_registry \<Rightarrow> 'vt SessionStore \<Rightarrow> ustr \<Rightarrow> ModemBindingError + ModemRuntimeBinding" where
  "runtime_modem_binding reg st session_id =
     (let target = List.find (\<lambda>kind. reg kind session_id \<noteq> None) [KindSsh, KindShell, KindTcp, KindSerial]
      in case target of
           None \<Rightarrow> Inl NoModemRuntime
         | Some kind \<Rightarrow>
             (case the (reg kind session_id) of
                (runtime_id, closed) \<Rightarrow>
                  if closed then Inl ModemRuntimeClosed
                  else
                    let b = \<lparr>mb_session_id = session_id, mb_runtime_id = runtime_id, mb_kind = kind\<rparr>
                    in and_then (binding_ensure_current reg st b) (\<lambda>_. Inr b)))"

text \<open>A runtime that is gone does not stand in the way of a completion; one that was replaced does.\<close>

definition permits_completion :: "runtime_registry \<Rightarrow> ModemRuntimeBinding \<Rightarrow> ustr \<Rightarrow> bool" where
  "permits_completion reg b session_id \<longleftrightarrow>
     mb_session_id b = session_id \<and>
     (case reg (mb_kind b) session_id of None \<Rightarrow> True | Some (runtime_id, _) \<Rightarrow> runtime_id = mb_runtime_id b)"

section \<open>The state\<close>

text \<open>
  What a task is about to do: wait for its lane, check what it relies on, mark its transfer as
  running, transfer, or finish with a status, a message, the bytes and the runtimes a completion
  relies on.
\<close>

datatype runner_phase =
    Waiting
  | Holding
  | Checked
  | Active
  | Ending TransferStatus ustr "u64 option" "ustr option" "ModemRuntimeBinding option"

record transfer_runner =
  rn_request :: StartTransferRequest
  rn_lane :: nat
  rn_holds_lane :: bool
  rn_ssh :: "ustr option"
  rn_phase :: runner_phase

record 'vt transfer_process =
  tp_store :: "'vt SessionStore"
  tp_runtimes :: runtime_registry
  tp_cancellations :: "ustr set"                          \<comment> \<open>keys of the map\<close>
  tp_cancelled :: "ustr set"                              \<comment> \<open>flags that are raised\<close>
  tp_bindings :: "ustr \<rightharpoonup> ModemRuntimeBinding"
  tp_staging :: "ustr \<rightharpoonup> ustr"
  tp_slots :: nat
  tp_lanes :: "ustr \<rightharpoonup> nat"
  tp_next_lane :: nat
  tp_runners :: "ustr \<rightharpoonup> transfer_runner"

text \<open>The surroundings of one step. The quotient of the average rate is computed by the hardware.\<close>

record 'vt transfer_env =
  te_now :: time
  te_uuid :: ustr
  te_chan :: "nat \<Rightarrow> TrySend"
  te_persist :: "'vt SessionStore \<Rightarrow> ustr + unit"
  te_verify :: "'vt SessionStore \<Rightarrow> ustr + bool"
  te_rate :: "u64 \<Rightarrow> int \<Rightarrow> f64"
  te_updating :: "ustr option"                            \<comment> \<open>\<open>ensure_not_updating\<close>: its error\<close>
  te_say :: "TransferRequestError \<Rightarrow> ustr"

section \<open>Texts\<close>

definition TRANSFER_CANCELLED_MESSAGE :: ustr where
  "TRANSFER_CANCELLED_MESSAGE = str ''transfer cancelled''"

text \<open>The longest prefix of at most so many bytes.\<close>

fun take_bytes :: "nat \<Rightarrow> ustr \<Rightarrow> ustr" where
  "take_bytes n [] = []"
| "take_bytes n (c # cs) = (if len_utf8 c \<le> n then c # take_bytes (n - len_utf8 c) cs else [])"

definition truncate_for_log :: "ustr \<Rightarrow> nat \<Rightarrow> ustr" where
  "truncate_for_log v limit =
     (let trimmed = trim v
      in if byte_len trimmed \<le> limit then trimmed else take_bytes limit trimmed @ str ''...'')"

fun protocol_debug :: "TransferProtocol \<Rightarrow> ustr" where
  "protocol_debug Sftp = str ''Sftp''"
| "protocol_debug Scp = str ''Scp''"
| "protocol_debug Tftp = str ''Tftp''"
| "protocol_debug Xmodem = str ''Xmodem''"
| "protocol_debug Ymodem = str ''Ymodem''"
| "protocol_debug Zmodem = str ''Zmodem''"

fun status_debug :: "TransferStatus \<Rightarrow> ustr" where
  "status_debug Queued = str ''Queued''"
| "status_debug Running = str ''Running''"
| "status_debug Completed = str ''Completed''"
| "status_debug Failed = str ''Failed''"
| "status_debug Cancelled = str ''Cancelled''"

definition transfer_route_label :: "ustr \<Rightarrow> ustr \<Rightarrow> ustr" where
  "transfer_route_label source destination =
     (case (is_nonlocal_transfer_endpoint source, is_nonlocal_transfer_endpoint destination) of
        (False, True) \<Rightarrow> str ''upload''
      | (True, False) \<Rightarrow> str ''download''
      | (True, True) \<Rightarrow> str ''remote-copy''
      | (False, False) \<Rightarrow> str ''local-copy'')"

text \<open>The Chinese texts of the source, by their code points.\<close>

definition MSG_TWO_RUNTIMES :: ustr where
  "MSG_TWO_RUNTIMES = [20256, 36755, 23436, 25104, 25552, 20132, 19981, 33021, 21516, 26102, 32465, 23450, 32] @
     str ''SSH '' @ [25991, 20214, 21644, 32] @ str ''Modem runtime''"

definition MSG_MODEM_CHANGED :: ustr where
  "MSG_MODEM_CHANGED = str ''Modem runtime '' @ [22312, 20256, 36755, 23436, 25104, 25552, 20132, 21069, 24050, 21464,
     21270, 25110, 26029, 24320, 65292, 35831, 37325, 35797]"

definition MSG_SSH_CHANGED :: ustr where
  "MSG_SSH_CHANGED = str ''SSH runtime '' @ [22312, 25991, 20214, 20256, 36755, 23436, 25104, 25552, 20132, 21069, 24050,
     21464, 21270, 25110, 26029, 24320, 65292, 35831, 21047, 26032, 21518, 37325, 35797]"

definition MSG_NO_BINDING :: ustr where
  "MSG_NO_BINDING = str ''Modem '' @ [20256, 36755, 23436, 25104, 26102, 32570, 23569] @ str '' runtime binding''"

definition MSG_NEEDS_SSH :: ustr where
  "MSG_NEEDS_SSH = [38656, 35201, 20808, 36830, 25509, 32] @ str ''SSH/Tmux '' @
     [20250, 35805, 25165, 33021, 25191, 34892, 36828, 31471, 25991, 20214, 20256, 36755]"

definition MSG_SSH_CHANGED_PLANNING :: ustr where
  "MSG_SSH_CHANGED_PLANNING = str ''SSH runtime '' @ [22312, 25991, 20214, 25209, 27425, 35268, 21010, 21518, 24050, 21464,
     21270, 25110, 26029, 24320, 65292, 35831, 21047, 26032, 30446, 24405, 21518, 37325, 35797]"

definition MCP_CONTENT_TRANSFER_RETRY_ERROR :: ustr where
  "MCP_CONTENT_TRANSFER_RETRY_ERROR = str ''MCP virtual and uploadId content transfers cannot be retried; call start_transfer again with contentBase64 or uploadId''"

definition MSG_SSH_CHANGED_WAITING :: ustr where
  "MSG_SSH_CHANGED_WAITING = str ''SSH runtime '' @ [22312, 25991, 20214, 20256, 36755, 31561, 24453, 26399, 38388, 24050,
     21464, 21270, 25110, 26029, 24320, 65292, 35831, 21047, 26032, 21518, 37325, 35797]"

section \<open>Counting and the queue\<close>

definition transfer_task_is_active :: "TransferStatus \<Rightarrow> bool" where
  "transfer_task_is_active status \<longleftrightarrow> status \<in> {Queued, Running}"

definition active_transfer :: "TransferTask \<Rightarrow> bool" where
  "active_transfer t \<longleftrightarrow> transfer_task_is_active (tft_status t)"

definition session_active :: "ustr \<Rightarrow> TransferTask \<Rightarrow> bool" where
  "session_active session_id t \<longleftrightarrow> active_transfer t \<and> tft_session_id t = session_id"

text \<open>The counters saturate and the sums are checked at the width of \<open>usize\<close>, far above both limits.\<close>

definition ensure_transfer_queue_capacity :: "'vt SessionStore \<Rightarrow> ustr \<Rightarrow> nat \<Rightarrow> ustr + unit" where
  "ensure_transfer_queue_capacity st session_id additional =
     (let sum_all = count_if active_transfer (st_transfers st);
          session = count_if (session_active session_id) (st_transfers st)
      in if MAX_ACTIVE_TRANSFERS_PER_SESSION < session + additional
         then Inl (str ''active transfer count for session has reached 5000'')
         else if MAX_ACTIVE_TRANSFER_TASKS < sum_all + additional
         then Inl (str ''active transfer count has reached app limit (5000)'')
         else Inr ())"

definition ensure_transfer_batch_capacity :: "'vt transfer_process \<Rightarrow> ustr \<Rightarrow> nat \<Rightarrow> ustr + unit" where
  "ensure_transfer_batch_capacity p session_id additional =
     and_then (ensure_transfer_queue_capacity (tp_store p) session_id additional) (\<lambda>_.
       ensure (additional \<le> tp_slots p) (str ''transfer runner limit would be exceeded (5000)''))"

definition transfer_uses_ssh_files :: "StartTransferRequest \<Rightarrow> bool" where
  "transfer_uses_ssh_files request \<longleftrightarrow>
     str_protocol request \<in> {Sftp, Scp} \<and>
     (remote_path (str_source request) \<noteq> None \<or> remote_path (str_destination request) \<noteq> None)"

definition open_runtime_id :: "runtime_registry \<Rightarrow> ustr \<Rightarrow> ustr option" where
  "open_runtime_id reg session_id =
     (case reg KindSsh session_id of Some (i, False) \<Rightarrow> Some i | _ \<Rightarrow> None)"

definition transfer_ssh_runtime_id ::
  "'vt transfer_process \<Rightarrow> StartTransferRequest \<Rightarrow> ustr option \<Rightarrow> ustr + ustr option" where
  "transfer_ssh_runtime_id p request required_runtime_id =
     (if \<not> transfer_uses_ssh_files request then Inr None
      else
        let session_id = str_session_id request;
            current = open_runtime_id (tp_runtimes p) session_id;
            connected = ssh_runtime_connected (tp_runtimes p) (tp_store p) session_id
        in case required_runtime_id of
             Some required \<Rightarrow>
               if current \<noteq> Some required \<or> \<not> connected required then Inl MSG_SSH_CHANGED_PLANNING
               else Inr (Some required)
           | None \<Rightarrow>
               Inr (case current of
                      Some i \<Rightarrow> if connected i then Some i else None
                    | None \<Rightarrow> None))"

definition new_transfer_task :: "ustr \<Rightarrow> StartTransferRequest \<Rightarrow> TransferTask" where
  "new_transfer_task task_id request =
     \<lparr>tft_id = task_id, tft_session_id = str_session_id request, tft_protocol = str_protocol request,
      tft_source = str_source request, tft_destination = str_destination request, tft_bytes_total = 0,
      tft_bytes_done = 0, tft_status = Queued, tft_message = Some (str ''queued''), tft_started_at = None,
      tft_finished_at = None, tft_average_bytes_per_second = None\<rparr>"

definition ensure_transfer_profile_exists :: "'vt SessionStore \<Rightarrow> ustr \<Rightarrow> ustr + unit" where
  "ensure_transfer_profile_exists st session_id =
     ensure (store_profile st session_id \<noteq> None) (str ''unknown session: '' @ session_id)"

definition recorded_event ::
  "'vt transfer_env \<Rightarrow> ustr \<Rightarrow> ustr \<Rightarrow> 'vt SessionStore \<Rightarrow> 'vt SessionStore \<times> ustr list" where
  "recorded_event env session_id t st =
     (let (st, event_id) = record_system_event_tracked (te_chan env) (te_uuid env) (te_now env) session_id t st
      in (st, recorded_ids event_id))"

definition queue_mutation ::
  "'vt transfer_env \<Rightarrow> TransferTask \<Rightarrow> StartTransferRequest \<Rightarrow> ('vt, unit \<times> ustr list) mutation" where
  "queue_mutation env task request st =
     (let session_id = str_session_id request
      in case te_updating env of
           Some e \<Rightarrow> (st, Inl e)
         | None \<Rightarrow>
             (case and_then (ensure_transfer_profile_exists st session_id) (\<lambda>_.
                     ensure_transfer_queue_capacity st session_id 1) of
                Inl e \<Rightarrow> (st, Inl e)
              | Inr _ \<Rightarrow>
                  let (st, event_ids) = recorded_event env session_id
                        (str ''PortMate: transfer queued ('' @ protocol_debug (str_protocol request) @ str '', '' @
                         transfer_route_label (str_source request) (str_destination request) @ str '')'')
                        (record_transfer task st)
                  in (st, Inr ((), event_ids))))"

text \<open>The lane of a session, made at its first use.\<close>

definition transfer_lane :: "'vt transfer_process \<Rightarrow> ustr \<Rightarrow> 'vt transfer_process \<times> nat" where
  "transfer_lane p session_id =
     (case tp_lanes p session_id of
        Some lane \<Rightarrow> (p, lane)
      | None \<Rightarrow> (p\<lparr>tp_lanes := (tp_lanes p)(session_id \<mapsto> tp_next_lane p), tp_next_lane := tp_next_lane p + 1\<rparr>,
                 tp_next_lane p))"

definition cleanup_mcp_content_transfer_staging :: "ustr \<Rightarrow> 'vt transfer_process \<Rightarrow> 'vt transfer_process" where
  "cleanup_mcp_content_transfer_staging task_id p = p\<lparr>tp_staging := (tp_staging p)(task_id := None)\<rparr>"

text \<open>
  The second half of \<open>start_transfer_inner_with_context\<close>, from the permit of the task on. The first
  half, \<open>plan_transfer\<close>, only looks at the profile and the runtime; what it saw may have changed.
\<close>

definition queue_transfer ::
  "'vt transfer_env \<Rightarrow> ustr \<Rightarrow> StartTransferRequest \<Rightarrow> ustr option \<Rightarrow> ustr option \<Rightarrow> ustr + unit
     \<Rightarrow> 'vt transfer_process \<Rightarrow> 'vt transfer_process \<times> (ustr + TransferTask)" where
  "queue_transfer env task_id request expected_ssh_runtime_id staging_path validation p =
     (if tp_slots p = 0 then (p, Inl (str ''transfer runner limit reached (5000)''))
      else case validation of
        Inl e \<Rightarrow> (p, Inl e)
      | Inr _ \<Rightarrow>
          let task = new_transfer_task task_id request;
              (p, lane) = transfer_lane p (str_session_id request);
              p = p\<lparr>tp_cancellations := insert task_id (tp_cancellations p),
                    tp_cancelled := tp_cancelled p - {task_id},
                    tp_bindings := (tp_bindings p)(task_id := None),
                    tp_staging := (case staging_path of None \<Rightarrow> tp_staging p | Some f \<Rightarrow> (tp_staging p)(task_id \<mapsto> f))\<rparr>;
              (st, r) = commit_tracked_store_mutation_with (queue_mutation env task request)
                (te_persist env) (te_verify env) (tp_store p)
          in case r of
               Inl e \<Rightarrow>
                 ((cleanup_mcp_content_transfer_staging task_id p)
                    \<lparr>tp_store := st, tp_cancellations := tp_cancellations p - {task_id}\<rparr>, Inl e)
             | Inr _ \<Rightarrow>
                 (p\<lparr>tp_store := st, tp_slots := tp_slots p - 1,
                    tp_runners := (tp_runners p)(task_id \<mapsto>
                      \<lparr>rn_request = request, rn_lane = lane, rn_holds_lane = False,
                       rn_ssh = expected_ssh_runtime_id, rn_phase = Waiting\<rparr>)\<rparr>, Inr task))"

definition plan_transfer ::
  "'vt transfer_env \<Rightarrow> (SessionProfile \<Rightarrow> StartTransferRequest \<Rightarrow> TransferRequestError + StartTransferRequest)
     \<Rightarrow> StartTransferRequest \<Rightarrow> ustr option \<Rightarrow> 'vt transfer_process
     \<Rightarrow> ustr + StartTransferRequest \<times> ustr option" where
  "plan_transfer env prepare request required_ssh_runtime_id p =
     (case te_updating env of
        Some e \<Rightarrow> Inl e
      | None \<Rightarrow>
          and_then (ok_or (str ''unknown session: '' @ str_session_id request)
                     (store_profile (tp_store p) (str_session_id request))) (\<lambda>profile.
          and_then (map_err (te_say env) (prepare profile request)) (\<lambda>request.
          and_then (transfer_ssh_runtime_id p request required_ssh_runtime_id) (\<lambda>expected.
            Inr (request, expected)))))"

definition retry_transfer_request :: "(ustr \<Rightarrow> bool) \<Rightarrow> ustr \<Rightarrow> 'vt transfer_process \<Rightarrow> ustr + StartTransferRequest" where
  "retry_transfer_request staged transfer_id p =
     and_then (ok_or (str ''unknown transfer: '' @ transfer_id) (transfer_by_id (tp_store p) transfer_id)) (\<lambda>previous.
       if tft_status previous \<notin> {Failed, Cancelled} then
         Inl (str ''transfer '' @ transfer_id @ str '' is not retryable while it is '' @
              status_debug (tft_status previous) @ str ''; only failed or cancelled transfers can be retried'')
       else if staged (tft_source previous) then Inl MCP_CONTENT_TRANSFER_RETRY_ERROR
       else Inr \<lparr>str_session_id = tft_session_id previous, str_protocol = tft_protocol previous,
                 str_source = tft_source previous, str_destination = tft_destination previous\<rparr>)"

section \<open>Changes of a task in the store\<close>

abbreviation (input) with_task :: "ustr \<Rightarrow> (TransferTask \<Rightarrow> TransferTask) \<Rightarrow> 'vt SessionStore \<Rightarrow> 'vt SessionStore" where
  "with_task task_id f st \<equiv> st\<lparr>st_transfers := update_first (\<lambda>t. tft_id t = task_id) f (st_transfers st)\<rparr>"

definition mark_mutation ::
  "'vt transfer_env \<Rightarrow> ustr \<Rightarrow> StartTransferRequest \<Rightarrow> ('vt, TransferTask \<times> ustr list) mutation" where
  "mark_mutation env task_id request st =
     (case transfer_by_id st task_id of
        None \<Rightarrow> (st, Inl (str ''unknown transfer: '' @ task_id))
      | Some task \<Rightarrow>
          if tft_status task = Cancelled then (st, Inl TRANSFER_CANCELLED_MESSAGE)
          else
            let run = (\<lambda>t. t\<lparr>tft_status := Running, tft_message := Some (str ''running''), tft_started_at := Some (te_now env)\<rparr>);
                (st, event_ids) = recorded_event env (str_session_id request)
                  (str ''PortMate: transfer started ('' @ protocol_debug (str_protocol request) @ str '', '' @
                   transfer_route_label (str_source request) (str_destination request) @ str '')'')
                  (with_task task_id run st)
            in (st, Inr (run task, event_ids)))"

definition mark_transfer_running ::
  "'vt transfer_env \<Rightarrow> ustr \<Rightarrow> StartTransferRequest \<Rightarrow> 'vt transfer_process \<Rightarrow> 'vt transfer_process \<times> (ustr + unit)" where
  "mark_transfer_running env task_id request p =
     (let (st, r) = commit_tracked_store_mutation_with (mark_mutation env task_id request)
            (te_persist env) (te_verify env) (tp_store p)
      in (p\<lparr>tp_store := st\<rparr>, and_then r (\<lambda>_. Inr ())))"

definition record_transfer_progress ::
  "ustr \<Rightarrow> u64 \<Rightarrow> u64 \<Rightarrow> 'vt SessionStore \<Rightarrow> 'vt SessionStore \<times> (ustr + TransferTask)" where
  "record_transfer_progress task_id bytes_done bytes_total st =
     (case transfer_by_id st task_id of
        None \<Rightarrow> (st, Inl (str ''unknown transfer: '' @ task_id))
      | Some task \<Rightarrow>
          if tft_status task = Cancelled then (st, Inl TRANSFER_CANCELLED_MESSAGE)
          else if tft_status task \<notin> {Queued, Running} then (st, Inr task)
          else
            let f = (\<lambda>t. t\<lparr>tft_bytes_done := bytes_done,
                           tft_bytes_total := (if 0 < bytes_total then bytes_total else tft_bytes_total t),
                           tft_message := Some (str ''running'')\<rparr>)
            in (with_task task_id f st, Inr (f task)))"

text \<open>The reports of a transfer: nothing is recorded once the flag is raised.\<close>

definition update_progress :: "ustr \<Rightarrow> u64 \<Rightarrow> u64 \<Rightarrow> 'vt transfer_process \<Rightarrow> 'vt transfer_process \<times> (ustr + unit)" where
  "update_progress task_id bytes_done bytes_total p =
     (if task_id \<in> tp_cancelled p then (p, Inl TRANSFER_CANCELLED_MESSAGE)
      else
        let (st, r) = record_transfer_progress task_id bytes_done bytes_total (tp_store p)
        in (p\<lparr>tp_store := st\<rparr>, and_then r (\<lambda>_. Inr ())))"

definition transfer_average_bps :: "(u64 \<Rightarrow> int \<Rightarrow> f64) \<Rightarrow> TransferTask \<Rightarrow> f64 option" where
  "transfer_average_bps rate task =
     (case (tft_started_at task, tft_finished_at task) of
        (Some started, Some finished) \<Rightarrow>
          if tft_bytes_done task = 0 then None
          else Some (rate (tft_bytes_done task) (max (finished - started) 1))
      | _ \<Rightarrow> None)"

definition with_average :: "(u64 \<Rightarrow> int \<Rightarrow> f64) \<Rightarrow> TransferTask \<Rightarrow> TransferTask" where
  "with_average rate t = t\<lparr>tft_average_bytes_per_second := transfer_average_bps rate t\<rparr>"

text \<open>
  Cancelling. The flag is looked up before the store is locked; the saved store is the last thing
  that can fail, and that is only reported. The binding the abort bytes go to is returned.
\<close>

definition cancel_transfer_inner_with_validation ::
  "'vt transfer_env \<Rightarrow> ustr + unit \<Rightarrow> ustr \<Rightarrow> 'vt transfer_process
     \<Rightarrow> 'vt transfer_process \<times> (ustr + TransferTask \<times> ModemRuntimeBinding option)" where
  "cancel_transfer_inner_with_validation env validation transfer_id p =
     (case and_then validation (\<lambda>_. ok_or (str ''unknown transfer: '' @ transfer_id)
             (transfer_by_id (tp_store p) transfer_id)) of
        Inl e \<Rightarrow> (p, Inl e)
      | Inr task \<Rightarrow>
          let registered = transfer_id \<in> tp_cancellations p;
              was_active = active_transfer task;
              f = (\<lambda>t. if was_active
                       then with_average (te_rate env) (t\<lparr>tft_status := Cancelled, tft_message := Some (str ''cancelling''),
                              tft_finished_at := Some (te_now env)\<rparr>)
                       else t);
              abort = (if tft_status task = Running \<and> is_modem (tft_protocol task) \<and> registered
                       then tp_bindings p transfer_id else None);
              st = trim_transfer_history (tft_session_id task) (with_task transfer_id f (tp_store p))
          in (p\<lparr>tp_store := st,
               tp_cancelled := (if registered \<and> was_active then insert transfer_id (tp_cancelled p) else tp_cancelled p)\<rparr>,
              Inr (f task, abort)))"

section \<open>Finishing\<close>

definition unregister_transfer :: "ustr \<Rightarrow> 'vt transfer_process \<Rightarrow> 'vt transfer_process" where
  "unregister_transfer task_id p =
     (cleanup_mcp_content_transfer_staging task_id p)\<lparr>tp_cancellations := tp_cancellations p - {task_id}\<rparr>"

text \<open>What a claimed completion becomes when the runtimes it relied on are looked at again.\<close>

definition checked_completion ::
  "'vt transfer_process \<Rightarrow> ustr \<Rightarrow> TransferStatus \<Rightarrow> ustr \<Rightarrow> u64 option \<Rightarrow> ustr option \<Rightarrow> ModemRuntimeBinding option
     \<Rightarrow> TransferStatus \<times> ustr \<times> u64 option" where
  "checked_completion p session_id status message bytes ssh modem =
     (if status \<noteq> Completed then (status, message, bytes)
      else if ssh \<noteq> None \<and> modem \<noteq> None then (Failed, MSG_TWO_RUNTIMES, None)
      else case modem of
             Some b \<Rightarrow>
               if permits_completion (tp_runtimes p) b session_id then (status, message, bytes)
               else (Failed, MSG_MODEM_CHANGED, None)
           | None \<Rightarrow>
               (case ssh of
                  None \<Rightarrow> (status, message, bytes)
                | Some i \<Rightarrow>
                    if ssh_runtime_connected (tp_runtimes p) (tp_store p) session_id i then (status, message, bytes)
                    else (Failed, MSG_SSH_CHANGED, None)))"

definition finished_task ::
  "'vt transfer_env \<Rightarrow> TransferStatus \<Rightarrow> ustr \<Rightarrow> u64 option \<Rightarrow> TransferTask \<Rightarrow> TransferTask" where
  "finished_task env status message bytes task =
     (let (status, message) =
            (if tft_status task = Cancelled then (Cancelled, str ''cancelled'') else (status, message));
          task = (case bytes of None \<Rightarrow> task | Some n \<Rightarrow> task\<lparr>tft_bytes_total := n, tft_bytes_done := n\<rparr>)
      in with_average (te_rate env) (task\<lparr>tft_status := status, tft_message := Some message,
           tft_finished_at := Some (te_now env)\<rparr>))"

definition commit_finish ::
  "'vt transfer_env \<Rightarrow> ustr \<Rightarrow> ustr \<Rightarrow> TransferStatus \<Rightarrow> ustr \<Rightarrow> u64 option \<Rightarrow> ustr option \<Rightarrow> ModemRuntimeBinding option
     \<Rightarrow> 'vt transfer_process \<Rightarrow> 'vt transfer_process" where
  "commit_finish env task_id session_id status message bytes ssh modem p =
     (let (status, message, bytes) =
            checked_completion p session_id status (truncate_for_log message 2000) bytes ssh modem
      in case transfer_by_id (tp_store p) task_id of
           None \<Rightarrow> p
         | Some task \<Rightarrow>
             let task' = finished_task env status message bytes task;
                 st = trim_transfer_history (tft_session_id task)
                        (with_task task_id (\<lambda>_. task') (tp_store p));
                 st = record_system_event (te_chan env) (te_uuid env) (te_now env) session_id
                        (str ''PortMate: transfer finished ('' @ protocol_debug (tft_protocol task') @ str '', '' @
                         status_debug (tft_status task') @ str '')'') st
             in p\<lparr>tp_store := st\<rparr>)"

definition finish_transfer_task_for_generations ::
  "'vt transfer_env \<Rightarrow> ustr \<Rightarrow> ustr \<Rightarrow> TransferStatus \<Rightarrow> ustr \<Rightarrow> u64 option \<Rightarrow> ustr option \<Rightarrow> ModemRuntimeBinding option
     \<Rightarrow> 'vt transfer_process \<Rightarrow> 'vt transfer_process" where
  "finish_transfer_task_for_generations env task_id session_id status message bytes ssh modem p =
     commit_finish env task_id session_id status message bytes ssh modem (unregister_transfer task_id p)"

section \<open>Running\<close>

text \<open>The checks of a task that got its lane: how it ends, or the runtime it relies on.\<close>

definition validate_current_transfer_protocol ::
  "(TransferRequestError \<Rightarrow> ustr) \<Rightarrow> StartTransferRequest \<Rightarrow> 'vt SessionStore \<Rightarrow> ustr + unit" where
  "validate_current_transfer_protocol say request st =
     and_then (ok_or (str ''unknown session: '' @ str_session_id request) (store_profile st (str_session_id request)))
       (\<lambda>profile. map_err say (validate_transfer_protocol profile (str_protocol request)
          (is_nonlocal_transfer_endpoint (str_source request) \<or> is_nonlocal_transfer_endpoint (str_destination request))))"

definition run_checks ::
  "'vt transfer_env \<Rightarrow> ustr \<Rightarrow> transfer_runner \<Rightarrow> 'vt transfer_process \<Rightarrow> (TransferStatus \<times> ustr) + ustr option" where
  "run_checks env task_id r p =
     (let request = rn_request r;
          session_id = str_session_id request
      in if task_id \<in> tp_cancelled p then Inl (Cancelled, str ''cancelled'')
         else and_then (case rn_ssh r of
                          None \<Rightarrow> Inr ()
                        | Some i \<Rightarrow> ensure (ssh_runtime_connected (tp_runtimes p) (tp_store p) session_id i)
                                     (Failed, MSG_SSH_CHANGED_WAITING)) (\<lambda>_.
              and_then (map_err (Pair Failed) (validate_current_transfer_protocol (te_say env) request (tp_store p))) (\<lambda>_.
                if transfer_uses_ssh_files request \<and> rn_ssh r = None then
                  and_then (map_err (Pair Failed) (transfer_ssh_runtime_id p request None)) (\<lambda>found.
                    case found of
                      None \<Rightarrow> Inl (Failed, MSG_NEEDS_SSH)
                    | Some i \<Rightarrow> Inr (Some i))
                else Inr (rn_ssh r))))"

text \<open>How a task ends after its transfer returned.\<close>

definition transfer_outcome ::
  "'vt transfer_process \<Rightarrow> ustr \<Rightarrow> StartTransferRequest \<Rightarrow> ustr + u64
     \<Rightarrow> TransferStatus \<times> ustr \<times> u64 option \<times> ModemRuntimeBinding option" where
  "transfer_outcome p task_id request result =
     (let (status, message, bytes) =
            (case result of
               Inr n \<Rightarrow> if task_id \<in> tp_cancelled p then (Cancelled, str ''cancelled'', Some n)
                        else (Completed, str ''completed'', Some n)
             | Inl e \<Rightarrow> if e = TRANSFER_CANCELLED_MESSAGE then (Cancelled, str ''cancelled'', None)
                        else (Failed, e, None))
      in if status = Completed \<and> str_protocol request \<in> {Tftp, Xmodem, Ymodem, Zmodem} then
           (case tp_bindings p task_id of
              Some b \<Rightarrow> (status, message, bytes, Some b)
            | None \<Rightarrow> (Failed, MSG_NO_BINDING, None, None))
         else (status, message, bytes, None))"

section \<open>Steps\<close>

text \<open>\<open>run_queued_transfer\<close> between two of its locks: the task after its checks, and after \<open>mark\<close>.\<close>

definition after_checks :: "'vt transfer_env \<Rightarrow> ustr \<Rightarrow> transfer_runner \<Rightarrow> 'vt transfer_process \<Rightarrow> transfer_runner" where
  "after_checks env task_id r p =
     (case run_checks env task_id r p of
        Inl (status, message) \<Rightarrow> r\<lparr>rn_phase := Ending status message None None None\<rparr>
      | Inr ssh \<Rightarrow> r\<lparr>rn_ssh := ssh, rn_phase := Checked\<rparr>)"

definition after_mark :: "ustr + unit \<Rightarrow> transfer_runner \<Rightarrow> transfer_runner" where
  "after_mark result r =
     (case result of
        Inl e \<Rightarrow> r\<lparr>rn_phase := Ending (if e = TRANSFER_CANCELLED_MESSAGE then Cancelled else Failed) e None None None\<rparr>
      | Inr _ \<Rightarrow> r\<lparr>rn_phase := Active\<rparr>)"

definition after_transfer :: "'vt transfer_process \<Rightarrow> ustr \<Rightarrow> ustr + u64 \<Rightarrow> transfer_runner \<Rightarrow> transfer_runner" where
  "after_transfer p task_id result r =
     (let (status, message, bytes, modem) = transfer_outcome p task_id (rn_request r) result
      in r\<lparr>rn_phase := Ending status message bytes (rn_ssh r) modem\<rparr>)"

abbreviation (input) set_runner :: "ustr \<Rightarrow> transfer_runner \<Rightarrow> 'vt transfer_process \<Rightarrow> 'vt transfer_process" where
  "set_runner i r p \<equiv> p\<lparr>tp_runners := (tp_runners p)(i \<mapsto> r)\<rparr>"

definition lane_free :: "nat \<Rightarrow> 'vt transfer_process \<Rightarrow> bool" where
  "lane_free lane p \<longleftrightarrow> (\<forall>j r. tp_runners p j = Some r \<and> rn_holds_lane r \<longrightarrow> rn_lane r \<noteq> lane)"

text \<open>
  What the rest of the process may do: change the store except that it only drops transfers, open and
  close runtimes, and forget a session, with the cancellations of its dropped transfers and its lane.
\<close>

definition world_change :: "'vt transfer_process \<Rightarrow> 'vt transfer_process \<Rightarrow> bool" where
  "world_change p p' \<longleftrightarrow>
     (\<exists>keep. st_transfers (tp_store p') = filter keep (st_transfers (tp_store p))) \<and>
     tp_cancellations p' \<subseteq> tp_cancellations p \<and>
     tp_cancellations p \<inter> tft_id ` set (st_transfers (tp_store p')) \<subseteq> tp_cancellations p' \<and>
     (tp_lanes p' \<subseteq>\<^sub>m tp_lanes p) \<and>
     tp_cancelled p' = tp_cancelled p \<and> tp_bindings p' = tp_bindings p \<and> tp_slots p' = tp_slots p \<and>
     tp_next_lane p' = tp_next_lane p \<and> tp_runners p' = tp_runners p"

inductive transfer_step :: "'vt transfer_process \<Rightarrow> 'vt transfer_process \<Rightarrow> bool" where
  step_queue: "\<lbrakk>queue_transfer env i request expected staging validation p = (p', result);
     i \<notin> tft_id ` set (st_transfers (tp_store p)); tp_runners p i = None\<rbrakk> \<Longrightarrow> transfer_step p p'"
| step_cancel: "cancel_transfer_inner_with_validation env validation i p = (p', result) \<Longrightarrow> transfer_step p p'"
| step_give_up: "\<lbrakk>tp_runners p i = Some r; rn_phase r = Waiting; i \<in> tp_cancelled p\<rbrakk> \<Longrightarrow>
     transfer_step p (set_runner i (r\<lparr>rn_phase := Ending Cancelled (str ''cancelled'') None None None\<rparr>) p)"
| step_lane: "\<lbrakk>tp_runners p i = Some r; rn_phase r = Waiting; lane_free (rn_lane r) p\<rbrakk> \<Longrightarrow>
     transfer_step p (set_runner i (r\<lparr>rn_phase := Holding, rn_holds_lane := True\<rparr>) p)"
| step_checks: "\<lbrakk>tp_runners p i = Some r; rn_phase r = Holding\<rbrakk> \<Longrightarrow>
     transfer_step p (set_runner i (after_checks env i r p) p)"
| step_mark: "\<lbrakk>tp_runners p i = Some r; rn_phase r = Checked;
     mark_transfer_running env i (rn_request r) p = (p', result)\<rbrakk> \<Longrightarrow>
     transfer_step p (set_runner i (after_mark result r) p')"
| step_bind: "\<lbrakk>tp_runners p i = Some r; rn_phase r = Active; i \<in> tp_cancellations p;
     runtime_modem_binding (tp_runtimes p) (tp_store p) (str_session_id (rn_request r)) = Inr b\<rbrakk> \<Longrightarrow>
     transfer_step p (p\<lparr>tp_bindings := (tp_bindings p)(i \<mapsto> b)\<rparr>)"
| step_progress: "\<lbrakk>tp_runners p i = Some r; rn_phase r = Active;
     update_progress i bytes_done bytes_total p = (p', result)\<rbrakk> \<Longrightarrow> transfer_step p p'"
| step_end: "\<lbrakk>tp_runners p i = Some r; rn_phase r = Active\<rbrakk> \<Longrightarrow>
     transfer_step p (set_runner i (after_transfer p i result r) p)"
| step_unregister: "\<lbrakk>tp_runners p i = Some r; rn_phase r = Ending status message bytes ssh modem\<rbrakk> \<Longrightarrow>
     transfer_step p (unregister_transfer i p)"
| step_finish: "\<lbrakk>tp_runners p i = Some r; rn_phase r = Ending status message bytes ssh modem; i \<notin> tp_cancellations p\<rbrakk> \<Longrightarrow>
     transfer_step p ((commit_finish env i (str_session_id (rn_request r)) status message bytes ssh modem p)
       \<lparr>tp_runners := (tp_runners p)(i := None), tp_slots := tp_slots p + 1\<rparr>)"
| step_world: "world_change p p' \<Longrightarrow> transfer_step p p'"

abbreviation transfer_steps :: "'vt transfer_process \<Rightarrow> 'vt transfer_process \<Rightarrow> bool" where
  "transfer_steps \<equiv> transfer_step\<^sup>*\<^sup>*"

text \<open>A process that has just started: no transfer of the loaded store is active any more.\<close>

definition transfer_start :: "'vt transfer_process \<Rightarrow> bool" where
  "transfer_start p \<longleftrightarrow>
     distinct (map tft_id (st_transfers (tp_store p))) \<and> list_all (\<lambda>t. \<not> active_transfer t) (st_transfers (tp_store p)) \<and>
     tp_cancellations p = {} \<and> tp_cancelled p = {} \<and> tp_bindings p = Map.empty \<and> tp_staging p = Map.empty \<and>
     tp_slots p = MAX_ACTIVE_TRANSFER_TASKS \<and> tp_lanes p = Map.empty \<and> tp_next_lane p = 0 \<and> tp_runners p = Map.empty"

section \<open>The invariant\<close>

fun phase_fits :: "runner_phase \<Rightarrow> TransferStatus \<Rightarrow> bool" where
  "phase_fits Active s \<longleftrightarrow> s \<in> {Running, Cancelled}"
| "phase_fits (Ending Completed _ _ _ _) s \<longleftrightarrow> s \<in> {Running, Cancelled}"
| "phase_fits (Ending e _ _ _ _) s \<longleftrightarrow> s \<in> {Queued, Running, Cancelled} \<and> e \<in> {Failed, Cancelled}"
| "phase_fits _ s \<longleftrightarrow> s \<in> {Queued, Cancelled}"

fun phase_ends :: "runner_phase \<Rightarrow> bool" where
  "phase_ends (Ending status _ _ _ _) \<longleftrightarrow> True"
| "phase_ends _ \<longleftrightarrow> False"

text \<open>What a task of the store and the runner of the same name say about each other.\<close>

definition task_ok :: "'vt transfer_process \<Rightarrow> TransferTask \<Rightarrow> bool" where
  "task_ok p t \<longleftrightarrow>
     (case tp_runners p (tft_id t) of
        None \<Rightarrow> \<not> active_transfer t
      | Some r \<Rightarrow>
          phase_fits (rn_phase r) (tft_status t) \<and> tft_session_id t = str_session_id (rn_request r) \<and>
          (\<not> phase_ends (rn_phase r) \<longrightarrow>
             tft_id t \<in> tp_cancellations p \<and> (tft_status t = Cancelled \<longrightarrow> tft_id t \<in> tp_cancelled p)))"

definition runner_ok :: "'vt transfer_process \<Rightarrow> transfer_runner \<Rightarrow> bool" where
  "runner_ok p r \<longleftrightarrow>
     rn_lane r < tp_next_lane p \<and>
     (rn_phase r = Waiting \<longrightarrow> \<not> rn_holds_lane r) \<and>
     (rn_phase r \<in> {Holding, Checked, Active} \<longrightarrow> rn_holds_lane r) \<and>
     (\<forall>s m b ssh modem. rn_phase r = Ending s m b ssh modem \<longrightarrow> s \<in> {Completed, Failed, Cancelled})"

definition lanes_ok :: "'vt transfer_process \<Rightarrow> bool" where
  "lanes_ok p \<longleftrightarrow>
     (\<forall>i j r r'. tp_runners p i = Some r \<and> tp_runners p j = Some r' \<and> rn_holds_lane r \<and> rn_holds_lane r' \<and>
        rn_lane r = rn_lane r' \<longrightarrow> i = j) \<and>
     (\<forall>sid lane. tp_lanes p sid = Some lane \<longrightarrow> lane < tp_next_lane p)"

definition tasks_ok :: "'vt transfer_process \<Rightarrow> bool" where
  "tasks_ok p \<longleftrightarrow>
     distinct (map tft_id (st_transfers (tp_store p))) \<and>
     (\<forall>t \<in> set (st_transfers (tp_store p)). task_ok p t) \<and>
     count_if active_transfer (st_transfers (tp_store p)) \<le> MAX_ACTIVE_TRANSFER_TASKS \<and>
     (\<forall>s. count_if (session_active s) (st_transfers (tp_store p)) \<le> MAX_ACTIVE_TRANSFERS_PER_SESSION)"

definition runners_ok :: "'vt transfer_process \<Rightarrow> bool" where
  "runners_ok p \<longleftrightarrow>
     (\<forall>i r. tp_runners p i = Some r \<longrightarrow> runner_ok p r) \<and> lanes_ok p \<and>
     finite (dom (tp_runners p)) \<and> tp_slots p + card (dom (tp_runners p)) = MAX_ACTIVE_TRANSFER_TASKS"

section \<open>Facts about the store\<close>

lemma update_task_set:
  assumes "distinct (map tft_id xs)"
  shows "set (update_first (\<lambda>t. tft_id t = i) f xs) = (\<lambda>t. if tft_id t = i then f t else t) ` set xs"
  using assms by (induction xs) (force simp add: rev_image_eqI)+

lemma count_update_le:
  assumes "\<And>t. t \<in> set xs \<Longrightarrow> tft_id t = i \<Longrightarrow> P (f t) \<Longrightarrow> P t"
  shows "count_if P (update_first (\<lambda>t. tft_id t = i) f xs) \<le> count_if P xs"
  using assms by (induction xs) (auto simp add: count_if_def)

lemma transfer_by_id_Some:
  "transfer_by_id st i = Some t \<Longrightarrow> t \<in> set (st_transfers st) \<and> tft_id t = i"
  by (auto simp add: transfer_by_id_def find_Some_iff)

lemma transfer_by_id_None:
  "transfer_by_id st i = None \<Longrightarrow> t \<in> set (st_transfers st) \<Longrightarrow> tft_id t \<noteq> i"
  by (auto simp add: transfer_by_id_def find_None_iff)

lemma subseq_set_distinct:
  assumes "subseq ys xs"
  shows "set ys \<subseteq> set xs" "distinct (map g xs) \<Longrightarrow> distinct (map g ys)"
proof -
  from assms obtain A where "ys = nths xs A" by (auto simp add: subseq_conv_nths)
  then show "set ys \<subseteq> set xs" "distinct (map g xs) \<Longrightarrow> distinct (map g ys)"
    by (auto simp add: nths_map [symmetric] dest: in_set_nthsD intro: distinct_nthsI)
qed

lemma record_system_event_transfers [simp]:
  "st_transfers (record_system_event chan u now sid t st) = st_transfers st"
  by (simp add: record_system_event_def record_system_event_tracked_def)

lemma recorded_event_transfers:
  "recorded_event env sid t st = (st', ids) \<Longrightarrow> st_transfers st' = st_transfers st"
  by (auto simp add: recorded_event_def record_system_event_tracked_def Let_def split: prod.splits
      dest: arg_cong [where f = "\<lambda>x. st_transfers (fst x)"])

lemma commit_tracked_done:
  assumes "commit_tracked_store_mutation_with m persist verify st = (st', Inr v)"
  shows "\<exists>ids. m st = (st', Inr (v, ids))"
  using assms by (auto simp add: commit_tracked_store_mutation_with_def Let_def split: prod.splits sum.splits)

lemma commit_tracked_failed:
  assumes "commit_tracked_store_mutation_with m persist verify st = (st', Inl e)"
    and "\<And>s e'. m st = (s, Inl e') \<Longrightarrow> st_transfers s = st_transfers st"
  shows "st_transfers st' = st_transfers st"
  using assms by (auto simp add: commit_tracked_store_mutation_with_def rolled_back_def Let_def split: prod.splits sum.splits)

lemma trim_history_transfers [simp]:
  "st_transfers (trim_transfer_history s st) = trim_transfers s (st_transfers st)"
  by (simp add: trim_transfer_history_def)

lemma trimmed_tasks:
  "set (trim_transfers s xs) \<subseteq> set xs"
  "distinct (map tft_id xs) \<Longrightarrow> distinct (map tft_id (trim_transfers s xs))"
  "count_if P (trim_transfers s xs) \<le> count_if P xs"
proof -
  have s: "subseq (trim_transfers s xs) xs" by (rule subseq_trim_transfers)
  from s show "set (trim_transfers s xs) \<subseteq> set xs" by (rule subseq_set_distinct)
  from s show "distinct (map tft_id xs) \<Longrightarrow> distinct (map tft_id (trim_transfers s xs))"
    by (rule subseq_set_distinct)
  from s show "count_if P (trim_transfers s xs) \<le> count_if P xs" by (rule count_if_subseq)
qed

text \<open>An active transfer is never dropped.\<close>

lemma active_not_terminal: "active_transfer t \<Longrightarrow> \<not> is_terminal_transfer s t"
  by (auto simp add: active_transfer_def transfer_task_is_active_def is_terminal_transfer_def)

section \<open>The tasks of the runners\<close>

lemma runners_ok_frame:
  assumes "runners_ok p" "tp_runners p' = tp_runners p" "tp_lanes p' \<subseteq>\<^sub>m tp_lanes p"
    "tp_next_lane p' = tp_next_lane p" "tp_slots p' = tp_slots p"
  shows "runners_ok p'"
  using assms unfolding runners_ok_def runner_ok_def lanes_ok_def
  by (auto simp add: map_le_def dom_def)

lemma runners_ok_set:
  assumes ok: "runners_ok p" and r: "tp_runners p i = Some r"
    and r': "rn_lane r' = rn_lane r" "runner_ok p r'" "rn_holds_lane r' \<Longrightarrow> rn_holds_lane r \<or> lane_free (rn_lane r) p"
    and same: "tp_runners p' = (tp_runners p)(i \<mapsto> r')" "tp_lanes p' = tp_lanes p"
      "tp_next_lane p' = tp_next_lane p" "tp_slots p' = tp_slots p"
  shows "runners_ok p'"
proof -
  have d: "dom (tp_runners p') = dom (tp_runners p)" using r same(1) by auto
  have "lanes_ok p'"
    unfolding lanes_ok_def
  proof (intro conjI allI impI; (elim conjE)?)
    fix k j q q'
    assume a: "tp_runners p' k = Some q" "tp_runners p' j = Some q'" "rn_holds_lane q" "rn_holds_lane q'" "rn_lane q = rn_lane q'"
    then show "k = j"
      using ok r r' unfolding same(1) runners_ok_def lanes_ok_def lane_free_def
      by (auto split: if_splits)
  qed (use ok same in \<open>auto simp add: runners_ok_def lanes_ok_def\<close>)
  moreover have "runner_ok p' q" if "tp_runners p' k = Some q" for k q
    using that ok r'(2) unfolding same(1) runners_ok_def runner_ok_def same(3) by (auto split: if_splits)
  ultimately show ?thesis
    using ok unfolding runners_ok_def d same(4) by blast
qed

lemma tasks_ok_frame:
  assumes "tasks_ok p" "st_transfers (tp_store p') = filter keep (st_transfers (tp_store p))"
    "\<And>t. t \<in> set (st_transfers (tp_store p')) \<Longrightarrow> task_ok p t \<Longrightarrow> task_ok p' t"
  shows "tasks_ok p'"
proof -
  let ?xs = "st_transfers (tp_store p)"
  have c: "count_if P (filter keep ?xs) \<le> count_if P ?xs" for P
    by (rule count_if_subseq) (rule subseq_filter_left)
  have "count_if (session_active s) (filter keep ?xs) \<le> 5000" for s
    using assms(1) c [of "session_active s"] order_trans unfolding tasks_ok_def by blast
  moreover have "count_if active_transfer (filter keep ?xs) \<le> 5000"
    using assms(1) c [of active_transfer] order_trans unfolding tasks_ok_def by blast
  ultimately show ?thesis
    using assms(1,3) unfolding tasks_ok_def assms(2) by (auto simp add: distinct_map_filter)
qed

text \<open>A change of one task that activates nothing, followed by trimming.\<close>

lemma tasks_ok_update:
  assumes ok: "tasks_ok p"
    and f: "\<And>t. t \<in> set (st_transfers (tp_store p)) \<Longrightarrow> tft_id t = i \<Longrightarrow>
      tft_id (f t) = i \<and> tft_session_id (f t) = tft_session_id t \<and> (active_transfer (f t) \<longrightarrow> active_transfer t) \<and> task_ok p' (f t)"
    and others: "\<And>t. t \<in> set (st_transfers (tp_store p)) \<Longrightarrow> tft_id t \<noteq> i \<Longrightarrow> task_ok p t \<Longrightarrow> task_ok p' t"
    and new: "subseq (st_transfers (tp_store p')) (update_first (\<lambda>t. tft_id t = i) f (st_transfers (tp_store p)))"
  shows "tasks_ok p'"
proof -
  let ?xs = "st_transfers (tp_store p)" and ?ys = "st_transfers (tp_store p')"
  let ?us = "update_first (\<lambda>t. tft_id t = i) f ?xs"
  have d: "distinct (map tft_id ?xs)" using ok by (simp add: tasks_ok_def)
  have ids: "map tft_id (update_first (\<lambda>t. tft_id t = i) f zs) = map tft_id zs" if "set zs \<subseteq> set ?xs" for zs
    using that f by (induction zs) auto
  have dy: "distinct (map tft_id ?ys)"
    using subseq_set_distinct(2) [OF new, of tft_id] ids [of ?xs] d by simp
  have t: "task_ok p' t" if "t \<in> set ?ys" for t
    using that subseq_set_distinct(1) [OF new] update_task_set [OF d, of i f] f others ok by (force simp add: tasks_ok_def)
  have c: "count_if P ?ys \<le> count_if P ?xs"
    if "\<And>t. t \<in> set ?xs \<Longrightarrow> tft_id t = i \<Longrightarrow> P (f t) \<Longrightarrow> P t" for P
    using count_if_subseq [OF new, of P] count_update_le [of ?xs i P f] that by fastforce
  have "count_if active_transfer ?ys \<le> count_if active_transfer ?xs" by (rule c) (use f in blast)
  moreover have "count_if (session_active s) ?ys \<le> count_if (session_active s) ?xs" for s
    by (rule c) (use f in \<open>auto simp add: session_active_def\<close>)
  ultimately show ?thesis using ok dy t unfolding tasks_ok_def by (meson order_trans)
qed

section \<open>Every step keeps the invariant\<close>

lemma lane_keeps:
  assumes "runners_ok p" "transfer_lane p s = (p', lane)"
  shows "runners_ok p' \<and> lane < tp_next_lane p' \<and> tp_runners p' = tp_runners p \<and> tp_store p' = tp_store p \<and>
    tp_slots p' = tp_slots p \<and> tp_cancellations p' = tp_cancellations p \<and> tp_cancelled p' = tp_cancelled p"
proof (cases "tp_lanes p s")
  case None
  then have p': "p' = p\<lparr>tp_lanes := (tp_lanes p)(s \<mapsto> tp_next_lane p), tp_next_lane := tp_next_lane p + 1\<rparr>" "lane = tp_next_lane p"
    using assms(2) by (auto simp add: transfer_lane_def)
  have "runners_ok p'"
    using assms(1) unfolding runners_ok_def runner_ok_def lanes_ok_def p'
    by (auto intro: less_SucI)
  then show ?thesis by (simp add: p')
next
  case (Some l)
  then have "p' = p" "lane = l" using assms(2) by (auto simp add: transfer_lane_def)
  then show ?thesis using assms(1) Some by (auto simp add: runners_ok_def lanes_ok_def)
qed

lemma queue_mutation_cases:
  assumes "queue_mutation env task request st = (st', r)"
  shows "case r of
      Inl _ \<Rightarrow> st' = st
    | Inr _ \<Rightarrow> st_transfers st' = trim_transfers (tft_session_id task) (st_transfers st @ [task]) \<and>
        count_if (session_active (str_session_id request)) (st_transfers st) < MAX_ACTIVE_TRANSFERS_PER_SESSION \<and>
        count_if active_transfer (st_transfers st) < MAX_ACTIVE_TRANSFER_TASKS"
  using assms
  by (auto simp add: queue_mutation_def ensure_transfer_queue_capacity_def ensure_transfer_profile_exists_def ensure_def Let_def
      record_transfer_def dest!: recorded_event_transfers split: option.splits sum.splits prod.splits if_splits)

lemma queued_task_ok:
  assumes ok: "tasks_ok p" and i: "i \<notin> tft_id ` set (st_transfers (tp_store p))"
    and xs': "st_transfers (tp_store p') = trim_transfers s (st_transfers (tp_store p) @ [new_transfer_task i request])"
    and room: "count_if (session_active (str_session_id request)) (st_transfers (tp_store p)) < MAX_ACTIVE_TRANSFERS_PER_SESSION"
      "count_if active_transfer (st_transfers (tp_store p)) < MAX_ACTIVE_TRANSFER_TASKS"
    and others: "\<And>t. tft_id t \<noteq> i \<Longrightarrow> task_ok p t \<Longrightarrow> task_ok p' t"
    and self: "task_ok p' (new_transfer_task i request)"
  shows "tasks_ok p'"
proof -
  let ?xs = "st_transfers (tp_store p)" and ?t = "new_transfer_task i request"
  have d: "distinct (map tft_id (?xs @ [?t]))" using ok i by (simp add: tasks_ok_def new_transfer_task_def)
  have c: "count_if P (st_transfers (tp_store p')) \<le> count_if P ?xs + (if P ?t then 1 else 0)" for P
    using trimmed_tasks(3) [of P s "?xs @ [?t]"] unfolding xs' by (cases "P ?t") (simp_all add: count_if_def)
  have "count_if (session_active k) (st_transfers (tp_store p')) \<le> MAX_ACTIVE_TRANSFERS_PER_SESSION" for k
    using c [of "session_active k"] ok room(1)
    by (cases "k = str_session_id request") (auto simp add: tasks_ok_def session_active_def new_transfer_task_def split: if_splits intro: order_trans)
  moreover have "count_if active_transfer (st_transfers (tp_store p')) \<le> MAX_ACTIVE_TRANSFER_TASKS"
    using c [of active_transfer] room(2) by (auto split: if_splits)
  moreover have "task_ok p' t" if "t \<in> set (st_transfers (tp_store p'))" for t
  proof -
    have "t = ?t \<or> t \<in> set ?xs" using that trimmed_tasks(1) [of s "?xs @ [?t]"] unfolding xs' by auto
    then show ?thesis using ok i others self unfolding tasks_ok_def by (metis imageI)
  qed
  ultimately show ?thesis unfolding tasks_ok_def using trimmed_tasks(2) [OF d] xs' by simp
qed

lemma queue_ok:
  assumes ok: "tasks_ok p" "runners_ok p"
    and q: "queue_transfer env i request expected staging validation p = (p', result)"
    and i: "i \<notin> tft_id ` set (st_transfers (tp_store p))" "tp_runners p i = None"
  shows "tasks_ok p' \<and> runners_ok p'"
proof (cases "tp_slots p = 0 \<or> (\<exists>e. validation = Inl e)")
  case True
  then have "p' = p" using q by (auto simp add: queue_transfer_def split: if_splits)
  then show ?thesis using ok by simp
next
  case False
  then obtain u where v: "validation = Inr u" "0 < tp_slots p" by (cases validation) auto
  let ?task = "new_transfer_task i request"
  obtain p1 lane where p1: "transfer_lane p (str_session_id request) = (p1, lane)"
    by (cases "transfer_lane p (str_session_id request)")
  note k = lane_keeps [OF ok(2) p1]
  obtain st r where st: "commit_tracked_store_mutation_with (queue_mutation env ?task request) (te_persist env) (te_verify env)
      (tp_store p) = (st, r)"
    by (cases "commit_tracked_store_mutation_with (queue_mutation env ?task request) (te_persist env) (te_verify env) (tp_store p)")
  show ?thesis
  proof (cases r)
    case (Inl e)
    have "st_transfers st = st_transfers (tp_store p)"
      by (rule commit_tracked_failed [OF st [unfolded Inl]]) (auto dest: queue_mutation_cases)
    moreover have p': "tp_store p' = st" "tp_runners p' = tp_runners p" "tp_cancellations p' = tp_cancellations p - {i}"
      "tp_cancelled p' = tp_cancelled p - {i}" "tp_lanes p' = tp_lanes p1" "tp_next_lane p' = tp_next_lane p1" "tp_slots p' = tp_slots p1"
      using q v p1 st k Inl
      by (auto simp add: queue_transfer_def cleanup_mcp_content_transfer_staging_def Let_def)
    ultimately have "tasks_ok p'"
      by (intro tasks_ok_frame [OF ok(1), of _ "\<lambda>_. True"]) (use i in \<open>auto simp add: task_ok_def split: option.splits\<close>)
    moreover have "runners_ok p'"
      by (rule runners_ok_frame [of p1]) (use k p' in auto)
    ultimately show ?thesis by simp
  next
    case (Inr w)
    then obtain ids where "queue_mutation env ?task request (tp_store p) = (st, Inr (w, ids))"
      using commit_tracked_done [OF st [unfolded Inr]] by blast
    note m = queue_mutation_cases [OF this, simplified]
    let ?r = "\<lparr>rn_request = request, rn_lane = lane, rn_holds_lane = False, rn_ssh = expected, rn_phase = Waiting\<rparr>"
    have p': "tp_store p' = st" "tp_runners p' = (tp_runners p)(i \<mapsto> ?r)" "tp_cancellations p' = insert i (tp_cancellations p)"
      "tp_cancelled p' = tp_cancelled p - {i}" "tp_lanes p' = tp_lanes p1" "tp_next_lane p' = tp_next_lane p1" "tp_slots p' = tp_slots p - 1"
      using q v p1 st k Inr by (auto simp add: queue_transfer_def Let_def)
    have "tasks_ok p'"
    proof (rule queued_task_ok [OF ok(1) i(1), where s = "str_session_id request" and request = request])
      show "st_transfers (tp_store p') = trim_transfers (str_session_id request) (st_transfers (tp_store p) @ [?task])"
        using m by (simp add: p' new_transfer_task_def)
      show "task_ok p' ?task" by (simp add: task_ok_def p' new_transfer_task_def)
      show "task_ok p' t" if "tft_id t \<noteq> i" "task_ok p t" for t
        using that by (auto simp add: task_ok_def p' split: option.splits)
    qed (use m in auto)
    moreover have "runners_ok p'"
    proof -
      have "finite (dom (tp_runners p))" "i \<notin> dom (tp_runners p)" using ok(2) i(2) by (auto simp add: runners_ok_def)
      then have "card (insert i (dom (tp_runners p))) = Suc (card (dom (tp_runners p)))" by simp
      then show ?thesis
        using k i v unfolding runners_ok_def runner_ok_def lanes_ok_def p'
        by (auto split: if_splits)
    qed
    ultimately show ?thesis by simp
  qed
qed


lemma task_at:
  "tasks_ok p \<Longrightarrow> transfer_by_id (tp_store p) i = Some t \<Longrightarrow> task_ok p t \<and> tft_id t = i"
  using transfer_by_id_Some by (auto simp add: tasks_ok_def)

lemma task_unique:
  assumes "tasks_ok p" "transfer_by_id (tp_store p) i = Some t" "t' \<in> set (st_transfers (tp_store p))" "tft_id t' = i"
  shows "t' = t"
  using assms transfer_by_id_Some [OF assms(2)] unfolding tasks_ok_def by (auto simp add: distinct_map inj_on_def)

lemma cancel_ok:
  assumes ok: "tasks_ok p" "runners_ok p"
    and c: "cancel_transfer_inner_with_validation env validation i p = (p', result)"
  shows "tasks_ok p' \<and> runners_ok p'"
proof (cases "\<exists>t. validation = Inr () \<and> transfer_by_id (tp_store p) i = Some t")
  case False
  then have "p' = p"
    using c by (cases validation) (auto simp add: cancel_transfer_inner_with_validation_def ok_or_def split: option.splits)
  then show ?thesis using ok by simp
next
  case True
  then obtain t where t: "validation = Inr ()" "transfer_by_id (tp_store p) i = Some t" by blast
  let ?f = "\<lambda>u. if active_transfer t
      then with_average (te_rate env) (u\<lparr>tft_status := Cancelled, tft_message := Some (str ''cancelling''), tft_finished_at := Some (te_now env)\<rparr>)
      else u"
  have p': "tp_store p' = trim_transfer_history (tft_session_id t)
        ((tp_store p)\<lparr>st_transfers := update_first (\<lambda>t. tft_id t = i) ?f (st_transfers (tp_store p))\<rparr>)"
    "tp_cancelled p' = (if i \<in> tp_cancellations p \<and> active_transfer t then insert i (tp_cancelled p) else tp_cancelled p)"
    "tp_runners p' = tp_runners p" "tp_cancellations p' = tp_cancellations p" "tp_lanes p' = tp_lanes p"
    "tp_next_lane p' = tp_next_lane p" "tp_slots p' = tp_slots p"
    using c t by (auto simp add: cancel_transfer_inner_with_validation_def ok_or_def Let_def)
  have "tasks_ok p'"
  proof (rule tasks_ok_update [OF ok(1), where i = i and f = ?f])
    fix u assume u: "u \<in> set (st_transfers (tp_store p))" "tft_id u = i"
    then have u: "u = t" using task_unique [OF ok(1) t(2)] by blast
    have o: "task_ok p t" "tft_id t = i" using task_at [OF ok(1) t(2)] by auto
    have fits: "phase_fits ph Cancelled" if "phase_fits ph (tft_status t)" "active_transfer t" for ph
      using that by (cases "(ph, tft_status t)" rule: phase_fits.cases) (auto simp add: active_transfer_def transfer_task_is_active_def)
    show "tft_id (?f u) = i \<and> tft_session_id (?f u) = tft_session_id u \<and> (active_transfer (?f u) \<longrightarrow> active_transfer u) \<and> task_ok p' (?f u)"
      using o fits unfolding u
      by (auto simp add: with_average_def active_transfer_def transfer_task_is_active_def task_ok_def p' split: option.splits)
  next
    show "task_ok p' u" if "tft_id u \<noteq> i" "task_ok p u" for u
      using that by (auto simp add: task_ok_def p' split: option.splits)
  qed (simp add: p' subseq_trim_transfers)
  moreover have "runners_ok p'" by (rule runners_ok_frame [OF ok(2)]) (simp_all add: p')
  ultimately show ?thesis by simp
qed

text \<open>A runner that moves on while the tasks stay as they are.\<close>

lemma move_ok:
  assumes ok: "tasks_ok p" "runners_ok p" and r: "tp_runners p i = Some r"
    and r': "rn_lane r' = rn_lane r" "rn_request r' = rn_request r" "runner_ok p r'"
      "rn_holds_lane r' \<Longrightarrow> rn_holds_lane r \<or> lane_free (rn_lane r) p"
    and fits: "\<And>s. phase_fits (rn_phase r) s \<Longrightarrow> phase_fits (rn_phase r') s"
    and ends: "\<not> phase_ends (rn_phase r') \<Longrightarrow> \<not> phase_ends (rn_phase r)"
    and same: "st_transfers (tp_store p') = st_transfers (tp_store p)" "tp_cancellations p' = tp_cancellations p"
      "tp_cancelled p' = tp_cancelled p" "tp_runners p' = (tp_runners p)(i \<mapsto> r')" "tp_lanes p' = tp_lanes p"
      "tp_next_lane p' = tp_next_lane p" "tp_slots p' = tp_slots p"
  shows "tasks_ok p' \<and> runners_ok p'"
proof
  show "tasks_ok p'"
  proof (rule tasks_ok_frame [OF ok(1), where keep = "\<lambda>_. True"])
    show "task_ok p' t" if "task_ok p t" for t
      using that r r'(2) fits ends by (auto simp add: task_ok_def same split: option.splits if_splits)
  qed (simp add: same)
  show "runners_ok p'" by (rule runners_ok_set [OF ok(2) r r'(1,3,4) same(4-7)])
qed

lemma runner_at: "runners_ok p \<Longrightarrow> tp_runners p i = Some r \<Longrightarrow> runner_ok p r"
  by (simp add: runners_ok_def)

lemma run_checks_refused: "run_checks env i r p = Inl (s, m) \<Longrightarrow> s \<in> {Failed, Cancelled}"
  by (auto simp add: run_checks_def Let_def ensure_def and_then_eq_Inl split: if_splits option.splits
      elim!: map_err.elims [OF sym] dest: sym)

lemma refused_fits:
  "status \<in> {Failed, Cancelled} \<Longrightarrow> s \<in> {Queued, Running, Cancelled} \<Longrightarrow> phase_fits (Ending status m b ssh modem) s"
  by auto

lemma waiting_steps_ok:
  assumes ok: "tasks_ok p" "runners_ok p" and r: "tp_runners p i = Some r"
  shows "rn_phase r = Waiting \<Longrightarrow>
      tasks_ok (set_runner i (r\<lparr>rn_phase := Ending Cancelled m None None None\<rparr>) p) \<and>
      runners_ok (set_runner i (r\<lparr>rn_phase := Ending Cancelled m None None None\<rparr>) p)"
    and "rn_phase r = Waiting \<Longrightarrow> lane_free (rn_lane r) p \<Longrightarrow>
      tasks_ok (set_runner i (r\<lparr>rn_phase := Holding, rn_holds_lane := True\<rparr>) p) \<and>
      runners_ok (set_runner i (r\<lparr>rn_phase := Holding, rn_holds_lane := True\<rparr>) p)"
    and "rn_phase r = Holding \<Longrightarrow>
      tasks_ok (set_runner i (after_checks env i r p) p) \<and> runners_ok (set_runner i (after_checks env i r p) p)"
proof -
  note q = runner_at [OF ok(2) r]
  show "tasks_ok (set_runner i (r\<lparr>rn_phase := Ending Cancelled m None None None\<rparr>) p) \<and>
      runners_ok (set_runner i (r\<lparr>rn_phase := Ending Cancelled m None None None\<rparr>) p)" if "rn_phase r = Waiting"
    by (rule move_ok [OF ok r]) (use q that in \<open>auto simp add: runner_ok_def\<close>)
  show "tasks_ok (set_runner i (r\<lparr>rn_phase := Holding, rn_holds_lane := True\<rparr>) p) \<and>
      runners_ok (set_runner i (r\<lparr>rn_phase := Holding, rn_holds_lane := True\<rparr>) p)"
    if "rn_phase r = Waiting" "lane_free (rn_lane r) p"
    by (rule move_ok [OF ok r]) (use q that in \<open>auto simp add: runner_ok_def\<close>)
  show "tasks_ok (set_runner i (after_checks env i r p) p) \<and> runners_ok (set_runner i (after_checks env i r p) p)"
    if h: "rn_phase r = Holding"
  proof (cases "run_checks env i r p")
    case (Inl e)
    then obtain st m where e: "run_checks env i r p = Inl (st, m)" "st \<in> {Failed, Cancelled}"
      using run_checks_refused by (cases e) blast
    show ?thesis
      by (rule move_ok [OF ok r]) (use q h e in \<open>auto simp add: runner_ok_def after_checks_def\<close>)
  next
    case (Inr ssh)
    show ?thesis
      by (rule move_ok [OF ok r]) (use q h Inr in \<open>auto simp add: runner_ok_def after_checks_def\<close>)
  qed
qed

lemma mark_mutation_failed:
  "mark_mutation env i request st = (s, Inl e) \<Longrightarrow> st_transfers s = st_transfers st"
  by (auto simp add: mark_mutation_def Let_def split: option.splits if_splits prod.splits)

lemma mark_mutation_done:
  assumes "mark_mutation env i request st = (s, Inr v)"
  shows "\<exists>t. transfer_by_id st i = Some t \<and> tft_status t \<noteq> Cancelled \<and>
    st_transfers s = update_first (\<lambda>t. tft_id t = i)
      (\<lambda>t. t\<lparr>tft_status := Running, tft_message := Some (str ''running''), tft_started_at := Some (te_now env)\<rparr>) (st_transfers st)"
  using assms
  by (auto simp add: mark_mutation_def Let_def dest!: recorded_event_transfers split: option.splits if_splits prod.splits)

lemma mark_ok:
  assumes ok: "tasks_ok p" "runners_ok p" and r: "tp_runners p i = Some r" and ph: "rn_phase r = Checked"
    and m: "mark_transfer_running env i (rn_request r) p = (p', result)"
  shows "tasks_ok (set_runner i (after_mark result r) p') \<and> runners_ok (set_runner i (after_mark result r) p')"
proof -
  note q = runner_at [OF ok(2) r]
  obtain st res where st: "commit_tracked_store_mutation_with (mark_mutation env i (rn_request r)) (te_persist env) (te_verify env)
      (tp_store p) = (st, res)" "p' = p\<lparr>tp_store := st\<rparr>" "result = and_then res (\<lambda>_. Inr ())"
    using m by (auto simp add: mark_transfer_running_def Let_def split: prod.splits)
  show ?thesis
  proof (cases res)
    case (Inl e)
    have "st_transfers st = st_transfers (tp_store p)"
      by (rule commit_tracked_failed [OF st(1) [unfolded Inl]]) (rule mark_mutation_failed)
    then show ?thesis
      by (intro move_ok [OF ok r]) (use q ph Inl st in \<open>auto simp add: runner_ok_def after_mark_def\<close>)
  next
    case (Inr task)
    then obtain ids where "mark_mutation env i (rn_request r) (tp_store p) = (st, Inr (task, ids))"
      using commit_tracked_done [OF st(1) [unfolded Inr]] by blast
    then obtain t where t: "transfer_by_id (tp_store p) i = Some t" "tft_status t \<noteq> Cancelled"
      "st_transfers st = update_first (\<lambda>t. tft_id t = i)
        (\<lambda>t. t\<lparr>tft_status := Running, tft_message := Some (str ''running''), tft_started_at := Some (te_now env)\<rparr>) (st_transfers (tp_store p))"
      using mark_mutation_done by blast
    let ?q = "set_runner i (after_mark result r) p'"
    have "tasks_ok ?q"
    proof (rule tasks_ok_update [OF ok(1), where i = i and f = "\<lambda>t. t\<lparr>tft_status := Running, tft_message := Some (str ''running''),
        tft_started_at := Some (te_now env)\<rparr>"])
      fix u assume u: "u \<in> set (st_transfers (tp_store p))" "tft_id u = i"
      then have u: "u = t" using task_unique [OF ok(1) t(1)] by blast
      show "tft_id (u\<lparr>tft_status := Running, tft_message := Some (str ''running''), tft_started_at := Some (te_now env)\<rparr>) = i \<and>
          tft_session_id (u\<lparr>tft_status := Running, tft_message := Some (str ''running''), tft_started_at := Some (te_now env)\<rparr>) = tft_session_id u \<and>
          (active_transfer (u\<lparr>tft_status := Running, tft_message := Some (str ''running''), tft_started_at := Some (te_now env)\<rparr>) \<longrightarrow> active_transfer u) \<and>
          task_ok ?q (u\<lparr>tft_status := Running, tft_message := Some (str ''running''), tft_started_at := Some (te_now env)\<rparr>)"
        using task_at [OF ok(1) t(1)] t(2) r ph st Inr unfolding u
        by (auto simp add: task_ok_def after_mark_def active_transfer_def transfer_task_is_active_def)
    next
      show "task_ok ?q u" if "tft_id u \<noteq> i" "task_ok p u" for u
        using that st by (auto simp add: task_ok_def split: option.splits)
    qed (simp add: st t(3))
    moreover have "runners_ok ?q"
      by (rule runners_ok_set [OF ok(2) r]) (use q ph Inr st in \<open>auto simp add: runner_ok_def after_mark_def\<close>)
    ultimately show ?thesis by simp
  qed
qed

lemma progress_ok:
  assumes ok: "tasks_ok p" "runners_ok p" and r: "tp_runners p i = Some r" and ph: "rn_phase r = Active"
    and m: "update_progress i done_bytes all_bytes p = (p', result)"
  shows "tasks_ok p' \<and> runners_ok p'"
proof -
  let ?f = "\<lambda>t. t\<lparr>tft_bytes_done := done_bytes, tft_bytes_total := (if 0 < all_bytes then all_bytes else tft_bytes_total t),
      tft_message := Some (str ''running'')\<rparr>"
  let ?us = "update_first (\<lambda>t. tft_id t = i) ?f (st_transfers (tp_store p))"
  have p': "tp_runners p' = tp_runners p" "tp_cancellations p' = tp_cancellations p" "tp_cancelled p' = tp_cancelled p"
    "tp_lanes p' = tp_lanes p" "tp_next_lane p' = tp_next_lane p" "tp_slots p' = tp_slots p"
    and xs: "st_transfers (tp_store p') \<in> {st_transfers (tp_store p), ?us}"
    using m by (auto simp add: update_progress_def record_transfer_progress_def Let_def split: if_splits option.splits prod.splits)
  have t: "task_ok p' t = task_ok p t" for t by (simp add: task_ok_def p' split: option.split)
  have "tasks_ok p'"
  proof (cases "st_transfers (tp_store p') = st_transfers (tp_store p)")
    case True
    then show ?thesis using ok(1) by (simp add: tasks_ok_def t)
  next
    case False
    with xs have xs: "st_transfers (tp_store p') = ?us" by simp
    show ?thesis
    proof (rule tasks_ok_update [OF ok(1), where i = i and f = ?f])
      fix u assume u: "u \<in> set (st_transfers (tp_store p))" "tft_id u = i"
      then have "task_ok p u" using ok(1) by (simp add: tasks_ok_def)
      then have "task_ok p (?f u)" by (auto simp add: task_ok_def active_transfer_def split: option.splits)
      then show "tft_id (?f u) = i \<and> tft_session_id (?f u) = tft_session_id u \<and> (active_transfer (?f u) \<longrightarrow> active_transfer u) \<and> task_ok p' (?f u)"
        using u by (simp add: t active_transfer_def)
    qed (simp_all add: t xs)
  qed
  moreover have "runners_ok p'" by (rule runners_ok_frame [OF ok(2)]) (simp_all add: p')
  ultimately show ?thesis by simp
qed

lemma outcome_ends:
  "transfer_outcome p i request result = (status, message, bytes, modem) \<Longrightarrow> status \<in> {Completed, Failed, Cancelled}"
  by (auto simp add: transfer_outcome_def Let_def split: sum.splits if_splits option.splits prod.splits)

lemma end_ok:
  assumes ok: "tasks_ok p" "runners_ok p" and r: "tp_runners p i = Some r" and ph: "rn_phase r = Active"
  shows "tasks_ok (set_runner i (after_transfer p i result r) p) \<and> runners_ok (set_runner i (after_transfer p i result r) p)"
proof -
  note q = runner_at [OF ok(2) r]
  obtain status message bytes modem where o: "transfer_outcome p i (rn_request r) result = (status, message, bytes, modem)"
    by (metis prod_cases4)
  have "status \<in> {Completed, Failed, Cancelled}" by (rule outcome_ends [OF o])
  then show ?thesis
    by (intro move_ok [OF ok r]) (use q ph o in \<open>auto simp add: runner_ok_def after_transfer_def\<close>)
qed

lemma unregister_ok:
  assumes ok: "tasks_ok p" "runners_ok p" and r: "tp_runners p i = Some r" and ph: "rn_phase r = Ending status m b ssh modem"
  shows "tasks_ok (unregister_transfer i p) \<and> runners_ok (unregister_transfer i p)"
proof
  have s: "st_transfers (tp_store (unregister_transfer i p)) = st_transfers (tp_store p)"
    by (simp add: unregister_transfer_def cleanup_mcp_content_transfer_staging_def)
  show "tasks_ok (unregister_transfer i p)"
  proof (rule tasks_ok_frame [OF ok(1), where keep = "\<lambda>_. True"])
    show "task_ok (unregister_transfer i p) t" if "task_ok p t" for t
      using that r ph
      by (auto simp add: task_ok_def unregister_transfer_def cleanup_mcp_content_transfer_staging_def split: option.splits)
  qed (simp add: s)
  show "runners_ok (unregister_transfer i p)"
    by (rule runners_ok_frame [OF ok(2)]) (simp_all add: unregister_transfer_def cleanup_mcp_content_transfer_staging_def)
qed

lemma runner_gone_ok:
  assumes ok: "runners_ok p" and r: "tp_runners p i = Some r"
    and same: "tp_runners p' = (tp_runners p)(i := None)" "tp_lanes p' = tp_lanes p" "tp_next_lane p' = tp_next_lane p"
      "tp_slots p' = tp_slots p + 1"
  shows "runners_ok p'"
proof -
  have d: "dom (tp_runners p') = dom (tp_runners p) - {i}" "i \<in> dom (tp_runners p)" using r same(1) by auto
  have "card (dom (tp_runners p)) = Suc (card (dom (tp_runners p) - {i}))"
    using d(2) ok by (metis card.remove runners_ok_def)
  then show ?thesis
    using ok unfolding runners_ok_def runner_ok_def lanes_ok_def d(1) same(2-4)
    by (auto simp add: same(1) split: if_splits)
qed

lemma checked_ends:
  "checked_completion p s status m b ssh modem = (status', m', b') \<Longrightarrow> status \<in> {Completed, Failed, Cancelled} \<Longrightarrow>
     status' \<in> {Completed, Failed, Cancelled}"
  by (auto simp add: checked_completion_def split: if_splits option.splits)

lemma finished_ends:
  assumes "status \<in> {Completed, Failed, Cancelled}"
  shows "tft_status (finished_task env status m b t) \<in> {Completed, Failed, Cancelled} \<and>
    tft_id (finished_task env status m b t) = tft_id t \<and>
    tft_session_id (finished_task env status m b t) = tft_session_id t \<and>
    \<not> active_transfer (finished_task env status m b t)"
  using assms
  by (auto simp add: finished_task_def with_average_def active_transfer_def transfer_task_is_active_def Let_def split: option.splits)

lemma commit_finish_same:
  "tp_runners (commit_finish env i s status m b ssh modem p) = tp_runners p"
  "tp_lanes (commit_finish env i s status m b ssh modem p) = tp_lanes p"
  "tp_next_lane (commit_finish env i s status m b ssh modem p) = tp_next_lane p"
  "tp_slots (commit_finish env i s status m b ssh modem p) = tp_slots p"
  "tp_cancellations (commit_finish env i s status m b ssh modem p) = tp_cancellations p"
  "tp_cancelled (commit_finish env i s status m b ssh modem p) = tp_cancelled p"
  by (simp_all add: commit_finish_def Let_def split: prod.split option.split)

lemma commit_finish_transfers:
  assumes "status \<in> {Completed, Failed, Cancelled}"
  shows "\<exists>status' m' b'. checked_completion p s status (truncate_for_log m 2000) b ssh modem = (status', m', b') \<and>
    status' \<in> {Completed, Failed, Cancelled} \<and>
    (case transfer_by_id (tp_store p) i of
       None \<Rightarrow> st_transfers (tp_store (commit_finish env i s status m b ssh modem p)) = st_transfers (tp_store p)
     | Some t \<Rightarrow> st_transfers (tp_store (commit_finish env i s status m b ssh modem p)) =
         trim_transfers (tft_session_id t)
           (update_first (\<lambda>t. tft_id t = i) (\<lambda>_. finished_task env status' m' b' t) (st_transfers (tp_store p))))"
proof -
  obtain status' m' b' where c: "checked_completion p s status (truncate_for_log m 2000) b ssh modem = (status', m', b')"
    by (metis prod_cases3)
  have "status' \<in> {Completed, Failed, Cancelled}" by (rule checked_ends [OF c assms])
  then show ?thesis using c by (auto simp add: commit_finish_def Let_def split: option.split)
qed

lemma finish_ok:
  assumes ok: "tasks_ok p" "runners_ok p" and r: "tp_runners p i = Some r" and ph: "rn_phase r = Ending status m b ssh modem"
  shows "tasks_ok ((commit_finish env i s status m b ssh modem p)\<lparr>tp_runners := (tp_runners p)(i := None), tp_slots := tp_slots p + 1\<rparr>) \<and>
    runners_ok ((commit_finish env i s status m b ssh modem p)\<lparr>tp_runners := (tp_runners p)(i := None), tp_slots := tp_slots p + 1\<rparr>)"
    (is "tasks_ok ?p' \<and> _")
proof
  have st: "status \<in> {Completed, Failed, Cancelled}"
    using runner_at [OF ok(2) r] ph by (simp add: runner_ok_def)
  have same: "tp_store ?p' = tp_store (commit_finish env i s status m b ssh modem p)" by simp
  obtain status' m' b' where f: "status' \<in> {Completed, Failed, Cancelled}"
    "case transfer_by_id (tp_store p) i of
       None \<Rightarrow> st_transfers (tp_store ?p') = st_transfers (tp_store p)
     | Some t \<Rightarrow> st_transfers (tp_store ?p') = trim_transfers (tft_session_id t)
           (update_first (\<lambda>t. tft_id t = i) (\<lambda>_. finished_task env status' m' b' t) (st_transfers (tp_store p)))"
    unfolding same
    using commit_finish_transfers [OF st, where p = p and s = s and m = m and b = b and ssh = ssh and modem = modem
      and i = i and env = env]
    by blast
  have others: "task_ok ?p' u" if "tft_id u \<noteq> i" "task_ok p u" for u
    using that by (auto simp add: task_ok_def commit_finish_same split: option.splits)
  show "tasks_ok ?p'"
  proof (cases "transfer_by_id (tp_store p) i")
    case None
    then show ?thesis
      using f(2) transfer_by_id_None [OF None] others
      by (intro tasks_ok_frame [OF ok(1), where keep = "\<lambda>_. True"]) auto
  next
    case (Some t)
    note fin = finished_ends [OF f(1), of env m' b' t]
    show ?thesis
    proof (rule tasks_ok_update [OF ok(1), where i = i and f = "\<lambda>_. finished_task env status' m' b' t"])
      fix u assume u: "u \<in> set (st_transfers (tp_store p))" "tft_id u = i"
      then have "u = t" using task_unique [OF ok(1) Some] by blast
      then show "tft_id (finished_task env status' m' b' t) = i \<and> tft_session_id (finished_task env status' m' b' t) = tft_session_id u \<and>
          (active_transfer (finished_task env status' m' b' t) \<longrightarrow> active_transfer u) \<and> task_ok ?p' (finished_task env status' m' b' t)"
        using fin u by (simp add: task_ok_def)
    qed (use f(2) Some others in \<open>auto simp add: subseq_trim_transfers\<close>)
  qed
  show "runners_ok ?p'"
    by (rule runner_gone_ok [OF ok(2) r]) (simp_all add: commit_finish_same)
qed

lemma step_ok:
  assumes "transfer_step p p'" "tasks_ok p" "runners_ok p"
  shows "tasks_ok p' \<and> runners_ok p'"
  using assms
proof cases
  case step_queue
  then show ?thesis using queue_ok assms by blast
next
  case step_cancel
  then show ?thesis using cancel_ok assms by blast
next
  case step_give_up
  then show ?thesis using waiting_steps_ok(1) assms by blast
next
  case step_lane
  then show ?thesis using waiting_steps_ok(2) assms by blast
next
  case step_checks
  then show ?thesis using waiting_steps_ok(3) assms by blast
next
  case step_mark
  then show ?thesis using mark_ok assms by blast
next
  case (step_bind i r b)
  have "task_ok p' t = task_ok p t" for t by (simp add: task_ok_def step_bind(1) split: option.split)
  moreover have "runners_ok p'" by (rule runners_ok_frame [OF assms(3)]) (simp_all add: step_bind(1))
  ultimately show ?thesis using assms(2) by (simp add: tasks_ok_def step_bind(1))
next
  case step_progress
  then show ?thesis using progress_ok assms by blast
next
  case step_end
  then show ?thesis using end_ok assms by blast
next
  case step_unregister
  then show ?thesis using unregister_ok assms by blast
next
  case step_finish
  then show ?thesis using finish_ok assms by blast
next
  case step_world
  then obtain keep where k: "st_transfers (tp_store p') = filter keep (st_transfers (tp_store p))"
    by (auto simp add: world_change_def)
  have "tasks_ok p'"
  proof (rule tasks_ok_frame [OF assms(2) k])
    show "task_ok p' t" if "t \<in> set (st_transfers (tp_store p'))" "task_ok p t" for t
      using that step_world by (auto simp add: task_ok_def world_change_def split: option.splits)
  qed
  moreover have "runners_ok p'"
    by (rule runners_ok_frame [OF assms(3)]) (use step_world in \<open>simp_all add: world_change_def\<close>)
  ultimately show ?thesis by simp
qed

lemma start_ok: "transfer_start p \<Longrightarrow> tasks_ok p \<and> runners_ok p"
  by (auto simp add: transfer_start_def tasks_ok_def runners_ok_def task_ok_def lanes_ok_def list_all_iff count_if_def session_active_def)

lemma transfers_reachable_ok: "transfer_steps p p' \<Longrightarrow> transfer_start p \<Longrightarrow> tasks_ok p' \<and> runners_ok p'"
  by (induction rule: rtranclp_induct) (use start_ok step_ok in blast)+

section \<open>How the status of a transfer changes\<close>

definition terminal_status :: "TransferStatus \<Rightarrow> bool" where
  "terminal_status s \<longleftrightarrow> s \<in> {Completed, Failed, Cancelled}"

text \<open>What a completion rests on at the moment it is recorded.\<close>

definition completion_backed :: "'vt transfer_process \<Rightarrow> TransferTask \<Rightarrow> bool" where
  "completion_backed p t \<longleftrightarrow>
     (\<exists>r message bytes ssh modem.
        tp_runners p (tft_id t) = Some r \<and> rn_phase r = Ending Completed message bytes ssh modem \<and>
        (\<forall>i. ssh = Some i \<longrightarrow> ssh_runtime_connected (tp_runtimes p) (tp_store p) (tft_session_id t) i) \<and>
        (\<forall>b. modem = Some b \<longrightarrow> permits_completion (tp_runtimes p) b (tft_session_id t)))"

definition status_change :: "'vt transfer_process \<Rightarrow> TransferTask \<Rightarrow> TransferTask \<Rightarrow> bool" where
  "status_change p t t' \<longleftrightarrow>
     (terminal_status (tft_status t) \<longrightarrow> tft_status t' = tft_status t) \<and>
     (tft_status t' = Completed \<and> tft_status t \<noteq> Completed \<longrightarrow> tft_status t = Running \<and> completion_backed p t)"

lemma status_kept: "tft_status t' = tft_status t \<Longrightarrow> status_change p t t'"
  by (auto simp add: status_change_def)

lemma same_task:
  assumes "tasks_ok p" "t \<in> set (st_transfers (tp_store p))" "t' \<in> set (st_transfers (tp_store p))" "tft_id t = tft_id t'"
  shows "t' = t"
  using assms by (auto simp add: tasks_ok_def distinct_map inj_on_def)

text \<open>The task of a list with one task changed.\<close>

lemma updated_task:
  assumes ok: "tasks_ok p" and t: "t \<in> set (st_transfers (tp_store p))" "tft_id t = tft_id t'"
    and t': "t' \<in> set (trim_transfers s (update_first (\<lambda>t. tft_id t = i) f (st_transfers (tp_store p)))) \<or>
             t' \<in> set (update_first (\<lambda>t. tft_id t = i) f (st_transfers (tp_store p)))"
    and f: "\<And>u. tft_id u = i \<Longrightarrow> tft_id (f u) = i"
  shows "t' = (if tft_id t = i then f t else t)"
proof -
  have d: "distinct (map tft_id (st_transfers (tp_store p)))" using ok by (simp add: tasks_ok_def)
  have "t' \<in> set (update_first (\<lambda>t. tft_id t = i) f (st_transfers (tp_store p)))"
    using t' trimmed_tasks(1) by blast
  then obtain u where u: "u \<in> set (st_transfers (tp_store p))" "t' = (if tft_id u = i then f u else u)"
    unfolding update_task_set [OF d] by blast
  then have "tft_id t' = tft_id u" using f by auto
  then have "u = t" using same_task [OF ok t(1) u(1)] t(2) by simp
  then show ?thesis using u(2) by simp
qed

lemma finish_status:
  assumes ok: "tasks_ok p" "runners_ok p" and r: "tp_runners p i = Some r" and ph: "rn_phase r = Ending status m b ssh modem"
    and t: "t \<in> set (st_transfers (tp_store p))" "tft_id t = tft_id t'"
    and t': "t' \<in> set (st_transfers (tp_store (commit_finish env i (str_session_id (rn_request r)) status m b ssh modem p)))"
  shows "status_change p t t'"
proof -
  let ?s = "str_session_id (rn_request r)"
  have st: "status \<in> {Completed, Failed, Cancelled}"
    using runner_at [OF ok(2) r] ph by (simp add: runner_ok_def)
  obtain status' m' b' where c: "checked_completion p ?s status (truncate_for_log m 2000) b ssh modem = (status', m', b')"
    "status' \<in> {Completed, Failed, Cancelled}"
    "case transfer_by_id (tp_store p) i of
       None \<Rightarrow> st_transfers (tp_store (commit_finish env i ?s status m b ssh modem p)) = st_transfers (tp_store p)
     | Some t \<Rightarrow> st_transfers (tp_store (commit_finish env i ?s status m b ssh modem p)) = trim_transfers (tft_session_id t)
           (update_first (\<lambda>t. tft_id t = i) (\<lambda>_. finished_task env status' m' b' t) (st_transfers (tp_store p)))"
    using commit_finish_transfers [OF st, where p = p and s = ?s and m = m and b = b and ssh = ssh and modem = modem
      and i = i and env = env] by blast
  show ?thesis
  proof (cases "transfer_by_id (tp_store p) i")
    case None
    then show ?thesis using c(3) t t' same_task [OF ok(1) t(1)] by (auto intro: status_kept)
  next
    case (Some u)
    note o = task_at [OF ok(1) Some]
    have "t' \<in> set (trim_transfers (tft_session_id u) (update_first (\<lambda>t. tft_id t = i)
        (\<lambda>_. finished_task env status' m' b' u) (st_transfers (tp_store p))))"
      using t' c(3) Some by simp
    then have t': "t' = (if tft_id t = i then finished_task env status' m' b' u else t)"
      using o finished_ends [OF c(2), of env m' b' u]
      by (intro updated_task [OF ok(1) t, where s = "tft_session_id u"]) simp_all
    show ?thesis
    proof (cases "tft_id t = i")
      case False
      then show ?thesis using t' by (simp add: status_kept)
    next
      case True
      then have u: "t = u" using task_unique [OF ok(1) Some t(1)] by simp
      have fits: "phase_fits (Ending status m b ssh modem) (tft_status t)" "tft_session_id t = ?s" "tft_id t = i"
        using o r ph by (auto simp add: u task_ok_def)
      have f: "tft_status t' = (if tft_status t = Cancelled then Cancelled else status')"
        using True by (simp add: t' u finished_task_def with_average_def Let_def split: option.split prod.split)
      have q: "tft_status t \<in> {Queued, Running, Cancelled}" using fits(1) by (cases status) auto
      have "tft_status t = Running \<and> completion_backed p t" if "tft_status t' = Completed"
      proof -
        from that f have s: "status' = Completed" "tft_status t \<noteq> Cancelled" by (auto split: if_splits)
        with c(1) have e: "status = Completed" "\<forall>i. ssh = Some i \<longrightarrow> ssh_runtime_connected (tp_runtimes p) (tp_store p) ?s i"
          "\<forall>b. modem = Some b \<longrightarrow> permits_completion (tp_runtimes p) b ?s"
          by (auto simp add: checked_completion_def split: if_splits option.splits)
        have "tft_status t = Running" using fits(1) s(2) e(1) by auto
        then show ?thesis using e ph r fits(2,3) by (auto simp add: completion_backed_def)
      qed
      then show ?thesis using f q by (auto simp add: status_change_def terminal_status_def)
    qed
  qed
qed

lemma queue_transfers:
  assumes "queue_transfer env i request expected staging validation p = (p', result)"
  shows "set (st_transfers (tp_store p')) \<subseteq> insert (new_transfer_task i request) (set (st_transfers (tp_store p)))"
proof (cases "tp_slots p = 0 \<or> (\<exists>e. validation = Inl e)")
  case True
  then have "p' = p" using assms by (auto simp add: queue_transfer_def split: if_splits)
  then show ?thesis by auto
next
  case False
  then obtain u where v: "validation = Inr u" "0 < tp_slots p" by (cases validation) auto
  let ?task = "new_transfer_task i request"
  obtain p1 lane where p1: "transfer_lane p (str_session_id request) = (p1, lane)" "tp_store p1 = tp_store p"
    by (cases "transfer_lane p (str_session_id request)") (auto simp add: transfer_lane_def split: option.splits)
  obtain st r where st: "commit_tracked_store_mutation_with (queue_mutation env ?task request) (te_persist env) (te_verify env)
      (tp_store p) = (st, r)"
    by (cases "commit_tracked_store_mutation_with (queue_mutation env ?task request) (te_persist env) (te_verify env) (tp_store p)")
  have p': "tp_store p' = st"
    using assms v p1 st by (auto simp add: queue_transfer_def cleanup_mcp_content_transfer_staging_def Let_def split: sum.splits)
  show ?thesis
  proof (cases r)
    case (Inl e)
    have "st_transfers st = st_transfers (tp_store p)"
      by (rule commit_tracked_failed [OF st [unfolded Inl]]) (auto dest: queue_mutation_cases)
    then show ?thesis by (auto simp add: p')
  next
    case (Inr w)
    then obtain ids where "queue_mutation env ?task request (tp_store p) = (st, Inr (w, ids))"
      using commit_tracked_done [OF st [unfolded Inr]] by blast
    note m = queue_mutation_cases [OF this, simplified]
    then show ?thesis
      using trimmed_tasks(1) [of "tft_session_id ?task" "st_transfers (tp_store p) @ [?task]"] by (auto simp add: p')
  qed
qed

lemma cancel_transfers:
  assumes "cancel_transfer_inner_with_validation env validation i p = (p', result)"
  shows "tp_store p' = tp_store p \<or> (\<exists>t. transfer_by_id (tp_store p) i = Some t \<and>
    st_transfers (tp_store p') = trim_transfers (tft_session_id t) (update_first (\<lambda>t. tft_id t = i)
      (\<lambda>u. if active_transfer t
           then with_average (te_rate env) (u\<lparr>tft_status := Cancelled, tft_message := Some (str ''cancelling''), tft_finished_at := Some (te_now env)\<rparr>)
           else u) (st_transfers (tp_store p))))"
  using assms
  by (cases validation; cases "transfer_by_id (tp_store p) i")
     (auto simp add: cancel_transfer_inner_with_validation_def ok_or_def Let_def)

lemma mark_transfers:
  assumes "mark_transfer_running env i request p = (p', result)"
  shows "st_transfers (tp_store p') = st_transfers (tp_store p) \<or> (\<exists>t. transfer_by_id (tp_store p) i = Some t \<and> tft_status t \<noteq> Cancelled \<and>
    st_transfers (tp_store p') = update_first (\<lambda>t. tft_id t = i)
      (\<lambda>t. t\<lparr>tft_status := Running, tft_message := Some (str ''running''), tft_started_at := Some (te_now env)\<rparr>) (st_transfers (tp_store p)))"
proof -
  obtain st res where st: "commit_tracked_store_mutation_with (mark_mutation env i request) (te_persist env) (te_verify env)
      (tp_store p) = (st, res)" "p' = p\<lparr>tp_store := st\<rparr>"
    using assms by (auto simp add: mark_transfer_running_def Let_def split: prod.splits)
  show ?thesis
  proof (cases res)
    case (Inl e)
    have "st_transfers st = st_transfers (tp_store p)"
      by (rule commit_tracked_failed [OF st(1) [unfolded Inl]]) (rule mark_mutation_failed)
    then show ?thesis by (simp add: st)
  next
    case (Inr task)
    then obtain ids where "mark_mutation env i request (tp_store p) = (st, Inr (task, ids))"
      using commit_tracked_done [OF st(1) [unfolded Inr]] by blast
    from mark_mutation_done [OF this] show ?thesis by (simp add: st)
  qed
qed

lemma progress_transfers:
  assumes "update_progress i done_bytes all_bytes p = (p', result)"
  shows "st_transfers (tp_store p') \<in> {st_transfers (tp_store p), update_first (\<lambda>t. tft_id t = i)
    (\<lambda>t. t\<lparr>tft_bytes_done := done_bytes, tft_bytes_total := (if 0 < all_bytes then all_bytes else tft_bytes_total t),
           tft_message := Some (str ''running'')\<rparr>) (st_transfers (tp_store p))}"
  using assms by (auto simp add: update_progress_def record_transfer_progress_def Let_def split: if_splits option.splits prod.splits)

lemma step_status:
  assumes "transfer_step p p'" and ok: "tasks_ok p" "runners_ok p"
    and t: "t \<in> set (st_transfers (tp_store p))" "tft_id t = tft_id t'"
    and t': "t' \<in> set (st_transfers (tp_store p'))"
  shows "status_change p t t'"
proof -
  have keep: "status_change p t t'" if "set (st_transfers (tp_store p')) \<subseteq> set (st_transfers (tp_store p))"
    using that t' same_task [OF ok(1) t(1)] t(2) by (auto intro: status_kept)
  from assms(1) show ?thesis
  proof cases
    case (step_queue env i request expected staging validation result)
    have "t' \<in> insert (new_transfer_task i request) (set (st_transfers (tp_store p)))"
      using queue_transfers [OF step_queue(1)] t' by blast
    moreover have "tft_id t \<noteq> i" using t(1) step_queue(2) by auto
    ultimately have "t' \<in> set (st_transfers (tp_store p))" using t(2) by (auto simp add: new_transfer_task_def)
    then show ?thesis using same_task [OF ok(1) t(1)] t(2) by (auto intro: status_kept)
  next
    case (step_cancel env validation i result)
    from cancel_transfers [OF this] show ?thesis
    proof (elim disjE exE conjE)
      fix u assume u: "transfer_by_id (tp_store p) i = Some u"
        and xs: "st_transfers (tp_store p') = trim_transfers (tft_session_id u) (update_first (\<lambda>t. tft_id t = i)
          (\<lambda>v. if active_transfer u
               then with_average (te_rate env) (v\<lparr>tft_status := Cancelled, tft_message := Some (str ''cancelling''), tft_finished_at := Some (te_now env)\<rparr>)
               else v) (st_transfers (tp_store p)))"
      have "t' = (if tft_id t = i then if active_transfer u
          then with_average (te_rate env) (t\<lparr>tft_status := Cancelled, tft_message := Some (str ''cancelling''), tft_finished_at := Some (te_now env)\<rparr>)
          else t else t)"
        by (rule updated_task [OF ok(1) t disjI1, OF t' [unfolded xs]]) (simp add: with_average_def)
      then show ?thesis
        using task_unique [OF ok(1) u t(1)]
        by (auto simp add: status_change_def with_average_def active_transfer_def transfer_task_is_active_def terminal_status_def)
    qed (rule keep, simp)
  next
    case (step_mark i r env q result)
    have xs: "st_transfers (tp_store p') = st_transfers (tp_store q)" by (simp add: step_mark(1))
    from mark_transfers [OF step_mark(4)] show ?thesis
    proof (elim disjE exE conjE)
      fix u assume u: "transfer_by_id (tp_store p) i = Some u" "tft_status u \<noteq> Cancelled"
        and ys: "st_transfers (tp_store q) = update_first (\<lambda>t. tft_id t = i)
          (\<lambda>t. t\<lparr>tft_status := Running, tft_message := Some (str ''running''), tft_started_at := Some (te_now env)\<rparr>) (st_transfers (tp_store p))"
      have e: "t' = (if tft_id t = i then t\<lparr>tft_status := Running, tft_message := Some (str ''running''), tft_started_at := Some (te_now env)\<rparr> else t)"
        by (rule updated_task [OF ok(1) t disjI2, OF t' [unfolded xs ys]]) simp
      have "tft_status t = Queued" if "tft_id t = i"
        using task_unique [OF ok(1) u(1) t(1) that] task_at [OF ok(1) u(1)] u(2) step_mark(2,3) by (auto simp add: task_ok_def)
      then show ?thesis using e by (auto simp add: status_change_def terminal_status_def)
    qed (rule keep, simp add: xs)
  next
    case (step_progress i r bytes_done bytes_total result)
    let ?f = "\<lambda>t. t\<lparr>tft_bytes_done := bytes_done, tft_bytes_total := (if 0 < bytes_total then bytes_total else tft_bytes_total t),
      tft_message := Some (str ''running'')\<rparr>"
    from progress_transfers [OF step_progress(3)] show ?thesis
    proof (elim insertE)
      assume ys: "st_transfers (tp_store p') = update_first (\<lambda>t. tft_id t = i) ?f (st_transfers (tp_store p))"
      have "t' = (if tft_id t = i then ?f t else t)"
        by (rule updated_task [OF ok(1) t disjI2, OF t' [unfolded ys]]) simp
      then show ?thesis by (auto intro: status_kept)
    qed (rule keep, simp, blast)
  next
    case step_finish
    then show ?thesis using finish_status [OF ok _ _ t] t' by auto
  next
    case step_unregister
    then show ?thesis
      by (intro keep) (simp add: unregister_transfer_def cleanup_mcp_content_transfer_staging_def)
  next
    case step_world
    then show ?thesis by (intro keep) (auto simp add: world_change_def)
  qed (rule keep, simp)+
qed

section \<open>Every task can be brought to its end\<close>

definition calm_env :: "'vt transfer_env" where
  "calm_env = \<lparr>te_now = 0, te_uuid = [1], te_chan = \<lambda>_. SendOk, te_persist = \<lambda>_. Inr (), te_verify = \<lambda>_. Inr True,
     te_rate = \<lambda>_ _. 0, te_updating = None, te_say = \<lambda>_. []\<rparr>"

lemma ending_ends:
  assumes "tp_runners p i = Some r" "rn_phase r = Ending status m b ssh modem"
  shows "\<exists>p'. transfer_steps p p' \<and> tp_runners p' = (tp_runners p)(i := None)"
proof -
  let ?q = "unregister_transfer i p"
  have q: "tp_runners ?q = tp_runners p" "i \<notin> tp_cancellations ?q"
    by (simp_all add: unregister_transfer_def cleanup_mcp_content_transfer_staging_def)
  have "transfer_step p ?q" using assms by (rule transfer_step.step_unregister)
  moreover have "transfer_step ?q ((commit_finish calm_env i (str_session_id (rn_request r)) status m b ssh modem ?q)
      \<lparr>tp_runners := (tp_runners ?q)(i := None), tp_slots := tp_slots ?q + 1\<rparr>)"
    by (rule transfer_step.step_finish) (use assms q in auto)
  ultimately show ?thesis using q(1) by (intro exI conjI) (erule converse_rtranclp_into_rtranclp, erule r_into_rtranclp, simp)
qed

lemma step_then:
  assumes "transfer_step p q" "tp_runners q = (tp_runners p)(i \<mapsto> r')"
    "\<exists>p'. transfer_steps q p' \<and> tp_runners p' = (tp_runners q)(i := None)"
  shows "\<exists>p'. transfer_steps p p' \<and> tp_runners p' = (tp_runners p)(i := None)"
  using assms by (metis (no_types) converse_rtranclp_into_rtranclp fun_upd_upd)

lemma active_ends:
  assumes "tp_runners p i = Some r" "rn_phase r = Active"
  shows "\<exists>p'. transfer_steps p p' \<and> tp_runners p' = (tp_runners p)(i := None)"
proof (rule step_then)
  let ?r = "after_transfer p i (Inl []) r"
  show "transfer_step p (set_runner i ?r p)" using assms by (rule transfer_step.step_end)
  obtain status m b modem where o: "transfer_outcome p i (rn_request r) (Inl []) = (status, m, b, modem)" by (metis prod_cases4)
  then have "rn_phase ?r = Ending status m b (rn_ssh r) modem" by (simp add: after_transfer_def)
  then show "\<exists>p'. transfer_steps (set_runner i ?r p) p' \<and> tp_runners p' = (tp_runners (set_runner i ?r p))(i := None)"
    by (intro ending_ends) simp_all
qed simp

lemma checked_ends_too:
  assumes "tp_runners p i = Some r" "rn_phase r = Checked"
  shows "\<exists>p'. transfer_steps p p' \<and> tp_runners p' = (tp_runners p)(i := None)"
proof -
  obtain q result where m: "mark_transfer_running calm_env i (rn_request r) p = (q, result)"
    by (cases "mark_transfer_running calm_env i (rn_request r) p")
  have q: "tp_runners q = tp_runners p" using m by (auto simp add: mark_transfer_running_def Let_def split: prod.splits)
  show ?thesis
  proof (rule step_then)
    show "transfer_step p (set_runner i (after_mark result r) q)" using assms m by (rule transfer_step.step_mark)
    show "\<exists>p'. transfer_steps (set_runner i (after_mark result r) q) p' \<and>
        tp_runners p' = (tp_runners (set_runner i (after_mark result r) q))(i := None)"
    proof (cases result)
      case (Inl e)
      then show ?thesis by (intro ending_ends) (simp, simp add: after_mark_def)
    next
      case (Inr u)
      then show ?thesis by (intro active_ends) (simp, simp add: after_mark_def)
    qed
  qed (simp add: q)
qed

lemma holding_ends:
  assumes "tp_runners p i = Some r" "rn_phase r = Holding"
  shows "\<exists>p'. transfer_steps p p' \<and> tp_runners p' = (tp_runners p)(i := None)"
proof (rule step_then)
  let ?r = "after_checks calm_env i r p"
  show "transfer_step p (set_runner i ?r p)" using assms by (rule transfer_step.step_checks)
  show "\<exists>p'. transfer_steps (set_runner i ?r p) p' \<and> tp_runners p' = (tp_runners (set_runner i ?r p))(i := None)"
  proof (cases "run_checks calm_env i r p")
    case (Inl e)
    then show ?thesis
      by (intro ending_ends [where status = "fst e" and m = "snd e"]) (auto simp add: after_checks_def split: prod.split)
  next
    case (Inr a)
    then show ?thesis by (intro checked_ends_too) (auto simp add: after_checks_def)
  qed
qed simp

lemma some_runner_ends:
  assumes ok: "runners_ok p" and some: "tp_runners p \<noteq> Map.empty"
  shows "\<exists>i p'. i \<in> dom (tp_runners p) \<and> transfer_steps p p' \<and> tp_runners p' = (tp_runners p)(i := None)"
proof (cases "\<exists>i r. tp_runners p i = Some r \<and> rn_phase r \<noteq> Waiting")
  case True
  then obtain i r where r: "tp_runners p i = Some r" "rn_phase r \<noteq> Waiting" by blast
  then have "\<exists>p'. transfer_steps p p' \<and> tp_runners p' = (tp_runners p)(i := None)"
    using holding_ends checked_ends_too active_ends ending_ends by (cases "rn_phase r") blast+
  then show ?thesis using r(1) by blast
next
  case False
  obtain i r where r: "tp_runners p i = Some r" using some by (metis not_Some_eq)
  with False have w: "rn_phase r = Waiting" by blast
  have "lane_free (rn_lane r) p"
    using False ok by (auto simp add: lane_free_def runners_ok_def runner_ok_def)
  then have "transfer_step p (set_runner i (r\<lparr>rn_phase := Holding, rn_holds_lane := True\<rparr>) p)"
    using r w by (intro transfer_step.step_lane)
  then have "\<exists>p'. transfer_steps p p' \<and> tp_runners p' = (tp_runners p)(i := None)"
    by (rule step_then) (simp, rule holding_ends [where r = "r\<lparr>rn_phase := Holding, rn_holds_lane := True\<rparr>"], simp_all)
  then show ?thesis using r by blast
qed

lemma steps_ok: "transfer_steps p p' \<Longrightarrow> tasks_ok p \<Longrightarrow> runners_ok p \<Longrightarrow> tasks_ok p' \<and> runners_ok p'"
  by (induction rule: rtranclp_induct) (use step_ok in blast)+

lemma all_runners_end:
  assumes "tasks_ok p" "runners_ok p"
  shows "\<exists>p'. transfer_steps p p' \<and> tp_runners p' = Map.empty"
  using assms
proof (induction "card (dom (tp_runners p))" arbitrary: p rule: less_induct)
  case less
  show ?case
  proof (cases "tp_runners p = Map.empty")
    case False
    then obtain i q where q: "i \<in> dom (tp_runners p)" "transfer_steps p q" "tp_runners q = (tp_runners p)(i := None)"
      using some_runner_ends [OF less.prems(2)] by blast
    have "finite (dom (tp_runners p))" using less.prems(2) by (simp add: runners_ok_def)
    then have "card (dom (tp_runners q)) < card (dom (tp_runners p))"
      using q(1) card_Diff1_less [of "dom (tp_runners p)" i] unfolding q(3) dom_fun_upd by simp
    moreover have "tasks_ok q \<and> runners_ok q" using steps_ok q(2) less.prems by blast
    ultimately obtain p' where "transfer_steps q p'" "tp_runners p' = Map.empty" using less.hyps by blast
    with q(2) show ?thesis by (meson rtranclp_trans)
  qed blast
qed

section \<open>Properties\<close>

text \<open>
  C25. In every reachable state each queued or running transfer has exactly one task that will carry
  it to its end, and that task knows of a cancellation; transfers have distinct identifiers, at most
  5000 are active, no two tasks hold the same lane, and every task has a permit.
\<close>

theorem active_transfers_have_runners:
  assumes "transfer_start p0" "transfer_steps p0 p"
  shows "(\<forall>t \<in> set (st_transfers (tp_store p)).
      (active_transfer t \<longrightarrow> (\<exists>r. tp_runners p (tft_id t) = Some r \<and> str_session_id (rn_request r) = tft_session_id t)) \<and>
      (\<forall>r. tft_status t = Cancelled \<and> tp_runners p (tft_id t) = Some r \<and> \<not> phase_ends (rn_phase r) \<longrightarrow> tft_id t \<in> tp_cancelled p)) \<and>
    distinct (map tft_id (st_transfers (tp_store p))) \<and>
    count_if active_transfer (st_transfers (tp_store p)) \<le> MAX_ACTIVE_TRANSFER_TASKS \<and>
    (\<forall>i j r r'. tp_runners p i = Some r \<and> tp_runners p j = Some r' \<and> rn_holds_lane r \<and> rn_holds_lane r' \<and>
       rn_lane r = rn_lane r' \<longrightarrow> i = j) \<and>
    tp_slots p + card (dom (tp_runners p)) = MAX_ACTIVE_TRANSFER_TASKS"
proof -
  from transfers_reachable_ok assms have ok: "tasks_ok p" "runners_ok p" by blast+
  have "\<forall>t \<in> set (st_transfers (tp_store p)).
      (active_transfer t \<longrightarrow> (\<exists>r. tp_runners p (tft_id t) = Some r \<and> str_session_id (rn_request r) = tft_session_id t)) \<and>
      (\<forall>r. tft_status t = Cancelled \<and> tp_runners p (tft_id t) = Some r \<and> \<not> phase_ends (rn_phase r) \<longrightarrow> tft_id t \<in> tp_cancelled p)"
    using ok(1) unfolding tasks_ok_def task_ok_def by (auto split: option.splits)
  moreover have "\<forall>i j r r'. tp_runners p i = Some r \<and> tp_runners p j = Some r' \<and> rn_holds_lane r \<and> rn_holds_lane r' \<and>
       rn_lane r = rn_lane r' \<longrightarrow> i = j"
    using ok(2) unfolding runners_ok_def lanes_ok_def by blast
  ultimately show ?thesis using ok unfolding tasks_ok_def runners_ok_def by blast
qed


text \<open>
  C26. From every reachable state the tasks can all be brought to their end: none waits for a lane
  that is never given back, and no transfer stays queued or running without a task.
\<close>

theorem transfers_can_end:
  assumes "transfer_start p0" "transfer_steps p0 p"
  shows "\<exists>p'. transfer_steps p p' \<and> tp_runners p' = Map.empty \<and> list_all (\<lambda>t. \<not> active_transfer t) (st_transfers (tp_store p'))"
proof -
  from transfers_reachable_ok assms have ok: "tasks_ok p" "runners_ok p" by blast+
  from all_runners_end [OF this] obtain p' where p': "transfer_steps p p'" "tp_runners p' = Map.empty" by blast
  have "tasks_ok p'" using steps_ok p'(1) ok by blast
  then have "list_all (\<lambda>t. \<not> active_transfer t) (st_transfers (tp_store p'))"
    by (simp add: tasks_ok_def task_ok_def p'(2) list_all_iff)
  with p' show ?thesis by blast
qed

section \<open>A queued and a cancelled transfer\<close>

definition ex_process :: "unit transfer_process" where
  "ex_process = \<lparr>tp_store = default_store\<lparr>st_profiles := [ex_transfer_profile]\<rparr>, tp_runtimes = \<lambda>_. Map.empty,
     tp_cancellations = {}, tp_cancelled = {}, tp_bindings = Map.empty, tp_staging = Map.empty, tp_slots = 5000,
     tp_lanes = Map.empty, tp_next_lane = 0, tp_runners = Map.empty\<rparr>"

definition ex_queued :: "unit transfer_process" where
  "ex_queued = fst (queue_transfer calm_env [7] (ex_transfer (str ''/d/a'')) None None (Inr ()) ex_process)"

definition ex_cancelled :: "unit transfer_process" where
  "ex_cancelled = fst (cancel_transfer_inner_with_validation calm_env (Inr ()) [7] ex_queued)"

lemma ex_process_start: "transfer_start ex_process"
  by (simp add: transfer_start_def ex_process_def default_store_def)

lemma ex_queue_mutation:
  "\<exists>st ids. queue_mutation calm_env (new_transfer_task [7] (ex_transfer (str ''/d/a''))) (ex_transfer (str ''/d/a''))
     (tp_store ex_process) = (st, Inr ((), ids)) \<and> st_transfers st = [new_transfer_task [7] (ex_transfer (str ''/d/a''))]"
proof -
  let ?rq = "ex_transfer (str ''/d/a'')" and ?t = "new_transfer_task [7] (ex_transfer (str ''/d/a''))"
  obtain st ids where r: "recorded_event calm_env [1] (str ''PortMate: transfer queued ('' @ protocol_debug (str_protocol ?rq) @ str '', '' @
      transfer_route_label (str_source ?rq) (str_destination ?rq) @ str '')'') (record_transfer ?t (tp_store ex_process)) = (st, ids)"
    by (metis prod.exhaust)
  have s: "str_session_id ?rq = [1]" by (simp add: ex_transfer_def)
  have known: "ensure_transfer_profile_exists (tp_store ex_process) [1] = Inr ()"
    by (simp add: ensure_transfer_profile_exists_def ensure_def store_profile_def ex_process_def ex_transfer_profile_def)
  have room: "ensure_transfer_queue_capacity (tp_store ex_process) [1] 1 = Inr ()"
    by (simp add: ensure_transfer_queue_capacity_def ex_process_def default_store_def count_if_def)
  have m: "queue_mutation calm_env ?t ?rq (tp_store ex_process) = (st, Inr ((), ids))"
    unfolding queue_mutation_def s Let_def known room using r by (simp add: calm_env_def)
  from queue_mutation_cases [OF m] have "st_transfers st = trim_transfers (tft_session_id ?t) [?t]"
    by (simp add: ex_process_def default_store_def)
  then have "st_transfers st = [?t]"
    by (simp add: trim_transfers_def Let_def)
  then show ?thesis using m by blast
qed

lemma ex_queued_facts:
  "st_transfers (tp_store ex_queued) = [new_transfer_task [7] (ex_transfer (str ''/d/a''))]"
  "tp_runners ex_queued [7] = Some \<lparr>rn_request = ex_transfer (str ''/d/a''), rn_lane = 0, rn_holds_lane = False, rn_ssh = None, rn_phase = Waiting\<rparr>"
  "tp_cancellations ex_queued = {[7]}"
proof -
  obtain st ids where m: "queue_mutation calm_env (new_transfer_task [7] (ex_transfer (str ''/d/a''))) (ex_transfer (str ''/d/a''))
      (tp_store ex_process) = (st, Inr ((), ids))" "st_transfers st = [new_transfer_task [7] (ex_transfer (str ''/d/a''))]"
    using ex_queue_mutation by blast
  have c: "commit_tracked_store_mutation_with (queue_mutation calm_env (new_transfer_task [7] (ex_transfer (str ''/d/a''))) (ex_transfer (str ''/d/a'')))
      (te_persist calm_env) (te_verify calm_env) (tp_store ex_process) = (st, Inr ())"
    unfolding commit_tracked_store_mutation_with_def m by (simp add: save_outcome_def calm_env_def)
  have lane: "transfer_lane ex_process s = (ex_process\<lparr>tp_lanes := Map.empty(s \<mapsto> 0), tp_next_lane := 1\<rparr>, 0)" for s
    by (simp add: transfer_lane_def ex_process_def)
  have q: "ex_queued = (let p = ex_process\<lparr>tp_lanes := Map.empty(str_session_id (ex_transfer (str ''/d/a'')) \<mapsto> 0), tp_next_lane := 1,
        tp_cancellations := {[7]}, tp_cancelled := {}, tp_bindings := Map.empty\<rparr>
      in p\<lparr>tp_store := st, tp_slots := 4999, tp_runners := Map.empty([7] \<mapsto>
        \<lparr>rn_request = ex_transfer (str ''/d/a''), rn_lane = 0, rn_holds_lane = False, rn_ssh = None, rn_phase = Waiting\<rparr>)\<rparr>)"
    unfolding ex_queued_def queue_transfer_def lane Let_def using c by (simp add: ex_process_def)
  show "st_transfers (tp_store ex_queued) = [new_transfer_task [7] (ex_transfer (str ''/d/a''))]"
    "tp_runners ex_queued [7] = Some \<lparr>rn_request = ex_transfer (str ''/d/a''), rn_lane = 0, rn_holds_lane = False, rn_ssh = None, rn_phase = Waiting\<rparr>"
    "tp_cancellations ex_queued = {[7]}"
    unfolding q Let_def by (simp_all add: m(2))
qed

lemma ex_queued_steps: "transfer_steps ex_process ex_queued"
proof -
  have "queue_transfer calm_env [7] (ex_transfer (str ''/d/a'')) None None (Inr ()) ex_process = (ex_queued, snd
      (queue_transfer calm_env [7] (ex_transfer (str ''/d/a'')) None None (Inr ()) ex_process))"
    by (simp add: ex_queued_def)
  then have "transfer_step ex_process ex_queued"
    by (rule transfer_step.step_queue) (simp_all add: ex_process_def default_store_def)
  then show ?thesis ..
qed

lemma ex_cancelled_step: "transfer_step ex_queued ex_cancelled"
proof -
  have "cancel_transfer_inner_with_validation calm_env (Inr ()) [7] ex_queued = (ex_cancelled, snd
      (cancel_transfer_inner_with_validation calm_env (Inr ()) [7] ex_queued))"
    by (simp add: ex_cancelled_def)
  then show ?thesis by (rule transfer_step.step_cancel)
qed

lemma ex_cancelled_facts:
  "\<exists>t. st_transfers (tp_store ex_cancelled) = [t] \<and> tft_id t = [7] \<and> tft_status t = Cancelled"
  "tp_runners ex_cancelled = tp_runners ex_queued" "[7] \<in> tp_cancelled ex_cancelled"
proof -
  let ?t = "new_transfer_task [7] (ex_transfer (str ''/d/a''))"
  have t: "transfer_by_id (tp_store ex_queued) [7] = Some ?t" "active_transfer ?t" "tft_id ?t = [7]"
    by (simp_all add: transfer_by_id_def ex_queued_facts new_transfer_task_def active_transfer_def transfer_task_is_active_def)
  have one: "trim_transfers s [u] = [u]" for s u by (simp add: trim_transfers_def Let_def)
  show "\<exists>t. st_transfers (tp_store ex_cancelled) = [t] \<and> tft_id t = [7] \<and> tft_status t = Cancelled"
    using t by (simp add: ex_cancelled_def cancel_transfer_inner_with_validation_def ok_or_def Let_def ex_queued_facts one with_average_def)
  show "tp_runners ex_cancelled = tp_runners ex_queued" "[7] \<in> tp_cancelled ex_cancelled"
    using t by (simp_all add: ex_cancelled_def cancel_transfer_inner_with_validation_def ok_or_def Let_def ex_queued_facts)
qed

theorem active_transfers_have_runners_witness:
  "\<exists>t \<in> set (st_transfers (tp_store ex_queued)). active_transfer t \<and> (\<exists>r. tp_runners ex_queued (tft_id t) = Some r)"
proof -
  have "new_transfer_task [7] (ex_transfer (str ''/d/a'')) \<in> set (st_transfers (tp_store ex_queued))"
    by (simp add: ex_queued_facts)
  moreover have "active_transfer (new_transfer_task [7] (ex_transfer (str ''/d/a'')))"
    by (simp add: new_transfer_task_def active_transfer_def transfer_task_is_active_def)
  ultimately show ?thesis
    using active_transfers_have_runners [OF ex_process_start ex_queued_steps] by blast
qed


theorem transfers_can_end_witness:
  "\<exists>p'. transfer_steps ex_queued p' \<and> tp_runners p' = Map.empty"
  using transfers_can_end [OF ex_process_start ex_queued_steps] by blast

end
