(* ===== verification/Mcp_Requests.thy ===== *)
theory Mcp_Requests
  imports Transfer_Request Tunnel_Store Mcp_Http Scripts
begin

text \<open>
  The requests an MCP client sends to the desktop process (\<open>mcp_request_validation.rs\<close> of
  \<open>src-tauri\<close>, with \<open>host_script_for_client\<close>): which scope a command needs, which session it is
  about, what its arguments must be like, what the user is shown before it runs, and what must
  still hold when it does. Arguments are JSON values; reading them into request types is generated
  by \<open>serde\<close>. That, Base64 and the metadata of uploaded files are the arguments \<open>io\<close>.
\<close>

abbreviation (input) MAX_MCP_TERMINAL_TEXT_BYTES :: nat where "MAX_MCP_TERMINAL_TEXT_BYTES \<equiv> 65536"
abbreviation (input) MAX_MCP_TUNNEL_EXCHANGE_BYTES :: nat where "MAX_MCP_TUNNEL_EXCHANGE_BYTES \<equiv> 4194304"
abbreviation (input) MAX_MCP_TUNNEL_EXCHANGE_BASE64_LENGTH :: nat where "MAX_MCP_TUNNEL_EXCHANGE_BASE64_LENGTH \<equiv> 5592408"
abbreviation (input) MAX_MCP_TUNNEL_EXCHANGE_TIMEOUT_MS :: u64 where "MAX_MCP_TUNNEL_EXCHANGE_TIMEOUT_MS \<equiv> 30000"
abbreviation (input) MAX_MCP_UDP_DATAGRAM_BYTES :: nat where "MAX_MCP_UDP_DATAGRAM_BYTES \<equiv> 65507"
abbreviation (input) MAX_MCP_UDP_DATAGRAM_BASE64_LENGTH :: nat where "MAX_MCP_UDP_DATAGRAM_BASE64_LENGTH \<equiv> 87344"

record IpcRequest =
  ipc_client_id :: ustr
  ipc_trusted_write :: bool
  ipc_command :: ustr
  ipc_args :: json

record McpTunnelExchangeRequest =
  mtx_tunnel_id :: ustr
  mtx_encoding :: ustr
  mtx_data :: ustr
  mtx_target_host :: "ustr option"
  mtx_target_port :: "u16 option"
  mtx_timeout_ms :: "u64 option"
  mtx_max_response_bytes :: "nat option"
  mtx_close_write :: bool

record McpUdpExchangeRequest =
  mux_tunnel_id :: ustr
  mux_encoding :: ustr
  mux_data :: ustr
  mux_target_host :: "ustr option"
  mux_target_port :: "u16 option"
  mux_timeout_ms :: "u64 option"

datatype NormalizedMcpStartTransferRequest =
    PathTransfer StartTransferRequest
  | InlineTransfer StartMcpContentTransferRequest
  | UploadTransfer ustr

datatype IpcError =
    UnsupportedCommand ustr | MissingArgument ustr | NotAnObject | Undecodable ustr
  | BadControl ControlError | BadTunnel TunnelRequestError | BadTransfer TransferRequestError
  | BadSource SourceError | BadDestination TftpError | BadScript ScriptError | UploadUnavailable ustr
  | TerminalTextLength ustr | BadEncoding | EncodedLength | DecodedLength | NotBase64 | OddHexDigits | NotHexDigit
  | BadTimeout | BadResponseLimit | BadTargetPort | BadTargetHost | BadOperationId ustr
  | RouteNotFound | DynamicNeedsTarget | FixedHasTarget | TargetDenied | TunnelReplaced | TargetChanged
  | UnknownScript | ScriptNotExposed | ScriptArguments | ScriptChanged | NotSerial | NotShell
  | UnknownIpcSession ustr | UnknownTransfer | UnknownTunnel | StagedRetry | NeedsHostFiles | GrantChanged
  | ReadNotPermitted | CommitFailed ustr | AuditMissing | WriteDenied | UserDenied | ApprovalTimedOut

record ('net, 'ip) ipc_ops =
  io_net :: "('net, 'ip) net_ops"
  io_addresses :: "'ip address_ops"
  io_url :: url_ops
  io_clock_fits :: "u64 \<Rightarrow> bool"
  io_rx :: regexes
  io_uuid_ok :: "ustr \<Rightarrow> bool"
  io_js :: "json json_ops"
  io_base64 :: "ustr \<Rightarrow> u8 list option"
  io_as_u64 :: "json \<Rightarrow> u64 option"
  io_tunnel_exchange :: "json \<Rightarrow> McpTunnelExchangeRequest option"
  io_udp_exchange :: "json \<Rightarrow> McpUdpExchangeRequest option"
  io_mcp_tunnel :: "json \<Rightarrow> CreateMcpTunnelRequest option"
  io_path_transfer :: "json \<Rightarrow> StartTransferRequest option"
  io_inline_transfer :: "json \<Rightarrow> StartMcpContentTransferRequest option"
  io_upload_transfer :: "json \<Rightarrow> ustr option"
  io_virtual_source :: "json \<Rightarrow> (ustr \<times> ustr) option"
  io_protocol :: "json \<Rightarrow> TransferProtocol option"
  io_destination :: "json \<Rightarrow> McpTransferDestination option"
  io_upload :: "ustr \<Rightarrow> ustr \<Rightarrow> ustr + McpContentUploadMetadata"  \<comment> \<open>client, upload\<close>
  io_staged :: "ustr \<Rightarrow> bool"                                       \<comment> \<open>the source is a staged file\<close>

text \<open>The part of the desktop process the requests look at.\<close>

record 'vt desktop =
  dk_store :: "'vt SessionStore"
  dk_tunnels :: tunnel_registry

section \<open>Arguments\<close>

definition json_str :: "json \<Rightarrow> ustr \<Rightarrow> ustr option" where
  "json_str v key = (case json_get v key of Some (JString s) \<Rightarrow> Some s | _ \<Rightarrow> None)"

fun json_members :: "json \<Rightarrow> (ustr \<times> json) list option" where
  "json_members (JObject members) = Some members"
| "json_members _ = None"

definition ipc_string_arg :: "json \<Rightarrow> ustr \<Rightarrow> IpcError + ustr" where
  "ipc_string_arg v key = ok_or (MissingArgument key) (json_str v key)"

definition bounded_mcp_terminal_text_arg :: "json \<Rightarrow> ustr \<Rightarrow> IpcError + ustr" where
  "bounded_mcp_terminal_text_arg v key =
     and_then (ipc_string_arg v key) (\<lambda>t.
       if t = [] \<or> MAX_MCP_TERMINAL_TEXT_BYTES < byte_len t then Inl (TerminalTextLength key) else Inr t)"

definition validate_mcp_operation_id :: "ustr \<Rightarrow> ustr \<Rightarrow> IpcError + unit" where
  "validate_mcp_operation_id v label = ensure (printable_id 128 v) (BadOperationId label)"

section \<open>Payloads\<close>

definition is_ascii_whitespace :: "uchar \<Rightarrow> bool" where
  "is_ascii_whitespace c \<longleftrightarrow> c = 32 \<or> c = 9 \<or> c = 10 \<or> c = 12 \<or> c = 13"

definition hex_nibble :: "nat \<Rightarrow> u8 option" where
  "hex_nibble b =
     (if 48 \<le> b \<and> b \<le> 57 then Some (of_nat (b - 48))
      else if 97 \<le> b \<and> b \<le> 102 then Some (of_nat (b - 97 + 10))
      else if 65 \<le> b \<and> b \<le> 70 then Some (of_nat (b - 65 + 10)) else None)"

fun hex_pairs :: "nat list \<Rightarrow> IpcError + u8 list" where
  "hex_pairs (a # b # rest) =
     and_then (ok_or NotHexDigit (hex_nibble a)) (\<lambda>high.
     and_then (ok_or NotHexDigit (hex_nibble b)) (\<lambda>low.
     and_then (hex_pairs rest) (\<lambda>bytes. Inr ((push_bit 4 high OR low) # bytes))))"
| "hex_pairs _ = Inr []"

definition decode_mcp_hex :: "ustr \<Rightarrow> IpcError + u8 list" where
  "decode_mcp_hex data =
     (let compact = filter (\<lambda>c. \<not> is_ascii_whitespace c) data
      in if byte_len compact mod 2 \<noteq> 0 then Inl OddHexDigits else hex_pairs (utf8_bytes compact))"

text \<open>The three payload decoders differ in their limits.\<close>

definition decode_payload ::
  "(ustr \<Rightarrow> u8 list option) \<Rightarrow> nat \<Rightarrow> nat \<Rightarrow> ustr \<Rightarrow> ustr \<Rightarrow> IpcError + u8 list" where
  "decode_payload base64 max_encoded max_decoded encoding data =
     (if data = [] \<or> max_encoded < byte_len data then Inl EncodedLength
      else and_then (if encoding = str ''base64''
                     then ok_or NotBase64 (base64 (filter (\<lambda>c. \<not> is_ascii_whitespace c) data))
                     else if encoding = str ''hex'' then decode_mcp_hex data
                     else Inl BadEncoding) (\<lambda>decoded.
        if decoded = [] \<or> max_decoded < length decoded then Inl DecodedLength else Inr decoded))"

definition decode_mcp_direct_bytes :: "('net, 'ip) ipc_ops \<Rightarrow> json \<Rightarrow> IpcError + u8 list" where
  "decode_mcp_direct_bytes io v =
     and_then (ok_or NotAnObject (json_members v)) (\<lambda>_.
     and_then (ok_or BadEncoding (json_str v (str ''encoding''))) (\<lambda>encoding.
     and_then (ok_or (MissingArgument (str ''data'')) (json_str v (str ''data''))) (\<lambda>data.
       decode_payload (io_base64 io) MAX_MCP_CONTENT_TRANSFER_BASE64_LENGTH MAX_MCP_CONTENT_TRANSFER_BYTES
         encoding data)))"

definition decode_mcp_tunnel_exchange_payload :: "('net, 'ip) ipc_ops \<Rightarrow> ustr \<Rightarrow> ustr \<Rightarrow> IpcError + u8 list" where
  "decode_mcp_tunnel_exchange_payload io encoding data =
     decode_payload (io_base64 io) MAX_MCP_TUNNEL_EXCHANGE_BASE64_LENGTH MAX_MCP_TUNNEL_EXCHANGE_BYTES encoding data"

definition decode_mcp_udp_datagram_payload :: "('net, 'ip) ipc_ops \<Rightarrow> ustr \<Rightarrow> ustr \<Rightarrow> IpcError + u8 list" where
  "decode_mcp_udp_datagram_payload io encoding data =
     decode_payload (io_base64 io) MAX_MCP_UDP_DATAGRAM_BASE64_LENGTH MAX_MCP_UDP_DATAGRAM_BYTES encoding data"

section \<open>Requests through a tunnel\<close>

definition exchange_timeout_ok :: "u64 option \<Rightarrow> bool" where
  "exchange_timeout_ok timeout_ms =
     (case timeout_ms of None \<Rightarrow> True | Some t \<Rightarrow> 100 \<le> t \<and> t \<le> MAX_MCP_TUNNEL_EXCHANGE_TIMEOUT_MS)"

definition exchange_host_ok :: "ustr option \<Rightarrow> bool" where
  "exchange_host_ok target_host =
     (case target_host of None \<Rightarrow> True
      | Some host \<Rightarrow> trim host \<noteq> [] \<and> byte_len host \<le> MAX_TUNNEL_HOST_CHARACTERS \<and>
          \<not> list_ex (\<lambda>c. is_control c \<or> is_whitespace c) host)"

definition validate_mcp_tunnel_exchange_request ::
  "('net, 'ip) ipc_ops \<Rightarrow> McpTunnelExchangeRequest \<Rightarrow> IpcError + unit" where
  "validate_mcp_tunnel_exchange_request io r =
     and_then (validate_mcp_operation_id (mtx_tunnel_id r) (str ''tunnel'')) (\<lambda>_.
     and_then (decode_mcp_tunnel_exchange_payload io (mtx_encoding r) (mtx_data r)) (\<lambda>_.
     and_then (ensure (exchange_timeout_ok (mtx_timeout_ms r)) BadTimeout) (\<lambda>_.
     and_then (ensure (case mtx_max_response_bytes r of None \<Rightarrow> True
                       | Some n \<Rightarrow> n \<noteq> 0 \<and> n \<le> MAX_MCP_TUNNEL_EXCHANGE_BYTES) BadResponseLimit) (\<lambda>_.
     and_then (ensure (mtx_target_port r \<noteq> Some 0) BadTargetPort) (\<lambda>_.
       ensure (exchange_host_ok (mtx_target_host r)) BadTargetHost)))))"

definition validate_mcp_udp_exchange_request ::
  "('net, 'ip) ipc_ops \<Rightarrow> McpUdpExchangeRequest \<Rightarrow> IpcError + unit" where
  "validate_mcp_udp_exchange_request io r =
     and_then (validate_mcp_operation_id (mux_tunnel_id r) (str ''tunnel'')) (\<lambda>_.
     and_then (decode_mcp_udp_datagram_payload io (mux_encoding r) (mux_data r)) (\<lambda>_.
     and_then (ensure (exchange_timeout_ok (mux_timeout_ms r)) BadTimeout) (\<lambda>_.
     and_then (ensure (mux_target_port r \<noteq> Some 0) BadTargetPort) (\<lambda>_.
       ensure (exchange_host_ok (mux_target_host r)) BadTargetHost))))"

text \<open>A running route on the desktop host that belongs to the client.\<close>

definition owned_host_route :: "tunnel_registry \<Rightarrow> ustr \<Rightarrow> ustr \<Rightarrow> TunnelRuntime option" where
  "owned_host_route tunnels owner_id tunnel_id =
     Option.bind (tunnels tunnel_id) (\<lambda>runtime.
       if trt_session_id runtime = owner_id \<and> tn_egress (trt_spec runtime) = PortmateHost \<and> \<not> trt_closed runtime
       then Some runtime else None)"

text \<open>The common end of validating \<open>tunnel_request\<close> and \<open>udp_request\<close>.\<close>

definition validate_exchange_target ::
  "('net, 'ip) ipc_ops \<Rightarrow> 'vt desktop \<Rightarrow> ustr \<Rightarrow> ustr \<Rightarrow> ustr option \<Rightarrow> u16 option \<Rightarrow> IpcError + unit" where
  "validate_exchange_target io dk client_id tunnel_id target_host target_port =
     and_then (map_err BadControl (mcp_host_route_owner_id client_id)) (\<lambda>owner_id.
     and_then (ok_or RouteNotFound (owned_host_route (dk_tunnels dk) owner_id tunnel_id)) (\<lambda>runtime.
       if tn_mode (trt_spec runtime) = TunDynamic then
         and_then (ok_or DynamicNeedsTarget target_host) (\<lambda>host.
         and_then (ok_or DynamicNeedsTarget target_port) (\<lambda>port.
           ensure (tunnel_route_allowed (io_net io) (tn_route_rules (trt_spec runtime)) host port) TargetDenied))
       else ensure (target_host = None \<and> target_port = None) FixedHasTarget))"

section \<open>Transfers\<close>

definition normalize_mcp_virtual_content_source ::
  "('net, 'ip) ipc_ops \<Rightarrow> json \<Rightarrow> IpcError + StartMcpContentTransferRequest" where
  "normalize_mcp_virtual_content_source io v =
     and_then (ok_or NotAnObject (json_members v)) (\<lambda>_.
     and_then (ok_or (MissingArgument (str ''source'')) (json_get v (str ''source''))) (\<lambda>source.
     and_then (ok_or (Undecodable (str ''source'')) (io_virtual_source io source)) (\<lambda>(file_name, content_base64).
     and_then (ok_or (MissingArgument (str ''sessionId'')) (json_str v (str ''sessionId''))) (\<lambda>session_id.
     and_then (ok_or (MissingArgument (str ''protocol'')) (json_get v (str ''protocol''))) (\<lambda>protocol.
     and_then (ok_or (Undecodable (str ''protocol'')) (io_protocol io protocol)) (\<lambda>protocol.
     and_then (ok_or (MissingArgument (str ''destination'')) (json_get v (str ''destination''))) (\<lambda>destination.
     and_then (ok_or (Undecodable (str ''destination'')) (io_destination io destination)) (\<lambda>destination.
     and_then (map_err BadDestination (normalize_destination (io_url io) (io_clock_fits io) protocol destination)) (\<lambda>destination.
       Inr \<lparr>mct_session_id = session_id, mct_protocol = protocol, mct_file_name = file_name,
            mct_content_base64 = content_base64, mct_destination = destination\<rparr>)))))))))"

text \<open>The member is removed and inserted again; the order of the members is not looked at.\<close>

definition normalize_mcp_start_transfer_destination :: "('net, 'ip) ipc_ops \<Rightarrow> json \<Rightarrow> IpcError + json" where
  "normalize_mcp_start_transfer_destination io v =
     and_then (ok_or NotAnObject (json_members v)) (\<lambda>members.
     and_then (ok_or (MissingArgument (str ''protocol'')) (map_of members (str ''protocol''))) (\<lambda>protocol.
     and_then (ok_or (Undecodable (str ''protocol'')) (io_protocol io protocol)) (\<lambda>protocol.
     and_then (ok_or (MissingArgument (str ''destination'')) (map_of members (str ''destination''))) (\<lambda>destination.
     and_then (ok_or (Undecodable (str ''destination'')) (io_destination io destination)) (\<lambda>destination.
     and_then (map_err BadDestination (normalize_destination (io_url io) (io_clock_fits io) protocol destination)) (\<lambda>destination.
       Inr (JObject (filter (\<lambda>(key, _). key \<noteq> str ''destination'') members @
                     [(str ''destination'', JString destination)]))))))))"

fun json_is_object :: "json \<Rightarrow> bool" where
  "json_is_object (JObject _) = True"
| "json_is_object _ = False"

definition normalize_mcp_start_transfer_args ::
  "('net, 'ip) ipc_ops \<Rightarrow> json \<Rightarrow> IpcError + NormalizedMcpStartTransferRequest" where
  "normalize_mcp_start_transfer_args io v =
     and_then (ok_or NotAnObject (json_members v)) (\<lambda>members.
     and_then (map_err BadSource (classify_mcp_start_transfer_source (fst ` set members))) (\<lambda>source_mode.
       case source_mode of
         SrcSource \<Rightarrow>
           if (case json_get v (str ''source'') of None \<Rightarrow> False | Some source \<Rightarrow> json_is_object source)
           then and_then (normalize_mcp_virtual_content_source io v) (\<lambda>r. Inr (InlineTransfer r))
           else and_then (normalize_mcp_start_transfer_destination io v) (\<lambda>normalized.
                and_then (ok_or (Undecodable (str ''path transfer'')) (io_path_transfer io normalized)) (\<lambda>r.
                  Inr (PathTransfer r)))
       | SrcInline \<Rightarrow>
           and_then (normalize_mcp_start_transfer_destination io v) (\<lambda>normalized.
           and_then (ok_or (Undecodable (str ''inline transfer'')) (io_inline_transfer io normalized)) (\<lambda>r.
             Inr (InlineTransfer r)))
       | SrcUpload \<Rightarrow>
           and_then (ok_or (Undecodable (str ''uploaded transfer'')) (io_upload_transfer io v)) (\<lambda>r.
             Inr (UploadTransfer r))))"

definition load_upload :: "('net, 'ip) ipc_ops \<Rightarrow> ustr \<Rightarrow> ustr \<Rightarrow> IpcError + McpContentUploadMetadata" where
  "load_upload io client_id upload_id = map_err UploadUnavailable (io_upload io client_id upload_id)"

definition require_mcp_host_file_scope ::
  "time \<Rightarrow> 'vt desktop \<Rightarrow> IpcRequest \<Rightarrow> StartTransferRequest \<Rightarrow> IpcError + unit" where
  "require_mcp_host_file_scope now dk request transfer =
     (if \<not> mcp_transfer_uses_host_path transfer then Inr ()
      else ensure (mcp_can now (dk_store dk) (trim (ipc_client_id request)) HostFiles
                     (Some (str_session_id transfer))) NeedsHostFiles)"

section \<open>Commands\<close>

definition is_command :: "ustr \<Rightarrow> string list \<Rightarrow> bool" where
  "is_command command names \<longleftrightarrow> command \<in> set (map str names)"

definition ipc_write_scope :: "ustr \<Rightarrow> McpScope option" where
  "ipc_write_scope command =
     (if is_command command [''send_text'', ''send_key'', ''send_bytes'', ''serial_send_break'', ''run_command'',
                             ''run_local_command'', ''attach_tmux''] then Some WriteInput
      else if is_command command [''start_transfer'', ''cancel_transfer'', ''retry_transfer''] then Some ScopeTransfer
      else if is_command command [''create_tunnel'', ''stop_tunnel'', ''tunnel_request'', ''udp_request''] then Some ScopeTunnel
      else if is_command command [''run_custom_script''] then Some RunScripts
      else if is_command command [''restart_mcp_http''] then Some ManageMcp
      else None)"

definition ipc_read_scope :: "ustr \<Rightarrow> McpScope option" where
  "ipc_read_scope command =
     (if is_command command [''list_sessions''] then Some ReadSessions
      else if is_command command [''read_screen'', ''tail_log'', ''search_logs'', ''list_tmux_state'',
                                  ''export_session_bundle''] then Some ReadLogs
      else if is_command command [''list_transfers'', ''get_transfer''] then Some ReadTransfers
      else if is_command command [''list_tunnels''] then Some ReadTunnels
      else if is_command command [''list_custom_scripts''] then Some ReadScripts
      else if is_command command [''mcp_http_runtime_status''] then Some ReadMcp
      else None)"

definition host_script_for_client ::
  "('net, 'ip) ipc_ops \<Rightarrow> 'vt SessionStore \<Rightarrow> ustr \<Rightarrow> ustr option \<Rightarrow> IpcError + CustomScript" where
  "host_script_for_client io st i client =
     and_then (ok_or UnknownScript (List.find (\<lambda>s. cs_id s = i) (st_custom_scripts st))) (\<lambda>script.
     and_then (map_err BadScript (validate_custom_script (io_uuid_ok io) script)) (\<lambda>_.
       if (case client of None \<Rightarrow> False | Some c \<Rightarrow> \<not> allows_host_client script c) then Inl ScriptNotExposed
       else Inr script))"

definition ensure_shell_profile :: "'vt desktop \<Rightarrow> ustr \<Rightarrow> IpcError + unit" where
  "ensure_shell_profile dk session_id =
     (case store_profile (dk_store dk) session_id of
        None \<Rightarrow> Inl (UnknownIpcSession session_id)
      | Some profile \<Rightarrow> (case prof_connection profile of ConnShell _ \<Rightarrow> Inr () | _ \<Rightarrow> Inl NotShell))"

definition ensure_serial_profile :: "'vt desktop \<Rightarrow> ustr \<Rightarrow> IpcError + unit" where
  "ensure_serial_profile dk session_id =
     (case store_profile (dk_store dk) session_id of
        None \<Rightarrow> Inl (UnknownIpcSession session_id)
      | Some profile \<Rightarrow> (case prof_connection profile of ConnSerial _ \<Rightarrow> Inr () | _ \<Rightarrow> Inl NotSerial))"

text \<open>\<open>validate_ipc_write_args\<close> for the transfers.\<close>

definition validate_start_transfer ::
  "('net, 'ip) ipc_ops \<Rightarrow> time \<Rightarrow> 'vt desktop \<Rightarrow> IpcRequest \<Rightarrow> IpcError + unit" where
  "validate_start_transfer io now dk request =
     and_then (normalize_mcp_start_transfer_args io (ipc_args request)) (\<lambda>r.
       case r of
         PathTransfer transfer \<Rightarrow>
           and_then (map_err BadTransfer (validate_mcp_transfer_route (io_url io) (io_clock_fits io) transfer)) (\<lambda>_.
             require_mcp_host_file_scope now dk request transfer)
       | InlineTransfer transfer \<Rightarrow>
           map_err BadTransfer (validate_mcp_content_transfer_request (io_url io) (io_clock_fits io) (io_base64 io) transfer)
       | UploadTransfer upload_id \<Rightarrow>
           and_then (load_upload io (ipc_client_id request) upload_id) (\<lambda>metadata.
             map_err BadTransfer (validate_mcp_uploaded_content_route (io_url io) (io_clock_fits io) metadata)))"

definition validate_retry_transfer ::
  "('net, 'ip) ipc_ops \<Rightarrow> time \<Rightarrow> 'vt desktop \<Rightarrow> IpcRequest \<Rightarrow> IpcError + unit" where
  "validate_retry_transfer io now dk request =
     and_then (ipc_string_arg (ipc_args request) (str ''transferId'')) (\<lambda>transfer_id.
     and_then (validate_mcp_operation_id transfer_id (str ''transfer'')) (\<lambda>_.
     and_then (ok_or UnknownTransfer (transfer_by_id (dk_store dk) transfer_id)) (\<lambda>task.
       let transfer = \<lparr>str_session_id = tft_session_id task, str_protocol = tft_protocol task,
                       str_source = tft_source task, str_destination = tft_destination task\<rparr>
       in and_then (map_err BadTransfer (validate_mcp_transfer_route (io_url io) (io_clock_fits io) transfer)) (\<lambda>_.
          and_then (ensure (\<not> io_staged io (str_source transfer)) StagedRetry) (\<lambda>_.
            require_mcp_host_file_scope now dk request transfer)))))"

definition validate_run_custom_script ::
  "('net, 'ip) ipc_ops \<Rightarrow> 'vt desktop \<Rightarrow> IpcRequest \<Rightarrow> IpcError + unit" where
  "validate_run_custom_script io dk request =
     and_then (ok_or ScriptArguments (json_members (ipc_args request))) (\<lambda>members.
     and_then (ensure (fst ` set members \<subseteq> {str ''scriptId'', str ''parameters''}) ScriptArguments) (\<lambda>_.
     and_then (ipc_string_arg (ipc_args request) (str ''scriptId'')) (\<lambda>script_id.
     and_then (host_script_for_client io (dk_store dk) script_id (Some (ipc_client_id request))) (\<lambda>script.
       map_err BadScript (validate_host_script_parameters (io_js io) (cs_host script)
         (case json_get (ipc_args request) (str ''parameters'') of None \<Rightarrow> JObject [] | Some p \<Rightarrow> p))))))"

definition validate_ipc_write_args ::
  "('net, 'ip) ipc_ops \<Rightarrow> time \<Rightarrow> 'vt desktop \<Rightarrow> IpcRequest \<Rightarrow> IpcError + unit" where
  "validate_ipc_write_args io now dk request =
     (let command = ipc_command request; v = ipc_args request
      in if command = str ''tunnel_request'' then
           and_then (ok_or (Undecodable command) (io_tunnel_exchange io v)) (\<lambda>r.
           and_then (validate_mcp_tunnel_exchange_request io r) (\<lambda>_.
             validate_exchange_target io dk (ipc_client_id request) (mtx_tunnel_id r) (mtx_target_host r) (mtx_target_port r)))
         else if command = str ''udp_request'' then
           and_then (ok_or (Undecodable command) (io_udp_exchange io v)) (\<lambda>r.
           and_then (validate_mcp_udp_exchange_request io r) (\<lambda>_.
             validate_exchange_target io dk (ipc_client_id request) (mux_tunnel_id r) (mux_target_host r) (mux_target_port r)))
         else if command = str ''send_text'' then and_then (bounded_mcp_terminal_text_arg v (str ''text'')) (\<lambda>_. Inr ())
         else if command = str ''send_key'' then and_then (ipc_string_arg v (str ''key'')) (\<lambda>_. Inr ())
         else if command = str ''send_bytes'' then and_then (decode_mcp_direct_bytes io v) (\<lambda>_. Inr ())
         else if command = str ''serial_send_break'' then
           and_then (ipc_string_arg v (str ''sessionId'')) (ensure_serial_profile dk)
         else if command = str ''run_command'' then and_then (bounded_mcp_terminal_text_arg v (str ''command'')) (\<lambda>_. Inr ())
         else if command = str ''run_local_command'' then
           and_then (ipc_string_arg v (str ''sessionId'')) (\<lambda>session_id.
           and_then (ensure_shell_profile dk session_id) (\<lambda>_.
           and_then (bounded_mcp_terminal_text_arg v (str ''command'')) (\<lambda>_. Inr ())))
         else if command = str ''run_custom_script'' then validate_run_custom_script io dk request
         else if command = str ''start_transfer'' then validate_start_transfer io now dk request
         else if command = str ''cancel_transfer'' then
           and_then (ipc_string_arg v (str ''transferId'')) (\<lambda>i. validate_mcp_operation_id i (str ''transfer''))
         else if command = str ''retry_transfer'' then validate_retry_transfer io now dk request
         else if command = str ''create_tunnel'' then
           and_then (ok_or (Undecodable command) (io_mcp_tunnel io v)) (\<lambda>r.
           and_then (map_err BadTunnel (normalize_mcp_tunnel_request (io_net io) (io_addresses io) r)) (\<lambda>_. Inr ()))
         else if command = str ''stop_tunnel'' then
           and_then (ipc_string_arg v (str ''tunnelId'')) (\<lambda>i. validate_mcp_operation_id i (str ''tunnel''))
         else if command = str ''attach_tmux'' then and_then (ipc_string_arg v (str ''target'')) (\<lambda>_. Inr ())
         else if command = str ''restart_mcp_http'' then Inr ()
         else Inl (UnsupportedCommand command))"

text \<open>The session a write command is about; \<open>None\<close> for the commands that act on the desktop host.\<close>

definition ipc_write_session_id ::
  "('net, 'ip) ipc_ops \<Rightarrow> 'vt desktop \<Rightarrow> IpcRequest \<Rightarrow> IpcError + ustr option" where
  "ipc_write_session_id io dk request =
     (let command = ipc_command request; v = ipc_args request
      in if is_command command [''tunnel_request'', ''udp_request''] then
           and_then (ipc_string_arg v (str ''tunnelId'')) (\<lambda>i.
           and_then (validate_mcp_operation_id i (str ''tunnel'')) (\<lambda>_. Inr None))
         else if is_command command [''restart_mcp_http'', ''run_custom_script''] then Inr None
         else if command = str ''create_tunnel'' then
           and_then (ok_or (Undecodable command) (io_mcp_tunnel io v)) (\<lambda>r.
           and_then (map_err BadTunnel (normalize_mcp_tunnel_request (io_net io) (io_addresses io) r)) (\<lambda>normalized.
             Inr (case normalized of SshTunnel tunnel \<Rightarrow> Some (ctr_session_id tunnel) | HostRoute _ \<Rightarrow> None)))
         else if command = str ''start_transfer'' then
           and_then (normalize_mcp_start_transfer_args io v) (\<lambda>r.
             case r of
               PathTransfer transfer \<Rightarrow> Inr (Some (str_session_id transfer))
             | InlineTransfer transfer \<Rightarrow> Inr (Some (mct_session_id transfer))
             | UploadTransfer upload_id \<Rightarrow>
                 and_then (load_upload io (ipc_client_id request) upload_id) (\<lambda>metadata. Inr (Some (mum_session_id metadata))))
         else if is_command command [''cancel_transfer'', ''retry_transfer''] then
           and_then (ipc_string_arg v (str ''transferId'')) (\<lambda>i.
           and_then (validate_mcp_operation_id i (str ''transfer'')) (\<lambda>_.
           and_then (ok_or UnknownTransfer (transfer_by_id (dk_store dk) i)) (\<lambda>task. Inr (Some (tft_session_id task)))))
         else if command = str ''stop_tunnel'' then
           and_then (ipc_string_arg v (str ''tunnelId'')) (\<lambda>i.
           and_then (validate_mcp_operation_id i (str ''tunnel'')) (\<lambda>_.
           and_then (ok_or UnknownTunnel (Option.bind (dk_tunnels dk i) (\<lambda>r. if \<not> trt_closed r then Some r else None))) (\<lambda>runtime.
             if tn_egress (trt_spec runtime) = PortmateHost then
               and_then (map_err BadControl (mcp_host_route_owner_id (ipc_client_id request))) (\<lambda>owner.
                 if trt_session_id runtime \<noteq> owner then Inl RouteNotFound else Inr None)
             else Inr (Some (trt_session_id runtime)))))
         else and_then (ipc_string_arg v (str ''sessionId'')) (\<lambda>session_id. Inr (Some session_id)))"

section \<open>What the user is shown\<close>

definition hex_lower :: "nat \<Rightarrow> uchar" where
  "hex_lower n = (if n < 10 then 48 + n else 87 + n)"

fun hex_str :: "nat \<Rightarrow> ustr" where
  "hex_str n = (if n < 16 then [hex_lower n] else hex_str (n div 16) @ [hex_lower (n mod 16)])"

text \<open>\<open>char::escape_default\<close> on a control character.\<close>

definition escape_control :: "uchar \<Rightarrow> ustr" where
  "escape_control c =
     (if c = 9 then [92, 116] else if c = 13 then [92, 114] else if c = 10 then [92, 110]
      else [92, 117, 123] @ hex_str c @ [125])"

definition render_char :: "uchar \<Rightarrow> ustr" where
  "render_char c = (if is_control c then escape_control c else [c])"

text \<open>The count is \<open>saturating_add\<close> on numbers far below the limit of \<open>usize\<close>.\<close>

fun bounded_loop :: "nat \<Rightarrow> nat \<Rightarrow> ustr \<Rightarrow> ustr" where
  "bounded_loop max_characters used [] = []"
| "bounded_loop max_characters used (c # cs) =
     (let rendered = render_char c; rendered_count = length rendered
      in if max_characters < used + rendered_count then str ''...''
         else rendered @ bounded_loop max_characters (used + rendered_count) cs)"

text \<open>\<open>None\<close> when the redaction does not return.\<close>

definition bounded_approval_value :: "regexes \<Rightarrow> ustr \<Rightarrow> nat \<Rightarrow> ustr option" where
  "bounded_approval_value rx v max_characters =
     map_option (bounded_loop max_characters 0) (redact_secrets rx v)"

definition bounded_approval_host :: "ustr \<Rightarrow> ustr" where
  "bounded_approval_host host = take 80 host @ (if 80 < length host then str ''...'' else [])"

section \<open>The context of a write\<close>

datatype McpWriteExecutionContext =
    CtxGeneric
  | CtxCustomScript ustr time McpApprovalTarget        \<comment> \<open>script, its version\<close>
  | CtxTunnel McpApprovalTarget
  | CtxTunnelExchange ustr ustr ustr McpApprovalTarget \<comment> \<open>tunnel, owner, runtime\<close>
  | CtxDescribed McpApprovalTarget

fun approval_target :: "McpWriteExecutionContext \<Rightarrow> McpApprovalTarget option" where
  "approval_target CtxGeneric = None"
| "approval_target (CtxCustomScript _ _ t) = Some t"
| "approval_target (CtxTunnel t) = Some t"
| "approval_target (CtxTunnelExchange _ _ _ t) = Some t"
| "approval_target (CtxDescribed t) = Some t"

fun custom_script_updated_at :: "McpWriteExecutionContext \<Rightarrow> ustr \<Rightarrow> IpcError + time" where
  "custom_script_updated_at (CtxCustomScript expected_id updated_at _) script_id =
     (if expected_id = script_id then Inr updated_at else Inl ScriptChanged)"
| "custom_script_updated_at _ script_id = Inl ScriptChanged"

definition target_shown :: "ustr \<Rightarrow> ustr \<Rightarrow> ustr \<Rightarrow> McpApprovalTarget" where
  "target_shown kind i label = \<lparr>apt_kind = kind, apt_id = i, apt_label = label\<rparr>"

text \<open>
  A result behind a redaction: \<open>None\<close> when a redaction does not return. \<open>shown\<close> continues with the
  bounded text of a value.
\<close>

definition shown ::
  "regexes \<Rightarrow> ustr \<Rightarrow> nat \<Rightarrow> (ustr \<Rightarrow> (IpcError + 'a) option) \<Rightarrow> (IpcError + 'a) option" where
  "shown rx v max_characters f = Option.bind (bounded_approval_value rx v max_characters) f"

definition and_shown :: "IpcError + 'a \<Rightarrow> ('a \<Rightarrow> (IpcError + 'b) option) \<Rightarrow> (IpcError + 'b) option" where
  "and_shown r f = (case r of Inl e \<Rightarrow> Some (Inl e) | Inr a \<Rightarrow> f a)"

definition mcp_transfer_approval_target ::
  "('net, 'ip) ipc_ops \<Rightarrow> IpcRequest \<Rightarrow> (IpcError + McpApprovalTarget) option" where
  "mcp_transfer_approval_target io request =
     and_shown (and_then (normalize_mcp_start_transfer_args io (ipc_args request)) (\<lambda>r.
         case r of
           PathTransfer transfer \<Rightarrow> Inr (str_source transfer, str_destination transfer)
         | InlineTransfer transfer \<Rightarrow> Inr (str ''MCP virtual file '' @ mct_file_name transfer, mct_destination transfer)
         | UploadTransfer upload_id \<Rightarrow>
             and_then (load_upload io (ipc_client_id request) upload_id) (\<lambda>m.
               Inr (str ''MCP upload '' @ mum_file_name m @ str '' ('' @ mum_upload_id m @ str '')'', mum_destination m))))
       (\<lambda>(source, destination).
          shown (io_rx io) source 180 (\<lambda>source. shown (io_rx io) destination 180 (\<lambda>destination.
            Some (Inr (target_shown (str ''transfer'') (source @ str '' -> '' @ destination)
                        (str ''Transfer '' @ source @ str '' to '' @ destination))))))"

text \<open>\<open>described_mcp_approval_target\<close>; the inner \<open>None\<close> says that the command has no description.\<close>

definition described_mcp_approval_target ::
  "('net, 'ip) ipc_ops \<Rightarrow> IpcRequest \<Rightarrow> (IpcError + McpApprovalTarget option) option" where
  "described_mcp_approval_target io request =
     (let command = ipc_command request; v = ipc_args request; rx = io_rx io
      in if command = str ''send_text'' then
           and_shown (bounded_mcp_terminal_text_arg v (str ''text'')) (\<lambda>t. shown rx t 220 (\<lambda>b.
             Some (Inr (Some (target_shown (str ''command'') (nat_str (byte_len t) @ str '' UTF-8 bytes'') (str ''Send text: '' @ b))))))
         else if is_command command [''run_command'', ''run_local_command''] then
           and_shown (bounded_mcp_terminal_text_arg v (str ''command'')) (\<lambda>t. shown rx t 220 (\<lambda>b.
             Some (Inr (Some (target_shown (str ''command'') (nat_str (byte_len t) @ str '' UTF-8 bytes'') (str ''Command: '' @ b))))))
         else if command = str ''send_bytes'' then
           and_shown (decode_mcp_direct_bytes io v) (\<lambda>bytes.
             let n = nat_str (length bytes)
             in Some (Inr (Some (target_shown (str ''command'') (n @ str '' bytes'') (str ''Send '' @ n @ str '' raw bytes'')))))
         else if command = str ''send_key'' then
           and_shown (ipc_string_arg v (str ''key'')) (\<lambda>key. shown rx key 120 (\<lambda>b.
             Some (Inr (Some (target_shown (str ''command'') b (str ''Send terminal key '' @ b))))))
         else if command = str ''start_transfer'' then
           map_option (\<lambda>r. and_then r (\<lambda>t. Inr (Some t))) (mcp_transfer_approval_target io request)
         else if is_command command [''cancel_transfer'', ''retry_transfer''] then
           and_shown (ipc_string_arg v (str ''transferId'')) (\<lambda>i. shown rx i 128 (\<lambda>b.
             Some (Inr (Some (target_shown (str ''operation'') b
               ((if command = str ''cancel_transfer'' then str ''Cancel'' else str ''Retry'') @ str '' transfer '' @ b))))))
         else if command = str ''attach_tmux'' then
           and_shown (ipc_string_arg v (str ''target'')) (\<lambda>i. shown rx i 128 (\<lambda>b. shown rx i 220 (\<lambda>l.
             Some (Inr (Some (target_shown (str ''operation'') b (str ''Attach Tmux target '' @ l)))))))
         else if command = str ''stop_tunnel'' then
           and_shown (ipc_string_arg v (str ''tunnelId'')) (\<lambda>i. shown rx i 128 (\<lambda>b. shown rx i 220 (\<lambda>l.
             Some (Inr (Some (target_shown (str ''operation'') b (str ''Stop tunnel '' @ l)))))))
         else Some (Inr None))"

definition capture_exchange_context ::
  "('net, 'ip) ipc_ops \<Rightarrow> 'vt desktop \<Rightarrow> IpcRequest \<Rightarrow> IpcError + McpWriteExecutionContext" where
  "capture_exchange_context io dk request =
     and_then (if ipc_command request = str ''tunnel_request'' then
                 and_then (ok_or (Undecodable (ipc_command request)) (io_tunnel_exchange io (ipc_args request))) (\<lambda>r.
                 and_then (validate_mcp_tunnel_exchange_request io r) (\<lambda>_.
                   Inr (mtx_tunnel_id r, mtx_target_host r, mtx_target_port r)))
               else
                 and_then (ok_or (Undecodable (ipc_command request)) (io_udp_exchange io (ipc_args request))) (\<lambda>r.
                 and_then (validate_mcp_udp_exchange_request io r) (\<lambda>_.
                   Inr (mux_tunnel_id r, mux_target_host r, mux_target_port r))))
       (\<lambda>(tunnel_id, target_host, target_port).
          and_then (map_err BadControl (mcp_host_route_owner_id (ipc_client_id request))) (\<lambda>owner_id.
          and_then (ok_or RouteNotFound (owned_host_route (dk_tunnels dk) owner_id tunnel_id)) (\<lambda>runtime.
            let spec = trt_spec runtime;
                target = (if tn_mode spec = TunDynamic
                          then host_port (case target_host of None \<Rightarrow> str ''<missing>'' | Some h \<Rightarrow> h)
                                 (case target_port of None \<Rightarrow> 0 | Some p \<Rightarrow> p)
                          else host_port (tn_target_host spec) (tn_target_port spec))
            in Inr (CtxTunnelExchange tunnel_id owner_id (trt_ssh_runtime_id runtime)
                 (target_shown (str ''portmate-host-tunnel-request'') (tn_id spec)
                    (str ''Request through PortMate host tunnel to '' @ target))))))"

definition approval_rule :: "TunnelRouteRule \<Rightarrow> ustr" where
  "approval_rule rule =
     (case rr_port rule of None \<Rightarrow> bounded_approval_host (rr_host rule)
      | Some port \<Rightarrow> host_port (bounded_approval_host (rr_host rule)) port)"

text \<open>A remote forward on the desktop host was refused before, so its label is never needed (\<open>unreachable!\<close>).\<close>

definition host_route_context :: "CreateHostRouteRequest \<Rightarrow> McpWriteExecutionContext" where
  "host_route_context route =
     (let rules = hrr_route_rules route;
          target = (if hrr_mode route = TunDynamic
                    then join_str (str '', '') (map approval_rule (take 2 rules)) @
                         (if 2 < length rules then str '' +'' @ nat_str (length rules - 2) @ str '' more'' else [])
                    else host_port (hrr_target_host route) (hrr_target_port route));
          proxy_kind = (case hrr_mode route of TunDynamic \<Rightarrow> str ''SOCKS5'' | _ \<Rightarrow> str ''TCP'')
      in CtxTunnel (target_shown (str ''portmate-host-proxy'') (host_port (hrr_bind_host route) (hrr_bind_port route))
           (str ''PortMate host '' @ proxy_kind @ str '' proxy to '' @ target @
            (if hrr_allow_remote_bind route then str '' (remote listener allowed)'' else []))))"

definition capture_mcp_write_execution_context ::
  "('net, 'ip) ipc_ops \<Rightarrow> 'vt desktop \<Rightarrow> IpcRequest \<Rightarrow> (IpcError + McpWriteExecutionContext) option" where
  "capture_mcp_write_execution_context io dk request =
     (let command = ipc_command request
      in if is_command command [''tunnel_request'', ''udp_request''] then Some (capture_exchange_context io dk request)
         else and_shown (if command = str ''create_tunnel'' then
                           and_then (ok_or (Undecodable command) (io_mcp_tunnel io (ipc_args request))) (\<lambda>r.
                           and_then (map_err BadTunnel (normalize_mcp_tunnel_request (io_net io) (io_addresses io) r)) (\<lambda>n.
                             Inr (case n of HostRoute route \<Rightarrow> Some route | SshTunnel _ \<Rightarrow> None)))
                         else Inr None) (\<lambda>host_route.
           case host_route of
             Some route \<Rightarrow> Some (Inr (host_route_context route))
           | None \<Rightarrow>
               Option.bind (described_mcp_approval_target io request) (\<lambda>described.
               and_shown described (\<lambda>target.
                 case target of
                   Some t \<Rightarrow> Some (Inr (CtxDescribed t))
                 | None \<Rightarrow>
                     if command \<noteq> str ''run_custom_script'' then Some (Inr CtxGeneric)
                     else and_shown (and_then (ipc_string_arg (ipc_args request) (str ''scriptId'')) (\<lambda>script_id.
                                       host_script_for_client io (dk_store dk) script_id (Some (ipc_client_id request)))) (\<lambda>script.
                       shown (io_rx io) (cs_name script) 110 (\<lambda>name.
                         Some (Inr (CtxCustomScript (cs_id script) (cs_updated_at script)
                           (target_shown (str ''portmate-host-script'') (cs_id script) (str ''PortMate host: '' @ name)))))))))) "

text \<open>What is checked again right before the write is executed.\<close>

definition revalidate_context ::
  "('net, 'ip) ipc_ops \<Rightarrow> 'vt desktop \<Rightarrow> IpcRequest \<Rightarrow> McpWriteExecutionContext \<Rightarrow> IpcError + unit" where
  "revalidate_context io dk request context =
     (case context of
        CtxTunnelExchange tunnel_id owner_id runtime_id _ \<Rightarrow>
          and_then (if \<not> is_command (ipc_command request) [''tunnel_request'', ''udp_request''] then Inl TargetChanged
                    else and_then (ipc_string_arg (ipc_args request) (str ''tunnelId'')) (\<lambda>i.
                           ensure (i = tunnel_id) TargetChanged)) (\<lambda>_.
          and_then (ok_or TunnelReplaced
              (Option.bind (owned_host_route (dk_tunnels dk) owner_id tunnel_id) (\<lambda>runtime.
                 if trt_ssh_runtime_id runtime = runtime_id then Some runtime else None))) (\<lambda>current.
            let target_host = json_str (ipc_args request) (str ''targetHost'');
                target_port = Option.bind (json_get (ipc_args request) (str ''targetPort'')) (io_as_u64 io)
            in if tn_mode (trt_spec current) = TunDynamic
               then ensure (target_host \<noteq> None \<and> target_port \<noteq> None) DynamicNeedsTarget
               else ensure (target_host = None \<and> target_port = None) FixedHasTarget))
      | CtxCustomScript script_id updated_at _ \<Rightarrow>
          and_then (ipc_string_arg (ipc_args request) (str ''scriptId'')) (\<lambda>current_script_id.
          and_then (ensure (current_script_id = script_id) TargetChanged) (\<lambda>_.
          and_then (host_script_for_client io (dk_store dk) script_id (Some (ipc_client_id request))) (\<lambda>script.
            ensure (cs_updated_at script = updated_at) ScriptChanged)))
      | _ \<Rightarrow> Inr ())"


section \<open>Hexadecimal payloads\<close>

lemma hex_nibble_lower: "hex_nibble (ascii_lower b) = hex_nibble b"
  by (auto simp add: hex_nibble_def ascii_lower_def is_ascii_upper_def)

lemma hex_nibble_exact:
  "hex_nibble b = Some v \<longleftrightarrow> unat v < 16 \<and> ascii_lower b = hex_digit (unat v)"
proof
  assume a: "hex_nibble b = Some v"
  have table: "\<forall>b \<in> set [48..<103]. case hex_nibble b of None \<Rightarrow> True | Some v \<Rightarrow> unat v < 16 \<and> ascii_lower b = hex_digit (unat v)"
    by code_simp
  from a have "48 \<le> b \<and> b < 103" by (auto simp add: hex_nibble_def split: if_splits)
  then have "b \<in> set [48..<103]" unfolding set_upt atLeastLessThan_iff .
  with table a show "unat v < 16 \<and> ascii_lower b = hex_digit (unat v)" by fastforce
next
  assume a: "unat v < 16 \<and> ascii_lower b = hex_digit (unat v)"
  have table: "\<forall>n \<in> set [0..<16]. hex_nibble (hex_digit n) = Some (of_nat n)" by code_simp
  from a table have "hex_nibble (hex_digit (unat v)) = Some (of_nat (unat v))" by simp
  with a show "hex_nibble b = Some v" using hex_nibble_lower [of b] by simp
qed

lemma hex_nibble_ascii: "hex_nibble b = Some v \<Longrightarrow> b < 128"
  by (auto simp add: hex_nibble_def split: if_splits)

lemma nibbles_joined:
  fixes high low :: u8
  assumes "unat high < 16" "unat low < 16"
  shows "unat (drop_bit 4 (push_bit 4 high OR low)) = unat high \<and> unat ((push_bit 4 high OR low) AND 15) = unat low"
proof -
  have table: "\<forall>h \<in> set [0..<16]. \<forall>l \<in> set [0..<16].
      unat (drop_bit 4 (push_bit 4 (of_nat h :: u8) OR of_nat l)) = h \<and>
      unat ((push_bit 4 (of_nat h :: u8) OR of_nat l) AND 15) = l"
    by code_simp
  have "unat high \<in> set [0..<16]" "unat low \<in> set [0..<16]" using assms unfolding set_upt by auto
  from table [rule_format, OF this] show ?thesis by simp
qed

lemma encode_hex_joined:
  assumes "unat (high :: u8) < 16" "unat low < 16"
  shows "encode_hex ((push_bit 4 high OR low) # v) = hex_digit (unat high) # hex_digit (unat low) # encode_hex v"
  unfolding encode_hex_def list.map concat.simps by (simp only: nibbles_joined [OF assms] append.simps)

lemma nibbles_split:
  fixes b :: u8
  shows "push_bit 4 (drop_bit 4 b) OR (b AND 15) = b"
proof -
  have "b AND 15 = take_bit 4 b" by (simp add: take_bit_eq_mask mask_eq_exp_minus_1)
  then show ?thesis by (intro bit_eqI) (auto simp add: bit_simps)
qed


lemma hex_pairs_exact:
  "even (length bs) \<Longrightarrow> hex_pairs bs = Inr v \<longleftrightarrow> map ascii_lower bs = encode_hex v"
proof (induction bs arbitrary: v rule: hex_pairs.induct)
  case (1 a b rest)
  have step: "hex_pairs (a # b # rest) = Inr v \<longleftrightarrow>
      (\<exists>h l w. hex_nibble a = Some h \<and> hex_nibble b = Some l \<and> hex_pairs rest = Inr w \<and> v = (push_bit 4 h OR l) # w)"
    by (auto simp add: and_then_eq_Inr ok_or_eq_Inr)
  show ?case
  proof
    assume "hex_pairs (a # b # rest) = Inr v"
    with step obtain h l w where w: "hex_nibble a = Some h" "hex_nibble b = Some l" "hex_pairs rest = Inr w"
      "v = (push_bit 4 h OR l) # w"
      by blast
    have "map ascii_lower rest = encode_hex w" using 1(1) [of w] 1(2) w(3) by simp
    with w show "map ascii_lower (a # b # rest) = encode_hex v"
      by (simp add: hex_nibble_exact encode_hex_joined)
  next
    assume l: "map ascii_lower (a # b # rest) = encode_hex v"
    then obtain x w where v: "v = x # w" by (cases v) (auto simp add: encode_hex_def)
    have d: "unat (drop_bit 4 x) < 16" "unat (x AND 15) < 16" using nibbles by blast+
    from l v have "ascii_lower a = hex_digit (unat (drop_bit 4 x))" "ascii_lower b = hex_digit (unat (x AND 15))"
      "map ascii_lower rest = encode_hex w"
      by (simp_all add: encode_hex_def)
    with d 1 have "hex_nibble a = Some (drop_bit 4 x) \<and> hex_nibble b = Some (x AND 15) \<and> hex_pairs rest = Inr w"
      by (simp add: hex_nibble_exact)
    with step v nibbles_split [of x] show "hex_pairs (a # b # rest) = Inr v" by metis
  qed
qed (auto simp add: encode_hex_def)

lemma hex_digit_ascii: "n < 16 \<Longrightarrow> hex_digit n < 128"
proof -
  assume n: "n < 16"
  have "\<forall>n \<in> set [0..<16]. hex_digit n < 128" by code_simp
  with n show ?thesis by simp
qed

lemma encode_hex_ascii: "c \<in> set (encode_hex v) \<Longrightarrow> c < 128"
  using nibbles hex_digit_ascii by (auto simp add: encode_hex_def)

lemma ascii_lower_ascii: "ascii_lower c < 128 \<longleftrightarrow> c < 128"
  by (auto simp add: ascii_lower_def is_ascii_upper_def)

lemma encode_hex_length: "length (encode_hex v) = 2 * length v"
  by (induction v) (auto simp add: encode_hex_def)

text \<open>What the decoder accepts: the hexadecimal text of the bytes, in either case, with blanks anywhere.\<close>

lemma decode_mcp_hex_exact:
  "decode_mcp_hex data = Inr v \<longleftrightarrow>
     to_ascii_lowercase (filter (\<lambda>c. \<not> is_ascii_whitespace c) data) = encode_hex v"
    (is "_ \<longleftrightarrow> to_ascii_lowercase ?compact = _")
proof
  assume a: "decode_mcp_hex data = Inr v"
  then have h: "hex_pairs (utf8_bytes ?compact) = Inr v" "even (length (utf8_bytes ?compact))"
    by (auto simp add: decode_mcp_hex_def Let_def length_utf8_bytes even_iff_mod_2_eq_zero split: if_splits)
  then have e: "map ascii_lower (utf8_bytes ?compact) = encode_hex v" by (simp add: hex_pairs_exact)
  have "c < 128" if "c \<in> set (utf8_bytes ?compact)" for c
  proof -
    from that have "ascii_lower c \<in> set (map ascii_lower (utf8_bytes ?compact))" by simp
    then show ?thesis unfolding e using encode_hex_ascii ascii_lower_ascii by blast
  qed
  then have "utf8_bytes ?compact = ?compact" by (intro utf8_all_ascii_id) blast
  with e show "to_ascii_lowercase ?compact = encode_hex v" by (simp add: to_ascii_lowercase_def)
next
  assume e: "to_ascii_lowercase ?compact = encode_hex v"
  have "c < 128" if "c \<in> set ?compact" for c
  proof -
    from that have "ascii_lower c \<in> set (to_ascii_lowercase ?compact)"
      unfolding to_ascii_lowercase_def set_map by (rule imageI)
    then show ?thesis unfolding e using encode_hex_ascii ascii_lower_ascii by blast
  qed
  then have u: "utf8_bytes ?compact = ?compact" by (intro utf8_ascii) blast
  have "length ?compact = 2 * length v" using e encode_hex_length by (metis length_map to_ascii_lowercase_def)
  with e u show "decode_mcp_hex data = Inr v"
    by (simp add: decode_mcp_hex_def Let_def length_utf8_bytes [symmetric] to_ascii_lowercase_def hex_pairs_exact del: length_utf8_bytes)
qed

lemma decode_mcp_hex_encode: "decode_mcp_hex (encode_hex v) = Inr v"
proof -
  have table: "\<forall>n \<in> set [0..<16]. \<not> is_ascii_whitespace (hex_digit n) \<and> ascii_lower (hex_digit n) = hex_digit n"
    by code_simp
  have d: "\<not> is_ascii_whitespace (hex_digit n) \<and> ascii_lower (hex_digit n) = hex_digit n" if "n < 16" for n
    using table that by simp
  have "\<forall>c \<in> set (encode_hex v). \<not> is_ascii_whitespace c \<and> ascii_lower c = c"
    using d nibbles by (auto simp add: encode_hex_def)
  then show ?thesis
    unfolding decode_mcp_hex_exact to_ascii_lowercase_def by (simp add: map_idI filter_id_conv [THEN iffD2])
qed

text \<open>
  C22. The payloads of MCP clients in hexadecimal: the decoder accepts a text exactly when, blanks
  dropped and letters in lower case, it is the hexadecimal text of some bytes, and it returns those
  bytes. Whatever bytes the program encodes come back, except an empty payload and one beyond the
  limits, which are refused with the error of the limit.
\<close>

theorem mcp_payload_hex:
  "(decode_mcp_hex data = Inr v \<longleftrightarrow>
      to_ascii_lowercase (filter (\<lambda>c. \<not> is_ascii_whitespace c) data) = encode_hex v) \<and>
   decode_payload base64 max_encoded max_decoded (str ''hex'') (encode_hex bytes) =
     (if bytes = [] \<or> max_encoded < 2 * length bytes then Inl EncodedLength
      else if max_decoded < length bytes then Inl DecodedLength else Inr bytes)"
proof -
  have b: "byte_len (encode_hex bytes) = 2 * length bytes"
    using encode_hex_ascii length_utf8_bytes [of "encode_hex bytes"] encode_hex_length
    by (metis utf8_ascii)
  have n: "encode_hex bytes = [] \<longleftrightarrow> bytes = []"
    using encode_hex_length [of bytes] by auto
  have k: "str ''hex'' \<noteq> str ''base64''" by simp
  have "decode_payload base64 max_encoded max_decoded (str ''hex'') (encode_hex bytes) =
     (if bytes = [] \<or> max_encoded < 2 * length bytes then Inl EncodedLength
      else if max_decoded < length bytes then Inl DecodedLength else Inr bytes)"
    unfolding decode_payload_def b n by (simp add: decode_mcp_hex_encode)
  then show ?thesis using decode_mcp_hex_exact by blast
qed

section \<open>The bounded text of an approval\<close>

declare hex_str.simps [simp del]

lemma hex_str_plain: "c \<in> set (hex_str n) \<Longrightarrow> \<not> is_control c"
proof (induction n rule: hex_str.induct)
  case (1 n)
  have d: "\<not> is_control (hex_lower k)" if "k < 16" for k
    using that by (auto simp add: hex_lower_def is_control_def)
  show ?case
  proof (cases "n < 16")
    case True
    with 1(2) have "c = hex_lower n" by (subst (asm) hex_str.simps) simp
    with True d show ?thesis by simp
  next
    case False
    with 1(2) have "c \<in> set (hex_str (n div 16)) \<or> c = hex_lower (n mod 16)"
      by (subst (asm) hex_str.simps) auto
    then show ?thesis using 1(1) [OF False] d [of "n mod 16"] by fastforce
  qed
qed

lemma render_char_plain: "d \<in> set (render_char c) \<Longrightarrow> \<not> is_control d"
  by (auto simp add: render_char_def escape_control_def is_control_def [of 9] dest!: hex_str_plain split: if_splits)
     (auto simp add: is_control_def)

abbreviation rendered :: "ustr \<Rightarrow> ustr" where
  "rendered s \<equiv> concat (map render_char s)"

lemma bounded_loop_cases:
  "(used + length (rendered s) \<le> m \<and> bounded_loop m used s = rendered s) \<or>
   (\<exists>k<length s. bounded_loop m used s = rendered (take k s) @ str ''...'' \<and>
      (used \<le> m \<longrightarrow> used + length (rendered (take k s)) \<le> m) \<and> m < used + length (rendered (take (Suc k) s)))
   \<or> (s = [] \<and> bounded_loop m used s = [])"
proof (induction s arbitrary: used)
  case (Cons c cs)
  show ?case
  proof (cases "m < used + length (render_char c)")
    case True
    then show ?thesis by (intro disjI2 disjI1 exI [of _ 0]) (simp add: Let_def)
  next
    case False
    let ?u = "used + length (render_char c)"
    from Cons [of ?u] show ?thesis
    proof (elim disjE exE conjE)
      fix k assume k: "k < length cs" "bounded_loop m ?u cs = rendered (take k cs) @ str ''...''"
        "?u \<le> m \<longrightarrow> ?u + length (rendered (take k cs)) \<le> m" "m < ?u + length (rendered (take (Suc k) cs))"
      then show ?thesis using False
        by (intro disjI2 disjI1 exI [of _ "Suc k"]) (simp add: Let_def)
    next
      assume "?u + length (rendered cs) \<le> m" "bounded_loop m ?u cs = rendered cs"
      then show ?thesis using False by (simp add: Let_def)
    next
      assume "cs = []"
      then show ?thesis using False by (simp add: Let_def)
    qed
  qed
qed simp


text \<open>
  C23. What a user reads before allowing a write: the bounded text of a value has no control
  character, and it is the redacted value with its control characters escaped, whole if it fits the
  limit, and otherwise the longest run of whole characters that fits, with an ellipsis after it; so
  it has at most three characters more than the limit.
\<close>

theorem approval_text_bounded:
  assumes "bounded_approval_value rx v m = Some s"
  shows "(\<forall>c \<in> set s. \<not> is_control c) \<and> length s \<le> m + 3 \<and>
    (\<exists>r. redact_secrets rx v = Some r \<and>
       (if length (concat (map render_char r)) \<le> m then s = concat (map render_char r)
        else \<exists>k<length r. s = concat (map render_char (take k r)) @ str ''...'' \<and>
               length (concat (map render_char (take k r))) \<le> m \<and>
               m < length (concat (map render_char (take (Suc k) r)))))"
proof -
  from assms obtain r where r: "redact_secrets rx v = Some r" "s = bounded_loop m 0 r"
    by (auto simp add: bounded_approval_value_def)
  have longer: "length (rendered (take k r)) \<le> length (rendered r)" for k
    by (metis append_take_drop_id concat_append length_append le_add1 map_append)
  have dots: "\<forall>c \<in> set (str ''...''). \<not> is_control c" by (simp add: is_control_def)
  from bounded_loop_cases [of 0 r m] consider
      (all) "length (rendered r) \<le> m" "s = rendered r"
    | (cut) k where "k < length r" "s = rendered (take k r) @ str ''...''"
        "length (rendered (take k r)) \<le> m" "m < length (rendered (take (Suc k) r))"
    using r(2) by auto
  then show ?thesis
  proof cases
    case all
    then show ?thesis using r(1) render_char_plain by auto
  next
    case cut
    then have "m < length (rendered r)" using longer [of "Suc k"] by simp
    moreover have "\<forall>c \<in> set s. \<not> is_control c" unfolding cut(2) using render_char_plain dots by auto
    moreover have "length s \<le> m + 3" using cut(2,3) by simp
    ultimately show ?thesis using r(1) cut by auto
  qed
qed

definition ex_no_secrets :: regexes where
  "ex_no_secrets = \<lparr>rx_key_prefix = \<lambda>_. [], rx_bearer_round = \<lambda>t. t, rx_private_key_round = \<lambda>t. t\<rparr>"

text \<open>A newline and three letters, with room for three characters.\<close>

theorem approval_text_bounded_witness:
  "bounded_approval_value ex_no_secrets (str ''a'' @ [10] @ str ''bcd'') 3 = Some (str ''a'' @ [92, 110] @ str ''...'') \<and>
   length (str ''a'' @ [92, 110] @ str ''...'') \<le> 3 + 3"
proof -
  have r: "redact_secrets ex_no_secrets t = Some t" for t
    by (simp add: redact_secrets_def redact_key_value_secrets_def redact_loop_idem ex_no_secrets_def)
  have e: "bounded_approval_value ex_no_secrets (str ''a'' @ [10] @ str ''bcd'') 3 = Some (str ''a'' @ [92, 110] @ str ''...'')"
    by (simp add: bounded_approval_value_def r render_char_def escape_control_def is_control_def Let_def)
  from approval_text_bounded [OF e] e show ?thesis by blast
qed

end
