(* ===== verification/Mcp_Gate.thy ===== *)
theory Mcp_Gate
  imports Mcp_Requests
begin

text \<open>
  The authorisation of a request from an MCP client (\<open>mcp_authorization.rs\<close> of \<open>src-tauri\<close>):
  \<open>handle_ipc_request\<close> with its audit records, the approval by the user and the checks repeated
  right before the write. The store and the tunnels are locked for one step at a time, so between
  two steps the rest of the program may change them in any way: \<open>ge_world env k\<close> is what it makes
  of them before the \<open>k\<close>-th lock. The trace records, in order, the state seen under each lock of
  the checks, the audit records that were saved, the approval and the execution.
\<close>

datatype 'vt gate_event =
    Seen nat "'vt desktop"
  | AuditSaved ustr ustr          \<comment> \<open>audit record and its decision\<close>
  | ApprovalAsked McpApprovalRequest
  | UserApproved
  | WriteExecuted "ustr option" McpWriteExecutionContext
  | ReadExecuted

record 'vt gate_env =
  ge_world :: "nat \<Rightarrow> 'vt desktop \<Rightarrow> 'vt desktop"
  ge_now :: "nat \<Rightarrow> time"
  ge_audit_id :: ustr
  ge_approval_id :: ustr
  ge_persist :: "nat \<Rightarrow> 'vt SessionStore \<Rightarrow> ustr + unit"
  ge_verify :: "nat \<Rightarrow> 'vt SessionStore \<Rightarrow> ustr + bool"
  ge_window :: bool                                \<comment> \<open>there is a window to show an approval in\<close>
  ge_pending :: approval_queue
  ge_approval :: approval_env
  ge_read :: "'vt desktop \<Rightarrow> 'vt desktop \<times> (IpcError + json)"
  ge_write :: "McpWriteExecutionContext \<Rightarrow> 'vt desktop \<Rightarrow> 'vt desktop \<times> (IpcError + json)"

section \<open>Grants and details\<close>

definition mcp_scope_allowed :: "time \<Rightarrow> 'vt SessionStore \<Rightarrow> ustr \<Rightarrow> McpScope \<Rightarrow> ustr option \<Rightarrow> bool" where
  "mcp_scope_allowed now st client_id scope session_id \<longleftrightarrow>
     (case normalize_mcp_client_id client_id of
        Inl _ \<Rightarrow> False
      | Inr client_id \<Rightarrow> mcp_can now st client_id scope session_id)"

definition mcp_write_confirmation_required ::
  "time \<Rightarrow> 'vt SessionStore \<Rightarrow> ustr \<Rightarrow> McpScope \<Rightarrow> ustr option \<Rightarrow> bool" where
  "mcp_write_confirmation_required now st client_id scope session_id \<longleftrightarrow>
     (let client_id = trim client_id
      in client_id \<noteq> [] \<and>
         list_ex (\<lambda>g. gr_client_id g = client_id \<and> gr_confirm_writes g \<and> grant_allows g scope session_id now)
           (st_grants st))"

definition bool_str :: "bool \<Rightarrow> ustr" where
  "bool_str b = (if b then str ''true'' else str ''false'')"

definition json_as_bool :: "json \<Rightarrow> bool option" where
  "json_as_bool v = (case v of JBool b \<Rightarrow> Some b | _ \<Rightarrow> None)"

definition put :: "ustr \<Rightarrow> ustr option \<Rightarrow> (ustr \<rightharpoonup> ustr) \<Rightarrow> (ustr \<rightharpoonup> ustr)" where
  "put key v m = (case v of None \<Rightarrow> m | Some t \<Rightarrow> m(key \<mapsto> t))"

text \<open>The text of an argument that is a string, a number or a truth value.\<close>

definition number_arg :: "('net, 'ip) ipc_ops \<Rightarrow> json \<Rightarrow> ustr \<Rightarrow> ustr option" where
  "number_arg io v key =
     map_option (\<lambda>n. nat_str (unat n)) (Option.bind (json_get v key) (io_as_u64 io))"

definition bool_arg :: "json \<Rightarrow> ustr \<Rightarrow> ustr option" where
  "bool_arg v key = map_option bool_str (Option.bind (json_get v key) json_as_bool)"

definition count_arg :: "json \<Rightarrow> ustr \<Rightarrow> ustr option" where
  "count_arg v key =
     (case json_get v key of Some (JArray items) \<Rightarrow> Some (nat_str (length items)) | _ \<Rightarrow> None)"

definition put_strings :: "json \<Rightarrow> ustr list \<Rightarrow> (ustr \<rightharpoonup> ustr) \<Rightarrow> (ustr \<rightharpoonup> ustr)" where
  "put_strings v keys m = fold (\<lambda>key. put key (json_str v key)) keys m"

definition mcp_audit_details ::
  "('net, 'ip) ipc_ops \<Rightarrow> IpcRequest \<Rightarrow> McpScope \<Rightarrow> bool \<Rightarrow> bool \<Rightarrow> (ustr \<rightharpoonup> ustr)" where
  "mcp_audit_details io request scope trusted_bootstrap approval_required =
     (let v = ipc_args request; command = ipc_command request;
          details = [str ''scope'' \<mapsto> mcp_scope_label scope,
                     str ''trustedBootstrap'' \<mapsto> bool_str trusted_bootstrap,
                     str ''approvalRequired'' \<mapsto> bool_str approval_required];
          details = (if command = str ''run_custom_script''
                     then put_strings v [str ''scriptId''] details else details);
          details = (if command = str ''create_tunnel'' then
                       put (str ''routeRuleCount'') (count_arg v (str ''routeRules''))
                       (put (str ''allowRemoteBind'') (bool_arg v (str ''allowRemoteBind''))
                       (put (str ''targetPort'') (number_arg io v (str ''targetPort''))
                       (put (str ''bindPort'') (number_arg io v (str ''bindPort''))
                       (put_strings v [str ''egress'', str ''mode'', str ''bindHost'', str ''targetHost''] details))))
                     else details);
          details = (if is_command command [''tunnel_request'', ''udp_request''] then
                       put (str ''closeWrite'') (bool_arg v (str ''closeWrite''))
                       (put (str ''targetPort'') (number_arg io v (str ''targetPort''))
                       (put_strings v [str ''tunnelId'', str ''targetHost'', str ''encoding''] details))
                     else details)
      in details)"

section \<open>Audit records\<close>

definition append_and_save_mcp_audit ::
  "'vt gate_env \<Rightarrow> nat \<Rightarrow> AuditRecord \<Rightarrow> 'vt desktop \<Rightarrow> 'vt desktop \<times> 'vt gate_event list \<times> (IpcError + unit)" where
  "append_and_save_mcp_audit env k rec dk =
     (let (st, r) = commit_store_mutation (\<lambda>st. (record_audit rec st, Inr ())) (ge_persist env k) (ge_verify env k)
                      (dk_store dk)
      in (dk\<lparr>dk_store := st\<rparr>,
          (case r of Inr _ \<Rightarrow> [AuditSaved (aud_id rec) (aud_decision rec)] | Inl _ \<Rightarrow> []),
          map_err CommitFailed r))"

definition write_audit ::
  "('net, 'ip) ipc_ops \<Rightarrow> 'vt gate_env \<Rightarrow> nat \<Rightarrow> IpcRequest \<Rightarrow> McpScope \<Rightarrow> ustr option \<Rightarrow> ustr \<Rightarrow> bool \<Rightarrow> AuditRecord" where
  "write_audit io env k request scope session_id decision approval_required =
     \<lparr>aud_id = ge_audit_id env, aud_ts = ge_now env k, aud_actor = mcp_audit_actor (ipc_client_id request),
      aud_action = ipc_command request, aud_session_id = session_id, aud_decision = decision,
      aud_details = mcp_audit_details io request scope False approval_required\<rparr>"

definition record_invalid_mcp_write ::
  "('net, 'ip) ipc_ops \<Rightarrow> 'vt gate_env \<Rightarrow> nat \<Rightarrow> IpcRequest \<Rightarrow> McpScope \<Rightarrow> ustr option \<Rightarrow> 'vt desktop
     \<Rightarrow> 'vt desktop \<times> 'vt gate_event list \<times> (IpcError + unit)" where
  "record_invalid_mcp_write io env k request scope session_id dk =
     append_and_save_mcp_audit env k (write_audit io env k request scope session_id (str ''invalid'') False)
       (ge_world env k dk)"

datatype McpWriteAuditStart = Authorized bool | WriteDenial

text \<open>One lock: the grants are read and the record is saved under it.\<close>

definition begin_mcp_write_audit ::
  "('net, 'ip) ipc_ops \<Rightarrow> 'vt gate_env \<Rightarrow> nat \<Rightarrow> IpcRequest \<Rightarrow> McpScope \<Rightarrow> ustr option \<Rightarrow> 'vt desktop
     \<Rightarrow> 'vt desktop \<times> 'vt gate_event list \<times> (IpcError + McpWriteAuditStart)" where
  "begin_mcp_write_audit io env k request scope session_id dk =
     (let dk = ge_world env k dk; st = dk_store dk;
          allowed = mcp_scope_allowed (ge_now env k) st (ipc_client_id request) scope session_id;
          approval_required =
            (allowed \<and> mcp_write_confirmation_required (ge_now env k) st (ipc_client_id request) scope session_id);
          decision = (if approval_required then str ''pending-approval''
                      else if allowed then str ''authorized'' else str ''denied'');
          (dk', tr, r) = append_and_save_mcp_audit env k
            (write_audit io env k request scope session_id decision approval_required) dk
      in (dk', Seen k dk # tr,
          and_then r (\<lambda>_. Inr (if allowed then Authorized approval_required else WriteDenial))))"

definition update_mcp_write_audit ::
  "ustr \<Rightarrow> ustr \<Rightarrow> ustr option \<Rightarrow> 'vt SessionStore \<Rightarrow> 'vt SessionStore \<times> (ustr + unit)" where
  "update_mcp_write_audit audit_id decision approval st =
     (if list_ex (\<lambda>r. aud_id r = audit_id) (st_audit st)
      then (st\<lparr>st_audit := update_first (\<lambda>r. aud_id r = audit_id)
                 (\<lambda>r. r\<lparr>aud_decision := decision, aud_details := put (str ''approval'') approval (aud_details r)\<rparr>)
                 (st_audit st)\<rparr>, Inr ())
      else (st, Inl (str ''MCP audit record disappeared before completion: '' @ audit_id)))"

definition finish_mcp_write_audit ::
  "'vt gate_env \<Rightarrow> nat \<Rightarrow> ustr \<Rightarrow> ustr option \<Rightarrow> 'vt desktop \<Rightarrow> 'vt desktop \<times> 'vt gate_event list \<times> (IpcError + unit)" where
  "finish_mcp_write_audit env k decision approval dk =
     (let dk = ge_world env k dk;
          (st, r) = commit_store_mutation (update_mcp_write_audit (ge_audit_id env) decision approval)
                      (ge_persist env k) (ge_verify env k) (dk_store dk)
      in (dk\<lparr>dk_store := st\<rparr>,
          (case r of Inr _ \<Rightarrow> [AuditSaved (ge_audit_id env) decision] | Inl _ \<Rightarrow> []),
          map_err CommitFailed r))"

definition finish_applied_mcp_write_audit_with ::
  "ustr \<Rightarrow> ustr \<Rightarrow> ustr option \<Rightarrow> ('vt SessionStore \<Rightarrow> ustr + unit) \<Rightarrow> ('vt SessionStore \<Rightarrow> ustr + bool)
     \<Rightarrow> 'vt SessionStore \<Rightarrow> 'vt SessionStore \<times> (ustr + unit)" where
  "finish_applied_mcp_write_audit_with audit_id decision approval persist verify st =
     (case update_mcp_write_audit audit_id decision approval st of
        (st, Inl e) \<Rightarrow> (st, Inl e)
      | (st, Inr _) \<Rightarrow>
          (case persist_applied_store_with persist verify st of
             Inr _ \<Rightarrow> (st, Inr ())
           | Inl e \<Rightarrow>
               (st\<lparr>st_audit := update_first (\<lambda>r. aud_id r = audit_id)
                     (\<lambda>r. r\<lparr>aud_details := (aud_details r)(str ''finalizationPersistence'' \<mapsto> str ''degraded'')\<rparr>)
                     (st_audit st)\<rparr>, Inl e)))"

section \<open>The checks before the write\<close>

text \<open>
  \<open>revalidate_ipc_write_target_with_context\<close>: four locks, numbered from \<open>k\<close>. \<open>trusted_bootstrap\<close>
  is always false. The states seen are returned for the trace.
\<close>

definition revalidate_ipc_write_target_with_context ::
  "('net, 'ip) ipc_ops \<Rightarrow> 'vt gate_env \<Rightarrow> nat \<Rightarrow> IpcRequest \<Rightarrow> McpScope \<Rightarrow> ustr option \<Rightarrow> McpWriteExecutionContext
     \<Rightarrow> 'vt desktop \<Rightarrow> 'vt desktop \<times> 'vt gate_event list \<times> (IpcError + unit)" where
  "revalidate_ipc_write_target_with_context io env k request scope authorized_session_id context dk =
     (let dk1 = ge_world env k dk; dk2 = ge_world env (k + 1) dk1;
          dk3 = ge_world env (k + 2) dk2; dk4 = ge_world env (k + 3) dk3
      in (case ipc_write_session_id io dk1 request of
            Inl e \<Rightarrow> (dk1, [Seen k dk1], Inl e)
          | Inr current_session_id \<Rightarrow>
              if current_session_id \<noteq> authorized_session_id then (dk1, [Seen k dk1], Inl TargetChanged)
              else if \<not> mcp_can (ge_now env (k + 1)) (dk_store dk2) (ipc_client_id request) scope authorized_session_id
              then (dk2, [Seen k dk1, Seen (k + 1) dk2], Inl GrantChanged)
              else (case validate_ipc_write_args io (ge_now env (k + 2)) dk3 request of
                      Inl e \<Rightarrow> (dk3, [Seen k dk1, Seen (k + 1) dk2, Seen (k + 2) dk3], Inl e)
                    | Inr _ \<Rightarrow>
                        (dk4, [Seen k dk1, Seen (k + 1) dk2, Seen (k + 2) dk3, Seen (k + 3) dk4],
                         revalidate_context io dk4 request context))))"

section \<open>Handling a request\<close>

definition request_approval ::
  "'vt gate_env \<Rightarrow> IpcRequest \<Rightarrow> ustr option \<Rightarrow> McpScope \<Rightarrow> McpWriteExecutionContext
     \<Rightarrow> 'vt gate_event list \<times> (ControlError + McpApprovalOutcome)" where
  "request_approval env request session_id scope context =
     (if \<not> ge_window env then ([], Inl ApprovalNotShown)
      else (case build_mcp_approval_request_with_target (ge_approval_id env) (ge_now env 4) (ipc_client_id request)
                   (ipc_command request)
                   (case session_id of None \<Rightarrow> str ''portmate-host'' | Some s \<Rightarrow> s) scope (approval_target context) of
              Inl e \<Rightarrow> ([], Inl e)
            | Inr approval_request \<Rightarrow>
                let r = snd (await_mcp_approval (ge_approval env) MCP_APPROVAL_TIMEOUT approval_request (ge_pending env))
                in (ApprovalAsked approval_request # (if r = Inr Approved then [UserApproved] else []), r)))"

text \<open>\<open>Inr\<close> holds the approval that goes into the final audit record.\<close>

definition settle_approval ::
  "'vt gate_env \<Rightarrow> IpcRequest \<Rightarrow> ustr option \<Rightarrow> McpScope \<Rightarrow> McpWriteExecutionContext \<Rightarrow> 'vt desktop
     \<Rightarrow> 'vt desktop \<times> 'vt gate_event list \<times> (IpcError + ustr option)" where
  "settle_approval env request session_id scope context dk =
     (let (asked, outcome) = request_approval env request session_id scope context;
          (decision, approval, refused) =
            (case outcome of
               Inr Approved \<Rightarrow> (str ''authorized'', str ''approved'', None)
             | Inr DeniedByUser \<Rightarrow> (str ''denied'', str ''user-denied'', Some UserDenied)
             | Inr TimedOut \<Rightarrow> (str ''denied'', str ''timed-out'', Some ApprovalTimedOut)
             | Inl e \<Rightarrow> (str ''denied'', str ''unavailable'', Some (BadControl e)));
          (dk, tr, r) = finish_mcp_write_audit env 5 decision (Some approval) dk
      in (dk, asked @ tr,
          and_then r (\<lambda>_. case refused of None \<Rightarrow> Inr (Some approval) | Some e \<Rightarrow> Inl e)))"

definition write_succeeded :: "IpcError + json \<Rightarrow> bool" where
  "write_succeeded r =
     (case r of Inl _ \<Rightarrow> False
      | Inr v \<Rightarrow> (case json_get v (str ''failure'') of None \<Rightarrow> True | Some f \<Rightarrow> f = JNull))"

text \<open>The end of \<open>handle_ipc_request\<close>: revalidation, execution and the final audit record.\<close>

definition run_authorized_write ::
  "('net, 'ip) ipc_ops \<Rightarrow> 'vt gate_env \<Rightarrow> IpcRequest \<Rightarrow> McpScope \<Rightarrow> ustr option \<Rightarrow> McpWriteExecutionContext
     \<Rightarrow> ustr option \<Rightarrow> 'vt desktop \<Rightarrow> 'vt desktop \<times> 'vt gate_event list \<times> (IpcError + json)" where
  "run_authorized_write io env request scope session_id context approval dk =
     (let (dk, checks, valid) =
            revalidate_ipc_write_target_with_context io env 6 request scope session_id context dk;
          (dk, executed, result) =
            (case valid of
               Inr _ \<Rightarrow> (let (dk, r) = ge_write env context dk in (dk, [WriteExecuted session_id context], r))
             | Inl e \<Rightarrow> (dk, [], Inl e));
          dk = ge_world env 10 dk;
          (st, _) = finish_applied_mcp_write_audit_with (ge_audit_id env)
            (if write_succeeded result then str ''succeeded'' else str ''failed'') approval
            (ge_persist env 10) (ge_verify env 10) (dk_store dk)
      in (dk\<lparr>dk_store := st\<rparr>, checks @ executed, result))"

definition authorize_and_run ::
  "('net, 'ip) ipc_ops \<Rightarrow> 'vt gate_env \<Rightarrow> IpcRequest \<Rightarrow> McpScope \<Rightarrow> ustr option \<Rightarrow> McpWriteExecutionContext
     \<Rightarrow> 'vt desktop \<Rightarrow> 'vt desktop \<times> 'vt gate_event list \<times> (IpcError + json)" where
  "authorize_and_run io env request scope session_id context dk =
     (case begin_mcp_write_audit io env 3 request scope session_id dk of
        (dk, tr, Inl e) \<Rightarrow> (dk, tr, Inl e)
      | (dk, tr, Inr WriteDenial) \<Rightarrow> (dk, tr, Inl WriteDenied)
      | (dk, tr, Inr (Authorized approval_required)) \<Rightarrow>
          (case (if approval_required then settle_approval env request session_id scope context dk
                 else (dk, [], Inr None)) of
             (dk, tr', Inl e) \<Rightarrow> (dk, tr @ tr', Inl e)
           | (dk, tr', Inr approval) \<Rightarrow>
               let (dk, tr'', r) = run_authorized_write io env request scope session_id context approval dk
               in (dk, tr @ tr' @ tr'', r)))"

text \<open>The session the request is about, with the check of its identifier.\<close>

definition write_target :: "('net, 'ip) ipc_ops \<Rightarrow> 'vt desktop \<Rightarrow> IpcRequest \<Rightarrow> IpcError + ustr option" where
  "write_target io dk request =
     and_then (ipc_write_session_id io dk request) (\<lambda>session_id.
       case session_id of
         None \<Rightarrow> Inr None
       | Some s \<Rightarrow> and_then (map_err BadControl (validate_mcp_session_id s)) (\<lambda>_. Inr (Some s)))"

definition refuse_invalid ::
  "('net, 'ip) ipc_ops \<Rightarrow> 'vt gate_env \<Rightarrow> IpcRequest \<Rightarrow> McpScope \<Rightarrow> ustr option \<Rightarrow> IpcError \<Rightarrow> 'vt desktop
     \<Rightarrow> 'vt desktop \<times> 'vt gate_event list \<times> (IpcError + json)" where
  "refuse_invalid io env request scope session_id error dk =
     (let (dk, tr, r) = record_invalid_mcp_write io env 3 request scope session_id dk
      in (dk, tr, and_then r (\<lambda>_. Inl error)))"

text \<open>\<open>None\<close> when a redaction of the text shown to the user does not return.\<close>

definition handle_ipc_request ::
  "('net, 'ip) ipc_ops \<Rightarrow> 'vt gate_env \<Rightarrow> IpcRequest \<Rightarrow> 'vt desktop
     \<Rightarrow> ('vt desktop \<times> 'vt gate_event list \<times> (IpcError + json)) option" where
  "handle_ipc_request io env request dk =
     (case ipc_write_scope (ipc_command request) of
        None \<Rightarrow>
          if ipc_read_scope (ipc_command request) \<noteq> None
          then (let (dk, r) = ge_read env dk in Some (dk, [ReadExecuted], r))
          else Some (dk, [], Inl (UnsupportedCommand (ipc_command request)))
      | Some scope \<Rightarrow>
          let dk0 = ge_world env 0 dk; dk1 = ge_world env 1 dk0; dk2 = ge_world env 2 dk1
          in (case write_target io dk0 request of
                Inl e \<Rightarrow> Some (refuse_invalid io env request scope None e dk0)
              | Inr session_id \<Rightarrow>
                  (case validate_ipc_write_args io (ge_now env 1) dk1 request of
                     Inl e \<Rightarrow> Some (refuse_invalid io env request scope session_id e dk1)
                   | Inr _ \<Rightarrow>
                       map_option (\<lambda>captured.
                         case captured of
                           Inl e \<Rightarrow> refuse_invalid io env request scope session_id e dk2
                         | Inr context \<Rightarrow> authorize_and_run io env request scope session_id context dk2)
                       (capture_mcp_write_execution_context io dk2 request))))"

section \<open>The stages\<close>

definition not_executed :: "'vt gate_event list \<Rightarrow> bool" where
  "not_executed tr \<longleftrightarrow> (\<forall>sid ctx. WriteExecuted sid ctx \<notin> set tr)"

lemma not_executed_simps [simp]:
  "not_executed []" "not_executed (xs @ ys) \<longleftrightarrow> not_executed xs \<and> not_executed ys"
  "not_executed (Seen k d # xs) \<longleftrightarrow> not_executed xs"
  "not_executed (AuditSaved i dec # xs) \<longleftrightarrow> not_executed xs"
  "not_executed (ApprovalAsked q # xs) \<longleftrightarrow> not_executed xs"
  "not_executed (UserApproved # xs) \<longleftrightarrow> not_executed xs"
  by (auto simp add: not_executed_def)

lemma append_audit:
  assumes "append_and_save_mcp_audit env k rec dk = (dk', tr, r)"
  shows "not_executed tr" "r = Inr u \<Longrightarrow> tr = [AuditSaved (aud_id rec) (aud_decision rec)]"
  using assms
  by (auto simp add: append_and_save_mcp_audit_def Let_def split: prod.splits sum.splits)

lemma begin_audit:
  assumes "begin_mcp_write_audit io env k request scope sid dk = (dk', tr, r)"
  shows "not_executed tr"
    "r = Inr (Authorized asked) \<Longrightarrow>
       (let d = ge_world env k dk
        in mcp_scope_allowed (ge_now env k) (dk_store d) (ipc_client_id request) scope sid \<and>
           asked = mcp_write_confirmation_required (ge_now env k) (dk_store d) (ipc_client_id request) scope sid \<and>
           tr = [Seen k d, AuditSaved (ge_audit_id env) (if asked then str ''pending-approval'' else str ''authorized'')])"
proof -
  let ?d = "ge_world env k dk"
  let ?allowed = "mcp_scope_allowed (ge_now env k) (dk_store ?d) (ipc_client_id request) scope sid"
  let ?asked = "?allowed \<and>
     mcp_write_confirmation_required (ge_now env k) (dk_store ?d) (ipc_client_id request) scope sid"
  let ?rec = "write_audit io env k request scope sid
     (if ?asked then str ''pending-approval'' else if ?allowed then str ''authorized'' else str ''denied'') ?asked"
  obtain dka tra ra where a: "append_and_save_mcp_audit env k ?rec ?d = (dka, tra, ra)"
    by (cases "append_and_save_mcp_audit env k ?rec ?d") auto
  have b: "tr = Seen k ?d # tra" "r = and_then ra (\<lambda>_. Inr (if ?allowed then Authorized ?asked else WriteDenial))"
    using assms a by (auto simp add: begin_mcp_write_audit_def Let_def)
  show "not_executed tr" using append_audit(1) [OF a] b by simp
  assume r: "r = Inr (Authorized asked)"
  then obtain u where u: "ra = Inr u" using b by (cases ra) auto
  have al: ?allowed and asked: "asked = ?asked"
    using r b u by (auto split: if_splits)
  have "tra = [AuditSaved (ge_audit_id env) (if asked then str ''pending-approval'' else str ''authorized'')]"
    using append_audit(2) [OF a u] al by (simp add: write_audit_def asked)
  then show "let d = ge_world env k dk
        in mcp_scope_allowed (ge_now env k) (dk_store d) (ipc_client_id request) scope sid \<and>
           asked = mcp_write_confirmation_required (ge_now env k) (dk_store d) (ipc_client_id request) scope sid \<and>
           tr = [Seen k d, AuditSaved (ge_audit_id env) (if asked then str ''pending-approval'' else str ''authorized'')]"
    using al asked b by (simp add: Let_def)
qed

lemma finish_audit:
  assumes "finish_mcp_write_audit env k decision approval dk = (dk', tr, r)"
  shows "not_executed tr" "r = Inr u \<Longrightarrow> tr = [AuditSaved (ge_audit_id env) decision]"
  using assms
  by (auto simp add: finish_mcp_write_audit_def Let_def split: prod.splits sum.splits)

lemma requested_approval:
  assumes "request_approval env request sid scope ctx = (asked, outcome)"
  shows "not_executed asked"
    "outcome = Inr Approved \<Longrightarrow> UserApproved \<in> set asked \<and> ge_window env \<and>
       ae_shown (ge_approval env) \<and> ae_reply (ge_approval env) = Replied True"
proof -
  show "not_executed asked"
    using assms by (auto simp add: request_approval_def Let_def split: if_splits sum.splits)
  assume o: "outcome = Inr Approved"
  then obtain q where q: "snd (await_mcp_approval (ge_approval env) MCP_APPROVAL_TIMEOUT q (ge_pending env)) = Inr Approved"
    "asked = [ApprovalAsked q, UserApproved]" "ge_window env"
    using assms by (auto simp add: request_approval_def Let_def split: if_splits sum.splits)
  then show "UserApproved \<in> set asked \<and> ge_window env \<and>
       ae_shown (ge_approval env) \<and> ae_reply (ge_approval env) = Replied True"
    using await_approved [of "ge_approval env" MCP_APPROVAL_TIMEOUT q "ge_pending env"]
    by (cases "await_mcp_approval (ge_approval env) MCP_APPROVAL_TIMEOUT q (ge_pending env)") auto
qed

lemma settled_approval:
  assumes "settle_approval env request sid scope ctx dk = (dk', tr, r)"
  shows "not_executed tr"
    "r = Inr approval \<Longrightarrow> UserApproved \<in> set tr \<and> AuditSaved (ge_audit_id env) (str ''authorized'') \<in> set tr \<and>
       ge_window env \<and> ae_shown (ge_approval env) \<and> ae_reply (ge_approval env) = Replied True"
proof -
  obtain asked outcome where a: "request_approval env request sid scope ctx = (asked, outcome)"
    by (cases "request_approval env request sid scope ctx")
  obtain decision appr refused where d: "(case outcome of
               Inr Approved \<Rightarrow> (str ''authorized'', str ''approved'', None)
             | Inr DeniedByUser \<Rightarrow> (str ''denied'', str ''user-denied'', Some UserDenied)
             | Inr TimedOut \<Rightarrow> (str ''denied'', str ''timed-out'', Some ApprovalTimedOut)
             | Inl e \<Rightarrow> (str ''denied'', str ''unavailable'', Some (BadControl e))) = (decision, appr, refused)"
    using prod_cases3 by blast
  obtain dkf trf rf where f: "finish_mcp_write_audit env 5 decision (Some appr) dk = (dkf, trf, rf)"
    using prod_cases3 by blast
  have b: "tr = asked @ trf"
    "r = and_then rf (\<lambda>_. case refused of None \<Rightarrow> Inr (Some appr) | Some e \<Rightarrow> Inl e)"
    using assms unfolding settle_approval_def Let_def a d f prod.case by simp_all
  show "not_executed tr" using requested_approval(1) [OF a] finish_audit(1) [OF f] b by simp
  assume r: "r = Inr approval"
  then obtain u where u: "rf = Inr u" and "refused = None"
    using b by (cases rf) (auto split: option.splits)
  then have o: "outcome = Inr Approved" and dec: "decision = str ''authorized''"
    using d by (auto split: sum.splits McpApprovalOutcome.splits)
  show "UserApproved \<in> set tr \<and> AuditSaved (ge_audit_id env) (str ''authorized'') \<in> set tr \<and>
       ge_window env \<and> ae_shown (ge_approval env) \<and> ae_reply (ge_approval env) = Replied True"
    using requested_approval(2) [OF a o] finish_audit(2) [OF f u] b dec by auto
qed

lemma revalidated:
  assumes "revalidate_ipc_write_target_with_context io env k request scope sid ctx dk = (dk', tr, r)"
  shows "not_executed tr"
    "r = Inr u \<Longrightarrow> \<exists>dk1 dk2 dk3 dk4. tr = [Seen k dk1, Seen (k + 1) dk2, Seen (k + 2) dk3, Seen (k + 3) dk4] \<and>
       ipc_write_session_id io dk1 request = Inr sid \<and>
       mcp_can (ge_now env (k + 1)) (dk_store dk2) (ipc_client_id request) scope sid \<and>
       validate_ipc_write_args io (ge_now env (k + 2)) dk3 request = Inr () \<and>
       revalidate_context io dk4 request ctx = Inr ()"
  using assms
  by (auto simp add: revalidate_ipc_write_target_with_context_def Let_def split: sum.splits if_splits)

lemma run_write:
  assumes "run_authorized_write io env request scope sid ctx approval dk = (dk', tr, r)"
    "WriteExecuted s c \<in> set tr"
  shows "\<exists>dk6 dk7 dk8 dk9. s = sid \<and> c = ctx \<and>
    tr = [Seen 6 dk6, Seen 7 dk7, Seen 8 dk8, Seen 9 dk9, WriteExecuted sid ctx] \<and>
    ipc_write_session_id io dk6 request = Inr sid \<and>
    mcp_can (ge_now env 7) (dk_store dk7) (ipc_client_id request) scope sid \<and>
    validate_ipc_write_args io (ge_now env 8) dk8 request = Inr () \<and>
    revalidate_context io dk9 request ctx = Inr ()"
proof -
  obtain dkc checks valid where v:
    "revalidate_ipc_write_target_with_context io env 6 request scope sid ctx dk = (dkc, checks, valid)"
    using prod_cases3 by blast
  show ?thesis
  proof (cases valid)
    case (Inl e)
    then have "tr = checks"
      using assms(1) by (simp add: run_authorized_write_def v Let_def split: prod.splits)
    then show ?thesis using revalidated(1) [OF v] assms(2) by (auto simp add: not_executed_def)
  next
    case (Inr u)
    then have "tr = checks @ [WriteExecuted sid ctx]"
      using assms(1) by (auto simp add: run_authorized_write_def v Let_def split: prod.splits)
    then show ?thesis
      using revalidated(1) [OF v] revalidated(2) [OF v Inr] assms(2) by (auto simp add: not_executed_def)
  qed
qed

lemma refused_not_executed:
  assumes "refuse_invalid io env request scope sid e dk = (dk', tr, r)"
  shows "not_executed tr"
proof -
  obtain dka tra ra where "record_invalid_mcp_write io env 3 request scope sid dk = (dka, tra, ra)"
    using prod_cases3 by blast
  then show ?thesis
    using assms append_audit(1) by (fastforce simp add: refuse_invalid_def record_invalid_mcp_write_def)
qed

text \<open>What holds of a write that was executed.\<close>

definition write_authorized ::
  "('net, 'ip) ipc_ops \<Rightarrow> 'vt gate_env \<Rightarrow> IpcRequest \<Rightarrow> McpScope \<Rightarrow> ustr option \<Rightarrow> McpWriteExecutionContext
     \<Rightarrow> 'vt gate_event list \<Rightarrow> bool" where
  "write_authorized io env request scope sid ctx before \<longleftrightarrow>
     (\<exists>dk3 asked. Seen 3 dk3 \<in> set before \<and>
        mcp_scope_allowed (ge_now env 3) (dk_store dk3) (ipc_client_id request) scope sid \<and>
        asked = mcp_write_confirmation_required (ge_now env 3) (dk_store dk3) (ipc_client_id request) scope sid \<and>
        AuditSaved (ge_audit_id env) (str ''authorized'') \<in> set before \<and>
        (asked \<longrightarrow> AuditSaved (ge_audit_id env) (str ''pending-approval'') \<in> set before \<and> UserApproved \<in> set before \<and>
           ge_window env \<and> ae_shown (ge_approval env) \<and> ae_reply (ge_approval env) = Replied True)) \<and>
     (\<exists>dk6 dk7 dk8 dk9. {Seen 6 dk6, Seen 7 dk7, Seen 8 dk8, Seen 9 dk9} \<subseteq> set before \<and>
        ipc_write_session_id io dk6 request = Inr sid \<and>
        mcp_can (ge_now env 7) (dk_store dk7) (ipc_client_id request) scope sid \<and>
        validate_ipc_write_args io (ge_now env 8) dk8 request = Inr () \<and>
        revalidate_context io dk9 request ctx = Inr ())"

lemma authorized_run:
  assumes "authorize_and_run io env request scope sid ctx dk = (dk', tr, r)" "WriteExecuted s c \<in> set tr"
  shows "\<exists>before. s = sid \<and> c = ctx \<and> tr = before @ [WriteExecuted sid ctx] \<and> not_executed before \<and>
    write_authorized io env request scope sid ctx before"
proof -
  obtain dkb trb rb where b: "begin_mcp_write_audit io env 3 request scope sid dk = (dkb, trb, rb)"
    using prod_cases3 by blast
  have "\<exists>asked. rb = Inr (Authorized asked)"
  proof (cases rb)
    case (Inr start)
    then show ?thesis
      using assms begin_audit(1) [OF b]
      by (cases start) (auto simp add: authorize_and_run_def b not_executed_def)
  qed (use assms begin_audit(1) [OF b] in \<open>auto simp add: authorize_and_run_def b not_executed_def\<close>)
  then obtain asked where asked: "rb = Inr (Authorized asked)" by blast
  let ?d = "ge_world env 3 dk"
  have B: "mcp_scope_allowed (ge_now env 3) (dk_store ?d) (ipc_client_id request) scope sid"
    "asked = mcp_write_confirmation_required (ge_now env 3) (dk_store ?d) (ipc_client_id request) scope sid"
    "trb = [Seen 3 ?d, AuditSaved (ge_audit_id env) (if asked then str ''pending-approval'' else str ''authorized'')]"
    using begin_audit(2) [OF b asked] by (simp_all add: Let_def)
  obtain dks trs rs where st: "(if asked then settle_approval env request sid scope ctx dkb else (dkb, [], Inr None)) = (dks, trs, rs)"
    using prod_cases3 by blast
  have S1: "not_executed trs"
    using st settled_approval(1) by (cases asked) auto
  obtain app where rs: "rs = Inr app"
    using assms S1 begin_audit(1) [OF b]
    by (cases rs) (auto simp add: authorize_and_run_def b asked st not_executed_def)
  have S2: "asked \<longrightarrow> UserApproved \<in> set trs \<and> AuditSaved (ge_audit_id env) (str ''authorized'') \<in> set trs \<and>
       ge_window env \<and> ae_shown (ge_approval env) \<and> ae_reply (ge_approval env) = Replied True"
    using st rs settled_approval(2) [of env request sid scope ctx dkb dks trs rs app] by (cases asked) auto
  obtain dkr trr rr where run: "run_authorized_write io env request scope sid ctx app dks = (dkr, trr, rr)"
    using prod_cases3 by blast
  have tr: "tr = trb @ trs @ trr" using assms(1) by (simp add: authorize_and_run_def b asked st rs run)
  then have "WriteExecuted s c \<in> set trr" using assms(2) S1 begin_audit(1) [OF b] by (auto simp add: not_executed_def)
  from run_write [OF run this] obtain dk6 dk7 dk8 dk9 where R: "s = sid" "c = ctx"
    "trr = [Seen 6 dk6, Seen 7 dk7, Seen 8 dk8, Seen 9 dk9, WriteExecuted sid ctx]"
    "ipc_write_session_id io dk6 request = Inr sid"
    "mcp_can (ge_now env 7) (dk_store dk7) (ipc_client_id request) scope sid"
    "validate_ipc_write_args io (ge_now env 8) dk8 request = Inr ()"
    "revalidate_context io dk9 request ctx = Inr ()" by blast
  let ?before = "trb @ trs @ [Seen 6 dk6, Seen 7 dk7, Seen 8 dk8, Seen 9 dk9]"
  have first: "\<exists>dk3 asked. Seen 3 dk3 \<in> set ?before \<and>
        mcp_scope_allowed (ge_now env 3) (dk_store dk3) (ipc_client_id request) scope sid \<and>
        asked = mcp_write_confirmation_required (ge_now env 3) (dk_store dk3) (ipc_client_id request) scope sid \<and>
        AuditSaved (ge_audit_id env) (str ''authorized'') \<in> set ?before \<and>
        (asked \<longrightarrow> AuditSaved (ge_audit_id env) (str ''pending-approval'') \<in> set ?before \<and> UserApproved \<in> set ?before \<and>
           ge_window env \<and> ae_shown (ge_approval env) \<and> ae_reply (ge_approval env) = Replied True)"
    using B S2 by (intro exI [where x = ?d] exI [where x = asked]) auto
  have "write_authorized io env request scope sid ctx ?before"
    unfolding write_authorized_def
  proof (rule conjI)
    show "\<exists>dk6 dk7 dk8 dk9. {Seen 6 dk6, Seen 7 dk7, Seen 8 dk8, Seen 9 dk9} \<subseteq> set ?before \<and>
        ipc_write_session_id io dk6 request = Inr sid \<and>
        mcp_can (ge_now env 7) (dk_store dk7) (ipc_client_id request) scope sid \<and>
        validate_ipc_write_args io (ge_now env 8) dk8 request = Inr () \<and>
        revalidate_context io dk9 request ctx = Inr ()"
      by (rule exI [where x = dk6], rule exI [where x = dk7], rule exI [where x = dk8], rule exI [where x = dk9])
         (simp add: R(4-7))
  qed (rule first)
  moreover have "not_executed ?before" using S1 begin_audit(1) [OF b] by simp
  ultimately show ?thesis
    using R(1,2) tr R(3) by (intro exI [where x = ?before]) simp
qed


section \<open>An executed write\<close>

definition ex_gate_json :: "json json_ops" where
  "ex_gate_json = \<lparr>js_object = json_members, js_len = \<lambda>_. Some 2, js_is_string = \<lambda>_. False, js_is_number = \<lambda>_. False,
     js_is_i64 = \<lambda>_. False, js_is_u64 = \<lambda>_. False, js_is_boolean = \<lambda>_. False, js_as_str = \<lambda>_. None\<rparr>"

definition ex_gate_ops :: "(unit, nat) ipc_ops" where
  "ex_gate_ops = \<lparr>io_net = ex_tunnel_net, io_addresses = ex_tunnel_addresses, io_url = ex_load_url,
     io_clock_fits = \<lambda>_. True, io_rx = ex_no_secrets, io_uuid_ok = \<lambda>_. True, io_js = ex_gate_json,
     io_base64 = \<lambda>_. None, io_as_u64 = \<lambda>_. None, io_tunnel_exchange = \<lambda>_. None, io_udp_exchange = \<lambda>_. None,
     io_mcp_tunnel = \<lambda>_. None, io_path_transfer = \<lambda>_. None, io_inline_transfer = \<lambda>_. None,
     io_upload_transfer = \<lambda>_. None, io_virtual_source = \<lambda>_. None, io_protocol = \<lambda>_. None,
     io_destination = \<lambda>_. None, io_upload = \<lambda>_ _. Inl [], io_staged = \<lambda>_. False\<rparr>"

definition ex_gate_grant :: McpGrant where
  "ex_gate_grant = \<lparr>gr_client_id = str ''c'', gr_name = [], gr_scopes = [ManageMcp], gr_allowed_sessions = [],
     gr_confirm_writes = True, gr_expires_at = None, gr_revoked_at = None\<rparr>"

definition ex_gate_desktop :: "unit desktop" where
  "ex_gate_desktop = \<lparr>dk_store = default_store\<lparr>st_grants := [ex_gate_grant]\<rparr>, dk_tunnels = Map.empty\<rparr>"

definition ex_gate_env :: "unit gate_env" where
  "ex_gate_env = \<lparr>ge_world = \<lambda>_ dk. dk, ge_now = \<lambda>_. 0, ge_audit_id = [1], ge_approval_id = [2],
     ge_persist = \<lambda>_ _. Inr (), ge_verify = \<lambda>_ _. Inr True, ge_window = True, ge_pending = [],
     ge_approval = \<lparr>ae_now = \<lambda>_. 0, ae_shown = True, ae_others = \<lambda>q. [], ae_reply = Replied True\<rparr>,
     ge_read = \<lambda>dk. (dk, Inr JNull), ge_write = \<lambda>_ dk. (dk, Inr JNull)\<rparr>"

definition ex_gate_request :: IpcRequest where
  "ex_gate_request = \<lparr>ipc_client_id = str ''c'', ipc_trusted_write = False,
     ipc_command = str ''restart_mcp_http'', ipc_args = JNull\<rparr>"

lemma ex_gate_record: "st_audit st = [] \<Longrightarrow> st_audit (record_audit r st) = [r]"
  by (simp add: record_audit_def trim_oldest_matching_def Let_def)

lemma ex_gate_scope: "ipc_write_scope (ipc_command ex_gate_request) = Some ManageMcp"
  by (simp add: ex_gate_request_def ipc_write_scope_def is_command_def)

lemma ex_gate_target: "ipc_write_session_id ex_gate_ops dk ex_gate_request = Inr None"
  by (simp add: ex_gate_request_def ipc_write_session_id_def is_command_def)

lemma ex_gate_args: "validate_ipc_write_args ex_gate_ops now dk ex_gate_request = Inr ()"
  by (simp add: ex_gate_request_def validate_ipc_write_args_def)

lemma ex_gate_capture: "capture_mcp_write_execution_context ex_gate_ops dk ex_gate_request = Some (Inr CtxGeneric)"
  by (simp add: ex_gate_request_def capture_mcp_write_execution_context_def described_mcp_approval_target_def
      is_command_def and_shown_def Let_def)

lemma ex_gate_allows:
  "st_grants st = [ex_gate_grant] \<Longrightarrow> mcp_can 0 st (str ''c'') ManageMcp None"
  "st_grants st = [ex_gate_grant] \<Longrightarrow> mcp_scope_allowed 0 st (str ''c'') ManageMcp None"
  "st_grants st = [ex_gate_grant] \<Longrightarrow> mcp_write_confirmation_required 0 st (str ''c'') ManageMcp None"
proof -
  have t: "trim (str ''c'') = str ''c''" by (simp add: trim_eq_self_iff is_whitespace_def)
  have n: "normalize_mcp_client_id (str ''c'') = Inr (str ''c'')"
    unfolding normalize_mcp_client_id_def t
    by (simp add: printable_id_def byte_len_def len_utf8_def is_control_def)
  show a: "st_grants st = [ex_gate_grant] \<Longrightarrow> mcp_can 0 st (str ''c'') ManageMcp None"
    by (simp add: mcp_can_def ex_gate_grant_def grant_allows_def)
  then show "st_grants st = [ex_gate_grant] \<Longrightarrow> mcp_scope_allowed 0 st (str ''c'') ManageMcp None"
    by (simp only: mcp_scope_allowed_def n sum.case)
  show "st_grants st = [ex_gate_grant] \<Longrightarrow> mcp_write_confirmation_required 0 st (str ''c'') ManageMcp None"
    by (simp only: mcp_write_confirmation_required_def t) (simp add: ex_gate_grant_def grant_allows_def Let_def)
qed

lemma ex_gate_runs:
  "\<exists>dk tr r. handle_ipc_request ex_gate_ops ex_gate_env ex_gate_request ex_gate_desktop = Some (dk, tr, r) \<and>
     WriteExecuted None CtxGeneric \<in> set tr"
proof -
  let ?io = ex_gate_ops and ?env = ex_gate_env and ?rq = ex_gate_request
  have env: "ge_world ?env k dk = dk" "ge_now ?env k = 0" "ge_persist ?env k st = Inr ()" "ge_write ?env c dk = (dk, Inr JNull)" for k dk st c
    by (simp_all add: ex_gate_env_def)
  have client: "ipc_client_id ?rq = str ''c''" by (simp add: ex_gate_request_def)
  have commit: "commit_store_mutation m (ge_persist ?env k) (ge_verify ?env k) st = (st', Inr v)"
    if "m st = (st', Inr v)" for m :: "(unit, 'v) mutation" and k st st' v
    using that by (simp add: commit_store_mutation_def commit_store_mutation_with_state_def save_outcome_def env)
  let ?rec = "write_audit ?io ?env 3 ?rq ManageMcp None (str ''pending-approval'') True"
  let ?st = "record_audit ?rec (dk_store ex_gate_desktop)"
  have grants: "st_grants (dk_store ex_gate_desktop) = [ex_gate_grant]" "st_grants ?st = [ex_gate_grant]"
    by (simp_all add: ex_gate_desktop_def record_audit_def)
  have begun: "begin_mcp_write_audit ?io ?env 3 ?rq ManageMcp None ex_gate_desktop =
      (ex_gate_desktop\<lparr>dk_store := ?st\<rparr>,
       [Seen 3 ex_gate_desktop, AuditSaved [1] (str ''pending-approval'')], Inr (Authorized True))"
    using ex_gate_allows [OF grants(1)]
    by (simp add: begin_mcp_write_audit_def append_and_save_mcp_audit_def env client commit Let_def)
       (simp add: write_audit_def ex_gate_env_def)
  have asked: "snd (request_approval ?env ?rq None ManageMcp CtxGeneric) = Inr Approved"
    by (simp add: request_approval_def ex_gate_env_def ex_gate_request_def build_mcp_approval_request_with_target_def
        validate_mcp_session_id_def printable_id_def byte_len_def len_utf8_def is_control_def ensure_def
        await_mcp_approval_def remove_approval_def Let_def)
  have rec_id: "aud_id ?rec = [1]" by (simp add: write_audit_def ex_gate_env_def)
  have audit: "st_audit ?st = [?rec]" by (rule ex_gate_record) (simp add: ex_gate_desktop_def default_store_def)
  obtain st2 where st2: "update_mcp_write_audit [1] (str ''authorized'') (Some (str ''approved'')) ?st = (st2, Inr ())"
    "st_grants st2 = [ex_gate_grant]"
    using rec_id audit grants(2) by (simp add: update_mcp_write_audit_def)
  obtain tr2 where settled: "settle_approval ?env ?rq None ManageMcp CtxGeneric (ex_gate_desktop\<lparr>dk_store := ?st\<rparr>) =
      (ex_gate_desktop\<lparr>dk_store := st2\<rparr>, tr2, Inr (Some (str ''approved'')))"
  proof -
    obtain tr where tr: "request_approval ?env ?rq None ManageMcp CtxGeneric = (tr, Inr Approved)"
      using asked by (metis prod.collapse)
    have i: "ge_audit_id ?env = [1]" by (simp add: ex_gate_env_def)
    have "finish_mcp_write_audit ?env 5 (str ''authorized'') (Some (str ''approved'')) (ex_gate_desktop\<lparr>dk_store := ?st\<rparr>) =
        (ex_gate_desktop\<lparr>dk_store := st2\<rparr>, [AuditSaved [1] (str ''authorized'')], Inr ())"
      using commit [of "update_mcp_write_audit [1] (str ''authorized'') (Some (str ''approved''))" ?st st2 "()" 5, OF st2(1)]
      by (simp add: finish_mcp_write_audit_def env i Let_def)
    then show thesis using that by (simp add: settle_approval_def tr Let_def)
  qed
  have valid: "revalidate_ipc_write_target_with_context ?io ?env 6 ?rq ManageMcp None CtxGeneric
      (ex_gate_desktop\<lparr>dk_store := st2\<rparr>) = (ex_gate_desktop\<lparr>dk_store := st2\<rparr>, tr3, Inr ())"
    if "tr3 = map (\<lambda>k. Seen k (ex_gate_desktop\<lparr>dk_store := st2\<rparr>)) [6, 7, 8, 9]" for tr3
    using ex_gate_allows(1) [OF st2(2)]
    by (simp add: ex_gate_target ex_gate_args revalidate_ipc_write_target_with_context_def env client revalidate_context_def that Let_def)
  have executed: "WriteExecuted None CtxGeneric \<in> set (fst (snd (run_authorized_write ?io ?env ?rq ManageMcp None
      CtxGeneric (Some (str ''approved'')) (ex_gate_desktop\<lparr>dk_store := st2\<rparr>))))"
    by (simp add: run_authorized_write_def valid [OF refl] env Let_def split_def)
  obtain dk3 tr3 r3 where run: "run_authorized_write ?io ?env ?rq ManageMcp None CtxGeneric (Some (str ''approved''))
      (ex_gate_desktop\<lparr>dk_store := st2\<rparr>) = (dk3, tr3, r3)"
    by (rule prod_cases3)
  with executed have tr3: "WriteExecuted None CtxGeneric \<in> set tr3" by simp
  have "authorize_and_run ?io ?env ?rq ManageMcp None CtxGeneric ex_gate_desktop =
      (dk3, [Seen 3 ex_gate_desktop, AuditSaved [1] (str ''pending-approval'')] @ tr2 @ tr3, r3)"
    unfolding authorize_and_run_def begun prod.case sum.case McpWriteAuditStart.case if_True settled run Let_def ..
  then have "\<exists>dk tr r. authorize_and_run ?io ?env ?rq ManageMcp None CtxGeneric ex_gate_desktop = (dk, tr, r) \<and>
      WriteExecuted None CtxGeneric \<in> set tr"
    using tr3 by fastforce
  then show ?thesis
    by (simp add: handle_ipc_request_def ex_gate_scope write_target_def ex_gate_target ex_gate_args ex_gate_capture env)
qed


end
