(* ===== verification/Loaded_Ids.thy ===== *)
theory Loaded_Ids
  imports Store_Machine Profile_Norm Mcp_Transfer
begin

text \<open>
  Identifiers of a store that has just been parsed (\<open>store_normalization.rs\<close> and
  \<open>store_normalization/mirror.rs\<close> under \<open>src-tauri/src\<close>). A session identifier is brought to its
  normal form and made unique, what the file refers to by the old identifier follows it, and the
  records of each kind get identifiers of their own. The loops that look for an unused identifier
  are a partial function whose value is \<open>None\<close> when they do not end.
\<close>

section \<open>The search for an unused identifier\<close>

definition saturating_succ :: "nat \<Rightarrow> nat" where
  "saturating_succ n = min (Suc n) (2 ^ 64 - 1)"

partial_function (option) first_free ::
  "('s \<Rightarrow> 's) \<Rightarrow> ('s \<Rightarrow> ustr) \<Rightarrow> ustr set \<Rightarrow> 's \<Rightarrow> ustr option" where
  "first_free step candidate used s =
     (if candidate s \<notin> used then Some (candidate s)
      else first_free step candidate used (step s))"

definition loaded_suffix :: "nat \<Rightarrow> ustr" where
  "loaded_suffix number = str '':loaded:'' @ nat_str number"

definition loaded_session_candidate :: "ustr \<Rightarrow> nat \<Rightarrow> ustr" where
  "loaded_session_candidate session_id number =
     (let suffix_text = loaded_suffix number;
          base_limit = MAX_SESSION_PROFILE_ID_CHARACTERS - byte_len suffix_text
      in take base_limit session_id @ suffix_text)"

text \<open>The identifier and the set of identifiers in use after it.\<close>

definition reserve_unique_loaded_session_id ::
  "ustr \<Rightarrow> nat \<Rightarrow> ustr set \<Rightarrow> (ustr \<times> ustr set) option" where
  "reserve_unique_loaded_session_id session_id profile_position used_session_ids =
     (if session_id \<notin> used_session_ids then Some (session_id, insert session_id used_session_ids)
      else map_option (\<lambda>candidate. (candidate, insert candidate used_session_ids))
             (first_free saturating_succ (loaded_session_candidate session_id) used_session_ids
                (saturating_succ profile_position)))"

section \<open>Sessions that are renamed\<close>

record LoadedSessionIdRemap =
  rmp_exact :: "ustr \<rightharpoonup> ustr"
  rmp_normalized :: "ustr \<rightharpoonup> ustr option"

definition empty_remap :: LoadedSessionIdRemap where
  "empty_remap = \<lparr>rmp_exact = Map.empty, rmp_normalized = Map.empty\<rparr>"

definition remap_insert :: "ustr \<Rightarrow> ustr \<Rightarrow> LoadedSessionIdRemap \<Rightarrow> LoadedSessionIdRemap" where
  "remap_insert original_id normalized_id remap =
     (let exact = (case rmp_exact remap original_id of
                     None \<Rightarrow> (rmp_exact remap)(original_id \<mapsto> normalized_id)
                   | Some _ \<Rightarrow> rmp_exact remap);
          original_id = normalized_session_profile_id original_id
      in \<lparr>rmp_exact = exact,
          rmp_normalized =
            (case rmp_normalized remap original_id of
               None \<Rightarrow> (rmp_normalized remap)(original_id \<mapsto> Some normalized_id)
             | Some entry \<Rightarrow>
                 if entry \<noteq> Some normalized_id then (rmp_normalized remap)(original_id \<mapsto> None)
                 else rmp_normalized remap)\<rparr>)"

definition remap_loaded_session_id :: "LoadedSessionIdRemap \<Rightarrow> ustr \<Rightarrow> ustr" where
  "remap_loaded_session_id remap session_id =
     (case rmp_exact remap session_id of
        Some session_id \<Rightarrow> session_id
      | None \<Rightarrow>
          (case rmp_normalized remap (normalized_session_profile_id session_id) of
             Some (Some session_id) \<Rightarrow> session_id
           | _ \<Rightarrow> session_id))"

definition assign_host_key_owner :: "ustr \<Rightarrow> ustr \<Rightarrow> TrustedHostKey \<Rightarrow> TrustedHostKey" where
  "assign_host_key_owner normalized_id assigned_id key =
     (if thk_scope key \<noteq> ScopeProfile then key
      else let owner_id = (case thk_profile_id key of
                             None \<Rightarrow> [] | Some p \<Rightarrow> normalized_session_profile_id p)
           in if owner_id = [] \<or> owner_id = normalized_id
              then key\<lparr>thk_profile_id := Some assigned_id\<rparr> else key)"

definition assign_loaded_profile_id :: "SessionProfile \<Rightarrow> ustr \<Rightarrow> ustr \<Rightarrow> SessionProfile" where
  "assign_loaded_profile_id profile normalized_id assigned_id =
     (let profile = profile\<lparr>prof_id := assigned_id\<rparr>;
          assign = (\<lambda>ssh. ssh\<lparr>ssh_trusted_host_keys :=
                      map (assign_host_key_owner normalized_id assigned_id) (ssh_trusted_host_keys ssh)\<rparr>)
      in case prof_connection profile of
           ConnSsh ssh \<Rightarrow> profile\<lparr>prof_connection := ConnSsh (assign ssh)\<rparr>
         | ConnTmux ssh \<Rightarrow> profile\<lparr>prof_connection := ConnTmux (assign ssh)\<rparr>
         | _ \<Rightarrow> profile)"

text \<open>
  The loop over the profiles of the file: the profiles in their normal form, and the identifiers
  that replace those of the file. The identifier \<open>uuid i\<close> is the fresh one of position \<open>i\<close>.
\<close>

fun load_profiles ::
  "trigger_env \<Rightarrow> ('net, 'ip) net_ops \<Rightarrow> (nat \<Rightarrow> ustr) \<Rightarrow> nat \<Rightarrow> LoadedSessionIdRemap \<Rightarrow> ustr set
     \<Rightarrow> SessionProfile list \<Rightarrow> (SessionProfile list \<times> LoadedSessionIdRemap) option" where
  "load_profiles env net uuid profile_index remap used [] = Some ([], remap)"
| "load_profiles env net uuid profile_index remap used (profile # profiles) =
     (let original_id = prof_id profile;
          normalized_id = normalized_session_profile_id original_id;
          normalized_id = (if normalized_id = []
                           then str ''session-loaded-'' @ nat_str (profile_index + 1)
                           else normalized_id)
      in case reserve_unique_loaded_session_id normalized_id profile_index used of
           None \<Rightarrow> None
         | Some (assigned_id, used) \<Rightarrow>
             let profile = assign_loaded_profile_id profile normalized_id assigned_id;
                 profile = normalize_session_profile env net (uuid profile_index) profile
             in map_option (\<lambda>(ps, remap). (profile # ps, remap))
                  (load_profiles env net uuid (profile_index + 1)
                     (remap_insert original_id (prof_id profile) remap) used profiles))"

section \<open>Records of one kind\<close>

definition reserve_unique_loaded_record_id ::
  "ustr \<Rightarrow> ustr \<Rightarrow> nat \<Rightarrow> ustr set \<Rightarrow> ustr set \<Rightarrow> (ustr \<times> ustr set) option" where
  "reserve_unique_loaded_record_id original_id record_kind record_position reserved_ids used_ids =
     (if original_id \<noteq> [] \<and> original_id \<notin> used_ids
      then Some (original_id, insert original_id used_ids)
      else let base = (if original_id = [] then record_kind else original_id)
           in map_option (\<lambda>candidate. (candidate, insert candidate used_ids))
                (first_free saturating_succ (\<lambda>number. base @ loaded_suffix number)
                   (reserved_ids \<union> used_ids) (saturating_succ record_position)))"

fun assign_record_ids ::
  "('a \<Rightarrow> ustr) \<Rightarrow> (ustr \<Rightarrow> 'a \<Rightarrow> 'a) \<Rightarrow> ustr \<Rightarrow> ustr set \<Rightarrow> ustr set \<Rightarrow> nat \<Rightarrow> 'a list \<Rightarrow> 'a list option" where
  "assign_record_ids get put kind reserved used index [] = Some []"
| "assign_record_ids get put kind reserved used index (record # records) =
     (case reserve_unique_loaded_record_id (get record) kind index reserved used of
        None \<Rightarrow> None
      | Some (assigned_id, used) \<Rightarrow>
          map_option ((#) (put assigned_id record))
            (assign_record_ids get put kind reserved used (index + 1) records))"

definition normalize_loaded_record_ids ::
  "('a \<Rightarrow> ustr) \<Rightarrow> (ustr \<Rightarrow> 'a \<Rightarrow> 'a) \<Rightarrow> ustr \<Rightarrow> 'a list \<Rightarrow> 'a list option" where
  "normalize_loaded_record_ids get put kind records =
     (let reserved_ids = set (filter (\<lambda>id. id \<noteq> []) (map get records))
      in assign_record_ids get put kind reserved_ids {} 0 records)"

section \<open>The search ends\<close>

lemma first_free_reached:
  "candidate ((step ^^ k) s) \<notin> used \<Longrightarrow>
   \<exists>j \<le> k. first_free step candidate used s = Some (candidate ((step ^^ j) s)) \<and>
     candidate ((step ^^ j) s) \<notin> used"
proof (induction k arbitrary: s)
  case 0
  then show ?case by (subst first_free.simps) simp
next
  case (Suc k)
  show ?case
  proof (cases "candidate s \<in> used")
    case True
    have "candidate ((step ^^ k) (step s)) \<notin> used"
      using Suc.prems by (simp add: funpow_swap1)
    then obtain j where "j \<le> k"
      "first_free step candidate used (step s) = Some (candidate ((step ^^ j) (step s)))"
      "candidate ((step ^^ j) (step s)) \<notin> used"
      using Suc.IH by blast
    then show ?thesis
      using True by (intro exI [of _ "Suc j"]) (simp add: first_free.simps [of _ _ _ s] funpow_swap1)
  next
    case False
    then show ?thesis by (intro exI [of _ 0]) (simp add: first_free.simps [of _ _ _ s])
  qed
qed

text \<open>Among more candidates than there are identifiers in use one is free.\<close>

lemma first_free_Some:
  assumes "finite used" "inj_on (\<lambda>k. candidate ((step ^^ k) s)) {..card used}"
  obtains j where "j \<le> card used" "first_free step candidate used s = Some (candidate ((step ^^ j) s))"
    "candidate ((step ^^ j) s) \<notin> used"
proof -
  have "\<exists>k \<le> card used. candidate ((step ^^ k) s) \<notin> used"
  proof (rule ccontr)
    assume "\<not> ?thesis"
    then have "(\<lambda>k. candidate ((step ^^ k) s)) ` {..card used} \<subseteq> used" by auto
    then have "card {..card used} \<le> card used" using assms card_inj_on_le by blast
    then show False by simp
  qed
  then show ?thesis using first_free_reached [of candidate _ step s used] that order_trans by blast
qed

lemma saturating_succ_pow: "n + k < 2 ^ 64 \<Longrightarrow> (saturating_succ ^^ k) n = n + k"
  by (induction k) (simp_all add: saturating_succ_def)

lemma colon_number:
  assumes "x @ [58] @ nat_str n = y @ [58] @ nat_str m"
  shows "n = m"
proof -
  have digits: "takeWhile is_ascii_digit (rev (z @ [58] @ nat_str k)) = rev (nat_str k)" for z k
  proof -
    have "takeWhile is_ascii_digit (rev (nat_str k) @ rev (z @ [58])) =
        rev (nat_str k) @ takeWhile is_ascii_digit (rev (z @ [58]))"
      using nat_str_digits [of k] by (intro takeWhile_append2) (simp add: list_all_iff)
    then show ?thesis by (simp add: is_ascii_digit_def)
  qed
  have "rev (nat_str n) = rev (nat_str m)" by (rule trans [OF digits [symmetric, of n x] ]) (simp only: assms digits)
  then have "nat_str n = nat_str m" by simp
  then show ?thesis by (metis digits_value_nat_str)
qed

lemma loaded_suffix_colon: "loaded_suffix n = str '':loaded'' @ [58] @ nat_str n"
  by (simp add: loaded_suffix_def)

lemma loaded_suffix_inj: "x @ loaded_suffix n = y @ loaded_suffix m \<Longrightarrow> n = m"
  using colon_number [of "x @ str '':loaded''" n "y @ str '':loaded''" m] by (simp add: loaded_suffix_def)

text \<open>The loops whose candidates end in the number they have reached.\<close>

lemma first_free_suffix:
  assumes "finite used" "n + card used < 2 ^ 64 - 1"
    and differ: "\<And>a b. candidate a = candidate b \<Longrightarrow> a = (b :: nat)"
  obtains j where "n < j" "j \<le> n + card used + 1" "candidate j \<notin> used"
    "first_free saturating_succ candidate used (saturating_succ n) = Some (candidate j)"
proof -
  have s: "(saturating_succ ^^ k) (saturating_succ n) = n + 1 + k" if "k \<le> card used" for k
    using that assms(2) by (subst saturating_succ_pow) (simp_all add: saturating_succ_def)
  have "inj_on (\<lambda>k. candidate ((saturating_succ ^^ k) (saturating_succ n))) {..card used}"
    by (rule inj_onI) (use s differ in fastforce)
  then obtain j where "j \<le> card used" "candidate (n + 1 + j) \<notin> used"
    "first_free saturating_succ candidate used (saturating_succ n) = Some (candidate (n + 1 + j))"
    using first_free_Some [OF assms(1)] s by metis
  then show ?thesis by (intro that [of "n + 1 + j"]) simp_all
qed

section \<open>Session identifiers\<close>

lemma reserve_session_Some:
  assumes "finite used" "n + card used < 2 ^ 64 - 1"
  obtains assigned where
    "reserve_unique_loaded_session_id sid n used = Some (assigned, insert assigned used)"
    "assigned \<notin> used" "sid \<notin> used \<Longrightarrow> assigned = sid"
    "assigned = sid \<or> (\<exists>j \<le> n + card used + 1. assigned = loaded_session_candidate sid j)"
proof (cases "sid \<in> used")
  case True
  have "a = b" if "loaded_session_candidate sid a = loaded_session_candidate sid b" for a b
    using that unfolding loaded_session_candidate_def Let_def by (rule loaded_suffix_inj)
  then obtain j where "j \<le> n + card used + 1" "loaded_session_candidate sid j \<notin> used"
    "first_free saturating_succ (loaded_session_candidate sid) used (saturating_succ n) =
       Some (loaded_session_candidate sid j)"
    using first_free_suffix [OF assms, of "loaded_session_candidate sid"] by metis
  note j = this
  show ?thesis
  proof (rule that [of "loaded_session_candidate sid j"])
    show "reserve_unique_loaded_session_id sid n used =
        Some (loaded_session_candidate sid j, insert (loaded_session_candidate sid j) used)"
      using True j(3) by (simp only: reserve_unique_loaded_session_id_def) simp
  qed (use True j in auto)
next
  case False
  show ?thesis
    by (rule that [of sid]) (use False in \<open>simp_all add: reserve_unique_loaded_session_id_def\<close>)
qed

lemma byte_len_ascii: "\<forall>c \<in> set s. c < 128 \<Longrightarrow> byte_len s = length s"
  by (induction s) (simp_all add: len_utf8_def)

lemma loaded_suffix_clean:
  "loaded_suffix n \<noteq> []" "hd (loaded_suffix n) = 58" "is_ascii_digit (List.last (loaded_suffix n))"
  "\<forall>c \<in> set (loaded_suffix n). 32 < c \<and> c < 127" "byte_len (loaded_suffix n) = length (loaded_suffix n)"
proof -
  have d: "\<forall>c \<in> set (nat_str n). 48 \<le> c \<and> c \<le> 57"
    using nat_str_digits [of n] by (auto simp add: list_all_iff is_ascii_digit_def)
  then show c: "\<forall>c \<in> set (loaded_suffix n). 32 < c \<and> c < 127" by (auto simp add: loaded_suffix_def)
  show "is_ascii_digit (List.last (loaded_suffix n))"
    using d by (simp add: loaded_suffix_def is_ascii_digit_def)
  show "byte_len (loaded_suffix n) = length (loaded_suffix n)"
    using c by (intro byte_len_ascii) auto
qed (simp_all add: loaded_suffix_def)

lemma loaded_candidate_metadata:
  assumes "metadata_text 256 sid" "j < 10 ^ 20"
  shows "metadata_text 256 (loaded_session_candidate sid j)"
proof -
  let ?t = "loaded_suffix j"
  have len: "length ?t \<le> 28" using nat_str_length [of j 19] assms(2) by (simp add: loaded_suffix_def)
  have ends: "\<not> is_whitespace (List.last ?t)" "\<forall>c \<in> set ?t. \<not> is_control c" "\<not> is_whitespace 58"
    using loaded_suffix_clean [of j] by (auto simp add: is_whitespace_def is_control_def is_ascii_digit_def)
  let ?b = "take (256 - byte_len ?t) sid"
  have "?b = [] \<or> hd ?b = hd sid \<and> sid \<noteq> []" by (cases sid) (auto simp add: take_Cons')
  then have "hd (?b @ ?t) = 58 \<or> \<not> is_whitespace (hd (?b @ ?t))"
    using assms(1) loaded_suffix_clean(2) [of j]
    by (auto simp add: hd_append metadata_text_def trim_eq_self_iff)
  moreover have "\<forall>c \<in> set ?b. \<not> is_control c"
    using assms(1) set_take_subset [of _ sid] by (auto simp add: metadata_text_def)
  ultimately show ?thesis
    using ends len loaded_suffix_clean [of j]
    by (auto simp add: loaded_session_candidate_def Let_def metadata_text_def trim_eq_self_iff)
qed

lemma assign_loaded_profile_sel [simp]:
  "prof_id (assign_loaded_profile_id p n a) = a"
  by (simp add: assign_loaded_profile_id_def Let_def split: ConnectionConfig.split)

lemma normalize_profile_prof_id:
  assumes "metadata_text 256 (prof_id p)" "prof_id p \<noteq> []"
  shows "prof_id (normalize_session_profile env net u p) =
    (if prof_id p = MCP_NO_SESSIONS_SENTINEL then str ''session-'' @ u else prof_id p)"
  using assms
  by (simp add: normalize_session_profile_def Let_def normalized_session_profile_id_def normalized_metadata_id)

lemma session_loaded_metadata:
  assumes "n < 10 ^ 20"
  shows "metadata_text 256 (str ''session-loaded-'' @ nat_str n)"
proof -
  have d: "\<forall>c \<in> set (nat_str n). 48 \<le> c \<and> c \<le> 57"
    using nat_str_digits [of n] by (auto simp add: list_all_iff is_ascii_digit_def)
  have "\<not> is_whitespace (List.last (nat_str n))" using nat_str_no_whitespace [of n] by (simp add: list_all_iff)
  then show ?thesis
    using nat_str_length [of n 19] assms d
    by (auto simp add: metadata_text_def trim_eq_self_iff is_whitespace_def [of 115] is_control_def)
qed

text \<open>
  The identifier that a fresh UUID gives a session is not one that the file's profiles have; no
  identifier made from a number is one, since such a number follows a letter or a colon that a
  UUID does not contain.
\<close>

definition fresh_session_uuids :: "(nat \<Rightarrow> ustr) \<Rightarrow> SessionProfile list \<Rightarrow> bool" where
  "fresh_session_uuids uuid ps \<longleftrightarrow>
     (\<forall>i. \<forall>p \<in> set ps. normalized_session_profile_id (prof_id p) \<noteq> str ''session-'' @ uuid i)"

lemma uuid_not_numbered:
  assumes "uuid_text u"
  shows "loaded_session_candidate sid j \<noteq> str ''session-'' @ u"
    "str ''session-loaded-'' @ nat_str n \<noteq> str ''session-'' @ u"
proof -
  have "58 \<in> set (loaded_session_candidate sid j)"
    by (simp add: loaded_session_candidate_def Let_def loaded_suffix_def)
  moreover have "58 \<notin> set (str ''session-'' @ u)"
    using assms by (auto simp add: uuid_text_def is_ascii_hexdigit_def is_ascii_digit_def)
  ultimately show "loaded_session_candidate sid j \<noteq> str ''session-'' @ u" by metis
  have "108 \<notin> set u"
    using assms by (auto simp add: uuid_text_def is_ascii_hexdigit_def is_ascii_digit_def)
  then show "str ''session-loaded-'' @ nat_str n \<noteq> str ''session-'' @ u" by auto
qed

text \<open>The profiles of the file are normal afterwards, none is lost and no two share an identifier.\<close>

lemma load_profiles_Some:
  assumes "finite used" "profile_index + card used + 2 * length ps < 2 ^ 64 - 1"
    and uuid: "\<And>i. uuid_text (uuid i)"
  obtains qs remap' as where "load_profiles env net uuid profile_index remap used ps = Some (qs, remap')"
    "length qs = length ps" "length as = length ps" "distinct as" "set as \<inter> used = {}"
    "\<forall>q \<in> set qs. profile_normal env net q"
    "\<forall>k < length ps. prof_id (qs ! k) =
       (if as ! k = MCP_NO_SESSIONS_SENTINEL then str ''session-'' @ uuid (profile_index + k) else as ! k)"
    "fresh_session_uuids uuid ps \<longrightarrow> (\<forall>a \<in> set as. \<forall>i. a \<noteq> str ''session-'' @ uuid i)"
proof -
  have "\<exists>qs remap' as. load_profiles env net uuid profile_index remap used ps = Some (qs, remap') \<and>
    length qs = length ps \<and> length as = length ps \<and> distinct as \<and> set as \<inter> used = {} \<and>
    (\<forall>q \<in> set qs. profile_normal env net q) \<and>
    (\<forall>k < length ps. prof_id (qs ! k) =
       (if as ! k = MCP_NO_SESSIONS_SENTINEL then str ''session-'' @ uuid (profile_index + k) else as ! k)) \<and>
    (fresh_session_uuids uuid ps \<longrightarrow> (\<forall>a \<in> set as. \<forall>i. a \<noteq> str ''session-'' @ uuid i))"
    using assms(1,2)
  proof (induction ps arbitrary: profile_index remap used)
    case (Cons p ps)
    let ?n = "normalized_session_profile_id (prof_id p)"
    let ?s = "if ?n = [] then str ''session-loaded-'' @ nat_str (profile_index + 1) else ?n"
    have s: "metadata_text 256 ?s" "?s \<noteq> []"
      using session_loaded_metadata [of "profile_index + 1"] Cons.prems(2)
      by (auto simp add: normalized_session_profile_id_def)
    obtain a where a: "reserve_unique_loaded_session_id ?s profile_index used = Some (a, insert a used)"
      "a \<notin> used" "a = ?s \<or> (\<exists>j \<le> profile_index + card used + 1. a = loaded_session_candidate ?s j)"
      using reserve_session_Some [OF Cons.prems(1), of profile_index ?s] Cons.prems(2) by auto
    have m: "metadata_text 256 a" "a \<noteq> []"
      using a(3) s loaded_candidate_metadata [OF s(1)] Cons.prems(2)
      by (auto simp add: loaded_session_candidate_def Let_def loaded_suffix_def)
    let ?q = "normalize_session_profile env net (uuid profile_index) (assign_loaded_profile_id p ?s a)"
    have q: "profile_normal env net ?q" by (rule normalize_profile_normal [OF uuid])
    have qid: "prof_id ?q = (if a = MCP_NO_SESSIONS_SENTINEL then str ''session-'' @ uuid profile_index else a)"
      using m by (simp add: normalize_profile_prof_id)
    obtain qs r as where IH: "load_profiles env net uuid (profile_index + 1)
          (remap_insert (prof_id p) (prof_id ?q) remap) (insert a used) ps = Some (qs, r)"
      "length qs = length ps" "length as = length ps" "distinct as" "set as \<inter> insert a used = {}"
      "\<forall>q \<in> set qs. profile_normal env net q"
      "\<forall>k < length ps. prof_id (qs ! k) =
         (if as ! k = MCP_NO_SESSIONS_SENTINEL then str ''session-'' @ uuid (profile_index + 1 + k) else as ! k)"
      "fresh_session_uuids uuid ps \<longrightarrow> (\<forall>a \<in> set as. \<forall>i. a \<noteq> str ''session-'' @ uuid i)"
      using Cons.IH [of "insert a used" "profile_index + 1" "remap_insert (prof_id p) (prof_id ?q) remap"]
        Cons.prems a(2) by auto
    have "a \<noteq> str ''session-'' @ uuid i" if "fresh_session_uuids uuid (p # ps)" for i
    proof -
      have "?s \<noteq> str ''session-'' @ uuid i"
        using that uuid_not_numbered(2) [OF uuid, of "profile_index + 1" i]
        by (auto simp only: fresh_session_uuids_def list.set_map list.simps insert_iff split: if_splits)
      then show ?thesis using a(3) uuid_not_numbered(1) [OF uuid] by metis
    qed
    moreover have "load_profiles env net uuid profile_index remap used (p # ps) = Some (?q # qs, r)"
      using a(1) IH(1) by (simp add: Let_def)
    moreover have "\<forall>k < length (p # ps). prof_id ((?q # qs) ! k) =
       (if (a # as) ! k = MCP_NO_SESSIONS_SENTINEL then str ''session-'' @ uuid (profile_index + k) else (a # as) ! k)"
      using IH(7) qid by (auto simp add: nth_Cons split: nat.splits)
    ultimately show ?case
      using IH(2-6,8) a(2) q
      by (intro exI [of _ "?q # qs"] exI [of _ r] exI [of _ "a # as"]) (auto simp add: fresh_session_uuids_def)
  qed simp
  then show ?thesis using that by blast
qed

lemma load_profiles_distinct:
  assumes "length as = length ps" "length qs = length ps" "distinct as"
    and ids: "\<forall>k < length ps. prof_id (qs ! k) =
       (if as ! k = MCP_NO_SESSIONS_SENTINEL then str ''session-'' @ uuid (i + k) else as ! k)"
    and fresh: "\<forall>a \<in> set as. \<forall>i. a \<noteq> str ''session-'' @ uuid i"
  shows "distinct (map prof_id qs)"
proof -
  have "prof_id (qs ! j) \<noteq> prof_id (qs ! k)" if jk: "j < length ps" "k < length ps" "j \<noteq> k" for j k
  proof -
    have "as ! j \<noteq> as ! k" "as ! j \<in> set as" "as ! k \<in> set as"
      using jk assms(1,3) by (simp_all add: nth_eq_iff_index_eq)
    then show ?thesis using ids fresh jk by metis
  qed
  then show ?thesis using assms(2) by (simp add: distinct_conv_nth)
qed

section \<open>A file whose profiles are normal already\<close>

lemma assign_loaded_profile_id_same:
  assumes "profile_normal env net p"
  shows "assign_loaded_profile_id p (prof_id p) (prof_id p) = p"
proof -
  have id: "metadata_text 256 (prof_id p)" using assms by (simp add: profile_normal_def)
  have keys: "map (assign_host_key_owner (prof_id p) (prof_id p)) (ssh_trusted_host_keys ssh) =
      ssh_trusted_host_keys ssh" if "ssh_normal net (prof_id p) ssh" for ssh
  proof (rule map_idI)
    fix key assume "key \<in> set (ssh_trusted_host_keys ssh)"
    then have "host_key_normal (prof_id p) key" using that by (auto simp add: ssh_normal_def list_all_iff)
    then show "assign_host_key_owner (prof_id p) (prof_id p) key = key"
      by (cases key) (auto simp add: host_key_normal_def assign_host_key_owner_def Let_def
          normalized_session_profile_id_def normalized_metadata_id [OF id])
  qed
  have same: "p\<lparr>prof_connection := c\<rparr> = p" if "prof_connection p = c" for c
    using that by (cases p) simp
  have conn: "connection_normal net (prof_id p) (prof_connection p)" using assms by (simp add: profile_normal_def)
  show ?thesis
  proof (cases "prof_connection p")
    case (ConnSsh ssh)
    then have "ssh_normal net (prof_id p) ssh" using conn by (simp add: connection_normal_def)
    then show ?thesis using ConnSsh same by (simp add: assign_loaded_profile_id_def keys)
  next
    case (ConnTmux ssh)
    then have "ssh_normal net (prof_id p) ssh" using conn by (simp add: connection_normal_def)
    then show ?thesis using ConnTmux same by (simp add: assign_loaded_profile_id_def keys)
  qed (simp_all add: assign_loaded_profile_id_def)
qed

lemma load_profiles_id:
  assumes "\<forall>p \<in> set ps. profile_normal env net p" "distinct (map prof_id ps)"
    "prof_id ` set ps \<inter> used = {}"
  shows "load_profiles env net uuid i remap used ps =
    Some (ps, fold (\<lambda>p. remap_insert (prof_id p) (prof_id p)) ps remap)"
  using assms
proof (induction ps arbitrary: i remap used)
  case (Cons p ps)
  have p: "profile_normal env net p" using Cons.prems(1) by simp
  then have n: "normalized_session_profile_id (prof_id p) = prof_id p" "prof_id p \<noteq> []"
    by (simp_all add: profile_normal_def normalized_session_profile_id_def normalized_metadata_id)
  have r: "reserve_unique_loaded_session_id (prof_id p) i used = Some (prof_id p, insert (prof_id p) used)"
    using Cons.prems(3) by (simp add: reserve_unique_loaded_session_id_def)
  have IH: "load_profiles env net uuid (i + 1) (remap_insert (prof_id p) (prof_id p) remap)
      (insert (prof_id p) used) ps =
    Some (ps, fold (\<lambda>p. remap_insert (prof_id p) (prof_id p)) ps (remap_insert (prof_id p) (prof_id p) remap))"
    using Cons.prems by (intro Cons.IH) auto
  show ?case
    using n r IH by (simp add: Let_def assign_loaded_profile_id_same [OF p] normalize_profile_id [OF p])
qed simp

lemma remap_insert_exact:
  "rmp_exact (remap_insert a b remap) =
     (if rmp_exact remap a = None then (rmp_exact remap)(a \<mapsto> b) else rmp_exact remap)"
  by (auto simp add: remap_insert_def Let_def split: option.splits)

lemma fold_remap_exact:
  assumes "\<forall>k v. rmp_exact remap k = Some v \<longrightarrow> v = k"
  shows "k \<in> prof_id ` set ps \<or> rmp_exact remap k \<noteq> None \<Longrightarrow>
    rmp_exact (fold (\<lambda>p. remap_insert (prof_id p) (prof_id p)) ps remap) k = Some k"
  using assms
proof (induction ps arbitrary: remap)
  case (Cons p ps)
  let ?r = "remap_insert (prof_id p) (prof_id p) remap"
  have "\<forall>k v. rmp_exact ?r k = Some v \<longrightarrow> v = k"
    using Cons.prems(2) by (simp add: remap_insert_exact)
  moreover have "rmp_exact ?r (prof_id p) \<noteq> None" "rmp_exact remap k \<noteq> None \<Longrightarrow> rmp_exact ?r k \<noteq> None"
    by (simp_all add: remap_insert_exact)
  ultimately show ?case using Cons.IH [of ?r] Cons.prems(1) by (simp only: fold_simps list.set image_insert insert_iff) metis
qed (simp, metis not_None_eq)

text \<open>Identifiers of the file's own sessions stay as they are.\<close>

lemma remap_own_session:
  assumes "k \<in> prof_id ` set ps"
  shows "remap_loaded_session_id (fold (\<lambda>p. remap_insert (prof_id p) (prof_id p)) ps empty_remap) k = k"
  using fold_remap_exact [of empty_remap k ps] assms
  by (simp add: remap_loaded_session_id_def empty_remap_def)

section \<open>Records with identifiers\<close>

text \<open>The interface of \<open>normalize_loaded_record_ids\<close>: reading and writing the identifier of a record.\<close>

locale keyed_record =
  fixes get :: "'a \<Rightarrow> ustr"
    and put :: "ustr \<Rightarrow> 'a \<Rightarrow> 'a"
  assumes get_put: "get (put i r) = i"
    and put_get: "put (get r) r = r"
begin

lemma reserve_record_Some:
  assumes "finite reserved" "finite used" "n + card (reserved \<union> used) < 2 ^ 64 - 1"
  obtains a where "reserve_unique_loaded_record_id i kind n reserved used = Some (a, insert a used)"
    "a \<notin> used" "a = i \<or> a \<notin> reserved" "i \<noteq> [] \<and> i \<notin> used \<Longrightarrow> a = i" "a \<noteq> []"
proof (cases "i \<noteq> [] \<and> i \<notin> used")
  case True
  show ?thesis
    by (rule that [of i]) (use True in \<open>simp_all add: reserve_unique_loaded_record_id_def\<close>)
next
  case False
  let ?c = "\<lambda>k. (if i = [] then kind else i) @ loaded_suffix k"
  have inj: "?c a = ?c b \<Longrightarrow> a = b" for a b by (rule loaded_suffix_inj)
  obtain j where j: "?c j \<notin> reserved \<union> used"
    "first_free saturating_succ ?c (reserved \<union> used) (saturating_succ n) = Some (?c j)"
    by (rule first_free_suffix [of "reserved \<union> used" n ?c, OF _ assms(3) inj]) (use assms(1,2) in simp_all)
  show ?thesis
  proof (rule that [of "?c j"])
    show "reserve_unique_loaded_record_id i kind n reserved used = Some (?c j, insert (?c j) used)"
      using False j(2) by (simp only: reserve_unique_loaded_record_id_def Let_def) simp
  qed (use False j(1) loaded_suffix_clean(1) in auto)
qed

text \<open>Every record gets an identifier that is not in use, and keeps everything else.\<close>

lemma assign_record_ids_Some:
  assumes "finite reserved" "finite used" "n + card (reserved \<union> used) + 2 * length rs < 2 ^ 64 - 1"
  shows "\<exists>rs'. assign_record_ids get put kind reserved used n rs = Some rs' \<and>
    distinct (map get rs') \<and> get ` set rs' \<inter> used = {} \<and> [] \<notin> get ` set rs'"
  using assms
proof (induction rs arbitrary: n used)
  case (Cons r rs)
  obtain a where a: "reserve_unique_loaded_record_id (get r) kind n reserved used = Some (a, insert a used)"
    "a \<notin> used" "a \<noteq> []"
    by (rule reserve_record_Some [of reserved used n "get r" kind]) (use Cons.prems in simp_all)
  have "card (reserved \<union> insert a used) \<le> card (reserved \<union> used) + 1"
    using Cons.prems(1,2) by (simp add: card_insert_if)
  then obtain rs' where "assign_record_ids get put kind reserved (insert a used) (n + 1) rs = Some rs'"
    "distinct (map get rs')" "get ` set rs' \<inter> insert a used = {}" "[] \<notin> get ` set rs'"
    using Cons.IH [of "insert a used" "n + 1"] Cons.prems by auto
  then show ?case using a by (auto simp add: get_put)
qed simp

lemma assign_record_ids_frame:
  assumes "assign_record_ids get put kind reserved used n rs = Some rs'" "\<And>i r. f (put i r) = f r"
  shows "map f rs' = map f rs"
  using assms(1) by (induction rs arbitrary: n used rs') (auto simp add: assms(2) split: option.splits)

lemma normalize_ids_Some:
  assumes "length rs < 2 ^ 62"
  obtains rs' where "normalize_loaded_record_ids get put kind rs = Some rs'"
    "distinct (map get rs')" "[] \<notin> get ` set rs'"
proof -
  let ?reserved = "set (filter (\<lambda>id. id \<noteq> []) (map get rs))"
  have "card ?reserved \<le> length rs"
    using card_length [of "filter (\<lambda>id. id \<noteq> []) (map get rs)"] length_filter_le [of _ "map get rs"]
    by (metis (no_types, lifting) length_map order_trans)
  then have "\<exists>rs'. assign_record_ids get put kind ?reserved {} 0 rs = Some rs' \<and>
      distinct (map get rs') \<and> get ` set rs' \<inter> {} = {} \<and> [] \<notin> get ` set rs'"
    using assms by (intro assign_record_ids_Some) simp_all
  then show ?thesis using that by (auto simp add: normalize_loaded_record_ids_def)
qed

lemma normalize_ids_frame:
  assumes "normalize_loaded_record_ids get put kind rs = Some rs'" "\<And>i r. f (put i r) = f r"
  shows "map f rs' = map f rs"
  using assms by (auto simp add: normalize_loaded_record_ids_def intro: assign_record_ids_frame)

text \<open>Identifiers that are different already are kept.\<close>

lemma normalize_ids_id:
  assumes "distinct (map get rs)" "[] \<notin> get ` set rs"
  shows "normalize_loaded_record_ids get put kind rs = Some rs"
proof -
  have "assign_record_ids get put kind reserved used n rs = Some rs"
    if "get ` set rs \<inter> used = {}" for reserved used n
    using assms that
    by (induction rs arbitrary: n used) (auto simp add: reserve_unique_loaded_record_id_def put_get)
  then show ?thesis by (simp add: normalize_loaded_record_ids_def)
qed

end

definition put_event_id :: "ustr \<Rightarrow> SessionEvent \<Rightarrow> SessionEvent" where
  "put_event_id i r = r\<lparr>ev_id := i\<rparr>"

definition put_transfer_id :: "ustr \<Rightarrow> TransferTask \<Rightarrow> TransferTask" where
  "put_transfer_id i r = r\<lparr>tft_id := i\<rparr>"

definition put_audit_id :: "ustr \<Rightarrow> AuditRecord \<Rightarrow> AuditRecord" where
  "put_audit_id i r = r\<lparr>aud_id := i\<rparr>"

definition put_mark_id :: "ustr \<Rightarrow> TimelineMark \<Rightarrow> TimelineMark" where
  "put_mark_id i r = r\<lparr>tlm_id := i\<rparr>"

definition put_host_key_id :: "ustr \<Rightarrow> TrustedHostKey \<Rightarrow> TrustedHostKey" where
  "put_host_key_id i r = r\<lparr>thk_id := i\<rparr>"

interpretation event_ids: keyed_record ev_id put_event_id
  by unfold_locales (simp_all add: put_event_id_def)

interpretation transfer_ids: keyed_record tft_id put_transfer_id
  by unfold_locales (simp_all add: put_transfer_id_def)

interpretation audit_ids: keyed_record aud_id put_audit_id
  by unfold_locales (simp_all add: put_audit_id_def)

interpretation mark_ids: keyed_record tlm_id put_mark_id
  by unfold_locales (simp_all add: put_mark_id_def)

interpretation host_key_ids: keyed_record thk_id put_host_key_id
  by unfold_locales (simp_all add: put_host_key_id_def)

end
