(* ===== verification/One_Keys.thy ===== *)
theory One_Keys
  imports Loaded_Ids Proxy
begin

text \<open>
  OneKeys and client identities (\<open>profile_security.rs\<close>, \<open>one_key_runtime.rs\<close> and
  \<open>store_normalization/one_key.rs\<close> under \<open>src-tauri/src\<close>): the normal form of an identity, the
  credentials a OneKey refers to, the sessions it is bound to, and the OneKeys of a loaded store.
\<close>

abbreviation (input) MAX_ONE_KEYS :: nat where "MAX_ONE_KEYS \<equiv> 64"
abbreviation (input) MAX_ONE_KEY_LABEL_CHARACTERS :: nat where "MAX_ONE_KEY_LABEL_CHARACTERS \<equiv> 64"
abbreviation (input) MAX_ONE_KEY_USERNAME_CHARACTERS :: nat where "MAX_ONE_KEY_USERNAME_CHARACTERS \<equiv> 256"
abbreviation (input) MAX_ONE_KEY_SESSIONS :: nat where "MAX_ONE_KEY_SESSIONS \<equiv> 64"

datatype CredentialError =
    CredUnknownSession ustr | NotSshProfile ustr
  | IdentityIdFixed | IdentityLabelEmpty | IdentitySecretMissing | IdentityPathMissing
  | IdentityUnknown ustr | IdentityDuplicate ustr | IdentityIdEmpty | IdentityUsedByJump
  | IdentityNotInVault | SecretRefInvalid | SecretProblem ustr
  | PublicKeyIdentity | IdentityNotBound
  | OneKeyGone | OneKeyLimit | OneKeyLabelEmpty | OneKeyUsernameInvalid | OneKeyNoSession
  | OneKeySessionLimit | OneKeyUnknownSession ustr | OneKeySessionKind ustr | OneKeyWithoutCredential
  | OneKeySecretEmpty | OneKeySecretTooLong | OneKeySecretNul
  | LoginNeedsSsh | LoginNeedsSshKey | OneKeyNotBound | OneKeySecretContent
  | SummaryMissing ustr | StoreFailed ustr | StoreUnknownOutcome ustr

section \<open>Client identities\<close>

definition ssh_connection :: "SessionProfile \<Rightarrow> CredentialError + SshConnection" where
  "ssh_connection profile =
     (case prof_connection profile of
        ConnSsh ssh \<Rightarrow> Inr ssh
      | ConnTmux ssh \<Rightarrow> Inr ssh
      | _ \<Rightarrow> Inl (NotSshProfile (prof_id profile)))"

definition profile_proxy :: "SessionProfile \<Rightarrow> ProxyConfig option" where
  "profile_proxy profile =
     (case prof_connection profile of
        ConnSsh ssh \<Rightarrow> Some (ssh_proxy ssh)
      | ConnTmux ssh \<Rightarrow> Some (ssh_proxy ssh)
      | ConnTcp tcp \<Rightarrow> Some (tcp_proxy tcp)
      | ConnTelnet tcp \<Rightarrow> Some (tcp_proxy tcp)
      | _ \<Rightarrow> None)"

definition find_client_identity ::
  "'vt SessionStore \<Rightarrow> ustr \<Rightarrow> ustr \<Rightarrow> CredentialError + IdentityRef" where
  "find_client_identity store profile_id identity_id =
     and_then (ok_or (CredUnknownSession profile_id) (store_profile store profile_id)) (\<lambda>profile.
     and_then (ssh_connection profile) (\<lambda>ssh.
       case filter (\<lambda>identity. idr_id identity = identity_id) (ssh_identity_refs ssh) of
         [identity] \<Rightarrow> Inr identity
       | [] \<Rightarrow> Inl (IdentityUnknown identity_id)
       | _ \<Rightarrow> Inl (IdentityDuplicate identity_id)))"

fun identity_ids_loop :: "ustr list \<Rightarrow> IdentityRef list \<Rightarrow> CredentialError + unit" where
  "identity_ids_loop ids [] = Inr ()"
| "identity_ids_loop ids (identity # rest) =
     (if trim (idr_id identity) = [] then Inl IdentityIdEmpty
      else if idr_source identity = SystemFile \<and>
              (case idr_path identity of None \<Rightarrow> True | Some path \<Rightarrow> trim path = [])
      then Inl IdentityPathMissing
      else if idr_id identity \<in> set ids then Inl (IdentityDuplicate (idr_id identity))
      else identity_ids_loop (idr_id identity # ids) rest)"

definition validate_profile_client_identity_ids :: "SessionProfile \<Rightarrow> CredentialError + unit" where
  "validate_profile_client_identity_ids profile =
     (case ssh_connection profile of
        Inl _ \<Rightarrow> Inr ()
      | Inr ssh \<Rightarrow> identity_ids_loop [] (ssh_identity_refs ssh))"

definition normalize_client_identity ::
  "ustr \<Rightarrow> IdentityRef \<Rightarrow> (ustr \<Rightarrow> CredentialError + unit) \<Rightarrow> CredentialError + IdentityRef" where
  "normalize_client_identity expected_id identity check_secret =
     (if idr_id identity \<noteq> expected_id \<or> trim (idr_id identity) = [] then Inl IdentityIdFixed
      else
        let identity = identity\<lparr>idr_label := trim (idr_label identity)\<rparr>
        in if idr_label identity = [] then Inl IdentityLabelEmpty
           else
             let identity = identity
                   \<lparr>idr_fingerprint_sha256 := trimmed_text (idr_fingerprint_sha256 identity),
                    idr_path := (case idr_path identity of
                                   None \<Rightarrow> None
                                 | Some path \<Rightarrow> if trim path = [] then None else Some path),
                    idr_secret_ref := trimmed_text (idr_secret_ref identity)\<rparr>
             in case idr_source identity of
                  ProfileVault \<Rightarrow>
                    and_then (ok_or IdentitySecretMissing (idr_secret_ref identity)) (\<lambda>secret_ref.
                    and_then (check_secret secret_ref) (\<lambda>_.
                      Inr (identity\<lparr>idr_path := None\<rparr>)))
                | SystemFile \<Rightarrow>
                    if idr_path identity = None then Inl IdentityPathMissing
                    else Inr (identity\<lparr>idr_secret_ref := None\<rparr>)
                | _ \<Rightarrow> Inr (identity\<lparr>idr_secret_ref := None\<rparr>))"

section \<open>OneKeys\<close>

definition truncate_one_key_text :: "ustr \<Rightarrow> nat \<Rightarrow> ustr" where
  "truncate_one_key_text v max_characters = take max_characters v"

definition is_login_kind :: "SessionKind \<Rightarrow> bool" where
  "is_login_kind kind \<longleftrightarrow> kind \<in> {KSsh, KTmux}"

definition canonical_option :: "ustr option \<Rightarrow> ustr option" where
  "canonical_option secret_ref = Option.bind secret_ref canonical_secret_ref"

definition one_key_secret_refs :: "OneKeyCredential \<Rightarrow> ustr list" where
  "one_key_secret_refs one_key =
     List.map_filter canonical_option
       [okc_password_secret_ref one_key, okc_passphrase_secret_ref one_key,
        Option.bind (okc_identity one_key) (\<lambda>selected. idr_secret_ref (oki_identity selected))]"

fun one_key_sessions_loop ::
  "'vt SessionStore \<Rightarrow> OneKeyKind \<Rightarrow> ustr list \<Rightarrow> ustr list \<Rightarrow> CredentialError + ustr list" where
  "one_key_sessions_loop store kind normalized [] = Inr normalized"
| "one_key_sessions_loop store kind normalized (session_id # rest) =
     (let session_id = trim session_id
      in if session_id = [] \<or> session_id \<in> set normalized
         then one_key_sessions_loop store kind normalized rest
         else if MAX_ONE_KEY_SESSIONS \<le> length normalized then Inl OneKeySessionLimit
         else case store_profile store session_id of
                None \<Rightarrow> Inl (OneKeyUnknownSession session_id)
              | Some profile \<Rightarrow>
                  if kind = OneKeySsh \<and> \<not> is_login_kind (prof_kind profile)
                  then Inl (OneKeySessionKind (prof_name profile))
                  else one_key_sessions_loop store kind (normalized @ [session_id]) rest)"

definition normalize_one_key_sessions ::
  "'vt SessionStore \<Rightarrow> OneKeyKind \<Rightarrow> ustr list \<Rightarrow> CredentialError + ustr list" where
  "normalize_one_key_sessions store kind bound_ids =
     and_then (one_key_sessions_loop store kind [] bound_ids) (\<lambda>normalized.
       if normalized = [] then Inl OneKeyNoSession else Inr normalized)"

definition normalize_one_key_identity :: "ustr \<Rightarrow> IdentityRef \<Rightarrow> CredentialError + OneKeyIdentity" where
  "normalize_one_key_identity source_profile_id identity =
     (if idr_source identity = PublicKeyOnly then Inl PublicKeyIdentity
      else
        and_then (normalize_client_identity (idr_id identity) identity (\<lambda>secret_ref.
            and_then (ok_or SecretRefInvalid (canonical_secret_ref secret_ref)) (\<lambda>_. Inr ()))) (\<lambda>identity.
          Inr \<lparr>oki_source_profile_id = source_profile_id,
               oki_identity = identity\<lparr>idr_secret_ref := canonical_option (idr_secret_ref identity)\<rparr>\<rparr>))"

section \<open>The OneKeys of a loaded store\<close>

definition trim_matches :: "uchar list \<Rightarrow> ustr \<Rightarrow> ustr" where
  "trim_matches cs s = rev (dropWhile (\<lambda>c. c \<in> set cs) (rev (dropWhile (\<lambda>c. c \<in> set cs) s)))"

definition one_key_id_ok :: "ustr \<Rightarrow> bool" where
  "one_key_id_ok key_id \<longleftrightarrow>
     key_id \<noteq> [] \<and> byte_len key_id \<le> 128 \<and> list_all (\<lambda>c. is_ascii_alphanumeric c \<or> c \<in> set (str '':_-'')) key_id"

definition loaded_one_key_id :: "nat \<Rightarrow> ustr set \<Rightarrow> ustr \<Rightarrow> ustr option" where
  "loaded_one_key_id index used key_id =
     (let key_id = trim key_id
      in if one_key_id_ok key_id \<and> key_id \<notin> used then Some key_id
         else first_free (\<lambda>key_id. key_id @ [chr CHR ''x'']) (\<lambda>key_id. key_id) used
                (str ''onekey:loaded:'' @ nat_str (index + 1)))"

fun loaded_one_key_sessions ::
  "(ustr \<rightharpoonup> SessionKind) \<Rightarrow> OneKeyKind \<Rightarrow> ustr list \<Rightarrow> ustr list \<Rightarrow> ustr list" where
  "loaded_one_key_sessions profiles kind bound_ids [] = bound_ids"
| "loaded_one_key_sessions profiles kind bound_ids (session_id # rest) =
     (let session_id = trim session_id
      in case profiles session_id of
           None \<Rightarrow> loaded_one_key_sessions profiles kind bound_ids rest
         | Some profile_kind \<Rightarrow>
             if kind = OneKeySsh \<and> \<not> is_login_kind profile_kind
             then loaded_one_key_sessions profiles kind bound_ids rest
             else if session_id \<noteq> [] \<and> length bound_ids < MAX_ONE_KEY_SESSIONS \<and>
                     session_id \<notin> set bound_ids
             then loaded_one_key_sessions profiles kind (bound_ids @ [session_id]) rest
             else loaded_one_key_sessions profiles kind bound_ids rest)"

definition loaded_one_key_identity :: "OneKeyCredential \<Rightarrow> OneKeyIdentity option" where
  "loaded_one_key_identity one_key =
     (if okc_kind one_key = OneKeySsh then
        Option.bind (okc_identity one_key) (\<lambda>selected.
          let source_profile_id = trim (oki_source_profile_id selected)
          in if source_profile_id = [] then None
             else (case normalize_one_key_identity source_profile_id (oki_identity selected) of
                     Inl _ \<Rightarrow> None | Inr v \<Rightarrow> Some v))
      else None)"

text \<open>The body of the loop after the identifier: \<open>None\<close> drops the OneKey.\<close>

definition loaded_one_key ::
  "(ustr \<rightharpoonup> SessionKind) \<Rightarrow> nat \<Rightarrow> ustr \<Rightarrow> OneKeyCredential \<Rightarrow> OneKeyCredential option" where
  "loaded_one_key profiles kept key_id one_key =
     (let label = truncate_one_key_text (trim_matches [0] (trim (okc_label one_key)))
                    MAX_ONE_KEY_LABEL_CHARACTERS;
          label = (if label = [] then str ''OneKey '' @ nat_str (kept + 1) else label);
          username = truncate_one_key_text (trim_matches [0, 13, 10] (trim (okc_username one_key)))
                       MAX_ONE_KEY_USERNAME_CHARACTERS
      in if username = [] then None
         else
           let password = canonical_option (okc_password_secret_ref one_key);
               passphrase = (if okc_kind one_key = OneKeySsh
                             then canonical_option (okc_passphrase_secret_ref one_key) else None);
               identity = loaded_one_key_identity one_key;
               bound_ids = loaded_one_key_sessions profiles (okc_kind one_key) [] (okc_session_ids one_key);
               identity = (case identity of
                             Some selected \<Rightarrow> if oki_source_profile_id selected \<in> set bound_ids
                                               then identity else None
                           | None \<Rightarrow> None)
           in if password = None \<and> passphrase = None \<and> identity = None then None
              else Some (one_key
                     \<lparr>okc_id := key_id, okc_label := label, okc_username := username,
                      okc_password_secret_ref := password, okc_passphrase_secret_ref := passphrase,
                      okc_identity := identity, okc_session_ids := bound_ids\<rparr>))"

fun loaded_one_keys_loop ::
  "(ustr \<rightharpoonup> SessionKind) \<Rightarrow> nat \<Rightarrow> ustr set \<Rightarrow> OneKeyCredential list \<Rightarrow> OneKeyCredential list
     \<Rightarrow> OneKeyCredential list option" where
  "loaded_one_keys_loop profiles index used_ids kept [] = Some kept"
| "loaded_one_keys_loop profiles index used_ids kept (one_key # rest) =
     (if MAX_ONE_KEYS \<le> length kept then Some kept
      else case loaded_one_key_id index used_ids (okc_id one_key) of
             None \<Rightarrow> None
           | Some key_id \<Rightarrow>
               loaded_one_keys_loop profiles (index + 1) (insert key_id used_ids)
                 (case loaded_one_key profiles (length kept) key_id one_key of
                    None \<Rightarrow> kept | Some one_key \<Rightarrow> kept @ [one_key]) rest)"

definition normalize_loaded_one_keys :: "'vt SessionStore \<Rightarrow> 'vt SessionStore option" where
  "normalize_loaded_one_keys store =
     (let profiles = map_of (rev (map (\<lambda>p. (prof_id p, prof_kind p)) (st_profiles store)))
      in map_option (\<lambda>one_keys. store\<lparr>st_one_keys := one_keys\<rparr>)
           (loaded_one_keys_loop profiles 0 {} [] (st_one_keys store)))"

section \<open>What is kept of the OneKeys of a file\<close>

text \<open>
  A well-formed OneKey over the sessions \<open>profiles\<close>: its texts are within their bounds, it has a
  credential, it is bound to existing sessions of a kind it can log in to, and its identity comes
  from one of them.
\<close>

definition one_key_wf :: "(ustr \<rightharpoonup> SessionKind) \<Rightarrow> OneKeyCredential \<Rightarrow> bool" where
  "one_key_wf profiles k \<longleftrightarrow>
     okc_label k \<noteq> [] \<and> length (okc_label k) \<le> 64 \<and> okc_username k \<noteq> [] \<and> length (okc_username k) \<le> 256 \<and>
     (okc_password_secret_ref k \<noteq> None \<or> okc_passphrase_secret_ref k \<noteq> None \<or> okc_identity k \<noteq> None) \<and>
     (okc_kind k = OneKeyAccount \<longrightarrow> okc_passphrase_secret_ref k = None \<and> okc_identity k = None) \<and>
     distinct (okc_session_ids k) \<and> length (okc_session_ids k) \<le> 64 \<and>
     (\<forall>s \<in> set (okc_session_ids k). \<exists>kind. profiles s = Some kind \<and> (okc_kind k = OneKeySsh \<longrightarrow> is_login_kind kind)) \<and>
     (\<forall>i. okc_identity k = Some i \<longrightarrow>
        oki_source_profile_id i \<in> set (okc_session_ids k) \<and> idr_source (oki_identity i) \<noteq> PublicKeyOnly)"

definition one_keys_wf :: "(ustr \<rightharpoonup> SessionKind) \<Rightarrow> OneKeyCredential list \<Rightarrow> bool" where
  "one_keys_wf profiles ks \<longleftrightarrow>
     length ks \<le> 64 \<and> distinct (map okc_id ks) \<and> (\<forall>k \<in> set ks. one_key_wf profiles k)"

lemma loaded_one_key_sessions_ok:
  assumes "distinct acc" "length acc \<le> 64"
    "\<forall>s \<in> set acc. \<exists>k. profiles s = Some k \<and> (kind = OneKeySsh \<longrightarrow> is_login_kind k)"
  shows "distinct (loaded_one_key_sessions profiles kind acc ss) \<and>
    length (loaded_one_key_sessions profiles kind acc ss) \<le> 64 \<and>
    (\<forall>s \<in> set (loaded_one_key_sessions profiles kind acc ss).
       \<exists>k. profiles s = Some k \<and> (kind = OneKeySsh \<longrightarrow> is_login_kind k))"
  using assms
proof (induction ss arbitrary: acc)
  case (Cons s ss)
  show ?case
  proof (cases "profiles (trim s)")
    case None
    then show ?thesis using Cons by simp
  next
    case (Some k)
    then show ?thesis using Cons.IH [of acc] Cons.IH [of "acc @ [trim s]"] Cons.prems by (auto simp add: Let_def)
  qed
qed simp

lemma normalize_client_identity_source:
  "normalize_client_identity i identity check = Inr identity' \<Longrightarrow> idr_source identity' = idr_source identity"
  by (auto simp add: normalize_client_identity_def Let_def and_then_eq_Inr split: if_splits IdentitySource.splits)

lemma normalize_one_key_identity_Inr:
  assumes "normalize_one_key_identity p identity = Inr v"
  shows "oki_source_profile_id v = p" "idr_source (oki_identity v) \<noteq> PublicKeyOnly"
  using assms
  by (auto simp add: normalize_one_key_identity_def and_then_eq_Inr split: if_splits
      dest: normalize_client_identity_source)

lemma loaded_one_key_wf:
  assumes "loaded_one_key profiles kept key_id one_key = Some k" "kept < 64"
  shows "okc_id k = key_id" "one_key_wf profiles k"
proof -
  let ?ss = "loaded_one_key_sessions profiles (okc_kind one_key) [] (okc_session_ids one_key)"
  have ss: "distinct ?ss" "length ?ss \<le> 64"
    "\<forall>s \<in> set ?ss. \<exists>k. profiles s = Some k \<and> (okc_kind one_key = OneKeySsh \<longrightarrow> is_login_kind k)"
    using loaded_one_key_sessions_ok [of "[]" profiles "okc_kind one_key" "okc_session_ids one_key"] by auto
  have label: "length (str ''OneKey '' @ nat_str (kept + 1)) \<le> 64"
    using nat_str_length [of "kept + 1" 1] assms(2) by simp
  have identity: "okc_kind one_key = OneKeySsh \<and> idr_source (oki_identity i) \<noteq> PublicKeyOnly"
    if "loaded_one_key_identity one_key = Some i" for i
    using that normalize_one_key_identity_Inr(2)
    by (auto simp add: loaded_one_key_identity_def Let_def bind_eq_Some_conv split: if_splits sum.splits)
  show "okc_id k = key_id"
    using assms(1) by (auto simp add: loaded_one_key_def Let_def split: if_splits)
  show "one_key_wf profiles k"
    using assms(1) ss identity label
    unfolding loaded_one_key_def Let_def truncate_one_key_text_def
    by (auto simp add: one_key_wf_def split: if_splits option.splits)
qed

lemma loaded_one_key_id_Some:
  assumes "finite used"
  obtains key_id' where "loaded_one_key_id index used key_id = Some key_id'" "key_id' \<notin> used"
proof (cases "one_key_id_ok (trim key_id) \<and> trim key_id \<notin> used")
  case True
  then show ?thesis by (intro that [of "trim key_id"]) (simp_all add: loaded_one_key_id_def)
next
  case False
  let ?step = "\<lambda>key_id. key_id @ [chr CHR ''x'']" and ?s = "str ''onekey:loaded:'' @ nat_str (index + 1)"
  have len: "length ((?step ^^ k) ?s) = length ?s + k" for k by (induction k) simp_all
  have "inj_on (\<lambda>k. (?step ^^ k) ?s) {..card used}"
  proof (rule inj_onI)
    fix a b assume "(?step ^^ a) ?s = (?step ^^ b) ?s"
    then show "a = b" using len [of a] len [of b] by simp
  qed
  then obtain j where "first_free ?step (\<lambda>key_id. key_id) used ?s = Some ((?step ^^ j) ?s)" "(?step ^^ j) ?s \<notin> used"
    by (rule first_free_Some [OF assms])
  then show ?thesis using False by (intro that [of "(?step ^^ j) ?s"]) (simp_all only: loaded_one_key_id_def Let_def if_False not_False_eq_True)
qed

lemma loaded_one_keys_loop_ok:
  assumes "finite used" "one_keys_wf profiles kept" "okc_id ` set kept \<subseteq> used"
  shows "\<exists>ks. loaded_one_keys_loop profiles index used kept rest = Some ks \<and> one_keys_wf profiles ks"
  using assms
proof (induction rest arbitrary: index used kept)
  case (Cons k rest)
  show ?case
  proof (cases "64 \<le> length kept")
    case True
    then show ?thesis using Cons.prems by simp
  next
    case False
    obtain key_id where key_id: "loaded_one_key_id index used (okc_id k) = Some key_id" "key_id \<notin> used"
      by (rule loaded_one_key_id_Some [OF Cons.prems(1)])
    show ?thesis
    proof (cases "loaded_one_key profiles (length kept) key_id k")
      case None
      then show ?thesis
        using False key_id Cons.prems Cons.IH [of "insert key_id used" kept "index + 1"] by auto
    next
      case (Some k')
      then have k': "okc_id k' = key_id" "one_key_wf profiles k'" using loaded_one_key_wf False by auto
      have "one_keys_wf profiles (kept @ [k'])" "okc_id ` set (kept @ [k']) \<subseteq> insert key_id used"
        using k' key_id(2) Cons.prems False by (auto simp add: one_keys_wf_def)
      then show ?thesis
        using False key_id Some Cons.prems(1) Cons.IH [of "insert key_id used" "kept @ [k']" "index + 1"] by simp
    qed
  qed
qed simp

lemma normalize_loaded_one_keys_Some:
  obtains ks where "normalize_loaded_one_keys st = Some (st\<lparr>st_one_keys := ks\<rparr>)"
    "one_keys_wf (map_of (rev (map (\<lambda>p. (prof_id p, prof_kind p)) (st_profiles st)))) ks"
  using loaded_one_keys_loop_ok [of "{}" "map_of (rev (map (\<lambda>p. (prof_id p, prof_kind p)) (st_profiles st)))"
      "[]" 0 "st_one_keys st"]
  by (auto simp add: normalize_loaded_one_keys_def Let_def one_keys_wf_def)

end
