(* ===== verification/Store_Load.thy ===== *)
theory Store_Load
  imports One_Keys Transfer_State Scripts Mcp_Control
begin

text \<open>
  Loading the store (\<open>src-tauri/src/store_normalization.rs\<close>): from the store that has just been
  parsed to the one the process works with. Reading the file and parsing it, the clock, fresh
  UUIDs and the printed form of a time are arguments; the fields that are not serialised have
  their default values in a parsed store. \<open>None\<close> means that loading does not return.
\<close>

section \<open>The parts of the normalisation\<close>

record ('net, 'ip, 'addr) load_env =
  le_triggers :: trigger_env
  le_net :: "('net, 'ip) net_ops"
  le_addresses :: "'addr address_ops"
  le_uuid :: "nat \<Rightarrow> ustr"
  le_uuid_ok :: "ustr \<Rightarrow> bool"
  le_json_len :: json_len
  le_rate :: "u64 \<Rightarrow> int \<Rightarrow> f64"
  le_rfc3339 :: "time \<Rightarrow> ustr"
  le_clock :: "nat \<Rightarrow> time"
  le_revoked_at :: time
  le_marked_at :: time
  le_loaded_at :: time
  le_now_ms :: int

definition move_pane :: "ustr \<Rightarrow> ustr \<Rightarrow> ustr \<Rightarrow> ustr" where
  "move_pane original_id session_id pane =
     (if pane = main_pane original_id then main_pane session_id else pane)"

definition remap_runtime :: "LoadedSessionIdRemap \<Rightarrow> SessionRuntime \<Rightarrow> SessionRuntime" where
  "remap_runtime remap r =
     (let session_id = remap_loaded_session_id remap (rt_session_id r)
      in r\<lparr>rt_session_id := session_id, rt_pane_id := move_pane (rt_session_id r) session_id (rt_pane_id r)\<rparr>)"

definition remap_event :: "LoadedSessionIdRemap \<Rightarrow> SessionEvent \<Rightarrow> SessionEvent" where
  "remap_event remap e =
     (let session_id = remap_loaded_session_id remap (ev_session_id e)
      in e\<lparr>ev_session_id := session_id, ev_pane_id := move_pane (ev_session_id e) session_id (ev_pane_id e)\<rparr>)"

definition remap_host_key :: "LoadedSessionIdRemap \<Rightarrow> TrustedHostKey \<Rightarrow> TrustedHostKey" where
  "remap_host_key remap key = key
     \<lparr>thk_profile_id := map_option (remap_loaded_session_id remap) (thk_profile_id key),
      thk_alias := trim (thk_alias key)\<rparr>"

definition remap_grant :: "LoadedSessionIdRemap \<Rightarrow> McpGrant \<Rightarrow> McpGrant" where
  "remap_grant remap g = g\<lparr>gr_allowed_sessions :=
     map (\<lambda>s. if s = MCP_NO_SESSIONS_SENTINEL then s else remap_loaded_session_id remap s)
       (gr_allowed_sessions g)\<rparr>"

definition remap_one_key :: "LoadedSessionIdRemap \<Rightarrow> OneKeyCredential \<Rightarrow> OneKeyCredential" where
  "remap_one_key remap k = k
     \<lparr>okc_session_ids := map (remap_loaded_session_id remap) (okc_session_ids k),
      okc_identity := map_option (\<lambda>i. i\<lparr>oki_source_profile_id :=
        remap_loaded_session_id remap (oki_source_profile_id i)\<rparr>) (okc_identity k)\<rparr>"

text \<open>The loops that rename the sessions that the records of the file refer to.\<close>

definition remap_records :: "LoadedSessionIdRemap \<Rightarrow> 'vt SessionStore \<Rightarrow> 'vt SessionStore" where
  "remap_records remap st =
     (let move = remap_loaded_session_id remap
      in st
        \<lparr>st_events := map (remap_event remap) (st_events st),
         st_transfers := map (\<lambda>t. t\<lparr>tft_session_id := move (tft_session_id t)\<rparr>) (st_transfers st),
         st_audit := map (\<lambda>a. a\<lparr>aud_session_id := map_option move (aud_session_id a)\<rparr>) (st_audit st),
         st_timeline := map (\<lambda>m. m\<lparr>tlm_session_id := move (tlm_session_id m)\<rparr>) (st_timeline st),
         st_sysmon := map (\<lambda>s. s\<lparr>sms_session_id := move (sms_session_id s)\<rparr>) (st_sysmon st),
         st_host_keys := \<lparr>hks_keys = map (remap_host_key remap) (hks_keys (st_host_keys st))\<rparr>,
         st_grants := map (remap_grant remap) (st_grants st),
         st_one_keys := map (remap_one_key remap) (st_one_keys st)\<rparr>)"

fun upsert_loaded_profiles :: "(nat \<Rightarrow> time) \<Rightarrow> nat \<Rightarrow> SessionProfile list \<Rightarrow> 'vt SessionStore \<Rightarrow> 'vt SessionStore" where
  "upsert_loaded_profiles clock i [] st = st"
| "upsert_loaded_profiles clock i (p # ps) st =
     upsert_loaded_profiles clock (i + 1) ps (fst (upsert_profile (clock i) p st))"

definition prune_host_keys :: "(ustr \<Rightarrow> bool) \<Rightarrow> TrustedHostKey list \<Rightarrow> TrustedHostKey list" where
  "prune_host_keys exists keys =
     map (\<lambda>key. case thk_profile_id key of
                  Some p \<Rightarrow> if exists p then key else key\<lparr>thk_profile_id := None\<rparr>
                | None \<Rightarrow> key)
       (filter (\<lambda>key. thk_scope key \<noteq> ScopeProfile \<or>
                  (case thk_profile_id key of None \<Rightarrow> False | Some p \<Rightarrow> exists p)) keys)"

definition prune_orphaned_loaded_session_state :: "'vt SessionStore \<Rightarrow> 'vt SessionStore" where
  "prune_orphaned_loaded_session_state st =
     (let exists = has_profile st
      in st
        \<lparr>st_events := filter (\<lambda>e. exists (ev_session_id e)) (st_events st),
         st_transfers := filter (\<lambda>t. exists (tft_session_id t)) (st_transfers st),
         st_timeline := filter (\<lambda>m. exists (tlm_session_id m)) (st_timeline st),
         st_sysmon := filter (\<lambda>s. exists (sms_session_id s)) (st_sysmon st),
         st_host_keys := \<lparr>hks_keys = prune_host_keys exists (hks_keys (st_host_keys st))\<rparr>\<rparr>)"

fun keep_first_keys :: "('a \<Rightarrow> 'k) \<Rightarrow> 'k list \<Rightarrow> 'a list \<Rightarrow> 'a list" where
  "keep_first_keys key seen [] = []"
| "keep_first_keys key seen (x # xs) =
     (if key x \<in> set seen then keep_first_keys key seen xs
      else x # keep_first_keys key (key x # seen) xs)"

definition normalize_loaded_mirror_keys :: "(time \<Rightarrow> ustr) \<Rightarrow> 'vt SessionStore \<Rightarrow> 'vt SessionStore option" where
  "normalize_loaded_mirror_keys rfc3339 st =
     Option.bind (normalize_loaded_record_ids ev_id put_event_id (str ''event'') (st_events st)) (\<lambda>events.
     Option.bind (normalize_loaded_record_ids tft_id put_transfer_id (str ''transfer'') (st_transfers st)) (\<lambda>transfers.
     Option.bind (normalize_loaded_record_ids aud_id put_audit_id (str ''audit'') (st_audit st)) (\<lambda>audit.
     Option.bind (normalize_loaded_record_ids tlm_id put_mark_id (str ''timeline'') (st_timeline st)) (\<lambda>timeline.
     Option.bind (normalize_loaded_record_ids thk_id put_host_key_id (str ''host-key'')
                    (hks_keys (st_host_keys st))) (\<lambda>keys.
       Some (st
         \<lparr>st_events := events, st_transfers := transfers, st_audit := audit, st_timeline := timeline,
          st_host_keys := \<lparr>hks_keys = keys\<rparr>,
          st_sysmon := rev (keep_first_keys (\<lambda>s. (sms_session_id s, rfc3339 (sms_ts s))) []
                              (rev (st_sysmon st)))\<rparr>))))))"

section \<open>Grants\<close>

definition retain_grant_sessions :: "time \<Rightarrow> (ustr \<Rightarrow> bool) \<Rightarrow> McpGrant \<Rightarrow> McpGrant" where
  "retain_grant_sessions revoked_at exists grant =
     (let was_session_scoped = (gr_allowed_sessions grant \<noteq> [] \<and> \<not> denies_all_sessions grant);
          grant = grant\<lparr>gr_allowed_sessions :=
                    filter (\<lambda>s. s = MCP_NO_SESSIONS_SENTINEL \<or> exists s) (gr_allowed_sessions grant)\<rparr>
      in if was_session_scoped \<and> gr_allowed_sessions grant = [] \<and> gr_revoked_at grant = None
         then grant\<lparr>gr_revoked_at := Some revoked_at\<rparr> else grant)"

text \<open>The grants kept, and whether one was left out that the user has to look at.\<close>

fun loaded_grants_loop ::
  "time \<Rightarrow> (ustr \<Rightarrow> bool) \<Rightarrow> McpGrant list \<Rightarrow> bool \<Rightarrow> McpGrant list \<Rightarrow> McpGrant list \<times> bool" where
  "loaded_grants_loop revoked_at exists normalized needs_review [] = (normalized, needs_review)"
| "loaded_grants_loop revoked_at exists normalized needs_review (grant # grants) =
     (case normalize_mcp_grant grant of
        Inl _ \<Rightarrow> loaded_grants_loop revoked_at exists normalized True grants
      | Inr grant \<Rightarrow>
          let grant = retain_grant_sessions revoked_at exists grant
          in case List.find (\<lambda>g. gr_client_id g = gr_client_id grant) normalized of
               Some g \<Rightarrow> loaded_grants_loop revoked_at exists normalized (needs_review \<or> g \<noteq> grant) grants
             | None \<Rightarrow>
                 if MAX_MCP_GRANTS \<le> length normalized
                 then loaded_grants_loop revoked_at exists normalized True grants
                 else loaded_grants_loop revoked_at exists (normalized @ [grant]) needs_review grants)"

definition invalid_grant_client :: "nat \<Rightarrow> ustr" where
  "invalid_grant_client n = str ''portmate:invalid-loaded-grant:'' @ nat_str n"

definition normalize_loaded_mcp_grants :: "time \<Rightarrow> time \<Rightarrow> 'vt SessionStore \<Rightarrow> 'vt SessionStore option" where
  "normalize_loaded_mcp_grants revoked_at marked_at st =
     (let (normalized, needs_review) = loaded_grants_loop revoked_at (has_profile st) [] False (st_grants st)
      in if \<not> needs_review then Some (st\<lparr>st_grants := normalized\<rparr>)
         else
           let normalized = (if MAX_MCP_GRANTS \<le> length normalized
                             then take (MAX_MCP_GRANTS - 1) normalized else normalized)
           in map_option (\<lambda>client_id. st\<lparr>st_grants := normalized @
                [\<lparr>gr_client_id = client_id, gr_name = str ''Invalid loaded grant - review required'',
                  gr_scopes = [], gr_allowed_sessions = [], gr_confirm_writes = True,
                  gr_expires_at = None, gr_revoked_at = Some marked_at\<rparr>]\<rparr>)
              (first_free Suc invalid_grant_client (gr_client_id ` set normalized) 1))"

section \<open>Runtimes and transfers\<close>

definition restore_saved_runtime :: "time \<Rightarrow> SessionRuntime \<Rightarrow> SessionRuntime \<Rightarrow> SessionRuntime" where
  "restore_saved_runtime loaded_at saved r =
     (let r = r\<lparr>rt_pane_id := rt_pane_id saved, rt_title := rt_title saved, rt_cwd := rt_cwd saved,
                rt_last_activity := rt_last_activity saved,
                rt_last_disconnect := rt_last_disconnect saved,
                rt_last_disconnect_reason :=
                  Option.bind (rt_last_disconnect_reason saved) normalize_session_disconnect_reason\<rparr>
      in case rt_status saved of
           Connected \<Rightarrow>
             r\<lparr>rt_last_disconnect := Some loaded_at,
               rt_last_disconnect_reason :=
                 Some (str ''connection interrupted by previous PortMate shutdown'')\<rparr>
         | Connecting \<Rightarrow>
             r\<lparr>rt_last_disconnect := Some loaded_at,
               rt_last_disconnect_reason :=
                 Some (str ''connection attempt interrupted by previous PortMate shutdown'')\<rparr>
         | Reconnecting \<Rightarrow>
             r\<lparr>rt_last_disconnect := Some (case rt_last_disconnect r of Some t \<Rightarrow> t | None \<Rightarrow> loaded_at),
               rt_last_disconnect_reason :=
                 Some (str ''reconnect interrupted by previous PortMate shutdown'')\<rparr>
         | _ \<Rightarrow> r)"

definition restore_runtime :: "time \<Rightarrow> (ustr \<rightharpoonup> SessionRuntime) \<Rightarrow> SessionRuntime \<Rightarrow> SessionRuntime" where
  "restore_runtime loaded_at saved_runtimes r =
     (let r = (case saved_runtimes (rt_session_id r) of
                 Some saved \<Rightarrow> restore_saved_runtime loaded_at saved r | None \<Rightarrow> r)
      in r\<lparr>rt_status := Disconnected, rt_connected_since := None\<rparr>)"

definition interrupt_transfer :: "(u64 \<Rightarrow> int \<Rightarrow> f64) \<Rightarrow> time \<Rightarrow> TransferTask \<Rightarrow> TransferTask" where
  "interrupt_transfer rate now task =
     (if \<not> transfer_task_is_active (tft_status task) then task
      else with_average rate (task
             \<lparr>tft_status := Failed, tft_message := Some (str ''interrupted by previous PortMate shutdown''),
              tft_finished_at := Some now\<rparr>))"

definition normalize_interrupted_transfers ::
  "(u64 \<Rightarrow> int \<Rightarrow> f64) \<Rightarrow> time \<Rightarrow> 'vt SessionStore \<Rightarrow> 'vt SessionStore" where
  "normalize_interrupted_transfers rate now st =
     st\<lparr>st_transfers := map (interrupt_transfer rate now) (st_transfers st)\<rparr>"

section \<open>Loading\<close>

text \<open>The loop over the saved runtimes, of which the last of a session is kept.\<close>

definition saved_runtime_map :: "LoadedSessionIdRemap \<Rightarrow> SessionRuntime list \<Rightarrow> ustr \<rightharpoonup> SessionRuntime" where
  "saved_runtime_map remap runtimes =
     map_of (rev (map (\<lambda>r. (rt_session_id r, r)) (map (remap_runtime remap) runtimes)))"

definition normalize_loaded_store_at ::
  "('net, 'ip, 'addr) load_env \<Rightarrow> 'vt SessionStore \<Rightarrow> 'vt SessionStore option" where
  "normalize_loaded_store_at env store =
     Option.bind (load_profiles (le_triggers env) (le_net env) (le_uuid env) 0 empty_remap {} (st_profiles store))
       (\<lambda>(normalized_profiles, remap).
     let saved_runtimes = saved_runtime_map remap (st_runtimes store);
         store = store\<lparr>st_profiles := [], st_runtimes := []\<rparr>;
         store = remap_records remap store;
         store = upsert_loaded_profiles (le_clock env) 0 normalized_profiles store;
         store = prune_orphaned_loaded_session_state store
     in Option.bind (normalize_loaded_mirror_keys (le_rfc3339 env) store) (\<lambda>store.
        Option.bind (normalize_loaded_mcp_grants (le_revoked_at env) (le_marked_at env) store) (\<lambda>store.
        let store = store\<lparr>st_mcp_http_settings :=
              (case normalize_mcp_http_settings (le_addresses env) (st_mcp_http_settings store) of
                 Inr (settings, _) \<Rightarrow> settings | Inl _ \<Rightarrow> default_mcp_http_settings)\<rparr>
        in Option.bind (normalize_loaded_one_keys store) (\<lambda>store.
           let store = store\<lparr>st_custom_scripts :=
                 normalize_loaded_custom_scripts (le_uuid_ok env) (st_custom_scripts store)\<rparr>;
               store = store\<lparr>st_events := fst (redact_custom_script_event_bodies (st_events store))\<rparr>;
               store = store\<lparr>st_runtimes :=
                 map (restore_runtime (le_loaded_at env) saved_runtimes) (st_runtimes store)\<rparr>;
               store = normalize_interrupted_transfers (le_rate env) (le_loaded_at env) store
           in normalize_bounded_histories (le_json_len env) (le_now_ms env) store))))"

datatype LoadError = StoreUnreadable ustr | StoreUnparsable ustr | StoreRejected StoreError

definition normalize_loaded_store_checked ::
  "('net, 'ip, 'addr) load_env \<Rightarrow> 'vt SessionStore \<Rightarrow> (LoadError + 'vt SessionStore) option" where
  "normalize_loaded_store_checked env store =
     (case validate_profile_count store of
        Inl e \<Rightarrow> Some (Inl (StoreRejected e))
      | Inr _ \<Rightarrow> map_option Inr (normalize_loaded_store_at env store))"

definition load_store_json ::
  "('net, 'ip, 'addr) load_env \<Rightarrow> (ustr \<Rightarrow> ustr + 'vt SessionStore) \<Rightarrow> ustr + ustr
     \<Rightarrow> (LoadError + 'vt SessionStore) option" where
  "load_store_json env parse file =
     (case file of
        Inl e \<Rightarrow> Some (Inl (StoreUnreadable e))
      | Inr raw \<Rightarrow>
          (case parse raw of
             Inl e \<Rightarrow> Some (Inl (StoreUnparsable e))
           | Inr store \<Rightarrow> normalize_loaded_store_checked env store))"

section \<open>Frames\<close>

lemma remap_records_sel [simp]:
  "st_profiles (remap_records r st) = st_profiles st" "st_runtimes (remap_records r st) = st_runtimes st"
  "st_terminal_screens (remap_records r st) = st_terminal_screens st" "st_sink (remap_records r st) = st_sink st"
  "st_event_counts (remap_records r st) = st_event_counts st"
  "st_custom_scripts (remap_records r st) = st_custom_scripts st"
  "length (st_events (remap_records r st)) = length (st_events st)"
  "length (st_transfers (remap_records r st)) = length (st_transfers st)"
  "length (st_audit (remap_records r st)) = length (st_audit st)"
  "length (st_timeline (remap_records r st)) = length (st_timeline st)"
  "length (hks_keys (st_host_keys (remap_records r st))) = length (hks_keys (st_host_keys st))"
  by (simp_all add: remap_records_def Let_def)

lemma upsert_profile_scripts [simp]:
  "st_custom_scripts (fst (upsert_profile now p st)) = st_custom_scripts st"
  "st_mcp_http_settings (fst (upsert_profile now p st)) = st_mcp_http_settings st"
  by (simp_all add: upsert_profile_def Let_def split: option.splits)

lemma upsert_loaded_sel [simp]:
  "st_events (upsert_loaded_profiles clock i ps st) = st_events st"
  "st_transfers (upsert_loaded_profiles clock i ps st) = st_transfers st"
  "st_audit (upsert_loaded_profiles clock i ps st) = st_audit st"
  "st_timeline (upsert_loaded_profiles clock i ps st) = st_timeline st"
  "st_sysmon (upsert_loaded_profiles clock i ps st) = st_sysmon st"
  "st_host_keys (upsert_loaded_profiles clock i ps st) = st_host_keys st"
  "st_grants (upsert_loaded_profiles clock i ps st) = st_grants st"
  "st_one_keys (upsert_loaded_profiles clock i ps st) = st_one_keys st"
  "st_custom_scripts (upsert_loaded_profiles clock i ps st) = st_custom_scripts st"
  "st_terminal_screens (upsert_loaded_profiles clock i ps st) = st_terminal_screens st"
  "st_event_counts (upsert_loaded_profiles clock i ps st) = st_event_counts st"
  "st_sink (upsert_loaded_profiles clock i ps st) = st_sink st"
  by (induction ps arbitrary: i st) simp_all

lemma upsert_loaded_registry:
  "registry_ok (st_profiles st) (st_runtimes st) \<Longrightarrow>
   registry_ok (st_profiles (upsert_loaded_profiles clock i ps st)) (st_runtimes (upsert_loaded_profiles clock i ps st))"
  by (induction ps arbitrary: i st) (simp_all add: upsert_profile_registry)

lemma upsert_loaded_ids:
  "prof_id ` set (st_profiles (upsert_loaded_profiles clock i ps st)) =
     prof_id ` set (st_profiles st) \<union> prof_id ` set ps"
  by (induction ps arbitrary: i st) (auto simp add: upsert_profile_ids)

lemma set_update_first_const: "set (update_first P (\<lambda>_. y) xs) \<subseteq> insert y (set xs)"
  by (induction xs) auto

lemma upsert_loaded_members:
  "set (st_profiles (upsert_loaded_profiles clock i ps st)) \<subseteq> set (st_profiles st) \<union> set ps"
proof (induction ps arbitrary: i st)
  case (Cons p ps)
  have "set (st_profiles (fst (upsert_profile (clock i) p st))) \<subseteq> insert p (set (st_profiles st))"
    using set_update_first_const [of _ p "st_profiles st"] by (simp add: upsert_profile_profiles)
  then show ?case using Cons.IH [of "i + 1" "fst (upsert_profile (clock i) p st)"] by auto
qed simp

lemma upsert_loaded_fresh:
  assumes "distinct (map prof_id ps)" "prof_id ` set ps \<inter> prof_id ` set (st_profiles st) = {}"
  shows "st_profiles (upsert_loaded_profiles clock i ps st) = st_profiles st @ ps"
  using assms
proof (induction ps arbitrary: i st)
  case (Cons p ps)
  have "st_profiles (fst (upsert_profile (clock i) p st)) = st_profiles st @ [p]"
    using Cons.prems(2) by (auto simp add: upsert_profile_profiles has_profile_iff)
  then show ?case using Cons.prems Cons.IH [of "fst (upsert_profile (clock i) p st)" "i + 1"] by auto
qed simp

lemma prune_sel [simp]:
  "st_profiles (prune_orphaned_loaded_session_state st) = st_profiles st"
  "st_runtimes (prune_orphaned_loaded_session_state st) = st_runtimes st"
  "st_terminal_screens (prune_orphaned_loaded_session_state st) = st_terminal_screens st"
  "st_event_counts (prune_orphaned_loaded_session_state st) = st_event_counts st"
  "st_sink (prune_orphaned_loaded_session_state st) = st_sink st"
  "st_custom_scripts (prune_orphaned_loaded_session_state st) = st_custom_scripts st"
  "st_events (prune_orphaned_loaded_session_state st) = filter (\<lambda>e. has_profile st (ev_session_id e)) (st_events st)"
  "st_transfers (prune_orphaned_loaded_session_state st) =
     filter (\<lambda>t. has_profile st (tft_session_id t)) (st_transfers st)"
  "st_audit (prune_orphaned_loaded_session_state st) = st_audit st"
  "st_timeline (prune_orphaned_loaded_session_state st) =
     filter (\<lambda>m. has_profile st (tlm_session_id m)) (st_timeline st)"
  "hks_keys (st_host_keys (prune_orphaned_loaded_session_state st)) =
     prune_host_keys (has_profile st) (hks_keys (st_host_keys st))"
  by (simp_all add: prune_orphaned_loaded_session_state_def Let_def)

lemma length_prune_host_keys: "length (prune_host_keys P ks) \<le> length ks"
  by (simp add: prune_host_keys_def)

section \<open>The parts keep what they promise\<close>

lemma mirror_keys_Some:
  assumes "length (st_events st) < 2 ^ 62" "length (st_transfers st) < 2 ^ 62" "length (st_audit st) < 2 ^ 62"
    "length (st_timeline st) < 2 ^ 62" "length (hks_keys (st_host_keys st)) < 2 ^ 62"
  obtains es ts as ms ks sn where
    "normalize_loaded_mirror_keys rfc st = Some (st\<lparr>st_events := es, st_transfers := ts, st_audit := as,
       st_timeline := ms, st_host_keys := \<lparr>hks_keys = ks\<rparr>, st_sysmon := sn\<rparr>)"
    "distinct (map ev_id es)" "distinct (map tft_id ts)" "distinct (map aud_id as)" "distinct (map tlm_id ms)"
    "distinct (map thk_id ks)"
    "map ev_session_id es = map ev_session_id (st_events st)"
    "map tft_session_id ts = map tft_session_id (st_transfers st)"
    "map tlm_session_id ms = map tlm_session_id (st_timeline st)"
proof -
  obtain es where es: "normalize_loaded_record_ids ev_id put_event_id (str ''event'') (st_events st) = Some es"
    "distinct (map ev_id es)" using event_ids.normalize_ids_Some [OF assms(1)] by blast
  obtain ts where ts: "normalize_loaded_record_ids tft_id put_transfer_id (str ''transfer'') (st_transfers st) = Some ts"
    "distinct (map tft_id ts)" using transfer_ids.normalize_ids_Some [OF assms(2)] by blast
  obtain as where as: "normalize_loaded_record_ids aud_id put_audit_id (str ''audit'') (st_audit st) = Some as"
    "distinct (map aud_id as)" using audit_ids.normalize_ids_Some [OF assms(3)] by blast
  obtain ms where ms: "normalize_loaded_record_ids tlm_id put_mark_id (str ''timeline'') (st_timeline st) = Some ms"
    "distinct (map tlm_id ms)" using mark_ids.normalize_ids_Some [OF assms(4)] by blast
  obtain ks where ks: "normalize_loaded_record_ids thk_id put_host_key_id (str ''host-key'')
      (hks_keys (st_host_keys st)) = Some ks" "distinct (map thk_id ks)"
    using host_key_ids.normalize_ids_Some [OF assms(5)] by blast
  show ?thesis
  proof (rule that)
    show "normalize_loaded_mirror_keys rfc st = Some (st\<lparr>st_events := es, st_transfers := ts, st_audit := as,
        st_timeline := ms, st_host_keys := \<lparr>hks_keys = ks\<rparr>,
        st_sysmon := rev (keep_first_keys (\<lambda>s. (sms_session_id s, rfc (sms_ts s))) [] (rev (st_sysmon st)))\<rparr>)"
      by (simp add: normalize_loaded_mirror_keys_def es(1) ts(1) as(1) ms(1) ks(1) del: str_simps)
    show "map ev_session_id es = map ev_session_id (st_events st)"
      by (rule event_ids.normalize_ids_frame [OF es(1)]) (simp add: put_event_id_def)
    show "map tft_session_id ts = map tft_session_id (st_transfers st)"
      by (rule transfer_ids.normalize_ids_frame [OF ts(1)]) (simp add: put_transfer_id_def)
    show "map tlm_session_id ms = map tlm_session_id (st_timeline st)"
      by (rule mark_ids.normalize_ids_frame [OF ms(1)]) (simp add: put_mark_id_def)
  qed (fact es(2) ts(2) as(2) ms(2) ks(2))+
qed

lemma normalize_bounded_sel:
  assumes "normalize_bounded_histories jl now_ms st = Some t"
  shows "st_profiles t = st_profiles st" "st_runtimes t = st_runtimes st" "st_grants t = st_grants st"
    "st_one_keys t = st_one_keys st" "st_custom_scripts t = st_custom_scripts st"
    "subseq (st_transfers t) (st_transfers st)" "st_mcp_http_settings t = st_mcp_http_settings st"
proof -
  have sub: "subseq (fold trim_transfers ks xs) xs" for ks xs
    by (induction ks arbitrary: xs) (auto intro: subseq_order.trans [OF _ subseq_trim_transfers])
  show "st_profiles t = st_profiles st" "st_runtimes t = st_runtimes st" "st_grants t = st_grants st"
    "st_one_keys t = st_one_keys st" "st_custom_scripts t = st_custom_scripts st"
    "subseq (st_transfers t) (st_transfers st)" "st_mcp_http_settings t = st_mcp_http_settings st"
    using assms sub
    by (auto simp add: normalize_bounded_histories_def Let_def split: sum.splits)
qed

text \<open>The grants: at most 512, one per client, with the sessions that exist.\<close>

definition grants_ok :: "(ustr \<Rightarrow> bool) \<Rightarrow> McpGrant list \<Rightarrow> bool" where
  "grants_ok exists gs \<longleftrightarrow>
     length gs \<le> 512 \<and> distinct (map gr_client_id gs) \<and>
     (\<forall>g \<in> set gs. \<forall>s \<in> set (gr_allowed_sessions g). s = MCP_NO_SESSIONS_SENTINEL \<or> exists s)"

lemma retain_grant_sel [simp]:
  "gr_client_id (retain_grant_sessions now exists g) = gr_client_id g"
  "gr_scopes (retain_grant_sessions now exists g) = gr_scopes g"
  "gr_expires_at (retain_grant_sessions now exists g) = gr_expires_at g"
  "set (gr_allowed_sessions (retain_grant_sessions now exists g)) =
     {s \<in> set (gr_allowed_sessions g). s = MCP_NO_SESSIONS_SENTINEL \<or> exists s}"
  by (auto simp add: retain_grant_sessions_def Let_def filter_empty_conv)

lemma loaded_grants_loop_ok:
  "grants_ok exists acc \<Longrightarrow> grants_ok exists (fst (loaded_grants_loop now exists acc review gs))"
proof (induction gs arbitrary: acc review)
  case (Cons g gs)
  show ?case
  proof (cases "normalize_mcp_grant g")
    case (Inr g')
    let ?g = "retain_grant_sessions now exists g'"
    have "grants_ok exists (acc @ [?g])"
      if "List.find (\<lambda>g. gr_client_id g = gr_client_id ?g) acc = None" "length acc < 512"
      using that Cons.prems by (auto simp add: grants_ok_def find_None_iff)
    then show ?thesis
      using Inr Cons by (auto simp add: Let_def split: option.split)
  qed (simp add: Cons)
qed simp

lemma invalid_grant_client_inj: "invalid_grant_client a = invalid_grant_client b \<Longrightarrow> a = b"
  using colon_number [of "str ''portmate:invalid-loaded-grant''" a "str ''portmate:invalid-loaded-grant''" b]
  by (simp add: invalid_grant_client_def)

lemma loaded_grants_Some:
  obtains gs where "normalize_loaded_mcp_grants now marked st = Some (st\<lparr>st_grants := gs\<rparr>)"
    "grants_ok (has_profile st) gs"
proof -
  obtain ns review where l: "loaded_grants_loop now (has_profile st) [] False (st_grants st) = (ns, review)"
    by force
  have ns: "grants_ok (has_profile st) ns"
    using loaded_grants_loop_ok [of "has_profile st" "[]" now False "st_grants st"] l by (simp add: grants_ok_def)
  show ?thesis
  proof (cases review)
    case False
    then show ?thesis using that [of ns] ns l by (simp add: normalize_loaded_mcp_grants_def)
  next
    case True
    define ks where "ks = (if 512 \<le> length ns then take (512 - 1) ns else ns)"
    have ks: "grants_ok (has_profile st) ks" "length ks < 512"
      using ns by (auto simp add: ks_def grants_ok_def take_map [symmetric] dest: in_set_takeD)
    have "(Suc ^^ k) 1 = k + 1" for k by (induction k) simp_all
    then have "inj_on (\<lambda>k. invalid_grant_client ((Suc ^^ k) 1)) {..card (gr_client_id ` set ks)}"
      by (auto intro!: inj_onI dest: invalid_grant_client_inj)
    then obtain j where j: "first_free Suc invalid_grant_client (gr_client_id ` set ks) 1 =
        Some (invalid_grant_client ((Suc ^^ j) 1))"
      "invalid_grant_client ((Suc ^^ j) 1) \<notin> gr_client_id ` set ks"
      by (rule first_free_Some [OF finite_imageI [OF finite_set]])
    show ?thesis
    proof (rule that)
      show "normalize_loaded_mcp_grants now marked st = Some (st\<lparr>st_grants := ks @
          [\<lparr>gr_client_id = invalid_grant_client ((Suc ^^ j) 1),
            gr_name = str ''Invalid loaded grant - review required'', gr_scopes = [], gr_allowed_sessions = [],
            gr_confirm_writes = True, gr_expires_at = None, gr_revoked_at = Some marked\<rparr>]\<rparr>)"
        using j(1) True l by (simp add: normalize_loaded_mcp_grants_def ks_def [symmetric] del: str_simps)
      show "grants_ok (has_profile st) (ks @
          [\<lparr>gr_client_id = invalid_grant_client ((Suc ^^ j) 1),
            gr_name = str ''Invalid loaded grant - review required'', gr_scopes = [], gr_allowed_sessions = [],
            gr_confirm_writes = True, gr_expires_at = None, gr_revoked_at = Some marked\<rparr>])"
        using ks j(2) by (simp add: grants_ok_def)
    qed
  qed
qed

section \<open>The stages together\<close>

text \<open>
  A store that has just been parsed: what is not serialised has its default value. The bound on
  the numbers of records is the one of a vector, whose bytes are counted by an \<open>isize\<close>.
\<close>

definition parsed_store :: "'vt SessionStore \<Rightarrow> bool" where
  "parsed_store st \<longleftrightarrow>
     st_event_counts st = Map.empty \<and> st_terminal_screens st = Map.empty \<and> st_sink st = sink_default \<and>
     length (st_events st) < 2 ^ 62 \<and> length (st_transfers st) < 2 ^ 62 \<and> length (st_audit st) < 2 ^ 62 \<and>
     length (st_timeline st) < 2 ^ 62 \<and> length (hks_keys (st_host_keys st)) < 2 ^ 62"

definition session_kinds :: "'vt SessionStore \<Rightarrow> ustr \<rightharpoonup> SessionKind" where
  "session_kinds st = map_of (rev (map (\<lambda>p. (prof_id p, prof_kind p)) (st_profiles st)))"

definition emptied :: "'vt SessionStore \<Rightarrow> 'vt SessionStore" where
  "emptied st = st\<lparr>st_profiles := [], st_runtimes := []\<rparr>"

lemma interrupt_transfer_sel [simp]:
  "tft_id (interrupt_transfer rate now t) = tft_id t"
  "\<not> transfer_task_is_active (tft_status (interrupt_transfer rate now t))"
  "tft_session_id (interrupt_transfer rate now t) = tft_session_id t"
  by (simp_all add: interrupt_transfer_def with_average_def transfer_task_is_active_def)

lemma redact_bodies_sessions:
  "map ev_session_id (fst (redact_custom_script_event_bodies es)) = map ev_session_id es"
  by (simp add: redact_custom_script_event_bodies_def)

lemma load_stages:
  fixes st :: "'vt SessionStore"
  assumes parsed: "parsed_store st" and loaded: "load_profiles (le_triggers env) (le_net env) (le_uuid env) 0
      empty_remap {} (st_profiles st) = Some (qs, remap)"
  obtains base s t where
    "base = upsert_loaded_profiles (le_clock env) 0 qs (remap_records remap (emptied st))"
    "normalize_loaded_store_at env st = Some t"
    "normalize_bounded_histories (le_json_len env) (le_now_ms env) s = Some t"
    "st_profiles s = st_profiles base"
    "st_runtimes s = map (restore_runtime (le_loaded_at env) (saved_runtime_map remap (st_runtimes st)))
       (st_runtimes base)"
    "ev_session_id ` set (st_events s) \<subseteq> session_ids s"
    "st_terminal_screens s = Map.empty" "st_sink s = sink_default"
    "distinct (map tft_id (st_transfers s))"
    "\<forall>t \<in> set (st_transfers s). \<not> transfer_task_is_active (tft_status t)"
    "\<exists>b :: 'vt SessionStore. st_profiles b = st_profiles s \<and> st_grants b = map (remap_grant remap) (st_grants st) \<and>
       normalize_loaded_mcp_grants (le_revoked_at env) (le_marked_at env) b = Some (b\<lparr>st_grants := st_grants s\<rparr>) \<and>
       grants_ok (has_profile b) (st_grants s)"
    "one_keys_wf (session_kinds s) (st_one_keys s)"
    "st_custom_scripts s = normalize_loaded_custom_scripts (le_uuid_ok env) (st_custom_scripts st)"
proof -
  define base where "base = upsert_loaded_profiles (le_clock env) 0 qs (remap_records remap (emptied st))"
  define pruned where "pruned = prune_orphaned_loaded_session_state base"
  have ps: "st_profiles pruned = st_profiles base" by (simp add: pruned_def)
  have len: "length (st_events pruned) < 2 ^ 62" "length (st_transfers pruned) < 2 ^ 62" "length (st_audit pruned) < 2 ^ 62"
    "length (st_timeline pruned) < 2 ^ 62" "length (hks_keys (st_host_keys pruned)) < 2 ^ 62"
    using parsed
    by (auto simp add: pruned_def base_def emptied_def parsed_store_def
        intro: le_less_trans [OF length_filter_le] le_less_trans [OF length_prune_host_keys])
  obtain es ts as ms ks sn where mirror:
    "normalize_loaded_mirror_keys (le_rfc3339 env) pruned = Some (pruned\<lparr>st_events := es, st_transfers := ts,
       st_audit := as, st_timeline := ms, st_host_keys := \<lparr>hks_keys = ks\<rparr>, st_sysmon := sn\<rparr>)"
    "distinct (map tft_id ts)" "map ev_session_id es = map ev_session_id (st_events pruned)"
    by (rule mirror_keys_Some [OF len]) blast
  define b where "b = pruned\<lparr>st_events := es, st_transfers := ts, st_audit := as, st_timeline := ms,
    st_host_keys := \<lparr>hks_keys = ks\<rparr>, st_sysmon := sn\<rparr>"
  obtain gs where grants: "normalize_loaded_mcp_grants (le_revoked_at env) (le_marked_at env) b = Some (b\<lparr>st_grants := gs\<rparr>)"
    "grants_ok (has_profile b) gs"
    by (rule loaded_grants_Some)
  define c where "c = b\<lparr>st_grants := gs, st_mcp_http_settings :=
    (case normalize_mcp_http_settings (le_addresses env) (st_mcp_http_settings b) of
       Inr (settings, _) \<Rightarrow> settings | Inl _ \<Rightarrow> default_mcp_http_settings)\<rparr>"
  obtain os where ones: "normalize_loaded_one_keys c = Some (c\<lparr>st_one_keys := os\<rparr>)"
    "one_keys_wf (session_kinds c) os"
    by (rule normalize_loaded_one_keys_Some [of c]) (simp add: session_kinds_def)
  define s where "s = normalize_interrupted_transfers (le_rate env) (le_loaded_at env)
    (c\<lparr>st_one_keys := os,
      st_custom_scripts := normalize_loaded_custom_scripts (le_uuid_ok env) (st_custom_scripts c),
      st_events := fst (redact_custom_script_event_bodies (st_events c)),
      st_runtimes := map (restore_runtime (le_loaded_at env) (saved_runtime_map remap (st_runtimes st))) (st_runtimes c)\<rparr>)"
  obtain t where t: "normalize_bounded_histories (le_json_len env) (le_now_ms env) s = Some t"
    using normalize_bounded_histories_Some [of "le_json_len env" "le_now_ms env" s] by metis
  have at: "normalize_loaded_store_at env st = Some t"
    using loaded mirror(1) grants(1) ones(1) t
    by (simp add: normalize_loaded_store_at_def Let_def base_def [symmetric, unfolded emptied_def]
        pruned_def [symmetric] b_def [symmetric] c_def [symmetric] s_def)
  show ?thesis
  proof (rule that [OF base_def at t])
    show "st_profiles s = st_profiles base"
      by (simp add: s_def c_def b_def ps normalize_interrupted_transfers_def)
    show "ev_session_id ` set (st_events s) \<subseteq> session_ids s"
    proof -
      have "ev_session_id ` set (st_events s) = ev_session_id ` set es"
        using redact_bodies_sessions [of es]
        by (simp add: s_def c_def b_def normalize_interrupted_transfers_def) (metis list.set_map)
      also have "\<dots> = ev_session_id ` set (st_events pruned)" using mirror(3) by (metis list.set_map)
      finally show ?thesis
        by (auto simp add: s_def c_def b_def pruned_def normalize_interrupted_transfers_def session_ids_def
            has_profile_iff)
    qed
    show "\<exists>b :: 'vt SessionStore. st_profiles b = st_profiles s \<and> st_grants b = map (remap_grant remap) (st_grants st) \<and>
       normalize_loaded_mcp_grants (le_revoked_at env) (le_marked_at env) b = Some (b\<lparr>st_grants := st_grants s\<rparr>) \<and>
       grants_ok (has_profile b) (st_grants s)"
      using grants
      by (intro exI [of _ b]) (simp add: s_def c_def b_def pruned_def base_def emptied_def remap_records_def
          Let_def prune_orphaned_loaded_session_state_def normalize_interrupted_transfers_def)
  qed (use parsed mirror(2) ones(2) in
      \<open>simp_all add: s_def c_def b_def pruned_def base_def emptied_def normalize_interrupted_transfers_def
         parsed_store_def session_kinds_def comp_def\<close>)
qed

section \<open>What a loaded store satisfies\<close>

definition loaded_ok :: "('net, 'ip, 'addr) load_env \<Rightarrow> 'vt SessionStore \<Rightarrow> bool" where
  "loaded_ok env st \<longleftrightarrow>
     distinct (map prof_id (st_profiles st)) \<and>
     (\<forall>p \<in> set (st_profiles st). profile_normal (le_triggers env) (le_net env) p) \<and>
     distinct (map rt_session_id (st_runtimes st)) \<and> rt_session_id ` set (st_runtimes st) = session_ids st \<and>
     (\<forall>r \<in> set (st_runtimes st). rt_status r = Disconnected \<and> rt_connected_since r = None) \<and>
     events_ok st \<and> histories_ok st \<and>
     distinct (map tft_id (st_transfers st)) \<and>
     (\<forall>t \<in> set (st_transfers st). \<not> transfer_task_is_active (tft_status t)) \<and>
     grants_ok (has_profile st) (st_grants st) \<and>
     one_keys_wf (session_kinds st) (st_one_keys st) \<and>
     scripts_normal (le_uuid_ok env) (st_custom_scripts st)"

lemma restore_runtime_sel [simp]:
  "rt_session_id (restore_runtime now saved r) = rt_session_id r"
  "rt_status (restore_runtime now saved r) = Disconnected"
  "rt_connected_since (restore_runtime now saved r) = None"
  by (auto simp add: restore_runtime_def restore_saved_runtime_def Let_def split: option.split SessionStatus.split)

lemma normalize_loaded_ok:
  fixes st :: "'vt SessionStore"
  assumes parsed: "parsed_store st" and uuid: "\<And>i. uuid_text (le_uuid env i)" and len: "length (st_profiles st) \<le> 10000"
  obtains t where "normalize_loaded_store_at env st = Some t" "loaded_ok env t"
proof -
  obtain qs remap as where qs: "load_profiles (le_triggers env) (le_net env) (le_uuid env) 0 empty_remap {}
      (st_profiles st) = Some (qs, remap)" "\<forall>q \<in> set qs. profile_normal (le_triggers env) (le_net env) q"
    by (rule load_profiles_Some [of "{}" 0 "st_profiles st" "le_uuid env" "le_triggers env" "le_net env" empty_remap])
       (use uuid len in auto)
  obtain base s t where base: "base = upsert_loaded_profiles (le_clock env) 0 qs (remap_records remap (emptied st))"
    and t: "normalize_loaded_store_at env st = Some t"
      "normalize_bounded_histories (le_json_len env) (le_now_ms env) s = Some t"
    and s: "st_profiles s = st_profiles base"
      "st_runtimes s = map (restore_runtime (le_loaded_at env) (saved_runtime_map remap (st_runtimes st)))
         (st_runtimes base)"
      "ev_session_id ` set (st_events s) \<subseteq> session_ids s" "st_terminal_screens s = Map.empty"
      "st_sink s = sink_default" "distinct (map tft_id (st_transfers s))"
      "\<forall>t \<in> set (st_transfers s). \<not> transfer_task_is_active (tft_status t)"
      "one_keys_wf (session_kinds s) (st_one_keys s)"
      "st_custom_scripts s = normalize_loaded_custom_scripts (le_uuid_ok env) (st_custom_scripts st)"
    and b: "\<exists>b :: 'vt SessionStore. st_profiles b = st_profiles s \<and> st_grants b = map (remap_grant remap) (st_grants st) \<and>
       normalize_loaded_mcp_grants (le_revoked_at env) (le_marked_at env) b = Some (b\<lparr>st_grants := st_grants s\<rparr>) \<and>
       grants_ok (has_profile b) (st_grants s)"
    by (rule load_stages [OF parsed qs(1)]) metis
  have gs: "grants_ok (has_profile s) (st_grants s)"
  proof -
    obtain b :: "'vt SessionStore" where "st_profiles b = st_profiles s" "grants_ok (has_profile b) (st_grants s)"
      using b by metis
    then show ?thesis by (simp add: has_profile_def [abs_def])
  qed
  note sel = normalize_bounded_sel [OF t(2)]
  have reg: "registry_ok (st_profiles base) (st_runtimes base)"
    unfolding base by (rule upsert_loaded_registry) (simp add: emptied_def registry_ok_def)
  have "set (st_profiles base) \<subseteq> set qs"
    using upsert_loaded_members [of "le_clock env" 0 qs "remap_records remap (emptied st)"]
    by (simp add: base emptied_def)
  then have normal: "\<forall>p \<in> set (st_profiles base). profile_normal (le_triggers env) (le_net env) p" using qs(2) by blast
  have hist: "events_ok t" "histories_ok t"
    by (rule normalize_establishes [OF t(2) s(3)], simp_all add: s(4,5) sink_default_def)+
  have "loaded_ok env t"
    unfolding loaded_ok_def
  proof (intro conjI)
    show "rt_session_id ` set (st_runtimes t) = session_ids t"
      using reg by (auto simp add: sel s(1,2) session_ids_def registry_ok_def image_image)
    show "distinct (map rt_session_id (st_runtimes t))"
      using reg by (simp add: sel s(2) registry_ok_def comp_def)
    show "\<forall>t \<in> set (st_transfers t). \<not> transfer_task_is_active (tft_status t)"
      using s(7) subseq_set_distinct(1) [OF sel(6)] by blast
    show "distinct (map tft_id (st_transfers t))" using s(6) by (rule subseq_set_distinct(2) [OF sel(6)])
    show "scripts_normal (le_uuid_ok env) (st_custom_scripts t)"
      by (simp add: sel s(9) script_list.norm_accepted)
  qed (use reg normal hist gs s(8) in
      \<open>simp_all add: sel s(1,2) registry_ok_def has_profile_def [abs_def] session_kinds_def\<close>)
  with t(1) show ?thesis by (rule that)
qed

section \<open>A store that PortMate saved\<close>

text \<open>What parsing gives back of a store that was written: the fields that are not serialised are lost.\<close>

definition reread :: "'vt SessionStore \<Rightarrow> 'vt SessionStore" where
  "reread st = st\<lparr>st_event_counts := Map.empty, st_terminal_screens := Map.empty, st_sink := sink_default\<rparr>"

definition reasons_normal :: "'vt SessionStore \<Rightarrow> bool" where
  "reasons_normal st \<longleftrightarrow>
     (\<forall>r \<in> set (st_runtimes st). \<forall>x. rt_last_disconnect_reason r = Some x \<longrightarrow>
        normalize_session_disconnect_reason x \<noteq> None)"

lemma saved_runtime_own:
  assumes "distinct (map rt_session_id rs)" "r \<in> set rs"
    "\<And>r. r \<in> set rs \<Longrightarrow> remap_loaded_session_id remap (rt_session_id r) = rt_session_id r"
  shows "saved_runtime_map remap rs (rt_session_id r) = Some r"
proof -
  have same: "remap_runtime remap r = r" if "r \<in> set rs" for r
    using assms(3) [OF that] by (cases r) (simp add: remap_runtime_def move_pane_def)
  have "map (remap_runtime remap) rs = rs" by (rule map_idI) (rule same)
  moreover have "distinct (map fst (rev (map (\<lambda>r. (rt_session_id r, r)) rs)))"
    using assms(1) by (simp add: rev_map [symmetric] comp_def)
  ultimately show ?thesis
    using assms(2) by (simp add: saved_runtime_map_def map_of_eq_Some_iff)
qed

lemma restore_runtime_ok:
  assumes "runtime_ok saved" "rt_session_id saved = rt_session_id r" "m (rt_session_id r) = Some saved"
    "\<And>x. rt_last_disconnect_reason saved = Some x \<Longrightarrow> normalize_session_disconnect_reason x \<noteq> None"
  shows "runtime_ok (restore_runtime now m r)"
    "rt_title (restore_runtime now m r) = rt_title saved" "rt_cwd (restore_runtime now m r) = rt_cwd saved"
    "rt_last_activity (restore_runtime now m r) = rt_last_activity saved"
proof -
  let ?n = "Option.bind (rt_last_disconnect_reason saved) normalize_session_disconnect_reason"
  have n: "?n = None \<longleftrightarrow> rt_last_disconnect saved = None"
    using assms(1,4) by (cases "rt_last_disconnect_reason saved") (auto simp add: runtime_ok_def)
  have len: "?n = Some x \<Longrightarrow> x \<noteq> [] \<and> length x \<le> 256" for x
    using normalize_reason_length by (auto simp add: bind_eq_Some_conv)
  show "runtime_ok (restore_runtime now m r)"
    using assms(1,2) n len
    by (cases "rt_status saved")
       (auto simp add: runtime_ok_def restore_runtime_def restore_saved_runtime_def Let_def assms(3) split: option.splits)
  show "rt_title (restore_runtime now m r) = rt_title saved" "rt_cwd (restore_runtime now m r) = rt_cwd saved"
    "rt_last_activity (restore_runtime now m r) = rt_last_activity saved"
    by (cases "rt_status saved"; simp add: restore_runtime_def restore_saved_runtime_def Let_def assms(3))+
qed

lemma normal_remap_exact:
  assumes "\<forall>k v. rmp_exact remap k = Some v \<longrightarrow> v = k"
  shows "rmp_exact (fold (\<lambda>p. remap_insert (prof_id p) (prof_id p)) ps remap) k = Some v \<longrightarrow> v = k"
  using assms
proof (induction ps arbitrary: remap)
  case (Cons p ps)
  have "\<forall>k v. rmp_exact (remap_insert (prof_id p) (prof_id p) remap) k = Some v \<longrightarrow> v = k"
    using Cons.prems by (auto simp add: remap_insert_exact)
  then show ?case using Cons by simp
qed simp

lemma normal_remap_normalized:
  assumes "\<forall>p \<in> set ps. normalized_session_profile_id (prof_id p) = prof_id p"
    "\<forall>k v. rmp_normalized remap k = Some (Some v) \<longrightarrow> v = k"
  shows "rmp_normalized (fold (\<lambda>p. remap_insert (prof_id p) (prof_id p)) ps remap) k = Some (Some v) \<longrightarrow> v = k"
  using assms
proof (induction ps arbitrary: remap)
  case (Cons p ps)
  have "\<forall>k v. rmp_normalized (remap_insert (prof_id p) (prof_id p) remap) k = Some (Some v) \<longrightarrow> v = k"
    using Cons.prems by (auto simp add: remap_insert_def Let_def split: option.splits)
  then show ?case using Cons by simp
qed simp

lemma profile_normal_id: "profile_normal env net p \<Longrightarrow> normalized_session_profile_id (prof_id p) = prof_id p"
  by (simp add: profile_normal_def normalized_session_profile_id_def normalized_metadata_id)

text \<open>The session that an identifier of such a file is taken for is written as it or normalises to it.\<close>

lemma normal_remap:
  assumes "\<forall>p \<in> set ps. profile_normal env net p"
  shows "remap_loaded_session_id (fold (\<lambda>p. remap_insert (prof_id p) (prof_id p)) ps empty_remap) s \<in>
    {s, normalized_session_profile_id s}"
proof -
  let ?r = "fold (\<lambda>p. remap_insert (prof_id p) (prof_id p)) ps empty_remap"
  have "rmp_exact ?r s = Some v \<Longrightarrow> v = s" for v
    using normal_remap_exact [of empty_remap ps s v] by (simp add: empty_remap_def)
  moreover have "rmp_normalized ?r k = Some (Some v) \<Longrightarrow> v = k" for k v
    using normal_remap_normalized [of ps empty_remap k v] assms profile_normal_id by (auto simp add: empty_remap_def)
  ultimately show ?thesis by (auto simp add: remap_loaded_session_id_def split: option.split)
qed

lemma load_profiles_normal:
  assumes "\<forall>p \<in> set ps. profile_normal env net p" "distinct (map prof_id ps)"
  shows "load_profiles env net uuid 0 empty_remap {} ps =
    Some (ps, fold (\<lambda>p. remap_insert (prof_id p) (prof_id p)) ps empty_remap)"
  by (rule load_profiles_id [OF assms]) simp

section \<open>Where a loaded grant comes from\<close>

lemma loaded_grants_loop_from:
  assumes "g \<in> set (fst (loaded_grants_loop now exists acc review gs))"
  shows "g \<in> set acc \<or> (\<exists>g0 \<in> set gs. \<exists>g1. normalize_mcp_grant g0 = Inr g1 \<and> g = retain_grant_sessions now exists g1)"
  using assms
proof (induction gs arbitrary: acc review)
  case (Cons a gs)
  then show ?case
    by (cases "normalize_mcp_grant a") (fastforce simp add: Let_def split: option.splits if_splits)+
qed simp

lemma loaded_grant_from:
  assumes "normalize_loaded_mcp_grants now marked b = Some (b\<lparr>st_grants := gs\<rparr>)" "g \<in> set gs" "gr_revoked_at g = None"
  obtains g0 g1 where "g0 \<in> set (st_grants b)" "normalize_mcp_grant g0 = Inr g1"
    "g = retain_grant_sessions now (has_profile b) g1"
proof -
  have eq: "gs = gs'" if "b\<lparr>st_grants := gs'\<rparr> = b\<lparr>st_grants := gs\<rparr>" for gs'
    using arg_cong [OF that, of st_grants] by simp
  have "g \<in> set (fst (loaded_grants_loop now (has_profile b) [] False (st_grants b)))"
    using assms
    by (auto simp add: normalize_loaded_mcp_grants_def split_def Let_def dest!: eq split: if_splits dest: in_set_takeD)
  from loaded_grants_loop_from [OF this] show ?thesis using that by auto
qed

lemma retain_grant_empty:
  assumes "gr_allowed_sessions (retain_grant_sessions now exists g) = []"
    "gr_revoked_at (retain_grant_sessions now exists g) = None"
  shows "gr_allowed_sessions g = []"
proof (rule ccontr)
  assume n: "gr_allowed_sessions g \<noteq> []"
  have f: "filter (\<lambda>s. s = MCP_NO_SESSIONS_SENTINEL \<or> exists s) (gr_allowed_sessions g) = []"
    using assms(1) by (simp add: retain_grant_sessions_def Let_def split: if_splits)
  then have "\<not> denies_all_sessions g"
    using n by (cases "gr_allowed_sessions g") (auto simp add: denies_all_sessions_def split: if_splits)
  then show False using assms(2) n f by (auto simp add: retain_grant_sessions_def Let_def split: if_splits)
qed

lemma retain_grant_revoked:
  "gr_revoked_at (retain_grant_sessions now exists g) = None \<Longrightarrow> gr_revoked_at g = None"
  "gr_confirm_writes (retain_grant_sessions now exists g) = gr_confirm_writes g"
  by (auto simp add: retain_grant_sessions_def Let_def split: if_splits)

section \<open>An example\<close>

definition ex_load_env :: "(unit, unit, unit) load_env" where
  "ex_load_env =
     \<lparr>le_triggers = ex_env, le_net = ex_net,
      le_addresses = \<lparr>ao_parse = \<lambda>_. None, ao_text = \<lambda>_. [], ao_loopback = \<lambda>_. True,
        ao_unspecified = \<lambda>_. False, ao_v6 = \<lambda>_. False, ao_host = \<lambda>_. None, ao_url = \<lambda>_. None\<rparr>,
      le_uuid = \<lambda>_. replicate 36 48, le_uuid_ok = \<lambda>_. True, le_json_len = \<lambda>_. None,
      le_rate = \<lambda>_ _. 0, le_rfc3339 = \<lambda>_. [], le_clock = \<lambda>_. 0, le_revoked_at = 0, le_marked_at = 0,
      le_loaded_at = 5, le_now_ms = 0\<rparr>"

definition ex_load_profile :: SessionProfile where
  "ex_load_profile = normalize_session_profile ex_env ex_net []
     \<lparr>prof_id = str ''s'', prof_name = str ''box'', prof_kind = KShell, prof_group = [], prof_tags = [],
      prof_connection = ConnShell \<lparr>sh_program = str ''sh'', sh_args = [], sh_cwd = None\<rparr>,
      prof_terminal = default_terminal_settings, prof_logging = default_logging_settings,
      prof_triggers = [], prof_transfer = default_transfer_settings\<rparr>"

definition ex_load_grant :: McpGrant where
  "ex_load_grant =
     \<lparr>gr_client_id = str ''c'', gr_name = [], gr_scopes = [ReadLogs], gr_allowed_sessions = [str ''s''],
      gr_confirm_writes = True, gr_expires_at = None, gr_revoked_at = None\<rparr>"

text \<open>A store with one session and a grant for it, and a file that holds the session twice.\<close>

definition ex_saved_store :: "unit SessionStore" where
  "ex_saved_store = (fst (upsert_profile 1 ex_load_profile default_store))\<lparr>st_grants := [ex_load_grant]\<rparr>"

definition ex_twice_store :: "unit SessionStore" where
  "ex_twice_store = ex_saved_store\<lparr>st_profiles := [ex_load_profile, ex_load_profile]\<rparr>"

lemma ex_uuid: "uuid_text (le_uuid ex_load_env i)"
  by (simp add: ex_load_env_def uuid_text_def is_ascii_hexdigit_def is_ascii_digit_def)

lemma ex_load_profile_id: "prof_id ex_load_profile = str ''s''"
  unfolding ex_load_profile_def
  by (subst normalize_profile_prof_id)
     (simp_all add: metadata_text_def trim_eq_self_iff is_whitespace_def is_control_def MCP_NO_SESSIONS_SENTINEL_def)

lemma ex_load_profile_normal: "profile_normal ex_env ex_net ex_load_profile"
proof -
  let ?p = "\<lparr>prof_id = str ''s'', prof_name = str ''box'', prof_kind = KShell, prof_group = [], prof_tags = [],
      prof_connection = ConnShell \<lparr>sh_program = str ''sh'', sh_args = [], sh_cwd = None\<rparr>,
      prof_terminal = default_terminal_settings, prof_logging = default_logging_settings,
      prof_triggers = [], prof_transfer = default_transfer_settings\<rparr>"
  have "normalize_session_profile ex_env ex_net [] ?p = normalize_session_profile ex_env ex_net (replicate 36 48) ?p"
    by (simp add: normalize_session_profile_def normalized_session_profile_id_def normalized_profile_metadata_text_def
        Let_def is_control_def trim_def trim_start_def trim_end_def is_whitespace_def MCP_NO_SESSIONS_SENTINEL_def)
  moreover have "uuid_text (replicate 36 48)"
    by (simp add: uuid_text_def is_ascii_hexdigit_def is_ascii_digit_def)
  ultimately show ?thesis unfolding ex_load_profile_def by (simp only: normalize_profile_normal)
qed

lemma ex_saved_sel:
  "st_profiles ex_saved_store = [ex_load_profile]" "st_grants ex_saved_store = [ex_load_grant]"
  "map rt_session_id (st_runtimes ex_saved_store) = [str ''s'']"
  "map rt_last_disconnect_reason (st_runtimes ex_saved_store) = [None]"
  "reread ex_saved_store = ex_saved_store" "parsed_store ex_saved_store"
  by (simp_all add: ex_saved_store_def reread_def parsed_store_def upsert_profile_profiles upsert_profile_runtimes
      has_profile_def find_runtime_def default_store_def ex_load_profile_id empty_host_keys_def)

lemma ex_saved_store_ok: "store_ok ex_saved_store"
  using upsert_store_ok [OF default_store_ok, of 1 ex_load_profile]
  by (simp add: ex_saved_store_def store_ok_def events_ok_def histories_ok_def counts_ok_def session_count_def
      session_ids_def)

section \<open>Properties\<close>

text \<open>C2. Whatever a parsed store contains, loading it returns: with more than 10,000 profiles it is
  refused; otherwise the result satisfies the invariants of the event log and the histories, every
  profile is normal and has one runtime, no session is connected, no transfer is active and no two
  have the same identifier, there are at most 512 grants, one per client, that name existing
  sessions only, and every OneKey and script is well-formed.\<close>

theorem load_establishes_invariants:
  assumes "parsed_store st" and "\<And>i. uuid_text (le_uuid env i)"
  shows "if length (st_profiles st) \<le> 10000
         then \<exists>t. normalize_loaded_store_checked env st = Some (Inr t) \<and> loaded_ok env t
         else normalize_loaded_store_checked env st = Some (Inl (StoreRejected ProfileCountExceeded))"
proof (cases "length (st_profiles st) \<le> 10000")
  case True
  then obtain t where "normalize_loaded_store_at env st = Some t" "loaded_ok env t"
    using normalize_loaded_ok [OF assms] by metis
  then show ?thesis using True by (simp add: normalize_loaded_store_checked_def validate_profile_count_def)
qed (simp add: normalize_loaded_store_checked_def validate_profile_count_def)

theorem load_establishes_invariants_witness:
  "parsed_store ex_twice_store \<and>
   (\<exists>t. normalize_loaded_store_checked ex_load_env ex_twice_store = Some (Inr t) \<and> loaded_ok ex_load_env t)"
proof -
  have "parsed_store ex_twice_store" using ex_saved_sel(6) by (simp add: ex_twice_store_def parsed_store_def)
  with load_establishes_invariants [OF this, of ex_load_env, OF ex_uuid] show ?thesis
    by (simp add: ex_twice_store_def)
qed


text \<open>C4. Loading loses no session: with fresh UUIDs there are as many profiles afterwards as in the
  file, each with an identifier of its own, and profiles that are normal and distinct are kept as
  they are.\<close>

theorem load_keeps_profiles:
  assumes "parsed_store st" "\<And>i. uuid_text (le_uuid env i)" "length (st_profiles st) \<le> 10000"
    and "fresh_session_uuids (le_uuid env) (st_profiles st)"
  shows "\<exists>t. normalize_loaded_store_at env st = Some t \<and>
     length (st_profiles t) = length (st_profiles st) \<and> distinct (map prof_id (st_profiles t)) \<and>
     ((\<forall>p \<in> set (st_profiles st). profile_normal (le_triggers env) (le_net env) p) \<and>
      distinct (map prof_id (st_profiles st)) \<longrightarrow> st_profiles t = st_profiles st)"
proof -
  obtain qs remap as where qs: "load_profiles (le_triggers env) (le_net env) (le_uuid env) 0 empty_remap {}
      (st_profiles st) = Some (qs, remap)"
    "length qs = length (st_profiles st)" "distinct (map prof_id qs)"
  proof (rule load_profiles_Some [of "{}" 0 "st_profiles st" "le_uuid env" "le_triggers env" "le_net env" empty_remap])
    fix qs remap as
    assume a: "load_profiles (le_triggers env) (le_net env) (le_uuid env) 0 empty_remap {} (st_profiles st) =
        Some (qs, remap)" "length qs = length (st_profiles st)" "length as = length (st_profiles st)" "distinct as"
      "\<forall>k < length (st_profiles st). prof_id (qs ! k) =
         (if as ! k = MCP_NO_SESSIONS_SENTINEL then str ''session-'' @ le_uuid env (0 + k) else as ! k)"
      "fresh_session_uuids (le_uuid env) (st_profiles st) \<longrightarrow>
         (\<forall>a \<in> set as. \<forall>i. a \<noteq> str ''session-'' @ le_uuid env i)"
    have "distinct (map prof_id qs)"
      using a(6) assms(4) by (intro load_profiles_distinct [OF a(3,2,4,5)]) simp
    then show thesis by (rule that [OF a(1,2)])
  qed (use assms in auto)
  obtain base s t where base: "base = upsert_loaded_profiles (le_clock env) 0 qs (remap_records remap (emptied st))"
    and t: "normalize_loaded_store_at env st = Some t"
      "normalize_bounded_histories (le_json_len env) (le_now_ms env) s = Some t" "st_profiles s = st_profiles base"
    by (rule load_stages [OF assms(1) qs(1)]) metis
  have "st_profiles t = qs"
    using upsert_loaded_fresh [OF qs(3), of "remap_records remap (emptied st)"]
    by (simp add: normalize_bounded_sel [OF t(2)] t(3) base emptied_def)
  moreover have "qs = st_profiles st"
    if "\<forall>p \<in> set (st_profiles st). profile_normal (le_triggers env) (le_net env) p"
      "distinct (map prof_id (st_profiles st))"
    using load_profiles_normal [OF that, of "le_uuid env"] qs(1) by simp
  ultimately show ?thesis using t(1) qs(2,3) by blast
qed

theorem load_keeps_profiles_witness:
  "\<exists>t. normalize_loaded_store_at ex_load_env ex_twice_store = Some t \<and>
     length (st_profiles t) = 2 \<and> distinct (map prof_id (st_profiles t))"
proof -
  have "normalized_session_profile_id (prof_id ex_load_profile) = str ''s''"
    using profile_normal_id [OF ex_load_profile_normal] by (simp only: ex_load_profile_id)
  then have "fresh_session_uuids (le_uuid ex_load_env) (st_profiles ex_twice_store)"
    by (simp add: fresh_session_uuids_def ex_twice_store_def)
  moreover have "parsed_store ex_twice_store" using ex_saved_sel(6) by (simp add: ex_twice_store_def parsed_store_def)
  moreover have "length (st_profiles ex_twice_store) = 2" by (simp add: ex_twice_store_def)
  ultimately show ?thesis using load_keeps_profiles [of ex_twice_store ex_load_env, OF _ ex_uuid] by auto
qed







end
