(* ===== verification/Portable_Vault.thy ===== *)
theory Portable_Vault
  imports Rust_Str
begin

text \<open>
  The portable vault of secrets (\<open>src-tauri/src/portable_vault.rs\<close> and \<open>PortableStronghold\<close> of
  \<open>state_snapshot.rs\<close>): an encrypted snapshot file, an unlocked copy of it in memory and the
  version of the file that the copy was read from. Encryption and the file system belong to the
  \<open>iota_stronghold\<close> crate and the operating system: the snapshot is modelled by the secrets it
  holds, its SHA-256 digest by the number of the commit that wrote it, and whether a lock, a read,
  a commit or an access to the client succeeds is an argument. A commit writes the whole snapshot
  or nothing. Other instances of the program write the file as well. An operation that takes the
  lock twice has an argument for each time.
\<close>

section \<open>State\<close>

type_synonym secrets = "ustr \<rightharpoonup> ustr"

datatype PortableVaultSnapshotVersion = SnapshotMissing | SnapshotSha256 nat | UnknownAfterCommit

text \<open>
  The file: the secrets of the last commit, \<open>None\<close> when there is none, and the password whose key
  encrypts them; commits are numbered. The key provider of the copy in memory is its password.
\<close>

record vault_file =
  vf_commits :: nat
  vf_secrets :: "secrets option"
  vf_password :: ustr

record PortableStronghold =
  sh_values :: secrets
  sh_snapshot_version :: PortableVaultSnapshotVersion
  sh_password :: ustr
  sh_opened_existing :: bool

record vault =
  va_file :: vault_file
  va_stronghold :: "PortableStronghold option"

text \<open>How the steps of one operation end.\<close>

record vault_io =
  vi_lock :: bool      \<comment> \<open>the lock file and the parent directory\<close>
  vi_version :: bool   \<comment> \<open>reading the file to compare its digest\<close>
  vi_commit :: bool
  vi_refresh :: bool   \<comment> \<open>reading the digest after the commit\<close>
  vi_salt :: bool      \<comment> \<open>reading or making the salt, and deriving the key\<close>
  vi_client :: bool
  vi_change :: "nat \<Rightarrow> bool"  \<comment> \<open>the accesses to the client's store, in order\<close>
  vi_restore :: bool

datatype VaultError =
    VaultLocked | VaultLockFile | VaultVersionUnread | VaultVersionUnknown | VaultChangedElsewhere
  | VaultCommitFailed | VaultClient | VaultChange | VaultRefPrefix | VaultRefInvalid | VaultDuplicateRef ustr
  | VaultMissingSecret | VaultNotCreated | VaultExists | VaultUnlocked | VaultPasswordShort
  | VaultPasswordSame | VaultOpenFailed | VaultSalt

datatype SecretProbeResult = SecretPresent ustr | SecretMissing | SecretUnavailable VaultError

definition file_version :: "vault_file \<Rightarrow> PortableVaultSnapshotVersion" where
  "file_version f = (if vf_secrets f = None then SnapshotMissing else SnapshotSha256 (vf_commits f))"

definition file_contents :: "vault_file \<Rightarrow> secrets" where
  "file_contents f = (case vf_secrets f of None \<Rightarrow> Map.empty | Some m \<Rightarrow> m)"

definition commit_file :: "secrets \<Rightarrow> ustr \<Rightarrow> vault_file \<Rightarrow> vault_file" where
  "commit_file m password f =
     \<lparr>vf_commits = Suc (vf_commits f), vf_secrets = Some m, vf_password = password\<rparr>"

section \<open>The snapshot\<close>

definition ensure_snapshot_current_locked ::
  "vault_io \<Rightarrow> vault_file \<Rightarrow> PortableStronghold \<Rightarrow> VaultError + unit" where
  "ensure_snapshot_current_locked io f sh =
     (if sh_snapshot_version sh = UnknownAfterCommit then Inl VaultVersionUnknown
      else if \<not> vi_version io then Inl VaultVersionUnread
      else if file_version f \<noteq> sh_snapshot_version sh then Inl VaultChangedElsewhere
      else Inr ())"

definition ensure_snapshot_current :: "vault_io \<Rightarrow> vault_file \<Rightarrow> PortableStronghold \<Rightarrow> VaultError + unit" where
  "ensure_snapshot_current io f sh =
     (if \<not> vi_lock io then Inl VaultLockFile else ensure_snapshot_current_locked io f sh)"

definition refresh_snapshot_version_after_commit ::
  "vault_io \<Rightarrow> vault_file \<Rightarrow> PortableStronghold \<Rightarrow> PortableStronghold" where
  "refresh_snapshot_version_after_commit io f sh =
     sh\<lparr>sh_snapshot_version := if vi_refresh io then file_version f else UnknownAfterCommit\<rparr>"

text \<open>\<open>rekey\<close> commits with another key than the one in memory and takes it over; \<open>save\<close> keeps the key.\<close>

definition rekey_stronghold ::
  "vault_io \<Rightarrow> ustr \<Rightarrow> vault_file \<Rightarrow> PortableStronghold
     \<Rightarrow> vault_file \<times> PortableStronghold \<times> (VaultError + unit)" where
  "rekey_stronghold io password f sh =
     (if \<not> vi_lock io then (f, sh, Inl VaultLockFile)
      else case ensure_snapshot_current_locked io f sh of
             Inl e \<Rightarrow> (f, sh, Inl e)
           | Inr _ \<Rightarrow>
               if \<not> vi_commit io then (f, sh, Inl VaultCommitFailed)
               else let f = commit_file (sh_values sh) password f; sh = sh\<lparr>sh_password := password\<rparr>
                    in (f, refresh_snapshot_version_after_commit io f sh, Inr ()))"

definition save_stronghold ::
  "vault_io \<Rightarrow> vault_file \<Rightarrow> PortableStronghold \<Rightarrow> vault_file \<times> PortableStronghold \<times> (VaultError + unit)" where
  "save_stronghold io f sh = rekey_stronghold io (sh_password sh) f sh"

text \<open>\<open>PortableStronghold::new\<close>; an existing snapshot is opened by the password it was written with.\<close>

definition new_stronghold :: "vault_io \<Rightarrow> ustr \<Rightarrow> vault_file \<Rightarrow> VaultError + PortableStronghold" where
  "new_stronghold io password f =
     (if \<not> vi_lock io then Inl VaultLockFile
      else if vf_secrets f \<noteq> None \<and> password \<noteq> vf_password f then Inl VaultOpenFailed
      else if \<not> vi_version io then Inl VaultVersionUnread
      else Inr \<lparr>sh_values = file_contents f, sh_snapshot_version = file_version f,
                sh_password = password, sh_opened_existing = (vf_secrets f \<noteq> None)\<rparr>)"

section \<open>Unlocking and creating\<close>

text \<open>Opening reads an existing snapshot; where there is none it saves an empty one.\<close>

definition open_portable_vault ::
  "vault_io \<Rightarrow> vault_io \<Rightarrow> ustr \<Rightarrow> vault_file \<Rightarrow> vault_file \<times> (VaultError + PortableStronghold)" where
  "open_portable_vault io io' password f =
     (if \<not> vi_lock io then (f, Inl VaultLockFile)
      else if \<not> vi_salt io then (f, Inl VaultSalt)
      else case new_stronghold io password f of
             Inl e \<Rightarrow> (f, Inl e)
           | Inr sh \<Rightarrow>
               if \<not> vi_client io then (f, Inl VaultClient)
               else if sh_opened_existing sh then (f, Inr sh)
               else case save_stronghold io' f sh of
                      (f, sh, Inl e) \<Rightarrow> (f, Inl e)
                    | (f, sh, Inr _) \<Rightarrow> (f, Inr sh))"

definition unlock_portable_vault_in ::
  "vault_io \<Rightarrow> vault_io \<Rightarrow> ustr \<Rightarrow> vault \<Rightarrow> vault \<times> (VaultError + unit)" where
  "unlock_portable_vault_in io io' password va =
     (if vf_secrets (va_file va) = None then (va, Inl VaultNotCreated)
      else case open_portable_vault io io' password (va_file va) of
             (f, Inl e) \<Rightarrow> (va\<lparr>va_file := f\<rparr>, Inl e)
           | (f, Inr sh) \<Rightarrow> (va\<lparr>va_file := f, va_stronghold := Some sh\<rparr>, Inr ()))"

definition create_portable_vault_in ::
  "vault_io \<Rightarrow> vault_io \<Rightarrow> ustr \<Rightarrow> vault \<Rightarrow> vault \<times> (VaultError + unit)" where
  "create_portable_vault_in io io' password va =
     (if va_stronghold va \<noteq> None then (va, Inl VaultUnlocked)
      else if vf_secrets (va_file va) \<noteq> None then (va, Inl VaultExists)
      else if length password < 8 then (va, Inl VaultPasswordShort)
      else case open_portable_vault io io' password (va_file va) of
             (f, Inl e) \<Rightarrow> (va\<lparr>va_file := f\<rparr>, Inl e)
           | (f, Inr sh) \<Rightarrow>
               if sh_opened_existing sh then (va\<lparr>va_file := f\<rparr>, Inl VaultExists)
               else (va\<lparr>va_file := f, va_stronghold := Some sh\<rparr>, Inr ()))"

section \<open>Single secrets\<close>

definition portable_vault_account :: "ustr \<Rightarrow> VaultError + ustr" where
  "portable_vault_account secret_ref =
     (case strip_prefix (trim secret_ref) (str ''stronghold:'') of
        None \<Rightarrow> Inl VaultRefPrefix
      | Some account \<Rightarrow> if account = [] \<or> 0 \<in> set account then Inl VaultRefInvalid else Inr account)"

definition with_values :: "secrets \<Rightarrow> PortableStronghold \<Rightarrow> PortableStronghold" where
  "with_values m sh = sh\<lparr>sh_values := m\<rparr>"

text \<open>
  What the single operations share after the change \<open>new\<close> of the values: the save, and the values
  as they were when it fails.
\<close>

definition save_or_restore ::
  "vault_io \<Rightarrow> secrets \<Rightarrow> PortableStronghold \<Rightarrow> vault \<Rightarrow> vault \<times> (VaultError + unit)" where
  "save_or_restore io new sh va =
     (case save_stronghold io (va_file va) (with_values new sh) of
        (f, sh', Inr _) \<Rightarrow> (va\<lparr>va_file := f, va_stronghold := Some sh'\<rparr>, Inr ())
      | (f, sh', Inl e) \<Rightarrow>
          (va\<lparr>va_file := f,
              va_stronghold := Some (if vi_restore io then with_values (sh_values sh) sh' else sh')\<rparr>, Inl e))"

definition write_secret_to_portable_vault_in ::
  "vault_io \<Rightarrow> ustr \<Rightarrow> ustr \<Rightarrow> vault \<Rightarrow> vault \<times> (VaultError + unit)" where
  "write_secret_to_portable_vault_in io secret_ref secret va =
     (case portable_vault_account secret_ref of
        Inl e \<Rightarrow> (va, Inl e)
      | Inr account \<Rightarrow>
          (case va_stronghold va of
             None \<Rightarrow> (va, Inl VaultLocked)
           | Some sh \<Rightarrow>
               if \<not> vi_client io then (va, Inl VaultClient)
               else if \<not> vi_change io 0 then (va, Inl VaultChange)
               else save_or_restore io ((sh_values sh)(account \<mapsto> secret)) sh va))"

definition delete_secret_from_portable_vault_in ::
  "vault_io \<Rightarrow> ustr \<Rightarrow> vault \<Rightarrow> vault \<times> (VaultError + unit)" where
  "delete_secret_from_portable_vault_in io secret_ref va =
     (case portable_vault_account secret_ref of
        Inl e \<Rightarrow> (va, Inl e)
      | Inr account \<Rightarrow>
          (case va_stronghold va of
             None \<Rightarrow> (va, Inl VaultLocked)
           | Some sh \<Rightarrow>
               if \<not> vi_client io then (va, Inl VaultClient)
               else if \<not> vi_change io 0 then (va, Inl VaultChange)
               else save_or_restore io ((sh_values sh)(account := None)) sh va))"

definition read_secret_from_portable_vault_in :: "vault_io \<Rightarrow> ustr \<Rightarrow> vault \<Rightarrow> VaultError + ustr" where
  "read_secret_from_portable_vault_in io secret_ref va =
     and_then (portable_vault_account secret_ref) (\<lambda>account.
     and_then (ok_or VaultLocked (va_stronghold va)) (\<lambda>sh.
     and_then (ensure_snapshot_current io (va_file va) sh) (\<lambda>_.
     and_then (ensure (vi_client io) VaultClient) (\<lambda>_.
     and_then (ensure (vi_change io 0) VaultChange) (\<lambda>_.
       ok_or VaultMissingSecret (sh_values sh account))))))"

definition probe_secret_from_portable_vault :: "vault_io \<Rightarrow> ustr \<Rightarrow> vault \<Rightarrow> SecretProbeResult" where
  "probe_secret_from_portable_vault io secret_ref va =
     (case portable_vault_account secret_ref of
        Inl e \<Rightarrow> SecretUnavailable e
      | Inr account \<Rightarrow>
          (case va_stronghold va of
             None \<Rightarrow> SecretUnavailable VaultLocked
           | Some sh \<Rightarrow>
               (case ensure_snapshot_current io (va_file va) sh of
                  Inl e \<Rightarrow> SecretUnavailable e
                | Inr _ \<Rightarrow>
                    if \<not> vi_client io then SecretUnavailable VaultClient
                    else if \<not> vi_change io 0 then SecretUnavailable VaultChange
                    else (case sh_values sh account of
                            Some v \<Rightarrow> SecretPresent v | None \<Rightarrow> SecretMissing))))"

section \<open>Batches\<close>

text \<open>The accounts of a batch, which have to be different.\<close>

fun batch_accounts :: "ustr list \<Rightarrow> ustr list \<Rightarrow> VaultError + ustr list" where
  "batch_accounts accounts [] = Inr accounts"
| "batch_accounts accounts (secret_ref # rest) =
     (case portable_vault_account secret_ref of
        Inl e \<Rightarrow> Inl e
      | Inr account \<Rightarrow>
          if account \<in> set accounts then Inl (VaultDuplicateRef secret_ref)
          else batch_accounts (accounts @ [account]) rest)"

text \<open>\<open>restore_portable_vault_values\<close>: the old values, the last changed first.\<close>

definition restore_portable_vault_values :: "(ustr \<times> ustr option) list \<Rightarrow> secrets \<Rightarrow> secrets" where
  "restore_portable_vault_values old_values m = fold (\<lambda>(account, v) m. m(account := v)) (rev old_values) m"

text \<open>The loop over the changes: the values reached, the old values and whether it got through.\<close>

fun batch_changes ::
  "vault_io \<Rightarrow> nat \<Rightarrow> (ustr \<times> ustr option) list \<Rightarrow> (ustr \<times> ustr option) list \<Rightarrow> secrets
     \<Rightarrow> secrets \<times> (ustr \<times> ustr option) list \<times> bool" where
  "batch_changes io n old_values [] m = (m, old_values, True)"
| "batch_changes io n old_values ((account, v) # rest) m =
     (if \<not> vi_change io n then (m, old_values, False)
      else batch_changes io (n + 1) (old_values @ [(account, m account)]) rest (m(account := v)))"

definition portable_vault_batch ::
  "vault_io \<Rightarrow> vault_io \<Rightarrow> (ustr \<times> ustr option) list \<Rightarrow> vault \<Rightarrow> vault \<times> (VaultError + bool)" where
  "portable_vault_batch io io' changes va =
     (case va_stronghold va of
        None \<Rightarrow> (va, Inl VaultLocked)
      | Some sh \<Rightarrow>
          (case ensure_snapshot_current io (va_file va) sh of
             Inl e \<Rightarrow> (va, Inl e)
           | Inr _ \<Rightarrow>
               if \<not> vi_client io then (va, Inl VaultClient)
               else
                 let (m, old_values, complete) = batch_changes io 0 [] changes (sh_values sh);
                     restore = (\<lambda>sh. if vi_restore io'
                                     then with_values (restore_portable_vault_values old_values (sh_values sh)) sh
                                     else sh)
                 in if \<not> complete
                    then (va\<lparr>va_stronghold := Some (restore (with_values m sh))\<rparr>, Inl VaultChange)
                    else (case save_stronghold io' (va_file va) (with_values m sh) of
                            (f, sh', Inl e) \<Rightarrow> (va\<lparr>va_file := f, va_stronghold := Some (restore sh')\<rparr>, Inl e)
                          | (f, sh', Inr _) \<Rightarrow>
                              (va\<lparr>va_file := f, va_stronghold := Some sh'\<rparr>,
                               Inr (sh_snapshot_version sh' = UnknownAfterCommit)))))"

definition write_secret_batch_to_portable_vault_in ::
  "vault_io \<Rightarrow> vault_io \<Rightarrow> (ustr \<times> ustr) list \<Rightarrow> vault \<Rightarrow> vault \<times> (VaultError + bool)" where
  "write_secret_batch_to_portable_vault_in io io' entries va =
     (case batch_accounts [] (map fst entries) of
        Inl e \<Rightarrow> (va, Inl e)
      | Inr accounts \<Rightarrow> portable_vault_batch io io' (zip accounts (map (Some \<circ> snd) entries)) va)"

definition delete_secret_batch_from_portable_vault_in ::
  "vault_io \<Rightarrow> vault_io \<Rightarrow> ustr list \<Rightarrow> vault \<Rightarrow> vault \<times> (VaultError + bool)" where
  "delete_secret_batch_from_portable_vault_in io io' secret_refs va =
     (case batch_accounts [] secret_refs of
        Inl e \<Rightarrow> (va, Inl e)
      | Inr accounts \<Rightarrow> portable_vault_batch io io' (map (\<lambda>account. (account, None)) accounts) va)"

text \<open>\<open>ensure_portable_vault_ready_for_migration\<close> and \<open>portable_vault_recovery_ready\<close>.\<close>

definition ensure_portable_vault_ready_for_migration :: "vault_io \<Rightarrow> vault \<Rightarrow> VaultError + unit" where
  "ensure_portable_vault_ready_for_migration io va =
     and_then (ok_or VaultLocked (va_stronghold va)) (\<lambda>sh. ensure_snapshot_current io (va_file va) sh)"

definition portable_vault_recovery_ready :: "vault \<Rightarrow> bool" where
  "portable_vault_recovery_ready va =
     (case va_stronghold va of None \<Rightarrow> False | Some sh \<Rightarrow> sh_snapshot_version sh \<noteq> UnknownAfterCommit)"

definition rotate_portable_vault_password_in ::
  "vault_io \<Rightarrow> vault_io \<Rightarrow> ustr \<Rightarrow> ustr \<Rightarrow> vault \<Rightarrow> vault \<times> (VaultError + unit)" where
  "rotate_portable_vault_password_in io io' current_password new_password va =
     (if vf_secrets (va_file va) = None then (va, Inl VaultNotCreated)
      else if length new_password < 8 then (va, Inl VaultPasswordShort)
      else if current_password = new_password then (va, Inl VaultPasswordSame)
      else case va_stronghold va of
             None \<Rightarrow> (va, Inl VaultLocked)
           | Some sh \<Rightarrow>
               (case open_portable_vault io io' current_password (va_file va) of
                  (f, Inl e) \<Rightarrow> (va\<lparr>va_file := f\<rparr>, Inl e)
                | (f, Inr _) \<Rightarrow>
                    if \<not> vi_salt io' then (va\<lparr>va_file := f\<rparr>, Inl VaultSalt)
                    else (case rekey_stronghold io' new_password f sh of
                            (f, sh', r) \<Rightarrow> (va\<lparr>va_file := f, va_stronghold := Some sh'\<rparr>, r))))"

section \<open>The copy in memory and the file\<close>

text \<open>
  While the copy has the version of the file it holds the same secrets and the same key; versions
  that the copy has are of commits that have happened.
\<close>

definition vault_ok :: "vault \<Rightarrow> bool" where
  "vault_ok va \<longleftrightarrow>
     (case va_stronghold va of
        None \<Rightarrow> True
      | Some sh \<Rightarrow>
          (\<forall>n. sh_snapshot_version sh = SnapshotSha256 n \<longrightarrow> n \<le> vf_commits (va_file va)) \<and>
          (sh_snapshot_version sh = file_version (va_file va) \<longrightarrow>
             sh_values sh = file_contents (va_file va) \<and>
             (vf_secrets (va_file va) \<noteq> None \<longrightarrow> sh_password sh = vf_password (va_file va))))"

inductive vault_step :: "vault \<Rightarrow> vault \<Rightarrow> bool" where
  vault_unlock: "vault_step va (fst (unlock_portable_vault_in io io' password va))"
| vault_create: "vault_step va (fst (create_portable_vault_in io io' password va))"
| vault_lock: "vault_step va (va\<lparr>va_stronghold := None\<rparr>)"
| vault_write: "vi_restore io \<Longrightarrow> vault_step va (fst (write_secret_to_portable_vault_in io secret_ref secret va))"
| vault_delete: "vi_restore io \<Longrightarrow> vault_step va (fst (delete_secret_from_portable_vault_in io secret_ref va))"
| vault_write_batch: "vi_restore io' \<Longrightarrow> vault_step va (fst (write_secret_batch_to_portable_vault_in io io' entries va))"
| vault_delete_batch: "vi_restore io' \<Longrightarrow> vault_step va (fst (delete_secret_batch_from_portable_vault_in io io' refs va))"
| vault_rotate: "vault_step va (fst (rotate_portable_vault_password_in io io' current_password new_password va))"
| other_instance: "vault_step va (va\<lparr>va_file := commit_file m password (va_file va)\<rparr>)"

inductive vault_reachable :: "vault \<Rightarrow> bool" where
  start: "va_stronghold va = None \<Longrightarrow> vault_reachable va"
| step: "vault_reachable va \<Longrightarrow> vault_step va va' \<Longrightarrow> vault_reachable va'"

lemma file_version_commit [simp]:
  "file_version (commit_file m p f) = SnapshotSha256 (Suc (vf_commits f))"
  "file_contents (commit_file m p f) = m" "vf_secrets (commit_file m p f) = Some m"
  "vf_commits (commit_file m p f) = Suc (vf_commits f)" "vf_password (commit_file m p f) = p"
  by (simp_all add: file_version_def file_contents_def commit_file_def)

lemma file_version_le: "file_version f = SnapshotSha256 n \<Longrightarrow> n \<le> vf_commits f"
  by (auto simp add: file_version_def split: if_splits)

lemma new_stronghold_ok:
  "new_stronghold io password (va_file va) = Inr sh \<Longrightarrow> vault_ok (va\<lparr>va_stronghold := Some sh\<rparr>)"
  by (auto simp add: new_stronghold_def vault_ok_def file_version_le split: if_splits)

text \<open>What a save does: nothing, or it replaces the file whose version the copy has.\<close>

lemma rekey_cases:
  obtains (failed) e where "rekey_stronghold io p f sh = (f, sh, Inl e)"
  | (saved) sh' where "rekey_stronghold io p f sh = (commit_file (sh_values sh) p f, sh', Inr ())"
      "file_version f = sh_snapshot_version sh" "sh_values sh' = sh_values sh" "sh_password sh' = p"
      "sh_snapshot_version sh' \<in> {SnapshotSha256 (Suc (vf_commits f)), UnknownAfterCommit}"
proof (cases "vi_lock io \<and> vi_commit io \<and> ensure_snapshot_current_locked io f sh = Inr ()")
  case True
  let ?f = "commit_file (sh_values sh) p f"
  show ?thesis
  proof (rule saved)
    show "rekey_stronghold io p f sh =
        (?f, refresh_snapshot_version_after_commit io ?f (sh\<lparr>sh_password := p\<rparr>), Inr ())"
      using True by (simp add: rekey_stronghold_def Let_def)
    show "file_version f = sh_snapshot_version sh"
      using True by (simp add: ensure_snapshot_current_locked_def split: if_splits)
  qed (simp_all add: refresh_snapshot_version_after_commit_def)
next
  case False
  then have "\<exists>e. rekey_stronghold io p f sh = (f, sh, Inl e)"
    by (cases "ensure_snapshot_current_locked io f sh") (auto simp add: rekey_stronghold_def)
  then show ?thesis using failed by blast
qed

lemma rekey_ok:
  assumes "rekey_stronghold io p (va_file va) sh = (f, sh', Inr ())"
  shows "vault_ok (va\<lparr>va_file := f, va_stronghold := Some sh'\<rparr>)"
  using assms by (cases rule: rekey_cases [of io p "va_file va" sh]) (auto simp add: vault_ok_def)

lemma with_values_sel [simp]:
  "sh_values (with_values m sh) = m" "sh_password (with_values m sh) = sh_password sh"
  "sh_snapshot_version (with_values m sh) = sh_snapshot_version sh"
  "with_values a (with_values b sh) = with_values a sh" "with_values (sh_values sh) sh = sh"
  by (simp_all add: with_values_def)

lemma save_cases:
  obtains (failed) e where "save_stronghold io f sh = (f, sh, Inl e)"
  | (saved) sh' where "save_stronghold io f sh = (commit_file (sh_values sh) (sh_password sh) f, sh', Inr ())"
      "file_version f = sh_snapshot_version sh" "sh_values sh' = sh_values sh" "sh_password sh' = sh_password sh"
      "sh_snapshot_version sh' \<in> {SnapshotSha256 (Suc (vf_commits f)), UnknownAfterCommit}"
  unfolding save_stronghold_def by (rule rekey_cases) blast+

text \<open>Opening gives a copy of the file, after saving an empty one where there was none.\<close>

lemma open_existing:
  assumes "vf_secrets f \<noteq> None"
  shows "fst (open_portable_vault io io' p f) = f"
    "open_portable_vault io io' p f = (f', Inr sh) \<Longrightarrow> new_stronghold io p f = Inr sh"
  using assms
  by (auto simp add: open_portable_vault_def new_stronghold_def split: if_splits sum.splits)

lemma open_missing:
  assumes "vf_secrets f = None"
  obtains (failed) e where "open_portable_vault io io' p f = (f, Inl e)"
  | (created) sh where "open_portable_vault io io' p f = (commit_file Map.empty p f, Inr sh)"
      "vault_ok \<lparr>va_file = commit_file Map.empty p f, va_stronghold = Some sh\<rparr>" "\<not> sh_opened_existing sh"
proof (cases "vi_lock io \<and> vi_salt io \<and> vi_client io \<and> vi_version io")
  case True
  let ?sh = "\<lparr>sh_values = Map.empty, sh_snapshot_version = SnapshotMissing, sh_password = p, sh_opened_existing = False\<rparr>"
  have new: "new_stronghold io p f = Inr ?sh"
    using True assms by (simp add: new_stronghold_def file_contents_def file_version_def)
  show ?thesis
  proof (cases rule: save_cases [of io' f ?sh])
    case (failed e)
    then show ?thesis using True by (intro that(1)) (simp add: open_portable_vault_def new)
  next
    case (saved sh')
    have "\<not> sh_opened_existing sh'"
      using saved(1)
      by (auto simp add: save_stronghold_def rekey_stronghold_def refresh_snapshot_version_after_commit_def Let_def
          split: if_splits sum.splits)
    then show ?thesis
      using True saved rekey_ok [of io' p "\<lparr>va_file = f, va_stronghold = None\<rparr>" ?sh]
      by (intro that(2)) (simp_all add: open_portable_vault_def new save_stronghold_def)
  qed
next
  case False
  then have "\<exists>e. open_portable_vault io io' p f = (f, Inl e)"
    by (auto simp add: open_portable_vault_def new_stronghold_def)
  then show ?thesis using that(1) by blast
qed

lemma unlock_frame: "va_file (fst (unlock_portable_vault_in io io' p va)) = va_file va"
  using open_existing(1) [of "va_file va" io io' p]
  by (auto simp add: unlock_portable_vault_in_def split: prod.splits sum.splits)

lemma unlock_ok: "vault_ok va \<Longrightarrow> vault_ok (fst (unlock_portable_vault_in io io' p va))"
  using open_existing [of "va_file va" io io' p]
  by (auto simp add: unlock_portable_vault_in_def new_stronghold_ok split: prod.splits sum.splits)

lemma create_cases:
  obtains (failed) e where "create_portable_vault_in io io' p va = (va, Inl e)"
  | (created) sh where "create_portable_vault_in io io' p va =
        (\<lparr>va_file = commit_file Map.empty p (va_file va), va_stronghold = Some sh\<rparr>, Inr ())"
      "vault_ok \<lparr>va_file = commit_file Map.empty p (va_file va), va_stronghold = Some sh\<rparr>"
      "vf_secrets (va_file va) = None" "8 \<le> length p"
proof (cases "va_stronghold va = None \<and> vf_secrets (va_file va) = None \<and> 8 \<le> length p")
  case True
  then have none: "vf_secrets (va_file va) = None" by simp
  show ?thesis
    by (cases rule: open_missing [OF none, of io io' p]; cases va)
       (use True in \<open>auto intro: that simp add: create_portable_vault_in_def\<close>)
next
  case False
  then have "\<exists>e. create_portable_vault_in io io' p va = (va, Inl e)"
    by (auto simp add: create_portable_vault_in_def)
  then show ?thesis using that(1) by blast
qed

text \<open>A change is saved, or everything is as it was.\<close>

lemma save_or_restore_cases:
  assumes "vi_restore io" "va_stronghold va = Some sh" "vault_ok va"
  obtains (failed) e where "save_or_restore io new sh va = (va, Inl e)"
  | (saved) va' where "save_or_restore io new sh va = (va', Inr ())" "vault_ok va'"
      "file_contents (va_file va') = new" "sh_values sh = file_contents (va_file va)"
proof (cases rule: save_cases [of io "va_file va" "with_values new sh"])
  case (failed e)
  then have "save_or_restore io new sh va = (va, Inl e)"
    using assms(1,2) by (cases va) (simp add: save_or_restore_def)
  then show ?thesis by (rule that(1))
next
  case (saved sh')
  have ok: "vault_ok (va\<lparr>va_file := commit_file new (sh_password sh) (va_file va), va_stronghold := Some sh'\<rparr>)"
    using rekey_ok [of io "sh_password sh" va "with_values new sh"] saved(1) by (simp add: save_stronghold_def)
  have "sh_values sh = file_contents (va_file va)"
    using assms(2,3) saved(2) by (simp add: vault_ok_def)
  then show ?thesis
    using saved(1) by (intro that(2) [OF _ ok]) (simp_all add: save_or_restore_def)
qed

lemma batch_accounts_Inr:
  assumes "batch_accounts acc refs = Inr accounts" "distinct acc"
  shows "distinct accounts" "length accounts = length acc + length refs"
    "accounts = acc @ map (\<lambda>r. case portable_vault_account r of Inr a \<Rightarrow> a | Inl _ \<Rightarrow> []) refs"
    "\<forall>r \<in> set refs. is_ok (portable_vault_account r)"
  using assms
  by (induction refs arbitrary: acc) (fastforce split: sum.splits if_splits)+

lemma batch_changes_restore:
  assumes "batch_changes io n olds chs m = (m', olds', complete)"
  shows "restore_portable_vault_values olds' m' = restore_portable_vault_values olds m"
    "complete \<Longrightarrow> m' = fold (\<lambda>(a, v) m. m(a := v)) chs m"
  using assms
  by (induction chs arbitrary: n olds m)
     (auto simp add: restore_portable_vault_values_def split: if_splits)

lemma batch_cases:
  assumes "vi_restore io'" "vault_ok va"
  obtains (failed) e where "portable_vault_batch io io' chs va = (va, Inl e)"
  | (saved) va' b where "portable_vault_batch io io' chs va = (va', Inr b)" "vault_ok va'"
      "file_contents (va_file va') = fold (\<lambda>(a, v) m. m(a := v)) chs (file_contents (va_file va))"
proof (cases "va_stronghold va")
  case None
  then show ?thesis by (intro that(1)) (simp add: portable_vault_batch_def)
next
  case (Some sh)
  obtain m olds complete where bc: "batch_changes io 0 [] chs (sh_values sh) = (m, olds, complete)"
    by (metis prod_cases3)
  have restored: "restore_portable_vault_values olds m = sh_values sh"
    using batch_changes_restore(1) [OF bc] by (simp add: restore_portable_vault_values_def)
  show ?thesis
  proof (cases "ensure_snapshot_current io (va_file va) sh = Inr () \<and> vi_client io \<and> complete")
    case True
    show ?thesis
    proof (cases rule: save_cases [of io' "va_file va" "with_values m sh"])
      case (failed e)
      then have "portable_vault_batch io io' chs va = (va, Inl e)"
        using Some True bc assms(1) restored by (cases va) (simp add: portable_vault_batch_def)
      then show ?thesis by (rule that(1))
    next
      case (saved sh')
      have ok: "vault_ok (va\<lparr>va_file := commit_file m (sh_password sh) (va_file va), va_stronghold := Some sh'\<rparr>)"
        using rekey_ok [of io' "sh_password sh" va "with_values m sh"] saved(1) by (simp add: save_stronghold_def)
      have "sh_values sh = file_contents (va_file va)"
        using assms(2) saved(2) Some by (simp add: vault_ok_def)
      then show ?thesis
        using saved(1) Some True bc batch_changes_restore(2) [OF bc]
        by (intro that(2) [OF _ ok]) (simp_all add: portable_vault_batch_def)
    qed
  next
    case False
    then have "\<exists>e. portable_vault_batch io io' chs va = (va, Inl e)"
      using Some bc assms(1) restored
      by (cases "ensure_snapshot_current io (va_file va) sh"; cases va) (auto simp add: portable_vault_batch_def)
    then show ?thesis using that(1) by blast
  qed
qed

text \<open>Writing and deleting one secret are the same but for the new value.\<close>

lemma write_cases:
  assumes "vi_restore io" "vault_ok va"
  obtains (failed) e where "write_secret_to_portable_vault_in io r v va = (va, Inl e)"
  | (saved) va' a where "write_secret_to_portable_vault_in io r v va = (va', Inr ())" "vault_ok va'"
      "portable_vault_account r = Inr a" "file_contents (va_file va') = (file_contents (va_file va))(a \<mapsto> v)"
proof (cases "\<exists>a sh. portable_vault_account r = Inr a \<and> va_stronghold va = Some sh \<and> vi_client io \<and> vi_change io 0")
  case True
  then obtain a sh where a: "portable_vault_account r = Inr a" "va_stronghold va = Some sh" "vi_client io" "vi_change io 0"
    by blast
  show ?thesis
    by (cases rule: save_or_restore_cases [OF assms(1) a(2) assms(2), of "(sh_values sh)(a \<mapsto> v)"])
       (use a in \<open>auto intro: that simp add: write_secret_to_portable_vault_in_def\<close>)
next
  case False
  then have "\<exists>e. write_secret_to_portable_vault_in io r v va = (va, Inl e)"
    by (auto simp add: write_secret_to_portable_vault_in_def split: sum.split option.split)
  then show ?thesis using that(1) by blast
qed

lemma delete_cases:
  assumes "vi_restore io" "vault_ok va"
  obtains (failed) e where "delete_secret_from_portable_vault_in io r va = (va, Inl e)"
  | (saved) va' a where "delete_secret_from_portable_vault_in io r va = (va', Inr ())" "vault_ok va'"
      "portable_vault_account r = Inr a" "file_contents (va_file va') = (file_contents (va_file va))(a := None)"
proof (cases "\<exists>a sh. portable_vault_account r = Inr a \<and> va_stronghold va = Some sh \<and> vi_client io \<and> vi_change io 0")
  case True
  then obtain a sh where a: "portable_vault_account r = Inr a" "va_stronghold va = Some sh" "vi_client io" "vi_change io 0"
    by blast
  show ?thesis
    by (cases rule: save_or_restore_cases [OF assms(1) a(2) assms(2), of "(sh_values sh)(a := None)"])
       (use a in \<open>auto intro: that simp add: delete_secret_from_portable_vault_in_def\<close>)
next
  case False
  then have "\<exists>e. delete_secret_from_portable_vault_in io r va = (va, Inl e)"
    by (auto simp add: delete_secret_from_portable_vault_in_def split: sum.split option.split)
  then show ?thesis using that(1) by blast
qed

lemma rotate_cases:
  assumes "vault_ok va"
  obtains (failed) e where "rotate_portable_vault_password_in io io' p q va = (va, Inl e)"
  | (saved) va' where "rotate_portable_vault_password_in io io' p q va = (va', Inr ())" "vault_ok va'"
      "file_contents (va_file va') = file_contents (va_file va)" "vf_password (va_file va') = q"
      "vf_password (va_file va) = p" "8 \<le> length q"
proof (cases "\<exists>sh. vf_secrets (va_file va) \<noteq> None \<and> 8 \<le> length q \<and> p \<noteq> q \<and> va_stronghold va = Some sh \<and>
    is_ok (snd (open_portable_vault io io' p (va_file va))) \<and> vi_salt io'")
  case True
  then obtain sh sh0 where sh: "vf_secrets (va_file va) \<noteq> None" "8 \<le> length q" "p \<noteq> q" "va_stronghold va = Some sh"
    "open_portable_vault io io' p (va_file va) = (va_file va, Inr sh0)" "vi_salt io'"
    using open_existing(1) [of "va_file va" io io' p] by (auto simp add: is_ok_iff prod_eq_iff)
  have p: "vf_password (va_file va) = p"
    using sh(1) open_existing(2) [OF sh(1,5)] by (auto simp add: new_stronghold_def split: if_splits)
  show ?thesis
  proof (cases rule: rekey_cases [of io' q "va_file va" sh])
    case (failed e)
    then have "rotate_portable_vault_password_in io io' p q va = (va, Inl e)"
      using sh by (cases va) (auto simp add: rotate_portable_vault_password_in_def)
    then show ?thesis by (rule that(1))
  next
    case (saved sh')
    have ok: "vault_ok (va\<lparr>va_file := commit_file (sh_values sh) q (va_file va), va_stronghold := Some sh'\<rparr>)"
      by (rule rekey_ok [OF saved(1)])
    have "sh_values sh = file_contents (va_file va)" using assms saved(2) sh(4) by (simp add: vault_ok_def)
    then show ?thesis
      using saved(1) sh p by (intro that(2) [OF _ ok]) (auto simp add: rotate_portable_vault_password_in_def)
  qed
next
  case False
  then have "\<exists>e. rotate_portable_vault_password_in io io' p q va = (va, Inl e)"
    using open_existing(1) [of "va_file va" io io' p]
    by (auto simp add: rotate_portable_vault_password_in_def is_ok_iff prod_eq_iff split: option.split sum.split prod.split)
  then show ?thesis using that(1) by blast
qed

lemma write_batch_cases:
  assumes "vi_restore io'" "vault_ok va"
  obtains (failed) e where "write_secret_batch_to_portable_vault_in io io' entries va = (va, Inl e)"
  | (saved) va' b accounts where "write_secret_batch_to_portable_vault_in io io' entries va = (va', Inr b)" "vault_ok va'"
      "batch_accounts [] (map fst entries) = Inr accounts"
      "file_contents (va_file va') =
         fold (\<lambda>(a, v) m. m(a := v)) (zip accounts (map (Some \<circ> snd) entries)) (file_contents (va_file va))"
proof (cases "batch_accounts [] (map fst entries)")
  case (Inl e)
  then show ?thesis by (intro that(1)) (simp add: write_secret_batch_to_portable_vault_in_def)
next
  case (Inr accounts)
  then show ?thesis
    by (cases rule: batch_cases [OF assms, of io "zip accounts (map (Some \<circ> snd) entries)"])
       (auto intro: that simp add: write_secret_batch_to_portable_vault_in_def)
qed

lemma delete_batch_cases:
  assumes "vi_restore io'" "vault_ok va"
  obtains (failed) e where "delete_secret_batch_from_portable_vault_in io io' refs va = (va, Inl e)"
  | (saved) va' b accounts where "delete_secret_batch_from_portable_vault_in io io' refs va = (va', Inr b)" "vault_ok va'"
      "batch_accounts [] refs = Inr accounts"
      "file_contents (va_file va') =
         fold (\<lambda>(a, v) m. m(a := v)) (map (\<lambda>a. (a, None)) accounts) (file_contents (va_file va))"
proof (cases "batch_accounts [] refs")
  case (Inl e)
  then show ?thesis by (intro that(1)) (simp add: delete_secret_batch_from_portable_vault_in_def)
next
  case (Inr accounts)
  then show ?thesis
    by (cases rule: batch_cases [OF assms, of io "map (\<lambda>a. (a, None)) accounts"])
       (auto intro: that simp add: delete_secret_batch_from_portable_vault_in_def)
qed

lemma vault_step_ok: "vault_step va va' \<Longrightarrow> vault_ok va \<Longrightarrow> vault_ok va'"
proof (induction rule: vault_step.induct)
  case (vault_unlock va io io' password)
  then show ?case by (rule unlock_ok)
next
  case (vault_create va io io' password)
  then show ?case by (cases rule: create_cases [of io io' password va]) auto
next
  case (vault_write io va r v)
  show ?case by (cases rule: write_cases [OF vault_write, of r v]) (use vault_write in auto)
next
  case (vault_delete io va r)
  show ?case by (cases rule: delete_cases [OF vault_delete, of r]) (use vault_delete in auto)
next
  case (vault_write_batch io' va io entries)
  show ?case by (cases rule: write_batch_cases [OF vault_write_batch, of io entries]) (use vault_write_batch in auto)
next
  case (vault_delete_batch io' va io refs)
  show ?case by (cases rule: delete_batch_cases [OF vault_delete_batch, of io refs]) (use vault_delete_batch in auto)
next
  case (vault_rotate va io io' p q)
  show ?case by (cases rule: rotate_cases [OF vault_rotate, of io io' p q]) (use vault_rotate in auto)
next
  case (other_instance va m p)
  then show ?case by (auto simp add: vault_ok_def split: option.splits)
qed (simp add: vault_ok_def)

lemma vault_reachable_ok: "vault_reachable va \<Longrightarrow> vault_ok va"
  by (induction rule: vault_reachable.induct) (auto simp add: vault_ok_def dest: vault_step_ok)

lemma map_Inr_accounts:
  assumes "batch_accounts [] refs = Inr accounts"
  shows "distinct accounts" "map Inr accounts = map portable_vault_account refs"
proof -
  show "distinct accounts" using batch_accounts_Inr(1) [OF assms] by simp
  have "accounts = map (\<lambda>r. case portable_vault_account r of Inr a \<Rightarrow> a | Inl _ \<Rightarrow> []) refs"
    using batch_accounts_Inr(3) [OF assms] by simp
  moreover have "\<forall>r \<in> set refs. is_ok (portable_vault_account r)" using batch_accounts_Inr(4) [OF assms] by simp
  ultimately show "map Inr accounts = map portable_vault_account refs" by (auto simp add: is_ok_iff)
qed

lemma fold_updates:
  assumes "distinct as" "length vs = length as"
  shows "fold (\<lambda>(a, v) m. m(a := v)) (zip as (map (Some \<circ> f) vs)) m = m ++ map_of (zip as (map f vs))"
  using assms(2,1)
proof (induction vs as arbitrary: m rule: list_induct2)
  case (Cons v vs a as)
  have none: "map_of (zip as (map f vs)) a = None"
    using Cons.prems by (auto simp add: map_of_eq_None_iff dest: set_zip_leftD)
  have "fold (\<lambda>(a, v) m. m(a := v)) (zip as (map (Some \<circ> f) vs)) (m(a \<mapsto> f v)) =
      m(a \<mapsto> f v) ++ map_of (zip as (map f vs))"
    using Cons.prems by (intro Cons.IH) simp
  moreover have "m(a \<mapsto> f v) ++ map_of (zip as (map f vs)) = m ++ map_of (zip (a # as) (map f (v # vs)))"
    by (rule ext) (auto simp add: map_add_def none split: option.split)
  ultimately show ?case by (simp add: comp_def del: fun_upd_apply)
qed simp

lemma fold_deletes: "fold (\<lambda>(a, v) m. m(a := v)) (map (\<lambda>a. (a, None)) as) m = m |` (- set as)"
  by (induction as arbitrary: m) (auto simp add: restrict_map_def fun_eq_iff)

section \<open>Properties\<close>


definition ex_vault_io :: vault_io where
  "ex_vault_io = \<lparr>vi_lock = True, vi_version = True, vi_commit = True, vi_refresh = True, vi_salt = True, vi_client = True,
     vi_change = \<lambda>_. True, vi_restore = True\<rparr>"

definition ex_vault :: vault where
  "ex_vault = fst (create_portable_vault_in ex_vault_io ex_vault_io (str ''password'')
     \<lparr>va_file = \<lparr>vf_commits = 0, vf_secrets = None, vf_password = []\<rparr>, va_stronghold = None\<rparr>)"


end
