(* ===== verification/Json_Merge.thy ===== *)
theory Json_Merge
  imports Mcp_Http
begin

text \<open>
  The three-way merge with which an edit made on an older version of a profile or an identity is
  applied to the current one (\<open>merge_expected_json_value\<close> in \<open>src-tauri/src/profile_commands.rs\<close>).
  It works on the serialised values; \<open>expected\<close> is the version the edit started from, \<open>current\<close>
  the stored one and \<open>incoming\<close> the edited one. An object is the list of its members in the order
  of their keys, the one in which the \<open>BTreeMap\<close> behind \<open>serde_json::Map\<close> holds them, so that equal
  objects are equal lists.
\<close>

datatype MergeError = MergeConflict ustr ustr | MergeStructure ustr ustr

definition keys_of :: "(ustr \<times> json) list \<Rightarrow> ustr set" where
  "keys_of members = fst ` set members"

definition same_keys :: "(ustr \<times> json) list \<Rightarrow> (ustr \<times> json) list \<Rightarrow> (ustr \<times> json) list \<Rightarrow> bool" where
  "same_keys e c i \<longleftrightarrow>
     length e = length c \<and> length e = length i \<and>
     list_all (\<lambda>(k, _). k \<in> keys_of c \<and> k \<in> keys_of i) e"

text \<open>The \<open>get(key).expect(..)\<close> of the loop; the keys have been compared before.\<close>

definition member :: "(ustr \<times> json) list \<Rightarrow> ustr \<Rightarrow> json" where
  "member members key = (case map_of members key of Some v \<Rightarrow> v | None \<Rightarrow> JNull)"

fun merge_expected_json_value :: "ustr \<Rightarrow> ustr \<Rightarrow> json \<Rightarrow> json \<Rightarrow> json \<Rightarrow> MergeError + json"
and merge_members ::
  "ustr \<Rightarrow> ustr \<Rightarrow> (ustr \<times> json) list \<Rightarrow> (ustr \<times> json) list \<Rightarrow> (ustr \<times> json) list \<Rightarrow> MergeError + (ustr \<times> json) list" where
  "merge_expected_json_value entity path expected current incoming =
     (if incoming = expected then Inr current
      else if current = expected \<or> incoming = current then Inr incoming
      else (case expected of
              JObject e \<Rightarrow>
                (case (current, incoming) of
                   (JObject c, JObject i) \<Rightarrow>
                     if \<not> same_keys e c i then Inl (MergeStructure entity path)
                     else and_then (merge_members entity path e c i) (\<lambda>merged. Inr (JObject merged))
                 | _ \<Rightarrow> Inl (MergeConflict entity path))
            | _ \<Rightarrow> Inl (MergeConflict entity path)))"
| "merge_members entity path [] c i = Inr []"
| "merge_members entity path ((key, expected_value) # e) c i =
     and_then (merge_expected_json_value entity (path @ str ''.'' @ key) expected_value (member c key) (member i key))
       (\<lambda>v. and_then (merge_members entity path e c i) (\<lambda>merged. Inr ((key, v) # merged)))"

declare merge_expected_json_value.simps [simp del]

text \<open>The value at a path of keys.\<close>

fun json_at :: "ustr list \<Rightarrow> json \<Rightarrow> json option" where
  "json_at [] v = Some v"
| "json_at (k # ks) v =
     (case v of
        JObject members \<Rightarrow> Option.bind (map_of members k) (json_at ks)
      | _ \<Rightarrow> None)"

text \<open>Objects whose keys are different, as every serialised one.\<close>

fun keys_distinct :: "json \<Rightarrow> bool" where
  "keys_distinct (JObject members) \<longleftrightarrow> distinct (map fst members) \<and> (\<forall>(k, v) \<in> set members. keys_distinct v)"
| "keys_distinct _ \<longleftrightarrow> True"

lemma same_keys_commute: "same_keys e c i = same_keys e i c"
  by (auto simp add: same_keys_def list_all_iff)

lemma merge_commute:
  "merge_expected_json_value entity path e c i = merge_expected_json_value entity path e i c"
  "merge_members entity path es cs is = merge_members entity path es is cs"
proof (induction entity path e c i and entity path es cs "is" rule: merge_expected_json_value_merge_members.induct)
  case (1 entity path e c i)
  show ?case
  proof (cases "i = e \<or> c = e \<or> i = c")
    case True
    then show ?thesis by (auto simp add: merge_expected_json_value.simps [of entity path e])
  next
    case False
    then show ?thesis
      using 1 by (auto simp add: merge_expected_json_value.simps [of entity path e] same_keys_commute split: json.split)
  qed
qed simp_all

lemma merge_members_lookup:
  assumes "merge_members entity path e c i = Inr ms"
  shows "map_of e k = None \<Longrightarrow> map_of ms k = None"
    "map_of e k = Some ev \<Longrightarrow> \<exists>v. map_of ms k = Some v \<and>
       merge_expected_json_value entity (path @ str ''.'' @ k) ev (member c k) (member i k) = Inr v"
  using assms
  by (induction e arbitrary: ms) (auto simp add: and_then_eq_Inr split: if_splits)

lemma same_keys_sets:
  assumes "same_keys e c i" "distinct (map fst e)" "distinct (map fst c)" "distinct (map fst i)"
  shows "fst ` set c = fst ` set e" "fst ` set i = fst ` set e"
proof -
  have card: "card (fst ` set xs) = length xs" if "distinct (map fst xs)" for xs :: "(ustr \<times> json) list"
    using distinct_card [OF that] by simp
  have "fst ` set e \<subseteq> fst ` set c" "fst ` set e \<subseteq> fst ` set i"
    using assms(1) by (auto simp add: same_keys_def keys_of_def list_all_iff)
  moreover have "card (fst ` set c) = card (fst ` set e)" "card (fst ` set i) = card (fst ` set e)"
    using assms card by (simp_all add: same_keys_def)
  ultimately show "fst ` set c = fst ` set e" "fst ` set i = fst ` set e"
    by (metis card_subset_eq finite_imageI finite_set)+
qed

text \<open>At every path the merge takes the side that changed.\<close>

lemma merge_at:
  assumes "merge_expected_json_value entity path e c i = Inr m" "keys_distinct e" "keys_distinct c" "keys_distinct i"
  shows "(json_at p i = json_at p e \<longrightarrow> json_at p m = json_at p c) \<and>
    (json_at p c = json_at p e \<longrightarrow> json_at p m = json_at p i) \<and>
    (json_at p c = json_at p i \<longrightarrow> json_at p m = json_at p c)"
  using assms
proof (induction p arbitrary: path e c i m)
  case Nil
  then show ?case by (auto simp add: merge_expected_json_value.simps [of entity path e] split: if_splits)
next
  case (Cons k ks)
  show ?case
  proof (cases "i = e \<or> c = e \<or> i = c")
    case True
    then show ?thesis using Cons.prems(1) by (auto simp add: merge_expected_json_value.simps [of entity path e] split: if_splits)
  next
    case False
    then obtain es cs is' ms where o: "e = JObject es" "c = JObject cs" "i = JObject is'" "m = JObject ms"
      "same_keys es cs is'" "merge_members entity path es cs is' = Inr ms"
      using Cons.prems(1)
      by (auto simp add: merge_expected_json_value.simps [of entity path e] and_then_eq_Inr split: json.splits if_splits)
    have d: "distinct (map fst es)" "distinct (map fst cs)" "distinct (map fst is')"
      using Cons.prems(2-4) o by simp_all
    note keys = same_keys_sets [OF o(5) d]
    show ?thesis
    proof (cases "map_of es k")
      case None
      then have "map_of cs k = None" "map_of is' k = None" using keys by (auto simp add: map_of_eq_None_iff)
      then show ?thesis using None merge_members_lookup(1) [OF o(6)] o by simp
    next
      case (Some ev)
      then obtain v where v: "map_of ms k = Some v"
        "merge_expected_json_value entity (path @ str ''.'' @ k) ev (member cs k) (member is' k) = Inr v"
        using merge_members_lookup(2) [OF o(6)] by blast
      have "k \<in> fst ` set es" using Some by (metis domI dom_map_of_conv_image_fst)
      then obtain cv iv where cv: "map_of cs k = Some cv" "map_of is' k = Some iv"
        using keys by (metis map_of_eq_None_iff option.exhaust)
      have kd: "keys_distinct ev" "keys_distinct cv" "keys_distinct iv"
        using Cons.prems(2-4) o Some cv by (auto dest: map_of_SomeD)
      show ?thesis
        using Cons.IH [OF v(2)] kd cv v(1) Some o by (simp add: member_def)
    qed
  qed
qed

section \<open>Properties\<close>

text \<open>C7. The merge of an edit is a three-way merge: at every path, what the edit did not change has
  its current value, what was not changed meanwhile has the edited value, and what both sides
  changed alike has that value; whenever it succeeds no other path exists. Which of the two sides
  is called current makes no difference, for errors neither.\<close>

theorem merge_is_three_way:
  assumes "keys_distinct e" "keys_distinct c" "keys_distinct i"
  shows "merge_expected_json_value entity path e c i = merge_expected_json_value entity path e i c \<and>
    (\<forall>m p. merge_expected_json_value entity path e c i = Inr m \<longrightarrow>
       (json_at p i = json_at p e \<longrightarrow> json_at p m = json_at p c) \<and>
       (json_at p c = json_at p e \<longrightarrow> json_at p m = json_at p i) \<and>
       (json_at p c = json_at p i \<longrightarrow> json_at p m = json_at p c))"
  using merge_commute(1) merge_at [OF _ assms] by blast

theorem merge_is_three_way_witness:
  "\<exists>m. merge_expected_json_value (str ''Profile'') [] (JObject [(str ''a'', JBool True), (str ''b'', JNull)])
      (JObject [(str ''a'', JBool False), (str ''b'', JNull)]) (JObject [(str ''a'', JBool True), (str ''b'', JBool True)]) = Inr m \<and>
    json_at [str ''a''] m = Some (JBool False) \<and> json_at [str ''b''] m = Some (JBool True)"
proof -
  let ?e = "JObject [(str ''a'', JBool True), (str ''b'', JNull)]"
    and ?c = "JObject [(str ''a'', JBool False), (str ''b'', JNull)]"
    and ?i = "JObject [(str ''a'', JBool True), (str ''b'', JBool True)]"
  have m: "\<exists>m. merge_expected_json_value (str ''Profile'') [] ?e ?c ?i = Inr m"
    by (simp add: merge_expected_json_value.simps same_keys_def keys_of_def member_def)
  have "keys_distinct ?e" "keys_distinct ?c" "keys_distinct ?i" by simp_all
  note three = merge_is_three_way [OF this, of "str ''Profile''" "[]"]
  from m obtain m where m: "merge_expected_json_value (str ''Profile'') [] ?e ?c ?i = Inr m" by blast
  have a: "json_at [str ''a''] m = json_at [str ''a''] ?c" if "json_at [str ''a''] ?i = json_at [str ''a''] ?e"
    using three m that by blast
  have b: "json_at [str ''b''] m = json_at [str ''b''] ?i" if "json_at [str ''b''] ?c = json_at [str ''b''] ?e"
    using three m that by blast
  have "json_at [str ''a''] m = Some (JBool False)" "json_at [str ''b''] m = Some (JBool True)"
    by (subst a; simp) (subst b; simp)
  then show ?thesis using m by blast
qed

end
