(* ===== verification/Spec2Isabelle.thy ===== *)
theory Spec2Isabelle
  imports Store_Properties Triggers Tunnels Scripts Mcp_Transfer Telnet Ymodem Proxy Tmux Mcp_Http
    Profile_Norm Transactions Tunnel_Store Transfer_Request Transfer_State Mcp_Requests Mcp_Gate
    Store_Load Portable_Vault Json_Merge
begin

text \<open>
  PortMate is a desktop terminal for SSH, serial, TCP and Telnet sessions that lends parts of its
  sessions to MCP clients. A Rust core crate (\<open>crates/portmate-core\<close>) holds the data model and the
  session store, the desktop process (\<open>src-tauri\<close>) drives transports and transfers and is the only
  writer of the store, and a separate process (\<open>crates/portmate-mcp\<close>) speaks the MCP protocol. This
  development models the core crate, the wire protocols of the desktop process that are functions
  of bytes, the rules and transactions of the desktop process around the store (profiles, tunnels,
  transfers, MCP requests) and the HTTP front end of the MCP process, and proves what makes them
  correct.

  \<^bold>\<open>Parts and theories.\<close>

    \<^item> \<open>PM_Prelude\<close>, \<open>Rust_Str\<close>, \<open>Bounded_Log\<close>, \<open>List_Rules\<close>, \<open>Wire_Bytes\<close>: results as sums, list,
      map and word lemmas; Rust's \<open>str\<close> functions on lists of scalar values; the locale of a bounded
      log; the locale of a normalised list; UTF-8, network byte order and the locale of a machine
      that reads a stream in chunks.
    \<^item> \<open>Security_Model\<close>, \<open>Connection_Model\<close>, \<open>Session_Model\<close>: the structs and enums of
      \<open>portmate-core/src/models\<close> as records and datatypes, their defaults and normalisations.
    \<^item> \<open>Grants\<close> (\<open>models/mcp.rs\<close>), \<open>Host_Keys\<close> (\<open>host_keys.rs\<close>), \<open>Event_Sink\<close>
      (\<open>store_system_events.rs\<close>), \<open>Redaction\<close> (\<open>redaction.rs\<close>): what the store is built from.
    \<^item> \<open>Store_State\<close>, \<open>Store_Histories\<close>, \<open>Store_Events\<close>, \<open>Store_Sessions\<close>, \<open>Store_Security\<close>
      (\<open>store.rs\<close> and \<open>store/*.rs\<close>): the session store. Its state is the record \<open>SessionStore\<close> and
      each method is a function that returns the new store and the result of the method.
      \<open>Store_Machine\<close> is the store as a step relation with one rule for each operation, and
      \<open>Store_Properties\<close> holds the theorems.
    \<^item> \<open>Triggers\<close>, \<open>Tunnels\<close>, \<open>Scripts\<close>, \<open>Mcp_Transfer\<close> (\<open>triggers.rs\<close>, \<open>tunnels.rs\<close>,
      \<open>custom_scripts.rs\<close>, \<open>mcp_transfer.rs\<close>, \<open>hex.rs\<close>): the rules a profile and an MCP request are
      held to.
    \<^item> \<open>Telnet\<close> (\<open>telnet_protocol.rs\<close>): the option negotiator and the encoding of input.
    \<^item> \<open>Modem\<close> (\<open>modem_protocol.rs\<close>, \<open>modem_xmodem.rs\<close>): packets, checksums, retries and XModem
      transfers in both directions. \<open>Ymodem\<close> (\<open>modem_ymodem.rs\<close>, \<open>file_operation_paths.rs\<close>): YModem
      batches, the names and sizes they announce and where a received file is put.
    \<^item> \<open>Proxy\<close> (\<open>proxy_protocol.rs\<close>, \<open>proxy_protocol/socks5_server.rs\<close>): HTTP CONNECT and SOCKS5.
    \<^item> \<open>Tmux\<close> (\<open>tmux_protocol.rs\<close>): shell commands, listings and control-mode lines.
    \<^item> \<open>Http_Request\<close> (\<open>portmate-mcp/src/http_request.rs\<close>): reading a request with its limits and
      chunks. \<open>Mcp_Http\<close> (\<open>http_security.rs\<close>, \<open>http_protocol.rs\<close>, \<open>json_rpc.rs\<close>, \<open>http_server.rs\<close>):
      tokens, origins, media types, JSON-RPC dispatch and the handling of a connection.
    \<^item> \<open>Profile_Norm\<close> (\<open>profile_normalization.rs\<close>): what a profile becomes before it is stored.
      \<open>Transactions\<close> (\<open>store_transactions.rs\<close>): changes of the store that are saved or undone.
    \<^item> \<open>Loaded_Ids\<close>, \<open>One_Keys\<close>, \<open>Store_Load\<close> (\<open>store_normalization.rs\<close>, \<open>store_normalization/*.rs\<close>,
      \<open>profile_security.rs\<close>, \<open>one_key_runtime.rs\<close>): loading a saved store, with the identifiers,
      grants, credentials, runtimes and transfers in it brought into a form the process can work with.
      \<open>Portable_Vault\<close> (\<open>portable_vault.rs\<close>, \<open>state_snapshot.rs\<close>): the vault of secrets, which
      several instances of the program share. \<open>Json_Merge\<close> (\<open>profile_commands.rs\<close>): the merge of
      concurrent edits.
    \<^item> \<open>Tunnel_Store\<close> (\<open>ssh_tunnel_request.rs\<close>, \<open>ssh_tunnel_store.rs\<close> and the registry functions of
      \<open>ssh_tunnel.rs\<close>, \<open>ssh_tunnel_runtime.rs\<close>, \<open>ssh_tunnel_lifecycle.rs\<close>): tunnel requests, the tunnels
      that run, and what the profile and the log keep of them.
    \<^item> \<open>Transfer_Request\<close> (\<open>transfer_request.rs\<close>, \<open>mcp_transfer_validation.rs\<close>): which transfers are
      permitted and where their local paths lead. \<open>Transfer_State\<close> (\<open>transfer_runtime.rs\<close>,
      \<open>transfer_runtime/state.rs\<close>, \<open>transfer_progress.rs\<close>): a step relation in which the tasks of all
      transfers, the user and the rest of the process interleave.
    \<^item> \<open>Mcp_Control\<close> (\<open>mcp_control.rs\<close>): grants, HTTP settings and pending approvals.
      \<open>Mcp_Requests\<close> (\<open>mcp_request_validation.rs\<close>): scopes, arguments, the text of an approval and the
      context of a write. \<open>Mcp_Gate\<close> (\<open>mcp_authorization.rs\<close>): a write request from its arrival over
      authorisation, audit and approval to its execution, with other parts of the process acting
      between any two steps.

  The parts meet in the store: sessions, transfers and MCP requests record events through
  \<open>record_prepared_event\<close> and \<open>push_system_event\<close>, events feed the terminal screen, the bounded log
  and the outbox of the event sink; deleting a profile reaches into grants, host keys, histories
  and the outbox. The wire protocols are used by the transports: \<open>Telnet\<close> filters what a TCP session
  reads, \<open>Modem\<close> runs over a serial session, the SOCKS5 server serves dynamic tunnels whose targets
  \<open>tunnel_route_allowed\<close> decides. A request of an MCP client passes \<open>Mcp_Gate\<close>, which asks the store
  for grants, \<open>Mcp_Requests\<close> for the arguments and \<open>Mcp_Control\<close> for the approval, and whose audit
  records are changes in the sense of \<open>Transactions\<close>.

  \<^bold>\<open>What is shown.\<close> The store: an invariant of every reachable store (exact event counts, bounded
  histories, one runtime for each profile), what each operation changes, that nothing of a deleted
  session remains and no client gains a permission by it, that a search returns exactly the events
  a client may read, that a redacted bundle has no secret. Host keys: the verdict on an observed
  key, isolation between profiles, the known-hosts round trip. Lists of triggers, tunnels and
  scripts: normalising gives what validation accepts and is idempotent. Wire protocols: chunks of
  the stream do not matter, encoders and decoders are inverse, negotiation ends, retries are
  bounded, damaged packets are rejected, handshakes consume no byte of the session and the shell
  reads a command as the words it was built from. Received files: a YModem transfer commits the
  content that was sent, in the chosen directory whatever name is announced. The HTTP front end:
  nothing is dispatched or disclosed without the token, bodies are bounded, chunked bodies are
  decoded exactly however they arrive. The desktop process: a normalised profile is well formed, a
  change of the store is saved or undone with its events, an accepted tunnel request is one the
  profile validation accepts and binds no public address unasked, a prepared transfer is permitted
  and stable, a boot loader command is one line of harmless words, an active transfer always has a
  task that can bring it to its end and a cancelled one is never recorded as completed; an MCP write is executed only
  with a grant at the time of the request and again just before execution, with the approval the
  grant asks for, and after its audit record was saved. Loading a saved store always returns,
  establishes the invariants whatever the file holds, loses no session and widens no grant; the
  vault behaves as a map whatever other instances write; concurrent edits merge at every path.

  \<^bold>\<open>Choices.\<close> Errors are constructors of an error type for each component; the texts shown to the
  user are not modelled. A panic of the code is \<open>None\<close>, and functions that could panic are shown to
  return. Loops are recursive functions with a measure; the search loop of the redaction is
  \<open>while_option\<close> and is shown to return; the exchange of two Telnet ends in the statement on
  negotiation has fuel, and the statement gives the number of rounds that is enough. Integers keep
  their width where they wrap (ports, block numbers, checksums, revisions); times are integers of
  milliseconds. Hash maps are maps; their iteration order is used nowhere.

  \<^bold>\<open>Third-party code\<close> is an argument of the definitions that call it: hashes and base64, regular
  expressions, the terminal emulator, the parser of HTTP heads, JSON and the length of a value in
  it, the reading of request types out of JSON, IP networks, UUID and URL parsing, the formatting of
  dates, whether a write or a check succeeds (\<open>modem_env\<close>, the saving of the store), and what other
  threads do to the state between two locks (\<open>ge_world\<close>). What the code relies on is a hypothesis of the theorem, and its witness
  instantiates it.

  \<^bold>\<open>Not modelled.\<close> Asynchronous tasks, locks and time limits; files, sockets, SQLite and the key
  ring; SSH, SFTP and SCP sessions; ZModem; of the MCP server process the bridge, the resources and
  the listener; the user interface; vendored libraries. The next parts are the TFTP packets, the
  pacing of input and the reconnection policies.
\<close>

end
